(* ===== verification/CE_Prelude.thy ===== *)
theory CE_Prelude
  imports Main "HOL-Library.Char_ord" "HOL-Library.List_Lexorder" "HOL-Library.Product_Lexorder"
begin

text \<open>
  Shared vocabulary of the development: the types that stand for the program's primitive data,
  the values thrown by its code, a small library for tables of rows with a key column (the SQLite
  tables behind the repositories and the insertion-ordered JavaScript maps of the services), and
  the generic lemmas about them that the component theories use.
\<close>

section \<open>Primitive data\<close>

text \<open>
  JavaScript strings are character lists. An ISO instant (\<open>toISOString\<close>) is represented by its
  number of milliseconds: the strings have one fixed width, so comparing them as text, as the SQL
  statements do, is comparing the instants. A JavaScript number that the code uses as a counter,
  a revision or a size is an \<open>int\<close>; where the code tests for a safe integer the model tests
  \<open>safe_integer\<close>.
\<close>

type_synonym timestamp = int
type_synonym bytes = "nat list"

definition MAX_SAFE_INTEGER :: int where
  "MAX_SAFE_INTEGER = 9007199254740991"

definition safe_integer :: "int \<Rightarrow> bool" where
  "safe_integer n \<longleftrightarrow> - MAX_SAFE_INTEGER \<le> n \<and> n \<le> MAX_SAFE_INTEGER"

text \<open>
  A JavaScript value of type \<open>unknown\<close>. \<open>JNonFinite\<close> is \<open>NaN\<close> or an infinity and \<open>JOpaque\<close> a
  function, symbol or bigint. Objects keep their entries in insertion order.
\<close>

datatype js =
    JUndefined
  | JNull
  | JBool bool
  | JNum int
  | JNonFinite
  | JStr string
  | JArr "js list"
  | JObj "(string \<times> js) list"
  | JOpaque

text \<open>
  Reading a property of an object gives \<open>undefined\<close> when the object has no such key.
\<close>

definition js_get :: "(string \<times> js) list \<Rightarrow> string \<Rightarrow> js" where
  "js_get fields k = (case map_of fields k of Some v \<Rightarrow> v | None \<Rightarrow> JUndefined)"

text \<open>\<open>String.prototype.trim\<close> on the code units below 256.\<close>

definition js_space :: "char \<Rightarrow> bool" where
  "js_space c \<longleftrightarrow> of_char c \<in> {9, 10, 11, 12, 13, 32, 160 :: nat}"

definition js_trim :: "string \<Rightarrow> string" where
  "js_trim s = rev (dropWhile js_space (rev (dropWhile js_space s)))"

text \<open>
  \<open>js_prop\<close> reads a named property of any value: only objects have one. \<open>json_number\<close> is \<open>String(n)\<close> of an
  integer, and what \<open>JSON.stringify\<close> writes for it.
\<close>

fun js_prop :: "js \<Rightarrow> string \<Rightarrow> js" where
  "js_prop (JObj fs) k = js_get fs k"
| "js_prop _ k = JUndefined"

lemma js_get_simps [simp]:
  "js_get [] k = JUndefined"
  "js_get ((k', v) # fs) k = (if k = k' then v else js_get fs k)"
  by (simp_all add: js_get_def)

definition hex_digit :: "nat \<Rightarrow> char" where
  "hex_digit n = ''0123456789abcdef'' ! (n mod 16)"

fun nat_digits :: "nat \<Rightarrow> string" where
  "nat_digits n = (if n < 10 then [hex_digit n] else nat_digits (n div 10) @ [hex_digit (n mod 10)])"

definition json_number :: "int \<Rightarrow> string" where
  "json_number n = (if n < 0 then ''-'' @ nat_digits (nat (- n)) else nat_digits (nat n))"

text \<open>
  A TEXT column written with \<open>JSON.stringify\<close> and read with \<open>JSON.parse\<close> is represented by the
  value the text denotes, or by \<open>BadJson\<close> when it denotes none.
\<close>

datatype json_text = JsonText js | BadJson string

section \<open>Errors\<close>

text \<open>
  The payload of a Gateway error (\<open>GatewayErrorPayload\<close>) and the values the modelled code throws:
  one constructor per error class, \<open>Error\<close> for \<open>new Error(message)\<close> and \<open>SqlConstraint\<close> for the
  exception SQLite raises when a statement violates a PRIMARY KEY, UNIQUE or CHECK constraint.
\<close>

record gateway_error =
  ge_code :: string
  ge_message :: string
  ge_retryable :: "bool option"
  ge_details :: "js option"
  ge_close_connection :: bool

datatype ce_error =
    Error string
  | SqlConstraint string
  | ScopeClosedError string
  | AggregateError "ce_error list" string
  | DuplicateServiceError string
  | MissingServiceError string
  | QueueStateConflictError string string
  | MutationReceiptConflictError string
  | WorkspaceRevisionConflictError string
  | WorkspaceInUseError string
  | PreferencesRevisionConflictError
  | ThreadSettingsRevisionConflictError string
  | DeviceBindingConflictError string
  | DeviceTrustRepositoryError string string
  | InteractionAlreadyResolvedError string
  | ManagedUserConflictError string
  | ManagedUserRevisionConflictError string
  | AdminAuditCursorError
  | GatewayV2Error gateway_error

definition gateway_v2_error :: "string \<Rightarrow> string \<Rightarrow> gateway_error" where
  "gateway_v2_error code message =
     \<lparr>ge_code = code, ge_message = message, ge_retryable = None, ge_details = None,
      ge_close_connection = False\<rparr>"

section \<open>Transactions\<close>

text \<open>
  The body of a transaction either throws, or returns a result and the new database.
  \<open>run_tx\<close> is what the caller observes: a throwing body is rolled back.
\<close>

type_synonym ('db, 'a) tx = "'db \<Rightarrow> ce_error + ('a \<times> 'db)"
type_synonym ('db, 'a) outcome = "(ce_error + 'a) \<times> 'db"

definition run_tx :: "('db, 'a) tx \<Rightarrow> 'db \<Rightarrow> ('db, 'a) outcome" where
  "run_tx body db = (case body db of Inl e \<Rightarrow> (Inl e, db) | Inr (r, db') \<Rightarrow> (Inr r, db'))"

lemma run_tx_Inl [simp]: "body db = Inl e \<Longrightarrow> run_tx body db = (Inl e, db)"
  by (simp add: run_tx_def)

lemma run_tx_Inr [simp]: "body db = Inr (r, db') \<Longrightarrow> run_tx body db = (Inr r, db')"
  by (simp add: run_tx_def)

lemma run_tx_error_rolls_back: "run_tx body db = (Inl e, db') \<Longrightarrow> db' = db"
  by (auto simp: run_tx_def split: sum.splits)

lemma run_tx_result: "run_tx body db = (Inr r, db') \<longleftrightarrow> body db = Inr (r, db')"
  by (auto simp: run_tx_def split: sum.splits)

lemma run_tx_cases:
  obtains (error) e where "body db = Inl e" and "run_tx body db = (Inl e, db)"
  | (commit) r db' where "body db = Inr (r, db')" and "run_tx body db = (Inr r, db')"
  by (cases "body db") (auto simp: run_tx_def)

text \<open>Whether a transaction returned normally, and the database after it.\<close>

definition returns :: "('db, 'a) outcome \<Rightarrow> bool \<times> 'db" where
  "returns x = (\<not> isl (fst x), snd x)"

lemma returns_run_tx:
  "returns (run_tx body db) = (b, db') \<longleftrightarrow>
     (b \<and> (\<exists>r. body db = Inr (r, db')) \<or> \<not> b \<and> isl (body db) \<and> db' = db)"
  by (cases "body db") (auto simp: returns_def run_tx_def)

section \<open>Tables with a key column\<close>

text \<open>
  A table is the list of its rows. \<open>t_find\<close> is \<open>SELECT ... WHERE key = ?\<close> (its first row),
  \<open>t_update\<close> is \<open>UPDATE ... WHERE\<close>, \<open>t_delete\<close> is \<open>DELETE ... WHERE\<close> and \<open>t_count\<close> the number
  of rows a \<open>WHERE\<close> selects, which is what \<open>getRowsModified\<close> returns after such a statement.
\<close>

named_theorems table_simps

definition t_find :: "('r \<Rightarrow> 'k) \<Rightarrow> 'k \<Rightarrow> 'r list \<Rightarrow> 'r option" where
  "t_find key k rows = find (\<lambda>r. key r = k) rows"

definition t_count :: "('r \<Rightarrow> bool) \<Rightarrow> 'r list \<Rightarrow> nat" where
  "t_count p rows = length (filter p rows)"

definition t_update :: "('r \<Rightarrow> bool) \<Rightarrow> ('r \<Rightarrow> 'r) \<Rightarrow> 'r list \<Rightarrow> 'r list" where
  "t_update p f rows = map (\<lambda>r. if p r then f r else r) rows"

definition t_delete :: "('r \<Rightarrow> bool) \<Rightarrow> 'r list \<Rightarrow> 'r list" where
  "t_delete p rows = filter (\<lambda>r. \<not> p r) rows"

text \<open>The PRIMARY KEY constraint.\<close>

definition t_keyed :: "('r \<Rightarrow> 'k) \<Rightarrow> 'r list \<Rightarrow> bool" where
  "t_keyed key rows \<longleftrightarrow> distinct (map key rows)"

lemma t_find_Nil [simp]: "t_find key k [] = None"
  by (simp add: t_find_def)

lemma t_find_Cons [simp]:
  "t_find key k (r # rows) = (if key r = k then Some r else t_find key k rows)"
  by (simp add: t_find_def)

lemma t_find_append [simp]:
  "t_find key k (xs @ ys) = (case t_find key k xs of Some r \<Rightarrow> Some r | None \<Rightarrow> t_find key k ys)"
  by (induction xs) auto

lemma t_count_Nil [simp]: "t_count p [] = 0"
  by (simp add: t_count_def)

lemma t_count_Cons [simp]: "t_count p (r # rows) = (if p r then 1 else 0) + t_count p rows"
  by (simp add: t_count_def)

lemma t_update_Nil [simp]: "t_update p f [] = []"
  by (simp add: t_update_def)

lemma t_update_Cons [simp]: "t_update p f (r # rows) = (if p r then f r else r) # t_update p f rows"
  by (simp add: t_update_def)

lemma t_delete_Nil [simp]: "t_delete p [] = []"
  by (simp add: t_delete_def)

lemma t_delete_Cons [simp]:
  "t_delete p (r # rows) = (if p r then t_delete p rows else r # t_delete p rows)"
  by (simp add: t_delete_def)

lemma t_find_Some: "t_find key k rows = Some r \<Longrightarrow> r \<in> set rows \<and> key r = k"
  by (induction rows) (auto split: if_splits)

lemma t_find_SomeD: "t_find key k rows = Some r \<Longrightarrow> key r = k"
  by (blast dest: t_find_Some)

lemma t_find_None: "t_find key k rows = None \<longleftrightarrow> k \<notin> key ` set rows"
  by (induction rows) auto

lemma t_find_keyed: "t_keyed key rows \<Longrightarrow> r \<in> set rows \<Longrightarrow> t_find key (key r) rows = Some r"
proof (induction rows)
  case Nil
  then show ?case by simp
next
  case (Cons a rows)
  then have keyed: "t_keyed key rows" and fresh: "key a \<notin> key ` set rows"
    by (auto simp: t_keyed_def)
  show ?case
  proof (cases "r = a")
    case False
    with Cons.prems have "r \<in> set rows" by simp
    moreover from this fresh have "key a \<noteq> key r" by (metis imageI)
    ultimately show ?thesis using Cons.IH [OF keyed] by simp
  qed simp
qed

lemma t_keyed_Nil [simp]: "t_keyed key []"
  by (simp add: t_keyed_def)

lemma t_keyed_single [simp]: "t_keyed key [r]"
  by (simp add: t_keyed_def)

lemma t_keyed_snoc [simp]:
  "t_keyed key (rows @ [r]) \<longleftrightarrow> t_keyed key rows \<and> t_find key (key r) rows = None"
  by (auto simp: t_keyed_def t_find_None)

lemma set_t_delete: "set (t_delete p rows) = {r \<in> set rows. \<not> p r}"
  by (simp add: t_delete_def)

lemma set_t_update: "set (t_update p f rows) = (\<lambda>r. if p r then f r else r) ` set rows"
  by (simp add: t_update_def)

lemma t_keyed_delete [simp]: "t_keyed key rows \<Longrightarrow> t_keyed key (t_delete p rows)"
  by (simp add: t_keyed_def t_delete_def distinct_map_filter)

lemma map_key_t_update: "(\<And>r. key (f r) = key r) \<Longrightarrow> map key (t_update p f rows) = map key rows"
  by (simp add: t_update_def)

lemma t_keyed_update: "(\<And>r. key (f r) = key r) \<Longrightarrow> t_keyed key (t_update p f rows) = t_keyed key rows"
  by (simp add: t_keyed_def map_key_t_update)

text \<open>Looking a key up after an update that keeps the keys.\<close>

lemma t_find_update:
  "(\<And>r. key (f r) = key r) \<Longrightarrow>
   t_find key k (t_update p f rows) = map_option (\<lambda>r. if p r then f r else r) (t_find key k rows)"
  by (induction rows) auto

lemma t_find_delete_key:
  "t_find key k (t_delete (\<lambda>r. key r = k') rows) = (if k = k' then None else t_find key k rows)"
  by (induction rows) auto

lemma t_find_delete:
  "t_keyed key rows \<Longrightarrow>
   t_find key k (t_delete p rows) =
     (case t_find key k rows of Some r \<Rightarrow> if p r then None else Some r | None \<Rightarrow> None)"
proof (induction rows)
  case Nil
  then show ?case by simp
next
  case (Cons r rows)
  then have keyed: "t_keyed key rows" and fresh: "key r \<notin> key ` set rows"
    by (auto simp: t_keyed_def)
  from fresh have "t_find key (key r) (t_delete p rows) = None"
    by (auto simp: t_find_None set_t_delete)
  with Cons.IH [OF keyed] show ?case by auto
qed

text \<open>A statement whose \<open>WHERE\<close> fixes the key selects at most one row.\<close>

lemma t_count_key:
  assumes "t_keyed key rows" and "\<And>r. p r \<Longrightarrow> key r = k"
  shows "t_count p rows =
    (case t_find key k rows of Some r \<Rightarrow> (if p r then 1 else 0) | None \<Rightarrow> 0)"
  using assms
proof (induction rows)
  case Nil
  then show ?case by simp
next
  case (Cons r rows)
  then have keyed: "t_keyed key rows" and fresh: "t_find key (key r) rows = None"
    by (auto simp: t_keyed_def t_find_None)
  show ?case
  proof (cases "key r = k")
    case True
    then have "t_count p rows = 0"
      using Cons.IH [OF keyed Cons.prems(2)] fresh by simp
    with True show ?thesis by simp
  next
    case False
    then have "\<not> p r" using Cons.prems(2) by blast
    with False Cons.IH [OF keyed Cons.prems(2)] show ?thesis by simp
  qed
qed

lemma t_count_le_1:
  "t_keyed key rows \<Longrightarrow> (\<And>r. p r \<Longrightarrow> key r = k) \<Longrightarrow> t_count p rows \<le> 1"
  by (subst t_count_key [of key rows p k]) (auto split: option.splits)

lemma t_update_no_match: "(\<And>r. r \<in> set rows \<Longrightarrow> \<not> p r) \<Longrightarrow> t_update p f rows = rows"
  by (induction rows) auto

lemma t_count_0: "t_count p rows = 0 \<longleftrightarrow> (\<forall>r\<in>set rows. \<not> p r)"
  by (auto simp: t_count_def filter_empty_conv)

lemma t_update_count_0: "t_count p rows = 0 \<Longrightarrow> t_update p f rows = rows"
  by (auto simp: t_count_0 intro: t_update_no_match)

text \<open>Counting rows across statements.\<close>

lemma t_count_append [simp]: "t_count p (xs @ ys) = t_count p xs + t_count p ys"
  by (simp add: t_count_def)

lemma t_count_delete_le: "t_count q (t_delete p rows) \<le> t_count q rows"
  by (induction rows) auto

lemma t_count_update_off:
  "(\<And>r. p r \<Longrightarrow> \<not> q (f r)) \<Longrightarrow> t_count q (t_update p f rows) = t_count (\<lambda>r. q r \<and> \<not> p r) rows"
  by (induction rows) auto

lemma t_count_split: "t_count (\<lambda>r. q r \<and> \<not> p r) rows + t_count (\<lambda>r. q r \<and> p r) rows = t_count q rows"
  by (induction rows) auto

lemma t_count_list_update:
  "k < length rows \<Longrightarrow>
     t_count p (rows[k := r]) + (if p (rows ! k) then 1 else 0) = t_count p rows + (if p r then 1 else 0)"
proof (induction rows arbitrary: k)
  case (Cons x rows)
  then show ?case using Cons.IH [of "k - 1"] by (cases k) (simp_all split: if_splits)
qed simp

lemma t_count_nth: "k < length rows \<Longrightarrow> p (rows ! k) \<Longrightarrow> 0 < t_count p rows"
  by (induction rows arbitrary: k) (auto simp: nth_Cons split: nat.splits)

lemma t_count_mono: "(\<And>r. r \<in> set rows \<Longrightarrow> q r \<Longrightarrow> p r) \<Longrightarrow> t_count q rows \<le> t_count p rows"
  by (induction rows) auto

lemma t_count_less:
  "(\<And>r. r \<in> set rows \<Longrightarrow> q r \<Longrightarrow> p r) \<Longrightarrow> r \<in> set rows \<Longrightarrow> p r \<Longrightarrow> \<not> q r \<Longrightarrow> t_count q rows < t_count p rows"
proof (induction rows)
  case (Cons x rows)
  then show ?case using t_count_mono [of rows q p] by (cases "x = r") (auto simp: less_Suc_eq_le)
qed simp

lemma t_count_le_length: "t_count p rows \<le> length rows"
  by (simp add: t_count_def)

lemma t_count_delete_key:
  assumes "t_keyed key rows" and "t_find key k rows = Some r"
  shows "t_count q rows = (if q r then 1 else 0) + t_count q (t_delete (\<lambda>x. key x = k) rows)"
  using assms
proof (induction rows)
  case (Cons x rows)
  show ?case
  proof (cases "key x = k")
    case True
    then have "t_delete (\<lambda>x. key x = k) rows = rows"
      using Cons.prems(1) by (simp add: t_keyed_def t_delete_def filter_id_conv) (metis imageI)
    then show ?thesis using True Cons.prems(2) by simp
  next
    case False
    then show ?thesis using Cons by (auto simp: t_keyed_def)
  qed
qed simp

lemmas table_facts [table_simps] =
  t_find_update t_find_delete_key t_keyed_update set_t_delete set_t_update

section \<open>Ledgers over sequences of calls\<close>

text \<open>
  \<open>exec op db\<close> says whether a call returned normally and the database after it. A sequence of calls is
  run in order, and \<open>tally\<close> adds up an amount over the calls that returned normally.
\<close>

type_synonym ('op, 'db) exec = "'op \<Rightarrow> 'db \<Rightarrow> bool \<times> 'db"

fun exec_run :: "('op, 'db) exec \<Rightarrow> 'op list \<Rightarrow> 'db \<Rightarrow> 'db" where
  "exec_run exec [] db = db"
| "exec_run exec (op # ops) db = exec_run exec ops (snd (exec op db))"

fun tally :: "('op, 'db) exec \<Rightarrow> ('op \<Rightarrow> nat) \<Rightarrow> 'op list \<Rightarrow> 'db \<Rightarrow> nat" where
  "tally exec amount [] db = 0"
| "tally exec amount (op # ops) db =
     (case exec op db of (ok, db') \<Rightarrow> (if ok then amount op else 0) + tally exec amount ops db')"

lemma tally_zero [simp]: "tally exec (\<lambda>_. 0) ops db = 0"
  by (induction ops arbitrary: db) (simp_all split: prod.splits)

lemma exec_run_append: "exec_run exec (xs @ ys) db = exec_run exec ys (exec_run exec xs db)"
  by (induction xs arbitrary: db) simp_all

lemma exec_run_sound:
  assumes "\<And>op db. sound db \<Longrightarrow> sound (snd (exec op db))" and "sound db"
  shows "sound (exec_run exec ops db)"
  using assms(2) by (induction ops arbitrary: db) (simp_all add: assms(1))

text \<open>
  A stock that calls draw from and fill: if no single call draws more than it takes from the stock, no
  sequence of calls does.
\<close>

locale ledger =
  fixes exec :: "('op, 'db) exec"
    and sound :: "'db \<Rightarrow> bool"
    and stock :: "'k \<Rightarrow> 'db \<Rightarrow> nat"
    and draws :: "'k \<Rightarrow> 'op \<Rightarrow> nat"
    and fills :: "'k \<Rightarrow> 'op \<Rightarrow> nat"
  assumes exec_sound: "sound db \<Longrightarrow> exec op db = (ok, db') \<Longrightarrow> sound db'"
    and exec_failed: "sound db \<Longrightarrow> exec op db = (False, db') \<Longrightarrow> stock k db' \<le> stock k db"
    and exec_ok: "sound db \<Longrightarrow> exec op db = (True, db') \<Longrightarrow>
      draws k op + stock k db' \<le> stock k db + fills k op"
begin

lemma drawn_le_filled:
  "sound db \<Longrightarrow> tally exec (draws k) ops db + stock k (exec_run exec ops db) \<le>
     stock k db + tally exec (fills k) ops db"
proof (induction ops arbitrary: db)
  case (Cons op ops)
  obtain ok db' where ex: "exec op db = (ok, db')" by (cases "exec op db")
  then have IH: "tally exec (draws k) ops db' + stock k (exec_run exec ops db') \<le>
      stock k db' + tally exec (fills k) ops db'"
    using Cons.IH exec_sound [OF Cons.prems] by blast
  show ?case
  proof (cases ok)
    case True
    then show ?thesis using IH ex exec_ok [OF Cons.prems, of op db' k] by simp
  next
    case False
    then show ?thesis using IH ex exec_failed [OF Cons.prems, of op db' k] by simp
  qed
qed simp

lemma run_sound: "sound db \<Longrightarrow> sound (exec_run exec ops db)"
  by (induction ops arbitrary: db) (use exec_sound prod.collapse in \<open>auto, metis\<close>)

end

end
