(* ===== verification/Kernel_Scope.thy ===== *)
theory Kernel_Scope
  imports CE_Prelude
begin

text \<open>
  The lifetime scope of the kernel package (\<open>packages/kernel/src/scope.ts\<close>): cleanups are registered
  with \<open>defer\<close>, \<open>own\<close>, \<open>listen\<close>, \<open>setTimeout\<close>, \<open>setInterval\<close> and \<open>fork\<close>, may be run early through the
  handle that registration returns, and are run in reverse order when the scope is closed. Closing is
  asynchronous: the loop of \<open>#disposeAll\<close> is suspended at the \<open>await\<close> of each cleanup, and other calls
  may come between two of its iterations.
\<close>

section \<open>State\<close>

text \<open>
  Entries of \<open>#disposers\<close> are objects compared by identity and are numbered in the order of creation.
  What a cleanup does is not part of the scope; of it the scope observes the calls it makes on the
  scope itself while it runs synchronously (\<open>d_defers\<close> registrations) and how it settles (\<open>d_error\<close>).
\<close>

record disposer =
  d_defers :: nat
  d_error :: "ce_error option"

text \<open>
  \<open>sc_ran\<close> lists the entries whose cleanup was started, in that order, with how each settles: an entry
  is active as long as it is not in the list, and its \<open>running\<close> promise is its result there. \<open>sc_promise\<close>
  is \<open>#closing !== undefined\<close>, \<open>sc_loop\<close> the suspended loop of \<open>#disposeAll\<close> (the entry awaited, the
  entries left and the errors so far), \<open>sc_result\<close> how the promise of \<open>close\<close> settled. \<open>sc_fired\<close> lists
  the timer callbacks that were called.
\<close>

record scope =
  sc_name :: string
  sc_disposers :: "nat list"
  sc_next_entry :: nat
  sc_ran :: "(nat \<times> ce_error option) list"
  sc_aborted :: bool
  sc_promise :: bool
  sc_closed :: bool
  sc_loop :: "(nat \<times> nat list \<times> ce_error list) option"
  sc_result :: "ce_error option option"
  sc_fired :: "nat list"

definition scope_new :: "string \<Rightarrow> scope" where
  "scope_new name =
     \<lparr>sc_name = name, sc_disposers = [], sc_next_entry = 0, sc_ran = [], sc_aborted = False,
      sc_promise = False, sc_closed = False, sc_loop = None, sc_result = None, sc_fired = []\<rparr>"

section \<open>Operations\<close>

definition throwIfClosed :: "scope \<Rightarrow> ce_error option" where
  "throwIfClosed s =
     (if sc_closed s \<or> sc_promise s then Some (ScopeClosedError (sc_name s)) else None)"

definition push_entry :: "scope \<Rightarrow> scope" where
  "push_entry s = s\<lparr>sc_disposers := sc_disposers s @ [sc_next_entry s],
                    sc_next_entry := Suc (sc_next_entry s)\<rparr>"

text \<open>
  \<open>defer\<close> returns the handle of the entry. \<open>own\<close>, \<open>listen\<close>, \<open>setTimeout\<close> and \<open>setInterval\<close> register
  one cleanup in the same way after the same test.
\<close>

definition scope_defer :: "scope \<Rightarrow> ce_error + nat \<times> scope" where
  "scope_defer s =
     (case throwIfClosed s of
        Some e \<Rightarrow> Inl e
      | None \<Rightarrow> Inr (sc_next_entry s, push_entry s))"

text \<open>\<open>fork\<close> registers the closing of the child, whose name extends the parent's.\<close>

definition scope_fork :: "string \<Rightarrow> scope \<Rightarrow> ce_error + (nat \<times> scope) \<times> scope" where
  "scope_fork name s =
     (case throwIfClosed s of
        Some e \<Rightarrow> Inl e
      | None \<Rightarrow> Inr ((sc_next_entry s, scope_new (sc_name s @ ''/'' @ name)), push_entry s))"

definition scope_forget :: "nat \<Rightarrow> scope \<Rightarrow> scope" where
  "scope_forget i s = s\<lparr>sc_disposers := remove1 i (sc_disposers s)\<rparr>"

fun push_entries :: "nat \<Rightarrow> scope \<Rightarrow> scope" where
  "push_entries 0 s = s"
| "push_entries (Suc n) s = push_entries n (push_entry s)"

text \<open>The synchronous part of a cleanup: a registration on a closing scope throws and so settles it.\<close>

definition call_disposer :: "disposer \<Rightarrow> scope \<Rightarrow> ce_error option \<times> scope" where
  "call_disposer d s =
     (if d_defers d = 0 then (d_error d, s)
      else case throwIfClosed s of
             Some e \<Rightarrow> (Some e, s)
           | None \<Rightarrow> (d_error d, push_entries (d_defers d) s))"

text \<open>\<open>#disposeEntry\<close>: the cleanup of an entry that is no longer active is not called again.\<close>

definition disposeEntry :: "(nat \<Rightarrow> disposer) \<Rightarrow> nat \<Rightarrow> scope \<Rightarrow> scope" where
  "disposeEntry disp i s =
     (if i \<in> fst ` set (sc_ran s) then s
      else let s1 = scope_forget i s; (settled, s2) = call_disposer (disp i) s1
           in s2\<lparr>sc_ran := sc_ran s2 @ [(i, settled)]\<rparr>)"

text \<open>The end of \<open>#disposeAll\<close>.\<close>

definition dispose_finish :: "ce_error list \<Rightarrow> scope \<Rightarrow> scope" where
  "dispose_finish errors s =
     s\<lparr>sc_disposers := [], sc_closed := True, sc_loop := None,
       sc_result := Some (if errors = [] then None
         else Some (AggregateError errors (''Failed to close scope: '' @ sc_name s)))\<rparr>"

text \<open>One iteration of the loop, up to its \<open>await\<close>.\<close>

fun dispose_iter :: "(nat \<Rightarrow> disposer) \<Rightarrow> nat list \<Rightarrow> ce_error list \<Rightarrow> scope \<Rightarrow> scope" where
  "dispose_iter disp [] errors s = dispose_finish errors s"
| "dispose_iter disp (i # rest) errors s =
     (disposeEntry disp i s)\<lparr>sc_loop := Some (i, rest, errors)\<rparr>"

text \<open>
  \<open>close\<close> runs the loop up to its first \<open>await\<close> and only then stores the promise in \<open>#closing\<close>.
\<close>

definition scope_close :: "(nat \<Rightarrow> disposer) \<Rightarrow> scope \<Rightarrow> scope" where
  "scope_close disp s =
     (if sc_promise s \<or> sc_closed s then s
      else (dispose_iter disp (rev (sc_disposers s)) [] (s\<lparr>sc_aborted := True\<rparr>))\<lparr>sc_promise := True\<rparr>)"

text \<open>The awaited cleanup settles and the loop goes on.\<close>

definition scope_resume :: "(nat \<Rightarrow> disposer) \<Rightarrow> scope \<Rightarrow> scope" where
  "scope_resume disp s =
     (case sc_loop s of
        None \<Rightarrow> s
      | Some (i, rest, errors) \<Rightarrow>
          dispose_iter disp rest
            (errors @ (case map_of (sc_ran s) i of Some (Some e) \<Rightarrow> [e] | _ \<Rightarrow> [])) s)"

text \<open>A timeout unregisters itself when it fires; neither kind of timer calls back once aborted.\<close>

definition scope_call_back :: "nat \<Rightarrow> scope \<Rightarrow> scope" where
  "scope_call_back i s = (if sc_aborted s then s else s\<lparr>sc_fired := sc_fired s @ [i]\<rparr>)"

definition scope_timeout_fires :: "(nat \<Rightarrow> disposer) \<Rightarrow> nat \<Rightarrow> scope \<Rightarrow> scope" where
  "scope_timeout_fires disp i s = scope_call_back i (disposeEntry disp i s)"

text \<open>
  The calls a scope receives, in any order. A handle or a timer exists only for an entry that was
  registered.
\<close>

datatype scope_op =
    Defer
  | Fork string
  | Dispose nat
  | ChildClosed nat
  | Timeout nat
  | Interval nat
  | Close
  | Resume

fun scope_op_step :: "(nat \<Rightarrow> disposer) \<Rightarrow> scope_op \<Rightarrow> scope \<Rightarrow> scope" where
  "scope_op_step disp Defer s = (case scope_defer s of Inl _ \<Rightarrow> s | Inr (_, s') \<Rightarrow> s')"
| "scope_op_step disp (Fork name) s = (case scope_fork name s of Inl _ \<Rightarrow> s | Inr (_, s') \<Rightarrow> s')"
| "scope_op_step disp (Dispose i) s = (if i < sc_next_entry s then disposeEntry disp i s else s)"
| "scope_op_step disp (ChildClosed i) s = scope_forget i s"
| "scope_op_step disp (Timeout i) s =
     (if i < sc_next_entry s then scope_timeout_fires disp i s else s)"
| "scope_op_step disp (Interval i) s = scope_call_back i s"
| "scope_op_step disp Close s = scope_close disp s"
| "scope_op_step disp Resume s = scope_resume disp s"

definition scope_run :: "(nat \<Rightarrow> disposer) \<Rightarrow> scope_op list \<Rightarrow> scope \<Rightarrow> scope" where
  "scope_run disp ops s = fold (scope_op_step disp) ops s"

section \<open>Frame lemmas\<close>

lemma push_entry_frame [simp]:
  "sc_ran (push_entry s) = sc_ran s" "sc_promise (push_entry s) = sc_promise s"
  "sc_closed (push_entry s) = sc_closed s" "sc_loop (push_entry s) = sc_loop s"
  "sc_aborted (push_entry s) = sc_aborted s" "sc_fired (push_entry s) = sc_fired s"
  "sc_name (push_entry s) = sc_name s" "sc_result (push_entry s) = sc_result s"
  by (simp_all add: push_entry_def)

lemma push_entries_frame [simp]:
  "sc_ran (push_entries n s) = sc_ran s" "sc_promise (push_entries n s) = sc_promise s"
  "sc_closed (push_entries n s) = sc_closed s" "sc_loop (push_entries n s) = sc_loop s"
  "sc_aborted (push_entries n s) = sc_aborted s" "sc_fired (push_entries n s) = sc_fired s"
  "sc_result (push_entries n s) = sc_result s"
  by (induction n arbitrary: s) simp_all

lemma forget_frame [simp]:
  "sc_ran (scope_forget i s) = sc_ran s" "sc_promise (scope_forget i s) = sc_promise s"
  "sc_closed (scope_forget i s) = sc_closed s" "sc_loop (scope_forget i s) = sc_loop s"
  "sc_aborted (scope_forget i s) = sc_aborted s" "sc_fired (scope_forget i s) = sc_fired s"
  "sc_name (scope_forget i s) = sc_name s" "sc_result (scope_forget i s) = sc_result s"
  by (simp_all add: scope_forget_def)

lemma disposeEntry_frame [simp]:
  "sc_promise (disposeEntry disp i s) = sc_promise s"
  "sc_closed (disposeEntry disp i s) = sc_closed s" "sc_loop (disposeEntry disp i s) = sc_loop s"
  "sc_aborted (disposeEntry disp i s) = sc_aborted s" "sc_fired (disposeEntry disp i s) = sc_fired s"
  "sc_result (disposeEntry disp i s) = sc_result s"
  by (auto simp: disposeEntry_def call_disposer_def Let_def split: option.splits)

lemma disposeEntry_ran:
  "\<exists>settled. sc_ran (disposeEntry disp i s) =
     (if i \<in> fst ` set (sc_ran s) then sc_ran s else sc_ran s @ [(i, settled)])"
  by (auto simp: disposeEntry_def call_disposer_def Let_def split: option.splits)

lemma disposeEntry_started [simp]:
  "fst ` set (sc_ran (disposeEntry disp i s)) = insert i (fst ` set (sc_ran s))"
  using disposeEntry_ran [of disp i s] by (auto split: if_splits)

lemma disposeEntry_once:
  "distinct (map fst (sc_ran s)) \<Longrightarrow> distinct (map fst (sc_ran (disposeEntry disp i s)))"
  using disposeEntry_ran [of disp i s] by auto

lemma call_back_frame [simp]:
  "sc_ran (scope_call_back i s) = sc_ran s" "sc_promise (scope_call_back i s) = sc_promise s"
  "sc_closed (scope_call_back i s) = sc_closed s" "sc_loop (scope_call_back i s) = sc_loop s"
  "sc_aborted (scope_call_back i s) = sc_aborted s"
  "sc_disposers (scope_call_back i s) = sc_disposers s"
  by (simp_all add: scope_call_back_def)

text \<open>A closing scope accepts no registration, so only the cleanups change its entries.\<close>

lemma closing_disposeEntry:
  "sc_promise s \<Longrightarrow> sc_disposers (disposeEntry disp i s) =
     (if i \<in> fst ` set (sc_ran s) then sc_disposers s else remove1 i (sc_disposers s))"
  by (auto simp: disposeEntry_def call_disposer_def Let_def throwIfClosed_def scope_forget_def
      split: option.splits)

lemma dispose_iter_frame [simp]:
  "sc_promise (dispose_iter disp rest errors s) = sc_promise s"
  "sc_aborted (dispose_iter disp rest errors s) = sc_aborted s"
  "sc_fired (dispose_iter disp rest errors s) = sc_fired s"
  by (cases rest; simp add: dispose_finish_def)+

section \<open>At most once\<close>

lemma dispose_iter_once:
  "distinct (map fst (sc_ran s)) \<Longrightarrow> distinct (map fst (sc_ran (dispose_iter disp rest errors s)))"
  by (cases rest) (simp_all add: dispose_finish_def disposeEntry_once)

lemma scope_op_once:
  "distinct (map fst (sc_ran s)) \<Longrightarrow> distinct (map fst (sc_ran (scope_op_step disp op s)))"
  by (cases op)
    (auto simp: scope_defer_def scope_fork_def scope_timeout_fires_def scope_close_def scope_resume_def
      disposeEntry_once dispose_iter_once split: option.splits)


section \<open>Closing\<close>

text \<open>
  While a close is in progress, every entry of its snapshot has been started or is still to come,
  and at the end nothing is left.
\<close>

definition closing_inv :: "nat set \<Rightarrow> scope \<Rightarrow> bool" where
  "closing_inv snapshot s \<longleftrightarrow>
     sc_promise s \<and> sc_aborted s \<and>
     (case sc_loop s of
        None \<Rightarrow> sc_closed s \<and> sc_disposers s = [] \<and> snapshot \<subseteq> fst ` set (sc_ran s)
      | Some (i, rest, errors) \<Rightarrow> snapshot \<subseteq> fst ` set (sc_ran s) \<union> set rest)"

definition loop_left :: "scope \<Rightarrow> nat" where
  "loop_left s = (case sc_loop s of None \<Rightarrow> 0 | Some (i, rest, errors) \<Rightarrow> Suc (length rest))"

lemma dispose_iter_inv:
  assumes "sc_promise s" "sc_aborted s" "snapshot \<subseteq> fst ` set (sc_ran s) \<union> set rest"
  shows "closing_inv snapshot (dispose_iter disp rest errors s)"
    and "loop_left (dispose_iter disp rest errors s) = length rest"
  using assms
  by (cases rest; auto simp: closing_inv_def dispose_finish_def loop_left_def)+

lemma resume_inv:
  assumes "closing_inv snapshot s"
  shows "closing_inv snapshot (scope_resume disp s)"
    and "loop_left (scope_resume disp s) = loop_left s - 1"
proof -
  have "closing_inv snapshot (scope_resume disp s) \<and> loop_left (scope_resume disp s) = loop_left s - 1"
  proof (cases "sc_loop s")
    case None
    then show ?thesis using assms by (simp add: scope_resume_def loop_left_def)
  next
    case (Some l)
    then obtain i rest errors where l: "sc_loop s = Some (i, rest, errors)" by (cases l) auto
    with assms have "sc_promise s" "sc_aborted s" "snapshot \<subseteq> fst ` set (sc_ran s) \<union> set rest"
      by (simp_all add: closing_inv_def)
    from dispose_iter_inv [OF this] show ?thesis
      using l by (simp add: scope_resume_def loop_left_def)
  qed
  then show "closing_inv snapshot (scope_resume disp s)"
    and "loop_left (scope_resume disp s) = loop_left s - 1" by simp_all
qed

lemma other_op_inv:
  assumes "closing_inv snapshot s" "op \<noteq> Resume"
  shows "closing_inv snapshot (scope_op_step disp op s) \<and> loop_left (scope_op_step disp op s) = loop_left s"
  using assms
  by (cases op)
    (auto simp: closing_inv_def loop_left_def scope_defer_def scope_fork_def throwIfClosed_def
      scope_timeout_fires_def scope_close_def scope_forget_def closing_disposeEntry
      split: option.splits)

lemma run_inv:
  assumes "closing_inv snapshot s"
  shows "closing_inv snapshot (scope_run disp ops s)"
    and "loop_left (scope_run disp ops s) \<le> loop_left s - length (filter (\<lambda>op. op = Resume) ops)"
  using assms
proof (induction ops arbitrary: s)
  case (Cons op ops)
  {
    case 1
    then show ?case
      using Cons.IH(1) [of "scope_op_step disp op s"] resume_inv(1) other_op_inv
      by (cases "op = Resume") (auto simp: scope_run_def)
  next
    case 2
    then show ?case
      using Cons.IH(2) [of "scope_op_step disp op s"] resume_inv [of snapshot s disp]
        other_op_inv [of snapshot s op disp]
      by (cases "op = Resume") (auto simp: scope_run_def)
  }
qed (simp_all add: scope_run_def)

lemma close_inv:
  assumes "\<not> sc_promise s" "\<not> sc_closed s"
  shows "closing_inv (set (sc_disposers s)) (scope_close disp s)"
    and "loop_left (scope_close disp s) = length (sc_disposers s)"
  using assms
  by (cases "sc_disposers s" rule: rev_cases;
      auto simp: scope_close_def closing_inv_def loop_left_def dispose_finish_def)+

text \<open>
  Claim C32. Closing a scope ends and loses nothing that was registered: once each cleanup that was
  registered before the close has settled, whatever other calls came in between and whichever cleanups
  failed, the scope is closed, holds no entry, and the cleanup of every entry has been started.
\<close>

theorem scope_close_runs_every_cleanup:
  assumes "\<not> sc_promise s" and "\<not> sc_closed s"
    and "length (filter (\<lambda>op. op = Resume) ops) \<ge> length (sc_disposers s)"
  shows "let s' = scope_run disp ops (scope_close disp s)
    in sc_closed s' \<and> sc_disposers s' = [] \<and> set (sc_disposers s) \<subseteq> fst ` set (sc_ran s')"
proof -
  let ?s' = "scope_run disp ops (scope_close disp s)"
  note c = close_inv [OF assms(1,2), of disp]
  have "loop_left ?s' = 0"
    using run_inv(2) [OF c(1), of disp ops] c(2) assms(3) by simp
  then show ?thesis
    using run_inv(1) [OF c(1), of disp ops] by (auto simp: closing_inv_def loop_left_def split: option.splits)
qed

text \<open>
  After \<open>close\<close> was called no timer calls back any more, no registration is accepted, and the
  signal stays aborted.
\<close>

theorem scope_closing_is_final:
  assumes "\<not> sc_promise s" and "\<not> sc_closed s"
  shows "let s' = scope_run disp ops (scope_close disp s)
    in sc_aborted s' \<and> sc_fired s' = sc_fired s \<and> scope_defer s' = Inl (ScopeClosedError (sc_name s')) \<and>
       scope_fork child s' = Inl (ScopeClosedError (sc_name s'))"
proof -
  let ?s = "scope_close disp s"
  have fired: "sc_fired (scope_op_step disp op t) = sc_fired t" if "closing_inv A t" for A op t
    using that
    by (cases op) (auto simp: closing_inv_def scope_defer_def scope_fork_def throwIfClosed_def scope_close_def
        scope_timeout_fires_def scope_call_back_def scope_resume_def scope_forget_def split: option.splits)
  have "sc_fired (scope_run disp ops t) = sc_fired t" if "closing_inv A t" for A t
    using that
  proof (induction ops arbitrary: t)
    case (Cons op ops)
    then show ?case
      using fired [of A t op] run_inv(1) [of A t disp "[op]"] by (simp add: scope_run_def)
  qed (simp add: scope_run_def)
  moreover have "sc_fired ?s = sc_fired s"
    using assms by (simp add: scope_close_def)
  ultimately show ?thesis
    using close_inv(1) [OF assms, of disp] run_inv(1) [OF close_inv(1) [OF assms, of disp], of disp ops]
    by (auto simp: closing_inv_def scope_defer_def scope_fork_def throwIfClosed_def Let_def)
qed

section \<open>Order of the cleanups\<close>

text \<open>Entries are numbered below the counter, listed once, and listed only while active.\<close>

definition scope_ok :: "scope \<Rightarrow> bool" where
  "scope_ok s \<longleftrightarrow>
     (\<forall>i \<in> set (sc_disposers s) \<union> fst ` set (sc_ran s). i < sc_next_entry s) \<and>
     distinct (sc_disposers s) \<and> set (sc_disposers s) \<inter> fst ` set (sc_ran s) = {}"

lemma scope_ok_new: "scope_ok (scope_new name)"
  by (simp add: scope_ok_def scope_new_def)

lemma scope_ok_push: "scope_ok s \<Longrightarrow> scope_ok (push_entry s)"
  by (auto simp: scope_ok_def push_entry_def less_Suc_eq)

lemma push_entries_ok: "scope_ok s \<Longrightarrow> scope_ok (push_entries n s)"
  by (induction n arbitrary: s) (simp_all add: scope_ok_push)

lemma push_entries_more:
  "sc_next_entry (push_entries n s) = sc_next_entry s + n"
  "set (sc_disposers (push_entries n s)) = set (sc_disposers s) \<union> {sc_next_entry s ..< sc_next_entry s + n}"
  by (induction n arbitrary: s) (auto simp: push_entry_def)

lemma scope_ok_ran:
  "scope_ok s \<Longrightarrow> i < sc_next_entry s \<Longrightarrow> i \<notin> set (sc_disposers s) \<Longrightarrow>
   scope_ok (s\<lparr>sc_ran := sc_ran s @ [(i, settled)]\<rparr>)"
  by (auto simp: scope_ok_def)

lemma scope_ok_disposeEntry:
  assumes "scope_ok s" "i < sc_next_entry s"
  shows "scope_ok (disposeEntry disp i s)"
proof -
  have forget: "scope_ok (scope_forget i s)" "i \<notin> set (sc_disposers (scope_forget i s))"
    "sc_next_entry (scope_forget i s) = sc_next_entry s"
    using assms by (auto simp: scope_ok_def scope_forget_def dest: in_set_remove1 notin_set_remove1)
  then have "scope_ok (snd (call_disposer d (scope_forget i s))) \<and>
      i \<notin> set (sc_disposers (snd (call_disposer d (scope_forget i s)))) \<and>
      i < sc_next_entry (snd (call_disposer d (scope_forget i s)))" for d
    using assms(2) by (auto simp: call_disposer_def push_entries_ok push_entries_more split: option.splits)
  then show ?thesis
    using assms(1) by (simp add: disposeEntry_def Let_def split_beta scope_ok_ran)
qed

lemma scope_ok_cong:
  "sc_disposers t = sc_disposers s \<Longrightarrow> sc_ran t = sc_ran s \<Longrightarrow> sc_next_entry t = sc_next_entry s \<Longrightarrow>
   scope_ok t = scope_ok s"
  by (simp add: scope_ok_def)

definition settled_errors :: "(nat \<Rightarrow> disposer) \<Rightarrow> nat list \<Rightarrow> ce_error list" where
  "settled_errors disp is = concat (map (\<lambda>i. case d_error (disp i) of Some e \<Rightarrow> [e] | None \<Rightarrow> []) is)"

definition closed_with :: "ce_error list \<Rightarrow> scope \<Rightarrow> ce_error option option" where
  "closed_with errors s = Some (if errors = [] then None
     else Some (AggregateError errors (''Failed to close scope: '' @ sc_name s)))"

lemma quiet_disposeEntry:
  "d_defers (disp i) = 0 \<Longrightarrow> i \<notin> fst ` set (sc_ran s) \<Longrightarrow>
   disposeEntry disp i s =
     s\<lparr>sc_disposers := remove1 i (sc_disposers s), sc_ran := sc_ran s @ [(i, d_error (disp i))]\<rparr>"
  by (simp add: disposeEntry_def call_disposer_def scope_forget_def)

text \<open>The loop, when nothing else is called meanwhile.\<close>

lemma quiet_loop:
  assumes "sc_loop s = Some (i, rest, errors)" and "map_of (sc_ran s) i = Some (d_error (disp i))"
    and "distinct rest" and "set rest \<inter> fst ` set (sc_ran s) = {}" and "\<forall>j\<in>set rest. d_defers (disp j) = 0"
  shows "let s' = scope_run disp (replicate (Suc (length rest)) Resume) s
    in sc_ran s' = sc_ran s @ map (\<lambda>j. (j, d_error (disp j))) rest \<and>
       sc_result s' = closed_with (errors @ settled_errors disp (i # rest)) s"
  using assms
proof (induction rest arbitrary: s i errors)
  case Nil
  then show ?case
    by (simp add: scope_run_def scope_resume_def dispose_finish_def closed_with_def settled_errors_def
        split: option.splits)
next
  case (Cons j rest)
  define errs where "errs = errors @ settled_errors disp [i]"
  define t where "t = s\<lparr>sc_disposers := remove1 j (sc_disposers s),
    sc_ran := sc_ran s @ [(j, d_error (disp j))], sc_loop := Some (j, rest, errs)\<rparr>"
  have resumed: "scope_resume disp s = t"
    using Cons.prems by (auto simp: t_def errs_def scope_resume_def quiet_disposeEntry settled_errors_def
        split: option.splits)
  have fresh: "map_of (sc_ran s) j = None"
    using Cons.prems by (auto simp: map_of_eq_None_iff)
  have "let s' = scope_run disp (replicate (Suc (length rest)) Resume) t
    in sc_ran s' = sc_ran t @ map (\<lambda>j. (j, d_error (disp j))) rest \<and>
       sc_result s' = closed_with (errs @ settled_errors disp (j # rest)) t"
    using Cons.prems fresh by (intro Cons.IH) (auto simp: t_def map_add_def)
  then show ?case
    using resumed by (simp add: scope_run_def t_def errs_def closed_with_def settled_errors_def Let_def)
qed

text \<open>
  The cleanups of a scope are run in the reverse order of their registration, each once, a
  failing one does not stop the others, and \<open>close\<close> rejects with the list of all failures in that
  order, or resolves when there were none.
\<close>

theorem scope_close_reverse_order:
  assumes "scope_ok s" and "\<not> sc_promise s" and "\<not> sc_closed s" and "\<forall>i\<in>set (sc_disposers s). d_defers (disp i) = 0"
  shows "let s' = scope_run disp (replicate (length (sc_disposers s)) Resume) (scope_close disp s)
    in sc_ran s' = sc_ran s @ map (\<lambda>i. (i, d_error (disp i))) (rev (sc_disposers s)) \<and>
       sc_result s' = closed_with (settled_errors disp (rev (sc_disposers s))) s"
proof (cases "rev (sc_disposers s)")
  case Nil
  then show ?thesis
    using assms by (simp add: scope_run_def scope_close_def dispose_finish_def closed_with_def settled_errors_def)
next
  case (Cons i rest)
  then have ds: "sc_disposers s = rev rest @ [i]" by (metis rev.simps(2) rev_rev_ident)
  define t where "t = s\<lparr>sc_aborted := True, sc_disposers := remove1 i (sc_disposers s),
    sc_ran := sc_ran s @ [(i, d_error (disp i))], sc_loop := Some (i, rest, []), sc_promise := True\<rparr>"
  have "scope_close disp s = t"
    using assms Cons ds by (simp add: t_def scope_close_def quiet_disposeEntry scope_ok_def)
  moreover have "map_of (sc_ran s) i = None"
    using assms(1) ds by (auto simp: scope_ok_def map_of_eq_None_iff)
  then have "let s' = scope_run disp (replicate (Suc (length rest)) Resume) t
    in sc_ran s' = sc_ran t @ map (\<lambda>j. (j, d_error (disp j))) rest \<and>
       sc_result s' = closed_with ([] @ settled_errors disp (i # rest)) t"
    using assms ds by (intro quiet_loop) (auto simp: t_def scope_ok_def map_add_def)
  ultimately show ?thesis
    using ds by (simp add: t_def closed_with_def Let_def)
qed

text \<open>
  A fault of \<open>close\<close>: the promise is stored only after the first cleanup was called, so that
  cleanup (the one registered last) can still register another. The registration succeeds, but the loop
  works on the entries it copied before: when the scope is closed the new entry is gone and its cleanup
  was never started.
\<close>

theorem scope_close_drops_late_registration:
  assumes "scope_ok s" and "\<not> sc_promise s" and "\<not> sc_closed s"
    and "sc_disposers s = ds @ [d]" and "d_defers (disp d) = Suc n" and "\<forall>i\<in>set ds. d_defers (disp i) = 0"
  shows "sc_next_entry s \<in> set (sc_disposers (scope_close disp s)) \<and>
    (let s' = scope_run disp (replicate (length (sc_disposers s)) Resume) (scope_close disp s)
     in sc_closed s' \<and> sc_disposers s' = [] \<and> sc_next_entry s \<notin> fst ` set (sc_ran s'))"
proof -
  let ?c = "scope_close disp s"
  let ?s' = "scope_run disp (replicate (length (sc_disposers s)) Resume) ?c"
  have unrun: "d \<notin> fst ` set (sc_ran s)" and fresh: "\<forall>i \<in> insert d (set ds) \<union> fst ` set (sc_ran s). i < sc_next_entry s"
    using assms(1,4) by (auto simp: scope_ok_def)
  have close: "sc_next_entry s \<in> set (sc_disposers ?c) \<and> sc_ran ?c = sc_ran s @ [(d, d_error (disp d))] \<and>
      sc_loop ?c = Some (d, rev ds, [])"
    using assms unrun
    by (auto simp: scope_close_def disposeEntry_def call_disposer_def scope_forget_def throwIfClosed_def
        push_entries_more push_entry_def)
  have "map_of (sc_ran s) d = None" using unrun by (auto simp: map_of_eq_None_iff)
  then have "let s' = scope_run disp (replicate (Suc (length (rev ds))) Resume) ?c
    in sc_ran s' = sc_ran ?c @ map (\<lambda>j. (j, d_error (disp j))) (rev ds) \<and>
       sc_result s' = closed_with ([] @ settled_errors disp (d # rev ds)) ?c"
    using assms close by (intro quiet_loop) (auto simp: scope_ok_def map_add_def)
  then have "fst ` set (sc_ran ?s') = fst ` set (sc_ran s) \<union> insert d (set ds)"
    using assms(4) close by (auto simp: Let_def image_Un image_image)
  moreover have "sc_closed ?s' \<and> sc_disposers ?s' = []"
    using run_inv [OF close_inv(1) [OF assms(2,3), of disp], of disp "replicate (length (sc_disposers s)) Resume"]
      close_inv(2) [OF assms(2,3), of disp]
    by (auto simp: closing_inv_def loop_left_def split: option.splits)
  ultimately show ?thesis
    using close fresh by (auto simp: Let_def)
qed

section \<open>Witnesses\<close>

text \<open>Three cleanups: the first fails, the others succeed; the registered last one defers another.\<close>

definition example_disposers :: "nat \<Rightarrow> disposer" where
  "example_disposers i =
     \<lparr>d_defers = (if i = 2 then 1 else 0), d_error = (if i = 0 then Some (Error ''busy'') else None)\<rparr>"

definition example_scope :: scope where
  "example_scope = (scope_new ''agent'')\<lparr>sc_disposers := [0, 1], sc_next_entry := 2\<rparr>"

definition example_scope3 :: scope where
  "example_scope3 = (scope_new ''agent'')\<lparr>sc_disposers := [0, 1, 2], sc_next_entry := 3\<rparr>"

theorem scope_close_runs_every_cleanup_witness:
  "(let s' = scope_run example_disposers [Defer, Dispose 0, Resume, Close, Resume]
              (scope_close example_disposers example_scope)
    in sc_closed s' \<and> sc_disposers s' = [] \<and> set (sc_disposers example_scope) \<subseteq> fst ` set (sc_ran s'))"
  using scope_close_runs_every_cleanup
    [of example_scope "[Defer, Dispose 0, Resume, Close, Resume]" example_disposers]
  by (simp add: example_scope_def scope_new_def)

theorem scope_closing_is_final_witness:
  "(let s' = scope_run example_disposers [Interval 0, Timeout 1]
              (scope_close example_disposers example_scope)
    in sc_aborted s' \<and> sc_fired s' = sc_fired example_scope \<and>
       scope_defer s' = Inl (ScopeClosedError (sc_name s')) \<and>
       scope_fork ''child'' s' = Inl (ScopeClosedError (sc_name s')))"
  using scope_closing_is_final [of example_scope example_disposers "[Interval 0, Timeout 1]" "''child''"]
  by (simp add: example_scope_def scope_new_def)

theorem scope_close_reverse_order_witness:
  "(let s' = scope_run example_disposers [Resume, Resume] (scope_close example_disposers example_scope)
    in sc_ran s' = [(1, None), (0, Some (Error ''busy''))] \<and>
       sc_result s' = Some (Some (AggregateError [Error ''busy''] ''Failed to close scope: agent'')))"
  using scope_close_reverse_order [of example_scope example_disposers]
  by (simp add: example_scope_def scope_new_def scope_ok_def example_disposers_def closed_with_def
      settled_errors_def numeral_2_eq_2)

theorem scope_close_drops_late_registration_witness:
  "3 \<in> set (sc_disposers (scope_close example_disposers example_scope3)) \<and>
   (let s' = scope_run example_disposers [Resume, Resume, Resume]
               (scope_close example_disposers example_scope3)
    in sc_closed s' \<and> sc_disposers s' = [] \<and> 3 \<notin> fst ` set (sc_ran s'))"
  using scope_close_drops_late_registration [of example_scope3 "[0, 1]" 2 example_disposers 0]
  by (simp add: example_scope3_def scope_new_def scope_ok_def example_disposers_def numeral_3_eq_3)

end
