(* ===== verification/Kernel_Registry.thy ===== *)
theory Kernel_Registry
  imports CE_Prelude
begin

text \<open>
  The composition helpers of the kernel package: the service registry
  (\<open>packages/kernel/src/service-registry.ts\<close>) and the synchronous event bus
  (\<open>packages/kernel/src/typed-event-bus.ts\<close>). The bus keeps its listener sets in an explicit store,
  since the closure that \<open>on\<close> returns holds on to the set object it added to, which may no longer be
  the set the bus uses for the event.
\<close>

section \<open>Service registry\<close>

text \<open>A token is compared by its key, a symbol that is unique to the call that created it.\<close>

record service_token =
  st_key :: nat
  st_description :: string

record 'svc registry =
  rg_services :: "(nat \<times> 'svc) list"
  rg_sealed :: bool

definition registry_new :: "'svc registry" where
  "registry_new = \<lparr>rg_services = [], rg_sealed = False\<rparr>"

text \<open>\<open>fresh\<close> is the key of the symbol that is created.\<close>

definition createServiceToken :: "nat \<Rightarrow> string \<Rightarrow> ce_error + service_token" where
  "createServiceToken fresh description =
     (let normalized = js_trim description in
      if normalized = [] then Inl (Error ''Service token description must not be empty'')
      else Inr \<lparr>st_key = fresh, st_description = normalized\<rparr>)"

definition registry_has :: "service_token \<Rightarrow> 'svc registry \<Rightarrow> bool" where
  "registry_has token r \<longleftrightarrow> map_of (rg_services r) (st_key token) \<noteq> None"

definition registry_register :: "service_token \<Rightarrow> 'svc \<Rightarrow> 'svc registry \<Rightarrow> ce_error + 'svc registry" where
  "registry_register token service r =
     (if rg_sealed r then Inl (Error ''Service registry is sealed'')
      else if registry_has token r then Inl (DuplicateServiceError (st_description token))
      else Inr (r\<lparr>rg_services := rg_services r @ [(st_key token, service)]\<rparr>))"

definition registry_get :: "service_token \<Rightarrow> 'svc registry \<Rightarrow> ce_error + 'svc" where
  "registry_get token r =
     (case map_of (rg_services r) (st_key token) of
        None \<Rightarrow> Inl (MissingServiceError (st_description token))
      | Some service \<Rightarrow> Inr service)"

definition registry_seal :: "'svc registry \<Rightarrow> 'svc registry" where
  "registry_seal r = r\<lparr>rg_sealed := True\<rparr>"

text \<open>A sequence of registrations and seals, where a failing registration leaves the registry as it is.\<close>

datatype 'svc registry_op = Register service_token 'svc | Seal

fun registry_step :: "'svc registry_op \<Rightarrow> 'svc registry \<Rightarrow> 'svc registry" where
  "registry_step (Register token service) r =
     (case registry_register token service r of Inl _ \<Rightarrow> r | Inr r' \<Rightarrow> r')"
| "registry_step Seal r = registry_seal r"

lemma registry_get_step:
  assumes "registry_get token r = Inr service"
  shows "registry_get token (registry_step op r) = Inr service"
  using assms
  by (cases op)
    (auto simp: registry_get_def registry_register_def registry_has_def registry_seal_def
      map_add_def split: option.splits)

lemma registry_get_fold:
  "registry_get token r = Inr service \<Longrightarrow> registry_get token (fold registry_step ops r) = Inr service"
  by (induction ops arbitrary: r) (simp_all add: registry_get_step)

lemma sealed_fold: "rg_sealed r \<Longrightarrow> fold registry_step ops r = r"
proof (induction ops arbitrary: r)
  case (Cons op ops)
  then have "registry_step op r = r"
    by (cases op) (simp_all add: registry_register_def registry_seal_def)
  with Cons show ?case by simp
qed simp

text \<open>
  A service, once registered, is what \<open>get\<close> returns for its token from then on: no later
  registration replaces it, and a sealed registry does not change at all.
\<close>

theorem registry_is_stable:
  assumes "registry_register token service r = Inr r1"
  shows "registry_get token (fold registry_step ops r1) = Inr service \<and>
    fold registry_step ops' (registry_seal r1) = registry_seal r1"
proof -
  have "registry_get token r1 = Inr service"
    using assms by (auto simp: registry_register_def registry_has_def registry_get_def map_add_def split: if_splits)
  moreover have "rg_sealed (registry_seal r1)" by (simp add: registry_seal_def)
  ultimately show ?thesis by (simp add: registry_get_fold sealed_fold)
qed

section \<open>Event bus\<close>

text \<open>
  Listeners are function objects, numbered. \<open>eb_sets\<close> is the store of the listener sets created so far
  (a set keeps its insertion order), \<open>eb_listeners\<close> maps an event name to the set in use.
\<close>

record bus =
  eb_sets :: "nat list list"
  eb_listeners :: "string \<Rightarrow> nat option"

definition bus_new :: bus where
  "bus_new = \<lparr>eb_sets = [], eb_listeners = (\<lambda>_. None)\<rparr>"

text \<open>The closure that \<open>on\<close> returns: the event name, the set it captured and the listener.\<close>

type_synonym bus_handle = "string \<times> nat \<times> nat"

definition bus_set :: "bus \<Rightarrow> nat \<Rightarrow> nat list" where
  "bus_set b i = (if i < length (eb_sets b) then eb_sets b ! i else [])"

definition set_add :: "nat \<Rightarrow> nat list \<Rightarrow> nat list" where
  "set_add l ls = (if l \<in> set ls then ls else ls @ [l])"

definition bus_on :: "string \<Rightarrow> nat \<Rightarrow> bus \<Rightarrow> bus_handle \<times> bus" where
  "bus_on eventName listener b =
     (let (i, b1) = (case eb_listeners b eventName of
            Some i \<Rightarrow> (i, b)
          | None \<Rightarrow> (length (eb_sets b),
              b\<lparr>eb_sets := eb_sets b @ [[]],
                eb_listeners := (eb_listeners b)(eventName \<mapsto> length (eb_sets b))\<rparr>))
      in ((eventName, i, listener),
          b1\<lparr>eb_sets := (eb_sets b1)[i := set_add listener (bus_set b1 i)]\<rparr>))"

fun bus_unsubscribe :: "bus_handle \<Rightarrow> bus \<Rightarrow> bus" where
  "bus_unsubscribe (eventName, i, listener) b =
     (let b1 = b\<lparr>eb_sets := (eb_sets b)[i := removeAll listener (bus_set b i)]\<rparr>
      in if bus_set b1 i = [] then b1\<lparr>eb_listeners := (eb_listeners b1)(eventName := None)\<rparr> else b1)"

definition bus_listeners :: "string \<Rightarrow> bus \<Rightarrow> nat list" where
  "bus_listeners eventName b =
     (case eb_listeners b eventName of Some i \<Rightarrow> bus_set b i | None \<Rightarrow> [])"

definition bus_listenerCount :: "string \<Rightarrow> bus \<Rightarrow> nat" where
  "bus_listenerCount eventName b = length (bus_listeners eventName b)"

definition bus_clear :: "bus \<Rightarrow> bus" where
  "bus_clear b = b\<lparr>eb_listeners := (\<lambda>_. None)\<rparr>"

text \<open>
  What a listener does when it is called: it may use the bus, and it may throw. The wrapper that \<open>once\<close>
  registers unsubscribes itself before it calls the listener.
\<close>

type_synonym reaction = "bus \<Rightarrow> ce_error option \<times> bus"

definition once_reaction :: "bus_handle \<Rightarrow> reaction \<Rightarrow> reaction" where
  "once_reaction h react b = react (bus_unsubscribe h b)"

fun emit_loop :: "(nat \<Rightarrow> reaction) \<Rightarrow> nat list \<Rightarrow> ce_error list \<Rightarrow> bus \<Rightarrow> ce_error list \<times> bus" where
  "emit_loop react [] errors b = (errors, b)"
| "emit_loop react (l # ls) errors b =
     (case react l b of (thrown, b') \<Rightarrow>
        emit_loop react ls (errors @ (case thrown of Some e \<Rightarrow> [e] | None \<Rightarrow> [])) b')"

definition bus_emit :: "(nat \<Rightarrow> reaction) \<Rightarrow> string \<Rightarrow> bus \<Rightarrow> (ce_error + unit) \<times> bus" where
  "bus_emit react eventName b =
     (case emit_loop react (bus_listeners eventName b) [] b of (errors, b') \<Rightarrow>
        (if errors = [] then Inr () else Inl (AggregateError errors (''Event listener failed: '' @ eventName)), b'))"

text \<open>
  A history in which a listener is added to an event only while it is not listening there, and each
  handle is used at most once. \<open>active\<close> is the list of the subscriptions that are in force.
\<close>

datatype bus_op = On string nat | Off nat

fun bus_history :: "bus_op list \<Rightarrow> bus_handle list \<times> bus \<Rightarrow> (bus_handle list \<times> bus) option" where
  "bus_history [] x = Some x"
| "bus_history (On n l # ops) (active, b) =
     (if \<exists>h \<in> set active. fst h = n \<and> snd (snd h) = l then None
      else case bus_on n l b of (h, b') \<Rightarrow> bus_history ops (active @ [h], b'))"
| "bus_history (Off k # ops) (active, b) =
     (if k < length active
      then bus_history ops (take k active @ drop (Suc k) active, bus_unsubscribe (active ! k) b)
      else None)"

section \<open>Subscriptions\<close>

text \<open>The listeners of an event are those of its subscriptions in force, in the order they were made.\<close>

definition subscribed :: "bus_handle list \<Rightarrow> string \<Rightarrow> nat list" where
  "subscribed active n = map (\<lambda>h. snd (snd h)) (filter (\<lambda>h. fst h = n) active)"

definition bus_inv :: "bus_handle list \<Rightarrow> bus \<Rightarrow> bool" where
  "bus_inv active b \<longleftrightarrow>
     (\<forall>n. bus_listeners n b = subscribed active n) \<and>
     (\<forall>n. distinct (subscribed active n)) \<and>
     (\<forall>(n, i, l) \<in> set active. eb_listeners b n = Some i) \<and>
     (\<forall>n i. eb_listeners b n = Some i \<longrightarrow> i < length (eb_sets b)) \<and>
     (\<forall>n m i. eb_listeners b n = Some i \<longrightarrow> eb_listeners b m = Some i \<longrightarrow> n = m)"

lemma subscribed_append: "subscribed (xs @ ys) n = subscribed xs n @ subscribed ys n"
  by (simp add: subscribed_def)

lemma bus_invD:
  assumes "bus_inv active b"
  shows "bus_listeners n b = subscribed active n" and "distinct (subscribed active n)"
    and "h \<in> set active \<Longrightarrow> eb_listeners b (fst h) = Some (fst (snd h))"
    and "eb_listeners b n = Some i \<Longrightarrow> i < length (eb_sets b)"
    and "eb_listeners b n = Some i \<Longrightarrow> eb_listeners b m = Some i \<Longrightarrow> n = m"
  using assms unfolding bus_inv_def by (blast | force)+

lemma bus_invI:
  assumes "\<And>n. bus_listeners n b = subscribed active n" and "\<And>n. distinct (subscribed active n)"
    and "\<And>h. h \<in> set active \<Longrightarrow> eb_listeners b (fst h) = Some (fst (snd h))"
    and "\<And>n i. eb_listeners b n = Some i \<Longrightarrow> i < length (eb_sets b)"
    and "\<And>n m i. eb_listeners b n = Some i \<Longrightarrow> eb_listeners b m = Some i \<Longrightarrow> n = m"
  shows "bus_inv active b"
  unfolding bus_inv_def using assms by fastforce

lemma bus_inv_on:
  assumes inv: "bus_inv active b" and new: "\<not> (\<exists>h \<in> set active. fst h = n \<and> snd (snd h) = l)"
    and on: "bus_on n l b = (h, b')"
  shows "bus_inv (active @ [h]) b'"
proof -
  note I = bus_invD [OF inv]
  have fresh: "l \<notin> set (subscribed active n)" using new by (auto simp: subscribed_def)
  have subs: "subscribed (active @ [(n, i, l)]) m =
      (if m = n then subscribed active n @ [l] else subscribed active m)" for m i
    by (simp add: subscribed_def)
  show ?thesis
  proof (cases "eb_listeners b n")
    case None
    then have empty: "subscribed active n = []" and none: "\<And>i l. (n, i, l) \<notin> set active"
      using I(1) [of n] I(3) by (auto simp: bus_listeners_def)
    have h: "h = (n, length (eb_sets b), l)"
      and b': "b' = b\<lparr>eb_sets := eb_sets b @ [[l]], eb_listeners := (eb_listeners b)(n \<mapsto> length (eb_sets b))\<rparr>"
      using on None by (auto simp: bus_on_def Let_def set_add_def bus_set_def)
    have listeners: "bus_listeners m b' = (if m = n then [l] else bus_listeners m b)" for m
      using b' I(4) [of m] by (auto simp: bus_listeners_def bus_set_def nth_append less_Suc_eq
          split: option.splits)
    show ?thesis
      unfolding h
    proof (rule bus_invI)
      show "bus_listeners m b' = subscribed (active @ [(n, length (eb_sets b), l)]) m" for m
        using I(1) empty by (simp add: listeners subs)
      show "distinct (subscribed (active @ [(n, length (eb_sets b), l)]) m)" for m
        using I(2) fresh by (simp add: subs)
    qed (use I(3,5) none in \<open>auto simp: b' less_Suc_eq dest: I(4) split: if_splits\<close>)
  next
    case (Some i)
    have i: "i < length (eb_sets b)" using I(4) Some by simp
    have cur: "bus_set b i = subscribed active n" using I(1) [of n] Some by (simp add: bus_listeners_def)
    have h: "h = (n, i, l)" and b': "b' = b\<lparr>eb_sets := (eb_sets b)[i := subscribed active n @ [l]]\<rparr>"
      using on Some cur fresh by (simp_all add: bus_on_def Let_def set_add_def)
    have "m \<noteq> n \<Longrightarrow> eb_listeners b m \<noteq> Some i" for m
      using I(5) [OF Some, of m] by blast
    then have listeners: "bus_listeners m b' = (if m = n then subscribed active n @ [l] else bus_listeners m b)" for m
      using i Some by (cases "eb_listeners b m") (auto simp: b' bus_listeners_def bus_set_def nth_list_update)
    show ?thesis
      unfolding h
    proof (rule bus_invI)
      show "bus_listeners m b' = subscribed (active @ [(n, i, l)]) m" for m
        using I(1) by (simp add: listeners subs)
      show "distinct (subscribed (active @ [(n, i, l)]) m)" for m
        using I(2) fresh by (simp add: subs)
    qed (use I(3,5) Some in \<open>auto simp: b' dest: I(4)\<close>)
  qed
qed

lemma bus_inv_off:
  assumes inv: "bus_inv (xs @ h # ys) b"
  shows "bus_inv (xs @ ys) (bus_unsubscribe h b)"
proof -
  note I = bus_invD [OF inv]
  obtain n i l where h: "h = (n, i, l)" by (cases h) auto
  have i: "eb_listeners b n = Some i" using I(3) [of h] h by simp
  note len = I(4) [OF i]
  have subs: "m \<noteq> n \<Longrightarrow> subscribed (xs @ ys) m = subscribed (xs @ h # ys) m" for m
    using h by (simp add: subscribed_def)
  have cur: "bus_set b i = subscribed (xs @ h # ys) n"
    using I(1) [of n] i by (simp add: bus_listeners_def)
  have left: "removeAll l (subscribed (xs @ h # ys) n) = subscribed (xs @ ys) n"
    using I(2) [of n] h by (auto simp: subscribed_def removeAll_id)
  define b1 where "b1 = b\<lparr>eb_sets := (eb_sets b)[i := subscribed (xs @ ys) n]\<rparr>"
  have off: "bus_unsubscribe h b =
      (if subscribed (xs @ ys) n = [] then b1\<lparr>eb_listeners := (eb_listeners b1)(n := None)\<rparr> else b1)"
    using len cur left by (simp add: h b1_def Let_def bus_set_def)
  have gone: "subscribed (xs @ ys) n = [] \<Longrightarrow> h' \<in> set (xs @ ys) \<Longrightarrow> fst h' \<noteq> n" for h'
    by (auto simp: subscribed_def filter_empty_conv)
  have one: "bus_listeners n (bus_unsubscribe h b) = subscribed (xs @ ys) n"
    using i len unfolding off b1_def by (simp add: bus_listeners_def bus_set_def)
  have other: "bus_listeners m (bus_unsubscribe h b) = bus_listeners m b" if "m \<noteq> n" for m
    using I(5) [OF i, of m] that len unfolding off b1_def
    by (auto simp: bus_listeners_def bus_set_def nth_list_update split: option.splits)
  show ?thesis
  proof (rule bus_invI)
    show "bus_listeners m (bus_unsubscribe h b) = subscribed (xs @ ys) m" for m
      using one other [of m] I(1) [of m] subs [of m] by (cases "m = n") simp_all
    show "distinct (subscribed (xs @ ys) m)" for m
      using I(2) [of m] subs [of m] left by (cases "m = n") (metis distinct_removeAll, simp)
    show "eb_listeners (bus_unsubscribe h b) (fst h') = Some (fst (snd h'))" if "h' \<in> set (xs @ ys)" for h'
      using I(3) [of h'] gone that unfolding off b1_def by auto
    show "i' < length (eb_sets (bus_unsubscribe h b))" if "eb_listeners (bus_unsubscribe h b) m = Some i'" for m i'
      using I(4) [of m i'] that unfolding off b1_def by (auto split: if_splits)
    show "m = m'" if "eb_listeners (bus_unsubscribe h b) m = Some i'"
        "eb_listeners (bus_unsubscribe h b) m' = Some i'" for m m' i'
      using I(5) [of m i' m'] that unfolding off b1_def by (auto split: if_splits)
  qed
qed

lemma bus_history_inv:
  "bus_history ops (active, b) = Some (active', b') \<Longrightarrow> bus_inv active b \<Longrightarrow> bus_inv active' b'"
proof (induction ops "(active, b)" arbitrary: active b rule: bus_history.induct)
  case (2 n l ops active b)
  obtain h b1 where on: "bus_on n l b = (h, b1)" by (cases "bus_on n l b") auto
  with 2 show ?case using bus_inv_on [OF 2(3) _ on] by (auto split: if_splits)
next
  case (3 k ops active b)
  then have k: "k < length active" by (auto split: if_splits)
  then have "bus_inv (take k active @ drop (Suc k) active) (bus_unsubscribe (active ! k) b)"
    using 3(3) bus_inv_off id_take_nth_drop [OF k] by metis
  then show ?case using 3 k by auto
qed simp

text \<open>
  As long as every handle is used at most once, an event reaches exactly the listeners that
  are subscribed to it, once each and in the order of subscription, even when some throw: \<open>emit\<close> calls
  them all and then throws their errors together.
\<close>

theorem bus_emit_reaches_subscribers:
  assumes "bus_history ops ([], bus_new) = Some (active, b)"
    and "\<forall>l b. react l b = (thrown l, b)"
  shows "bus_listeners n b = subscribed active n \<and>
    bus_emit react n b =
      (let errors = concat (map (\<lambda>l. case thrown l of Some e \<Rightarrow> [e] | None \<Rightarrow> []) (subscribed active n))
       in (if errors = [] then Inr () else Inl (AggregateError errors (''Event listener failed: '' @ n)), b))"
proof -
  have "bus_inv [] bus_new"
    by (simp add: bus_inv_def bus_new_def bus_listeners_def subscribed_def)
  then have listeners: "bus_listeners n b = subscribed active n"
    using bus_history_inv [OF assms(1)] by (simp add: bus_inv_def)
  have "emit_loop react ls errors b =
      (errors @ concat (map (\<lambda>l. case thrown l of Some e \<Rightarrow> [e] | None \<Rightarrow> []) ls), b)" for ls errors
    using assms(2) by (induction ls arbitrary: errors) simp_all
  then show ?thesis using listeners by (simp add: bus_emit_def Let_def)
qed

text \<open>
  A fault of the handle: it is not idempotent. If it is called a second time, after the set it
  captured became empty and another listener subscribed, the second call removes the new set: the other
  listener was never unsubscribed and no longer receives the event.
\<close>

theorem bus_stale_handle_drops_listener:
  assumes "eb_listeners b n = None" and "bus_on n l b = (h, b1)"
    and "bus_on n l' (bus_unsubscribe h b1) = (h', b2)"
  shows "bus_listeners n b2 = [l'] \<and> bus_listeners n (bus_unsubscribe h b2) = []"
  using assms
  by (auto simp: bus_on_def bus_listeners_def Let_def bus_set_def set_add_def nth_append list_update_append)

section \<open>Witnesses\<close>

theorem registry_is_stable_witness:
  "let token = \<lparr>st_key = 1, st_description = ''queue''\<rparr>;
       r1 = \<lparr>rg_services = [(1, ''service'')], rg_sealed = False\<rparr>
   in registry_get token (fold registry_step [Register token ''other'', Seal] r1) = Inr ''service'' \<and>
      fold registry_step [Register token ''other''] (registry_seal r1) = registry_seal r1"
  using registry_is_stable [of "\<lparr>st_key = 1, st_description = ''queue''\<rparr>" "''service''" registry_new
      "\<lparr>rg_services = [(1, ''service'')], rg_sealed = False\<rparr>"
      "[Register \<lparr>st_key = 1, st_description = ''queue''\<rparr> ''other'', Seal]"
      "[Register \<lparr>st_key = 1, st_description = ''queue''\<rparr> ''other'']"]
  by (simp add: registry_register_def registry_new_def registry_has_def Let_def)

theorem bus_emit_reaches_subscribers_witness:
  "\<exists>active b. bus_history [On ''ready'' 1, On ''ready'' 2, Off 0] ([], bus_new) = Some (active, b) \<and>
     bus_listeners ''ready'' b = [2] \<and>
     bus_emit (\<lambda>l b. (Some (Error ''boom''), b)) ''ready'' b =
       (Inl (AggregateError [Error ''boom''] ''Event listener failed: ready''), b)"
proof -
  let ?ops = "[On ''ready'' 1, On ''ready'' 2, Off 0]"
  let ?active = "[(''ready'', 0, 2)]"
  let ?b = "\<lparr>eb_sets = [[2]], eb_listeners = [''ready'' \<mapsto> 0]\<rparr>"
  have "bus_history ?ops ([], bus_new) = Some (?active, ?b)"
    by (simp add: bus_new_def bus_on_def Let_def bus_set_def set_add_def)
  then show ?thesis
    using bus_emit_reaches_subscribers
      [of ?ops ?active ?b "\<lambda>l b. (Some (Error ''boom''), b)" "\<lambda>_. Some (Error ''boom'')" "''ready''"]
    by (simp add: subscribed_def)
qed

theorem bus_stale_handle_drops_listener_witness:
  "let b1 = snd (bus_on ''ready'' 1 bus_new); h = fst (bus_on ''ready'' 1 bus_new);
       b2 = snd (bus_on ''ready'' 2 (bus_unsubscribe h b1))
   in bus_listeners ''ready'' b2 = [2] \<and> bus_listeners ''ready'' (bus_unsubscribe h b2) = []"
  using bus_stale_handle_drops_listener [of bus_new "''ready''" 1 "fst (bus_on ''ready'' 1 bus_new)"
      "snd (bus_on ''ready'' 1 bus_new)" 2
      "fst (bus_on ''ready'' 2 (bus_unsubscribe (fst (bus_on ''ready'' 1 bus_new)) (snd (bus_on ''ready'' 1 bus_new))))"
      "snd (bus_on ''ready'' 2 (bus_unsubscribe (fst (bus_on ''ready'' 1 bus_new)) (snd (bus_on ''ready'' 1 bus_new))))"]
  by (simp add: bus_new_def Let_def)

end
