(* ===== verification/User_Db.thy ===== *)
theory User_Db
  imports CE_Prelude
begin

text \<open>
  The tables of the user database (\<open>apps/agent/src/v2/repositories/state-schema.ts\<close>), one record per
  row type with the columns of its CREATE TABLE statement, and the conversions of column values that
  the repositories share (\<open>snapshot-sql.ts\<close>). A column with a CHECK that lists its values is a
  datatype; a column written with \<open>JSON.stringify\<close> is a \<open>json_text\<close>; a nullable column is an option.
  A table whose CHECK allows the single id 1 is an option.
\<close>

section \<open>Rows\<close>

record metadata_row =
  md_created_at :: timestamp
  md_source_schema :: int
  md_workspace_authorization_revision :: int
  md_thread_permission_generation :: int
  md_default_workspace_id :: "string option"

record workspace_row =
  wk_id :: string
  wk_path :: string
  wk_label :: string
  wk_created_at :: timestamp
  wk_revision :: int

datatype theme = Theme_system | Theme_light | Theme_dark

record preferences_row =
  pf_theme :: theme
  pf_locale :: string
  pf_default_sandbox :: string
  pf_default_approval_policy :: string
  pf_revision :: int
  pf_updated_at :: timestamp

record thread_permission_row =
  tpm_thread_id :: string
  tpm_approval_policy_json :: json_text
  tpm_approvals_reviewer :: string
  tpm_sandbox_mode :: string
  tpm_revision :: int
  tpm_updated_at :: timestamp

record observation_row =
  ob_thread_id :: string
  ob_generation :: int

datatype side_chat_status = SC_creating | SC_ready | SC_deleting | SC_indeterminate

record side_chat_row =
  sd_workspace_id :: string
  sd_parent_thread_id :: string
  sd_thread_id :: "string option"
  sd_boundary_turn_id :: "string option"
  sd_status :: side_chat_status
  sd_operation_key :: string
  sd_created_at :: timestamp

record trusted_device_row =
  dv_id :: string
  dv_name :: string
  dv_public_key :: bytes
  dv_created_at :: timestamp
  dv_revoked_at :: "timestamp option"

record pairing_row =
  pr_id :: string
  pr_secret_hash :: bytes
  pr_expires_at :: timestamp
  pr_created_at :: timestamp

record passkey_row =
  pk_credential_id :: bytes
  pk_public_key :: bytes
  pk_sign_count :: int
  pk_created_at :: timestamp

record recovery_code_row =
  rc_hash :: bytes
  rc_created_at :: timestamp
  rc_used_at :: "timestamp option"

record password_row =
  pw_registration_record :: string
  pw_updated_at :: timestamp

record handoff_row =
  hf_hash :: bytes
  hf_expires_at :: timestamp
  hf_created_at :: timestamp
  hf_used_at :: "timestamp option"

datatype receipt_state = RS_pending | RS_completed | RS_indeterminate

record receipt_row =
  rr_operation_key :: string
  rr_method :: string
  rr_request_fingerprint :: "string option"
  rr_status :: receipt_state
  rr_result_json :: "json_text option"
  rr_created_at :: timestamp
  rr_updated_at :: timestamp
  rr_expires_at :: "timestamp option"

datatype queue_status = QS_pending | QS_paused | QS_delivering | QS_completed | QS_indeterminate

record queue_row =
  qi_id :: string
  qi_workspace_path :: string
  qi_thread_id :: string
  qi_request_json :: json_text
  qi_status :: queue_status
  qi_revision :: int
  qi_created_at :: timestamp
  qi_updated_at :: timestamp

datatype claim_outcome = CO_completed | CO_indeterminate | CO_abandoned

record claim_row =
  cl_queue_item_id :: string
  cl_operation :: string
  cl_thread_id :: string
  cl_client_user_message_id :: string
  cl_outcome :: "claim_outcome option"
  cl_turn_id :: "string option"
  cl_created_at :: timestamp
  cl_completed_at :: "timestamp option"

record audit_row =
  au_id :: string
  au_kind :: string
  au_subject_id :: "string option"
  au_created_at :: timestamp

section \<open>Database\<close>

record user_db =
  db_metadata :: "metadata_row option"
  db_workspaces :: "workspace_row list"
  db_preferences :: "preferences_row option"
  db_thread_permissions :: "thread_permission_row list"
  db_observations :: "observation_row list"
  db_side_chats :: "side_chat_row list"
  db_devices :: "trusted_device_row list"
  db_pairings :: "pairing_row list"
  db_passkeys :: "passkey_row list"
  db_recovery_codes :: "recovery_code_row list"
  db_password :: "password_row option"
  db_handoffs :: "handoff_row list"
  db_receipts :: "receipt_row list"
  db_queue_items :: "queue_row list"
  db_claims :: "claim_row list"
  db_audit :: "audit_row list"

text \<open>The database of a new user (\<open>emptyUserSnapshot\<close>).\<close>

definition empty_user_db :: "timestamp \<Rightarrow> user_db" where
  "empty_user_db now =
     \<lparr>db_metadata = Some \<lparr>md_created_at = now, md_source_schema = 0,
        md_workspace_authorization_revision = 0, md_thread_permission_generation = 0,
        md_default_workspace_id = None\<rparr>,
      db_workspaces = [],
      db_preferences = Some \<lparr>pf_theme = Theme_system, pf_locale = ''zh-CN'',
        pf_default_sandbox = ''workspace-write'', pf_default_approval_policy = ''on-request'',
        pf_revision = 0, pf_updated_at = now\<rparr>,
      db_thread_permissions = [], db_observations = [], db_side_chats = [], db_devices = [],
      db_pairings = [], db_passkeys = [], db_recovery_codes = [], db_password = None,
      db_handoffs = [], db_receipts = [], db_queue_items = [], db_claims = [], db_audit = []\<rparr>"

text \<open>\<open>integer\<close> of \<open>snapshot-sql.ts\<close>: a column is accepted only when it is a safe integer.\<close>

definition sql_integer :: "int \<Rightarrow> string \<Rightarrow> ce_error + int" where
  "sql_integer value field = (if safe_integer value then Inr value else Inl (Error (''Invalid '' @ field)))"

text \<open>An INSERT into a table with the given key column, and the audit entry several repositories write.\<close>

definition t_insert :: "('r \<Rightarrow> 'k) \<Rightarrow> string \<Rightarrow> 'r \<Rightarrow> 'r list \<Rightarrow> ce_error + 'r list" where
  "t_insert key table row rows =
     (if t_find key (key row) rows \<noteq> None then Inl (SqlConstraint (''UNIQUE constraint failed: '' @ table))
      else Inr (rows @ [row]))"

definition insert_audit ::
  "string \<Rightarrow> string \<Rightarrow> string option \<Rightarrow> timestamp \<Rightarrow> user_db \<Rightarrow> ce_error + user_db" where
  "insert_audit auditId kind subject now db =
     (case t_insert au_id ''audit_events''
        \<lparr>au_id = auditId, au_kind = kind, au_subject_id = subject, au_created_at = now\<rparr> (db_audit db) of
        Inl e \<Rightarrow> Inl e
      | Inr rows \<Rightarrow> Inr (db\<lparr>db_audit := rows\<rparr>))"

lemma t_insert_keyed: "t_insert key table row rows = Inr rows' \<Longrightarrow> t_keyed key rows \<Longrightarrow> t_keyed key rows'"
  by (auto simp: t_insert_def split: if_splits)

lemma t_insert_rows: "t_insert key table row rows = Inr rows' \<Longrightarrow> rows' = rows @ [row]"
  by (auto simp: t_insert_def split: if_splits)

lemma insert_audit_frame:
  assumes "insert_audit auditId kind subject now db = Inr db'"
  shows "db' = db\<lparr>db_audit := db_audit db'\<rparr>"
  using assms by (auto simp: insert_audit_def split: sum.splits)

text \<open>Sequencing of fallible steps: the first error is thrown.\<close>

definition bind_result :: "ce_error + 'a \<Rightarrow> ('a \<Rightarrow> ce_error + 'b) \<Rightarrow> ce_error + 'b" where
  "bind_result x f = (case x of Inl e \<Rightarrow> Inl e | Inr a \<Rightarrow> f a)"

lemma bind_result_simps [simp]:
  "bind_result (Inl e) f = Inl e" "bind_result (Inr a) f = f a"
  by (simp_all add: bind_result_def)

lemma bind_result_Inr: "bind_result x f = Inr b \<longleftrightarrow> (\<exists>a. x = Inr a \<and> f a = Inr b)"
  by (cases x) simp_all

text \<open>Converting every row of a query; the first row that is refused throws.\<close>

fun map_result :: "('a \<Rightarrow> ce_error + 'b) \<Rightarrow> 'a list \<Rightarrow> ce_error + 'b list" where
  "map_result f [] = Inr []"
| "map_result f (x # xs) =
     bind_result (f x) (\<lambda>y. bind_result (map_result f xs) (\<lambda>ys. Inr (y # ys)))"

lemma map_result_Inr: "map_result f xs = Inr ys \<longleftrightarrow> map f xs = map Inr ys"
  by (induction xs arbitrary: ys) (auto simp: bind_result_Inr Cons_eq_map_conv)

lemma map_result_total: "(\<And>x. x \<in> set xs \<Longrightarrow> f x = Inr (g x)) \<Longrightarrow> map_result f xs = Inr (map g xs)"
  by (induction xs) auto

end
