(* ===== verification/Queue_Repository.thy ===== *)
theory Queue_Repository
  imports User_Db
begin

text \<open>
  The queue of messages to deliver (\<open>apps/agent/src/v2/repositories/queue-repository.ts\<close>): a table of
  items and a table of delivery claims with at most one claim per item. Every operation is the body of
  one transaction; the clock and the random identifiers are arguments.
\<close>

section \<open>Records\<close>

record queue_record =
  qr_id :: string
  qr_workspacePath :: string
  qr_threadId :: string
  qr_text :: string
  qr_status :: queue_status
  qr_revision :: int
  qr_createdAt :: timestamp
  qr_updatedAt :: timestamp
  qr_indeterminateReason :: "string option"

record delivery_identity =
  di_queueItemId :: string
  di_operation :: string
  di_threadId :: string
  di_clientUserMessageId :: string

section \<open>Rows and columns\<close>

definition requestJson :: "string \<Rightarrow> json_text" where
  "requestJson value = JsonText (JObj [(''version'', JNum 1), (''text'', JStr value)])"

fun parseRequestJson :: "json_text \<Rightarrow> ce_error + string" where
  "parseRequestJson (BadJson s) = Inl (Error ''Queue request is invalid JSON'')"
| "parseRequestJson (JsonText (JObj fs)) =
     (case (js_get fs ''version'', js_get fs ''text'') of
        (JNum n, JStr t) \<Rightarrow> if n = 1 then Inr t else Inl (Error ''Queue request has an invalid shape'')
      | _ \<Rightarrow> Inl (Error ''Queue request has an invalid shape''))"
| "parseRequestJson (JsonText v) = Inl (Error ''Queue request has an invalid shape'')"

definition nonnegativeInteger :: "int \<Rightarrow> string \<Rightarrow> ce_error + int" where
  "nonnegativeInteger value field =
     (if \<not> safe_integer value \<or> value < 0 then Inl (Error (''Invalid '' @ field)) else Inr value)"

text \<open>A row of \<open>QUEUE_SELECT\<close>: the item with the outcome of its claim, if it has both.\<close>

definition claim_outcome_of :: "user_db \<Rightarrow> string \<Rightarrow> claim_outcome option" where
  "claim_outcome_of db i = Option.bind (t_find cl_queue_item_id i (db_claims db)) cl_outcome"

definition parseQueueRow :: "queue_row \<times> claim_outcome option \<Rightarrow> ce_error + queue_record" where
  "parseQueueRow r =
     bind_result (parseRequestJson (qi_request_json (fst r))) (\<lambda>txt.
     bind_result (nonnegativeInteger (qi_revision (fst r)) ''queue revision'') (\<lambda>revision.
       Inr \<lparr>qr_id = qi_id (fst r), qr_workspacePath = qi_workspace_path (fst r),
         qr_threadId = qi_thread_id (fst r), qr_text = txt, qr_status = qi_status (fst r),
         qr_revision = revision, qr_createdAt = qi_created_at (fst r), qr_updatedAt = qi_updated_at (fst r),
         qr_indeterminateReason =
           (if qi_status (fst r) = QS_indeterminate
            then Some (if snd r = Some CO_indeterminate
              then ''Delivery crossed the external boundary but its result is unknown''
              else ''A delivering item was recovered without a complete claim'')
            else None)\<rparr>))"

definition queue_select :: "user_db \<Rightarrow> queue_row \<Rightarrow> queue_row \<times> claim_outcome option" where
  "queue_select db r = (r, claim_outcome_of db (qi_id r))"

definition readQueue :: "user_db \<Rightarrow> string \<Rightarrow> ce_error + queue_record option" where
  "readQueue db i =
     (case t_find qi_id i (db_queue_items db) of
        None \<Rightarrow> Inr None
      | Some r \<Rightarrow> bind_result (parseQueueRow (queue_select db r)) (\<lambda>q. Inr (Some q)))"

definition requiredQueue :: "user_db \<Rightarrow> string \<Rightarrow> ce_error + queue_record" where
  "requiredQueue db i =
     bind_result (readQueue db i) (\<lambda>q. case q of
       None \<Rightarrow> Inl (Error ''Queue item disappeared'') | Some item \<Rightarrow> Inr item)"

definition readClaim :: "user_db \<Rightarrow> string \<Rightarrow> claim_row option" where
  "readClaim db i = t_find cl_queue_item_id i (db_claims db)"

definition claimMatches :: "claim_row \<Rightarrow> delivery_identity \<Rightarrow> bool" where
  "claimMatches row identity \<longleftrightarrow>
     cl_operation row = di_operation identity \<and> cl_thread_id row = di_threadId identity \<and>
     cl_client_user_message_id row = di_clientUserMessageId identity"

text \<open>The WHERE of the statements that settle a claim.\<close>

definition open_claim :: "delivery_identity \<Rightarrow> claim_row \<Rightarrow> bool" where
  "open_claim identity c \<longleftrightarrow>
     cl_queue_item_id c = di_queueItemId identity \<and> claimMatches c identity \<and> cl_outcome c = None"

definition updateQueueStatus ::
  "string \<Rightarrow> queue_status \<Rightarrow> timestamp \<Rightarrow> user_db \<Rightarrow> ce_error + user_db" where
  "updateQueueStatus i status now db =
     (if t_count (\<lambda>r. qi_id r = i) (db_queue_items db) \<noteq> 1
      then Inl (Error ''Queue item disappeared during transition'')
      else Inr (db\<lparr>db_queue_items := t_update (\<lambda>r. qi_id r = i)
             (\<lambda>r. r\<lparr>qi_status := status, qi_revision := qi_revision r + 1, qi_updated_at := now\<rparr>)
             (db_queue_items db)\<rparr>))"

section \<open>Operations\<close>

definition queue_add ::
  "string \<Rightarrow> string \<Rightarrow> string \<Rightarrow> string \<Rightarrow> timestamp \<Rightarrow> (user_db, queue_record) tx" where
  "queue_add i workspacePath threadId txt now db =
     bind_result (t_insert qi_id ''queue_items''
        \<lparr>qi_id = i, qi_workspace_path = workspacePath, qi_thread_id = threadId,
         qi_request_json = requestJson txt, qi_status = QS_pending, qi_revision = 0,
         qi_created_at = now, qi_updated_at = now\<rparr> (db_queue_items db))
       (\<lambda>rows. Inr (\<lparr>qr_id = i, qr_workspacePath = workspacePath, qr_threadId = threadId, qr_text = txt,
           qr_status = QS_pending, qr_revision = 0, qr_createdAt = now, qr_updatedAt = now,
           qr_indeterminateReason = None\<rparr>,
         db\<lparr>db_queue_items := rows\<rparr>))"

definition queue_list ::
  "string option \<Rightarrow> bool \<Rightarrow> user_db \<Rightarrow> ce_error + queue_record list" where
  "queue_list threadId includeCompleted db =
     map_result parseQueueRow (map (queue_select db)
       (sort_key (\<lambda>r. (qi_created_at r, qi_id r))
         (filter (\<lambda>r. (\<not> includeCompleted \<longrightarrow> qi_status r \<noteq> QS_completed) \<and>
                      (case threadId of Some t \<Rightarrow> qi_thread_id r = t | None \<Rightarrow> True))
           (db_queue_items db))))"

definition queue_get :: "string \<Rightarrow> user_db \<Rightarrow> ce_error + queue_record option" where
  "queue_get i db = readQueue db i"

definition queue_nextPending :: "user_db \<Rightarrow> ce_error + queue_record option" where
  "queue_nextPending db =
     (case sort_key (\<lambda>r. (qi_created_at r, qi_id r))
             (filter (\<lambda>r. qi_status r = QS_pending) (db_queue_items db)) of
        [] \<Rightarrow> Inr None
      | r # _ \<Rightarrow> bind_result (parseQueueRow (queue_select db r)) (\<lambda>q. Inr (Some q)))"

definition queue_remove :: "string \<Rightarrow> (user_db, bool) tx" where
  "queue_remove i db =
     (let selected = (\<lambda>r. qi_id r = i \<and> qi_status r \<in> {QS_pending, QS_paused} \<and> readClaim db i = None)
      in Inr (t_count selected (db_queue_items db) = 1,
              db\<lparr>db_queue_items := t_delete selected (db_queue_items db)\<rparr>))"

definition transitionWithoutClaim ::
  "string \<Rightarrow> queue_status \<Rightarrow> queue_status \<Rightarrow> timestamp \<Rightarrow> (user_db, queue_record) tx" where
  "transitionWithoutClaim i from_status to_status now db =
     (let selected = (\<lambda>r. qi_id r = i \<and> qi_status r = from_status \<and> readClaim db i = None);
          db1 = db\<lparr>db_queue_items := t_update selected
            (\<lambda>r. r\<lparr>qi_status := to_status, qi_revision := qi_revision r + 1, qi_updated_at := now\<rparr>)
            (db_queue_items db)\<rparr>
      in if t_count selected (db_queue_items db) \<noteq> 1
         then Inl (QueueStateConflictError i ''Queue item state changed'')
         else bind_result (requiredQueue db1 i) (\<lambda>q. Inr (q, db1)))"

definition queue_pause :: "string \<Rightarrow> timestamp \<Rightarrow> (user_db, queue_record) tx" where
  "queue_pause i now = transitionWithoutClaim i QS_pending QS_paused now"

definition queue_resume :: "string \<Rightarrow> timestamp \<Rightarrow> (user_db, queue_record) tx" where
  "queue_resume i now = transitionWithoutClaim i QS_paused QS_pending now"

definition eligible :: "string \<Rightarrow> queue_status \<Rightarrow> bool" where
  "eligible operation status \<longleftrightarrow>
     (if operation = ''turn/start'' then status = QS_pending else status \<in> {QS_pending, QS_paused})"

definition queue_claim ::
  "string \<Rightarrow> int \<Rightarrow> string \<Rightarrow> string option \<Rightarrow> string \<Rightarrow> timestamp \<Rightarrow>
   (user_db, queue_record \<times> delivery_identity) tx" where
  "queue_claim itemId expectedRevision operation replacementText clientUserMessageId now db =
     bind_result (readQueue db itemId) (\<lambda>found. case found of
       None \<Rightarrow> Inl (QueueStateConflictError itemId ''Queue item is no longer eligible for delivery'')
     | Some current \<Rightarrow>
         if qr_revision current \<noteq> expectedRevision \<or> \<not> eligible operation (qr_status current)
         then Inl (QueueStateConflictError itemId ''Queue item is no longer eligible for delivery'')
         else let
           txt = (case replacementText of Some t \<Rightarrow> t | None \<Rightarrow> qr_text current);
           selected = (\<lambda>r. qi_id r = itemId \<and> qi_revision r = expectedRevision \<and>
                           qi_status r = qr_status current);
           db1 = db\<lparr>db_queue_items := t_update selected
             (\<lambda>r. r\<lparr>qi_request_json := requestJson txt, qi_status := QS_delivering,
                     qi_revision := qi_revision r + 1, qi_updated_at := now\<rparr>) (db_queue_items db)\<rparr>
         in if t_count selected (db_queue_items db) \<noteq> 1
            then Inl (QueueStateConflictError itemId ''Queue item changed while claiming delivery'')
            else bind_result (t_insert cl_queue_item_id ''queue_delivery_claims''
                \<lparr>cl_queue_item_id = qr_id current, cl_operation = operation,
                 cl_thread_id = qr_threadId current, cl_client_user_message_id = clientUserMessageId,
                 cl_outcome = None, cl_turn_id = None, cl_created_at = now, cl_completed_at = None\<rparr>
                (db_claims db1)) (\<lambda>claims.
              let db2 = db1\<lparr>db_claims := claims\<rparr> in
              bind_result (readQueue db2 (qr_id current)) (\<lambda>again. case again of
                None \<Rightarrow> Inl (Error ''Claimed queue item disappeared'')
              | Some claimed \<Rightarrow> Inr ((claimed,
                  \<lparr>di_queueItemId = qr_id current, di_operation = operation,
                   di_threadId = qr_threadId current,
                   di_clientUserMessageId = clientUserMessageId\<rparr>), db2))))"

definition queue_complete ::
  "delivery_identity \<Rightarrow> string \<Rightarrow> timestamp \<Rightarrow> (user_db, queue_record) tx" where
  "queue_complete identity turnId now db =
     (if turnId = [] then Inl (Error ''Queue delivery returned no turn ID'')
      else let db1 = db\<lparr>db_claims := t_update (open_claim identity)
             (\<lambda>c. c\<lparr>cl_outcome := Some CO_completed, cl_turn_id := Some turnId,
                     cl_completed_at := Some now\<rparr>) (db_claims db)\<rparr>;
        conflict = Inl (QueueStateConflictError (di_queueItemId identity)
                     ''Queue delivery claim changed before completion'')
      in if t_count (open_claim identity) (db_claims db) \<noteq> 1
         then (case readClaim db1 (di_queueItemId identity) of
                 Some settled \<Rightarrow>
                   if cl_outcome settled = Some CO_completed \<and> cl_turn_id settled = Some turnId \<and>
                      claimMatches settled identity
                   then bind_result (readQueue db1 (di_queueItemId identity)) (\<lambda>found. case found of
                          Some current \<Rightarrow> if qr_status current = QS_completed then Inr (current, db1)
                                          else conflict
                        | None \<Rightarrow> conflict)
                   else conflict
               | None \<Rightarrow> conflict)
         else bind_result (updateQueueStatus (di_queueItemId identity) QS_completed now db1) (\<lambda>db2.
              bind_result (requiredQueue db2 (di_queueItemId identity)) (\<lambda>q. Inr (q, db2))))"

definition queue_markIndeterminate ::
  "delivery_identity \<Rightarrow> timestamp \<Rightarrow> (user_db, queue_record) tx" where
  "queue_markIndeterminate identity now db =
     (let db1 = db\<lparr>db_claims := t_update (open_claim identity)
            (\<lambda>c. c\<lparr>cl_outcome := Some CO_indeterminate, cl_completed_at := Some now\<rparr>) (db_claims db)\<rparr>;
          conflict = Inl (QueueStateConflictError (di_queueItemId identity)
                       ''Queue delivery claim cannot be marked indeterminate'')
      in case readClaim db1 (di_queueItemId identity) of
           None \<Rightarrow> conflict
         | Some claim \<Rightarrow>
             if \<not> claimMatches claim identity \<or>
                cl_outcome claim \<notin> {Some CO_indeterminate, Some CO_completed}
             then conflict
             else if cl_outcome claim = Some CO_completed
             then bind_result (requiredQueue db1 (di_queueItemId identity)) (\<lambda>q. Inr (q, db1))
             else bind_result (updateQueueStatus (di_queueItemId identity) QS_indeterminate now db1) (\<lambda>db2.
                  bind_result (requiredQueue db2 (di_queueItemId identity)) (\<lambda>q. Inr (q, db2))))"

definition queue_recoverDelivering :: "timestamp \<Rightarrow> (user_db, nat) tx" where
  "queue_recoverDelivering now db =
     (let claims = t_update
            (\<lambda>c. cl_outcome c = None \<and>
                 (\<exists>q \<in> set (db_queue_items db). qi_id q = cl_queue_item_id c \<and> qi_status q = QS_delivering))
            (\<lambda>c. c\<lparr>cl_outcome := Some CO_indeterminate, cl_completed_at := Some now\<rparr>) (db_claims db);
          items = t_update (\<lambda>r. qi_status r = QS_delivering)
            (\<lambda>r. r\<lparr>qi_status := QS_indeterminate, qi_revision := qi_revision r + 1, qi_updated_at := now\<rparr>)
            (db_queue_items db)
      in Inr (t_count (\<lambda>r. qi_status r = QS_delivering) (db_queue_items db),
              db\<lparr>db_claims := claims, db_queue_items := items\<rparr>))"

datatype disposition = Retry | Dismiss

fun disposition_text :: "disposition \<Rightarrow> string" where
  "disposition_text Retry = ''retry''"
| "disposition_text Dismiss = ''dismiss''"

definition queue_acknowledgeIndeterminate ::
  "string \<Rightarrow> disposition \<Rightarrow> string \<Rightarrow> timestamp \<Rightarrow> (user_db, queue_record) tx" where
  "queue_acknowledgeIndeterminate i disposition auditId now db =
     bind_result (readQueue db i) (\<lambda>current.
       let claim = readClaim db i in
       if map_option qr_status current \<noteq> Some QS_indeterminate \<or>
          (claim \<noteq> None \<and> Option.bind claim cl_outcome \<noteq> Some CO_indeterminate)
       then Inl (QueueStateConflictError i ''Queue item does not have an indeterminate outcome'')
       else bind_result
         (case disposition of
            Retry \<Rightarrow> updateQueueStatus i QS_pending now
              (db\<lparr>db_claims := t_delete (\<lambda>c. cl_queue_item_id c = i) (db_claims db)\<rparr>)
          | Dismiss \<Rightarrow> updateQueueStatus i QS_completed now
              (if claim = None then db
               else db\<lparr>db_claims := t_update
                 (\<lambda>c. cl_queue_item_id c = i \<and> cl_outcome c = Some CO_indeterminate)
                 (\<lambda>c. c\<lparr>cl_outcome := Some CO_abandoned, cl_completed_at := Some now\<rparr>) (db_claims db)\<rparr>))
         (\<lambda>db1. bind_result (insert_audit auditId
              (''queue/indeterminate/'' @ disposition_text disposition) (Some i) now db1)
           (\<lambda>db2. bind_result (requiredQueue db2 i) (\<lambda>q. Inr (q, db2)))))"

section \<open>Calls in sequence\<close>

text \<open>The operations with their arguments, and the effect of one call on the database.\<close>

datatype queue_op =
    QAdd string string string string timestamp
  | QRemove string
  | QPause string timestamp
  | QResume string timestamp
  | QClaim string int string "string option" string timestamp
  | QComplete delivery_identity string timestamp
  | QMark delivery_identity timestamp
  | QRecover timestamp
  | QAcknowledge string disposition string timestamp

fun queue_exec :: "queue_op \<Rightarrow> user_db \<Rightarrow> bool \<times> user_db" where
  "queue_exec (QAdd i path thread txt now) db = returns (run_tx (queue_add i path thread txt now) db)"
| "queue_exec (QRemove i) db = returns (run_tx (queue_remove i) db)"
| "queue_exec (QPause i now) db = returns (run_tx (queue_pause i now) db)"
| "queue_exec (QResume i now) db = returns (run_tx (queue_resume i now) db)"
| "queue_exec (QClaim i revision operation replacement message now) db =
     returns (run_tx (queue_claim i revision operation replacement message now) db)"
| "queue_exec (QComplete identity turn now) db = returns (run_tx (queue_complete identity turn now) db)"
| "queue_exec (QMark identity now) db = returns (run_tx (queue_markIndeterminate identity now) db)"
| "queue_exec (QRecover now) db = returns (run_tx (queue_recoverDelivering now) db)"
| "queue_exec (QAcknowledge i d audit now) db =
     returns (run_tx (queue_acknowledgeIndeterminate i d audit now) db)"

fun queue_run :: "queue_op list \<Rightarrow> user_db \<Rightarrow> user_db" where
  "queue_run [] db = db"
| "queue_run (op # ops) db = queue_run ops (snd (queue_exec op db))"

section \<open>The life of an item\<close>

text \<open>
  What the two tables say about one item id: its status and thread, and the outcome and thread of its
  claim.
\<close>

type_synonym item_view = "(queue_status \<times> string) option \<times> (claim_outcome option \<times> string) option"

definition qview :: "user_db \<Rightarrow> string \<Rightarrow> item_view" where
  "qview db i =
     (map_option (\<lambda>r. (qi_status r, qi_thread_id r)) (t_find qi_id i (db_queue_items db)),
      map_option (\<lambda>c. (cl_outcome c, cl_thread_id c)) (t_find cl_queue_item_id i (db_claims db)))"

text \<open>The specification: the states an item can be in, and the transitions between them.\<close>

fun item_ok :: "item_view \<Rightarrow> bool" where
  "item_ok (None, c) = (c = None)"
| "item_ok (Some (QS_pending, t), c) = (c = None)"
| "item_ok (Some (QS_paused, t), c) = (c = None)"
| "item_ok (Some (QS_delivering, t), c) = (c = Some (None, t))"
| "item_ok (Some (QS_completed, t), c) = (c = Some (Some CO_completed, t) \<or> c = Some (Some CO_abandoned, t))"
| "item_ok (Some (QS_indeterminate, t), c) = (c = Some (Some CO_indeterminate, t))"

inductive item_step :: "item_view \<Rightarrow> item_view \<Rightarrow> bool" where
  added: "item_step (None, None) (Some (QS_pending, t), None)"
| removed: "s \<in> {QS_pending, QS_paused} \<Longrightarrow> item_step (Some (s, t), None) (None, None)"
| paused: "item_step (Some (QS_pending, t), None) (Some (QS_paused, t), None)"
| resumed: "item_step (Some (QS_paused, t), None) (Some (QS_pending, t), None)"
| claimed: "s \<in> {QS_pending, QS_paused} \<Longrightarrow>
    item_step (Some (s, t), None) (Some (QS_delivering, t), Some (None, t))"
| completed: "item_step (Some (QS_delivering, t), Some (None, t))
    (Some (QS_completed, t), Some (Some CO_completed, t))"
| lost: "item_step (Some (QS_delivering, t), Some (None, t))
    (Some (QS_indeterminate, t), Some (Some CO_indeterminate, t))"
| retried: "item_step (Some (QS_indeterminate, t), Some (Some CO_indeterminate, t))
    (Some (QS_pending, t), None)"
| dismissed: "item_step (Some (QS_indeterminate, t), Some (Some CO_indeterminate, t))
    (Some (QS_completed, t), Some (Some CO_abandoned, t))"

inductive_cases completed_stepE: "item_step (Some (QS_completed, t), c) v"

definition queue_inv :: "user_db \<Rightarrow> bool" where
  "queue_inv db \<longleftrightarrow>
     t_keyed qi_id (db_queue_items db) \<and> t_keyed cl_queue_item_id (db_claims db) \<and>
     (\<forall>i. item_ok (qview db i))"

section \<open>The effect of single statements\<close>

lemma selected_one:
  assumes "t_keyed key rows" "\<And>r. p r \<Longrightarrow> key r = k" "t_count p rows = 1"
  obtains r where "t_find key k rows = Some r" "p r"
proof -
  have "(case t_find key k rows of Some r \<Rightarrow> (if p r then 1 else 0) | None \<Rightarrow> 0) = (1 :: nat)"
    using t_count_key [OF assms(1,2)] assms(3) by simp
  then show ?thesis using that by (cases "t_find key k rows") (auto split: if_splits)
qed

text \<open>A statement that selects the one row with a key replaces that row.\<close>

lemma t_find_update_one:
  assumes "t_find key k rows = Some r" "p r" "\<And>r. p r \<Longrightarrow> key r = k" "\<And>r. key (f r) = key r"
  shows "t_find key j (t_update p f rows) = (if j = k then Some (f r) else t_find key j rows)"
proof (cases "t_find key j rows")
  case None
  then show ?thesis using assms(1) by (auto simp: t_find_update [of key f, OF assms(4)])
next
  case (Some r')
  then have "key r' = j" by (rule t_find_SomeD)
  then have "p r' \<Longrightarrow> j = k" using assms(3) by blast
  then show ?thesis using Some assms(1,2) by (auto simp: t_find_update [of key f, OF assms(4)])
qed

lemma t_find_delete_one:
  assumes "t_keyed key rows" "t_find key k rows = Some r" "p r" "\<And>r. p r \<Longrightarrow> key r = k"
  shows "t_find key j (t_delete p rows) = (if j = k then None else t_find key j rows)"
proof (cases "t_find key j rows")
  case (Some r')
  then have "key r' = j" by (rule t_find_SomeD)
  then have "p r' \<Longrightarrow> j = k" using assms(4) by blast
  then show ?thesis using Some assms(2,3) by (auto simp: t_find_delete [OF assms(1)])
qed (use assms(2) in \<open>auto simp: t_find_delete [OF assms(1)]\<close>)

lemma qview_items_update:
  assumes "t_keyed qi_id (db_queue_items db)" "\<And>r. p r \<Longrightarrow> qi_id r = i"
    "t_count p (db_queue_items db) = 1"
    "\<And>r. qi_id (f r) = qi_id r \<and> qi_thread_id (f r) = qi_thread_id r \<and> qi_status (f r) = s"
  obtains r where "t_find qi_id i (db_queue_items db) = Some r" and "p r"
    and "qview (db\<lparr>db_queue_items := t_update p f (db_queue_items db)\<rparr>) =
      (qview db)(i := (Some (s, qi_thread_id r), snd (qview db i)))"
proof -
  obtain r where r: "t_find qi_id i (db_queue_items db) = Some r" "p r"
    using selected_one [OF assms(1-3)] by blast
  have "t_find qi_id j (t_update p f (db_queue_items db)) =
      (if j = i then Some (f r) else t_find qi_id j (db_queue_items db))" for j
    using t_find_update_one [of qi_id i "db_queue_items db" r p f j] r assms(2,4) by blast
  then show ?thesis
    using assms(4) r that [of r] by (auto simp: qview_def fun_eq_iff)
qed

lemma qview_claims_update:
  assumes "t_keyed cl_queue_item_id (db_claims db)" "\<And>c. p c \<Longrightarrow> cl_queue_item_id c = i"
    "t_count p (db_claims db) = 1"
    "\<And>c. cl_queue_item_id (f c) = cl_queue_item_id c \<and> cl_thread_id (f c) = cl_thread_id c \<and> cl_outcome (f c) = out"
  obtains c where "t_find cl_queue_item_id i (db_claims db) = Some c" and "p c"
    and "qview (db\<lparr>db_claims := t_update p f (db_claims db)\<rparr>) =
      (qview db)(i := (fst (qview db i), Some (out, cl_thread_id c)))"
proof -
  obtain c where c: "t_find cl_queue_item_id i (db_claims db) = Some c" "p c"
    using selected_one [OF assms(1-3)] by blast
  have "t_find cl_queue_item_id j (t_update p f (db_claims db)) =
      (if j = i then Some (f c) else t_find cl_queue_item_id j (db_claims db))" for j
    using t_find_update_one [of cl_queue_item_id i "db_claims db" c p f j] c assms(2,4) by blast
  then show ?thesis
    using assms(4) c that [of c] by (auto simp: qview_def fun_eq_iff)
qed

text \<open>A conversion that succeeds shows the row.\<close>

lemma readQueue_Some:
  assumes "readQueue db i = Inr (Some q)"
  obtains r where "t_find qi_id i (db_queue_items db) = Some r" and "qi_id r = i"
    and "qr_id q = i" and "qr_status q = qi_status r" and "qr_threadId q = qi_thread_id r"
    and "qr_revision q = qi_revision r" and "parseRequestJson (qi_request_json r) = Inr (qr_text q)"
  using assms that
  by (auto simp: readQueue_def bind_result_Inr parseQueueRow_def queue_select_def nonnegativeInteger_def
      dest: t_find_SomeD split: option.splits if_splits)

lemma updateQueueStatus_view:
  assumes "updateQueueStatus i s now db = Inr db'" "t_keyed qi_id (db_queue_items db)"
  obtains r where "t_find qi_id i (db_queue_items db) = Some r"
    and "qview db' = (qview db)(i := (Some (s, qi_thread_id r), snd (qview db i)))"
    and "t_keyed qi_id (db_queue_items db')" and "db_claims db' = db_claims db"
proof -
  let ?f = "\<lambda>r. r\<lparr>qi_status := s, qi_revision := qi_revision r + 1, qi_updated_at := now\<rparr>"
  have one: "t_count (\<lambda>r. qi_id r = i) (db_queue_items db) = 1"
    and db': "db' = db\<lparr>db_queue_items := t_update (\<lambda>r. qi_id r = i) ?f (db_queue_items db)\<rparr>"
    using assms(1) by (auto simp: updateQueueStatus_def split: if_splits)
  obtain r where r: "t_find qi_id i (db_queue_items db) = Some r"
    and v: "qview db' = (qview db)(i := (Some (s, qi_thread_id r), snd (qview db i)))"
    by (rule qview_items_update [OF assms(2) _ one, of i ?f s]) (simp_all add: db')
  show ?thesis
    by (rule that [OF r v]) (use assms(2) in \<open>simp_all add: db' t_keyed_update\<close>)
qed

lemma insert_audit_view:
  assumes "insert_audit a k sub now db = Inr db'"
  shows "qview db' = qview db" and "db_queue_items db' = db_queue_items db" and "db_claims db' = db_claims db"
  using assms by (auto simp: insert_audit_def qview_def fun_eq_iff split: sum.splits)

section \<open>Every operation is a step of the life of an item\<close>

definition tables_keyed :: "user_db \<Rightarrow> bool" where
  "tables_keyed db \<longleftrightarrow> t_keyed qi_id (db_queue_items db) \<and> t_keyed cl_queue_item_id (db_claims db)"

definition steps_at :: "string \<Rightarrow> user_db \<Rightarrow> user_db \<Rightarrow> bool" where
  "steps_at i db db' \<longleftrightarrow> tables_keyed db' \<and>
     (\<exists>v. item_step (qview db i) v \<and> qview db' = (qview db)(i := v))"

lemma queue_invD:
  assumes "queue_inv db"
  shows "t_keyed qi_id (db_queue_items db)" "t_keyed cl_queue_item_id (db_claims db)" "item_ok (qview db i)"
  using assms by (simp_all add: queue_inv_def)

lemma item_step_ok: "item_step v w \<Longrightarrow> item_ok w"
  by (induction rule: item_step.induct) auto

lemma unclaimed_view:
  assumes "t_find qi_id i (db_queue_items db) = Some r" "readClaim db i = None"
  shows "qview db i = (Some (qi_status r, qi_thread_id r), None)"
  using assms by (simp add: qview_def readClaim_def)

lemma add_steps:
  assumes "queue_inv db" "queue_add i path thread txt now db = Inr (q, db')"
  shows "steps_at i db db'"
proof -
  note D = queue_invD [OF assms(1)]
  obtain row where "t_find qi_id i (db_queue_items db) = None"
    and db': "db' = db\<lparr>db_queue_items := db_queue_items db @ [row]\<rparr>"
    and row: "qi_id row = i" "qi_status row = QS_pending" "qi_thread_id row = thread"
    using assms(2) by (auto simp: queue_add_def bind_result_Inr t_insert_def split: if_splits)
  moreover from this D(3) [of i] have "qview db i = (None, None)" by (simp add: qview_def)
  moreover from calculation have "qview db' = (qview db)(i := (Some (QS_pending, thread), None))"
    by (auto simp: qview_def fun_eq_iff split: option.splits)
  ultimately show ?thesis
    using D(1,2) by (auto simp: steps_at_def tables_keyed_def intro: item_step.added)
qed

lemma remove_steps:
  assumes "queue_inv db" "queue_remove i db = Inr (b, db')"
  shows "if b then steps_at i db db' else db' = db"
proof -
  note D = queue_invD [OF assms(1)]
  define p where "p = (\<lambda>r :: queue_row. qi_id r = i \<and> qi_status r \<in> {QS_pending, QS_paused} \<and> readClaim db i = None)"
  have b: "b = (t_count p (db_queue_items db) = 1)"
    and db': "db' = db\<lparr>db_queue_items := t_delete p (db_queue_items db)\<rparr>"
    using assms(2) by (auto simp: queue_remove_def p_def Let_def)
  show ?thesis
  proof (cases b)
    case True
    obtain r where r: "t_find qi_id i (db_queue_items db) = Some r" "p r"
      by (rule selected_one [OF D(1), of p i]) (use True b in \<open>auto simp: p_def\<close>)
    then have v: "qview db i = (Some (qi_status r, qi_thread_id r), None)"
      by (intro unclaimed_view) (auto simp: p_def)
    have "t_find qi_id j (t_delete p (db_queue_items db)) =
        (if j = i then None else t_find qi_id j (db_queue_items db))" for j
      by (rule t_find_delete_one [of qi_id "db_queue_items db" i r p, OF D(1) r]) (simp add: p_def)
    then have "qview db' = (qview db)(i := (None, None))"
      using v by (auto simp: qview_def db')
    moreover have "item_step (qview db i) (None, None)"
      using r(2) v by (auto simp: p_def intro!: item_step.removed)
    ultimately show ?thesis
      using True D(1,2) by (auto simp: steps_at_def tables_keyed_def db')
  next
    case False
    then have "t_count p (db_queue_items db) = 0"
      using t_count_le_1 [OF D(1), of p i] b by (fastforce simp: p_def)
    then show ?thesis using False by (simp add: db' t_delete_def t_count_0 filter_id_conv)
  qed
qed

lemma transition_steps:
  assumes "queue_inv db" "transitionWithoutClaim i s s' now db = Inr (q, db')"
    and "(s, s') \<in> {(QS_pending, QS_paused), (QS_paused, QS_pending)}"
  shows "steps_at i db db'"
proof -
  note D = queue_invD [OF assms(1)]
  define p where "p = (\<lambda>r :: queue_row. qi_id r = i \<and> qi_status r = s \<and> readClaim db i = None)"
  define f where "f = (\<lambda>r :: queue_row. r\<lparr>qi_status := s', qi_revision := qi_revision r + 1, qi_updated_at := now\<rparr>)"
  have one: "t_count p (db_queue_items db) = 1"
    and db': "db' = db\<lparr>db_queue_items := t_update p f (db_queue_items db)\<rparr>"
    using assms(2) by (auto simp: transitionWithoutClaim_def p_def f_def Let_def bind_result_Inr split: if_splits)
  obtain r where r: "t_find qi_id i (db_queue_items db) = Some r" "p r"
    and v: "qview db' = (qview db)(i := (Some (s', qi_thread_id r), snd (qview db i)))"
    unfolding db' by (rule qview_items_update [OF D(1) _ one, of i f s']) (auto simp: p_def f_def)
  have "qview db i = (Some (s, qi_thread_id r), None)"
    using unclaimed_view r by (auto simp: p_def)
  moreover from this have "item_step (qview db i) (Some (s', qi_thread_id r), None)"
    using assms(3) by (auto intro: item_step.intros)
  moreover have "t_keyed qi_id (db_queue_items db')"
    using D(1) by (simp add: db' t_keyed_update f_def)
  ultimately show ?thesis
    using v D(2) by (auto simp: steps_at_def tables_keyed_def db')
qed

lemma claim_steps:
  assumes "queue_inv db"
    and "queue_claim i revision operation replacement message now db = Inr ((q, identity), db')"
  shows "steps_at i db db' \<and> snd (qview db i) = None \<and> snd (qview db' i) \<noteq> None"
proof -
  note D = queue_invD [OF assms(1)]
  from assms(2) obtain cur where cur: "readQueue db i = Inr (Some cur)"
    by (auto simp: queue_claim_def bind_result_Inr split: option.splits)
  obtain r0 where r0: "t_find qi_id i (db_queue_items db) = Some r0" and c: "qr_id cur = i"
      "qr_status cur = qi_status r0" "qr_threadId cur = qi_thread_id r0"
    by (rule readQueue_Some [OF cur])
  define content where "content = (case replacement of Some t \<Rightarrow> t | None \<Rightarrow> qr_text cur)"
  define p where "p = (\<lambda>r :: queue_row. qi_id r = i \<and> qi_revision r = revision \<and> qi_status r = qr_status cur)"
  define f where "f = (\<lambda>r :: queue_row. r\<lparr>qi_request_json := requestJson content, qi_status := QS_delivering,
    qi_revision := qi_revision r + 1, qi_updated_at := now\<rparr>)"
  define claim where "claim = \<lparr>cl_queue_item_id = i, cl_operation = operation, cl_thread_id = qi_thread_id r0,
    cl_client_user_message_id = message, cl_outcome = None, cl_turn_id = None, cl_created_at = now,
    cl_completed_at = None\<rparr>"
  define db1 where "db1 = db\<lparr>db_queue_items := t_update p f (db_queue_items db)\<rparr>"
  have el: "eligible operation (qr_status cur)" and one: "t_count p (db_queue_items db) = 1"
    and none: "t_find cl_queue_item_id i (db_claims db) = None"
    and db': "db' = db1\<lparr>db_claims := db_claims db @ [claim]\<rparr>"
    using assms(2) cur c unfolding queue_claim_def
    by (auto simp: Let_def bind_result_Inr t_insert_def p_def f_def content_def claim_def db1_def
        split: if_splits option.splits)
  obtain r where r: "t_find qi_id i (db_queue_items db) = Some r"
    and v1: "qview db1 = (qview db)(i := (Some (QS_delivering, qi_thread_id r), snd (qview db i)))"
    unfolding db1_def by (rule qview_items_update [OF D(1) _ one, of i f QS_delivering]) (auto simp: p_def f_def)
  have v0: "qview db i = (Some (qr_status cur, qi_thread_id r0), None)"
    using r0 none c(2) by (simp add: qview_def)
  have "qview db' j = (if j = i then (fst (qview db1 i), Some (None, qi_thread_id r0)) else qview db1 j)" for j
    using none by (auto simp: db' db1_def qview_def claim_def split: option.splits)
  then have v': "qview db' = (qview db)(i := (Some (QS_delivering, qi_thread_id r0), Some (None, qi_thread_id r0)))"
    using v1 r r0 by auto
  moreover have "item_step (qview db i) (Some (QS_delivering, qi_thread_id r0), Some (None, qi_thread_id r0))"
    unfolding v0 by (rule item_step.claimed) (use el in \<open>auto simp: eligible_def split: if_splits\<close>)
  moreover have "tables_keyed db'"
    using D(1,2) none by (simp add: tables_keyed_def db' db1_def t_keyed_update f_def claim_def)
  ultimately show ?thesis
    using v0 by (auto simp: steps_at_def)
qed

lemma settle_steps:
  assumes "queue_inv db" "t_count (open_claim identity) (db_claims db) = 1"
    and db1: "db1 = db\<lparr>db_claims := t_update (open_claim identity) f (db_claims db)\<rparr>"
    and f: "\<And>c. cl_queue_item_id (f c) = cl_queue_item_id c \<and> cl_thread_id (f c) = cl_thread_id c \<and>
      cl_outcome (f c) = Some out"
    and upd: "updateQueueStatus (di_queueItemId identity) s now db1 = Inr db'"
    and kind: "(s, out) \<in> {(QS_completed, CO_completed), (QS_indeterminate, CO_indeterminate)}"
  shows "steps_at (di_queueItemId identity) db db'"
proof -
  note D = queue_invD [OF assms(1)]
  let ?i = "di_queueItemId identity"
  obtain c where c: "t_find cl_queue_item_id ?i (db_claims db) = Some c" "open_claim identity c"
    and v1: "qview db1 = (qview db)(?i := (fst (qview db ?i), Some (Some out, cl_thread_id c)))"
    unfolding db1 by (rule qview_claims_update [OF D(2) _ assms(2), of ?i f "Some out"])
      (use f in \<open>auto simp: open_claim_def\<close>)
  have k1: "t_keyed qi_id (db_queue_items db1)" "t_keyed cl_queue_item_id (db_claims db1)"
    using D(1,2) f by (simp_all add: db1 t_keyed_update)
  obtain r where r: "t_find qi_id ?i (db_queue_items db1) = Some r"
    and v2: "qview db' = (qview db1)(?i := (Some (s, qi_thread_id r), snd (qview db1 ?i)))"
    and k2: "t_keyed qi_id (db_queue_items db')" "db_claims db' = db_claims db1"
    by (rule updateQueueStatus_view [OF upd k1(1)])
  have "qview db ?i = (Some (qi_status r, qi_thread_id r), Some (None, cl_thread_id c))"
    using r c by (auto simp: qview_def db1 open_claim_def)
  moreover from this D(3) [of ?i] have "qi_status r = QS_delivering" "cl_thread_id c = qi_thread_id r"
    by (cases "qi_status r"; auto)+
  ultimately show ?thesis
    using v1 v2 k1 k2 kind by (auto simp: steps_at_def tables_keyed_def intro: item_step.intros)
qed

lemma open_claim_count:
  assumes "queue_inv db"
  shows "t_count (open_claim identity) (db_claims db) = 0 \<or> t_count (open_claim identity) (db_claims db) = 1"
  using t_count_le_1 [OF queue_invD(2) [OF assms], of "open_claim identity" "di_queueItemId identity"]
  by (fastforce simp: open_claim_def)

lemma complete_steps:
  assumes "queue_inv db" "queue_complete identity turn now db = Inr (q, db')"
  shows "db' = db \<or> steps_at (di_queueItemId identity) db db'"
proof (cases "t_count (open_claim identity) (db_claims db) = 1")
  case True
  define f where "f = (\<lambda>c :: claim_row. c\<lparr>cl_outcome := Some CO_completed, cl_turn_id := Some turn,
    cl_completed_at := Some now\<rparr>)"
  from assms(2) True obtain db2 where
    "updateQueueStatus (di_queueItemId identity) QS_completed now
       (db\<lparr>db_claims := t_update (open_claim identity) f (db_claims db)\<rparr>) = Inr db2" "db' = db2"
    by (auto simp: queue_complete_def Let_def f_def bind_result_Inr split: if_splits)
  then show ?thesis
    using settle_steps [OF assms(1) True refl, of f CO_completed QS_completed now db2] by (simp add: f_def)
next
  case False
  then have none: "t_count (open_claim identity) (db_claims db) = 0"
    using open_claim_count [OF assms(1)] by blast
  have "db\<lparr>db_claims := db_claims db\<rparr> = db" by simp
  then show ?thesis
    using assms(2) none
    by (auto simp: queue_complete_def Let_def t_update_count_0 [OF none] bind_result_Inr
        split: if_splits option.splits)
qed

lemma mark_steps:
  assumes "queue_inv db" "queue_markIndeterminate identity now db = Inr (q, db')"
  shows "qview db' = qview db \<and> tables_keyed db' \<or> steps_at (di_queueItemId identity) db db'"
proof (cases "t_count (open_claim identity) (db_claims db) = 1")
  case True
  note D = queue_invD [OF assms(1)]
  define f where "f = (\<lambda>c :: claim_row. c\<lparr>cl_outcome := Some CO_indeterminate, cl_completed_at := Some now\<rparr>)"
  define db1 where "db1 = db\<lparr>db_claims := t_update (open_claim identity) f (db_claims db)\<rparr>"
  obtain c where c: "t_find cl_queue_item_id (di_queueItemId identity) (db_claims db) = Some c" "open_claim identity c"
    by (rule selected_one [OF D(2) _ True, of "di_queueItemId identity"]) (auto simp: open_claim_def)
  have "readClaim db1 (di_queueItemId identity) = Some (f c)"
    using c by (simp add: readClaim_def db1_def t_find_update f_def)
  with assms(2) obtain db2 where
    "updateQueueStatus (di_queueItemId identity) QS_indeterminate now db1 = Inr db2" "db' = db2"
    by (auto simp: queue_markIndeterminate_def Let_def f_def db1_def bind_result_Inr split: if_splits)
  then show ?thesis
    using settle_steps [OF assms(1) True db1_def, of CO_indeterminate QS_indeterminate now db2] by (simp add: f_def)
next
  case False
  note D = queue_invD [OF assms(1)]
  have none: "t_count (open_claim identity) (db_claims db) = 0"
    using open_claim_count [OF assms(1)] False by blast
  have same: "db\<lparr>db_claims := db_claims db\<rparr> = db" by simp
  let ?i = "di_queueItemId identity"
  from assms(2) obtain c where c: "readClaim db ?i = Some c"
    and cases: "db' = db \<or> cl_outcome c = Some CO_indeterminate \<and> updateQueueStatus ?i QS_indeterminate now db = Inr db'"
    by (auto simp: queue_markIndeterminate_def Let_def t_update_count_0 [OF none] bind_result_Inr
        split: if_splits option.splits)
  from cases show ?thesis
  proof
    assume "db' = db"
    then show ?thesis using D(1,2) by (simp add: tables_keyed_def)
  next
    assume u: "cl_outcome c = Some CO_indeterminate \<and> updateQueueStatus ?i QS_indeterminate now db = Inr db'"
    obtain r where r: "t_find qi_id ?i (db_queue_items db) = Some r"
      and v: "qview db' = (qview db)(?i := (Some (QS_indeterminate, qi_thread_id r), snd (qview db ?i)))"
      and k: "t_keyed qi_id (db_queue_items db')" "db_claims db' = db_claims db"
      by (rule updateQueueStatus_view [OF conjunct2 [OF u] D(1)])
    have "qview db ?i = (Some (qi_status r, qi_thread_id r), Some (Some CO_indeterminate, cl_thread_id c))"
      using r c u by (simp add: qview_def readClaim_def)
    moreover from this D(3) [of ?i] have "qi_status r = QS_indeterminate" by (cases "qi_status r") auto
    ultimately have "qview db' = qview db" using v by auto
    then show ?thesis using k D(2) by (simp add: tables_keyed_def)
  qed
qed

text \<open>Recovery gives up every delivery in progress and touches nothing else.\<close>

fun recovered :: "item_view \<Rightarrow> item_view" where
  "recovered (Some (QS_delivering, t), c) = (Some (QS_indeterminate, t), Some (Some CO_indeterminate, t))"
| "recovered v = v"

lemma recover_view:
  assumes "queue_inv db" "queue_recoverDelivering now db = Inr (n, db')"
  shows "qview db' i = recovered (qview db i)" and "tables_keyed db'"
proof -
  note D = queue_invD [OF assms(1)]
  define p where "p = (\<lambda>c :: claim_row. cl_outcome c = None \<and>
    (\<exists>q \<in> set (db_queue_items db). qi_id q = cl_queue_item_id c \<and> qi_status q = QS_delivering))"
  have claims: "db_claims db' = t_update p
      (\<lambda>c. c\<lparr>cl_outcome := Some CO_indeterminate, cl_completed_at := Some now\<rparr>) (db_claims db)"
    and items: "db_queue_items db' = t_update (\<lambda>r. qi_status r = QS_delivering)
      (\<lambda>r. r\<lparr>qi_status := QS_indeterminate, qi_revision := qi_revision r + 1, qi_updated_at := now\<rparr>)
      (db_queue_items db)"
    using assms(2) by (auto simp: queue_recoverDelivering_def Let_def p_def)
  have sel: "p c \<longleftrightarrow> cl_outcome c = None" if "t_find cl_queue_item_id i (db_claims db) = Some c" for c
  proof -
    have "cl_queue_item_id c = i" using that by (rule t_find_SomeD)
    moreover have "\<exists>r. t_find qi_id i (db_queue_items db) = Some r \<and> qi_status r = QS_delivering" if "cl_outcome c = None"
      using D(3) [of i] that \<open>t_find cl_queue_item_id i (db_claims db) = Some c\<close>
      by (cases "t_find qi_id i (db_queue_items db)"; cases "qi_status (the (t_find qi_id i (db_queue_items db)))")
        (auto simp: qview_def)
    ultimately show ?thesis using t_find_Some [of qi_id i "db_queue_items db"] unfolding p_def by blast
  qed
  show "qview db' i = recovered (qview db i)"
    using D(3) [of i] sel unfolding qview_def claims items
    by (cases "t_find qi_id i (db_queue_items db)"; cases "t_find cl_queue_item_id i (db_claims db)";
        cases "qi_status (the (t_find qi_id i (db_queue_items db)))")
      (auto simp: t_find_update)
  show "tables_keyed db'"
    using D(1,2) by (simp add: tables_keyed_def claims items t_keyed_update)
qed

lemma recovered_step: "item_ok v \<Longrightarrow> recovered v = v \<or> item_step v (recovered v)"
  by (induction v rule: recovered.induct) (auto intro: item_step.lost)

lemma acknowledge_steps:
  assumes "queue_inv db" "queue_acknowledgeIndeterminate i d audit now db = Inr (q, db')"
  shows "steps_at i db db' \<and> snd (qview db i) \<noteq> None \<and> (snd (qview db' i) = None \<longleftrightarrow> d = Retry)"
proof -
  note D = queue_invD [OF assms(1)]
  from assms(2) obtain cur where cur: "readQueue db i = Inr (Some cur)" "qr_status cur = QS_indeterminate"
    by (auto simp: queue_acknowledgeIndeterminate_def bind_result_Inr Let_def split: if_splits option.splits)
  obtain r0 where r0: "t_find qi_id i (db_queue_items db) = Some r0" "qr_status cur = qi_status r0"
    by (rule readQueue_Some [OF cur(1)])
  have v0: "qview db i = (Some (QS_indeterminate, qi_thread_id r0), Some (Some CO_indeterminate, qi_thread_id r0))"
    using D(3) [of i] r0 cur(2) by (simp add: qview_def)
  then obtain c where c: "t_find cl_queue_item_id i (db_claims db) = Some c" "cl_outcome c = Some CO_indeterminate"
      "cl_thread_id c = qi_thread_id r0"
    by (auto simp: qview_def)
  define p where "p = (\<lambda>c :: claim_row. cl_queue_item_id c = i \<and> cl_outcome c = Some CO_indeterminate)"
  define db1 where "db1 = (case d of
      Retry \<Rightarrow> db\<lparr>db_claims := t_delete (\<lambda>c. cl_queue_item_id c = i) (db_claims db)\<rparr>
    | Dismiss \<Rightarrow> db\<lparr>db_claims := t_update p
        (\<lambda>c. c\<lparr>cl_outcome := Some CO_abandoned, cl_completed_at := Some now\<rparr>) (db_claims db)\<rparr>)"
  define s where "s = (case d of Retry \<Rightarrow> QS_pending | Dismiss \<Rightarrow> QS_completed)"
  from assms(2) obtain db2 where upd: "updateQueueStatus i s now db1 = Inr db2"
    and aud: "insert_audit audit (''queue/indeterminate/'' @ disposition_text d) (Some i) now db2 = Inr db'"
    using c(1) by (cases d) (auto simp: queue_acknowledgeIndeterminate_def bind_result_Inr Let_def s_def db1_def
        p_def readClaim_def split: if_splits)
  have k1: "t_keyed qi_id (db_queue_items db1)" "t_keyed cl_queue_item_id (db_claims db1)"
    and i1: "db_queue_items db1 = db_queue_items db"
    using D(1,2) by (simp_all add: db1_def t_keyed_update split: disposition.splits)
  have "t_find cl_queue_item_id j (t_update p (\<lambda>c. c\<lparr>cl_outcome := Some CO_abandoned, cl_completed_at := Some now\<rparr>)
      (db_claims db)) = (if j = i then Some (c\<lparr>cl_outcome := Some CO_abandoned, cl_completed_at := Some now\<rparr>)
        else t_find cl_queue_item_id j (db_claims db))" for j
    by (rule t_find_update_one) (use c in \<open>auto simp: p_def dest: t_find_SomeD\<close>)
  then have v1: "snd (qview db1 j) = (if j = i then (case d of Retry \<Rightarrow> None
      | Dismiss \<Rightarrow> Some (Some CO_abandoned, qi_thread_id r0)) else snd (qview db j))" for j
    using c by (cases d) (simp_all add: qview_def db1_def t_find_delete_key)
  obtain r where r: "t_find qi_id i (db_queue_items db1) = Some r"
    and v2: "qview db2 = (qview db1)(i := (Some (s, qi_thread_id r), snd (qview db1 i)))"
    and k2: "t_keyed qi_id (db_queue_items db2)" "db_claims db2 = db_claims db1"
    by (rule updateQueueStatus_view [OF upd k1(1)])
  have "fst (qview db1 j) = fst (qview db j)" for j by (simp add: qview_def i1)
  then have "qview db' = (qview db)(i := (Some (s, qi_thread_id r0),
      case d of Retry \<Rightarrow> None | Dismiss \<Rightarrow> Some (Some CO_abandoned, qi_thread_id r0)))"
    using insert_audit_view(1) [OF aud] v2 v1 r r0 i1 by (auto simp: fun_eq_iff prod_eq_iff)
  moreover have "item_step (qview db i) (Some (s, qi_thread_id r0),
      case d of Retry \<Rightarrow> None | Dismiss \<Rightarrow> Some (Some CO_abandoned, qi_thread_id r0))"
    unfolding v0 by (cases d) (auto simp: s_def intro: item_step.intros)
  moreover have "tables_keyed db'"
    using k1 k2 insert_audit_view(2,3) [OF aud] by (simp add: tables_keyed_def)
  ultimately show ?thesis using v0 by (auto simp: steps_at_def split: disposition.splits)
qed

section \<open>Runs\<close>

definition evolves :: "user_db \<Rightarrow> user_db \<Rightarrow> bool" where
  "evolves db db' \<longleftrightarrow> tables_keyed db' \<and>
     (\<forall>i. qview db' i = qview db i \<or> item_step (qview db i) (qview db' i))"

lemma steps_at_evolves: "steps_at i db db' \<Longrightarrow> evolves db db'"
  by (auto simp: steps_at_def evolves_def)

lemma evolves_inv: "queue_inv db \<Longrightarrow> evolves db db' \<Longrightarrow> queue_inv db'"
  unfolding queue_inv_def evolves_def tables_keyed_def using item_step_ok by metis

lemma evolves_refl: "queue_inv db \<Longrightarrow> evolves db db"
  by (simp add: evolves_def queue_inv_def tables_keyed_def)

lemma exec_evolves:
  assumes "queue_inv db" "queue_exec op db = (b, db')"
  shows "evolves db db'"
proof (cases b)
  case False
  with assms(2) have "db' = db" by (cases op) (auto simp: returns_run_tx)
  then show ?thesis using evolves_refl assms(1) by simp
next
  case True
  show ?thesis
  proof (cases op)
    case (QRemove i)
    then obtain removed where "queue_remove i db = Inr (removed, db')"
      using assms(2) True by (auto simp: returns_run_tx)
    from remove_steps [OF assms(1) this] show ?thesis
      using steps_at_evolves evolves_refl assms(1) by (auto split: if_splits)
  next
    case (QMark identity now)
    then obtain q where "queue_markIndeterminate identity now db = Inr (q, db')"
      using assms(2) True by (auto simp: returns_run_tx)
    from mark_steps [OF assms(1) this] show ?thesis
      using steps_at_evolves by (auto simp: evolves_def)
  next
    case (QRecover now)
    then obtain n where "queue_recoverDelivering now db = Inr (n, db')"
      using assms(2) True by (auto simp: returns_run_tx)
    then show ?thesis
      using recover_view [OF assms(1)] recovered_step queue_invD(3) [OF assms(1)] by (auto simp: evolves_def)
  qed (use assms True add_steps transition_steps claim_steps complete_steps acknowledge_steps
      steps_at_evolves evolves_refl in
      \<open>fastforce simp: returns_run_tx queue_pause_def queue_resume_def\<close>)+
qed

lemma run_inv_queue: "queue_inv db \<Longrightarrow> queue_inv (queue_run ops db)"
proof (induction ops arbitrary: db)
  case (Cons op ops)
  then show ?case
    using exec_evolves [of db op "fst (queue_exec op db)" "snd (queue_exec op db)"] evolves_inv by simp
qed simp

text \<open>
  Claim C2. Whatever calls the queue receives, each of them moves every item along the edges of its life
  cycle or leaves it alone, and after each call the tables fit together: pending and paused items have no
  delivery claim, a delivering item has an open claim, a settled one a claim with the matching outcome,
  and the claim names the thread of its item.
\<close>

theorem queue_refines_life_cycle:
  assumes "queue_inv db" and "queue_exec op (queue_run ops db) = (b, db')"
  shows "(\<forall>i. qview db' i = qview (queue_run ops db) i \<or>
               item_step (qview (queue_run ops db) i) (qview db' i)) \<and>
         (\<forall>i. item_ok (qview db' i)) \<and> queue_inv db'"
proof -
  note inv = run_inv_queue [OF assms(1), of ops]
  note ev = exec_evolves [OF inv assms(2)]
  show ?thesis
    using ev evolves_inv [OF inv ev] by (simp add: evolves_def queue_inv_def)
qed

text \<open>Successful claims of an item, and successful decisions to retry it, in a sequence of calls.\<close>

fun is_claim :: "string \<Rightarrow> queue_op \<Rightarrow> bool" where
  "is_claim i (QClaim j revision operation replacement message now) = (j = i)"
| "is_claim i _ = False"

fun is_retry :: "string \<Rightarrow> queue_op \<Rightarrow> bool" where
  "is_retry i (QAcknowledge j d audit now) = (j = i \<and> d = Retry)"
| "is_retry i _ = False"

fun successes :: "(queue_op \<Rightarrow> bool) \<Rightarrow> queue_op list \<Rightarrow> user_db \<Rightarrow> nat" where
  "successes p [] db = 0"
| "successes p (op # ops) db =
     (case queue_exec op db of (b, db') \<Rightarrow> (if p op \<and> b then 1 else 0) + successes p ops db')"

definition claimed_now :: "string \<Rightarrow> user_db \<Rightarrow> nat" where
  "claimed_now i db = (if snd (qview db i) = None then 0 else 1)"

text \<open>Only a claim creates a claim, and only a retry removes one.\<close>

lemma updateQueueStatus_claims: "updateQueueStatus i s now db = Inr db' \<Longrightarrow> db_claims db' = db_claims db"
  by (auto simp: updateQueueStatus_def split: if_splits)

lemma same_claim_ids:
  assumes "db_claims db' = t_update p f (db_claims db)" "\<And>c. cl_queue_item_id (f c) = cl_queue_item_id c"
  shows "claimed_now i db' = claimed_now i db"
proof -
  have "(t_find cl_queue_item_id i (db_claims db') = None) = (t_find cl_queue_item_id i (db_claims db) = None)"
    unfolding assms(1) t_find_update [of cl_queue_item_id f, OF assms(2)] by simp
  then show ?thesis by (simp add: claimed_now_def qview_def)
qed

lemma complete_claims:
  assumes "queue_complete identity turn now db = Inr (q, db')"
  shows "db_claims db' = t_update (open_claim identity) (\<lambda>c. c\<lparr>cl_outcome := Some CO_completed,
    cl_turn_id := Some turn, cl_completed_at := Some now\<rparr>) (db_claims db)"
proof -
  define db1 where "db1 = db\<lparr>db_claims := t_update (open_claim identity) (\<lambda>c. c\<lparr>cl_outcome := Some CO_completed,
    cl_turn_id := Some turn, cl_completed_at := Some now\<rparr>) (db_claims db)\<rparr>"
  have "db_claims db' = db_claims db1"
    using assms unfolding queue_complete_def Let_def db1_def [symmetric]
    by (auto simp: bind_result_Inr dest: updateQueueStatus_claims split: if_splits option.splits)
  then show ?thesis by (simp add: db1_def)
qed

lemma mark_claims:
  assumes "queue_markIndeterminate identity now db = Inr (q, db')"
  shows "db_claims db' = t_update (open_claim identity) (\<lambda>c. c\<lparr>cl_outcome := Some CO_indeterminate,
    cl_completed_at := Some now\<rparr>) (db_claims db)"
proof -
  define db1 where "db1 = db\<lparr>db_claims := t_update (open_claim identity) (\<lambda>c. c\<lparr>cl_outcome := Some CO_indeterminate,
    cl_completed_at := Some now\<rparr>) (db_claims db)\<rparr>"
  have "db_claims db' = db_claims db1"
    using assms unfolding queue_markIndeterminate_def Let_def db1_def [symmetric]
    by (auto simp: bind_result_Inr dest: updateQueueStatus_claims split: if_splits option.splits)
  then show ?thesis by (simp add: db1_def)
qed

lemma steps_at_other: "steps_at j db db' \<Longrightarrow> i \<noteq> j \<Longrightarrow> qview db' i = qview db i"
  by (auto simp: steps_at_def)

lemma exec_claimed:
  assumes inv: "queue_inv db" and ex: "queue_exec op db = (b, db')"
  shows "claimed_now i db' + (if is_retry i op \<and> b then 1 else 0) =
         claimed_now i db + (if is_claim i op \<and> b then 1 else 0)"
proof (cases b)
  case False
  with ex have "db' = db" by (cases op) (auto simp: returns_run_tx)
  then show ?thesis using False by simp
next
  case True
  have keepsI: "claimed_now i db' = claimed_now i db" if "db_claims db' = db_claims db"
    using that by (simp add: claimed_now_def qview_def)
  show ?thesis
  proof (cases op)
    case (QClaim j revision operation replacement message now)
    then obtain q identity where "queue_claim j revision operation replacement message now db = Inr ((q, identity), db')"
      using ex True by (auto simp: returns_run_tx)
    note c = claim_steps [OF inv this]
    show ?thesis
      using QClaim True c steps_at_other [OF conjunct1 [OF c], of i]
      by (cases "i = j") (auto simp: claimed_now_def)
  next
    case (QAcknowledge j d audit now)
    then obtain q where "queue_acknowledgeIndeterminate j d audit now db = Inr (q, db')"
      using ex True by (auto simp: returns_run_tx)
    note c = acknowledge_steps [OF inv this]
    show ?thesis
      using QAcknowledge True c steps_at_other [OF conjunct1 [OF c], of i]
      by (cases "i = j") (auto simp: claimed_now_def)
  next
    case (QComplete identity turn now)
    then obtain q where "queue_complete identity turn now db = Inr (q, db')"
      using ex True by (auto simp: returns_run_tx)
    from same_claim_ids [OF complete_claims [OF this]] show ?thesis using QComplete by simp
  next
    case (QMark identity now)
    then obtain q where "queue_markIndeterminate identity now db = Inr (q, db')"
      using ex True by (auto simp: returns_run_tx)
    from same_claim_ids [OF mark_claims [OF this]] show ?thesis using QMark by simp
  next
    case (QRecover now)
    then obtain p where "db_claims db' = t_update p
        (\<lambda>c. c\<lparr>cl_outcome := Some CO_indeterminate, cl_completed_at := Some now\<rparr>) (db_claims db)"
      using ex True by (auto simp: returns_def queue_recoverDelivering_def Let_def)
    from same_claim_ids [OF this] show ?thesis using QRecover by simp
  next
    case (QRemove j)
    then have "db_claims db' = db_claims db" using ex by (auto simp: returns_def queue_remove_def Let_def)
    then show ?thesis using keepsI QRemove by simp
  qed (use ex True keepsI in \<open>auto simp: returns_run_tx queue_add_def queue_pause_def
      queue_resume_def transitionWithoutClaim_def Let_def bind_result_Inr split: if_splits\<close>)
qed

text \<open>Claims and retries balance along any sequence of calls.\<close>

lemma claims_balance:
  assumes "queue_inv db"
  shows "claimed_now i db + successes (is_claim i) ops db =
    successes (is_retry i) ops db + claimed_now i (queue_run ops db)"
  using assms
proof (induction ops arbitrary: db)
  case (Cons op ops)
  obtain b db' where ex: "queue_exec op db = (b, db')" by (cases "queue_exec op db") auto
  have "queue_inv db'" using exec_evolves [OF Cons.prems ex] evolves_inv Cons.prems by blast
  from Cons.IH [OF this] exec_claimed [OF Cons.prems ex, of i] show ?case
    using ex by (auto split: if_splits)
qed simp

text \<open>
  Claim C7. At most once: in any sequence of calls, with any interleaving of claims, completions,
  recoveries after a crash and decisions of the user, an item is claimed for delivery at most once more
  than the user decided to retry it; the balance is one exactly while a claim is on record.
\<close>

theorem queue_delivers_at_most_once:
  assumes "queue_inv db" and "snd (qview db i) = None"
  shows "successes (is_claim i) ops db = successes (is_retry i) ops db + claimed_now i (queue_run ops db)"
  using claims_balance [OF assms(1), of i ops] assms(2) by (simp add: claimed_now_def)

text \<open>
  Completed is final: an item that is completed stays so, with the same thread and the same
  claim outcome, whatever calls follow; it cannot be claimed, removed, paused or retried again.
\<close>

theorem queue_completed_is_final:
  assumes "queue_inv db" and "qview db i = (Some (QS_completed, t), c)"
  shows "qview (queue_run ops db) i = (Some (QS_completed, t), c)"
  using assms
proof (induction ops arbitrary: db)
  case (Cons op ops)
  obtain b db' where ex: "queue_exec op db = (b, db')" by (cases "queue_exec op db") auto
  note ev = exec_evolves [OF Cons.prems(1) ex]
  have "qview db' i = qview db i"
    using ev Cons.prems(2) completed_stepE by (metis evolves_def)
  then show ?case using Cons evolves_inv [OF Cons.prems(1) ev] ex by simp
qed simp

text \<open>
  Recovery after a crash resends nothing: every item that was being delivered becomes
  indeterminate together with its claim, every other item is untouched, no item is left delivering, and
  the number returned is the number of items given up.
\<close>

theorem queue_recovery_resends_nothing:
  assumes "queue_inv db" and "queue_recoverDelivering now db = Inr (n, db')"
  shows "(\<forall>i. qview db' i = recovered (qview db i)) \<and>
    (\<forall>r \<in> set (db_queue_items db'). qi_status r \<noteq> QS_delivering) \<and>
    filter (\<lambda>r. qi_status r = QS_pending) (db_queue_items db') = filter (\<lambda>r. qi_status r = QS_pending) (db_queue_items db) \<and>
    n = length (filter (\<lambda>r. qi_status r = QS_delivering) (db_queue_items db))"
proof -
  have items: "db_queue_items db' = t_update (\<lambda>r. qi_status r = QS_delivering)
      (\<lambda>r. r\<lparr>qi_status := QS_indeterminate, qi_revision := qi_revision r + 1, qi_updated_at := now\<rparr>)
      (db_queue_items db)" and n: "n = t_count (\<lambda>r. qi_status r = QS_delivering) (db_queue_items db)"
    using assms(2) by (auto simp: queue_recoverDelivering_def Let_def)
  have "filter (\<lambda>r. qi_status r = QS_pending) (t_update (\<lambda>r. qi_status r = QS_delivering)
      (\<lambda>r. r\<lparr>qi_status := QS_indeterminate, qi_revision := qi_revision r + 1, qi_updated_at := now\<rparr>) rows) =
      filter (\<lambda>r. qi_status r = QS_pending) rows" for rows
    by (induction rows) auto
  then show ?thesis
    using recover_view(1) [OF assms] by (auto simp: items n t_count_def set_t_update)
qed

text \<open>
  The queue is first in, first out: the item that is offered for delivery is pending and no
  pending item was created before it (equal instants are ordered by id); none is offered only when no
  item is pending or the first one cannot be read.
\<close>

theorem queue_next_is_oldest_pending:
  "case queue_nextPending db of
     Inr (Some q) \<Rightarrow> \<exists>r \<in> set (db_queue_items db). qi_id r = qr_id q \<and> qi_status r = QS_pending \<and>
        parseRequestJson (qi_request_json r) = Inr (qr_text q) \<and>
        (\<forall>r' \<in> set (db_queue_items db). qi_status r' = QS_pending \<longrightarrow>
           (qi_created_at r, qi_id r) \<le> (qi_created_at r', qi_id r'))
   | Inr None \<Rightarrow> \<forall>r \<in> set (db_queue_items db). qi_status r \<noteq> QS_pending
   | Inl e \<Rightarrow> \<exists>r \<in> set (db_queue_items db). qi_status r = QS_pending"
proof -
  let ?key = "\<lambda>r. (qi_created_at r, qi_id r)"
  let ?rows = "sort_key ?key (filter (\<lambda>r. qi_status r = QS_pending) (db_queue_items db))"
  have mem: "set ?rows = {r \<in> set (db_queue_items db). qi_status r = QS_pending}" by simp
  show ?thesis
  proof (cases ?rows)
    case Nil
    then have "{r \<in> set (db_queue_items db). qi_status r = QS_pending} = {}"
      using mem by (metis list.set(1))
    then show ?thesis using Nil by (auto simp: queue_nextPending_def)
  next
    case (Cons r rows)
    have "sorted (map ?key (r # rows))" using sorted_sort_key [of ?key] Cons by metis
    then have "\<forall>r' \<in> set (r # rows). ?key r \<le> ?key r'" by auto
    then have least: "\<forall>r' \<in> set (db_queue_items db). qi_status r' = QS_pending \<longrightarrow> ?key r \<le> ?key r'"
      unfolding Cons [symmetric] mem by blast
    have "r \<in> set ?rows" unfolding Cons by simp
    then have r: "r \<in> set (db_queue_items db)" "qi_status r = QS_pending"
      unfolding mem by simp_all
    show ?thesis
    proof (cases "parseQueueRow (queue_select db r)")
      case (Inl e)
      then have "queue_nextPending db = Inl e" using Cons by (simp add: queue_nextPending_def)
      then show ?thesis using r by auto
    next
      case (Inr q)
      then have "qr_id q = qi_id r" "parseRequestJson (qi_request_json r) = Inr (qr_text q)"
        by (auto simp: parseQueueRow_def queue_select_def bind_result_Inr)
      moreover have "queue_nextPending db = Inr (Some q)" using Cons Inr by (simp add: queue_nextPending_def)
      ultimately show ?thesis using r least by auto
    qed
  qed
qed

text \<open>
  Completing a delivery twice with the same turn is harmless: the second call returns the same
  record and changes nothing, whatever time it happens at.
\<close>

theorem queue_complete_idempotent:
  assumes "queue_inv db" and "queue_complete identity turn now db = Inr (q, db')"
  shows "queue_complete identity turn later db' = Inr (q, db')"
proof -
  let ?i = "di_queueItemId identity"
  have "t_count (open_claim identity) (db_claims db') = 0"
    unfolding complete_claims [OF assms(2)] by (auto simp: t_count_0 set_t_update open_claim_def)
  moreover have "turn \<noteq> []" using assms(2) by (auto simp: queue_complete_def)
  moreover have "\<exists>c. readClaim db' ?i = Some c \<and> cl_outcome c = Some CO_completed \<and> cl_turn_id c = Some turn \<and>
      claimMatches c identity \<and> readQueue db' ?i = Inr (Some q) \<and> qr_status q = QS_completed"
  proof (cases "t_count (open_claim identity) (db_claims db) = 1")
    case True
    obtain c where c: "t_find cl_queue_item_id ?i (db_claims db) = Some c" "open_claim identity c"
      by (rule selected_one [OF queue_invD(2) [OF assms(1)] _ True, of ?i]) (auto simp: open_claim_def)
    then have "readClaim db' ?i = Some (c\<lparr>cl_outcome := Some CO_completed, cl_turn_id := Some turn, cl_completed_at := Some now\<rparr>)"
      by (simp add: readClaim_def complete_claims [OF assms(2)] t_find_update)
    moreover obtain db1 where "updateQueueStatus ?i QS_completed now db1 = Inr db'" "requiredQueue db' ?i = Inr q"
      using assms(2) True by (auto simp: queue_complete_def Let_def bind_result_Inr split: if_splits)
    moreover from this have "readQueue db' ?i = Inr (Some q)"
      by (auto simp: requiredQueue_def bind_result_Inr split: option.splits)
    moreover have "qr_status q = QS_completed"
    proof -
      obtain r where r: "t_find qi_id ?i (db_queue_items db') = Some r" "qr_status q = qi_status r"
        by (rule readQueue_Some [OF \<open>readQueue db' ?i = Inr (Some q)\<close>])
      from t_find_Some [OF r(1)] \<open>updateQueueStatus ?i QS_completed now db1 = Inr db'\<close>
      have "qi_status r = QS_completed" by (auto simp: updateQueueStatus_def set_t_update split: if_splits)
      then show ?thesis using r(2) by simp
    qed
    ultimately show ?thesis using c(2) by (auto simp: open_claim_def claimMatches_def)
  next
    case False
    then have none: "t_count (open_claim identity) (db_claims db) = 0"
      using open_claim_count [OF assms(1)] by blast
    then show ?thesis
      using assms(2)
      by (auto simp: queue_complete_def Let_def t_update_count_0 [OF none] bind_result_Inr
          split: if_splits option.splits)
  qed
  ultimately show ?thesis
    by (auto simp: queue_complete_def Let_def t_update_count_0)
qed

section \<open>Witnesses\<close>

lemma empty_queue_inv: "queue_inv (empty_user_db now)"
  by (simp add: queue_inv_def empty_user_db_def qview_def)

definition example_history :: "queue_op list" where
  "example_history =
     [QAdd ''q1'' ''/srv/app'' ''t1'' ''hello'' 10, QClaim ''q1'' 0 ''turn/start'' None ''m1'' 11,
      QClaim ''q1'' 0 ''turn/start'' None ''m2'' 12, QRecover 13, QAcknowledge ''q1'' Retry ''a1'' 14,
      QClaim ''q1'' 3 ''turn/start'' None ''m3'' 15,
      QComplete \<lparr>di_queueItemId = ''q1'', di_operation = ''turn/start'', di_threadId = ''t1'',
        di_clientUserMessageId = ''m3''\<rparr> ''turn-9'' 16]"

definition example_identity :: delivery_identity where
  "example_identity = \<lparr>di_queueItemId = ''q1'', di_operation = ''turn/start'', di_threadId = ''t1'',
     di_clientUserMessageId = ''m1''\<rparr>"

definition delivering_db :: user_db where
  "delivering_db = queue_run (take 2 example_history) (empty_user_db 0)"

definition completed_db :: user_db where
  "completed_db = queue_run example_history (empty_user_db 0)"

lemma delivering_inv: "queue_inv delivering_db"
  unfolding delivering_db_def by (rule run_inv_queue [OF empty_queue_inv])

lemma completed_inv: "queue_inv completed_db"
  unfolding completed_db_def by (rule run_inv_queue [OF empty_queue_inv])

theorem queue_refines_life_cycle_witness:
  "let db' = snd (queue_exec (QRecover 20) delivering_db)
   in (\<forall>i. qview db' i = qview delivering_db i \<or> item_step (qview delivering_db i) (qview db' i)) \<and>
      (\<forall>i. item_ok (qview db' i)) \<and> queue_inv db'"
  using queue_refines_life_cycle [OF empty_queue_inv [of 0],
      of "QRecover 20" "take 2 example_history" "fst (queue_exec (QRecover 20) delivering_db)"
      "snd (queue_exec (QRecover 20) delivering_db)"]
  unfolding delivering_db_def Let_def by (simp only: prod.collapse simp_thms)

theorem queue_delivers_at_most_once_witness:
  "successes (is_claim ''q1'') example_history (empty_user_db 0) = 2 \<and>
   successes (is_retry ''q1'') example_history (empty_user_db 0) = 1"
proof -
  have "claimed_now ''q1'' (queue_run example_history (empty_user_db 0)) = 1"
    and "successes (is_retry ''q1'') example_history (empty_user_db 0) = 1"
    by code_simp+
  then show ?thesis
    using queue_delivers_at_most_once [OF empty_queue_inv, of 0 "''q1''" example_history]
    by (simp add: qview_def empty_user_db_def)
qed

theorem queue_completed_is_final_witness:
  "fst (qview (queue_run [QPause ''q1'' 20, QRemove ''q1''] completed_db) ''q1'') = Some (QS_completed, ''t1'')"
proof -
  have "qview completed_db ''q1'' = (Some (QS_completed, ''t1''), Some (Some CO_completed, ''t1''))"
    by code_simp
  from queue_completed_is_final [OF completed_inv this, of "[QPause ''q1'' 20, QRemove ''q1'']"]
  show ?thesis by (simp only: fst_conv)
qed

theorem queue_recovery_resends_nothing_witness:
  "let db' = snd (projr (queue_recoverDelivering 20 delivering_db))
   in (\<forall>i. qview db' i = recovered (qview delivering_db i)) \<and>
      (\<forall>r \<in> set (db_queue_items db'). qi_status r \<noteq> QS_delivering)"
proof -
  obtain n db' where r: "queue_recoverDelivering 20 delivering_db = Inr (n, db')"
    by (auto simp: queue_recoverDelivering_def Let_def)
  from queue_recovery_resends_nothing [OF delivering_inv r] show ?thesis by (simp add: r)
qed

theorem queue_complete_idempotent_witness:
  "\<exists>q db'. queue_complete example_identity ''turn-1'' 20 delivering_db = Inr (q, db') \<and>
     queue_complete example_identity ''turn-1'' 99 db' = Inr (q, db')"
proof -
  have "\<not> isl (queue_complete example_identity ''turn-1'' 20 delivering_db)"
    by code_simp
  then obtain q db' where r: "queue_complete example_identity ''turn-1'' 20 delivering_db = Inr (q, db')"
    by (cases "queue_complete example_identity ''turn-1'' 20 delivering_db") auto
  from queue_complete_idempotent [OF delivering_inv r] r show ?thesis by blast
qed

text \<open>Two pending items, the second of them created first.\<close>

definition example_pending :: user_db where
  "example_pending = queue_run [QAdd ''q1'' ''/srv/app'' ''t1'' ''late'' 20, QAdd ''q2'' ''/srv/app'' ''t1'' ''early'' 10]
     (empty_user_db 0)"

theorem queue_next_is_oldest_pending_witness:
  "\<exists>q. queue_nextPending example_pending = Inr (Some q) \<and> qr_text q = ''early'' \<and>
     (\<exists>r \<in> set (db_queue_items example_pending). qi_id r = qr_id q \<and>
       (\<forall>r' \<in> set (db_queue_items example_pending). qi_status r' = QS_pending \<longrightarrow>
          (qi_created_at r, qi_id r) \<le> (qi_created_at r', qi_id r')))"
proof -
  have "case queue_nextPending example_pending of Inr (Some q) \<Rightarrow> qr_text q = ''early'' | _ \<Rightarrow> False"
    by code_simp
  then obtain q where q: "queue_nextPending example_pending = Inr (Some q)" "qr_text q = ''early''"
    by (auto split: sum.splits option.splits)
  from queue_next_is_oldest_pending [of example_pending] q show ?thesis by auto
qed

end
