(* ===== verification/Receipt_Repository.thy ===== *)
theory Receipt_Repository
  imports User_Db
begin

text \<open>
  Durable receipts of mutations (\<open>apps/agent/src/v2/repositories/mutation-receipt-repository.ts\<close>): the
  first call with an operation key claims it, the result is stored under the key, and later calls with
  the key are answered from the receipt.
\<close>

section \<open>Stored outcomes\<close>

text \<open>A gateway error payload is a \<open>gateway_error\<close> whose connection flag is not stored.\<close>

datatype stored_outcome = Success js | Failure gateway_error

fun isJsonValue :: "js \<Rightarrow> bool" where
  "isJsonValue JNull = True"
| "isJsonValue (JStr s) = True"
| "isJsonValue (JBool b) = True"
| "isJsonValue (JNum n) = True"
| "isJsonValue (JArr vs) = (\<forall>v \<in> set vs. isJsonValue v)"
| "isJsonValue (JObj fs) = (\<forall>v \<in> snd ` set fs. isJsonValue v)"
| "isJsonValue JUndefined = False"
| "isJsonValue JNonFinite = False"
| "isJsonValue JOpaque = False"

fun isRecord :: "js \<Rightarrow> bool" where
  "isRecord (JObj fs) = True"
| "isRecord v = False"

text \<open>\<open>isGatewayError\<close>, with the payload it accepts.\<close>

fun gatewayErrorOf :: "js \<Rightarrow> gateway_error option" where
  "gatewayErrorOf (JObj fs) =
     (case (js_get fs ''code'', js_get fs ''message'') of
        (JStr code, JStr message) \<Rightarrow>
          (case (case js_get fs ''retryable'' of JUndefined \<Rightarrow> Some None | JBool b \<Rightarrow> Some (Some b) | _ \<Rightarrow> None) of
             None \<Rightarrow> None
           | Some retryable \<Rightarrow>
               (case (case js_get fs ''details'' of JUndefined \<Rightarrow> Some None
                      | JObj d \<Rightarrow> Some (Some (JObj d)) | _ \<Rightarrow> None) of
                  None \<Rightarrow> None
                | Some details \<Rightarrow> Some \<lparr>ge_code = code, ge_message = message, ge_retryable = retryable,
                    ge_details = details, ge_close_connection = False\<rparr>))
      | _ \<Rightarrow> None)"
| "gatewayErrorOf v = None"

definition gatewayErrorJson :: "gateway_error \<Rightarrow> js" where
  "gatewayErrorJson e = JObj ([(''code'', JStr (ge_code e)), (''message'', JStr (ge_message e))] @
     (case ge_retryable e of None \<Rightarrow> [] | Some b \<Rightarrow> [(''retryable'', JBool b)]) @
     (case ge_details e of None \<Rightarrow> [] | Some d \<Rightarrow> [(''details'', d)]))"

text \<open>\<open>JSON.stringify(outcome)\<close>.\<close>

fun outcomeJson :: "stored_outcome \<Rightarrow> json_text" where
  "outcomeJson (Success result) =
     JsonText (JObj [(''version'', JNum 1), (''kind'', JStr ''success''), (''result'', result)])"
| "outcomeJson (Failure e) =
     JsonText (JObj [(''version'', JNum 1), (''kind'', JStr ''error''), (''error'', gatewayErrorJson e)])"

fun parseStoredMutationOutcome :: "json_text \<Rightarrow> ce_error + stored_outcome" where
  "parseStoredMutationOutcome (BadJson s) = Inl (Error ''Mutation receipt result is not valid JSON'')"
| "parseStoredMutationOutcome (JsonText (JObj fs)) =
     (if js_get fs ''version'' \<noteq> JNum 1
      then Inl (Error ''Mutation receipt result has an unsupported version'')
      else if js_get fs ''kind'' = JStr ''success'' \<and> isJsonValue (js_get fs ''result'')
      then Inr (Success (js_get fs ''result''))
      else case (js_get fs ''kind'' = JStr ''error'', gatewayErrorOf (js_get fs ''error'')) of
             (True, Some e) \<Rightarrow> Inr (Failure e)
           | _ \<Rightarrow> Inl (Error ''Mutation receipt result has an invalid shape''))"
| "parseStoredMutationOutcome (JsonText v) =
     Inl (Error ''Mutation receipt result has an unsupported version'')"

fun storable :: "stored_outcome \<Rightarrow> bool" where
  "storable (Success result) = isJsonValue result"
| "storable (Failure e) = (\<not> ge_close_connection e \<and> (case ge_details e of None \<Rightarrow> True | Some d \<Rightarrow> isRecord d))"

text \<open>Every JSON result and every error payload survives the round trip through the receipt.\<close>

lemma stored_outcome_round_trip:
  assumes "storable outcome"
  shows "parseStoredMutationOutcome (outcomeJson outcome) = Inr outcome"
proof (cases outcome)
  case (Success result)
  then show ?thesis using assms by (simp add: js_get_def)
next
  case (Failure e)
  have "gatewayErrorOf (gatewayErrorJson e) = Some e"
    using assms Failure
    by (cases e; cases "ge_retryable e"; cases "ge_details e"; cases "the (ge_details e)")
      (auto simp: gatewayErrorJson_def js_get_def)
  then show ?thesis using Failure by (simp add: js_get_def)
qed

section \<open>Operations\<close>

datatype mutation_claim =
    Claim_execute
  | Claim_pending timestamp
  | Claim_completed stored_outcome
  | Claim_indeterminate timestamp

datatype mutation_status =
    Status_missing
  | Status_pending string timestamp
  | Status_indeterminate string timestamp
  | Status_completed string timestamp stored_outcome

definition expired :: "timestamp \<Rightarrow> receipt_row \<Rightarrow> bool" where
  "expired now r \<longleftrightarrow> rr_status r = RS_completed \<and> (case rr_expires_at r of None \<Rightarrow> False | Some t \<Rightarrow> t \<le> now)"

definition pruneExpired :: "timestamp \<Rightarrow> user_db \<Rightarrow> user_db" where
  "pruneExpired now db = db\<lparr>db_receipts := t_delete (expired now) (db_receipts db)\<rparr>"

definition readReceipt :: "user_db \<Rightarrow> string \<Rightarrow> receipt_row option" where
  "readReceipt db operationKey = t_find rr_operation_key operationKey (db_receipts db)"

definition receipt_claim ::
  "string \<Rightarrow> string \<Rightarrow> string \<Rightarrow> timestamp \<Rightarrow> (user_db, mutation_claim) tx" where
  "receipt_claim operationKey meth fingerprint now db0 =
     (let db = pruneExpired now db0 in
      case readReceipt db operationKey of
        Some row \<Rightarrow>
          if rr_method row \<noteq> meth \<or> rr_request_fingerprint row \<noteq> Some fingerprint
          then Inl (MutationReceiptConflictError operationKey)
          else (case rr_status row of
                  RS_pending \<Rightarrow> Inr (Claim_pending (rr_created_at row), db)
                | RS_indeterminate \<Rightarrow> Inr (Claim_indeterminate (rr_updated_at row), db)
                | RS_completed \<Rightarrow>
                    (case rr_result_json row of
                       None \<Rightarrow> Inl (Error ''Completed mutation receipt has no result'')
                     | Some json \<Rightarrow> bind_result (parseStoredMutationOutcome json)
                         (\<lambda>outcome. Inr (Claim_completed outcome, db))))
      | None \<Rightarrow>
          bind_result (t_insert rr_operation_key ''mutation_receipts''
            \<lparr>rr_operation_key = operationKey, rr_method = meth,
             rr_request_fingerprint = Some fingerprint, rr_status = RS_pending, rr_result_json = None,
             rr_created_at = now, rr_updated_at = now, rr_expires_at = None\<rparr> (db_receipts db))
            (\<lambda>rows. Inr (Claim_execute, db\<lparr>db_receipts := rows\<rparr>)))"

definition pending_receipt :: "string \<Rightarrow> string \<Rightarrow> string \<Rightarrow> receipt_row \<Rightarrow> bool" where
  "pending_receipt operationKey meth fingerprint r \<longleftrightarrow>
     rr_operation_key r = operationKey \<and> rr_method r = meth \<and>
     rr_request_fingerprint r = Some fingerprint \<and> rr_status r = RS_pending"

definition receipt_complete ::
  "string \<Rightarrow> string \<Rightarrow> string \<Rightarrow> stored_outcome \<Rightarrow> timestamp \<Rightarrow> timestamp \<Rightarrow> (user_db, unit) tx" where
  "receipt_complete operationKey meth fingerprint outcome now expiresAt db =
     (if t_count (pending_receipt operationKey meth fingerprint) (db_receipts db) \<noteq> 1
      then Inl (Error ''Mutation receipt changed before completion'')
      else Inr ((), db\<lparr>db_receipts := t_update (pending_receipt operationKey meth fingerprint)
        (\<lambda>r. r\<lparr>rr_status := RS_completed, rr_result_json := Some (outcomeJson outcome),
                rr_updated_at := now, rr_expires_at := Some expiresAt\<rparr>) (db_receipts db)\<rparr>))"

definition receipt_markIndeterminate ::
  "string \<Rightarrow> string \<Rightarrow> string \<Rightarrow> timestamp \<Rightarrow> (user_db, unit) tx" where
  "receipt_markIndeterminate operationKey meth fingerprint now db =
     (if t_count (pending_receipt operationKey meth fingerprint) (db_receipts db) > 1
      then Inl (Error ''Mutation receipt uniqueness invariant failed'')
      else Inr ((), db\<lparr>db_receipts := t_update (pending_receipt operationKey meth fingerprint)
        (\<lambda>r. r\<lparr>rr_status := RS_indeterminate, rr_result_json := None, rr_updated_at := now,
                rr_expires_at := None\<rparr>) (db_receipts db)\<rparr>))"

definition receipt_recoverPending :: "timestamp \<Rightarrow> (user_db, nat) tx" where
  "receipt_recoverPending now db =
     Inr (t_count (\<lambda>r. rr_status r = RS_pending) (db_receipts db),
          db\<lparr>db_receipts := t_update (\<lambda>r. rr_status r = RS_pending)
            (\<lambda>r. r\<lparr>rr_status := RS_indeterminate, rr_updated_at := now, rr_expires_at := None\<rparr>)
            (db_receipts db)\<rparr>)"

definition receipt_status :: "string \<Rightarrow> timestamp \<Rightarrow> (user_db, mutation_status) tx" where
  "receipt_status operationKey now db0 =
     (let db = pruneExpired now db0 in
      case readReceipt db operationKey of
        None \<Rightarrow> Inr (Status_missing, db)
      | Some row \<Rightarrow>
          (case rr_status row of
             RS_pending \<Rightarrow> Inr (Status_pending (rr_method row) (rr_created_at row), db)
           | RS_indeterminate \<Rightarrow> Inr (Status_indeterminate (rr_method row) (rr_updated_at row), db)
           | RS_completed \<Rightarrow>
               (case rr_result_json row of
                  None \<Rightarrow> Inl (Error ''Completed mutation receipt has no result'')
                | Some json \<Rightarrow> bind_result (parseStoredMutationOutcome json)
                    (\<lambda>outcome. Inr (Status_completed (rr_method row) (rr_updated_at row) outcome, db)))))"

end
