(* ===== verification/State_File.thy ===== *)
theory State_File
  imports User_Db
begin

text \<open>
  The persistence primitive below all repositories
  (\<open>apps/agent/src/v2/repositories/sqlite-state-file.ts\<close>): an in-memory SQLite database that mirrors a
  file, replaced as a whole by writing a temporary file and renaming it. Several processes share the
  file; each call holds the state lock, so the calls are atomic steps of the model. What the file system
  does to a write is an argument (\<open>persist_outcome\<close>).
\<close>

section \<open>State\<close>

text \<open>
  The content of a database file: the two pragmas and the table names \<open>#validate\<close> looks at, and the
  tables themselves.
\<close>

record 'db content =
  ct_application_id :: int
  ct_user_version :: int
  ct_tables :: "string list"
  ct_data :: 'db

text \<open>
  A revision is the identity, size and times of a file; \<open>sameRevision\<close> compares them. Files are written
  under fresh names, so each write has a revision of its own: revisions are numbers handed out in order.
  Depending on the file system a rename changes the \<open>ctime\<close>, and then the file has another revision than
  the one that \<open>#persist\<close> noted before the rename.
\<close>

record 'db disk =
  dk_file :: "('db content \<times> nat) option"
  dk_next_revision :: nat

record 'db state_file =
  sf_database :: "'db content"
  sf_revision :: "nat option"
  sf_closed :: bool

record 'db state_spec =
  sp_kind :: string
  sp_application_id :: int
  sp_schema_version :: int
  sp_schema :: "'db content"
  sp_migrations :: "(int \<times> ('db content \<Rightarrow> ce_error + 'db content)) list"
  sp_required_tables :: "string list"

datatype persist_outcome = Persisted bool | FailedBeforeRename | FailedAfterRename bool

section \<open>Operations\<close>

definition state_validate :: "'db state_spec \<Rightarrow> 'db content \<Rightarrow> ce_error option" where
  "state_validate spec c =
     (if ct_application_id c \<noteq> sp_application_id spec
      then Some (Error (''State database kind mismatch: expected '' @ sp_kind spec))
      else if ct_user_version c \<noteq> sp_schema_version spec
      then Some (Error (''Unsupported '' @ sp_kind spec @ '' state schema''))
      else if \<not> set (sp_required_tables spec) \<subseteq> set (ct_tables c)
      then Some (Error ''State database is missing tables'')
      else None)"

text \<open>The rename puts the content in place; \<open>bump\<close> says whether it changes the revision.\<close>

definition disk_write :: "bool \<Rightarrow> 'db content \<Rightarrow> 'db disk \<Rightarrow> nat \<times> 'db disk" where
  "disk_write bump c d =
     (let r = dk_next_revision d in
      (r, \<lparr>dk_file = Some (c, if bump then r + 1 else r), dk_next_revision = r + 2\<rparr>))"

definition state_persist ::
  "persist_outcome \<Rightarrow> 'db state_file \<Rightarrow> 'db disk \<Rightarrow> ce_error option \<times> 'db state_file \<times> 'db disk" where
  "state_persist out sf d =
     (case out of
        Persisted bump \<Rightarrow> (case disk_write bump (sf_database sf) d of
          (r, d') \<Rightarrow> (None, sf\<lparr>sf_revision := Some r\<rparr>, d'))
      | FailedBeforeRename \<Rightarrow> (Some (Error ''write failed''), sf, d)
      | FailedAfterRename bump \<Rightarrow> (case disk_write bump (sf_database sf) d of
          (r, d') \<Rightarrow> (Some (Error ''sync failed''), sf, d')))"

definition state_reload ::
  "'db state_spec \<Rightarrow> 'db state_file \<Rightarrow> 'db disk \<Rightarrow> ce_error + 'db state_file" where
  "state_reload spec sf d =
     (case dk_file d of
        None \<Rightarrow> Inl (Error ''State database disappeared'')
      | Some (c, r) \<Rightarrow>
          if sf_revision sf = Some r then Inr sf
          else case state_validate spec c of
                 Some e \<Rightarrow> Inl e
               | None \<Rightarrow> Inr (sf\<lparr>sf_database := c, sf_revision := Some r\<rparr>))"

definition state_read ::
  "'db state_spec \<Rightarrow> ('db \<Rightarrow> ce_error + 'a) \<Rightarrow> 'db state_file \<Rightarrow> 'db disk \<Rightarrow>
   (ce_error + 'a) \<times> 'db state_file" where
  "state_read spec operation sf d =
     (if sf_closed sf then (Inl (Error ''State database is closed''), sf)
      else case state_reload spec sf d of
             Inl e \<Rightarrow> (Inl e, sf)
           | Inr sf1 \<Rightarrow> (operation (ct_data (sf_database sf1)), sf1))"

definition state_transaction ::
  "'db state_spec \<Rightarrow> persist_outcome \<Rightarrow> ('db, 'a) tx \<Rightarrow> 'db state_file \<Rightarrow> 'db disk \<Rightarrow>
   (ce_error + 'a) \<times> 'db state_file \<times> 'db disk" where
  "state_transaction spec out operation sf d =
     (if sf_closed sf then (Inl (Error ''State database is closed''), sf, d)
      else case state_reload spec sf d of
             Inl e \<Rightarrow> (Inl e, sf, d)
           | Inr sf1 \<Rightarrow>
               (case operation (ct_data (sf_database sf1)) of
                  Inl e \<Rightarrow> (Inl e, sf1, d)
                | Inr (result, data) \<Rightarrow>
                    (case state_persist out
                        (sf1\<lparr>sf_database := (sf_database sf1)\<lparr>ct_data := data\<rparr>\<rparr>) d of
                       (None, sf2, d') \<Rightarrow> (Inr result, sf2, d')
                     | (Some e, sf2, d') \<Rightarrow> (Inl e, sf2, d'))))"

definition state_close :: "'db state_file \<Rightarrow> 'db state_file" where
  "state_close sf = sf\<lparr>sf_closed := True\<rparr>"

definition state_open ::
  "'db state_spec \<Rightarrow> bool \<Rightarrow> persist_outcome \<Rightarrow> 'db disk \<Rightarrow> (ce_error + 'db state_file) \<times> 'db disk" where
  "state_open spec create out d =
     (case dk_file d of
        None \<Rightarrow>
          if \<not> create then (Inl (Error ''State database is missing''), d)
          else (case state_validate spec (sp_schema spec) of
                  Some e \<Rightarrow> (Inl e, d)
                | None \<Rightarrow> (case state_persist out
                      \<lparr>sf_database = sp_schema spec, sf_revision = None, sf_closed = False\<rparr> d of
                    (None, sf, d') \<Rightarrow> (Inr sf, d')
                  | (Some e, sf, d') \<Rightarrow> (Inl e, d')))
      | Some (c, r) \<Rightarrow>
          let sf = \<lparr>sf_database = c, sf_revision = Some r, sf_closed = False\<rparr>;
              checked = (\<lambda>sf d. case state_validate spec (sf_database sf) of
                           Some e \<Rightarrow> (Inl e, d) | None \<Rightarrow> (Inr sf, d))
          in case map_of (sp_migrations spec) (ct_user_version c) of
               Some migration \<Rightarrow>
                 if ct_application_id c \<noteq> sp_application_id spec then checked sf d
                 else (case migration c of
                         Inl e \<Rightarrow> (Inl e, d)
                       | Inr c' \<Rightarrow> (case state_validate spec c' of
                           Some e \<Rightarrow> (Inl e, d)
                         | None \<Rightarrow> (case state_persist out (sf\<lparr>sf_database := c'\<rparr>) d of
                             (None, sf', d') \<Rightarrow> checked sf' d'
                           | (Some e, sf', d') \<Rightarrow> (Inl e, d'))))
             | None \<Rightarrow> checked sf d)"

section \<open>The mirror\<close>

text \<open>
  The process's copy agrees with the file whenever it takes the file to be unchanged, and revisions are
  never reused.
\<close>

definition mirrors :: "'db state_spec \<Rightarrow> 'db disk \<Rightarrow> 'db state_file \<Rightarrow> bool" where
  "mirrors spec d sf \<longleftrightarrow>
     (case dk_file d of
        None \<Rightarrow> False
      | Some (c, r) \<Rightarrow> state_validate spec c = None \<and> r < dk_next_revision d \<and>
          (sf_revision sf = Some r \<longrightarrow> sf_database sf = c)) \<and>
     (\<forall>r. sf_revision sf = Some r \<longrightarrow> r < dk_next_revision d)"

definition stored :: "'db disk \<Rightarrow> 'db" where
  "stored d = ct_data (fst (the (dk_file d)))"

lemma validate_data [simp]: "state_validate spec (c\<lparr>ct_data := x\<rparr>) = state_validate spec c"
  by (simp add: state_validate_def)

lemma reload_mirrors:
  assumes "mirrors spec d sf"
  obtains sf1 c r where "state_reload spec sf d = Inr sf1" and "sf_database sf1 = c" and "ct_data c = stored d"
    and "sf_revision sf1 = Some r" and "dk_file d = Some (c, r)" and "sf_closed sf1 = sf_closed sf"
    and "mirrors spec d sf1"
proof -
  obtain c r where f: "dk_file d = Some (c, r)" "state_validate spec c = None" "r < dk_next_revision d"
    and same: "sf_revision sf = Some r \<longrightarrow> sf_database sf = c"
    using assms by (auto simp: mirrors_def split: option.splits)
  define sf1 where "sf1 = (if sf_revision sf = Some r then sf else sf\<lparr>sf_database := c, sf_revision := Some r\<rparr>)"
  have "state_reload spec sf d = Inr sf1" "sf_database sf1 = c" "sf_revision sf1 = Some r"
    "sf_closed sf1 = sf_closed sf" "mirrors spec d sf1"
    using f same by (auto simp: sf1_def state_reload_def mirrors_def)
  then show ?thesis using that f by (simp add: stored_def)
qed

lemma write_mirrors:
  assumes "state_validate spec c = None" "\<forall>r. sf_revision sf = Some r \<longrightarrow> r < dk_next_revision d"
    "disk_write bump c d = (r, d')"
  shows "mirrors spec d' (sf\<lparr>sf_database := c, sf_revision := Some r\<rparr>)" and "mirrors spec d' (sf\<lparr>sf_database := x\<rparr>)"
    and "stored d' = ct_data c"
  using assms by (auto simp: mirrors_def disk_write_def stored_def Let_def)

text \<open>Another process replaces the file by a database of the same kind.\<close>

lemma foreign_write_mirrors:
  assumes "mirrors spec d sf" "state_validate spec c = None" "disk_write bump c d = (r, d')"
  shows "mirrors spec d' sf"
  using write_mirrors(2) [of spec c sf d bump r d' "sf_database sf"] assms by (simp add: mirrors_def)

section \<open>Properties\<close>

text \<open>One transaction, when the write does not fail before the rename.\<close>

lemma transaction_effect:
  assumes "mirrors spec d sf" and "\<not> sf_closed sf" and "out \<noteq> FailedBeforeRename"
    and "state_transaction spec out operation sf d = (result, sf', d')"
  shows "mirrors spec d' sf' \<and>
    (case operation (stored d) of
       Inl e \<Rightarrow> result = Inl e \<and> d' = d
     | Inr (x, data) \<Rightarrow> stored d' = data \<and>
         (\<exists>rw bump c. state_validate spec c = None \<and> disk_write bump c d = (rw, d')) \<and>
         (case out of Persisted _ \<Rightarrow> result = Inr x | _ \<Rightarrow> result = Inl (Error ''sync failed'')))"
proof -
  obtain sf1 c r where rl: "state_reload spec sf d = Inr sf1" "sf_database sf1 = c" "ct_data c = stored d"
      "sf_revision sf1 = Some r" "dk_file d = Some (c, r)" and m: "mirrors spec d sf1"
    by (rule reload_mirrors [OF assms(1)])
  show ?thesis
  proof (cases "operation (stored d)")
    case (Inl e)
    then show ?thesis using assms(2,4) rl m by (auto simp: state_transaction_def)
  next
    case (Inr y)
    obtain x data where y: "y = (x, data)" by (cases y)
    let ?c = "c\<lparr>ct_data := data\<rparr>"
    have v: "state_validate spec ?c = None" and b: "\<forall>r. sf_revision sf1 = Some r \<longrightarrow> r < dk_next_revision d"
      using m rl by (auto simp: mirrors_def)
    show ?thesis
    proof (cases out)
      case (Persisted bump)
      obtain rw dw where w: "disk_write bump ?c d = (rw, dw)" by (cases "disk_write bump ?c d")
      then have "sf' = sf1\<lparr>sf_database := ?c, sf_revision := Some rw\<rparr>" "d' = dw" "result = Inr x"
        using assms(2,4) rl Inr y Persisted by (auto simp: state_transaction_def state_persist_def)
      then show ?thesis using write_mirrors(1,3) [OF v b w] Inr y Persisted w v by (auto simp del: validate_data)
    next
      case (FailedAfterRename bump)
      obtain rw dw where w: "disk_write bump ?c d = (rw, dw)" by (cases "disk_write bump ?c d")
      then have "sf' = sf1\<lparr>sf_database := ?c\<rparr>" "d' = dw" "result = Inl (Error ''sync failed'')"
        using assms(2,4) rl Inr y FailedAfterRename by (auto simp: state_transaction_def state_persist_def)
      then show ?thesis
        using write_mirrors(2,3) [OF v b w] Inr y FailedAfterRename w v by (auto simp del: validate_data)
    qed (use assms(3) in simp)
  qed
qed

text \<open>
  Claim C40. A fault of \<open>transaction\<close>: when the write fails before the rename, the committed in-memory
  database is kept although the call reports failure and the file is unchanged. The revision of the file
  is still the one that was loaded, so the next read of the same process returns the data of the failed
  transaction, which no other process and no restart will see.
\<close>

theorem failed_transaction_stays_visible:
  assumes "mirrors spec d sf" and "\<not> sf_closed sf" and "operation (stored d) = Inr (x, data)"
    and "state_transaction spec FailedBeforeRename operation sf d = (result, sf', d')"
  shows "isl result \<and> d' = d \<and> fst (state_read spec (\<lambda>db. Inr db) sf' d') = Inr data"
proof -
  obtain sf1 c r where rl: "state_reload spec sf d = Inr sf1" "sf_database sf1 = c" "ct_data c = stored d"
      "sf_revision sf1 = Some r" "dk_file d = Some (c, r)" "sf_closed sf1 = sf_closed sf"
    by (rule reload_mirrors [OF assms(1)])
  then have "sf' = sf1\<lparr>sf_database := c\<lparr>ct_data := data\<rparr>\<rparr>" "d' = d" "isl result"
    using assms(2-4) by (auto simp: state_transaction_def state_persist_def)
  then show ?thesis
    using rl assms(2) by (simp add: state_read_def state_reload_def)
qed

lemma persist_keeps_open:
  "state_transaction spec out operation sf d = (result, sf', d') \<Longrightarrow> sf_closed sf' = sf_closed sf"
  by (auto simp: state_transaction_def state_reload_def state_persist_def
      split: if_splits option.splits sum.splits prod.splits persist_outcome.splits)

section \<open>Several processes\<close>

text \<open>
  A sequence of transactions, each issued by one of the processes that share the file, and the same
  transactions on plain data: a commit whose directory sync failed takes effect but is reported as failed.
\<close>

type_synonym ('db, 'a) call = "nat \<times> persist_outcome \<times> ('db, 'a) tx"

fun shared_run ::
  "'db state_spec \<Rightarrow> ('db, 'a) call list \<Rightarrow> 'db state_file list \<Rightarrow> 'db disk \<Rightarrow>
   (ce_error + 'a) list \<times> 'db disk" where
  "shared_run spec [] procs d = ([], d)"
| "shared_run spec ((i, out, t) # calls) procs d =
     (case state_transaction spec out t (procs ! i) d of (y, sf, d1) \<Rightarrow>
      case shared_run spec calls (procs[i := sf]) d1 of (ys, d2) \<Rightarrow> (y # ys, d2))"

fun reference_run :: "('db, 'a) call list \<Rightarrow> 'db \<Rightarrow> (ce_error + 'a) list \<times> 'db" where
  "reference_run [] db = ([], db)"
| "reference_run ((i, out, t) # calls) db =
     (let (y, db1) = run_tx t db;
          y' = (case (y, out) of (Inr _, FailedAfterRename _) \<Rightarrow> Inl (Error ''sync failed'') | _ \<Rightarrow> y);
          (ys, db2) = reference_run calls db1
      in (y' # ys, db2))"

lemma transaction_mirrors_others:
  assumes "mirrors spec d sf" "\<not> sf_closed sf" "out \<noteq> FailedBeforeRename"
    "state_transaction spec out t sf d = (y, sf', d')" "mirrors spec d other"
  shows "mirrors spec d' other"
  using transaction_effect [OF assms(1-4)] foreign_write_mirrors [OF assms(5)] assms(5)
  by (auto split: sum.splits)

text \<open>The processes' copies stay consistent with the file, so every call acts on the stored data.\<close>

lemma shared_run_reference:
  assumes "\<forall>sf \<in> set procs. mirrors spec d sf \<and> \<not> sf_closed sf"
    and "\<forall>(i, out, t) \<in> set calls. i < length procs \<and> out \<noteq> FailedBeforeRename"
    and "shared_run spec calls procs d = (ys, d')"
  shows "(ys, stored d') = reference_run calls (stored d)"
  using assms
proof (induction calls arbitrary: procs d ys d')
  case (Cons call calls)
  obtain i out t where call: "call = (i, out, t)" by (cases call)
  obtain y sf d1 where t: "state_transaction spec out t (procs ! i) d = (y, sf, d1)"
    by (cases "state_transaction spec out t (procs ! i) d") auto
  obtain ys2 d2 where rest: "shared_run spec calls (procs[i := sf]) d1 = (ys2, d2)"
    by (cases "shared_run spec calls (procs[i := sf]) d1")
  have i: "i < length procs" "out \<noteq> FailedBeforeRename" using Cons.prems(2) call by auto
  have p: "mirrors spec d (procs ! i)" "\<not> sf_closed (procs ! i)" using Cons.prems(1) i(1) by auto
  note eff = transaction_effect [OF p i(2) t]
  have "\<forall>sf' \<in> set (procs[i := sf]). mirrors spec d1 sf' \<and> \<not> sf_closed sf'"
    using set_update_subset_insert [of procs i sf] eff persist_keeps_open [OF t] p(2) Cons.prems(1)
      transaction_mirrors_others [OF p i(2) t] by auto
  moreover have "\<forall>(i, out, t) \<in> set calls. i < length (procs[i := sf]) \<and> out \<noteq> FailedBeforeRename"
    using Cons.prems(2) by auto
  ultimately have IH: "(ys2, stored d2) = reference_run calls (stored d1)"
    using Cons.IH [OF _ _ rest] by auto
  have "ys = y # ys2" "d' = d2" using Cons.prems(3) call t rest by auto
  then show ?case
    using eff IH [symmetric] call i(2)
    by (cases "t (stored d)"; cases out) (auto simp: run_tx_def)
qed simp

text \<open>
  Claim C4. Unless a write fails before its rename, the processes that share a state file behave as one
  store: any interleaving of their transactions has the results, and leaves the data, of the same
  transactions run one after the other on plain data. A body that throws changes nothing; a commit whose
  directory sync fails is reported as failed but takes effect.
\<close>

theorem shared_file_is_one_store:
  assumes "\<forall>sf \<in> set procs. mirrors spec d sf \<and> \<not> sf_closed sf"
    and "\<forall>(i, out, t) \<in> set calls. i < length procs \<and> out \<noteq> FailedBeforeRename"
    and "shared_run spec calls procs d = (ys, d')"
  shows "(ys, stored d') = reference_run calls (stored d)"
  by (rule shared_run_reference [OF assms])

section \<open>The contract of a store\<close>

text \<open>
  What the repositories rely on: a read shows the stored data and a transaction acts on it as \<open>run_tx\<close>
  does. \<open>ok\<close> is the state in which the contract holds.
\<close>

locale transactional_store =
  fixes ok :: "'s \<Rightarrow> bool"
    and contents :: "'s \<Rightarrow> 'db"
    and do_read :: "('db \<Rightarrow> ce_error + 'a) \<Rightarrow> 's \<Rightarrow> (ce_error + 'a) \<times> 's"
    and do_tx :: "('db, 'b) tx \<Rightarrow> 's \<Rightarrow> (ce_error + 'b) \<times> 's"
  assumes read_contents: "ok s \<Longrightarrow> do_read f s = (x, s') \<Longrightarrow> x = f (contents s) \<and> contents s' = contents s \<and> ok s'"
    and tx_contents: "ok s \<Longrightarrow> do_tx t s = (y, s') \<Longrightarrow> ok s' \<and> (y, contents s') = run_tx t (contents s)"
begin

fun tx_seq :: "('db, 'b) tx list \<Rightarrow> 's \<Rightarrow> (ce_error + 'b) list \<times> 's" where
  "tx_seq [] s = ([], s)"
| "tx_seq (t # ts) s = (case do_tx t s of (y, s1) \<Rightarrow> case tx_seq ts s1 of (ys, s2) \<Rightarrow> (y # ys, s2))"

fun run_seq :: "('db, 'b) tx list \<Rightarrow> 'db \<Rightarrow> (ce_error + 'b) list \<times> 'db" where
  "run_seq [] db = ([], db)"
| "run_seq (t # ts) db = (case run_tx t db of (y, db1) \<Rightarrow> case run_seq ts db1 of (ys, db2) \<Rightarrow> (y # ys, db2))"

text \<open>Every sequence of transactions on the store has the results of the transactions on plain data.\<close>

lemma tx_seq_refines:
  "ok s \<Longrightarrow> tx_seq ts s = (ys, s') \<Longrightarrow> ok s' \<and> (ys, contents s') = run_seq ts (contents s)"
proof (induction ts arbitrary: s ys s')
  case (Cons t ts)
  obtain y s1 where t: "do_tx t s = (y, s1)" by (cases "do_tx t s")
  obtain ys2 s2 where ts: "tx_seq ts s1 = (ys2, s2)" by (cases "tx_seq ts s1")
  have s1: "ok s1" "(y, contents s1) = run_tx t (contents s)" using tx_contents [OF Cons.prems(1) t] by simp_all
  have "ok s2" "(ys2, contents s2) = run_seq ts (contents s1)" using Cons.IH [OF s1(1) ts] by simp_all
  with s1(2) [symmetric] Cons.prems(2) t ts show ?case by (auto split: prod.splits)
qed simp

lemma read_after_tx:
  assumes "ok s" "do_tx t s = (Inr y, s1)" "do_read f s1 = (x, s2)"
  shows "\<exists>db'. t (contents s) = Inr (y, db') \<and> x = f db'"
  using tx_contents [OF assms(1,2)] read_contents [OF _ assms(3)] run_tx_result by metis

end

definition file_read ::
  "'db state_spec \<Rightarrow> ('db \<Rightarrow> ce_error + 'a) \<Rightarrow> 'db state_file \<times> 'db disk \<Rightarrow>
   (ce_error + 'a) \<times> 'db state_file \<times> 'db disk" where
  "file_read spec f s = (case state_read spec f (fst s) (snd s) of (x, sf) \<Rightarrow> (x, sf, snd s))"

definition file_ok :: "'db state_spec \<Rightarrow> 'db state_file \<times> 'db disk \<Rightarrow> bool" where
  "file_ok spec s \<longleftrightarrow> mirrors spec (snd s) (fst s) \<and> \<not> sf_closed (fst s)"

text \<open>The file, as long as its writes succeed, keeps the contract.\<close>

interpretation file_store: transactional_store "file_ok spec" "\<lambda>s. stored (snd s)" "file_read spec"
  "\<lambda>t s. state_transaction spec (Persisted bump) t (fst s) (snd s)"
  for spec bump
proof unfold_locales
  fix f s x s'
  assume a: "file_ok spec s" "file_read spec f s = (x, s')"
  obtain sf1 c r where "state_reload spec (fst s) (snd s) = Inr sf1" "sf_database sf1 = c"
      "ct_data c = stored (snd s)" "sf_closed sf1 = sf_closed (fst s)" "mirrors spec (snd s) sf1"
    by (rule reload_mirrors [of spec "snd s" "fst s"]) (use a(1) in \<open>auto simp: file_ok_def\<close>)
  then show "x = f (stored (snd s)) \<and> stored (snd s') = stored (snd s) \<and> file_ok spec s'"
    using a by (auto simp: file_ok_def file_read_def state_read_def)
next
  fix t s y s'
  assume a: "file_ok spec s" "state_transaction spec (Persisted bump) t (fst s) (snd s) = (y, s')"
  then have t: "state_transaction spec (Persisted bump) t (fst s) (snd s) = (y, fst s', snd s')" by simp
  show "file_ok spec s' \<and> (y, stored (snd s')) = run_tx t (stored (snd s))"
    using transaction_effect [OF _ _ _ t] persist_keeps_open [OF t] a(1)
    by (cases "t (stored (snd s))") (auto simp: file_ok_def)
qed

section \<open>Witnesses\<close>

text \<open>A database that holds one number, and two processes that have opened it.\<close>

definition example_content :: "int content" where
  "example_content = \<lparr>ct_application_id = 7, ct_user_version = 2, ct_tables = [''metadata''], ct_data = 10\<rparr>"

definition example_spec :: "int state_spec" where
  "example_spec = \<lparr>sp_kind = ''user'', sp_application_id = 7, sp_schema_version = 2,
     sp_schema = example_content, sp_migrations = [], sp_required_tables = [''metadata'']\<rparr>"

definition example_disk :: "int disk" where
  "example_disk = \<lparr>dk_file = Some (example_content, 0), dk_next_revision = 1\<rparr>"

definition example_process :: "int state_file" where
  "example_process = \<lparr>sf_database = example_content, sf_revision = Some 0, sf_closed = False\<rparr>"

definition example_add :: "int \<Rightarrow> (int, int) tx" where
  "example_add n db = (if db + n < 0 then Inl (Error ''negative'') else Inr (db, db + n))"

lemma example_mirrors: "mirrors example_spec example_disk example_process" "\<not> sf_closed example_process"
  by (simp_all add: mirrors_def example_disk_def example_process_def state_validate_def example_spec_def
      example_content_def)

theorem shared_file_is_one_store_witness:
  "fst (shared_run example_spec [(0, Persisted True, example_add 5), (1, FailedAfterRename False, example_add 1),
      (0, Persisted False, example_add (-100))] [example_process, example_process] example_disk) =
    [Inr 10, Inl (Error ''sync failed''), Inl (Error ''negative'')]"
proof -
  let ?calls = "[(0, Persisted True, example_add 5), (1, FailedAfterRename False, example_add 1),
      (0, Persisted False, example_add (-100))] :: (int, int) call list"
  obtain ys d' where r: "shared_run example_spec ?calls [example_process, example_process] example_disk = (ys, d')"
    by (cases "shared_run example_spec ?calls [example_process, example_process] example_disk")
  have "(ys, stored d') = reference_run ?calls (stored example_disk)"
    by (rule shared_file_is_one_store [OF _ _ r]) (simp_all add: example_mirrors)
  then show ?thesis
    unfolding r by (simp add: stored_def example_disk_def example_content_def example_add_def run_tx_def)
qed

theorem failed_transaction_stays_visible_witness:
  "case state_transaction example_spec FailedBeforeRename (example_add 5) example_process example_disk of
     (result, sf', d') \<Rightarrow> isl result \<and> d' = example_disk \<and>
       fst (state_read example_spec (\<lambda>db. Inr db) sf' d') = Inr 15"
proof -
  obtain result sf' d' where r: "state_transaction example_spec FailedBeforeRename (example_add 5)
      example_process example_disk = (result, sf', d')"
    by (cases "state_transaction example_spec FailedBeforeRename (example_add 5) example_process example_disk") auto
  have "example_add 5 (stored example_disk) = Inr (10, 15)"
    by (simp add: example_add_def stored_def example_disk_def example_content_def)
  from failed_transaction_stays_visible [OF example_mirrors this r] r show ?thesis by auto
qed

end
