(* ===== verification/Mutation_Middleware.thy ===== *)
theory Mutation_Middleware
  imports Receipt_Repository State_File
begin

text \<open>
  The mutation boundary of the agent (\<open>apps/agent/src/v2/services/mutation-middleware.ts\<close>). Durable
  mutations run under a receipt of the repository: claim, execute, store the outcome. The awaits of one
  call are the points where other calls, failing writes and crashes of the process may come in between,
  so a call is modelled by its phases. Ephemeral mutations are remembered in a bounded map. The receipt
  repository and the hash function are arguments, as they are injected in the code.
\<close>

section \<open>Invocations and fingerprints\<close>

datatype idempotency = Durable | Ephemeral

record invocation =
  iv_principalId :: string
  iv_operationKey :: string
  iv_method :: string
  iv_input :: js
  iv_idempotency :: idempotency

text \<open>\<open>JSON.stringify\<close> of a string: quotes, backslashes and control characters are escaped.\<close>

definition json_char :: "char \<Rightarrow> string" where
  "json_char c =
     (if c = CHR 0x22 then [CHR 0x5C, CHR 0x22]
      else if c = CHR 0x5C then [CHR 0x5C, CHR 0x5C]
      else if c = CHR 0x08 then [CHR 0x5C, CHR ''b'']
      else if c = CHR 0x0C then [CHR 0x5C, CHR ''f'']
      else if c = CHR 0x0A then [CHR 0x5C, CHR ''n'']
      else if c = CHR 0x0D then [CHR 0x5C, CHR ''r'']
      else if c = CHR 0x09 then [CHR 0x5C, CHR ''t'']
      else if of_char c < (32 :: nat)
      then [CHR 0x5C, CHR ''u'', CHR ''0'', CHR ''0'', hex_digit (of_char c div 16), hex_digit (of_char c)]
      else [c])"

definition json_string :: "string \<Rightarrow> string" where
  "json_string s = [CHR 0x22] @ concat (map json_char s) @ [CHR 0x22]"

fun join_with :: "string \<Rightarrow> string list \<Rightarrow> string" where
  "join_with sep [] = []"
| "join_with sep [s] = s"
| "join_with sep (s # ss) = s @ sep @ join_with sep ss"

text \<open>
  The stable sort of the entries by \<open>localeCompare\<close>; \<open>le\<close> is the order of the host's locale.
\<close>

fun insert_entry :: "(string \<Rightarrow> string \<Rightarrow> bool) \<Rightarrow> string \<times> 'v \<Rightarrow> (string \<times> 'v) list \<Rightarrow> (string \<times> 'v) list" where
  "insert_entry le e [] = [e]"
| "insert_entry le e (x # xs) = (if le (fst e) (fst x) then e # x # xs else x # insert_entry le e xs)"

fun sort_entries :: "(string \<Rightarrow> string \<Rightarrow> bool) \<Rightarrow> (string \<times> 'v) list \<Rightarrow> (string \<times> 'v) list" where
  "sort_entries le [] = []"
| "sort_entries le (e # es) = insert_entry le e (sort_entries le es)"

fun canonicalJson :: "(string \<Rightarrow> string \<Rightarrow> bool) \<Rightarrow> js \<Rightarrow> string" where
  "canonicalJson le (JStr s) = json_string s"
| "canonicalJson le (JNum n) = json_number n"
| "canonicalJson le (JBool b) = (if b then ''true'' else ''false'')"
| "canonicalJson le (JArr vs) = ''['' @ join_with '','' (map (canonicalJson le) vs) @ '']''"
| "canonicalJson le (JObj fs) =
     ''{'' @ join_with '','' (map (\<lambda>(k, t). json_string k @ '':'' @ t)
                (sort_entries le (map (\<lambda>(k, v). (k, canonicalJson le v)) fs))) @ ''}''"
| "canonicalJson le v = ''null''"

record hashing =
  hs_le :: "string \<Rightarrow> string \<Rightarrow> bool"
  hs_digest :: "string \<Rightarrow> string"

definition mutation_value :: "invocation \<Rightarrow> js" where
  "mutation_value iv = JObj [(''method'', JStr (iv_method iv)), (''input'', iv_input iv)]"

definition durableFingerprint :: "hashing \<Rightarrow> invocation \<Rightarrow> string" where
  "durableFingerprint h iv =
     hs_digest h (''ce-v4-durable-mutation'' @ [CHR 0x00] @ canonicalJson (hs_le h) (mutation_value iv))"

definition ephemeralFingerprint :: "hashing \<Rightarrow> invocation \<Rightarrow> string" where
  "ephemeralFingerprint h iv =
     hs_digest h (''ce-v4-ephemeral-mutation'' @ [CHR 0x00] @ canonicalJson (hs_le h) (mutation_value iv))"

definition durableInvocationIdentity :: "invocation \<Rightarrow> string" where
  "durableInvocationIdentity iv = iv_principalId iv @ [CHR 0x00] @ iv_operationKey iv"

section \<open>Outcomes\<close>

definition keyReuseError :: ce_error where
  "keyReuseError = GatewayV2Error ((gateway_v2_error ''OPERATION_KEY_REUSED''
     ''Operation key was reused for a different mutation'')\<lparr>ge_close_connection := True\<rparr>)"

definition outcomeUnknownError :: ce_error where
  "outcomeUnknownError = GatewayV2Error (gateway_v2_error ''MUTATION_OUTCOME_UNKNOWN''
     ''The mutation outcome is unknown; query mutation/status before retrying'')"

definition pendingError :: ce_error where
  "pendingError = GatewayV2Error ((gateway_v2_error ''MUTATION_PENDING''
     ''The mutation is still pending; query mutation/status'')\<lparr>ge_retryable := Some True\<rparr>)"

definition internal_failure :: stored_outcome where
  "internal_failure = Failure (gateway_v2_error ''INTERNAL_ERROR'' ''Gateway mutation could not be completed'')"

text \<open>How the handler ended; \<open>jsonValueSchema\<close> accepts the values of \<open>isJsonValue\<close>.\<close>

fun captureOutcome :: "ce_error + js \<Rightarrow> stored_outcome" where
  "captureOutcome (Inr result) = (if isJsonValue result then Success result else internal_failure)"
| "captureOutcome (Inl (GatewayV2Error e)) = Failure (e\<lparr>ge_close_connection := False\<rparr>)"
| "captureOutcome (Inl e) = internal_failure"

fun unwrapOutcome :: "stored_outcome \<Rightarrow> ce_error + js" where
  "unwrapOutcome (Success result) = Inr result"
| "unwrapOutcome (Failure e) = Inl (GatewayV2Error (e\<lparr>ge_close_connection := False\<rparr>))"

fun is_internal_error :: "stored_outcome \<Rightarrow> bool" where
  "is_internal_error (Success result) = False"
| "is_internal_error (Failure e) = (ge_code e = ''INTERNAL_ERROR'')"

section \<open>A durable call by phases\<close>

record 'db receipt_ops =
  ro_claim :: "string \<Rightarrow> string \<Rightarrow> string \<Rightarrow> timestamp \<Rightarrow> ('db, mutation_claim) tx"
  ro_complete :: "string \<Rightarrow> string \<Rightarrow> string \<Rightarrow> stored_outcome \<Rightarrow> timestamp \<Rightarrow> timestamp \<Rightarrow> ('db, unit) tx"
  ro_markIndeterminate :: "string \<Rightarrow> string \<Rightarrow> string \<Rightarrow> timestamp \<Rightarrow> ('db, unit) tx"
  ro_recoverPending :: "timestamp \<Rightarrow> ('db, nat) tx"
  ro_status :: "string \<Rightarrow> timestamp \<Rightarrow> ('db, mutation_status) tx"

text \<open>
  A transaction of the state file as the process sees it: the first database is the one in memory, the
  second the one on disk, which is what is left after a crash. A write that fails before the rename
  changes the first only (see \<open>State_File\<close>).
\<close>

definition commit :: "persist_outcome \<Rightarrow> ('db, 'a) tx \<Rightarrow> 'db \<times> 'db \<Rightarrow> (ce_error + 'a) \<times> 'db \<times> 'db" where
  "commit out body dbs =
     (case body (fst dbs) of
        Inl e \<Rightarrow> (Inl e, dbs)
      | Inr (r, db') \<Rightarrow>
          (case out of
             Persisted _ \<Rightarrow> (Inr r, db', db')
           | FailedBeforeRename \<Rightarrow> (Inl (Error ''write failed''), db', snd dbs)
           | FailedAfterRename _ \<Rightarrow> (Inl (Error ''sync failed''), db', db')))"

datatype phase = Claiming | Executing | Settling stored_outcome | Marking

datatype progress = Continue phase | Finished "ce_error + js"

definition DURABLE_RESULT_TTL_MS :: int where
  "DURABLE_RESULT_TTL_MS = 24 * 60 * 60000"

definition EPHEMERAL_RESULT_TTL_MS :: int where
  "EPHEMERAL_RESULT_TTL_MS = 5 * 60000"

definition claim_phase ::
  "'db receipt_ops \<Rightarrow> hashing \<Rightarrow> invocation \<Rightarrow> timestamp \<Rightarrow> persist_outcome \<Rightarrow> 'db \<times> 'db \<Rightarrow>
   progress \<times> 'db \<times> 'db" where
  "claim_phase repo h iv now out dbs =
     (case commit out (ro_claim repo (iv_operationKey iv) (iv_method iv) (durableFingerprint h iv) now) dbs of
        (Inl (MutationReceiptConflictError k), dbs') \<Rightarrow> (Finished (Inl keyReuseError), dbs')
      | (Inl e, dbs') \<Rightarrow> (Finished (Inl e), dbs')
      | (Inr (Claim_completed outcome), dbs') \<Rightarrow> (Finished (unwrapOutcome outcome), dbs')
      | (Inr (Claim_pending _), dbs') \<Rightarrow> (Finished (Inl pendingError), dbs')
      | (Inr (Claim_indeterminate _), dbs') \<Rightarrow> (Finished (Inl outcomeUnknownError), dbs')
      | (Inr Claim_execute, dbs') \<Rightarrow> (Continue Executing, dbs'))"

definition execute_phase :: "ce_error + js \<Rightarrow> phase" where
  "execute_phase handler =
     (let outcome = captureOutcome handler in
      if is_internal_error outcome then Marking else Settling outcome)"

definition settle_phase ::
  "'db receipt_ops \<Rightarrow> hashing \<Rightarrow> invocation \<Rightarrow> stored_outcome \<Rightarrow> timestamp \<Rightarrow> persist_outcome \<Rightarrow>
   'db \<times> 'db \<Rightarrow> progress \<times> 'db \<times> 'db" where
  "settle_phase repo h iv outcome now out dbs =
     (case commit out (ro_complete repo (iv_operationKey iv) (iv_method iv) (durableFingerprint h iv)
             outcome now (now + DURABLE_RESULT_TTL_MS)) dbs of
        (Inl e, dbs') \<Rightarrow> (Continue Marking, dbs')
      | (Inr _, dbs') \<Rightarrow> (Finished (unwrapOutcome outcome), dbs'))"

text \<open>\<open>bestEffortIndeterminate\<close>: an error is swallowed.\<close>

definition mark_phase ::
  "'db receipt_ops \<Rightarrow> hashing \<Rightarrow> invocation \<Rightarrow> timestamp \<Rightarrow> persist_outcome \<Rightarrow> 'db \<times> 'db \<Rightarrow>
   progress \<times> 'db \<times> 'db" where
  "mark_phase repo h iv now out dbs =
     (case commit out (ro_markIndeterminate repo (iv_operationKey iv) (iv_method iv)
             (durableFingerprint h iv) now) dbs of
        (_, dbs') \<Rightarrow> (Finished (Inl outcomeUnknownError), dbs'))"

text \<open>
  \<open>#executeDurable\<close> when nothing else comes in between: \<open>ts\<close> gives the clock and the outcome of the write
  at the claim, at the completion and at the marking. The result says whether the handler was called.
\<close>

definition executeDurable ::
  "'db receipt_ops \<Rightarrow> hashing \<Rightarrow> invocation \<Rightarrow> ce_error + js \<Rightarrow>
   (timestamp \<times> persist_outcome) \<times> (timestamp \<times> persist_outcome) \<times> (timestamp \<times> persist_outcome) \<Rightarrow>
   'db \<times> 'db \<Rightarrow> (ce_error + js) \<times> bool \<times> 'db \<times> 'db" where
  "executeDurable repo h iv handler ts dbs =
     (case ts of ((t1, o1), (t2, o2), (t3, o3)) \<Rightarrow>
      (case claim_phase repo h iv t1 o1 dbs of
         (Finished r, dbs1) \<Rightarrow> (r, False, dbs1)
       | (Continue _, dbs1) \<Rightarrow>
           (let mark = (\<lambda>dbs. case mark_phase repo h iv t3 o3 dbs of
                  (Finished r, dbs') \<Rightarrow> (r, True, dbs')
                | (Continue _, dbs') \<Rightarrow> (Inl outcomeUnknownError, True, dbs'))
            in case execute_phase handler of
                 Settling outcome \<Rightarrow>
                   (case settle_phase repo h iv outcome t2 o2 dbs1 of
                      (Finished r, dbs2) \<Rightarrow> (r, True, dbs2)
                    | (Continue _, dbs2) \<Rightarrow> mark dbs2)
               | _ \<Rightarrow> mark dbs1)))"

section \<open>Concurrent calls\<close>

text \<open>
  The middleware with its calls in flight. \<open>mw_called\<close> lists the operation keys whose handler was called,
  the last one first; it is what the properties speak about.
\<close>

record task =
  tk_invocation :: invocation
  tk_phase :: phase

record 'db middleware =
  mw_dbs :: "'db \<times> 'db"
  mw_tasks :: "task list"
  mw_called :: "string list"

text \<open>\<open>run\<close> and \<open>#runDurable\<close>: a call for a key that is in flight joins it or is rejected.\<close>

datatype joined = Rejects ce_error | Joins | Starts

definition run_durable :: "hashing \<Rightarrow> invocation \<Rightarrow> 'db middleware \<Rightarrow> joined \<times> 'db middleware" where
  "run_durable h iv m =
     (case find (\<lambda>t. durableInvocationIdentity (tk_invocation t) = durableInvocationIdentity iv) (mw_tasks m) of
        Some t \<Rightarrow>
          if durableFingerprint h (tk_invocation t) \<noteq> durableFingerprint h iv
          then (Rejects keyReuseError, m) else (Joins, m)
      | None \<Rightarrow> (Starts, m\<lparr>mw_tasks := mw_tasks m @ [\<lparr>tk_invocation = iv, tk_phase = Claiming\<rparr>]\<rparr>))"

fun set_progress :: "nat \<Rightarrow> progress \<Rightarrow> task list \<Rightarrow> task list" where
  "set_progress i (Continue p) ts = ts[i := (ts ! i)\<lparr>tk_phase := p\<rparr>]"
| "set_progress i (Finished r) ts = take i ts @ drop (Suc i) ts"

text \<open>
  What can happen: a call arrives, a call takes its next phase (\<open>Phase i\<close>, with the clock, the outcome of
  the write and the result of the handler where the phase needs them), the receipt status is queried, the
  process crashes and restarts, and the receipts that were pending are recovered.
\<close>

datatype action =
    Arrive invocation
  | Phase nat timestamp persist_outcome "ce_error + js"
  | Query string timestamp persist_outcome
  | Crash
  | Recover timestamp persist_outcome

definition take_phase ::
  "'db receipt_ops \<Rightarrow> hashing \<Rightarrow> nat \<Rightarrow> timestamp \<Rightarrow> persist_outcome \<Rightarrow> ce_error + js \<Rightarrow>
   'db middleware \<Rightarrow> 'db middleware" where
  "take_phase repo h i now out handler m =
     (let iv = tk_invocation (mw_tasks m ! i);
          finish = (\<lambda>(p, dbs). m\<lparr>mw_dbs := dbs, mw_tasks := set_progress i p (mw_tasks m)\<rparr>)
      in case tk_phase (mw_tasks m ! i) of
           Claiming \<Rightarrow>
             (case claim_phase repo h iv now out (mw_dbs m) of
                (Continue p, dbs) \<Rightarrow>
                  (finish (Continue p, dbs))\<lparr>mw_called := iv_operationKey iv # mw_called m\<rparr>
              | (Finished r, dbs) \<Rightarrow> finish (Finished r, dbs))
         | Executing \<Rightarrow> finish (Continue (execute_phase handler), mw_dbs m)
         | Settling outcome \<Rightarrow> finish (settle_phase repo h iv outcome now out (mw_dbs m))
         | Marking \<Rightarrow> finish (mark_phase repo h iv now out (mw_dbs m)))"

fun act :: "'db receipt_ops \<Rightarrow> hashing \<Rightarrow> action \<Rightarrow> 'db middleware \<Rightarrow> 'db middleware" where
  "act repo h (Arrive iv) m = snd (run_durable h iv m)"
| "act repo h (Phase i now out handler) m =
     (if i < length (mw_tasks m) then take_phase repo h i now out handler m else m)"
| "act repo h (Query k now out) m = m\<lparr>mw_dbs := snd (commit out (ro_status repo k now) (mw_dbs m))\<rparr>"
| "act repo h Crash m = m\<lparr>mw_dbs := (snd (mw_dbs m), snd (mw_dbs m)), mw_tasks := []\<rparr>"
| "act repo h (Recover now out) m = m\<lparr>mw_dbs := snd (commit out (ro_recoverPending repo now) (mw_dbs m))\<rparr>"

fun action_time :: "action \<Rightarrow> timestamp option" where
  "action_time (Phase i now out handler) = Some now"
| "action_time (Query k now out) = Some now"
| "action_time (Recover now out) = Some now"
| "action_time _ = None"

section \<open>The contract of the receipt store\<close>

text \<open>
  \<open>held H k db\<close>: the store has a receipt for the key that cannot expire before the instant \<open>H\<close>. The laws
  say that a claim is granted only for a key that is not held, that a granted claim holds its key for
  good, and that no operation before \<open>H\<close> lets go of a held key.
\<close>

locale receipt_store =
  fixes repo :: "'db receipt_ops"
    and valid :: "'db \<Rightarrow> bool"
    and held :: "timestamp \<Rightarrow> string \<Rightarrow> 'db \<Rightarrow> bool"
  assumes claim_fresh: "valid db \<Longrightarrow> held H k db \<Longrightarrow> now < H \<Longrightarrow>
      ro_claim repo k meth fp now db \<noteq> Inr (Claim_execute, db')"
    and claim_holds: "valid db \<Longrightarrow> ro_claim repo k meth fp now db = Inr (Claim_execute, db') \<Longrightarrow> held H k db'"
    and claim_keeps: "valid db \<Longrightarrow> ro_claim repo k' meth fp now db = Inr (c, db') \<Longrightarrow>
      valid db' \<and> (held H k db \<longrightarrow> now < H \<longrightarrow> held H k db')"
    and complete_keeps: "valid db \<Longrightarrow> ro_complete repo k' meth fp outcome now expires db = Inr (u, db') \<Longrightarrow>
      valid db' \<and> (held H k db \<longrightarrow> H \<le> expires \<longrightarrow> held H k db')"
    and mark_keeps: "valid db \<Longrightarrow> ro_markIndeterminate repo k' meth fp now db = Inr (u, db') \<Longrightarrow>
      valid db' \<and> (held H k db \<longrightarrow> held H k db')"
    and recover_keeps: "valid db \<Longrightarrow> ro_recoverPending repo now db = Inr (n, db') \<Longrightarrow>
      valid db' \<and> (held H k db \<longrightarrow> held H k db')"
    and status_keeps: "valid db \<Longrightarrow> ro_status repo k' now db = Inr (x, db') \<Longrightarrow>
      valid db' \<and> (held H k db \<longrightarrow> now < H \<longrightarrow> held H k db')"
begin

text \<open>Both the database in memory and the one on disk hold every key whose handler was called.\<close>

definition both :: "('db \<Rightarrow> bool) \<Rightarrow> 'db \<times> 'db \<Rightarrow> bool" where
  "both P dbs \<longleftrightarrow> P (fst dbs) \<and> P (snd dbs)"

definition calls_inv :: "timestamp \<Rightarrow> 'db middleware \<Rightarrow> bool" where
  "calls_inv H m \<longleftrightarrow> both valid (mw_dbs m) \<and> distinct (mw_called m) \<and>
     (\<forall>k \<in> set (mw_called m). both (held H k) (mw_dbs m))"

lemma commit_both:
  assumes "commit out body dbs = (r, dbs')" "both P dbs" "\<And>x db'. body (fst dbs) = Inr (x, db') \<Longrightarrow> P db'"
  shows "both P dbs'"
  using assms by (auto simp: commit_def both_def split: sum.splits persist_outcome.splits)

lemma commit_keeps:
  assumes "commit out body dbs = (r, dbs')" "both valid dbs" "\<forall>k \<in> K. both (held H k) dbs"
    and "\<And>x db' k. body (fst dbs) = Inr (x, db') \<Longrightarrow> valid db' \<and> (held H k (fst dbs) \<longrightarrow> held H k db')"
  shows "both valid dbs' \<and> (\<forall>k \<in> K. both (held H k) dbs')"
proof -
  have "both valid dbs'" by (rule commit_both [OF assms(1,2)]) (use assms(4) in blast)
  moreover have "both (held H k) dbs'" if "k \<in> K" for k
    by (rule commit_both [OF assms(1)]) (use assms(3,4) that in \<open>auto simp: both_def\<close>)
  ultimately show ?thesis by blast
qed

lemma claim_phase_dbs:
  "snd (claim_phase repo h iv now out dbs) =
   snd (commit out (ro_claim repo (iv_operationKey iv) (iv_method iv) (durableFingerprint h iv) now) dbs)"
  by (auto simp: claim_phase_def split: prod.splits sum.splits ce_error.splits mutation_claim.splits)

lemma claim_phase_continue:
  assumes "claim_phase repo h iv now out dbs = (Continue p, dbs')"
  shows "\<exists>db'. ro_claim repo (iv_operationKey iv) (iv_method iv) (durableFingerprint h iv) now (fst dbs) =
      Inr (Claim_execute, db') \<and> dbs' = (db', db') \<and> p = Executing"
proof -
  obtain r dbs1 where c: "commit out (ro_claim repo (iv_operationKey iv) (iv_method iv) (durableFingerprint h iv) now) dbs = (r, dbs1)"
    by (cases "commit out (ro_claim repo (iv_operationKey iv) (iv_method iv) (durableFingerprint h iv) now) dbs") auto
  with assms have "r = Inr Claim_execute" "dbs1 = dbs'" "p = Executing"
    by (auto simp: claim_phase_def split: sum.splits ce_error.splits mutation_claim.splits)
  then show ?thesis
    using c by (auto simp: commit_def split: sum.splits persist_outcome.splits)
qed

lemma claim_phase_keeps:
  assumes "both valid dbs" "\<forall>k \<in> K. both (held H k) dbs" "now < H"
  shows "both valid (snd (claim_phase repo h iv now out dbs)) \<and>
    (\<forall>k \<in> K. both (held H k) (snd (claim_phase repo h iv now out dbs)))"
  unfolding claim_phase_dbs
  by (rule commit_keeps [OF _ assms(1,2)]) (use claim_keeps assms in \<open>auto simp: both_def prod_eq_iff\<close>)

lemma settle_phase_keeps:
  assumes "both valid dbs" "\<forall>k \<in> K. both (held H k) dbs" "H \<le> now + DURABLE_RESULT_TTL_MS"
  shows "both valid (snd (settle_phase repo h iv outcome now out dbs)) \<and>
    (\<forall>k \<in> K. both (held H k) (snd (settle_phase repo h iv outcome now out dbs)))"
proof -
  have "snd (settle_phase repo h iv outcome now out dbs) = snd (commit out (ro_complete repo (iv_operationKey iv)
      (iv_method iv) (durableFingerprint h iv) outcome now (now + DURABLE_RESULT_TTL_MS)) dbs)"
    by (auto simp: settle_phase_def split: prod.splits sum.splits)
  then show ?thesis
    by (metis (no_types, lifting) commit_keeps [OF _ assms(1,2)] complete_keeps assms(1,3) both_def prod.collapse)
qed

lemma mark_phase_keeps:
  assumes "both valid dbs" "\<forall>k \<in> K. both (held H k) dbs"
  shows "both valid (snd (mark_phase repo h iv now out dbs)) \<and>
    (\<forall>k \<in> K. both (held H k) (snd (mark_phase repo h iv now out dbs)))"
proof -
  have "snd (mark_phase repo h iv now out dbs) = snd (commit out (ro_markIndeterminate repo (iv_operationKey iv)
      (iv_method iv) (durableFingerprint h iv) now) dbs)"
    by (auto simp: mark_phase_def split: prod.splits)
  then show ?thesis
    by (metis (no_types, lifting) commit_keeps [OF _ assms(1,2)] mark_keeps assms(1) both_def prod.collapse)
qed

lemma take_phase_inv:
  assumes "calls_inv H m" "now < H" "H \<le> now + DURABLE_RESULT_TTL_MS"
  shows "calls_inv H (take_phase repo h i now out handler m)"
proof -
  let ?iv = "tk_invocation (mw_tasks m ! i)"
  have I: "both valid (mw_dbs m)" "distinct (mw_called m)" "\<forall>k \<in> set (mw_called m). both (held H k) (mw_dbs m)"
    using assms(1) by (simp_all add: calls_inv_def)
  show ?thesis
  proof (cases "tk_phase (mw_tasks m ! i)")
    case Claiming
    note keeps = claim_phase_keeps [OF I(1,3) assms(2), of h ?iv out]
    obtain p dbs where Pair: "claim_phase repo h ?iv now out (mw_dbs m) = (p, dbs)"
      by (metis prod.collapse)
    show ?thesis
    proof (cases p)
      case (Continue ph)
      obtain db' where c: "ro_claim repo (iv_operationKey ?iv) (iv_method ?iv) (durableFingerprint h ?iv) now
          (fst (mw_dbs m)) = Inr (Claim_execute, db')" "dbs = (db', db')"
        using claim_phase_continue [of h ?iv now out "mw_dbs m" ph dbs] Pair Continue by auto
      have "\<not> held H (iv_operationKey ?iv) (fst (mw_dbs m))"
        using claim_fresh [of "fst (mw_dbs m)" H "iv_operationKey ?iv" now] c(1) I(1) assms(2) by (auto simp: both_def)
      then have "iv_operationKey ?iv \<notin> set (mw_called m)"
        using I(3) by (auto simp: both_def)
      moreover have "both (held H (iv_operationKey ?iv)) dbs"
        using claim_holds [OF _ c(1)] I(1) c(2) by (simp add: both_def)
      ultimately show ?thesis
        using Claiming Pair Continue I(2) keeps by (simp add: take_phase_def Let_def calls_inv_def)
    next
      case (Finished r)
      then show ?thesis
        using Claiming Pair I(2) keeps by (simp add: take_phase_def Let_def calls_inv_def)
    qed
  next
    case Executing
    then show ?thesis using I by (simp add: take_phase_def Let_def calls_inv_def)
  next
    case (Settling outcome)
    then show ?thesis
      using settle_phase_keeps [OF I(1,3) assms(3), of h ?iv outcome out] I(2)
      by (simp add: take_phase_def Let_def calls_inv_def split_beta)
  next
    case Marking
    then show ?thesis
      using mark_phase_keeps [OF I(1,3), of h ?iv now out] I(2)
      by (simp add: take_phase_def Let_def calls_inv_def split_beta)
  qed
qed

lemma act_inv:
  assumes "calls_inv H m" "\<And>now. action_time a = Some now \<Longrightarrow> now < H \<and> H \<le> now + DURABLE_RESULT_TTL_MS"
  shows "calls_inv H (act repo h a m)"
proof -
  have I: "both valid (mw_dbs m)" "distinct (mw_called m)" "\<forall>k \<in> set (mw_called m). both (held H k) (mw_dbs m)"
    using assms(1) by (simp_all add: calls_inv_def)
  show ?thesis
  proof (cases a)
    case (Arrive iv)
    then show ?thesis using assms(1) by (auto simp: run_durable_def calls_inv_def split: option.splits)
  next
    case (Phase i now out handler)
    then show ?thesis using take_phase_inv [OF assms(1)] assms by simp
  next
    case (Query k now out)
    have "both valid (snd (commit out (ro_status repo k now) (mw_dbs m))) \<and>
        (\<forall>j \<in> set (mw_called m). both (held H j) (snd (commit out (ro_status repo k now) (mw_dbs m))))"
      by (rule commit_keeps [OF _ I(1,3)]) (use status_keeps I(1) assms(2) Query in \<open>auto simp: both_def prod_eq_iff\<close>)
    then show ?thesis using Query I(2) by (simp add: calls_inv_def)
  next
    case Crash
    then show ?thesis using assms(1) by (auto simp: calls_inv_def both_def)
  next
    case (Recover now out)
    have "both valid (snd (commit out (ro_recoverPending repo now) (mw_dbs m))) \<and>
        (\<forall>j \<in> set (mw_called m). both (held H j) (snd (commit out (ro_recoverPending repo now) (mw_dbs m))))"
      by (rule commit_keeps [OF _ I(1,3)]) (use recover_keeps I(1) in \<open>auto simp: both_def prod_eq_iff\<close>)
    then show ?thesis using Recover I(2) by (simp add: calls_inv_def)
  qed
qed

lemma run_calls_inv:
  assumes "calls_inv H m" "\<forall>a \<in> set actions. \<forall>now. action_time a = Some now \<longrightarrow> now < H \<and> H \<le> now + DURABLE_RESULT_TTL_MS"
  shows "calls_inv H (fold (act repo h) actions m)"
  using assms by (induction actions arbitrary: m) (simp_all add: act_inv)

end

section \<open>The receipts of the user database\<close>

definition user_receipts :: "user_db receipt_ops" where
  "user_receipts = \<lparr>ro_claim = receipt_claim, ro_complete = receipt_complete,
     ro_markIndeterminate = receipt_markIndeterminate, ro_recoverPending = receipt_recoverPending,
     ro_status = receipt_status\<rparr>"

definition receipts_valid :: "user_db \<Rightarrow> bool" where
  "receipts_valid db \<longleftrightarrow> t_keyed rr_operation_key (db_receipts db)"

definition outlives :: "timestamp \<Rightarrow> receipt_row \<Rightarrow> bool" where
  "outlives H r \<longleftrightarrow> rr_status r = RS_completed \<longrightarrow> (case rr_expires_at r of None \<Rightarrow> True | Some t \<Rightarrow> H \<le> t)"

definition receipt_held :: "timestamp \<Rightarrow> string \<Rightarrow> user_db \<Rightarrow> bool" where
  "receipt_held H k db \<longleftrightarrow> (case readReceipt db k of None \<Rightarrow> False | Some r \<Rightarrow> outlives H r)"

lemma readReceipt_prune:
  "receipts_valid db \<Longrightarrow> readReceipt (pruneExpired now db) k =
     (case readReceipt db k of Some r \<Rightarrow> if expired now r then None else Some r | None \<Rightarrow> None)"
  by (simp add: readReceipt_def pruneExpired_def receipts_valid_def t_find_delete)

lemma prune_valid: "receipts_valid db \<Longrightarrow> receipts_valid (pruneExpired now db)"
  by (simp add: receipts_valid_def pruneExpired_def)

lemma prune_held: "receipts_valid db \<Longrightarrow> now < H \<Longrightarrow> receipt_held H k db \<Longrightarrow> receipt_held H k (pruneExpired now db)"
  by (auto simp: receipt_held_def readReceipt_prune outlives_def expired_def split: option.splits)

lemma receipt_claim_cases:
  assumes "receipt_claim k meth fp now db = Inr (c, db')"
  shows "c \<noteq> Claim_execute \<and> db' = pruneExpired now db \<or>
    c = Claim_execute \<and> readReceipt (pruneExpired now db) k = None \<and>
    db' = (pruneExpired now db)\<lparr>db_receipts := db_receipts (pruneExpired now db) @
      [\<lparr>rr_operation_key = k, rr_method = meth, rr_request_fingerprint = Some fp, rr_status = RS_pending,
        rr_result_json = None, rr_created_at = now, rr_updated_at = now, rr_expires_at = None\<rparr>]\<rparr>"
  using assms
  by (auto simp: receipt_claim_def Let_def bind_result_Inr t_insert_def readReceipt_def
      split: option.splits if_splits receipt_state.splits)

lemma held_update:
  assumes "receipts_valid db" "\<And>r. rr_operation_key (f r) = rr_operation_key r" "\<And>r. outlives H (f r)"
    "receipt_held H k db"
  shows "receipt_held H k (db\<lparr>db_receipts := t_update p f (db_receipts db)\<rparr>)"
  using assms by (auto simp: receipt_held_def readReceipt_def t_find_update split: option.splits)

interpretation user_receipt_store: receipt_store user_receipts receipts_valid receipt_held
proof unfold_locales
  fix db H k now meth fp db'
  assume v: "receipts_valid db"
  show "ro_claim user_receipts k meth fp now db \<noteq> Inr (Claim_execute, db')" if "receipt_held H k db" "now < H"
    using receipt_claim_cases [of k meth fp now db Claim_execute db'] prune_held [OF v that(2,1)]
    by (auto simp: user_receipts_def receipt_held_def)
  show "receipt_held H k db'" if "ro_claim user_receipts k meth fp now db = Inr (Claim_execute, db')"
    using receipt_claim_cases [of k meth fp now db Claim_execute db'] that
    by (auto simp: user_receipts_def receipt_held_def readReceipt_def outlives_def)
next
  fix db H k k' now meth fp c db'
  assume v: "receipts_valid db" and "ro_claim user_receipts k' meth fp now db = Inr (c, db')"
  then have "receipt_claim k' meth fp now db = Inr (c, db')" by (simp add: user_receipts_def)
  from receipt_claim_cases [OF this] prune_valid [OF v, of now] prune_held [OF v, of now H k]
  show "receipts_valid db' \<and> (receipt_held H k db \<longrightarrow> now < H \<longrightarrow> receipt_held H k db')"
    by (auto simp: receipts_valid_def receipt_held_def readReceipt_def split: option.splits)
next
  fix db H k k' now meth fp outcome expires u db'
  assume v: "receipts_valid db" and "ro_complete user_receipts k' meth fp outcome now expires db = Inr (u, db')"
  then have db': "db' = db\<lparr>db_receipts := t_update (pending_receipt k' meth fp)
      (\<lambda>r. r\<lparr>rr_status := RS_completed, rr_result_json := Some (outcomeJson outcome),
        rr_updated_at := now, rr_expires_at := Some expires\<rparr>) (db_receipts db)\<rparr>"
    by (auto simp: user_receipts_def receipt_complete_def split: if_splits)
  show "receipts_valid db' \<and> (receipt_held H k db \<longrightarrow> H \<le> expires \<longrightarrow> receipt_held H k db')"
    using v unfolding db' by (auto simp: receipts_valid_def t_keyed_update intro!: held_update simp: outlives_def)
next
  fix db H k k' now meth fp u db'
  assume v: "receipts_valid db" and "ro_markIndeterminate user_receipts k' meth fp now db = Inr (u, db')"
  then have db': "db' = db\<lparr>db_receipts := t_update (pending_receipt k' meth fp)
      (\<lambda>r. r\<lparr>rr_status := RS_indeterminate, rr_result_json := None, rr_updated_at := now,
        rr_expires_at := None\<rparr>) (db_receipts db)\<rparr>"
    by (auto simp: user_receipts_def receipt_markIndeterminate_def split: if_splits)
  show "receipts_valid db' \<and> (receipt_held H k db \<longrightarrow> receipt_held H k db')"
    using v unfolding db' by (auto simp: receipts_valid_def t_keyed_update intro!: held_update simp: outlives_def)
next
  fix db H k now n db'
  assume v: "receipts_valid db" and "ro_recoverPending user_receipts now db = Inr (n, db')"
  then have db': "db' = db\<lparr>db_receipts := t_update (\<lambda>r. rr_status r = RS_pending)
      (\<lambda>r. r\<lparr>rr_status := RS_indeterminate, rr_updated_at := now, rr_expires_at := None\<rparr>) (db_receipts db)\<rparr>"
    by (auto simp: user_receipts_def receipt_recoverPending_def)
  show "receipts_valid db' \<and> (receipt_held H k db \<longrightarrow> receipt_held H k db')"
    using v unfolding db' by (auto simp: receipts_valid_def t_keyed_update intro!: held_update simp: outlives_def)
next
  fix db H k k' now x db'
  assume v: "receipts_valid db" and "ro_status user_receipts k' now db = Inr (x, db')"
  then have "db' = pruneExpired now db"
    by (auto simp: user_receipts_def receipt_status_def Let_def bind_result_Inr split: option.splits receipt_state.splits)
  then show "receipts_valid db' \<and> (receipt_held H k db \<longrightarrow> now < H \<longrightarrow> receipt_held H k db')"
    using prune_valid [OF v] prune_held [OF v] by simp
qed

section \<open>Properties\<close>

text \<open>
  Claim C1. A durable mutation is executed at most once: within the 24 hours that a receipt lives, for
  any number of concurrent and repeated calls, any interleaving of their phases, failing writes, status
  queries, crashes and recoveries, the handler is called at most once for each operation key.
\<close>

theorem durable_mutation_called_at_most_once:
  assumes "receipts_valid db"
    and "\<forall>a \<in> set actions. \<forall>now. action_time a = Some now \<longrightarrow> T \<le> now \<and> now < T + DURABLE_RESULT_TTL_MS"
  shows "distinct (mw_called (fold (act user_receipts h) actions
    \<lparr>mw_dbs = (db, db), mw_tasks = [], mw_called = []\<rparr>))"
proof -
  have "user_receipt_store.calls_inv (T + DURABLE_RESULT_TTL_MS) \<lparr>mw_dbs = (db, db), mw_tasks = [], mw_called = []\<rparr>"
    using assms(1) by (simp add: user_receipt_store.calls_inv_def user_receipt_store.both_def)
  from user_receipt_store.run_calls_inv [OF this, of actions h] assms(2) show ?thesis
    by (auto simp: user_receipt_store.calls_inv_def)
qed

text \<open>A claim for a key whose receipt is on record and has not expired is answered from it.\<close>

lemma claim_from_receipt:
  assumes "receipts_valid db" "readReceipt db (iv_operationKey iv) = Some row" "\<not> expired now row"
  shows "claim_phase user_receipts h iv now (Persisted b) (db, disk) =
    (if rr_method row \<noteq> iv_method iv \<or> rr_request_fingerprint row \<noteq> Some (durableFingerprint h iv)
     then (Finished (Inl keyReuseError), db, disk)
     else case rr_status row of
       RS_pending \<Rightarrow> (Finished (Inl pendingError), pruneExpired now db, pruneExpired now db)
     | RS_indeterminate \<Rightarrow> (Finished (Inl outcomeUnknownError), pruneExpired now db, pruneExpired now db)
     | RS_completed \<Rightarrow>
         (case rr_result_json row of
            None \<Rightarrow> (Finished (Inl (Error ''Completed mutation receipt has no result'')), db, disk)
          | Some json \<Rightarrow>
              (case parseStoredMutationOutcome json of
                 Inr outcome \<Rightarrow> (Finished (unwrapOutcome outcome), pruneExpired now db, pruneExpired now db)
               | Inl e \<Rightarrow> claim_phase user_receipts h iv now (Persisted b) (db, disk))))"
proof -
  have "readReceipt (pruneExpired now db) (iv_operationKey iv) = Some row"
    using assms by (simp add: readReceipt_prune)
  then show ?thesis
    by (auto simp: claim_phase_def commit_def user_receipts_def receipt_claim_def Let_def
        split: receipt_state.splits option.splits sum.splits)
qed

lemma claim_first:
  assumes "receipts_valid db" "claim_phase user_receipts h iv now out (db, disk) = (Continue ph, dbs)"
  obtains db' where "dbs = (db', db')" and "receipts_valid db'"
    and "readReceipt db' (iv_operationKey iv) =
      Some \<lparr>rr_operation_key = iv_operationKey iv, rr_method = iv_method iv,
        rr_request_fingerprint = Some (durableFingerprint h iv), rr_status = RS_pending,
        rr_result_json = None, rr_created_at = now, rr_updated_at = now, rr_expires_at = None\<rparr>"
proof -
  obtain db' where c: "receipt_claim (iv_operationKey iv) (iv_method iv) (durableFingerprint h iv) now db =
      Inr (Claim_execute, db')" and dbs: "dbs = (db', db')"
    using user_receipt_store.claim_phase_continue [OF assms(2)] by (auto simp: user_receipts_def)
  then show ?thesis
    using receipt_claim_cases [OF c] prune_valid [OF assms(1), of now] that [OF dbs]
    by (auto simp: receipts_valid_def readReceipt_def)
qed

lemma settle_completes:
  assumes "receipts_valid db" "readReceipt db (iv_operationKey iv) = Some row"
    "rr_method row = iv_method iv" "rr_request_fingerprint row = Some (durableFingerprint h iv)" "rr_status row = RS_pending"
  obtains db' where "settle_phase user_receipts h iv outcome now (Persisted b) (db, disk) =
      (Finished (unwrapOutcome outcome), db', db')" and "receipts_valid db'"
    and "readReceipt db' (iv_operationKey iv) = Some (row\<lparr>rr_status := RS_completed,
      rr_result_json := Some (outcomeJson outcome), rr_updated_at := now,
      rr_expires_at := Some (now + DURABLE_RESULT_TTL_MS)\<rparr>)"
proof -
  let ?p = "pending_receipt (iv_operationKey iv) (iv_method iv) (durableFingerprint h iv)"
  have key: "rr_operation_key row = iv_operationKey iv"
    using assms(2) by (auto simp: readReceipt_def dest: t_find_SomeD)
  have "t_count ?p (db_receipts db) = 1"
    using t_count_key [of rr_operation_key "db_receipts db" ?p "iv_operationKey iv"] assms key
    by (auto simp: receipts_valid_def readReceipt_def pending_receipt_def)
  then show ?thesis
    using assms key that [of "db\<lparr>db_receipts := t_update ?p (\<lambda>r. r\<lparr>rr_status := RS_completed,
        rr_result_json := Some (outcomeJson outcome), rr_updated_at := now,
        rr_expires_at := Some (now + DURABLE_RESULT_TTL_MS)\<rparr>) (db_receipts db)\<rparr>"]
    by (simp add: settle_phase_def commit_def user_receipts_def receipt_complete_def receipts_valid_def
        readReceipt_def t_find_update t_keyed_update pending_receipt_def)
qed

text \<open>A call that executed its handler and stored the outcome leaves the receipt that replays it.\<close>

lemma stored_after_execution:
  assumes "receipts_valid db" and "\<not> is_internal_error (captureOutcome handler)"
    and "executeDurable user_receipts h iv handler ((t1, Persisted b1), (t2, Persisted b2), t3) (db, disk) =
      (r, True, dbs)"
  obtains db2 row where "r = unwrapOutcome (captureOutcome handler)" and "dbs = (db2, db2)" and "receipts_valid db2"
    and "readReceipt db2 (iv_operationKey iv) = Some row" and "rr_method row = iv_method iv"
    and "rr_request_fingerprint row = Some (durableFingerprint h iv)" and "rr_status row = RS_completed"
    and "rr_result_json row = Some (outcomeJson (captureOutcome handler))"
    and "\<forall>t. t < t2 + DURABLE_RESULT_TTL_MS \<longrightarrow> \<not> expired t row"
proof -
  obtain t3a o3 where t3: "t3 = (t3a, o3)" by (cases t3)
  let ?o = "captureOutcome handler"
  obtain ph dbs1 where c: "claim_phase user_receipts h iv t1 (Persisted b1) (db, disk) = (Continue ph, dbs1)"
    using assms(3) t3 by (auto simp: executeDurable_def split: prod.splits progress.splits)
  obtain db1 where db1: "dbs1 = (db1, db1)" "receipts_valid db1"
    and row: "readReceipt db1 (iv_operationKey iv) =
      Some \<lparr>rr_operation_key = iv_operationKey iv, rr_method = iv_method iv,
        rr_request_fingerprint = Some (durableFingerprint h iv), rr_status = RS_pending,
        rr_result_json = None, rr_created_at = t1, rr_updated_at = t1, rr_expires_at = None\<rparr>"
    by (rule claim_first [OF assms(1) c])
  obtain db2 where s: "settle_phase user_receipts h iv ?o t2 (Persisted b2) (db1, db1) = (Finished (unwrapOutcome ?o), db2, db2)"
    and v2: "receipts_valid db2"
    and row2: "\<exists>row. readReceipt db2 (iv_operationKey iv) = Some row \<and> rr_method row = iv_method iv \<and>
      rr_request_fingerprint row = Some (durableFingerprint h iv) \<and> rr_status row = RS_completed \<and>
      rr_result_json row = Some (outcomeJson ?o) \<and> (\<forall>t. t < t2 + DURABLE_RESULT_TTL_MS \<longrightarrow> \<not> expired t row)"
    by (rule settle_completes [OF db1(2) row, of h ?o t2 b2 db1]) (auto simp: expired_def)
  have "r = unwrapOutcome ?o" and "dbs = (db2, db2)"
    using assms(2,3) c db1 s t3 by (auto simp: executeDurable_def execute_phase_def Let_def)
  with v2 row2 that show thesis by blast
qed

lemma replayed_claim:
  assumes "receipts_valid db" and "storable (captureOutcome handler)" and "\<not> is_internal_error (captureOutcome handler)"
    and "executeDurable user_receipts h iv handler ((t1, Persisted b1), (t2, Persisted b2), t3) (db, disk) =
      (r, True, dbs)"
    and "t < t2 + DURABLE_RESULT_TTL_MS"
  shows "r = unwrapOutcome (captureOutcome handler) \<and>
    (\<exists>dbs'. executeDurable user_receipts h iv handler' ((t, Persisted b), t2', t3') dbs = (r, False, dbs')) \<and>
    (iv_operationKey iv' = iv_operationKey iv \<and>
       (iv_method iv' \<noteq> iv_method iv \<or> durableFingerprint h iv' \<noteq> durableFingerprint h iv) \<longrightarrow>
     executeDurable user_receipts h iv' handler' ((t, Persisted b), t2', t3') dbs = (Inl keyReuseError, False, dbs))"
proof -
  obtain t2a o2' t3b o3' where t': "t2' = (t2a, o2')" "t3' = (t3b, o3')" by (cases t2'; cases t3')
  let ?o = "captureOutcome handler"
  obtain db2 row where r: "r = unwrapOutcome ?o" and dbs: "dbs = (db2, db2)" and v2: "receipts_valid db2"
    and row: "readReceipt db2 (iv_operationKey iv) = Some row" "rr_method row = iv_method iv"
      "rr_request_fingerprint row = Some (durableFingerprint h iv)" "rr_status row = RS_completed"
      "rr_result_json row = Some (outcomeJson ?o)"
    and live: "\<forall>t. t < t2 + DURABLE_RESULT_TTL_MS \<longrightarrow> \<not> expired t row"
    by (rule stored_after_execution [OF assms(1,3,4)])
  have live': "\<not> expired t row" using live assms(5) by blast
  have parse: "parseStoredMutationOutcome (outcomeJson ?o) = Inr ?o"
    using stored_outcome_round_trip [OF assms(2)] .
  have again: "claim_phase user_receipts h iv t (Persisted b) dbs =
      (Finished (unwrapOutcome ?o), pruneExpired t db2, pruneExpired t db2)"
    using claim_from_receipt [OF v2 row(1) live' , of h b db2] row parse dbs by simp
  have reuse: "claim_phase user_receipts h iv' t (Persisted b) dbs = (Finished (Inl keyReuseError), dbs)"
    if "iv_operationKey iv' = iv_operationKey iv"
      "iv_method iv' \<noteq> iv_method iv \<or> durableFingerprint h iv' \<noteq> durableFingerprint h iv"
    using claim_from_receipt [OF v2, of iv' row t h b db2] row live'  that dbs by auto
  show ?thesis
    using r again reuse t' by (auto simp: executeDurable_def)
qed


text \<open>
  A crash between the claim and the stored outcome never leads to a second execution: once the
  pending receipts are recovered, every later call with the key is told that the outcome is unknown, and
  its handler is not called.
\<close>

theorem crash_leaves_outcome_unknown:
  assumes "receipts_valid db"
    and "claim_phase user_receipts h iv t1 out (db, disk) = (Continue ph, dbs1)"
    and "commit (Persisted b2) (receipt_recoverPending t2) (snd dbs1, snd dbs1) = (n, dbs2)"
  shows "fst (executeDurable user_receipts h iv handler ((t, Persisted b), t2', t3') dbs2) = Inl outcomeUnknownError \<and>
    \<not> fst (snd (executeDurable user_receipts h iv handler ((t, Persisted b), t2', t3') dbs2))"
proof -
  obtain t2a o2' t3b o3' where t': "t2' = (t2a, o2')" "t3' = (t3b, o3')" by (cases t2'; cases t3')
  obtain db1 where db1: "dbs1 = (db1, db1)" "receipts_valid db1"
    and row: "readReceipt db1 (iv_operationKey iv) =
      Some \<lparr>rr_operation_key = iv_operationKey iv, rr_method = iv_method iv,
        rr_request_fingerprint = Some (durableFingerprint h iv), rr_status = RS_pending,
        rr_result_json = None, rr_created_at = t1, rr_updated_at = t1, rr_expires_at = None\<rparr>"
    by (rule claim_first [OF assms(1,2)])
  define db2 where "db2 = db1\<lparr>db_receipts := t_update (\<lambda>r. rr_status r = RS_pending)
      (\<lambda>r. r\<lparr>rr_status := RS_indeterminate, rr_updated_at := t2, rr_expires_at := None\<rparr>) (db_receipts db1)\<rparr>"
  have dbs2: "dbs2 = (db2, db2)"
    using assms(3) db1 by (auto simp: commit_def receipt_recoverPending_def db2_def)
  have v2: "receipts_valid db2" using db1(2) by (simp add: db2_def receipts_valid_def t_keyed_update)
  have "\<exists>row. readReceipt db2 (iv_operationKey iv) = Some row \<and> rr_method row = iv_method iv \<and>
      rr_request_fingerprint row = Some (durableFingerprint h iv) \<and> rr_status row = RS_indeterminate"
    using row by (simp add: db2_def readReceipt_def t_find_update)
  then obtain row2 where row2: "readReceipt db2 (iv_operationKey iv) = Some row2" "rr_method row2 = iv_method iv"
      "rr_request_fingerprint row2 = Some (durableFingerprint h iv)" "rr_status row2 = RS_indeterminate" by blast
  have "\<not> expired t row2" using row2(4) by (simp add: expired_def)
  from claim_from_receipt [OF v2 row2(1) this, of h b db2] row2(2-4)
  have "claim_phase user_receipts h iv t (Persisted b) dbs2 =
      (Finished (Inl outcomeUnknownError), pruneExpired t db2, pruneExpired t db2)"
    by (simp add: dbs2)
  then show ?thesis using t' by (auto simp: executeDurable_def)
qed

section \<open>Ephemeral mutations\<close>

text \<open>
  An entry of \<open>#ephemeral\<close>; entries are objects compared by identity and are numbered. \<open>ee_outcome\<close> is
  what the promise resolved to. The map keeps its insertion order, oldest first.
\<close>

record ephemeral_entry =
  ee_id :: nat
  ee_fingerprint :: string
  ee_outcome :: "stored_outcome option"
  ee_expiresAt :: "timestamp option"

record ephemeral_map =
  em_entries :: "(string \<times> ephemeral_entry) list"
  em_next :: nat
  em_limit :: nat

definition ephemeral_new :: "int \<Rightarrow> ce_error + ephemeral_map" where
  "ephemeral_new limit =
     (if \<not> safe_integer limit \<or> limit < 1 then Inl (Error ''Ephemeral mutation limit must be positive'')
      else Inr \<lparr>em_entries = [], em_next = 0, em_limit = nat limit\<rparr>)"

definition ephemeral_key :: "invocation \<Rightarrow> string" where
  "ephemeral_key iv = ''ephemeral'' @ [CHR 0x00] @ iv_operationKey iv"

definition map_delete :: "'k \<Rightarrow> ('k \<times> 'v) list \<Rightarrow> ('k \<times> 'v) list" where
  "map_delete k m = filter (\<lambda>e. fst e \<noteq> k) m"

definition touchEphemeral :: "'k \<Rightarrow> 'v \<Rightarrow> ('k \<times> 'v) list \<Rightarrow> ('k \<times> 'v) list" where
  "touchEphemeral k v m = map_delete k m @ [(k, v)]"

text \<open>The loop that makes room: the oldest entry is deleted while the map is full.\<close>

fun evict :: "nat \<Rightarrow> 'e list \<Rightarrow> 'e list" where
  "evict limit [] = []"
| "evict limit (e # es) = (if length (e # es) \<ge> limit then evict limit es else e # es)"

datatype ephemeral_start = E_reuse ce_error | E_join nat | E_execute nat

definition begin_ephemeral ::
  "hashing \<Rightarrow> invocation \<Rightarrow> timestamp \<Rightarrow> ephemeral_map \<Rightarrow> ephemeral_start \<times> ephemeral_map" where
  "begin_ephemeral h iv now m =
     (let k = ephemeral_key iv; fp = ephemeralFingerprint h iv;
          stale = (case map_of (em_entries m) k of
                     Some e \<Rightarrow> (case ee_expiresAt e of Some t \<Rightarrow> t \<le> now | None \<Rightarrow> False)
                   | None \<Rightarrow> False);
          es = (if stale then map_delete k (em_entries m) else em_entries m)
      in case map_of es k of
           Some e \<Rightarrow>
             if ee_fingerprint e \<noteq> fp then (E_reuse keyReuseError, m\<lparr>em_entries := es\<rparr>)
             else (E_join (ee_id e), m\<lparr>em_entries := touchEphemeral k e es\<rparr>)
         | None \<Rightarrow>
             (let i = em_next m in
              (E_execute i, m\<lparr>em_next := Suc i, em_entries := evict (em_limit m) es @
                 [(k, \<lparr>ee_id = i, ee_fingerprint = fp, ee_outcome = None, ee_expiresAt = None\<rparr>)]\<rparr>)))"

text \<open>The handler of entry \<open>i\<close> has ended: its promise resolves, and if the map still has the entry it is
  kept for another five minutes as the most recent one.\<close>

definition settle_ephemeral ::
  "invocation \<Rightarrow> nat \<Rightarrow> ce_error + js \<Rightarrow> timestamp \<Rightarrow> ephemeral_map \<Rightarrow> ephemeral_map" where
  "settle_ephemeral iv i handler now m =
     (case map_of (em_entries m) (ephemeral_key iv) of
        None \<Rightarrow> m
      | Some e \<Rightarrow>
          if ee_id e = i
          then m\<lparr>em_entries := touchEphemeral (ephemeral_key iv)
                 (e\<lparr>ee_outcome := Some (captureOutcome handler),
                     ee_expiresAt := Some (now + EPHEMERAL_RESULT_TTL_MS)\<rparr>) (em_entries m)\<rparr>
          else m)"

datatype ephemeral_op = E_begin invocation timestamp | E_settle invocation nat "ce_error + js" timestamp

fun ephemeral_step :: "hashing \<Rightarrow> ephemeral_op \<Rightarrow> ephemeral_map \<Rightarrow> ephemeral_map" where
  "ephemeral_step h (E_begin iv now) m = snd (begin_ephemeral h iv now m)"
| "ephemeral_step h (E_settle iv i handler now) m = settle_ephemeral iv i handler now m"

definition ephemeral_inv :: "ephemeral_map \<Rightarrow> bool" where
  "ephemeral_inv m \<longleftrightarrow> distinct (map fst (em_entries m)) \<and> length (em_entries m) \<le> em_limit m \<and> 0 < em_limit m"

lemma evict_set: "set (evict limit es) \<subseteq> set es"
  by (induction es) auto

lemma evict_distinct: "distinct (map fst es) \<Longrightarrow> distinct (map fst (evict limit es))"
  by (induction es) auto

lemma evict_room: "0 < limit \<Longrightarrow> length (evict limit es) < limit"
  by (induction es) auto

lemma distinct_map_delete: "distinct (map fst m) \<Longrightarrow> distinct (map fst (map_delete k m))"
  by (simp add: map_delete_def distinct_map_filter)

lemma length_touch: "map_of m k \<noteq> None \<Longrightarrow> length (touchEphemeral k v m) \<le> length m"
proof (induction m)
  case (Cons e m)
  then show ?case
    using length_filter_le [of "\<lambda>e. fst e \<noteq> k" m]
    by (cases "fst e = k") (auto simp: touchEphemeral_def map_delete_def)
qed simp

lemma distinct_touch: "distinct (map fst m) \<Longrightarrow> distinct (map fst (touchEphemeral k v m))"
  by (auto simp: touchEphemeral_def distinct_map_delete) (simp add: map_delete_def)

lemma length_map_delete: "length (map_delete k m) \<le> length m"
  by (simp add: map_delete_def)

lemma begin_ephemeral_inv:
  assumes "ephemeral_inv m"
  shows "ephemeral_inv (snd (begin_ephemeral h iv now m))"
proof -
  define k where "k = ephemeral_key iv"
  define es where "es = (if (case map_of (em_entries m) k of
      Some e \<Rightarrow> (case ee_expiresAt e of Some t \<Rightarrow> t \<le> now | None \<Rightarrow> False) | None \<Rightarrow> False)
    then map_delete k (em_entries m) else em_entries m)"
  have es: "distinct (map fst es)" "length es \<le> em_limit m"
    using assms length_map_delete [of k "em_entries m"] distinct_map_delete
    by (auto simp: es_def ephemeral_inv_def)
  show ?thesis
  proof (cases "map_of es k")
    case (Some e)
    then show ?thesis
      using assms es length_touch [of es k e] distinct_touch [of es k e]
      by (auto simp: begin_ephemeral_def Let_def k_def [symmetric] es_def [symmetric] ephemeral_inv_def)
  next
    case None
    have "distinct (map fst (evict (em_limit m) es))" "k \<notin> fst ` set (evict (em_limit m) es)"
      using evict_distinct [OF es(1)] evict_set [of "em_limit m" es] None by (auto simp: map_of_eq_None_iff)
    then show ?thesis
      using assms None evict_room [of "em_limit m" es]
      by (auto simp: begin_ephemeral_def Let_def k_def [symmetric] es_def [symmetric] ephemeral_inv_def)
  qed
qed

lemma settle_ephemeral_inv: "ephemeral_inv m \<Longrightarrow> ephemeral_inv (settle_ephemeral iv i handler now m)"
proof (cases "map_of (em_entries m) (ephemeral_key iv)")
  case (Some e)
  then have "length (touchEphemeral (ephemeral_key iv) e' (em_entries m)) \<le> length (em_entries m)" for e'
    by (intro length_touch) simp
  then show "ephemeral_inv m \<Longrightarrow> ?thesis"
    using Some by (auto simp: settle_ephemeral_def ephemeral_inv_def distinct_touch intro: le_trans)
qed (simp add: settle_ephemeral_def)

text \<open>
  The memory of ephemeral mutations is bounded: whatever calls arrive and end, the map has one
  entry per operation key and never more entries than its limit.
\<close>

theorem ephemeral_map_bounded:
  assumes "ephemeral_new limit = Inr m"
  shows "let m' = fold (ephemeral_step h) ops m
    in length (em_entries m') \<le> nat limit \<and> distinct (map fst (em_entries m'))"
proof -
  have "ephemeral_inv m \<Longrightarrow> ephemeral_inv (fold (ephemeral_step h) ops m) \<and>
      em_limit (fold (ephemeral_step h) ops m) = em_limit m" for m
  proof (induction ops arbitrary: m)
    case (Cons op ops)
    have "em_limit (ephemeral_step h op m) = em_limit m"
      by (cases op) (auto simp: begin_ephemeral_def settle_ephemeral_def Let_def split: option.splits)
    moreover have "ephemeral_inv (ephemeral_step h op m)"
      using Cons.prems begin_ephemeral_inv settle_ephemeral_inv by (cases op) simp_all
    ultimately show ?case using Cons.IH by simp
  qed simp
  moreover have "ephemeral_inv m" "em_limit m = nat limit"
    using assms by (auto simp: ephemeral_new_def ephemeral_inv_def split: if_splits)
  ultimately show ?thesis unfolding Let_def ephemeral_inv_def by metis
qed

section \<open>Witnesses\<close>

definition example_hashing :: hashing where
  "example_hashing = \<lparr>hs_le = (\<lambda>a b. a \<le> b), hs_digest = (\<lambda>s. s)\<rparr>"

definition example_invocation :: invocation where
  "example_invocation = \<lparr>iv_principalId = ''user'', iv_operationKey = ''op-1'', iv_method = ''queue/add'',
     iv_input = JObj [(''text'', JStr ''hello'')], iv_idempotency = Durable\<rparr>"

lemma empty_receipts_valid: "receipts_valid (empty_user_db now)"
  by (simp add: receipts_valid_def empty_user_db_def)

theorem durable_mutation_called_at_most_once_witness:
  "distinct (mw_called (fold (act user_receipts example_hashing)
     [Arrive example_invocation, Phase 0 5 (Persisted True) (Inr JNull), Crash, Recover 6 (Persisted False),
      Arrive example_invocation, Phase 0 7 FailedBeforeRename (Inr JNull)]
     \<lparr>mw_dbs = (empty_user_db 0, empty_user_db 0), mw_tasks = [], mw_called = []\<rparr>))"
  by (rule durable_mutation_called_at_most_once [OF empty_receipts_valid, of _ 0])
    (simp add: DURABLE_RESULT_TTL_MS_def)


theorem crash_leaves_outcome_unknown_witness:
  "\<exists>dbs. fst (executeDurable user_receipts example_hashing example_invocation (Inr JNull)
      ((9, Persisted True), (9, Persisted True), (9, Persisted True)) dbs) = Inl outcomeUnknownError"
proof -
  let ?c = "claim_phase user_receipts example_hashing example_invocation 5 (Persisted True) (empty_user_db 0, empty_user_db 0)"
  have "case fst ?c of Continue ph \<Rightarrow> True | Finished r \<Rightarrow> False"
    by code_simp
  then obtain ph dbs1 where c: "?c = (Continue ph, dbs1)"
    by (cases ?c; cases "fst ?c") auto
  obtain n dbs2 where r: "commit (Persisted True) (receipt_recoverPending 6) (snd dbs1, snd dbs1) = (n, dbs2)"
    by (metis prod.collapse)
  from crash_leaves_outcome_unknown [OF empty_receipts_valid c r] show ?thesis by blast
qed

theorem ephemeral_map_bounded_witness:
  "let m' = fold (ephemeral_step example_hashing)
      [E_begin example_invocation 1, E_begin (example_invocation\<lparr>iv_operationKey := ''op-2''\<rparr>) 2]
      \<lparr>em_entries = [], em_next = 0, em_limit = 1\<rparr>
   in length (em_entries m') \<le> nat 1 \<and> distinct (map fst (em_entries m'))"
  by (rule ephemeral_map_bounded) (simp add: ephemeral_new_def safe_integer_def MAX_SAFE_INTEGER_def)

end
