(* ===== verification/Workspace_Repository.thy ===== *)
theory Workspace_Repository
  imports User_Db
begin

text \<open>
  The workspaces a user has authorized (\<open>apps/agent/src/v2/repositories/workspace-repository.ts\<close>) and the
  side chats that live in them (\<open>side-chat-repository.ts\<close>). Every change of the set of workspaces
  increments the authorization revision, by which caches of the roots are validated.
\<close>

section \<open>Workspaces\<close>

record workspace_record =
  wr_id :: string
  wr_path :: string
  wr_label :: string
  wr_createdAt :: timestamp
  wr_revision :: int
  wr_isDefault :: bool

definition readDefaultId :: "user_db \<Rightarrow> ce_error + string option" where
  "readDefaultId db =
     (case db_metadata db of
        None \<Rightarrow> Inl (Error ''User metadata is missing'')
      | Some md \<Rightarrow> Inr (md_default_workspace_id md))"

definition parseWorkspace :: "string option \<Rightarrow> workspace_row \<Rightarrow> ce_error + workspace_record" where
  "parseWorkspace defaultId row =
     bind_result (sql_integer (wk_revision row) ''workspace revision'') (\<lambda>revision.
       Inr \<lparr>wr_id = wk_id row, wr_path = wk_path row, wr_label = wk_label row,
            wr_createdAt = wk_created_at row, wr_revision = revision,
            wr_isDefault = (Some (wk_id row) = defaultId)\<rparr>)"

definition readWorkspaces :: "user_db \<Rightarrow> ce_error + workspace_record list" where
  "readWorkspaces db =
     bind_result (readDefaultId db) (\<lambda>defaultId.
       map_result (parseWorkspace defaultId) (sort_key wk_path (db_workspaces db)))"

definition readWorkspace :: "user_db \<Rightarrow> string \<Rightarrow> ce_error + workspace_record option" where
  "readWorkspace db i =
     (case t_find wk_id i (db_workspaces db) of
        None \<Rightarrow> Inr None
      | Some row \<Rightarrow> bind_result (readDefaultId db) (\<lambda>defaultId.
          bind_result (parseWorkspace defaultId row) (\<lambda>w. Inr (Some w))))"

definition readWorkspaceByPath :: "user_db \<Rightarrow> string \<Rightarrow> ce_error + workspace_record option" where
  "readWorkspaceByPath db path =
     (case t_find wk_path path (db_workspaces db) of
        None \<Rightarrow> Inr None
      | Some row \<Rightarrow> bind_result (readDefaultId db) (\<lambda>defaultId.
          bind_result (parseWorkspace defaultId row) (\<lambda>w. Inr (Some w))))"

definition requiredWorkspace :: "user_db \<Rightarrow> string \<Rightarrow> ce_error + workspace_record" where
  "requiredWorkspace db i =
     bind_result (readWorkspace db i) (\<lambda>w. case w of
       None \<Rightarrow> Inl (Error ''Workspace disappeared'') | Some workspace \<Rightarrow> Inr workspace)"

definition incrementAuthorizationRevision :: "user_db \<Rightarrow> ce_error + int \<times> user_db" where
  "incrementAuthorizationRevision db =
     (case db_metadata db of
        None \<Rightarrow> Inl (Error ''User metadata is missing'')
      | Some md \<Rightarrow>
          let revision = md_workspace_authorization_revision md + 1 in
          bind_result (sql_integer revision ''workspace authorization revision'') (\<lambda>r.
            Inr (r, db\<lparr>db_metadata := Some (md\<lparr>md_workspace_authorization_revision := revision\<rparr>)\<rparr>)))"

definition set_default :: "string option \<Rightarrow> user_db \<Rightarrow> user_db" where
  "set_default d db = db\<lparr>db_metadata := map_option (\<lambda>md. md\<lparr>md_default_workspace_id := d\<rparr>) (db_metadata db)\<rparr>"

definition workspace_list :: "user_db \<Rightarrow> ce_error + workspace_record list" where
  "workspace_list db = readWorkspaces db"

definition authorizationSnapshot :: "user_db \<Rightarrow> ce_error + int \<times> string list" where
  "authorizationSnapshot db =
     (case db_metadata db of
        None \<Rightarrow> Inl (Error ''User metadata is missing'')
      | Some md \<Rightarrow>
          bind_result (sql_integer (md_workspace_authorization_revision md) ''workspace authorization revision'')
            (\<lambda>revision. bind_result (readWorkspaces db) (\<lambda>ws. Inr (revision, map wr_path ws))))"

definition insert_workspace :: "workspace_row \<Rightarrow> user_db \<Rightarrow> ce_error + user_db" where
  "insert_workspace row db =
     (if t_find wk_path (wk_path row) (db_workspaces db) \<noteq> None
      then Inl (SqlConstraint ''UNIQUE constraint failed: workspaces.path'')
      else bind_result (t_insert wk_id ''workspaces.id'' row (db_workspaces db))
        (\<lambda>rows. Inr (db\<lparr>db_workspaces := rows\<rparr>)))"

definition workspace_add ::
  "string \<Rightarrow> string \<Rightarrow> string \<Rightarrow> timestamp \<Rightarrow> (user_db, workspace_record) tx" where
  "workspace_add i path label now db =
     bind_result (readWorkspaceByPath db path) (\<lambda>found. case found of
       Some existing \<Rightarrow> Inr (existing, db)
     | None \<Rightarrow>
         bind_result (incrementAuthorizationRevision db) (\<lambda>(revision, db1).
         bind_result (insert_workspace \<lparr>wk_id = i, wk_path = path, wk_label = label,
             wk_created_at = now, wk_revision = revision\<rparr> db1) (\<lambda>db2.
         bind_result (readDefaultId db2) (\<lambda>defaultId.
           let db3 = (if defaultId = None then set_default (Some i) db2 else db2) in
           bind_result (requiredWorkspace db3 i) (\<lambda>w. Inr (w, db3))))))"

definition workspace_in_use :: "user_db \<Rightarrow> string \<Rightarrow> string \<Rightarrow> bool" where
  "workspace_in_use db i path \<longleftrightarrow>
     (\<exists>q \<in> set (db_queue_items db). qi_workspace_path q = path \<and> qi_status q \<noteq> QS_completed) \<or>
     (\<exists>sc \<in> set (db_side_chats db). sd_workspace_id sc = i)"

definition workspace_remove :: "string \<Rightarrow> int \<Rightarrow> (user_db, bool) tx" where
  "workspace_remove i expectedRevision db =
     bind_result (readWorkspace db i) (\<lambda>found. case found of
       None \<Rightarrow> Inr (False, db)
     | Some current \<Rightarrow>
         if wr_revision current \<noteq> expectedRevision then Inl (WorkspaceRevisionConflictError i)
         else if workspace_in_use db i (wr_path current) then Inl (WorkspaceInUseError i)
         else let selected = (\<lambda>r. wk_id r = i \<and> wk_revision r = expectedRevision) in
           if t_count selected (db_workspaces db) \<noteq> 1 then Inl (WorkspaceRevisionConflictError i)
           else bind_result (incrementAuthorizationRevision
               (db\<lparr>db_workspaces := t_delete selected (db_workspaces db)\<rparr>)) (\<lambda>(_, db1).
             bind_result (readDefaultId db1) (\<lambda>defaultId.
               Inr (True,
                 if defaultId = Some i
                 then set_default (case sort_key wk_path (db_workspaces db1) of
                        [] \<Rightarrow> None | first # _ \<Rightarrow> Some (wk_id first)) db1
                 else db1))))"

definition workspace_defaultId :: "user_db \<Rightarrow> ce_error + string option" where
  "workspace_defaultId db = readDefaultId db"

definition workspace_setDefault :: "string \<Rightarrow> (user_db, string) tx" where
  "workspace_setDefault i db =
     bind_result (readWorkspace db i) (\<lambda>found. case found of
       None \<Rightarrow> Inl (WorkspaceRevisionConflictError i)
     | Some _ \<Rightarrow>
         if db_metadata db = None then Inl (Error ''User metadata is missing'')
         else Inr (i, set_default (Some i) db))"

section \<open>Side chats\<close>

definition readSideChats :: "user_db \<Rightarrow> side_chat_row list" where
  "readSideChats db = sort_key (\<lambda>r. (sd_created_at r, sd_parent_thread_id r)) (db_side_chats db)"

text \<open>
  The upsert: an existing row of the parent thread keeps its workspace. The thread id is UNIQUE, NULLs
  apart.
\<close>

definition writeSideChat :: "side_chat_row \<Rightarrow> user_db \<Rightarrow> ce_error + user_db" where
  "writeSideChat row db =
     (if (\<exists>r \<in> set (db_side_chats db). sd_thread_id r \<noteq> None \<and> sd_thread_id r = sd_thread_id row \<and>
            sd_parent_thread_id r \<noteq> sd_parent_thread_id row)
      then Inl (SqlConstraint ''UNIQUE constraint failed: side_chats.thread_id'')
      else if t_find sd_parent_thread_id (sd_parent_thread_id row) (db_side_chats db) = None
      then Inr (db\<lparr>db_side_chats := db_side_chats db @ [row]\<rparr>)
      else Inr (db\<lparr>db_side_chats := t_update (\<lambda>r. sd_parent_thread_id r = sd_parent_thread_id row)
             (\<lambda>r. row\<lparr>sd_workspace_id := sd_workspace_id r\<rparr>) (db_side_chats db)\<rparr>))"

definition sideChat_read :: "string \<Rightarrow> user_db \<Rightarrow> side_chat_row option" where
  "sideChat_read parent db = t_find sd_parent_thread_id parent (readSideChats db)"

definition sideChat_forThread :: "string \<Rightarrow> user_db \<Rightarrow> side_chat_row option" where
  "sideChat_forThread thread db = t_find sd_thread_id (Some thread) (readSideChats db)"

definition sideChat_claim :: "side_chat_row \<Rightarrow> (user_db, bool) tx" where
  "sideChat_claim row db =
     (if t_find wk_id (sd_workspace_id row) (db_workspaces db) = None then Inr (False, db)
      else bind_result (writeSideChat row db) (\<lambda>db1. Inr (True, db1)))"

definition sideChat_save :: "side_chat_row \<Rightarrow> (user_db, unit) tx" where
  "sideChat_save row db = bind_result (writeSideChat row db) (\<lambda>db1. Inr ((), db1))"

definition sideChat_remove :: "string \<Rightarrow> (user_db, unit) tx" where
  "sideChat_remove parent db =
     Inr ((), db\<lparr>db_side_chats := t_delete (\<lambda>r. sd_parent_thread_id r = parent) (db_side_chats db)\<rparr>)"

definition sideChat_recover :: "(user_db, unit) tx" where
  "sideChat_recover db =
     Inr ((), db\<lparr>db_side_chats := t_update (\<lambda>r. sd_status r \<in> {SC_creating, SC_deleting})
       (\<lambda>r. r\<lparr>sd_status := SC_indeterminate\<rparr>) (db_side_chats db)\<rparr>)"

section \<open>Calls in sequence\<close>

datatype workspace_op =
    WAdd string string string timestamp
  | WRemove string int
  | WSetDefault string
  | SClaim side_chat_row
  | SSave side_chat_row
  | SRemove string
  | SRecover

fun workspace_exec :: "workspace_op \<Rightarrow> user_db \<Rightarrow> user_db" where
  "workspace_exec (WAdd i path label now) db = snd (run_tx (workspace_add i path label now) db)"
| "workspace_exec (WRemove i revision) db = snd (run_tx (workspace_remove i revision) db)"
| "workspace_exec (WSetDefault i) db = snd (run_tx (workspace_setDefault i) db)"
| "workspace_exec (SClaim row) db = snd (run_tx (sideChat_claim row) db)"
| "workspace_exec (SSave row) db = snd (run_tx (sideChat_save row) db)"
| "workspace_exec (SRemove parent) db = snd (run_tx (sideChat_remove parent) db)"
| "workspace_exec SRecover db = snd (run_tx sideChat_recover db)"

definition workspace_run :: "workspace_op list \<Rightarrow> user_db \<Rightarrow> user_db" where
  "workspace_run ops db = fold workspace_exec ops db"

text \<open>
  The invariant: ids and paths are unique, and there is a default workspace exactly when there is a
  workspace at all, and it is one of them.
\<close>

definition auth_revision :: "user_db \<Rightarrow> int" where
  "auth_revision db = (case db_metadata db of Some md \<Rightarrow> md_workspace_authorization_revision md | None \<Rightarrow> 0)"

definition default_id :: "user_db \<Rightarrow> string option" where
  "default_id db = Option.bind (db_metadata db) md_default_workspace_id"

definition workspace_inv :: "user_db \<Rightarrow> bool" where
  "workspace_inv db \<longleftrightarrow>
     db_metadata db \<noteq> None \<and> t_keyed wk_id (db_workspaces db) \<and> t_keyed wk_path (db_workspaces db) \<and>
     (case default_id db of None \<Rightarrow> db_workspaces db = [] | Some d \<Rightarrow> d \<in> wk_id ` set (db_workspaces db))"

section \<open>The effect of the operations\<close>

lemma set_default_simps [simp]:
  "db_workspaces (set_default d db) = db_workspaces db" "db_side_chats (set_default d db) = db_side_chats db"
  "auth_revision (set_default d db) = auth_revision db"
  "db_metadata (set_default d db) = map_option (\<lambda>md. md\<lparr>md_default_workspace_id := d\<rparr>) (db_metadata db)"
  by (simp_all add: set_default_def auth_revision_def split: option.splits)

lemma set_default_id: "db_metadata db \<noteq> None \<Longrightarrow> default_id (set_default d db) = d"
  by (auto simp: set_default_def default_id_def)

lemma increment_effect:
  assumes "incrementAuthorizationRevision db = Inr (r, db')"
  shows "r = auth_revision db + 1" "auth_revision db' = auth_revision db + 1" "default_id db' = default_id db"
    "db_workspaces db' = db_workspaces db" "db_side_chats db' = db_side_chats db" "db_metadata db' \<noteq> None"
  using assms
  by (auto simp: incrementAuthorizationRevision_def Let_def bind_result_Inr sql_integer_def auth_revision_def
      default_id_def split: option.splits if_splits)

lemma add_effect:
  assumes "workspace_add i path label now db = Inr (w, db')"
  shows "db' = db \<or> (\<exists>row. wk_id row = i \<and> wk_path row = path \<and> t_find wk_path path (db_workspaces db) = None \<and>
    t_find wk_id i (db_workspaces db) = None \<and> db_workspaces db' = db_workspaces db @ [row] \<and>
    auth_revision db' = auth_revision db + 1 \<and> db_side_chats db' = db_side_chats db \<and> db_metadata db' \<noteq> None \<and>
    default_id db' = (case default_id db of None \<Rightarrow> Some i | Some d \<Rightarrow> Some d))"
proof (cases "readWorkspaceByPath db path = Inr None")
  case True
  then have path: "t_find wk_path path (db_workspaces db) = None"
    by (auto simp: readWorkspaceByPath_def bind_result_Inr split: option.splits)
  from assms True obtain r db1 db2 d where inc: "incrementAuthorizationRevision db = Inr (r, db1)"
    and ins: "insert_workspace \<lparr>wk_id = i, wk_path = path, wk_label = label, wk_created_at = now, wk_revision = r\<rparr> db1 = Inr db2"
    and d: "readDefaultId db2 = Inr d" and db': "db' = (if d = None then set_default (Some i) db2 else db2)"
    by (auto simp: workspace_add_def bind_result_Inr Let_def)
  note E = increment_effect [OF inc]
  have db2: "db2 = db1\<lparr>db_workspaces := db_workspaces db @ [\<lparr>wk_id = i, wk_path = path, wk_label = label,
      wk_created_at = now, wk_revision = r\<rparr>]\<rparr>" and fresh: "t_find wk_id i (db_workspaces db) = None"
    using ins E(4) by (auto simp: insert_workspace_def bind_result_Inr t_insert_def split: if_splits)
  have "d = default_id db"
    using d E(3,6) by (auto simp: readDefaultId_def db2 default_id_def)
  moreover have "default_id db2 = default_id db" "auth_revision db2 = auth_revision db1" "db_metadata db2 \<noteq> None"
    using E(3,6) by (auto simp: db2 default_id_def auth_revision_def)
  ultimately show ?thesis
    using path fresh E db' by (auto simp: db2 set_default_id split: option.splits)
next
  case False
  then show ?thesis using assms by (auto simp: workspace_add_def bind_result_Inr split: option.splits)
qed

lemma remove_effect:
  assumes "workspace_remove i revision db = Inr (b, db')"
  shows "\<not> b \<and> db' = db \<or> b \<and> (\<exists>row. t_find wk_id i (db_workspaces db) = Some row \<and>
    \<not> workspace_in_use db i (wk_path row) \<and>
    db_workspaces db' = t_delete (\<lambda>r. wk_id r = i \<and> wk_revision r = revision) (db_workspaces db) \<and>
    wk_revision row = revision \<and> auth_revision db' = auth_revision db + 1 \<and> db_side_chats db' = db_side_chats db \<and>
    db_metadata db' \<noteq> None \<and>
    default_id db' = (if default_id db = Some i
      then (case sort_key wk_path (db_workspaces db') of [] \<Rightarrow> None | first # _ \<Rightarrow> Some (wk_id first))
      else default_id db))"
proof (cases "readWorkspace db i = Inr None")
  case True
  then show ?thesis using assms by (auto simp: workspace_remove_def)
next
  case False
  define p where "p = (\<lambda>r :: workspace_row. wk_id r = i \<and> wk_revision r = revision)"
  from assms False obtain cur r db1 d where cur: "readWorkspace db i = Inr (Some cur)" "wr_revision cur = revision"
      "\<not> workspace_in_use db i (wr_path cur)"
    and inc: "incrementAuthorizationRevision (db\<lparr>db_workspaces := t_delete p (db_workspaces db)\<rparr>) = Inr (r, db1)"
    and d: "readDefaultId db1 = Inr d" and b: b
    and db': "db' = (if d = Some i then set_default (case sort_key wk_path (db_workspaces db1) of
        [] \<Rightarrow> None | first # _ \<Rightarrow> Some (wk_id first)) db1 else db1)"
    by (auto simp: workspace_remove_def bind_result_Inr Let_def p_def split: option.splits if_splits)
  note E = increment_effect [OF inc]
  from cur obtain row where row: "t_find wk_id i (db_workspaces db) = Some row" "wr_path cur = wk_path row"
      "wk_revision row = revision"
    by (auto simp: readWorkspace_def bind_result_Inr parseWorkspace_def sql_integer_def split: option.splits if_splits)
  have base: "auth_revision (db\<lparr>db_workspaces := X\<rparr>) = auth_revision db" "default_id (db\<lparr>db_workspaces := X\<rparr>) = default_id db" for X
    by (simp_all add: auth_revision_def default_id_def)
  have "d = default_id db"
    using d E(3,6) base by (auto simp: readDefaultId_def default_id_def)
  then show ?thesis
    using row cur(3) b E db' base by (auto simp: p_def set_default_id)
qed

lemma setDefault_effect:
  assumes "workspace_setDefault i db = Inr (x, db')"
  shows "i \<in> wk_id ` set (db_workspaces db) \<and> db' = set_default (Some i) db \<and> db_metadata db \<noteq> None"
  using assms t_find_None [of wk_id i "db_workspaces db"]
  by (auto simp: workspace_setDefault_def bind_result_Inr readWorkspace_def split: option.splits if_splits)

lemma side_chat_effect:
  assumes "writeSideChat row db = Inr db'"
  shows "db' = db\<lparr>db_side_chats := db_side_chats db'\<rparr>"
  using assms by (auto simp: writeSideChat_def split: if_splits)

fun side_chat_op :: "workspace_op \<Rightarrow> bool" where
  "side_chat_op (WAdd _ _ _ _) = False"
| "side_chat_op (WRemove _ _) = False"
| "side_chat_op (WSetDefault _) = False"
| "side_chat_op _ = True"

lemma side_chat_frame:
  assumes "side_chat_op op"
  shows "db_workspaces (workspace_exec op db) = db_workspaces db" "db_metadata (workspace_exec op db) = db_metadata db"
  using assms
  by (cases op; auto simp: run_tx_def sideChat_claim_def sideChat_save_def sideChat_remove_def sideChat_recover_def
      writeSideChat_def)+

text \<open>What every call keeps of the workspaces: nothing changes, or the revision grows.\<close>

lemma workspace_exec_frame:
  "db_workspaces (workspace_exec op db) = db_workspaces db \<and> auth_revision (workspace_exec op db) = auth_revision db \<or>
   auth_revision (workspace_exec op db) = auth_revision db + 1"
proof (cases op)
  case (WAdd i path label now)
  then show ?thesis
    by (cases rule: run_tx_cases [of "workspace_add i path label now" db]) (auto dest: add_effect)
next
  case (WRemove i revision)
  then show ?thesis
    by (cases rule: run_tx_cases [of "workspace_remove i revision" db]) (auto dest: remove_effect)
next
  case (WSetDefault i)
  then show ?thesis
    by (cases rule: run_tx_cases [of "workspace_setDefault i" db]) (auto dest: setDefault_effect)
qed (use side_chat_frame [of op db] in \<open>simp_all add: auth_revision_def\<close>)

text \<open>
  Claim C10. A cache of the authorized roots may be validated by its revision: if, after any calls, the
  authorization revision is the one it was, the workspaces are the same.
\<close>

theorem authorization_revision_tracks_workspaces:
  assumes "auth_revision (workspace_run ops db) = auth_revision db"
  shows "db_workspaces (workspace_run ops db) = db_workspaces db"
proof -
  have "auth_revision db < auth_revision (workspace_run ops db) \<or>
      db_workspaces (workspace_run ops db) = db_workspaces db \<and> auth_revision (workspace_run ops db) = auth_revision db" for db
  proof (induction ops arbitrary: db)
    case (Cons op ops)
    show ?case
      using Cons.IH [of "workspace_exec op db"] workspace_exec_frame [of op db]
      by (auto simp: workspace_run_def)
  qed (simp add: workspace_run_def)
  from this [of db] assms show ?thesis by auto
qed

lemma first_sorted: "xs \<noteq> [] \<Longrightarrow> \<exists>x rest. sort_key f xs = x # rest \<and> x \<in> set xs"
  by (metis list.exhaust list.set_intros(1) set_sort set_empty sort_key_simps(1))

lemma add_inv:
  assumes "workspace_inv db" "workspace_add i path label now db = Inr (w, db')"
  shows "workspace_inv db'"
  using add_effect [OF assms(2)] assms(1) by (auto simp: workspace_inv_def split: option.splits)

lemma remove_inv:
  assumes "workspace_inv db" "workspace_remove i revision db = Inr (b, db')"
  shows "workspace_inv db'"
proof (cases b)
  case True
  then obtain row where row: "t_find wk_id i (db_workspaces db) = Some row" "wk_revision row = revision"
    and ws: "db_workspaces db' = t_delete (\<lambda>r. wk_id r = i \<and> wk_revision r = revision) (db_workspaces db)"
    and md: "db_metadata db' \<noteq> None"
    and d: "default_id db' = (if default_id db = Some i
      then (case sort_key wk_path (db_workspaces db') of [] \<Rightarrow> None | first # _ \<Rightarrow> Some (wk_id first))
      else default_id db)"
    using remove_effect [OF assms(2)] by blast
  have keyed: "t_keyed wk_id (db_workspaces db')" "t_keyed wk_path (db_workspaces db')"
    using assms(1) by (simp_all add: ws workspace_inv_def)
  have "case default_id db' of None \<Rightarrow> db_workspaces db' = [] | Some x \<Rightarrow> x \<in> wk_id ` set (db_workspaces db')"
  proof (cases "default_id db = Some i")
    case True
    show ?thesis
    proof (cases "db_workspaces db' = []")
      case False
      then obtain x rest where "sort_key wk_path (db_workspaces db') = x # rest" "x \<in> set (db_workspaces db')"
        using first_sorted by blast
      then show ?thesis using True d by simp
    qed (use True d in simp)
  next
    case False
    moreover have "default_id db \<noteq> None"
      using assms(1) row by (cases "default_id db") (auto simp: workspace_inv_def)
    ultimately obtain x where x: "default_id db = Some x" "x \<noteq> i" "x \<in> wk_id ` set (db_workspaces db)"
      using assms(1) by (auto simp: workspace_inv_def)
    then have "x \<in> wk_id ` set (db_workspaces db')" by (auto simp: ws set_t_delete)
    then show ?thesis using False d x(1) by simp
  qed
  then show ?thesis using keyed md by (simp add: workspace_inv_def)
qed (use remove_effect [OF assms(2)] assms(1) in auto)

lemma workspace_inv_cong:
  "db_workspaces db' = db_workspaces db \<Longrightarrow> db_metadata db' = db_metadata db \<Longrightarrow> workspace_inv db \<Longrightarrow> workspace_inv db'"
  by (simp add: workspace_inv_def default_id_def cong: option.case_cong)

lemma workspace_exec_inv: "workspace_inv db \<Longrightarrow> workspace_inv (workspace_exec op db)"
proof (cases op)
  case (WAdd i path label now)
  assume "workspace_inv db"
  then show ?thesis
    by (cases rule: run_tx_cases [of "workspace_add i path label now" db]) (auto simp: WAdd dest: add_inv)
next
  case (WRemove i revision)
  assume "workspace_inv db"
  then show ?thesis
    by (cases rule: run_tx_cases [of "workspace_remove i revision" db]) (auto simp: WRemove dest: remove_inv)
next
  case (WSetDefault i)
  assume "workspace_inv db"
  then show ?thesis
    by (cases rule: run_tx_cases [of "workspace_setDefault i" db])
      (auto simp: WSetDefault workspace_inv_def set_default_id dest!: setDefault_effect)
qed (use side_chat_frame [of op db] workspace_inv_cong in \<open>simp_all\<close>)

text \<open>
  There is always a usable default: after any calls, ids and paths of the workspaces are unique
  and a default workspace is recorded exactly when there are workspaces, and it is one of them (removing
  the default one promotes the first by path).
\<close>

theorem default_workspace_always_valid:
  assumes "workspace_inv db"
  shows "workspace_inv (workspace_run ops db)"
  using assms by (induction ops arbitrary: db) (simp_all add: workspace_run_def workspace_exec_inv)

section \<open>Side chats have a workspace\<close>

definition side_chats_homed :: "user_db \<Rightarrow> bool" where
  "side_chats_homed db \<longleftrightarrow> (\<forall>sc \<in> set (db_side_chats db). sd_workspace_id sc \<in> wk_id ` set (db_workspaces db))"

text \<open>
  The calls of the service: \<open>save\<close> is used only for a parent thread that was claimed, whose row exists.
\<close>

fun saves_claimed :: "workspace_op list \<Rightarrow> user_db \<Rightarrow> bool" where
  "saves_claimed [] db = True"
| "saves_claimed (op # ops) db =
     ((case op of SSave row \<Rightarrow> t_find sd_parent_thread_id (sd_parent_thread_id row) (db_side_chats db) \<noteq> None
                | _ \<Rightarrow> True) \<and> saves_claimed ops (workspace_exec op db))"

lemma write_homed:
  assumes "side_chats_homed db" "writeSideChat row db = Inr db'"
    and "sd_workspace_id row \<in> wk_id ` set (db_workspaces db) \<or>
      t_find sd_parent_thread_id (sd_parent_thread_id row) (db_side_chats db) \<noteq> None"
  shows "side_chats_homed db'"
  using assms by (auto simp: writeSideChat_def side_chats_homed_def set_t_update split: if_splits)

lemma exec_homed:
  assumes "side_chats_homed db" "saves_claimed [op] db"
  shows "side_chats_homed (workspace_exec op db)"
proof (cases op)
  case (WAdd i path label now)
  have "side_chats_homed db'" if "workspace_add i path label now db = Inr (w, db')" for w db'
    using add_effect [OF that] assms(1) by (auto simp: side_chats_homed_def)
  then show ?thesis
    using assms(1) by (cases rule: run_tx_cases [of "workspace_add i path label now" db]) (auto simp: WAdd)
next
  case (WRemove i revision)
  have "side_chats_homed db'" if "workspace_remove i revision db = Inr (b, db')" for b db'
    using remove_effect [OF that] assms(1) by (fastforce simp: side_chats_homed_def workspace_in_use_def set_t_delete)
  then show ?thesis
    using assms(1) by (cases rule: run_tx_cases [of "workspace_remove i revision" db]) (auto simp: WRemove)
next
  case (WSetDefault i)
  then show ?thesis
    using assms(1) by (cases rule: run_tx_cases [of "workspace_setDefault i" db])
      (auto simp: side_chats_homed_def dest!: setDefault_effect)
next
  case (SClaim row)
  have "side_chats_homed db'" if "sideChat_claim row db = Inr (b, db')" for b db'
    using that write_homed [OF assms(1)] assms(1) t_find_None [of wk_id "sd_workspace_id row" "db_workspaces db"]
    by (auto simp: sideChat_claim_def bind_result_Inr split: if_splits)
  then show ?thesis
    using assms(1) by (cases rule: run_tx_cases [of "sideChat_claim row" db]) (auto simp: SClaim)
next
  case (SSave row)
  have "side_chats_homed db'" if "sideChat_save row db = Inr (b, db')" for b db'
    using that write_homed [OF assms(1)] assms(2) SSave by (auto simp: sideChat_save_def bind_result_Inr)
  then show ?thesis
    using assms(1) by (cases rule: run_tx_cases [of "sideChat_save row" db]) (auto simp: SSave)
qed (use assms in \<open>auto simp: sideChat_remove_def sideChat_recover_def side_chats_homed_def set_t_delete set_t_update\<close>)

text \<open>
  A workspace in use is not removed: after any calls of the services, every side chat belongs to
  a workspace that still exists, and a removal that succeeds finds neither side chats nor unfinished
  queue items of the workspace.
\<close>

theorem workspace_in_use_is_kept:
  assumes "side_chats_homed db" and "saves_claimed ops db"
  shows "side_chats_homed (workspace_run ops db) \<and>
    (workspace_remove i revision (workspace_run ops db) = Inr (True, db') \<longrightarrow>
      (\<exists>row \<in> set (db_workspaces (workspace_run ops db)). wk_id row = i \<and>
        (\<forall>q \<in> set (db_queue_items (workspace_run ops db)). qi_workspace_path q = wk_path row \<longrightarrow> qi_status q = QS_completed) \<and>
        (\<forall>sc \<in> set (db_side_chats (workspace_run ops db)). sd_workspace_id sc \<noteq> i)))"
proof -
  have "side_chats_homed (workspace_run ops db)"
    using assms
  proof (induction ops arbitrary: db)
    case (Cons op ops)
    then show ?case using exec_homed [of db op] by (simp add: workspace_run_def)
  qed (simp add: workspace_run_def)
  moreover have "\<exists>row \<in> set (db_workspaces X). wk_id row = i \<and>
        (\<forall>q \<in> set (db_queue_items X). qi_workspace_path q = wk_path row \<longrightarrow> qi_status q = QS_completed) \<and>
        (\<forall>sc \<in> set (db_side_chats X). sd_workspace_id sc \<noteq> i)"
    if "workspace_remove i revision X = Inr (True, db')" for X
    using remove_effect [OF that] t_find_Some [of wk_id i "db_workspaces X"] unfolding workspace_in_use_def by blast
  ultimately show ?thesis by blast
qed

section \<open>Witnesses\<close>

lemma empty_workspace_inv: "workspace_inv (empty_user_db now)"
  by (simp add: workspace_inv_def empty_user_db_def default_id_def)

definition example_workspace_ops :: "workspace_op list" where
  "example_workspace_ops = [WAdd ''w1'' ''/srv/b'' ''B'' 1, WAdd ''w2'' ''/srv/a'' ''A'' 2,
     SClaim \<lparr>sd_workspace_id = ''w2'', sd_parent_thread_id = ''t1'', sd_thread_id = None, sd_boundary_turn_id = None,
       sd_status = SC_creating, sd_operation_key = ''op'', sd_created_at = 3\<rparr>]"

theorem authorization_revision_tracks_workspaces_witness:
  "db_workspaces (workspace_run [WSetDefault ''w2'', WRemove ''w2'' 2] (workspace_run example_workspace_ops (empty_user_db 0))) =
   db_workspaces (workspace_run example_workspace_ops (empty_user_db 0))"
  by (rule authorization_revision_tracks_workspaces) code_simp

theorem default_workspace_always_valid_witness:
  "workspace_inv (workspace_run (example_workspace_ops @ [WRemove ''w1'' 1]) (empty_user_db 0))"
  by (rule default_workspace_always_valid [OF empty_workspace_inv])

theorem workspace_in_use_is_kept_witness:
  "side_chats_homed (workspace_run example_workspace_ops (empty_user_db 0))"
proof -
  have "saves_claimed example_workspace_ops (empty_user_db 0)" by code_simp
  then show ?thesis
    using workspace_in_use_is_kept [of "empty_user_db 0" example_workspace_ops]
    by (simp add: side_chats_homed_def empty_user_db_def)
qed

end
