(* ===== verification/Settings_Repository.thy ===== *)
theory Settings_Repository
  imports User_Db
begin

text \<open>
  The preferences of the user (\<open>apps/agent/src/v2/repositories/preferences-repository.ts\<close>) and the
  permission settings of the threads (\<open>thread-settings-repository.ts\<close>). Both are updated under an
  expected revision; the thread settings also take observations of the terminal client, which are ordered
  by a generation counter.
\<close>

section \<open>Preferences\<close>

record preferences_record =
  pe_revision :: int
  pe_theme :: theme
  pe_locale :: string
  pe_defaultWorkspaceId :: "string option"
  pe_sandbox :: string
  pe_approvalPolicy :: string
  pe_updatedAt :: timestamp

record preferences_patch =
  pp_theme :: "theme option"
  pp_locale :: "string option"
  pp_defaultWorkspaceId :: "string option"
  pp_sandbox :: "string option"
  pp_approvalPolicy :: "string option"

definition isSandboxMode :: "string \<Rightarrow> bool" where
  "isSandboxMode s \<longleftrightarrow> s \<in> {''read-only'', ''workspace-write'', ''danger-full-access''}"

definition isSimplePolicy :: "string \<Rightarrow> bool" where
  "isSimplePolicy s \<longleftrightarrow> s \<in> {''untrusted'', ''on-request'', ''never''}"

definition readPreferences :: "user_db \<Rightarrow> ce_error + preferences_record" where
  "readPreferences db =
     (case (db_preferences db, db_metadata db) of
        (Some row, Some md) \<Rightarrow>
          if \<not> isSandboxMode (pf_default_sandbox row) then Inl (Error ''Invalid preferences sandbox'')
          else if \<not> isSimplePolicy (pf_default_approval_policy row)
          then Inl (Error ''Invalid preferences approval policy'')
          else bind_result (sql_integer (pf_revision row) ''preferences revision'') (\<lambda>revision.
            Inr \<lparr>pe_revision = revision, pe_theme = pf_theme row, pe_locale = pf_locale row,
              pe_defaultWorkspaceId = md_default_workspace_id md, pe_sandbox = pf_default_sandbox row,
              pe_approvalPolicy = pf_default_approval_policy row, pe_updatedAt = pf_updated_at row\<rparr>)
      | _ \<Rightarrow> Inl (Error ''Preferences are missing''))"

definition or_else :: "'a option \<Rightarrow> 'a \<Rightarrow> 'a" where
  "or_else x0 d = (case x0 of Some x \<Rightarrow> x | None \<Rightarrow> d)"

definition preferences_update ::
  "int \<Rightarrow> preferences_patch \<Rightarrow> timestamp \<Rightarrow> (user_db, preferences_record) tx" where
  "preferences_update expectedRevision patch now db =
     bind_result (readPreferences db) (\<lambda>current.
       if pe_revision current \<noteq> expectedRevision then Inl PreferencesRevisionConflictError
       else let workspace = (case pp_defaultWorkspaceId patch of Some w \<Rightarrow> Some w | None \<Rightarrow> pe_defaultWorkspaceId current)
       in if (case workspace of Some w \<Rightarrow> t_count (\<lambda>r. wk_id r = w) (db_workspaces db) \<noteq> 1 | None \<Rightarrow> False)
          then Inl (Error ''Default workspace does not exist'')
          else case db_preferences db of
            None \<Rightarrow> Inl PreferencesRevisionConflictError
          | Some row \<Rightarrow>
              if pf_revision row \<noteq> expectedRevision then Inl PreferencesRevisionConflictError
              else let
                db1 = db\<lparr>db_preferences := Some \<lparr>pf_theme = or_else (pp_theme patch) (pe_theme current),
                  pf_locale = or_else (pp_locale patch) (pe_locale current),
                  pf_default_sandbox = or_else (pp_sandbox patch) (pe_sandbox current),
                  pf_default_approval_policy = or_else (pp_approvalPolicy patch) (pe_approvalPolicy current),
                  pf_revision = pe_revision current + 1, pf_updated_at = now\<rparr>\<rparr>;
                db2 = (case pp_defaultWorkspaceId patch of
                    Some w \<Rightarrow> db1\<lparr>db_metadata :=
                      map_option (\<lambda>md. md\<lparr>md_default_workspace_id := Some w\<rparr>) (db_metadata db1)\<rparr>
                  | None \<Rightarrow> db1)
              in bind_result (readPreferences db2) (\<lambda>p. Inr (p, db2)))"

section \<open>Thread settings\<close>

record stored_settings =
  se_revision :: int
  se_sandbox :: "string option"
  se_approvalPolicy :: "string option"
  se_updatedAt :: "timestamp option"

record settings_patch =
  sp_sandbox :: "string option"
  sp_approvalPolicy :: "string option"

definition requireThreadId :: "string \<Rightarrow> ce_error option" where
  "requireThreadId threadId =
     (if threadId = [] \<or> length threadId > 1024 then Some (Error ''Thread id is invalid'') else None)"

definition requireGeneration :: "int \<Rightarrow> ce_error option" where
  "requireGeneration value =
     (if \<not> safe_integer value \<or> value < 0 then Some (Error ''Thread permission observation is invalid'') else None)"

text \<open>The approval policy column: \<open>null\<close>, a simple policy or a granular object.\<close>

fun simple_policy_of :: "js \<Rightarrow> string option" where
  "simple_policy_of (JStr s) = (if isSimplePolicy s then Some s else None)"
| "simple_policy_of v = None"

definition policy_json :: "string option \<Rightarrow> json_text" where
  "policy_json p = JsonText (case p of Some s \<Rightarrow> JStr s | None \<Rightarrow> JNull)"

definition readSettings :: "user_db \<Rightarrow> string \<Rightarrow> ce_error + stored_settings" where
  "readSettings db threadId =
     (case t_find tpm_thread_id threadId (db_thread_permissions db) of
        None \<Rightarrow> Inr \<lparr>se_revision = 0, se_sandbox = None, se_approvalPolicy = None, se_updatedAt = None\<rparr>
      | Some row \<Rightarrow>
          (case tpm_approval_policy_json row of
             BadJson _ \<Rightarrow> Inl (Error ''Stored approval policy is invalid'')
           | JsonText v \<Rightarrow>
               bind_result (sql_integer (tpm_revision row) ''thread settings revision'') (\<lambda>revision.
                 Inr \<lparr>se_revision = revision,
                      se_sandbox = (if isSandboxMode (tpm_sandbox_mode row) then Some (tpm_sandbox_mode row) else None),
                      se_approvalPolicy = simple_policy_of v,
                      se_updatedAt = Some (tpm_updated_at row)\<rparr>)))"

definition nextGeneration :: "user_db \<Rightarrow> ce_error + int \<times> user_db" where
  "nextGeneration db =
     (case db_metadata db of
        None \<Rightarrow> Inl (Error ''User metadata is missing'')
      | Some md \<Rightarrow>
          let g = md_thread_permission_generation md + 1 in
          bind_result (sql_integer g ''permission generation'') (\<lambda>g'.
            Inr (g', db\<lparr>db_metadata := Some (md\<lparr>md_thread_permission_generation := g\<rparr>)\<rparr>)))"

definition readThreadObservation :: "user_db \<Rightarrow> string \<Rightarrow> ce_error + int option" where
  "readThreadObservation db threadId =
     (case t_find ob_thread_id threadId (db_observations db) of
        None \<Rightarrow> Inr None
      | Some row \<Rightarrow> bind_result (sql_integer (ob_generation row) ''thread permission observation'') (\<lambda>g. Inr (Some g)))"

text \<open>\<open>INSERT OR REPLACE\<close>: an old row with the key is deleted first.\<close>

definition t_replace :: "('r \<Rightarrow> 'k) \<Rightarrow> 'r \<Rightarrow> 'r list \<Rightarrow> 'r list" where
  "t_replace key row rows = t_delete (\<lambda>r. key r = key row) rows @ [row]"

definition put_observation :: "string \<Rightarrow> int \<Rightarrow> user_db \<Rightarrow> user_db" where
  "put_observation threadId generation db =
     db\<lparr>db_observations := t_replace ob_thread_id \<lparr>ob_thread_id = threadId, ob_generation = generation\<rparr>
          (db_observations db)\<rparr>"

definition writeThreadObservation :: "string \<Rightarrow> int \<Rightarrow> user_db \<Rightarrow> ce_error + user_db" where
  "writeThreadObservation threadId generation db =
     (case requireGeneration generation of
        Some e \<Rightarrow> Inl e
      | None \<Rightarrow> Inr (put_observation threadId generation db))"

definition ensureGeneration :: "int \<Rightarrow> user_db \<Rightarrow> ce_error + user_db" where
  "ensureGeneration generation db =
     (case requireGeneration generation of
        Some e \<Rightarrow> Inl e
      | None \<Rightarrow>
          (case db_metadata db of
             None \<Rightarrow> Inl (Error ''User metadata is missing'')
           | Some md \<Rightarrow>
               bind_result (sql_integer (md_thread_permission_generation md) ''permission generation'') (\<lambda>g.
                 Inr (if g < generation
                      then db\<lparr>db_metadata := Some (md\<lparr>md_thread_permission_generation := generation\<rparr>)\<rparr>
                      else db))))"

definition threadSettings_read :: "string \<Rightarrow> user_db \<Rightarrow> ce_error + stored_settings" where
  "threadSettings_read threadId db =
     (case requireThreadId threadId of Some e \<Rightarrow> Inl e | None \<Rightarrow> readSettings db threadId)"

text \<open>The INSERT or UPDATE of \<open>save\<close>; \<open>fresh\<close> says that the thread has no row yet.\<close>

definition write_settings ::
  "string \<Rightarrow> int \<Rightarrow> bool \<Rightarrow> string option \<Rightarrow> string option \<Rightarrow> timestamp \<Rightarrow>
   thread_permission_row list \<Rightarrow> ce_error + thread_permission_row list" where
  "write_settings threadId expectedRevision fresh sandbox policy now rows =
     (if fresh
      then t_insert tpm_thread_id ''thread_permissions''
             \<lparr>tpm_thread_id = threadId, tpm_approval_policy_json = policy_json policy,
              tpm_approvals_reviewer = ''user'', tpm_sandbox_mode = or_else sandbox [],
              tpm_revision = expectedRevision + 1, tpm_updated_at = now\<rparr> rows
      else let selected = (\<lambda>r. tpm_thread_id r = threadId \<and> tpm_revision r = expectedRevision) in
        if t_count selected rows \<noteq> 1 then Inl (ThreadSettingsRevisionConflictError threadId)
        else Inr (t_update selected
               (\<lambda>r. r\<lparr>tpm_approval_policy_json := policy_json policy, tpm_sandbox_mode := or_else sandbox [],
                       tpm_revision := expectedRevision + 1, tpm_updated_at := now\<rparr>) rows))"

definition threadSettings_save ::
  "string \<Rightarrow> int \<Rightarrow> settings_patch \<Rightarrow> timestamp \<Rightarrow> (user_db, stored_settings) tx" where
  "threadSettings_save threadId expectedRevision patch now db =
     (case requireThreadId threadId of Some e \<Rightarrow> Inl e
      | None \<Rightarrow>
     bind_result (readSettings db threadId) (\<lambda>current.
       if se_revision current \<noteq> expectedRevision then Inl (ThreadSettingsRevisionConflictError threadId)
       else let
         sandbox = (case sp_sandbox patch of Some s \<Rightarrow> Some s | None \<Rightarrow> se_sandbox current);
         policy = (case sp_approvalPolicy patch of Some p \<Rightarrow> Some p | None \<Rightarrow> se_approvalPolicy current)
       in bind_result (nextGeneration db) (\<lambda>(generation, db1).
          bind_result (write_settings threadId expectedRevision
              (expectedRevision = 0 \<and> se_updatedAt current = None) sandbox policy now
              (db_thread_permissions db1)) (\<lambda>rows.
            Inr (\<lparr>se_revision = expectedRevision + 1, se_sandbox = sandbox, se_approvalPolicy = policy,
                 se_updatedAt = Some now\<rparr>,
              put_observation threadId generation (db1\<lparr>db_thread_permissions := rows\<rparr>))))))"

definition threadSettings_remove :: "string \<Rightarrow> (user_db, unit) tx" where
  "threadSettings_remove threadId db =
     (case requireThreadId threadId of Some e \<Rightarrow> Inl e
      | None \<Rightarrow>
     bind_result (nextGeneration db) (\<lambda>(generation, db1).
     bind_result (writeThreadObservation threadId generation db1) (\<lambda>db2.
       Inr ((), db2\<lparr>db_thread_permissions :=
         t_delete (\<lambda>r. tpm_thread_id r = threadId) (db_thread_permissions db2)\<rparr>))))"

text \<open>An observation: its generation and its time.\<close>

definition beginObservation :: "string option \<Rightarrow> timestamp \<Rightarrow> (user_db, int \<times> timestamp) tx" where
  "beginObservation threadId now db =
     (case Option.bind threadId requireThreadId of Some e \<Rightarrow> Inl e
      | None \<Rightarrow>
     bind_result (nextGeneration db) (\<lambda>(generation, db1).
       (case threadId of
          None \<Rightarrow> Inr ((generation, now), db1)
        | Some t \<Rightarrow> bind_result (writeThreadObservation t generation db1) (\<lambda>db2. Inr ((generation, now), db2)))))"

definition claimRepairObservation ::
  "string \<Rightarrow> int \<Rightarrow> timestamp \<Rightarrow> (user_db, (int \<times> timestamp) option) tx" where
  "claimRepairObservation threadId expected now db =
     (case requireThreadId threadId of Some e \<Rightarrow> Inl e
      | None \<Rightarrow>
     (case requireGeneration expected of Some e \<Rightarrow> Inl e
      | None \<Rightarrow>
     bind_result (readThreadObservation db threadId) (\<lambda>current.
       if current \<noteq> Some expected then Inr (None, db)
       else bind_result (nextGeneration db) (\<lambda>(generation, db1).
            bind_result (writeThreadObservation threadId generation db1) (\<lambda>db2.
              Inr (Some (generation, now), db2))))))"

text \<open>The values the terminal client reports; a field that is absent keeps the stored value.\<close>

record tui_snapshot =
  ts_approvalPolicy :: "js option"
  ts_approvalsReviewer :: "js option"
  ts_sandboxPolicy :: "js option"

record tui_settings =
  tu_approvalPolicy :: "js option"
  tu_approvalsReviewer :: "string option"
  tu_sandbox :: "string option"
  tu_revision :: int

fun isApprovalPolicy :: "js \<Rightarrow> bool" where
  "isApprovalPolicy (JStr s) = isSimplePolicy s"
| "isApprovalPolicy (JObj fs) =
     (case js_get fs ''granular'' of
        JObj gs \<Rightarrow> \<forall>k \<in> {''sandbox_approval'', ''rules'', ''skill_approval'', ''request_permissions'',
                           ''mcp_elicitations''}. (case js_get gs k of JBool _ \<Rightarrow> True | _ \<Rightarrow> False)
      | _ \<Rightarrow> False)"
| "isApprovalPolicy v = False"

definition isApprovalsReviewer :: "string \<Rightarrow> bool" where
  "isApprovalsReviewer s \<longleftrightarrow> s \<in> {''user'', ''auto_review'', ''guardian_subagent''}"

fun reviewer_of :: "js \<Rightarrow> string option" where
  "reviewer_of (JStr s) = (if isApprovalsReviewer s then Some s else None)"
| "reviewer_of v = None"

fun sandboxModeFromPolicy :: "js \<Rightarrow> string option" where
  "sandboxModeFromPolicy (JObj fs) =
     (case js_get fs ''type'' of
        JStr t \<Rightarrow>
          if t = ''readOnly'' then Some ''read-only''
          else if t = ''workspaceWrite'' then Some ''workspace-write''
          else if t = ''dangerFullAccess'' then Some ''danger-full-access''
          else None
      | _ \<Rightarrow> None)"
| "sandboxModeFromPolicy v = None"

definition readTuiSettings :: "user_db \<Rightarrow> string \<Rightarrow> ce_error + tui_settings" where
  "readTuiSettings db threadId =
     (case t_find tpm_thread_id threadId (db_thread_permissions db) of
        None \<Rightarrow> Inr \<lparr>tu_approvalPolicy = None, tu_approvalsReviewer = None, tu_sandbox = None, tu_revision = 0\<rparr>
      | Some row \<Rightarrow>
          (case tpm_approval_policy_json row of
             BadJson _ \<Rightarrow> Inl (Error ''Stored approval policy is invalid'')
           | JsonText v \<Rightarrow>
               bind_result (sql_integer (tpm_revision row) ''thread settings revision'') (\<lambda>revision.
                 Inr \<lparr>tu_approvalPolicy = (if isApprovalPolicy v then Some v else None),
                      tu_approvalsReviewer = (if isApprovalsReviewer (tpm_approvals_reviewer row)
                        then Some (tpm_approvals_reviewer row) else None),
                      tu_sandbox = (if isSandboxMode (tpm_sandbox_mode row) then Some (tpm_sandbox_mode row) else None),
                      tu_revision = revision\<rparr>)))"

text \<open>
  The transaction of \<open>saveObserved\<close> for an observation that was begun before; without one the method
  begins an observation first.
\<close>

definition saveObserved_tx ::
  "string \<Rightarrow> tui_snapshot \<Rightarrow> int \<times> timestamp \<Rightarrow> (user_db, unit) tx" where
  "saveObserved_tx threadId snapshot causal db =
     (case requireThreadId threadId of Some e \<Rightarrow> Inl e
      | None \<Rightarrow>
     (case requireGeneration (fst causal) of Some e \<Rightarrow> Inl e
      | None \<Rightarrow>
     bind_result (readThreadObservation db threadId) (\<lambda>observed.
       if (case observed of Some g \<Rightarrow> fst causal < g | None \<Rightarrow> False) then Inr ((), db)
       else bind_result (ensureGeneration (fst causal) db) (\<lambda>db1.
            bind_result (writeThreadObservation threadId (fst causal) db1) (\<lambda>db2.
            bind_result (readTuiSettings db2 threadId) (\<lambda>current.
              let policy = (case ts_approvalPolicy snapshot of
                    Some v \<Rightarrow> if isApprovalPolicy v then Some v else None
                  | None \<Rightarrow> tu_approvalPolicy current);
                reviewer = (case ts_approvalsReviewer snapshot of
                    Some v \<Rightarrow> reviewer_of v | None \<Rightarrow> tu_approvalsReviewer current);
                sandbox = (case ts_sandboxPolicy snapshot of
                    Some v \<Rightarrow> sandboxModeFromPolicy v | None \<Rightarrow> tu_sandbox current)
              in Inr ((), db2\<lparr>db_thread_permissions := t_replace tpm_thread_id
                   \<lparr>tpm_thread_id = threadId, tpm_approval_policy_json = JsonText (or_else policy JNull),
                    tpm_approvals_reviewer = or_else reviewer [], tpm_sandbox_mode = or_else sandbox [],
                    tpm_revision = tu_revision current + 1, tpm_updated_at = snd causal\<rparr>
                   (db_thread_permissions db2)\<rparr>)))))))"

text \<open>\<open>applyToResume\<close>: stored values fill the fields of the payload that are missing or null.\<close>

definition missing_field :: "(string \<times> js) list \<Rightarrow> string \<Rightarrow> bool" where
  "missing_field payload k \<longleftrightarrow> js_get payload k \<in> {JUndefined, JNull}"

fun set_field :: "string \<Rightarrow> js \<Rightarrow> (string \<times> js) list \<Rightarrow> (string \<times> js) list" where
  "set_field k v [] = [(k, v)]"
| "set_field k v ((k', v') # payload) = (if k' = k then (k, v) # payload else (k', v') # set_field k v payload)"

definition applyToResume ::
  "(string \<times> js) list \<Rightarrow> user_db \<Rightarrow> ce_error + (string \<times> js) list" where
  "applyToResume payload db =
     (case js_get payload ''threadId'' of
        JStr threadId \<Rightarrow>
          (case requireThreadId threadId of Some e \<Rightarrow> Inl e
           | None \<Rightarrow> bind_result (readTuiSettings db threadId) (\<lambda>stored.
               let fill = (\<lambda>k v p. case v of
                     Some x \<Rightarrow> if missing_field payload k then set_field k x p else p
                   | None \<Rightarrow> p)
               in Inr (fill ''sandbox'' (map_option JStr (tu_sandbox stored))
                    (fill ''approvalsReviewer'' (map_option JStr (tu_approvalsReviewer stored))
                      (fill ''approvalPolicy'' (tu_approvalPolicy stored) payload)))))
      | _ \<Rightarrow> Inl (Error ''Thread id must be a string''))"

section \<open>Updates under an expected revision\<close>

text \<open>
  The contract of a store with optimistic concurrency: an update succeeds only on the revision it
  expects, and increments that revision and no other. Calls are a key, the expected revision, a patch and
  the time; \<open>winners\<close> lists the keys and revisions of those that succeed, in order.
\<close>

fun winners ::
  "('k \<Rightarrow> int \<Rightarrow> 'p \<Rightarrow> timestamp \<Rightarrow> ('db, 'r) tx) \<Rightarrow> ('k \<times> int \<times> 'p \<times> timestamp) list \<Rightarrow> 'db \<Rightarrow>
   ('k \<times> int) list" where
  "winners upd [] db = []"
| "winners upd ((k, e, p, now) # calls) db =
     (case upd k e p now db of
        Inl _ \<Rightarrow> winners upd calls db
      | Inr (_, db') \<Rightarrow> (k, e) # winners upd calls db')"

locale optimistic_store =
  fixes upd :: "'k \<Rightarrow> int \<Rightarrow> 'p \<Rightarrow> timestamp \<Rightarrow> ('db, 'r) tx"
    and revision :: "'db \<Rightarrow> 'k \<Rightarrow> int"
    and valid :: "'db \<Rightarrow> bool"
  assumes upd_checks: "valid db \<Longrightarrow> upd k e p now db = Inr (r, db') \<Longrightarrow>
      valid db' \<and> revision db k = e \<and> revision db' k = e + 1 \<and> (\<forall>k'. k' \<noteq> k \<longrightarrow> revision db' k' = revision db k')"
begin

lemma winners_ahead: "valid db \<Longrightarrow> (k, e) \<in> set (winners upd calls db) \<Longrightarrow> revision db k \<le> e"
proof (induction calls arbitrary: db)
  case (Cons call calls)
  obtain k' e' p now where call: "call = (k', e', p, now)" by (cases call)
  show ?case
  proof (cases "upd k' e' p now db")
    case (Inr y)
    obtain r db' where y: "y = (r, db')" by (cases y)
    note c = upd_checks [OF Cons.prems(1), of k' e' p now r db']
    have "(k, e) \<in> set (winners upd calls db') \<Longrightarrow> revision db' k \<le> e"
      using Cons.IH [of db'] c Inr y by simp
    then show ?thesis using Cons.prems(2) c Inr y call by (cases "k = k'") auto
  qed (use Cons call in simp)
qed simp

text \<open>Of the updates that expect the same revision of the same key, at most one succeeds.\<close>

lemma winners_distinct: "valid db \<Longrightarrow> distinct (winners upd calls db)"
proof (induction calls arbitrary: db)
  case (Cons call calls)
  obtain k e p now where call: "call = (k, e, p, now)" by (cases call)
  show ?case
  proof (cases "upd k e p now db")
    case (Inl x)
    then show ?thesis using Cons call by simp
  next
    case (Inr y)
    obtain r db' where y: "y = (r, db')" by (cases y)
    note c = upd_checks [OF Cons.prems, of k e p now r db']
    have "(k, e) \<notin> set (winners upd calls db')"
      using winners_ahead [of db' k e calls] c Inr y by auto
    then show ?thesis using Cons.IH [of db'] c Inr y call by simp
  qed
qed simp

end

definition preferences_revision :: "user_db \<Rightarrow> unit \<Rightarrow> int" where
  "preferences_revision db u = (case db_preferences db of Some row \<Rightarrow> pf_revision row | None \<Rightarrow> 0)"

definition settings_revision :: "user_db \<Rightarrow> string \<Rightarrow> int" where
  "settings_revision db t =
     (case t_find tpm_thread_id t (db_thread_permissions db) of Some row \<Rightarrow> tpm_revision row | None \<Rightarrow> 0)"

definition settings_valid :: "user_db \<Rightarrow> bool" where
  "settings_valid db \<longleftrightarrow> t_keyed tpm_thread_id (db_thread_permissions db)"

interpretation preferences_store: optimistic_store "\<lambda>u. preferences_update" preferences_revision "\<lambda>db. True"
proof unfold_locales
  fix db and k :: unit and e p now r db'
  assume u: "preferences_update e p now db = Inr (r, db')"
  obtain current where c: "readPreferences db = Inr current" "pe_revision current = e"
    using u by (auto simp: preferences_update_def bind_result_Inr split: if_splits)
  then obtain row where row: "db_preferences db = Some row" "pf_revision row = e"
    by (auto simp: readPreferences_def bind_result_Inr sql_integer_def split: option.splits if_splits)
  have "\<exists>row'. db_preferences db' = Some row' \<and> pf_revision row' = e + 1"
    using u c row unfolding preferences_update_def
    by (cases "pp_defaultWorkspaceId p") (auto simp: Let_def bind_result_Inr split: if_splits)
  then show "True \<and> preferences_revision db k = e \<and> preferences_revision db' k = e + 1 \<and>
      (\<forall>k'. k' \<noteq> k \<longrightarrow> preferences_revision db' k' = preferences_revision db k')"
    using row by (auto simp: preferences_revision_def)
qed

lemma nextGeneration_effect:
  assumes "nextGeneration db = Inr (g, db')"
  obtains md where "db_metadata db = Some md" and "g = md_thread_permission_generation md + 1"
    and "db' = db\<lparr>db_metadata := Some (md\<lparr>md_thread_permission_generation := g\<rparr>)\<rparr>"
  using assms
  by (auto simp: nextGeneration_def Let_def bind_result_Inr sql_integer_def split: option.splits if_splits)

lemma write_settings_effect:
  assumes "t_keyed tpm_thread_id ps" "write_settings t e fresh sandbox policy now ps = Inr rows"
  shows "t_keyed tpm_thread_id rows"
    and "k \<noteq> t \<Longrightarrow> t_find tpm_thread_id k rows = t_find tpm_thread_id k ps"
    and "\<exists>row. t_find tpm_thread_id t rows = Some row \<and> tpm_revision row = e + 1 \<and>
      tpm_approval_policy_json row = policy_json policy"
proof -
  let ?p = "\<lambda>r. tpm_thread_id r = t \<and> tpm_revision r = e"
  let ?f = "\<lambda>r. r\<lparr>tpm_approval_policy_json := policy_json policy, tpm_sandbox_mode := or_else sandbox [],
    tpm_revision := e + 1, tpm_updated_at := now\<rparr>"
  have "t_keyed tpm_thread_id rows \<and> (k \<noteq> t \<longrightarrow> t_find tpm_thread_id k rows = t_find tpm_thread_id k ps) \<and>
    (\<exists>row. t_find tpm_thread_id t rows = Some row \<and> tpm_revision row = e + 1 \<and>
      tpm_approval_policy_json row = policy_json policy)"
  proof (cases fresh)
    case True
    then show ?thesis
      using assms by (auto simp: write_settings_def t_insert_def split: if_splits option.splits)
  next
    case False
    then have one: "t_count ?p ps = 1" and rows: "rows = t_update ?p ?f ps"
      using assms(2) by (auto simp: write_settings_def Let_def split: if_splits)
    have "(case t_find tpm_thread_id t ps of Some r \<Rightarrow> if ?p r then 1 else 0 | None \<Rightarrow> 0) = (1 :: nat)"
      using t_count_key [OF assms(1), of ?p t] one by simp
    then obtain row where row: "t_find tpm_thread_id t ps = Some row" "?p row"
      by (auto split: option.splits if_splits)
    have other: "t_find tpm_thread_id k rows = t_find tpm_thread_id k ps" if "k \<noteq> t"
    proof (cases "t_find tpm_thread_id k ps")
      case (Some x)
      then have "tpm_thread_id x = k" by (rule t_find_SomeD)
      then show ?thesis using Some that by (simp add: rows t_find_update)
    qed (simp add: rows t_find_update)
    have "t_find tpm_thread_id t rows = Some (?f row)"
      using row by (simp add: rows t_find_update)
    then show ?thesis using other assms(1) by (simp add: rows t_keyed_update)
  qed
  then show "t_keyed tpm_thread_id rows"
    and "k \<noteq> t \<Longrightarrow> t_find tpm_thread_id k rows = t_find tpm_thread_id k ps"
    and "\<exists>row. t_find tpm_thread_id t rows = Some row \<and> tpm_revision row = e + 1 \<and>
      tpm_approval_policy_json row = policy_json policy" by blast+
qed

lemma save_effect:
  assumes "threadSettings_save t e patch now db = Inr (r, db')"
  obtains current g db1 fresh rows where "readSettings db t = Inr current" and "se_revision current = e"
    and "nextGeneration db = Inr (g, db1)"
    and "write_settings t e fresh (se_sandbox r) (se_approvalPolicy r) now (db_thread_permissions db1) = Inr rows"
    and "se_approvalPolicy r = (case sp_approvalPolicy patch of Some p \<Rightarrow> Some p | None \<Rightarrow> se_approvalPolicy current)"
    and "db' = put_observation t g (db1\<lparr>db_thread_permissions := rows\<rparr>)"
  using assms that unfolding threadSettings_save_def Let_def
  by (cases "requireThreadId t") (auto simp: bind_result_Inr split: if_splits)

lemma readSettings_revision: "readSettings db t = Inr current \<Longrightarrow> se_revision current = settings_revision db t"
  by (auto simp: readSettings_def settings_revision_def bind_result_Inr sql_integer_def
      split: option.splits json_text.splits if_splits)

lemma put_observation_frame [simp]:
  "db_thread_permissions (put_observation t g db) = db_thread_permissions db"
  "db_metadata (put_observation t g db) = db_metadata db"
  by (simp_all add: put_observation_def)

interpretation settings_store: optimistic_store threadSettings_save settings_revision settings_valid
proof unfold_locales
  fix db t e p now r db'
  assume v: "settings_valid db" and u: "threadSettings_save t e p now db = Inr (r, db')"
  obtain current g db1 fresh rows where s: "readSettings db t = Inr current" "se_revision current = e"
      "nextGeneration db = Inr (g, db1)"
      "write_settings t e fresh (se_sandbox r) (se_approvalPolicy r) now (db_thread_permissions db1) = Inr rows"
      "db' = put_observation t g (db1\<lparr>db_thread_permissions := rows\<rparr>)"
    by (rule save_effect [OF u])
  have ps: "db_thread_permissions db1 = db_thread_permissions db"
    using s(3) by (auto elim!: nextGeneration_effect)
  have "t_keyed tpm_thread_id (db_thread_permissions db)" using v by (simp add: settings_valid_def)
  note w = write_settings_effect [OF this s(4) [unfolded ps]]
  show "settings_valid db' \<and> settings_revision db t = e \<and> settings_revision db' t = e + 1 \<and>
      (\<forall>k'. k' \<noteq> t \<longrightarrow> settings_revision db' k' = settings_revision db k')"
    using w readSettings_revision [OF s(1)] s(2,5) by (auto simp: settings_valid_def settings_revision_def)
qed


section \<open>Observations in causal order\<close>

definition generation :: "user_db \<Rightarrow> int" where
  "generation db = (case db_metadata db of Some md \<Rightarrow> md_thread_permission_generation md | None \<Rightarrow> 0)"

text \<open>The generation of the last observation or change of a thread, -1 when there is none.\<close>

definition observed :: "user_db \<Rightarrow> string \<Rightarrow> int" where
  "observed db t = (case t_find ob_thread_id t (db_observations db) of Some r \<Rightarrow> ob_generation r | None \<Rightarrow> -1)"

definition observations_inv :: "user_db \<Rightarrow> bool" where
  "observations_inv db \<longleftrightarrow> 0 \<le> generation db \<and> (\<forall>r \<in> set (db_observations db). ob_generation r \<le> generation db)"

datatype settings_op =
    TSave string int settings_patch timestamp
  | TRemove string
  | TBegin "string option" timestamp
  | TRepair string int timestamp
  | TObserve string tui_snapshot "int \<times> timestamp"

fun settings_exec :: "settings_op \<Rightarrow> user_db \<Rightarrow> user_db" where
  "settings_exec (TSave t e patch now) db = snd (run_tx (threadSettings_save t e patch now) db)"
| "settings_exec (TRemove t) db = snd (run_tx (threadSettings_remove t) db)"
| "settings_exec (TBegin t now) db = snd (run_tx (beginObservation t now) db)"
| "settings_exec (TRepair t expected now) db = snd (run_tx (claimRepairObservation t expected now) db)"
| "settings_exec (TObserve t snapshot causal) db = snd (run_tx (saveObserved_tx t snapshot causal) db)"

text \<open>What a call may do: the generation grows and the mark of one thread is moved up to at most it.\<close>

definition moves_on :: "user_db \<Rightarrow> user_db \<Rightarrow> bool" where
  "moves_on db db' \<longleftrightarrow> generation db \<le> generation db' \<and>
     (db_observations db' = db_observations db \<or>
      (\<exists>t g. db_observations db' = t_replace ob_thread_id \<lparr>ob_thread_id = t, ob_generation = g\<rparr> (db_observations db) \<and>
        observed db t \<le> g \<and> g \<le> generation db'))"

lemma t_find_replace: "t_find key k (t_replace key row rows) = (if k = key row then Some row else t_find key k rows)"
  by (auto simp: t_replace_def t_find_delete_key split: option.splits)

lemma moves_on_facts:
  assumes "observations_inv db" "moves_on db db'"
  shows "observations_inv db'" and "observed db t \<le> observed db' t"
proof -
  have "observations_inv db' \<and> observed db t \<le> observed db' t"
  proof (cases "db_observations db' = db_observations db")
    case True
    then show ?thesis using assms by (fastforce simp: moves_on_def observations_inv_def observed_def)
  next
    case False
    then obtain s g where obs: "db_observations db' = t_replace ob_thread_id \<lparr>ob_thread_id = s, ob_generation = g\<rparr> (db_observations db)"
      and g: "observed db s \<le> g" "g \<le> generation db'" and gen: "generation db \<le> generation db'"
      using assms(2) by (auto simp: moves_on_def)
    have "observations_inv db'"
      using assms(1) g gen by (fastforce simp: observations_inv_def obs t_replace_def set_t_delete)
    moreover have "observed db t \<le> observed db' t"
      using g(1) by (auto simp: observed_def obs t_find_replace)
    ultimately show ?thesis by blast
  qed
  then show "observations_inv db'" and "observed db t \<le> observed db' t" by blast+
qed

lemma observed_le:
  assumes "observations_inv db"
  shows "observed db t \<le> generation db"
proof (cases "t_find ob_thread_id t (db_observations db)")
  case (Some r)
  then have "r \<in> set (db_observations db)" using t_find_Some by fastforce
  then show ?thesis using assms Some by (auto simp: observations_inv_def observed_def)
qed (use assms in \<open>simp add: observed_def observations_inv_def\<close>)

lemma next_put_moves:
  assumes "observations_inv db" "nextGeneration db = Inr (g, db1)"
    and "db_metadata db' = db_metadata db1"
    and "db_observations db' = db_observations db \<or>
      db_observations db' = t_replace ob_thread_id \<lparr>ob_thread_id = t, ob_generation = g\<rparr> (db_observations db)"
  shows "moves_on db db'"
proof -
  obtain md where md: "db_metadata db = Some md" "g = md_thread_permission_generation md + 1"
    and db1: "db1 = db\<lparr>db_metadata := Some (md\<lparr>md_thread_permission_generation := g\<rparr>)\<rparr>"
    by (rule nextGeneration_effect [OF assms(2)])
  have "generation db' = g" "generation db = g - 1"
    using assms(3) md db1 by (simp_all add: generation_def)
  moreover have "observed db t \<le> g" using observed_le [OF assms(1), of t] calculation(2) by simp
  ultimately show ?thesis using assms(4) by (auto simp: moves_on_def)
qed

lemma nextGeneration_frame:
  assumes "nextGeneration db = Inr (g, db1)"
  shows "db_observations db1 = db_observations db" "db_thread_permissions db1 = db_thread_permissions db"
  using assms by (auto elim!: nextGeneration_effect)

lemma put_observation_rows:
  "db_observations (put_observation t g db) =
     t_replace ob_thread_id \<lparr>ob_thread_id = t, ob_generation = g\<rparr> (db_observations db)"
  by (simp add: put_observation_def)

lemma write_observation_effect: "writeThreadObservation t g db = Inr db' \<Longrightarrow> db' = put_observation t g db"
  by (auto simp: writeThreadObservation_def split: option.splits)

lemma save_moves:
  assumes "observations_inv db" "threadSettings_save t e patch now db = Inr (r, db')"
  shows "moves_on db db'" and "generation db < observed db' t"
proof -
  obtain g db1 rows where g: "nextGeneration db = Inr (g, db1)"
    and db': "db' = put_observation t g (db1\<lparr>db_thread_permissions := rows\<rparr>)"
    by (rule save_effect [OF assms(2)])
  show "moves_on db db'"
    by (rule next_put_moves [OF assms(1) g, where t = t]) (simp_all add: db' put_observation_rows nextGeneration_frame [OF g])
  show "generation db < observed db' t"
    using g by (auto simp: db' observed_def put_observation_rows t_find_replace generation_def elim!: nextGeneration_effect)
qed

lemma observe_moves:
  assumes "observations_inv db" "saveObserved_tx t snapshot causal db = Inr (u, db')"
  shows "moves_on db db'"
proof -
  from assms(2) obtain seen where seen: "readThreadObservation db t = Inr seen"
    by (cases "requireThreadId t"; cases "requireGeneration (fst causal)")
      (auto simp: saveObserved_tx_def bind_result_Inr)
  then have obs: "observed db t = (case seen of Some g \<Rightarrow> g | None \<Rightarrow> -1)"
    by (auto simp: readThreadObservation_def observed_def bind_result_Inr sql_integer_def split: option.splits if_splits)
  show ?thesis
  proof (cases "case seen of Some g \<Rightarrow> fst causal < g | None \<Rightarrow> False")
    case True
    then have "db' = db"
      using assms(2) seen by (cases "requireThreadId t"; cases "requireGeneration (fst causal)")
        (auto simp: saveObserved_tx_def)
    then show ?thesis by (simp add: moves_on_def)
  next
    case False
    with assms(2) seen obtain db1 db2 rows where ens: "ensureGeneration (fst causal) db = Inr db1"
      and wr: "writeThreadObservation t (fst causal) db1 = Inr db2"
      and db': "db' = db2\<lparr>db_thread_permissions := rows\<rparr>" and nn: "requireGeneration (fst causal) = None"
      by (cases "requireThreadId t"; cases "requireGeneration (fst causal)")
        (auto simp: saveObserved_tx_def bind_result_Inr Let_def)
    have db1: "db_observations db1 = db_observations db" "generation db \<le> generation db1" "fst causal \<le> generation db1"
      using ens by (auto simp: ensureGeneration_def generation_def bind_result_Inr sql_integer_def
          split: option.splits if_splits)
    have "0 \<le> fst causal" using nn by (auto simp: requireGeneration_def split: if_splits)
    then have "observed db t \<le> fst causal" using False obs by (auto split: option.splits)
    moreover have "generation db' = generation db1"
      using write_observation_effect [OF wr] db' by (simp add: generation_def)
    moreover have "db_observations db' = t_replace ob_thread_id \<lparr>ob_thread_id = t, ob_generation = fst causal\<rparr> (db_observations db)"
      using write_observation_effect [OF wr] db' db1(1) by (simp add: put_observation_rows)
    ultimately show ?thesis using db1(2,3) by (auto simp: moves_on_def)
  qed
qed

lemma moves_on_refl: "moves_on db db"
  by (simp add: moves_on_def)

lemma settings_exec_moves:
  assumes "observations_inv db"
  shows "moves_on db (settings_exec op db)"
proof (cases op)
  case (TSave t e patch now)
  then show ?thesis
    using save_moves(1) [OF assms] moves_on_refl
    by (cases rule: run_tx_cases [of "threadSettings_save t e patch now" db]) auto
next
  case (TObserve t snapshot causal)
  then show ?thesis
    using observe_moves [OF assms] moves_on_refl
    by (cases rule: run_tx_cases [of "saveObserved_tx t snapshot causal" db]) auto
next
  case (TRemove t)
  have "moves_on db db'" if r: "threadSettings_remove t db = Inr (u, db')" for u db'
  proof -
    from r obtain g db1 where g: "nextGeneration db = Inr (g, db1)"
      and db': "db_metadata db' = db_metadata db1"
        "db_observations db' = t_replace ob_thread_id \<lparr>ob_thread_id = t, ob_generation = g\<rparr> (db_observations db1)"
      by (cases "requireThreadId t") (auto simp: threadSettings_remove_def bind_result_Inr put_observation_rows
          dest!: write_observation_effect)
    show ?thesis by (rule next_put_moves [OF assms g, where t = t]) (simp_all add: db' nextGeneration_frame [OF g])
  qed
  then show ?thesis
    using TRemove moves_on_refl by (cases rule: run_tx_cases [of "threadSettings_remove t" db]) auto
next
  case (TBegin t now)
  have "moves_on db db'" if r: "beginObservation t now db = Inr (u, db')" for u db'
  proof (cases t)
    case None
    with r obtain g db1 where g: "nextGeneration db = Inr (g, db1)" "db' = db1"
      by (auto simp: beginObservation_def bind_result_Inr)
    then show ?thesis using next_put_moves [OF assms g(1)] nextGeneration_frame [OF g(1)] by simp
  next
    case (Some a)
    with r obtain g db1 where g: "nextGeneration db = Inr (g, db1)" and db': "db' = put_observation a g db1"
      by (cases "requireThreadId a") (auto simp: beginObservation_def bind_result_Inr dest!: write_observation_effect)
    show ?thesis
      by (rule next_put_moves [OF assms g, where t = a]) (simp_all add: db' put_observation_rows nextGeneration_frame [OF g])
  qed
  then show ?thesis
    using TBegin moves_on_refl by (cases rule: run_tx_cases [of "beginObservation t now" db]) auto
next
  case (TRepair t expected now)
  have "moves_on db db'" if r: "claimRepairObservation t expected now db = Inr (u, db')" for u db'
  proof (cases "db' = db")
    case False
    with r obtain g db1 where g: "nextGeneration db = Inr (g, db1)"
      and db': "db_metadata db' = db_metadata db1"
        "db_observations db' = t_replace ob_thread_id \<lparr>ob_thread_id = t, ob_generation = g\<rparr> (db_observations db1)"
      by (cases "requireThreadId t"; cases "requireGeneration expected")
        (auto simp: claimRepairObservation_def bind_result_Inr put_observation_rows split: if_splits
          dest!: write_observation_effect)
    show ?thesis by (rule next_put_moves [OF assms g, where t = t]) (simp_all add: db' nextGeneration_frame [OF g])
  qed (simp add: moves_on_refl)
  then show ?thesis
    using TRepair moves_on_refl by (cases rule: run_tx_cases [of "claimRepairObservation t expected now" db]) auto
qed

lemma settings_run_facts:
  assumes "observations_inv db"
  shows "observations_inv (fold settings_exec ops db)" and "observed db t \<le> observed (fold settings_exec ops db) t"
proof -
  have "observations_inv (fold settings_exec ops db) \<and> observed db t \<le> observed (fold settings_exec ops db) t"
    using assms
  proof (induction ops arbitrary: db)
    case (Cons op ops)
    note m = settings_exec_moves [OF Cons.prems, of op]
    show ?case
      using Cons.IH [OF moves_on_facts(1) [OF Cons.prems m]] moves_on_facts(2) [OF Cons.prems m, of t] by simp
  qed simp
  then show "observations_inv (fold settings_exec ops db)" and "observed db t \<le> observed (fold settings_exec ops db) t"
    by blast+
qed

text \<open>
  A late observation cannot undo a newer choice: once the user has saved settings for a thread,
  whatever calls follow, an observation of the terminal that was begun before that save is discarded and
  leaves the database as it is. The recorded generations never exceed the global one.
\<close>

theorem stale_observation_is_discarded:
  assumes "observations_inv db" and "threadSettings_save t e patch now db = Inr (r, db1)"
    and "0 \<le> g" and "g \<le> generation db" and "db2 = fold settings_exec ops db1"
    and "safe_integer (observed db2 t)"
  shows "saveObserved_tx t snapshot (g, at) db2 = Inr ((), db2) \<and> observations_inv db2"
proof -
  note inv1 = moves_on_facts(1) [OF assms(1) save_moves(1) [OF assms(1,2)]]
  have later: "g < observed db2 t"
    using save_moves(2) [OF assms(1,2)] settings_run_facts(2) [OF inv1, of t ops] assms(4,5) by simp
  then obtain row where row: "t_find ob_thread_id t (db_observations db2) = Some row" "observed db2 t = ob_generation row"
    using assms(3) by (auto simp: observed_def split: option.splits)
  have "requireThreadId t = None"
    using assms(2) by (auto simp: threadSettings_save_def split: option.splits)
  moreover have "requireGeneration g = None"
    using assms(3,6) later by (auto simp: requireGeneration_def safe_integer_def MAX_SAFE_INTEGER_def)
  moreover have "readThreadObservation db2 t = Inr (Some (ob_generation row))"
    using row assms(6) by (simp add: readThreadObservation_def sql_integer_def)
  ultimately have "saveObserved_tx t snapshot (g, at) db2 = Inr ((), db2)"
    using later row by (simp add: saveObserved_tx_def)
  then show ?thesis using settings_run_facts(1) [OF inv1] assms(5) by simp
qed

text \<open>
  A fault of \<open>save\<close>: it reads the stored settings through a view that shows simple approval
  policies only and writes the view back, so a granular approval policy that the terminal client stored
  for the thread is replaced by none when the user changes only the sandbox.
\<close>

theorem save_drops_granular_policy:
  assumes "settings_valid db" and "readTuiSettings db t = Inr before" and "tu_approvalPolicy before = Some (JObj fs)"
    and "sp_approvalPolicy patch = None" and "threadSettings_save t e patch now db = Inr (r, db')"
    and "readTuiSettings db' t = Inr after"
  shows "tu_approvalPolicy after = None"
proof -
  obtain current g db1 fresh rows where s: "readSettings db t = Inr current" "nextGeneration db = Inr (g, db1)"
      "write_settings t e fresh (se_sandbox r) (se_approvalPolicy r) now (db_thread_permissions db1) = Inr rows"
      "se_approvalPolicy r = (case sp_approvalPolicy patch of Some p \<Rightarrow> Some p | None \<Rightarrow> se_approvalPolicy current)"
      "db' = put_observation t g (db1\<lparr>db_thread_permissions := rows\<rparr>)"
    by (rule save_effect [OF assms(5)])
  have "se_approvalPolicy current = None"
    using s(1) assms(2,3) by (auto simp: readSettings_def readTuiSettings_def bind_result_Inr
        split: option.splits json_text.splits if_splits)
  then have pol: "se_approvalPolicy r = None" using s(4) assms(4) by simp
  have "t_keyed tpm_thread_id (db_thread_permissions db1)"
    using assms(1) nextGeneration_frame [OF s(2)] by (simp add: settings_valid_def)
  from write_settings_effect(3) [OF this s(3)] obtain row where
    "t_find tpm_thread_id t rows = Some row" "tpm_approval_policy_json row = policy_json None"
    using pol by auto
  then show ?thesis
    using assms(6) s(5) by (auto simp: readTuiSettings_def policy_json_def bind_result_Inr)
qed

section \<open>Witnesses\<close>

definition example_patch :: settings_patch where
  "example_patch = \<lparr>sp_sandbox = Some ''read-only'', sp_approvalPolicy = None\<rparr>"

definition granular_policy :: "(string \<times> js) list" where
  "granular_policy = [(''granular'', JObj [(''sandbox_approval'', JBool True), (''rules'', JBool True),
     (''skill_approval'', JBool False), (''request_permissions'', JBool True), (''mcp_elicitations'', JBool False)])]"

definition observed_db :: user_db where
  "observed_db = settings_exec (TObserve ''t1'' \<lparr>ts_approvalPolicy = Some (JObj granular_policy),
     ts_approvalsReviewer = None, ts_sandboxPolicy = None\<rparr> (3, 100)) (empty_user_db 0)"

lemma empty_observations_inv: "observations_inv (empty_user_db now)"
  by (simp add: observations_inv_def generation_def empty_user_db_def)


theorem stale_observation_is_discarded_witness:
  "let db1 = settings_exec (TSave ''t1'' 0 example_patch 5) (empty_user_db 0);
       snapshot = \<lparr>ts_approvalPolicy = None, ts_approvalsReviewer = None, ts_sandboxPolicy = None\<rparr>
   in saveObserved_tx ''t1'' snapshot (0, 4) db1 = Inr ((), db1)"
proof -
  let ?x = "threadSettings_save ''t1'' 0 example_patch 5 (empty_user_db 0)"
  have "\<not> isl ?x" by code_simp
  then obtain r db1 where x: "?x = Inr (r, db1)" by (cases ?x) auto
  then have e: "settings_exec (TSave ''t1'' 0 example_patch 5) (empty_user_db 0) = db1" by simp
  have "safe_integer (observed (settings_exec (TSave ''t1'' 0 example_patch 5) (empty_user_db 0)) ''t1'')"
    by code_simp
  from stale_observation_is_discarded [OF empty_observations_inv x, of 0 db1 "[]"] this show ?thesis
    unfolding e by (simp add: generation_def empty_user_db_def)
qed

theorem save_drops_granular_policy_witness:
  "\<exists>before after. readTuiSettings observed_db ''t1'' = Inr before \<and> tu_approvalPolicy before = Some (JObj granular_policy) \<and>
     readTuiSettings (settings_exec (TSave ''t1'' 1 example_patch 200) observed_db) ''t1'' = Inr after \<and>
     tu_approvalPolicy after = None"
proof -
  let ?x = "threadSettings_save ''t1'' 1 example_patch 200 observed_db"
  let ?b = "readTuiSettings observed_db ''t1''"
  let ?a = "readTuiSettings (settings_exec (TSave ''t1'' 1 example_patch 200) observed_db) ''t1''"
  have "\<not> isl ?x" "\<not> isl ?b" "\<not> isl ?a" and pol: "tu_approvalPolicy (projr ?b) = Some (JObj granular_policy)"
    by code_simp+
  then obtain r db' before after where x: "?x = Inr (r, db')" and b: "?b = Inr before" and a: "?a = Inr after"
    by (cases ?x; cases ?b; cases ?a) auto
  have v: "settings_valid observed_db" by code_simp
  have e: "settings_exec (TSave ''t1'' 1 example_patch 200) observed_db = db'" using x by simp
  have "tu_approvalPolicy after = None"
    by (rule save_drops_granular_policy [OF v b _ _ x, of granular_policy])
      (use pol b a e in \<open>simp_all add: example_patch_def\<close>)
  then show ?thesis using b a pol by auto
qed

end
