(* ===== verification/Identity_Repository.thy ===== *)
theory Identity_Repository
  imports User_Db
begin

text \<open>
  Web identities (\<open>apps/agent/src/v2/repositories/identity-repository.ts\<close>): passkeys, the password
  record, trusted devices and their pairing grants, recovery codes and handoffs. Random identifiers,
  secrets and the clock are arguments; SHA-256 is the parameter \<open>sha256\<close>.
\<close>

section \<open>Records and conversions\<close>

text \<open>The options of the constructor.\<close>

record identity_options =
  io_recoveryHandoffs :: bool
  io_securityAudit :: bool

record identity_status_record =
  is_passkeys :: nat
  is_password :: bool
  is_trustedDevices :: nat
  is_unusedRecoveryCodes :: nat

record passkey_credential =
  pc_id :: string
  pc_publicKey :: bytes
  pc_counter :: int

record pairing_grant =
  pg_pairingId :: string
  pg_secret :: string
  pg_expiresAt :: timestamp

text \<open>
  UTF-8 for the characters of the model (code points below 256). Bytes that encode another character, or
  none, are refused, as the fatal decoder refuses malformed input.
\<close>

fun utf8_char :: "char \<Rightarrow> bytes" where
  "utf8_char c = (let n = of_char c in if n < 128 then [n] else [192 + n div 64, 128 + n mod 64])"

definition encodeCredentialId :: "string \<Rightarrow> bytes" where
  "encodeCredentialId value = concat (map utf8_char value)"

fun utf8_decode :: "bytes \<Rightarrow> string option" where
  "utf8_decode [] = Some []"
| "utf8_decode (b # bs) =
     (if b < 128 then map_option ((#) (char_of b)) (utf8_decode bs)
      else case bs of
        [] \<Rightarrow> None
      | b' # bs' \<Rightarrow>
          if (b = 194 \<or> b = 195) \<and> 128 \<le> b' \<and> b' < 192
          then map_option ((#) (char_of ((b - 192) * 64 + (b' - 128)))) (utf8_decode bs')
          else None)"

definition decodeCredentialId :: "bytes \<Rightarrow> ce_error + string" where
  "decodeCredentialId value =
     (case utf8_decode value of
        None \<Rightarrow> Inl (Error ''The encoded data was not valid for encoding utf-8'')
      | Some decoded \<Rightarrow> if decoded = [] then Inl (Error ''Credential ID is empty'') else Inr decoded)"

definition identityInitialized :: "user_db \<Rightarrow> bool" where
  "identityInitialized db \<longleftrightarrow> db_passkeys db \<noteq> [] \<or> db_password db \<noteq> None"

definition readDevice :: "user_db \<Rightarrow> string \<Rightarrow> trusted_device_row option" where
  "readDevice db i = t_find dv_id i (db_devices db)"

fun device_id_char :: "char \<Rightarrow> bool" where
  "device_id_char c \<longleftrightarrow>
     (CHR ''A'' \<le> c \<and> c \<le> CHR ''Z'') \<or> (CHR ''a'' \<le> c \<and> c \<le> CHR ''z'') \<or>
     (CHR ''0'' \<le> c \<and> c \<le> CHR ''9'') \<or> c = CHR ''_'' \<or> c = CHR ''-''"

definition validateDevice :: "string \<Rightarrow> string \<Rightarrow> bytes \<Rightarrow> ce_error option" where
  "validateDevice i name key =
     (if i = [] \<or> 128 < length i \<or> \<not> list_all device_id_char i then Some (Error ''Invalid device ID'')
      else if name = [] \<or> 128 < length name then Some (Error ''Invalid device name'')
      else if length key \<noteq> 32 then Some (Error ''Invalid device public key'')
      else None)"

definition invalidPairing :: ce_error where
  "invalidPairing = Error ''Pairing grant is invalid or already used''"

definition security_audit ::
  "identity_options \<Rightarrow> string \<Rightarrow> string \<Rightarrow> string option \<Rightarrow> timestamp \<Rightarrow> user_db \<Rightarrow> ce_error + user_db" where
  "security_audit opts auditId kind subject now db =
     (if io_securityAudit opts then insert_audit auditId kind subject now db else Inr db)"

section \<open>Operations\<close>

definition identity_status :: "user_db \<Rightarrow> identity_status_record" where
  "identity_status db =
     \<lparr>is_passkeys = length (db_passkeys db), is_password = (db_password db \<noteq> None),
      is_trustedDevices = t_count (\<lambda>d. dv_revoked_at d = None) (db_devices db),
      is_unusedRecoveryCodes = t_count (\<lambda>r. rc_used_at r = None) (db_recovery_codes db)\<rparr>"

definition identity_passkeys :: "user_db \<Rightarrow> ce_error + passkey_credential list" where
  "identity_passkeys db =
     map_result (\<lambda>r.
       bind_result (decodeCredentialId (pk_credential_id r)) (\<lambda>i.
       bind_result (sql_integer (pk_sign_count r) ''credential sign count'') (\<lambda>n.
         Inr \<lparr>pc_id = i, pc_publicKey = pk_public_key r, pc_counter = n\<rparr>)))
       (sort_key pk_created_at (db_passkeys db))"

text \<open>The INSERT of each hash in turn.\<close>

fun insert_recovery_codes :: "bytes list \<Rightarrow> timestamp \<Rightarrow> recovery_code_row list \<Rightarrow> ce_error + recovery_code_row list" where
  "insert_recovery_codes [] now rows = Inr rows"
| "insert_recovery_codes (h # hs) now rows =
     bind_result (t_insert rc_hash ''recovery_codes'' \<lparr>rc_hash = h, rc_created_at = now, rc_used_at = None\<rparr> rows)
       (\<lambda>rows1. insert_recovery_codes hs now rows1)"

definition identity_addPasskey ::
  "identity_options \<Rightarrow> string \<Rightarrow> bytes \<Rightarrow> int \<Rightarrow> bool \<Rightarrow> bytes list \<Rightarrow> string \<Rightarrow> timestamp \<Rightarrow> (user_db, unit) tx" where
  "identity_addPasskey opts i publicKey counter requireUninitialized recoveryHashes auditId now db =
     (if requireUninitialized \<and> identityInitialized db then Inl (Error ''Web identity is already initialized'')
      else if counter < 0 then Inl (SqlConstraint ''CHECK constraint failed: sign_count'')
      else bind_result (t_insert pk_credential_id ''passkeys''
          \<lparr>pk_credential_id = encodeCredentialId i, pk_public_key = publicKey, pk_sign_count = counter,
           pk_created_at = now\<rparr> (db_passkeys db)) (\<lambda>keys.
        bind_result (insert_recovery_codes recoveryHashes now (db_recovery_codes db)) (\<lambda>codes.
        bind_result (security_audit opts auditId ''passkey/registered'' None now
            (db\<lparr>db_passkeys := keys, db_recovery_codes := codes\<rparr>)) (\<lambda>db1. Inr ((), db1)))))"

definition identity_updatePasskeyCounter :: "string \<Rightarrow> int \<Rightarrow> (user_db, unit) tx" where
  "identity_updatePasskeyCounter i counter db =
     (let selected = (\<lambda>r. pk_credential_id r = encodeCredentialId i) in
      if t_count selected (db_passkeys db) \<noteq> 0 \<and> counter < 0
      then Inl (SqlConstraint ''CHECK constraint failed: sign_count'')
      else if t_count selected (db_passkeys db) \<noteq> 1
      then Inl (Error ''Passkey disappeared during authentication'')
      else Inr ((), db\<lparr>db_passkeys := t_update selected (\<lambda>r. r\<lparr>pk_sign_count := counter\<rparr>) (db_passkeys db)\<rparr>))"

definition identity_passwordRecord :: "user_db \<Rightarrow> string option" where
  "identity_passwordRecord db = map_option pw_registration_record (db_password db)"

definition identity_savePassword ::
  "identity_options \<Rightarrow> string \<Rightarrow> bool \<Rightarrow> string \<Rightarrow> timestamp \<Rightarrow> (user_db, unit) tx" where
  "identity_savePassword opts registrationRecord requireUninitialized auditId now db =
     (if requireUninitialized \<and> identityInitialized db then Inl (Error ''Web identity is already initialized'')
      else bind_result (security_audit opts auditId ''password/registered'' None now
          (db\<lparr>db_password := Some \<lparr>pw_registration_record = registrationRecord, pw_updated_at = now\<rparr>\<rparr>))
        (\<lambda>db1. Inr ((), db1)))"

definition identity_rememberDevice ::
  "identity_options \<Rightarrow> string \<Rightarrow> string \<Rightarrow> bytes \<Rightarrow> string \<Rightarrow> timestamp \<Rightarrow> (user_db, trusted_device_row option) tx" where
  "identity_rememberDevice opts i name publicKey auditId now db =
     (let finish = (\<lambda>db1. bind_result (security_audit opts auditId ''device/remembered'' (Some i) now db1)
            (\<lambda>db2. Inr (readDevice db2 i, db2)))
      in case readDevice db i of
           Some existing \<Rightarrow>
             if dv_public_key existing \<noteq> publicKey then Inl (DeviceBindingConflictError i)
             else finish (db\<lparr>db_devices := t_update (\<lambda>d. dv_id d = i)
                    (\<lambda>d. d\<lparr>dv_name := name, dv_revoked_at := None\<rparr>) (db_devices db)\<rparr>)
         | None \<Rightarrow>
             bind_result (t_insert dv_id ''trusted_devices''
                 \<lparr>dv_id = i, dv_name = name, dv_public_key = publicKey, dv_created_at = now, dv_revoked_at = None\<rparr>
                 (db_devices db)) (\<lambda>rows. finish (db\<lparr>db_devices := rows\<rparr>)))"

definition identity_issuePairing ::
  "(string \<Rightarrow> bytes) \<Rightarrow> string \<Rightarrow> string \<Rightarrow> int \<Rightarrow> timestamp \<Rightarrow> (user_db, pairing_grant) tx" where
  "identity_issuePairing sha256 pairingId secret ttlMs now db =
     (if \<not> safe_integer ttlMs \<or> ttlMs \<le> 0 then Inl (Error ''Pairing lifetime must be positive'')
      else bind_result (t_insert pr_id ''pairing_sessions''
          \<lparr>pr_id = pairingId, pr_secret_hash = sha256 secret, pr_expires_at = now + ttlMs, pr_created_at = now\<rparr>
          (t_delete (\<lambda>p. pr_expires_at p \<le> now) (db_pairings db)))
        (\<lambda>rows. Inr (\<lparr>pg_pairingId = pairingId, pg_secret = secret, pg_expiresAt = now + ttlMs\<rparr>,
          db\<lparr>db_pairings := rows\<rparr>)))"

text \<open>
  The DELETE of an expired grant is followed by a \<open>throw\<close>, which rolls it back with the transaction: it
  leaves no trace in the value of this function.
\<close>

definition identity_consumePairing ::
  "identity_options \<Rightarrow> (string \<Rightarrow> bytes) \<Rightarrow> string \<Rightarrow> string \<Rightarrow> string \<Rightarrow> string \<Rightarrow> bytes \<Rightarrow> string \<Rightarrow> timestamp \<Rightarrow>
   (user_db, trusted_device_row option) tx" where
  "identity_consumePairing opts sha256 pairingId secret deviceId deviceName publicKey auditId now db =
     (case validateDevice deviceId deviceName publicKey of Some e \<Rightarrow> Inl e
      | None \<Rightarrow>
      case t_find pr_id pairingId (db_pairings db) of
        None \<Rightarrow> Inl invalidPairing
      | Some pairing \<Rightarrow>
          if pr_secret_hash pairing \<noteq> sha256 secret then Inl invalidPairing
          else if pr_expires_at pairing \<le> now
          then let db1 = db\<lparr>db_pairings := t_delete (\<lambda>p. pr_id p = pairingId) (db_pairings db)\<rparr>
               in Inl (Error ''Pairing grant has expired'')
          else if readDevice db deviceId \<noteq> None then Inl (Error ''Device ID is already registered'')
          else bind_result (t_insert dv_id ''trusted_devices''
              \<lparr>dv_id = deviceId, dv_name = deviceName, dv_public_key = publicKey, dv_created_at = now,
               dv_revoked_at = None\<rparr> (db_devices db)) (\<lambda>rows.
            bind_result (security_audit opts auditId ''device/paired'' (Some deviceId) now
                (db\<lparr>db_devices := rows, db_pairings := t_delete (\<lambda>p. pr_id p = pairingId) (db_pairings db)\<rparr>))
              (\<lambda>db1. Inr (readDevice db1 deviceId, db1))))"

definition identity_devices :: "user_db \<Rightarrow> trusted_device_row list" where
  "identity_devices db =
     map (\<lambda>d. the (readDevice db (dv_id d))) (sort_key (\<lambda>d. (dv_created_at d, dv_id d)) (db_devices db))"

definition identity_matchDevice :: "string \<Rightarrow> bytes \<Rightarrow> user_db \<Rightarrow> ce_error + trusted_device_row option" where
  "identity_matchDevice i publicKey db =
     (case readDevice db i of
        None \<Rightarrow> Inr None
      | Some device \<Rightarrow>
          if dv_public_key device \<noteq> publicKey
          then Inl (DeviceTrustRepositoryError ''KEY_MISMATCH'' ''Device key does not match trusted device'')
          else Inr (Some device))"

definition identity_verifyDevice :: "string \<Rightarrow> bytes \<Rightarrow> user_db \<Rightarrow> ce_error + trusted_device_row" where
  "identity_verifyDevice i publicKey db =
     bind_result (identity_matchDevice i publicKey db) (\<lambda>found. case found of
       None \<Rightarrow> Inl (DeviceTrustRepositoryError ''NOT_TRUSTED'' ''Device is not trusted'')
     | Some device \<Rightarrow>
         if dv_revoked_at device \<noteq> None then Inl (DeviceTrustRepositoryError ''REVOKED'' ''Device was revoked'')
         else Inr device)"

definition identity_revokeDevice :: "identity_options \<Rightarrow> string \<Rightarrow> string \<Rightarrow> timestamp \<Rightarrow> (user_db, bool) tx" where
  "identity_revokeDevice opts i auditId now db =
     (let selected = (\<lambda>d. dv_id d = i \<and> dv_revoked_at d = None);
          db1 = db\<lparr>db_devices := t_update selected (\<lambda>d. d\<lparr>dv_revoked_at := Some now\<rparr>) (db_devices db)\<rparr>
      in if t_count selected (db_devices db) = 1
         then bind_result (security_audit opts auditId ''device/revoked'' (Some i) now db1) (\<lambda>db2. Inr (True, db2))
         else Inr (False, db1))"

definition identity_recoveryHashes :: "identity_options \<Rightarrow> timestamp \<Rightarrow> user_db \<Rightarrow> bytes list" where
  "identity_recoveryHashes opts now db =
     map rc_hash (sort_key rc_created_at (filter (\<lambda>r. rc_used_at r = None) (db_recovery_codes db))) @
     (if \<not> io_recoveryHandoffs opts then []
      else map hf_hash (sort_key hf_created_at
             (filter (\<lambda>r. hf_used_at r = None \<and> now < hf_expires_at r) (db_handoffs db))))"

text \<open>The two UPDATE statements that mark a recovery authorization as used, and the rows they modified.\<close>

definition use_recovery :: "identity_options \<Rightarrow> bytes \<Rightarrow> timestamp \<Rightarrow> user_db \<Rightarrow> nat \<times> user_db" where
  "use_recovery opts h now db =
     (let code = (\<lambda>r. rc_hash r = h \<and> rc_used_at r = None);
          handoff = (\<lambda>r. hf_hash r = h \<and> hf_used_at r = None \<and> now < hf_expires_at r);
          n = t_count code (db_recovery_codes db);
          db1 = db\<lparr>db_recovery_codes := t_update code (\<lambda>r. r\<lparr>rc_used_at := Some now\<rparr>) (db_recovery_codes db)\<rparr>
      in if n = 0 \<and> io_recoveryHandoffs opts
         then (t_count handoff (db_handoffs db1),
               db1\<lparr>db_handoffs := t_update handoff (\<lambda>r. r\<lparr>hf_used_at := Some now\<rparr>) (db_handoffs db1)\<rparr>)
         else (n, db1))"

definition identity_consumeRecoveryHash ::
  "identity_options \<Rightarrow> bytes \<Rightarrow> string \<Rightarrow> timestamp \<Rightarrow> (user_db, unit) tx" where
  "identity_consumeRecoveryHash opts h auditId now db =
     (case use_recovery opts h now db of (n, db1) \<Rightarrow>
      if n \<noteq> 1 then Inl (Error ''Recovery authorization is invalid or already used'')
      else bind_result (security_audit opts auditId ''identity/recovered'' None now db1) (\<lambda>db2. Inr ((), db2)))"

definition identity_consumeRecoveryAndReplace ::
  "identity_options \<Rightarrow> bytes \<Rightarrow> bytes list \<Rightarrow> string \<Rightarrow> string \<Rightarrow> timestamp \<Rightarrow> (user_db, unit) tx" where
  "identity_consumeRecoveryAndReplace opts h replacementHashes auditId auditId2 now db =
     (if replacementHashes = [] then Inl (Error ''Recovery replacement cannot be empty'')
      else case use_recovery opts h now db of (n, db1) \<Rightarrow>
        if n \<noteq> 1 then Inl (Error ''Recovery authorization is invalid or already used'')
        else bind_result (insert_recovery_codes replacementHashes now []) (\<lambda>codes.
          bind_result (security_audit opts auditId ''identity/recovered'' None now (db1\<lparr>db_recovery_codes := codes\<rparr>)) (\<lambda>db2.
          bind_result (security_audit opts auditId2 ''recovery/rotated'' None now db2) (\<lambda>db3. Inr ((), db3)))))"

definition identity_replaceRecoveryCodes ::
  "identity_options \<Rightarrow> bytes list \<Rightarrow> string \<Rightarrow> timestamp \<Rightarrow> (user_db, unit) tx" where
  "identity_replaceRecoveryCodes opts hashes auditId now db =
     bind_result (insert_recovery_codes hashes now []) (\<lambda>codes.
     bind_result (security_audit opts auditId ''recovery/rotated'' None now (db\<lparr>db_recovery_codes := codes\<rparr>))
       (\<lambda>db1. Inr ((), db1)))"

definition identity_issueRecoveryHandoff ::
  "identity_options \<Rightarrow> bytes \<Rightarrow> int \<Rightarrow> string \<Rightarrow> timestamp \<Rightarrow> (user_db, timestamp) tx" where
  "identity_issueRecoveryHandoff opts h ttlMs auditId now db =
     (if \<not> io_recoveryHandoffs opts then Inl (Error ''Recovery handoffs are unavailable for this identity'')
      else if h = [] \<or> 4096 < length h then Inl (Error ''Recovery handoff hash is invalid'')
      else if \<not> safe_integer ttlMs \<or> ttlMs \<le> 0 then Inl (Error ''Recovery handoff lifetime is invalid'')
      else bind_result (t_insert hf_hash ''recovery_handoffs''
          \<lparr>hf_hash = h, hf_expires_at = now + ttlMs, hf_created_at = now, hf_used_at = None\<rparr>
          (t_delete (\<lambda>r. hf_expires_at r \<le> now \<or> hf_used_at r \<noteq> None) (db_handoffs db))) (\<lambda>rows.
        bind_result (security_audit opts auditId ''recovery/handoff-issued'' None now (db\<lparr>db_handoffs := rows\<rparr>))
          (\<lambda>db1. Inr (now + ttlMs, db1))))"

section \<open>Calls in sequence\<close>

text \<open>The operations that change the database, with their arguments.\<close>

datatype identity_op =
    I_addPasskey string bytes int bool "bytes list" string timestamp
  | I_counter string int
  | I_password string bool string timestamp
  | I_remember string string bytes string timestamp
  | I_issue string string int timestamp
  | I_consume string string string string bytes string timestamp
  | I_revoke string string timestamp
  | I_recover bytes string timestamp
  | I_recoverReplace bytes "bytes list" string string timestamp
  | I_replace "bytes list" string timestamp
  | I_handoff bytes int string timestamp

fun identity_exec :: "identity_options \<Rightarrow> (string \<Rightarrow> bytes) \<Rightarrow> (identity_op, user_db) exec" where
  "identity_exec opts sha (I_addPasskey i key n req hs a now) db =
     returns (run_tx (identity_addPasskey opts i key n req hs a now) db)"
| "identity_exec opts sha (I_counter i n) db = returns (run_tx (identity_updatePasskeyCounter i n) db)"
| "identity_exec opts sha (I_password rec req a now) db = returns (run_tx (identity_savePassword opts rec req a now) db)"
| "identity_exec opts sha (I_remember i name key a now) db =
     returns (run_tx (identity_rememberDevice opts i name key a now) db)"
| "identity_exec opts sha (I_issue p secret ttl now) db = returns (run_tx (identity_issuePairing sha p secret ttl now) db)"
| "identity_exec opts sha (I_consume p secret i name key a now) db =
     returns (run_tx (identity_consumePairing opts sha p secret i name key a now) db)"
| "identity_exec opts sha (I_revoke i a now) db = returns (run_tx (identity_revokeDevice opts i a now) db)"
| "identity_exec opts sha (I_recover h a now) db = returns (run_tx (identity_consumeRecoveryHash opts h a now) db)"
| "identity_exec opts sha (I_recoverReplace h hs a b now) db =
     returns (run_tx (identity_consumeRecoveryAndReplace opts h hs a b now) db)"
| "identity_exec opts sha (I_replace hs a now) db = returns (run_tx (identity_replaceRecoveryCodes opts hs a now) db)"
| "identity_exec opts sha (I_handoff h ttl a now) db =
     returns (run_tx (identity_issueRecoveryHandoff opts h ttl a now) db)"

text \<open>The PRIMARY KEY constraints of the tables.\<close>

definition identity_inv :: "user_db \<Rightarrow> bool" where
  "identity_inv db \<longleftrightarrow>
     t_keyed dv_id (db_devices db) \<and> t_keyed pr_id (db_pairings db) \<and> t_keyed pk_credential_id (db_passkeys db) \<and>
     t_keyed rc_hash (db_recovery_codes db) \<and> t_keyed hf_hash (db_handoffs db)"

section \<open>Effects of the operations\<close>

lemma security_audit_frame:
  "security_audit opts a kind subject now db = Inr db' \<Longrightarrow> \<exists>rows. db' = db\<lparr>db_audit := rows\<rparr>"
  by (cases "io_securityAudit opts") (auto simp: security_audit_def insert_audit_def split: sum.splits intro: exI [of _ "db_audit db"])

lemma insert_recovery_codes_rows:
  "insert_recovery_codes hs now rows = Inr rows' \<Longrightarrow>
     rows' = rows @ map (\<lambda>h. \<lparr>rc_hash = h, rc_created_at = now, rc_used_at = None\<rparr>) hs \<and>
     (t_keyed rc_hash rows \<longrightarrow> t_keyed rc_hash rows')"
proof (induction hs arbitrary: rows)
  case (Cons h hs)
  then obtain rows1 where r: "t_insert rc_hash ''recovery_codes'' \<lparr>rc_hash = h, rc_created_at = now, rc_used_at = None\<rparr> rows = Inr rows1"
    "insert_recovery_codes hs now rows1 = Inr rows'" by (auto simp: bind_result_Inr)
  from Cons.IH [OF r(2)] t_insert_rows [OF r(1)] t_insert_keyed [OF r(1)] show ?case by auto
qed simp

text \<open>Which tables an operation leaves alone.\<close>

fun on_devices :: "identity_op \<Rightarrow> bool" where
  "on_devices (I_remember i name key a now) = True"
| "on_devices (I_consume p secret i name key a now) = True"
| "on_devices (I_revoke i a now) = True"
| "on_devices _ = False"

fun on_pairings :: "identity_op \<Rightarrow> bool" where
  "on_pairings (I_issue p secret ttl now) = True"
| "on_pairings (I_consume p secret i name key a now) = True"
| "on_pairings _ = False"

fun on_recovery :: "identity_op \<Rightarrow> bool" where
  "on_recovery (I_addPasskey i key n req hs a now) = True"
| "on_recovery (I_recover h a now) = True"
| "on_recovery (I_recoverReplace h hs a b now) = True"
| "on_recovery (I_replace hs a now) = True"
| "on_recovery (I_handoff h ttl a now) = True"
| "on_recovery _ = False"

lemmas identity_defs = identity_addPasskey_def identity_updatePasskeyCounter_def identity_savePassword_def
  identity_rememberDevice_def identity_issuePairing_def identity_consumePairing_def identity_revokeDevice_def
  identity_consumeRecoveryHash_def identity_consumeRecoveryAndReplace_def identity_replaceRecoveryCodes_def
  identity_issueRecoveryHandoff_def

lemma use_recovery_frame:
  assumes "use_recovery opts h now db = (n, db')"
  shows "\<exists>codes handoffs. db' = db\<lparr>db_recovery_codes := codes, db_handoffs := handoffs\<rparr>"
proof -
  have "db' = db\<lparr>db_recovery_codes := db_recovery_codes db', db_handoffs := db_handoffs db'\<rparr>"
    using assms by (auto simp: use_recovery_def Let_def split: if_splits)
  then show ?thesis by blast
qed

lemma exec_failed_same: "identity_exec opts sha op db = (False, db') \<Longrightarrow> db' = db"
  by (cases op) (auto simp: returns_run_tx)

lemma exec_frame:
  assumes "identity_exec opts sha op db = (ok, db')"
  shows "\<not> on_devices op \<Longrightarrow> db_devices db' = db_devices db"
    and "\<not> on_pairings op \<Longrightarrow> db_pairings db' = db_pairings db"
    and "\<not> on_recovery op \<Longrightarrow> db_recovery_codes db' = db_recovery_codes db \<and> db_handoffs db' = db_handoffs db"
  using assms
  by (cases op; auto simp: returns_run_tx identity_defs bind_result_Inr Let_def
      dest!: security_audit_frame use_recovery_frame split: if_splits option.splits prod.splits)+

text \<open>Devices: the key of an id never changes, and only \<open>rememberDevice\<close> lifts a revocation.\<close>

fun remembers :: "string \<Rightarrow> identity_op \<Rightarrow> bool" where
  "remembers i (I_remember j name key a now) = (j = i)"
| "remembers i _ = False"

definition device_kept :: "bool \<Rightarrow> trusted_device_row \<Rightarrow> trusted_device_row option \<Rightarrow> bool" where
  "device_kept lifted d found \<longleftrightarrow>
     (\<exists>d'. found = Some d' \<and> dv_id d' = dv_id d \<and> dv_public_key d' = dv_public_key d \<and> dv_created_at d' = dv_created_at d \<and>
        (\<not> lifted \<longrightarrow> dv_revoked_at d \<noteq> None \<longrightarrow> dv_revoked_at d' \<noteq> None))"

lemma remember_devices:
  assumes "identity_rememberDevice opts i name key a now db = Inr (r, db')"
  shows "(readDevice db i = None \<and> db_devices db' = db_devices db @
       [\<lparr>dv_id = i, dv_name = name, dv_public_key = key, dv_created_at = now, dv_revoked_at = None\<rparr>]) \<or>
     (\<exists>d. readDevice db i = Some d \<and> dv_public_key d = key \<and> db_devices db' = t_update (\<lambda>d. dv_id d = i)
        (\<lambda>d. d\<lparr>dv_name := name, dv_revoked_at := None\<rparr>) (db_devices db))"
  using assms by (auto simp: identity_rememberDevice_def Let_def bind_result_Inr t_insert_def
      dest!: security_audit_frame split: option.splits if_splits)

lemma consume_tables:
  assumes "identity_consumePairing opts sha p secret i name key a now db = Inr (r, db')"
  shows "readDevice db i = None \<and> db_devices db' = db_devices db @
       [\<lparr>dv_id = i, dv_name = name, dv_public_key = key, dv_created_at = now, dv_revoked_at = None\<rparr>] \<and>
    t_find pr_id p (db_pairings db) \<noteq> None \<and> db_pairings db' = t_delete (\<lambda>x. pr_id x = p) (db_pairings db)"
  using assms by (auto simp: identity_consumePairing_def Let_def bind_result_Inr t_insert_def
      dest!: security_audit_frame split: option.splits if_splits)

lemma revoke_devices:
  assumes "identity_revokeDevice opts i a now db = Inr (r, db')"
  shows "db_devices db' = t_update (\<lambda>d. dv_id d = i \<and> dv_revoked_at d = None)
     (\<lambda>d. d\<lparr>dv_revoked_at := Some now\<rparr>) (db_devices db)"
  using assms by (auto simp: identity_revokeDevice_def Let_def bind_result_Inr
      dest!: security_audit_frame split: if_splits)

lemma exec_device:
  assumes "identity_exec opts sha op db = (ok, db')" and "readDevice db i = Some d"
  shows "device_kept (remembers i op) d (readDevice db' i)"
proof (cases "on_devices op \<and> ok")
  case False
  then have "db_devices db' = db_devices db"
    using exec_frame(1) [OF assms(1)] assms(1) by (cases ok) (auto dest: exec_failed_same)
  then show ?thesis using assms(2) by (simp add: device_kept_def readDevice_def)
next
  case True
  have "dv_id d = i" using assms(2) by (auto simp: readDevice_def dest: t_find_SomeD)
  with True show ?thesis
    using assms
    by (cases op) (auto simp: returns_run_tx readDevice_def device_kept_def t_find_update
        dest!: remember_devices consume_tables revoke_devices split: option.splits)
qed

section \<open>The invariant\<close>

lemma use_recovery_keyed:
  assumes "use_recovery opts h now db = (n, db')"
  shows "t_keyed rc_hash (db_recovery_codes db') = t_keyed rc_hash (db_recovery_codes db)"
    and "t_keyed hf_hash (db_handoffs db') = t_keyed hf_hash (db_handoffs db)"
  using assms by (auto simp: use_recovery_def Let_def t_keyed_update split: if_splits)

lemma devices_keyed:
  assumes "identity_exec opts sha op db = (ok, db')" "t_keyed dv_id (db_devices db)"
  shows "t_keyed dv_id (db_devices db')"
proof (cases "on_devices op \<and> ok")
  case False
  then show ?thesis using exec_frame(1) [OF assms(1)] assms by (cases ok) (auto dest: exec_failed_same)
next
  case True
  then show ?thesis
    using assms by (cases op) (auto simp: returns_run_tx readDevice_def t_keyed_update
        dest!: remember_devices consume_tables revoke_devices)
qed

lemma pairings_keyed:
  assumes "identity_exec opts sha op db = (ok, db')" "t_keyed pr_id (db_pairings db)"
  shows "t_keyed pr_id (db_pairings db')"
proof (cases "on_pairings op \<and> ok")
  case False
  then show ?thesis using exec_frame(2) [OF assms(1)] assms by (cases ok) (auto dest: exec_failed_same)
next
  case True
  then show ?thesis
    using assms by (cases op) (auto simp: returns_run_tx identity_issuePairing_def bind_result_Inr
        t_insert_def dest!: consume_tables split: if_splits)
qed

lemma recovery_keyed:
  assumes "identity_exec opts sha op db = (ok, db')" "t_keyed rc_hash (db_recovery_codes db)" "t_keyed hf_hash (db_handoffs db)"
  shows "t_keyed rc_hash (db_recovery_codes db') \<and> t_keyed hf_hash (db_handoffs db')"
proof (cases "on_recovery op \<and> ok")
  case False
  then show ?thesis using exec_frame(3) [OF assms(1)] assms by (cases ok) (auto dest: exec_failed_same)
next
  case True
  then show ?thesis
    using assms by (cases op) (auto simp: returns_run_tx identity_addPasskey_def identity_consumeRecoveryHash_def
        identity_consumeRecoveryAndReplace_def identity_replaceRecoveryCodes_def identity_issueRecoveryHandoff_def
        bind_result_Inr t_insert_def use_recovery_keyed
        dest!: security_audit_frame insert_recovery_codes_rows split: if_splits prod.splits)
qed

lemma passkeys_keyed:
  assumes "identity_exec opts sha op db = (ok, db')" "t_keyed pk_credential_id (db_passkeys db)"
  shows "t_keyed pk_credential_id (db_passkeys db')"
  using assms
  by (cases op) (auto simp: returns_run_tx identity_defs bind_result_Inr Let_def t_insert_def t_keyed_update
      dest!: security_audit_frame use_recovery_frame split: if_splits option.splits prod.splits)

lemma identity_exec_inv: "identity_inv db \<Longrightarrow> identity_exec opts sha op db = (ok, db') \<Longrightarrow> identity_inv db'"
  unfolding identity_inv_def
  using devices_keyed [of opts sha op db ok db'] pairings_keyed [of opts sha op db ok db']
    recovery_keyed [of opts sha op db ok db'] passkeys_keyed [of opts sha op db ok db'] by blast

section \<open>Ledgers\<close>

text \<open>A pairing grant is a stock of one that a successful pairing draws.\<close>

definition pairing_stock :: "string \<Rightarrow> user_db \<Rightarrow> nat" where
  "pairing_stock p db = (if t_find pr_id p (db_pairings db) = None then 0 else 1)"

fun pairing_draws :: "string \<Rightarrow> identity_op \<Rightarrow> nat" where
  "pairing_draws p (I_consume q secret i name key a now) = (if q = p then 1 else 0)"
| "pairing_draws p _ = 0"

fun pairing_fills :: "string \<Rightarrow> identity_op \<Rightarrow> nat" where
  "pairing_fills p (I_issue q secret ttl now) = (if q = p then 1 else 0)"
| "pairing_fills p _ = 0"

interpretation pairing_ledger: ledger "identity_exec opts sha" identity_inv pairing_stock pairing_draws pairing_fills
  for opts sha
proof
  fix db op ok db'
  assume "identity_inv db" "identity_exec opts sha op db = (ok, db')"
  then show "identity_inv db'" by (rule identity_exec_inv)
next
  fix db op db' k
  assume "identity_exec opts sha op db = (False, db')"
  then show "pairing_stock k db' \<le> pairing_stock k db" by (auto dest: exec_failed_same)
next
  fix db op db' k
  assume inv: "identity_inv db" and ex: "identity_exec opts sha op db = (True, db')"
  show "pairing_draws k op + pairing_stock k db' \<le> pairing_stock k db + pairing_fills k op"
  proof (cases "on_pairings op")
    case False
    then show ?thesis using exec_frame(2) [OF ex] by (cases op) (auto simp: pairing_stock_def)
  next
    case True
    then show ?thesis
      using ex inv by (cases op) (auto simp: returns_run_tx pairing_stock_def identity_issuePairing_def bind_result_Inr
          t_insert_def t_find_delete t_find_delete_key identity_inv_def dest!: consume_tables split: if_splits option.splits)
  qed
qed

text \<open>The unused authorizations with a given hash.\<close>

definition recovery_stock :: "bytes \<Rightarrow> user_db \<Rightarrow> nat" where
  "recovery_stock h db =
     t_count (\<lambda>r. rc_hash r = h \<and> rc_used_at r = None) (db_recovery_codes db) +
     t_count (\<lambda>r. hf_hash r = h \<and> hf_used_at r = None) (db_handoffs db)"

fun recovery_draws :: "bytes \<Rightarrow> identity_op \<Rightarrow> nat" where
  "recovery_draws h (I_recover k a now) = (if k = h then 1 else 0)"
| "recovery_draws h (I_recoverReplace k hs a b now) = (if k = h then 1 else 0)"
| "recovery_draws h _ = 0"

fun recovery_fills :: "bytes \<Rightarrow> identity_op \<Rightarrow> nat" where
  "recovery_fills h (I_addPasskey i key n req hs a now) = count_list hs h"
| "recovery_fills h (I_recoverReplace k hs a b now) = count_list hs h"
| "recovery_fills h (I_replace hs a now) = count_list hs h"
| "recovery_fills h (I_handoff k ttl a now) = (if k = h then 1 else 0)"
| "recovery_fills h _ = 0"

lemma count_new_codes:
  "t_count (\<lambda>r. rc_hash r = h \<and> rc_used_at r = None)
     (map (\<lambda>h. \<lparr>rc_hash = h, rc_created_at = now, rc_used_at = None\<rparr>) hs) = count_list hs h"
  by (induction hs) auto

lemma use_recovery_stock:
  assumes "use_recovery opts k now db = (n, db')"
  shows "recovery_stock h db' + (if k = h then n else 0) = recovery_stock h db"
proof -
  let ?code = "\<lambda>k r. rc_hash r = k \<and> rc_used_at r = None"
  let ?free = "\<lambda>k r. hf_hash r = k \<and> hf_used_at r = None"
  let ?live = "\<lambda>r. hf_hash r = k \<and> hf_used_at r = None \<and> now < hf_expires_at r"
  have codes: "t_count (?code h) (t_update (?code k) (\<lambda>r. r\<lparr>rc_used_at := Some now\<rparr>) rows) +
      (if k = h then t_count (?code k) rows else 0) = t_count (?code h) rows" for rows
    by (induction rows) auto
  have handoffs: "t_count (?free h) (t_update ?live (\<lambda>r. r\<lparr>hf_used_at := Some now\<rparr>) rows) +
      (if k = h then t_count ?live rows else 0) = t_count (?free h) rows" for rows
    by (induction rows) auto
  show ?thesis
    using assms codes [of "db_recovery_codes db"] handoffs [of "db_handoffs db"]
    by (auto simp: use_recovery_def recovery_stock_def Let_def t_update_count_0 split: if_splits)
qed

lemma recovery_stock_split:
  "recovery_stock h (db\<lparr>db_recovery_codes := codes\<rparr>) \<le>
     t_count (\<lambda>r. rc_hash r = h \<and> rc_used_at r = None) codes + recovery_stock h db"
  by (simp add: recovery_stock_def)

lemma recovery_step:
  assumes ex: "identity_exec opts sha op db = (True, db')"
  shows "recovery_draws h op + recovery_stock h db' \<le> recovery_stock h db + recovery_fills h op"
proof (cases "on_recovery op")
  case False
  then show ?thesis using exec_frame(3) [OF ex] by (cases op) (auto simp: recovery_stock_def)
next
  case True
  note facts = returns_run_tx bind_result_Inr recovery_stock_def count_new_codes
  show ?thesis
  proof (cases op)
    case (I_recover k a now)
    then obtain db1 where "use_recovery opts k now db = (1, db1)" "recovery_stock h db' = recovery_stock h db1"
      using ex by (auto simp: facts identity_consumeRecoveryHash_def dest!: security_audit_frame split: prod.splits if_splits)
    then show ?thesis using use_recovery_stock [of opts k now db 1 db1 h] I_recover by auto
  next
    case (I_recoverReplace k hs a b now)
    then obtain db1 codes where u: "use_recovery opts k now db = (1, db1)" and c: "insert_recovery_codes hs now [] = Inr codes"
      and s: "recovery_stock h db' = recovery_stock h (db1\<lparr>db_recovery_codes := codes\<rparr>)"
      using ex by (auto simp: returns_run_tx bind_result_Inr recovery_stock_def identity_consumeRecoveryAndReplace_def
          dest!: security_audit_frame split: prod.splits if_splits)
    have "recovery_stock h db' \<le> count_list hs h + recovery_stock h db1"
      using recovery_stock_split [of h codes db1] insert_recovery_codes_rows [OF c] s by (simp add: count_new_codes)
    then show ?thesis using use_recovery_stock [OF u, of h] I_recoverReplace by auto
  qed (use ex True in \<open>auto simp: facts identity_addPasskey_def identity_replaceRecoveryCodes_def
      identity_issueRecoveryHandoff_def t_insert_def t_count_delete_le
      dest!: security_audit_frame insert_recovery_codes_rows split: if_splits\<close>)
qed

interpretation recovery_ledger: ledger "identity_exec opts sha" identity_inv recovery_stock recovery_draws recovery_fills
  for opts sha
proof
  fix db op db' k
  assume "identity_exec opts sha op db = (False, db')"
  then show "recovery_stock k db' \<le> recovery_stock k db" by (auto dest: exec_failed_same)
qed (auto intro: identity_exec_inv recovery_step)

text \<open>The first registration draws the right to register without authentication.\<close>

definition setup_stock :: "unit \<Rightarrow> user_db \<Rightarrow> nat" where
  "setup_stock u db = (if identityInitialized db then 0 else 1)"

fun first_registration :: "unit \<Rightarrow> identity_op \<Rightarrow> nat" where
  "first_registration u (I_addPasskey i key n req hs a now) = (if req then 1 else 0)"
| "first_registration u (I_password rec req a now) = (if req then 1 else 0)"
| "first_registration u _ = 0"

lemma t_update_Nil_iff [simp]: "t_update p f rows = [] \<longleftrightarrow> rows = []"
  by (simp add: t_update_def)

lemma exec_initialized:
  assumes "identity_exec opts sha op db = (ok, db')" and "identityInitialized db"
  shows "identityInitialized db'"
  using assms
  by (cases op) (auto simp: returns_run_tx identity_defs bind_result_Inr Let_def t_insert_def identityInitialized_def
      dest!: security_audit_frame use_recovery_frame split: if_splits option.splits prod.splits)

lemma first_registration_initializes:
  assumes "identity_exec opts sha op db = (True, db')" and "first_registration u op \<noteq> 0"
  shows "\<not> identityInitialized db \<and> identityInitialized db' \<and> first_registration u op = 1"
  using assms
  by (cases op) (auto simp: returns_run_tx identity_addPasskey_def identity_savePassword_def bind_result_Inr t_insert_def
      identityInitialized_def dest!: security_audit_frame split: if_splits)

interpretation setup_ledger: ledger "identity_exec opts sha" "\<lambda>_. True" setup_stock first_registration "\<lambda>_ _. 0"
  for opts sha
proof
  fix db op db' k
  assume "identity_exec opts sha op db = (False, db')"
  then show "setup_stock k db' \<le> setup_stock k db" by (auto dest: exec_failed_same)
next
  fix db op db' k
  assume ex: "identity_exec opts sha op db = (True, db')"
  show "first_registration k op + setup_stock k db' \<le> setup_stock k db + 0"
    using first_registration_initializes [OF ex, of k] exec_initialized [OF ex]
    by (cases "first_registration k op = 0") (auto simp: setup_stock_def)
qed simp

section \<open>Properties\<close>

text \<open>
  Claim C21. One-time authorizations are one-time: in any sequence of calls, a pairing grant is consumed at
  most as often as it was issued, and a recovery hash at most as often as it was handed out, counting what
  is in store at the beginning. In particular a grant or code that was used cannot be used again, whatever
  happens in between.
\<close>

theorem grants_and_codes_are_single_use:
  assumes "identity_inv db"
  shows "tally (identity_exec opts sha) (pairing_draws p) ops db \<le>
      pairing_stock p db + tally (identity_exec opts sha) (pairing_fills p) ops db \<and>
    tally (identity_exec opts sha) (recovery_draws h) ops db \<le>
      recovery_stock h db + tally (identity_exec opts sha) (recovery_fills h) ops db"
  using pairing_ledger.drawn_le_filled [OF assms, of opts sha p ops] recovery_ledger.drawn_le_filled [OF assms, of opts sha h ops]
  by linarith

text \<open>
  Claim C31. A host cannot be taken over through first-time setup: of all calls that register a passkey or a
  password without prior authentication (\<open>requireUninitialized\<close>), at most one ever succeeds, and none
  once an identity exists.
\<close>

theorem first_setup_happens_once:
  "tally (identity_exec opts sha) (first_registration ()) ops db \<le> (if identityInitialized db then 0 else 1)"
  using setup_ledger.drawn_le_filled [of opts sha "()" ops db] by (simp add: setup_stock_def tally_zero)

lemma device_history:
  assumes "readDevice db i = Some d"
  shows "device_kept (\<exists>op \<in> set ops. remembers i op) d (readDevice (exec_run (identity_exec opts sha) ops db) i)"
  using assms
proof (induction ops arbitrary: db d)
  case Nil
  then show ?case by (simp add: device_kept_def)
next
  case (Cons op ops)
  obtain ok db1 where ex: "identity_exec opts sha op db = (ok, db1)" by (cases "identity_exec opts sha op db")
  from exec_device [OF ex Cons.prems] obtain d1 where d1: "readDevice db1 i = Some d1"
    and k: "device_kept (remembers i op) d (Some d1)" by (auto simp: device_kept_def)
  from Cons.IH [OF d1] k ex show ?case by (auto simp: device_kept_def)
qed

text \<open>
  A device id stays bound to its key: once a device is registered, no sequence of calls makes
  another key verify under its id. And a revoked device stays revoked until it is remembered again after
  an authentication: until then its own key is answered with \<open>REVOKED\<close>.
\<close>

theorem device_binding_is_permanent:
  assumes "readDevice db i = Some d" and "db' = exec_run (identity_exec opts sha) ops db"
  shows "(\<forall>key. key \<noteq> dv_public_key d \<longrightarrow> identity_verifyDevice i key db' =
      Inl (DeviceTrustRepositoryError ''KEY_MISMATCH'' ''Device key does not match trusted device'')) \<and>
    (dv_revoked_at d \<noteq> None \<longrightarrow> (\<forall>op \<in> set ops. \<not> remembers i op) \<longrightarrow>
      identity_verifyDevice i (dv_public_key d) db' = Inl (DeviceTrustRepositoryError ''REVOKED'' ''Device was revoked''))"
  using device_history [OF assms(1), of ops opts sha] assms(2)
  by (auto simp: device_kept_def identity_verifyDevice_def identity_matchDevice_def)

text \<open>
  An expired grant is refused, but the DELETE that should remove it is rolled back by the exception thrown
  after it: the row stays until the next grant is issued.
\<close>

lemma expired_pairing_is_kept:
  assumes "validateDevice i name key = None" and "t_find pr_id p (db_pairings db) = Some g"
    and "pr_secret_hash g = sha secret" and "pr_expires_at g \<le> now"
  shows "run_tx (identity_consumePairing opts sha p secret i name key a now) db =
    (Inl (Error ''Pairing grant has expired''), db)"
  using assms by (simp add: identity_consumePairing_def)

text \<open>Credential ids survive their encoding.\<close>

lemma utf8_decode_char: "utf8_decode (utf8_char c @ bs) = map_option ((#) c) (utf8_decode bs)"
proof -
  have n: "of_char c < (256::nat)" by simp
  have r: "of_char c = (of_char c div 64) * 64 + of_char c mod (64::nat)" by simp
  show ?thesis
  proof (cases "of_char c < (128::nat)")
    case False
    then have "of_char c div 64 = (2::nat) \<or> of_char c div 64 = (3::nat)" using n by linarith
    then show ?thesis using False r by (auto simp: Let_def simp flip: r)
  qed (simp add: Let_def)
qed

lemma credential_id_round_trip: "i \<noteq> [] \<Longrightarrow> decodeCredentialId (encodeCredentialId i) = Inr i"
proof -
  have "utf8_decode (encodeCredentialId s) = Some s" for s
    by (induction s) (simp_all add: encodeCredentialId_def utf8_decode_char del: utf8_char.simps)
  then show "i \<noteq> [] \<Longrightarrow> decodeCredentialId (encodeCredentialId i) = Inr i" by (simp add: decodeCredentialId_def)
qed

section \<open>Witnesses\<close>

definition example_options :: identity_options where
  "example_options = \<lparr>io_recoveryHandoffs = True, io_securityAudit = True\<rparr>"

definition example_sha :: "string \<Rightarrow> bytes" where
  "example_sha s = map of_char s"

definition example_key :: bytes where
  "example_key = replicate 32 7"

text \<open>A grant is issued and used twice; a recovery code is registered and used twice.\<close>

definition pairing_history :: "identity_op list" where
  "pairing_history =
     [I_issue ''p1'' ''secret'' 1000 10, I_consume ''p1'' ''secret'' ''phone'' ''Phone'' example_key ''a1'' 20,
      I_consume ''p1'' ''secret'' ''tablet'' ''Tablet'' example_key ''a2'' 30, I_revoke ''phone'' ''a6'' 70]"

definition recovery_history :: "identity_op list" where
  "recovery_history =
     [I_addPasskey ''cred'' [1] 0 True [[9]] ''a3'' 40, I_recover [9] ''a4'' 50, I_recover [9] ''a5'' 60]"

lemma empty_identity_inv: "identity_inv (empty_user_db now)"
  by (simp add: identity_inv_def empty_user_db_def)

theorem grants_and_codes_are_single_use_witness:
  "tally (identity_exec example_options example_sha) (pairing_draws ''p1'') (take 3 pairing_history) (empty_user_db 0) \<le> 1 \<and>
   tally (identity_exec example_options example_sha) (recovery_draws [9]) recovery_history (empty_user_db 0) \<le> 1"
proof -
  have p: "pairing_stock ''p1'' (empty_user_db 0) = 0"
    "tally (identity_exec example_options example_sha) (pairing_fills ''p1'') (take 3 pairing_history) (empty_user_db 0) = 1"
    by code_simp+
  have r: "recovery_stock [9] (empty_user_db 0) = 0"
    "tally (identity_exec example_options example_sha) (recovery_fills [9]) recovery_history (empty_user_db 0) = 1"
    by code_simp+
  show ?thesis
    using grants_and_codes_are_single_use [OF empty_identity_inv, of example_options example_sha "''p1''" "take 3 pairing_history" 0 "[]"]
      grants_and_codes_are_single_use [OF empty_identity_inv, of example_options example_sha "[]" recovery_history 0 "[9]"]
    unfolding p r by simp
qed

theorem device_binding_is_permanent_witness:
  "identity_verifyDevice ''phone'' example_key
     (exec_run (identity_exec example_options example_sha) [I_handoff [5] 100 ''a7'' 80]
       (exec_run (identity_exec example_options example_sha) pairing_history (empty_user_db 0))) =
   Inl (DeviceTrustRepositoryError ''REVOKED'' ''Device was revoked'')"
proof -
  let ?db = "exec_run (identity_exec example_options example_sha) pairing_history (empty_user_db 0)"
  let ?d = "\<lparr>dv_id = ''phone'', dv_name = ''Phone'', dv_public_key = example_key, dv_created_at = 20, dv_revoked_at = Some 70\<rparr>"
  have "readDevice ?db ''phone'' = Some ?d" by code_simp
  from device_binding_is_permanent [OF this refl, of example_options example_sha "[I_handoff [5] 100 ''a7'' 80]"]
  show ?thesis by simp
qed

end
