(* ===== verification/Agent_Sessions.thy ===== *)
theory Agent_Sessions
  imports User_Db
begin

text \<open>
  Two in-memory guards of the agent: the limiter of authentication attempts
  (\<open>services/authentication-rate-limiter.ts\<close>) and the reconnect tickets
  (\<open>services/session-ticket-service.ts\<close>). The clock and the random token are arguments of the calls;
  SHA-256 is the parameter \<open>sha\<close>.
\<close>

section \<open>Authentication rate limiter\<close>

datatype attempt_kind = Password_attempt | Recovery_attempt

record rate_policy =
  rp_limit :: int
  rp_windowMs :: int

record rate_limiter =
  rl_attempts :: "attempt_kind \<Rightarrow> timestamp list"
  rl_policies :: "attempt_kind \<Rightarrow> rate_policy"

fun default_policy :: "attempt_kind \<Rightarrow> rate_policy" where
  "default_policy Password_attempt = \<lparr>rp_limit = 20, rp_windowMs = 5 * 60000\<rparr>"
| "default_policy Recovery_attempt = \<lparr>rp_limit = 10, rp_windowMs = 5 * 60000\<rparr>"

definition validatePolicy :: "rate_policy \<Rightarrow> ce_error + rate_policy" where
  "validatePolicy policy =
     (if \<not> safe_integer (rp_limit policy) \<or> rp_limit policy < 1 \<or>
         \<not> safe_integer (rp_windowMs policy) \<or> rp_windowMs policy < 1
      then Inl (Error ''Authentication rate-limit policy is invalid'') else Inr policy)"

definition limiter_new :: "(attempt_kind \<Rightarrow> rate_policy option) \<Rightarrow> ce_error + rate_limiter" where
  "limiter_new policies =
     (let chosen = (\<lambda>k. case policies k of Some p \<Rightarrow> p | None \<Rightarrow> default_policy k) in
      bind_result (validatePolicy (chosen Password_attempt)) (\<lambda>_.
      bind_result (validatePolicy (chosen Recovery_attempt)) (\<lambda>_.
        Inr \<lparr>rl_attempts = (\<lambda>_. []), rl_policies = chosen\<rparr>)))"

definition rate_limited :: ce_error where
  "rate_limited = GatewayV2Error ((gateway_v2_error ''AUTHENTICATION_RATE_LIMITED''
     ''Too many authentication attempts; wait before trying again'')\<lparr>ge_retryable := Some True\<rparr>)"

definition limiter_consume :: "attempt_kind \<Rightarrow> timestamp \<Rightarrow> rate_limiter \<Rightarrow> ce_error + rate_limiter" where
  "limiter_consume kind now l =
     (let policy = rl_policies l kind;
          recent = filter (\<lambda>attempt. now - attempt < rp_windowMs policy) (rl_attempts l kind)
      in if rp_limit policy \<le> int (length recent) then Inl rate_limited
         else Inr (l\<lparr>rl_attempts := (rl_attempts l)(kind := recent @ [now])\<rparr>))"

text \<open>The instants at which attempts of a kind were admitted, in a sequence of calls.\<close>

fun admitted :: "attempt_kind \<Rightarrow> (attempt_kind \<times> timestamp) list \<Rightarrow> rate_limiter \<Rightarrow> timestamp list" where
  "admitted kind [] l = []"
| "admitted kind ((k, now) # calls) l =
     (case limiter_consume k now l of
        Inl e \<Rightarrow> admitted kind calls l
      | Inr l' \<Rightarrow> (if k = kind then [now] else []) @ admitted kind calls l')"

text \<open>
  The attempts that were admitted earlier and are still in the window of a later instant are all on record.
\<close>

definition remembers_recent :: "attempt_kind \<Rightarrow> timestamp list \<Rightarrow> rate_limiter \<Rightarrow> bool" where
  "remembers_recent kind earlier l \<longleftrightarrow>
     (\<forall>now. (\<forall>a \<in> set earlier. a \<le> now) \<longrightarrow>
        filter (\<lambda>a. now - a < rp_windowMs (rl_policies l kind)) (rl_attempts l kind) =
        filter (\<lambda>a. now - a < rp_windowMs (rl_policies l kind)) earlier)"

definition in_window :: "timestamp \<Rightarrow> int \<Rightarrow> timestamp list \<Rightarrow> timestamp list" where
  "in_window start width ts = filter (\<lambda>t. start \<le> t \<and> t < start + width) ts"

lemma in_window_simps [simp]:
  "in_window start width [] = []"
  "in_window start width (xs @ ys) = in_window start width xs @ in_window start width ys"
  by (simp_all add: in_window_def)

lemma filter_length_mono: "(\<And>x. x \<in> set xs \<Longrightarrow> P x \<Longrightarrow> Q x) \<Longrightarrow> length (filter P xs) \<le> length (filter Q xs)"
  by (induction xs) auto

lemma limiter_window:
  assumes "remembers_recent kind earlier l" and "sorted (map snd calls)"
    and "\<forall>a \<in> set earlier. \<forall>c \<in> set calls. a \<le> snd c"
    and "int (length (in_window start w earlier)) \<le> n"
    and "rl_policies l kind = \<lparr>rp_limit = n, rp_windowMs = w\<rparr>"
  shows "int (length (in_window start w (earlier @ admitted kind calls l))) \<le> n"
  using assms
proof (induction calls arbitrary: earlier l)
  case (Cons call calls)
  obtain k now where call: "call = (k, now)" by (cases call)
  have rest: "\<forall>c \<in> set calls. now \<le> snd c" "sorted (map snd calls)" using Cons.prems(2) call by auto
  have later: "\<forall>a \<in> set earlier. a \<le> now" using Cons.prems(3) call by auto
  show ?case
  proof (cases "limiter_consume k now l")
    case (Inl e)
    then show ?thesis using Cons call by auto
  next
    case (Inr l')
    then have l': "l' = l\<lparr>rl_attempts := (rl_attempts l)(k :=
        filter (\<lambda>a. now - a < rp_windowMs (rl_policies l k)) (rl_attempts l k) @ [now])\<rparr>"
      and below: "int (length (filter (\<lambda>a. now - a < rp_windowMs (rl_policies l k)) (rl_attempts l k))) < rp_limit (rl_policies l k)"
      by (auto simp: limiter_consume_def Let_def split: if_splits)
    show ?thesis
    proof (cases "k = kind")
      case False
      then have "remembers_recent kind earlier l'" using Cons.prems(1) l' by (simp add: remembers_recent_def)
      then show ?thesis using Cons.IH [of earlier l'] Cons.prems rest l' False Inr call by auto
    next
      case True
      let ?recent = "filter (\<lambda>a. now - a < w) earlier"
      have w: "rp_windowMs (rl_policies l kind) = w" "rp_limit (rl_policies l kind) = n" using Cons.prems(5) by simp_all
      have "filter (\<lambda>a. now - a < w) (rl_attempts l kind) = ?recent"
        using Cons.prems(1) later w by (auto simp: remembers_recent_def)
      then have att: "rl_attempts l' kind = ?recent @ [now]" and lim: "int (length ?recent) < n" and pol: "rl_policies l' = rl_policies l"
        using l' below True w by simp_all
      have "remembers_recent kind (earlier @ [now]) l'"
        using att pol w by (auto simp: remembers_recent_def intro!: filter_cong)
      moreover have "int (length (in_window start w (earlier @ [now]))) \<le> n"
      proof (cases "start \<le> now \<and> now < start + w")
        case True
        have "length (in_window start w earlier) \<le> length ?recent"
          unfolding in_window_def using True by (intro filter_length_mono) auto
        then show ?thesis using lim True by (simp add: in_window_def)
      next
        case False
        then show ?thesis using Cons.prems(4) by (auto simp: in_window_def)
      qed
      ultimately have "int (length (in_window start w ((earlier @ [now]) @ admitted kind calls l'))) \<le> n"
        using Cons.IH [of "earlier @ [now]" l'] rest later Cons.prems(3,5) pol call by auto
      then show ?thesis using Inr True call by simp
    qed
  qed
qed simp

text \<open>
  Claim C26. The limiter keeps its promise over every stretch of time, not only over fixed intervals: with a
  clock that does not run backwards, in no window of the configured length are more attempts of a kind
  admitted than its limit, however the attempts of the two kinds are mixed.
\<close>

theorem limiter_bounds_every_window:
  assumes "limiter_new policies = Inr l" and "sorted (map snd calls)"
  shows "int (length (in_window start (rp_windowMs (rl_policies l kind)) (admitted kind calls l))) \<le> rp_limit (rl_policies l kind)"
proof -
  have "rl_attempts l = (\<lambda>_. [])" "0 \<le> rp_limit (rl_policies l kind)"
    using assms(1) by (cases kind; auto simp: limiter_new_def Let_def bind_result_Inr validatePolicy_def split: if_splits)+
  then show ?thesis
    using limiter_window [of kind "[]" l calls start "rp_windowMs (rl_policies l kind)" "rp_limit (rl_policies l kind)"] assms(2)
    by (simp add: remembers_recent_def)
qed

section \<open>Session tickets\<close>

record ticket_binding =
  tb_deviceId :: string
  tb_devicePublicKey :: bytes
  tb_principalId :: string
  tb_temporary :: bool

text \<open>\<open>tr_serial\<close> is the identity of the record, which the timer of the ticket compares.\<close>

record ticket_record =
  tr_binding :: ticket_binding
  tr_hash :: bytes
  tr_generation :: nat
  tr_expiresAt :: timestamp
  tr_serial :: nat

text \<open>
  The map of tickets is keyed by the text of the hash, which is as good as the hash. \<open>ts_timers\<close> are the
  timers that have not fired: the key, the record and the instant they are due.
\<close>

record ticket_service =
  ts_ttlMs :: int
  ts_tickets :: "bytes \<rightharpoonup> ticket_record"
  ts_generation :: nat
  ts_next_serial :: nat
  ts_timers :: "(bytes \<times> nat \<times> timestamp) list"
  ts_closed :: bool

definition tickets_new :: "int option \<Rightarrow> ce_error + ticket_service" where
  "tickets_new ttl =
     (let ttlMs = (case ttl of Some t \<Rightarrow> t | None \<Rightarrow> 30 * 60000) in
      if \<not> safe_integer ttlMs \<or> ttlMs \<le> 0 then Inl (Error ''Session ticket lifetime must be positive'')
      else Inr \<lparr>ts_ttlMs = ttlMs, ts_tickets = Map.empty, ts_generation = 0, ts_next_serial = 0, ts_timers = [],
             ts_closed = False\<rparr>)"

definition validateBinding :: "ticket_binding \<Rightarrow> ce_error option" where
  "validateBinding b =
     (if tb_deviceId b = [] \<or> tb_principalId b = [] then Some (Error ''Session ticket binding is incomplete'')
      else if length (tb_devicePublicKey b) \<noteq> 32 then Some (Error ''Session ticket device key is invalid'')
      else None)"

definition tokenHash :: "(string \<Rightarrow> bytes) \<Rightarrow> string \<Rightarrow> bytes" where
  "tokenHash sha token = sha (''ce-session-ticket-v1'' @ [CHR 0x00] @ token)"

definition ticket_issue ::
  "(string \<Rightarrow> bytes) \<Rightarrow> ticket_binding \<Rightarrow> string \<Rightarrow> timestamp \<Rightarrow> ticket_service \<Rightarrow> ce_error + string \<times> ticket_service" where
  "ticket_issue sha b token now s =
     (if ts_closed s then Inl (ScopeClosedError ''session-tickets'')
      else case validateBinding b of Some e \<Rightarrow> Inl e
      | None \<Rightarrow>
          let h = tokenHash sha token;
              record = \<lparr>tr_binding = b, tr_hash = h, tr_generation = ts_generation s,
                tr_expiresAt = now + ts_ttlMs s, tr_serial = ts_next_serial s\<rparr>
          in Inr (token, s\<lparr>ts_tickets := (ts_tickets s)(h \<mapsto> record), ts_next_serial := Suc (ts_next_serial s),
               ts_timers := ts_timers s @ [(h, ts_next_serial s, now + ts_ttlMs s)]\<rparr>))"

definition ticket_verify ::
  "(string \<Rightarrow> bytes) \<Rightarrow> string \<Rightarrow> string \<Rightarrow> bytes \<Rightarrow> timestamp \<Rightarrow> ticket_service \<Rightarrow> ce_error + ticket_binding option" where
  "ticket_verify sha token deviceId publicKey now s =
     (if ts_closed s then Inl (ScopeClosedError ''session-tickets'')
      else if length token < 32 \<or> 2048 < length token then Inr None
      else case ts_tickets s (tokenHash sha token) of
        None \<Rightarrow> Inr None
      | Some r \<Rightarrow>
          if tr_generation r \<noteq> ts_generation s \<or> tr_expiresAt r \<le> now \<or> tb_deviceId (tr_binding r) \<noteq> deviceId \<or>
             tr_hash r \<noteq> tokenHash sha token \<or> tb_devicePublicKey (tr_binding r) \<noteq> publicKey
          then Inr None else Inr (Some (tr_binding r)))"

definition ticket_revokeAll :: "ticket_service \<Rightarrow> ticket_service" where
  "ticket_revokeAll s = s\<lparr>ts_generation := Suc (ts_generation s), ts_tickets := Map.empty\<rparr>"

definition ticket_revokeDevice :: "string \<Rightarrow> ticket_service \<Rightarrow> ticket_service" where
  "ticket_revokeDevice deviceId s = s\<lparr>ts_tickets := (\<lambda>k. case ts_tickets s k of
     Some r \<Rightarrow> if tb_deviceId (tr_binding r) = deviceId then None else Some r | None \<Rightarrow> None)\<rparr>"

text \<open>The callback of a ticket's timer, and the closing of the scope, which drops the timers.\<close>

definition ticket_timer :: "bytes \<Rightarrow> nat \<Rightarrow> ticket_service \<Rightarrow> ticket_service" where
  "ticket_timer k serial s =
     (case ts_tickets s k of
        Some r \<Rightarrow> if tr_serial r = serial then s\<lparr>ts_tickets := (ts_tickets s)(k := None)\<rparr> else s
      | None \<Rightarrow> s)"

definition tickets_close :: "ticket_service \<Rightarrow> ticket_service" where
  "tickets_close s = s\<lparr>ts_closed := True, ts_tickets := Map.empty, ts_timers := []\<rparr>"

text \<open>
  What can happen at an instant: a call, or the timer at a position fires, not before it is due.
\<close>

datatype ticket_event =
    K_issue ticket_binding string
  | K_revokeAll
  | K_revokeDevice string
  | K_timer nat
  | K_close

fun ticket_step :: "(string \<Rightarrow> bytes) \<Rightarrow> timestamp \<Rightarrow> ticket_event \<Rightarrow> ticket_service \<Rightarrow> ticket_service" where
  "ticket_step sha now (K_issue b token) s = (case ticket_issue sha b token now s of Inl e \<Rightarrow> s | Inr (_, s') \<Rightarrow> s')"
| "ticket_step sha now K_revokeAll s = ticket_revokeAll s"
| "ticket_step sha now (K_revokeDevice d) s = ticket_revokeDevice d s"
| "ticket_step sha now (K_timer i) s =
     (if i < length (ts_timers s)
      then case ts_timers s ! i of (k, serial, due) \<Rightarrow>
        if due \<le> now then ticket_timer k serial (s\<lparr>ts_timers := take i (ts_timers s) @ drop (Suc i) (ts_timers s)\<rparr>) else s
      else s)"
| "ticket_step sha now K_close s = tickets_close s"

fun ticket_run :: "(string \<Rightarrow> bytes) \<Rightarrow> (timestamp \<times> ticket_event) list \<Rightarrow> ticket_service \<Rightarrow> ticket_service" where
  "ticket_run sha [] s = s"
| "ticket_run sha ((now, ev) # evs) s = ticket_run sha evs (ticket_step sha now ev s)"

section \<open>What a ticket means\<close>

text \<open>
  The specification knows no generations, hash checks or timers: a ticket stands for a binding until an
  instant, from its issue until it is revoked.
\<close>

record ticket_spec =
  sp_closed :: bool
  sp_live :: "bytes \<rightharpoonup> ticket_binding \<times> timestamp"

fun spec_ticket_step :: "(string \<Rightarrow> bytes) \<Rightarrow> int \<Rightarrow> timestamp \<Rightarrow> ticket_event \<Rightarrow> ticket_spec \<Rightarrow> ticket_spec" where
  "spec_ticket_step sha ttl now (K_issue b token) a =
     (if sp_closed a \<or> validateBinding b \<noteq> None then a
      else a\<lparr>sp_live := (sp_live a)(tokenHash sha token \<mapsto> (b, now + ttl))\<rparr>)"
| "spec_ticket_step sha ttl now K_revokeAll a = a\<lparr>sp_live := Map.empty\<rparr>"
| "spec_ticket_step sha ttl now (K_revokeDevice d) a = a\<lparr>sp_live := (\<lambda>k. case sp_live a k of
     Some (b, e) \<Rightarrow> if tb_deviceId b = d then None else Some (b, e) | None \<Rightarrow> None)\<rparr>"
| "spec_ticket_step sha ttl now (K_timer i) a = a"
| "spec_ticket_step sha ttl now K_close a = \<lparr>sp_closed = True, sp_live = Map.empty\<rparr>"

fun spec_ticket_run :: "(string \<Rightarrow> bytes) \<Rightarrow> int \<Rightarrow> (timestamp \<times> ticket_event) list \<Rightarrow> ticket_spec \<Rightarrow> ticket_spec" where
  "spec_ticket_run sha ttl [] a = a"
| "spec_ticket_run sha ttl ((now, ev) # evs) a = spec_ticket_run sha ttl evs (spec_ticket_step sha ttl now ev a)"

definition spec_ticket_verify ::
  "(string \<Rightarrow> bytes) \<Rightarrow> string \<Rightarrow> string \<Rightarrow> bytes \<Rightarrow> timestamp \<Rightarrow> ticket_spec \<Rightarrow> ce_error + ticket_binding option" where
  "spec_ticket_verify sha token deviceId publicKey now a =
     (if sp_closed a then Inl (ScopeClosedError ''session-tickets'')
      else if length token < 32 \<or> 2048 < length token then Inr None
      else case sp_live a (tokenHash sha token) of
        Some (b, e) \<Rightarrow> if now < e \<and> tb_deviceId b = deviceId \<and> tb_devicePublicKey b = publicKey then Inr (Some b) else Inr None
      | None \<Rightarrow> Inr None)"

text \<open>
  The simulation: a ticket on record is a live one, a live one that is missing has expired, and a timer
  knows the expiry of its record.
\<close>

definition recorded :: "ticket_service \<Rightarrow> ticket_spec \<Rightarrow> bool" where
  "recorded s a \<longleftrightarrow> (\<forall>k r. ts_tickets s k = Some r \<longrightarrow>
     sp_live a k = Some (tr_binding r, tr_expiresAt r) \<and> tr_hash r = k \<and> tr_generation r = ts_generation s \<and>
     tr_serial r < ts_next_serial s)"

definition lapsed :: "timestamp \<Rightarrow> ticket_service \<Rightarrow> ticket_spec \<Rightarrow> bool" where
  "lapsed clock s a \<longleftrightarrow> (\<forall>k b e. sp_live a k = Some (b, e) \<longrightarrow> ts_tickets s k = None \<longrightarrow> e \<le> clock)"

definition timed :: "ticket_service \<Rightarrow> bool" where
  "timed s \<longleftrightarrow> (\<forall>k serial due. (k, serial, due) \<in> set (ts_timers s) \<longrightarrow> serial < ts_next_serial s \<and>
     (\<forall>r. ts_tickets s k = Some r \<longrightarrow> tr_serial r = serial \<longrightarrow> tr_expiresAt r = due))"

definition ticket_sim :: "timestamp \<Rightarrow> ticket_service \<Rightarrow> ticket_spec \<Rightarrow> bool" where
  "ticket_sim clock s a \<longleftrightarrow> ts_closed s = sp_closed a \<and> recorded s a \<and> lapsed clock s a \<and> timed s"

lemmas ticket_sim_defs = ticket_sim_def recorded_def lapsed_def timed_def

lemma ticket_sim_new: "tickets_new ttl = Inr s \<Longrightarrow> ticket_sim clock s \<lparr>sp_closed = False, sp_live = Map.empty\<rparr>"
  by (auto simp: tickets_new_def Let_def ticket_sim_defs split: if_splits)

lemma ticket_sim_later:
  assumes "ticket_sim clock s a" "clock \<le> now"
  shows "ticket_sim now s a"
proof -
  have "lapsed now s a" unfolding lapsed_def using assms order_trans by (fastforce simp: ticket_sim_def lapsed_def)
  then show ?thesis using assms by (simp add: ticket_sim_def)
qed

lemma timed_fewer: "timed s \<Longrightarrow> set ts \<subseteq> set (ts_timers s) \<Longrightarrow> timed (s\<lparr>ts_timers := ts\<rparr>)"
  by (fastforce simp: timed_def)

lemma ticket_sim_timer:
  assumes sim: "ticket_sim now s a" and i: "ts_timers s ! i = (k, serial, due)" "i < length (ts_timers s)" and due: "due \<le> now"
  shows "ticket_sim now (ticket_timer k serial (s\<lparr>ts_timers := take i (ts_timers s) @ drop (Suc i) (ts_timers s)\<rparr>)) a"
proof -
  let ?s = "s\<lparr>ts_timers := take i (ts_timers s) @ drop (Suc i) (ts_timers s)\<rparr>"
  have mem: "(k, serial, due) \<in> set (ts_timers s)" using i by (metis nth_mem)
  have "set (take i (ts_timers s) @ drop (Suc i) (ts_timers s)) \<subseteq> set (ts_timers s)"
    using set_take_subset [of i "ts_timers s"] set_drop_subset [of "Suc i" "ts_timers s"] by simp
  then have timed: "timed ?s" using sim timed_fewer by (simp add: ticket_sim_def)
  have rest: "recorded ?s a" "lapsed now ?s a" "ts_closed ?s = sp_closed a"
    using sim by (auto simp: ticket_sim_def recorded_def lapsed_def)
  show ?thesis
  proof (cases "\<exists>r. ts_tickets s k = Some r \<and> tr_serial r = serial")
    case False
    then have "ticket_timer k serial ?s = ?s" by (auto simp: ticket_timer_def split: option.splits)
    then show ?thesis using timed rest by (simp add: ticket_sim_def)
  next
    case True
    then obtain r where r: "ts_tickets s k = Some r" "tr_serial r = serial" by blast
    then have e: "tr_expiresAt r \<le> now" "sp_live a k = Some (tr_binding r, tr_expiresAt r)"
      using sim mem due by (auto simp: ticket_sim_def timed_def recorded_def)
    have "ticket_timer k serial ?s = ?s\<lparr>ts_tickets := (ts_tickets s)(k := None)\<rparr>" using r by (simp add: ticket_timer_def)
    then show ?thesis using timed rest e by (auto simp: ticket_sim_def recorded_def lapsed_def timed_def)
  qed
qed

lemma ticket_sim_issue:
  assumes sim: "ticket_sim now s a" and "\<not> ts_closed s" "validateBinding b = None"
    and "ticket_issue sha b token now s = Inr (tok, s')"
  shows "ticket_sim now s' (a\<lparr>sp_live := (sp_live a)(tokenHash sha token \<mapsto> (b, now + ts_ttlMs s))\<rparr>)"
proof -
  let ?h = "tokenHash sha token"
  let ?r = "\<lparr>tr_binding = b, tr_hash = ?h, tr_generation = ts_generation s, tr_expiresAt = now + ts_ttlMs s,
    tr_serial = ts_next_serial s\<rparr>"
  have s': "s' = s\<lparr>ts_tickets := (ts_tickets s)(?h \<mapsto> ?r), ts_next_serial := Suc (ts_next_serial s),
      ts_timers := ts_timers s @ [(?h, ts_next_serial s, now + ts_ttlMs s)]\<rparr>"
    using assms(2-4) by (auto simp: ticket_issue_def Let_def)
  have "recorded s' (a\<lparr>sp_live := (sp_live a)(?h \<mapsto> (b, now + ts_ttlMs s))\<rparr>)"
    using sim by (auto simp: s' ticket_sim_def recorded_def less_SucI)
  moreover have "lapsed now s' (a\<lparr>sp_live := (sp_live a)(?h \<mapsto> (b, now + ts_ttlMs s))\<rparr>)"
    using sim by (auto simp: s' ticket_sim_def lapsed_def)
  moreover have "timed s'"
    unfolding timed_def
  proof (intro allI impI)
    fix k serial due
    assume m: "(k, serial, due) \<in> set (ts_timers s')"
    have old: "serial < ts_next_serial s \<and> (\<forall>r. ts_tickets s k = Some r \<longrightarrow> tr_serial r = serial \<longrightarrow> tr_expiresAt r = due)"
      if "(k, serial, due) \<in> set (ts_timers s)" using sim that by (auto simp: ticket_sim_def timed_def)
    show "serial < ts_next_serial s' \<and> (\<forall>r. ts_tickets s' k = Some r \<longrightarrow> tr_serial r = serial \<longrightarrow> tr_expiresAt r = due)"
      using m old by (cases "(k, serial, due) \<in> set (ts_timers s)") (auto simp: s')
  qed
  ultimately show ?thesis using sim by (simp add: ticket_sim_def s')
qed

lemma ticket_sim_step:
  assumes "ticket_sim now s a"
  shows "ticket_sim now (ticket_step sha now ev s) (spec_ticket_step sha (ts_ttlMs s) now ev a)"
proof (cases ev)
  case (K_issue b token)
  show ?thesis
  proof (cases "ts_closed s \<or> validateBinding b \<noteq> None")
    case True
    then obtain e where "ticket_issue sha b token now s = Inl e"
      by (cases "ts_closed s"; cases "validateBinding b") (auto simp: ticket_issue_def)
    then show ?thesis using assms True K_issue by (auto simp: ticket_sim_def)
  next
    case False
    then obtain tok s' where r: "ticket_issue sha b token now s = Inr (tok, s')" by (auto simp: ticket_issue_def Let_def)
    from ticket_sim_issue [OF assms _ _ r] False assms show ?thesis using r K_issue by (simp add: ticket_sim_def)
  qed
next
  case (K_timer i)
  then show ?thesis using assms ticket_sim_timer [OF assms] by (auto split: prod.splits)
qed (use assms in \<open>auto simp: ticket_sim_defs ticket_revokeAll_def ticket_revokeDevice_def tickets_close_def split: option.splits if_splits\<close>)

lemma ticket_step_ttl: "ts_ttlMs (ticket_step sha now ev s) = ts_ttlMs s"
  by (cases ev) (auto simp: ticket_issue_def ticket_revokeAll_def ticket_revokeDevice_def ticket_timer_def tickets_close_def
      Let_def split: option.splits if_splits sum.splits prod.splits)

lemma ticket_sim_run:
  "ticket_sim clock s a \<Longrightarrow> sorted (clock # map fst evs) \<Longrightarrow> \<forall>ev \<in> set evs. fst ev \<le> now \<Longrightarrow> clock \<le> now \<Longrightarrow>
     ticket_sim now (ticket_run sha evs s) (spec_ticket_run sha (ts_ttlMs s) evs a)"
proof (induction evs arbitrary: clock s a)
  case Nil
  then show ?case by (auto intro: ticket_sim_later)
next
  case (Cons e evs)
  obtain t ev where e: "e = (t, ev)" by (cases e)
  have "ticket_sim t (ticket_step sha t ev s) (spec_ticket_step sha (ts_ttlMs s) t ev a)"
    using ticket_sim_step [OF ticket_sim_later [OF Cons.prems(1), of t]] Cons.prems(2) e by simp
  from Cons.IH [OF this] Cons.prems e show ?case by (auto simp: ticket_step_ttl)
qed

text \<open>
  Claim C23. The ticket service is equivalent to its specification: after any calls, with timers firing at
  any moment from when they are due, \<open>verify\<close> answers as if a ticket were nothing but the binding it was
  issued for, valid until its lifetime ends or its device or all tickets are revoked. Generations, stored
  hashes and timers change no answer.
\<close>

theorem ticket_service_equivalent:
  assumes "tickets_new ttl = Inr s" and "sorted (map fst evs)" and "\<forall>ev \<in> set evs. fst ev \<le> now"
  shows "ticket_verify sha token device key now (ticket_run sha evs s) =
    spec_ticket_verify sha token device key now (spec_ticket_run sha (ts_ttlMs s) evs \<lparr>sp_closed = False, sp_live = Map.empty\<rparr>)"
proof -
  let ?s = "ticket_run sha evs s"
  let ?a = "spec_ticket_run sha (ts_ttlMs s) evs \<lparr>sp_closed = False, sp_live = Map.empty\<rparr>"
  have sim: "ticket_sim now ?s ?a"
    by (rule ticket_sim_run [OF ticket_sim_new [OF assms(1)], of "hd (map fst evs @ [now])"]) (use assms in \<open>cases evs; auto\<close>)+
  let ?h = "tokenHash sha token"
  show ?thesis
  proof (cases "ts_tickets ?s ?h")
    case None
    then have "case sp_live ?a ?h of Some (b, e) \<Rightarrow> e \<le> now | None \<Rightarrow> True"
      using sim by (auto simp: ticket_sim_def lapsed_def split: option.splits)
    then show ?thesis using sim None
      by (auto simp: ticket_verify_def spec_ticket_verify_def ticket_sim_def split: option.splits)
  next
    case (Some r)
    then show ?thesis
      using sim by (auto simp: ticket_verify_def spec_ticket_verify_def ticket_sim_def recorded_def)
  qed
qed

section \<open>Witnesses\<close>

definition example_policies :: "attempt_kind \<Rightarrow> rate_policy option" where
  "example_policies k = Some \<lparr>rp_limit = 2, rp_windowMs = 100\<rparr>"

definition example_attempts :: "(attempt_kind \<times> timestamp) list" where
  "example_attempts = [(Password_attempt, 10), (Password_attempt, 20), (Recovery_attempt, 30), (Password_attempt, 40),
     (Password_attempt, 115), (Password_attempt, 118)]"

theorem limiter_bounds_every_window_witness:
  "case limiter_new example_policies of
     Inr l \<Rightarrow> admitted Password_attempt example_attempts l = [10, 20, 115] \<and>
       int (length (in_window 15 100 (admitted Password_attempt example_attempts l))) \<le> 2
   | Inl e \<Rightarrow> False"
proof -
  define l where "l = \<lparr>rl_attempts = (\<lambda>_. []), rl_policies = (\<lambda>_::attempt_kind. \<lparr>rp_limit = 2, rp_windowMs = 100\<rparr>)\<rparr>"
  have l: "limiter_new example_policies = Inr l" "rl_policies l = (\<lambda>_. \<lparr>rp_limit = 2, rp_windowMs = 100\<rparr>)"
    "rl_attempts l = (\<lambda>_. [])"
    by (simp_all add: l_def limiter_new_def example_policies_def validatePolicy_def safe_integer_def MAX_SAFE_INTEGER_def Let_def)
  have "int (length (in_window 15 100 (admitted Password_attempt example_attempts l))) \<le> 2"
    using limiter_bounds_every_window [OF l(1), of example_attempts 15 Password_attempt] l(2)
    by (simp add: example_attempts_def)
  moreover have "admitted Password_attempt example_attempts l = [10, 20, 115]"
    by (simp add: example_attempts_def limiter_consume_def l(2,3) Let_def)
  ultimately show ?thesis by (simp add: l(1))
qed

definition example_binding :: ticket_binding where
  "example_binding = \<lparr>tb_deviceId = ''phone'', tb_devicePublicKey = replicate 32 7, tb_principalId = ''user'', tb_temporary = False\<rparr>"

definition example_token :: string where
  "example_token = replicate 32 CHR ''t''"

definition example_events :: "(timestamp \<times> ticket_event) list" where
  "example_events = [(10, K_issue example_binding example_token), (20, K_revokeDevice ''tablet''), (1010, K_timer 0)]"

theorem ticket_service_equivalent_witness:
  "case tickets_new (Some 1000) of
     Inr s \<Rightarrow> ticket_verify (map of_char) example_token ''phone'' (replicate 32 7) 30 (ticket_run (map of_char) (take 2 example_events) s) =
         Inr (Some example_binding) \<and>
       ticket_verify (map of_char) example_token ''phone'' (replicate 32 7) 1010 (ticket_run (map of_char) example_events s) = Inr None
   | Inl e \<Rightarrow> False"
proof -
  obtain s where s: "tickets_new (Some 1000) = Inr s" "ts_ttlMs s = 1000"
    by (auto simp: tickets_new_def safe_integer_def MAX_SAFE_INTEGER_def)
  have v: "validateBinding example_binding = None" "length example_token = 32"
    by (simp_all add: validateBinding_def example_binding_def example_token_def)
  note eq = ticket_service_equivalent [OF s(1), where sha = "map of_char" and token = example_token and device = "''phone''"
      and key = "replicate 32 7"]
  have "ticket_verify (map of_char) example_token ''phone'' (replicate 32 7) 30 (ticket_run (map of_char) (take 2 example_events) s) =
      Inr (Some example_binding)"
    using eq [of "take 2 example_events" 30] v
    by (simp add: example_events_def spec_ticket_verify_def s(2)) (simp add: example_binding_def)
  moreover have "ticket_verify (map of_char) example_token ''phone'' (replicate 32 7) 1010 (ticket_run (map of_char) example_events s) = Inr None"
    using eq [of example_events 1010] v
    by (simp add: example_events_def spec_ticket_verify_def s(2) del: ticket_run.simps) (simp add: example_binding_def)?
  ultimately show ?thesis by (simp add: s(1))
qed

end
