(* ===== verification/App_Server_Client.thy ===== *)
theory App_Server_Client
  imports CE_Prelude
begin

text \<open>
  The JSON-RPC client of the Codex app-server (\<open>apps/agent/src/runtime/codex-app-server-client.ts\<close>): requests
  with numbered ids and optional timeouts, the messages that come back, and the ways the connection ends.
  The socket is the environment: what it delivers are the events below, and what the client writes to it is
  the list \<open>ac_sent\<close>.
\<close>

section \<open>The client\<close>

record rpc_error =
  re_code :: js
  re_message :: string
  re_data :: js

datatype settlement =
    Resolved js
  | CodexRpcError rpc_error
  | RejectedWith ce_error

text \<open>
  \<open>ac_pending\<close> is the map of open requests with their methods in insertion order, \<open>ac_timers\<close> the requests whose
  timer is armed, \<open>ac_socket_open\<close> says that \<open>readyState\<close> is \<open>OPEN\<close>. \<open>ac_settled\<close> records how the promises
  of the requests were settled, in order.
\<close>

record app_client =
  ac_pending :: "(int \<times> string) list"
  ac_timers :: "int list"
  ac_nextRequestId :: int
  ac_closed :: bool
  ac_socket_open :: bool
  ac_sent :: "js list"
  ac_settled :: "(int \<times> settlement) list"

definition client_new :: app_client where
  "client_new = \<lparr>ac_pending = [], ac_timers = [], ac_nextRequestId = 1, ac_closed = False, ac_socket_open = False,
     ac_sent = [], ac_settled = []\<rparr>"

definition client_send :: "js \<Rightarrow> app_client \<Rightarrow> ce_error option \<times> app_client" where
  "client_send message c =
     (if ac_closed c \<or> \<not> ac_socket_open c then (Some (Error ''Codex app-server connection is not open''), c)
      else (None, c\<lparr>ac_sent := ac_sent c @ [message]\<rparr>))"

text \<open>Taking a request out of the map stops its timer.\<close>

definition drop_pending :: "int \<Rightarrow> app_client \<Rightarrow> app_client" where
  "drop_pending i c = c\<lparr>ac_pending := filter (\<lambda>p. fst p \<noteq> i) (ac_pending c), ac_timers := removeAll i (ac_timers c)\<rparr>"

definition settle :: "int \<Rightarrow> settlement \<Rightarrow> app_client \<Rightarrow> app_client" where
  "settle i outcome c = c\<lparr>ac_settled := ac_settled c @ [(i, outcome)]\<rparr>"

definition rpc_message :: "js \<Rightarrow> string \<Rightarrow> js \<Rightarrow> js" where
  "rpc_message i meth params =
     (if params = JUndefined then JObj [(''id'', i), (''method'', JStr meth)]
      else JObj [(''id'', i), (''method'', JStr meth), (''params'', params)])"

text \<open>
  A request on a closed client is rejected at once; otherwise it gets the next number, and it is rejected if
  the message cannot be sent.
\<close>

definition client_request :: "string \<Rightarrow> js \<Rightarrow> bool \<Rightarrow> app_client \<Rightarrow> (ce_error + int) \<times> app_client" where
  "client_request meth params timed_out_later c =
     (if ac_closed c then (Inl (Error ''Codex app-server connection is closed''), c)
      else
        let i = ac_nextRequestId c;
            c1 = c\<lparr>ac_nextRequestId := i + 1, ac_pending := ac_pending c @ [(i, meth)],
              ac_timers := ac_timers c @ (if timed_out_later then [i] else [])\<rparr>
        in case client_send (rpc_message (JNum i) meth params) c1 of
             (None, c2) \<Rightarrow> (Inr i, c2)
           | (Some e, c2) \<Rightarrow> (Inr i, settle i (RejectedWith e) (drop_pending i c2)))"

definition client_notify :: "string \<Rightarrow> js \<Rightarrow> app_client \<Rightarrow> ce_error option \<times> app_client" where
  "client_notify meth params c =
     client_send (if params = JUndefined then JObj [(''method'', JStr meth)]
       else JObj [(''method'', JStr meth), (''params'', params)]) c"

definition client_timeout :: "int \<Rightarrow> app_client \<Rightarrow> app_client" where
  "client_timeout i c =
     (if i \<in> set (ac_timers c) then
        case map_of (ac_pending c) i of
          None \<Rightarrow> c\<lparr>ac_timers := removeAll i (ac_timers c)\<rparr>
        | Some meth \<Rightarrow> settle i (RejectedWith (Error (''Timed out waiting for Codex app-server response: '' @ meth))) (drop_pending i c)
      else c)"

section \<open>Messages\<close>

text \<open>\<open>rpc_isRecord\<close> admits arrays, which have none of the properties that are asked for.\<close>

fun rpc_isRecord :: "js \<Rightarrow> bool" where
  "rpc_isRecord (JObj _) = True"
| "rpc_isRecord (JArr _) = True"
| "rpc_isRecord _ = False"

fun isJsonRpcId :: "js \<Rightarrow> bool" where
  "isJsonRpcId (JStr _) = True"
| "isJsonRpcId (JNum _) = True"
| "isJsonRpcId JNonFinite = True"
| "isJsonRpcId _ = False"

definition rpc_error_of :: "js \<Rightarrow> rpc_error option" where
  "rpc_error_of v =
     (if rpc_isRecord v then
        case (js_prop v ''code'', js_prop v ''message'') of
          (JNum n, JStr m) \<Rightarrow> Some \<lparr>re_code = JNum n, re_message = m, re_data = js_prop v ''data''\<rparr>
        | (JNonFinite, JStr m) \<Rightarrow> Some \<lparr>re_code = JNonFinite, re_message = m, re_data = js_prop v ''data''\<rparr>
        | _ \<Rightarrow> None
      else None)"

record server_request =
  sr_id :: js
  sr_method :: string
  sr_params :: js

datatype client_event =
    ServerRequest server_request
  | Notification string js
  | Closed

definition js_is_string :: "js \<Rightarrow> bool" where
  "js_is_string v = (case v of JStr _ \<Rightarrow> True | _ \<Rightarrow> False)"

definition handleMessage :: "json_text \<Rightarrow> app_client \<Rightarrow> client_event option \<times> app_client" where
  "handleMessage raw c =
     (case raw of BadJson _ \<Rightarrow> (None, c)
      | JsonText message \<Rightarrow>
        let i = js_prop message ''id''; meth = js_prop message ''method''; params = js_prop message ''params'' in
        if \<not> rpc_isRecord message then (None, c)
        else if isJsonRpcId i \<and> \<not> js_is_string meth then
          (case i of
             JNum n \<Rightarrow>
               (case map_of (ac_pending c) n of
                  None \<Rightarrow> (None, c)
                | Some _ \<Rightarrow>
                    (None, settle n (case rpc_error_of (js_prop message ''error'') of
                        Some e \<Rightarrow> CodexRpcError e
                      | None \<Rightarrow> Resolved (js_prop message ''result'')) (drop_pending n c)))
           | _ \<Rightarrow> (None, c))
        else case meth of
          JStr m \<Rightarrow>
            (Some (if isJsonRpcId i then ServerRequest \<lparr>sr_id = i, sr_method = m, sr_params = params\<rparr>
              else Notification m params), c)
        | _ \<Rightarrow> (None, c))"

text \<open>The callbacks that a server request carries.\<close>

definition request_respond :: "server_request \<Rightarrow> js \<Rightarrow> app_client \<Rightarrow> ce_error option \<times> app_client" where
  "request_respond r result = client_send (JObj [(''id'', sr_id r), (''result'', result)])"

definition request_reject :: "server_request \<Rightarrow> string \<Rightarrow> app_client \<Rightarrow> ce_error option \<times> app_client" where
  "request_reject r message = client_send (JObj [(''id'', sr_id r),
     (''error'', JObj [(''code'', JNum (- 32000)), (''message'', JStr message)])])"

section \<open>The end of the connection\<close>

definition reject_pending :: "ce_error \<Rightarrow> app_client \<Rightarrow> app_client" where
  "reject_pending e c = c\<lparr>ac_settled := ac_settled c @ map (\<lambda>p. (fst p, RejectedWith e)) (ac_pending c),
     ac_pending := [], ac_timers := []\<rparr>"

definition handleClose :: "app_client \<Rightarrow> client_event option \<times> app_client" where
  "handleClose c =
     (if ac_closed c then (None, c)
      else (Some Closed, reject_pending (Error ''Codex app-server connection closed'')
        (c\<lparr>ac_closed := True, ac_socket_open := False\<rparr>)))"

definition handleTransportError :: "string \<Rightarrow> app_client \<Rightarrow> app_client" where
  "handleTransportError message c = (if ac_closed c then c else reject_pending (Error message) c)"

definition client_close :: "app_client \<Rightarrow> app_client" where
  "client_close c = (if ac_closed c then c else c\<lparr>ac_socket_open := False\<rparr>)"

text \<open>
  What the adapter in front of the client (\<open>v2/codex/client.ts\<close>) makes of a settled request: an error answer
  of the app-server proves that the request was refused, every other failure leaves the outcome open.
\<close>

fun adapter_request :: "settlement \<Rightarrow> ce_error + js" where
  "adapter_request (Resolved v) = Inr v"
| "adapter_request (CodexRpcError e) =
     Inl (GatewayV2Error (gateway_v2_error ''CODEX_REQUEST_REJECTED'' ''Codex app-server rejected the request''))"
| "adapter_request (RejectedWith e) = Inl e"

text \<open>What can happen to a client, in any order.\<close>

datatype client_op =
    A_open
  | A_request string js bool
  | A_notify string js
  | A_respond server_request js
  | A_reject server_request string
  | A_timeout int
  | A_message json_text
  | A_close
  | A_on_close
  | A_on_error string

fun client_step :: "client_op \<Rightarrow> app_client \<Rightarrow> app_client" where
  "client_step A_open c = (if ac_closed c then c else c\<lparr>ac_socket_open := True\<rparr>)"
| "client_step (A_request meth params t) c = snd (client_request meth params t c)"
| "client_step (A_notify meth params) c = snd (client_notify meth params c)"
| "client_step (A_respond r result) c = snd (request_respond r result c)"
| "client_step (A_reject r m) c = snd (request_reject r m c)"
| "client_step (A_timeout i) c = client_timeout i c"
| "client_step (A_message raw) c = snd (handleMessage raw c)"
| "client_step A_close c = client_close c"
| "client_step A_on_close c = snd (handleClose c)"
| "client_step (A_on_error m) c = handleTransportError m c"

fun client_run :: "client_op list \<Rightarrow> app_client \<Rightarrow> app_client" where
  "client_run [] c = c"
| "client_run (op # ops) c = client_run ops (client_step op c)"

section \<open>Settlement\<close>

definition settlements :: "int \<Rightarrow> app_client \<Rightarrow> nat" where
  "settlements i c = t_count (\<lambda>p. fst p = i) (ac_settled c)"

definition client_inv :: "app_client \<Rightarrow> bool" where
  "client_inv c \<longleftrightarrow> 1 \<le> ac_nextRequestId c \<and> (ac_closed c \<longrightarrow> ac_pending c = []) \<and>
     (\<forall>i. settlements i c + t_count (\<lambda>p. fst p = i) (ac_pending c) = (if 1 \<le> i \<and> i < ac_nextRequestId c then 1 else 0))"

lemma client_inv_new: "client_inv client_new"
  by (simp add: client_inv_def client_new_def settlements_def)

lemma client_invD:
  assumes "client_inv c"
  shows "1 \<le> ac_nextRequestId c" and "ac_closed c \<Longrightarrow> ac_pending c = []"
    and "settlements i c + t_count (\<lambda>p. fst p = i) (ac_pending c) = (if 1 \<le> i \<and> i < ac_nextRequestId c then 1 else 0)"
  using assms by (auto simp: client_inv_def)

lemma pending_counted: "map_of xs i = Some m \<Longrightarrow> t_count (\<lambda>p. fst p = i) xs \<noteq> 0"
  by (induction xs) (auto split: if_splits)

lemma client_inv_settle:
  assumes inv: "client_inv c" and pending: "map_of (ac_pending c) i = Some m"
  shows "client_inv (settle i outcome (drop_pending i c))"
proof -
  have gone: "t_count (\<lambda>p. fst p = j) (filter (\<lambda>p. fst p \<noteq> i) (ac_pending c)) =
      (if j = i then 0 else t_count (\<lambda>p. fst p = j) (ac_pending c))" for j
    by (auto simp: t_count_def filter_filter intro: arg_cong [where f = length] filter_cong)
  have "settlements j (settle i outcome (drop_pending i c)) +
      t_count (\<lambda>p. fst p = j) (ac_pending (settle i outcome (drop_pending i c))) =
      settlements j c + t_count (\<lambda>p. fst p = j) (ac_pending c)" for j
  proof (cases "j = i")
    case True
    have "t_count (\<lambda>p. fst p = i) (ac_pending c) = 1"
      using client_invD(3) [OF inv, of i] pending_counted [OF pending] by (simp split: if_splits)
    then show ?thesis using True gone [of i] by (simp add: settle_def drop_pending_def settlements_def)
  qed (simp add: settle_def drop_pending_def settlements_def gone)
  then show ?thesis using inv unfolding client_inv_def by (auto simp: settle_def drop_pending_def)
qed

lemma settlements_same [simp]:
  "settlements i (c\<lparr>ac_timers := ts\<rparr>) = settlements i c"
  "settlements i (c\<lparr>ac_sent := ms\<rparr>) = settlements i c"
  "settlements i (c\<lparr>ac_socket_open := b\<rparr>) = settlements i c"
  "settlements i (c\<lparr>ac_closed := b\<rparr>) = settlements i c"
  "settlements i (c\<lparr>ac_pending := ps\<rparr>) = settlements i c"
  "settlements i (c\<lparr>ac_nextRequestId := n\<rparr>) = settlements i c"
  by (simp_all add: settlements_def)

lemma client_inv_same [simp]:
  "client_inv (c\<lparr>ac_timers := ts\<rparr>) = client_inv c"
  "client_inv (c\<lparr>ac_sent := ms\<rparr>) = client_inv c"
  "client_inv (c\<lparr>ac_socket_open := b\<rparr>) = client_inv c"
  by (simp_all add: client_inv_def)

lemma client_inv_request:
  assumes inv: "client_inv c" and "\<not> ac_closed c"
  defines "i \<equiv> ac_nextRequestId c"
  shows "client_inv (c\<lparr>ac_nextRequestId := i + 1, ac_pending := ac_pending c @ [(i, meth)], ac_timers := ts\<rparr>)"
proof -
  have "settlements j c + t_count (\<lambda>p. fst p = j) (ac_pending c @ [(i, meth)]) = (if 1 \<le> j \<and> j < i + 1 then 1 else 0)" for j
    using client_invD(1) [OF inv] client_invD(3) [OF inv, of j] by (auto simp: i_def split: if_splits)
  then show ?thesis using client_invD(1) [OF inv] assms(2) by (simp add: client_inv_def i_def)
qed

lemma client_inv_reject_pending:
  assumes "client_inv c"
  shows "client_inv (reject_pending e (c\<lparr>ac_closed := b, ac_socket_open := open_now\<rparr>))"
proof -
  have "t_count (\<lambda>p. fst p = i) (map (\<lambda>p. (fst p, RejectedWith e)) xs) = t_count (\<lambda>p. fst p = i) (xs :: (int \<times> string) list)" for i xs
    by (induction xs) auto
  then show ?thesis
    using assms unfolding client_inv_def by (auto simp: reject_pending_def settlements_def)
qed

lemma client_inv_step: "client_inv c \<Longrightarrow> client_inv (client_step op c)"
proof (induction op c rule: client_step.induct)
  case (2 meth params t c)
  show ?case
  proof (cases "ac_closed c")
    case False
    let ?c1 = "c\<lparr>ac_nextRequestId := ac_nextRequestId c + 1, ac_pending := ac_pending c @ [(ac_nextRequestId c, meth)],
      ac_timers := ac_timers c @ (if t then [ac_nextRequestId c] else [])\<rparr>"
    have inv1: "client_inv ?c1" using client_inv_request [OF 2 False] .
    moreover obtain m where "map_of (ac_pending ?c1) (ac_nextRequestId c) = Some m"
      by (cases "map_of (ac_pending c) (ac_nextRequestId c)") (auto simp: map_add_def)
    ultimately have "client_inv (settle (ac_nextRequestId c) outcome (drop_pending (ac_nextRequestId c) ?c1))" for outcome
      using client_inv_settle by blast
    with inv1 show ?thesis using False by (simp add: client_request_def client_send_def Let_def)
  qed (simp add: client_request_def 2)
next
  case (6 i c)
  then show ?case by (auto simp: client_timeout_def split: option.splits intro: client_inv_settle)
next
  case (7 raw c)
  then show ?case by (auto simp: handleMessage_def Let_def split: json_text.splits js.splits option.splits intro: client_inv_settle)
next
  case (9 c)
  then show ?case by (auto simp: handleClose_def intro: client_inv_reject_pending)
next
  case (10 m c)
  then show ?case using client_inv_reject_pending [where c = c and e = "Error m" and b = "ac_closed c" and open_now = "ac_socket_open c"]
    by (auto simp: handleTransportError_def)
qed (auto simp: client_notify_def request_respond_def request_reject_def client_send_def client_close_def)

lemma client_inv_run: "client_inv c \<Longrightarrow> client_inv (client_run ops c)"
  by (induction ops arbitrary: c) (simp_all add: client_inv_step)

text \<open>A promise is resolved only by an answer with its number.\<close>

definition answers_request :: "int \<Rightarrow> js \<Rightarrow> client_op \<Rightarrow> bool" where
  "answers_request i result op = (case op of
     A_message (JsonText v) \<Rightarrow> js_prop v ''id'' = JNum i \<and> \<not> js_is_string (js_prop v ''method'') \<and>
       rpc_error_of (js_prop v ''error'') = None \<and> js_prop v ''result'' = result
   | _ \<Rightarrow> False)"

lemma resolved_step:
  "(i, Resolved r) \<in> set (ac_settled (client_step op c)) \<Longrightarrow> (i, Resolved r) \<in> set (ac_settled c) \<or> answers_request i r op"
  by (cases op)
    (auto simp: client_request_def client_notify_def request_respond_def request_reject_def client_send_def client_timeout_def
      handleMessage_def handleClose_def handleTransportError_def client_close_def reject_pending_def settle_def drop_pending_def
      answers_request_def Let_def split: if_splits option.splits json_text.splits js.splits)

lemma resolved_run:
  "(i, Resolved r) \<in> set (ac_settled (client_run ops c)) \<Longrightarrow>
     (i, Resolved r) \<in> set (ac_settled c) \<or> (\<exists>op \<in> set ops. answers_request i r op)"
  by (induction ops arbitrary: c) (auto dest: resolved_step)

text \<open>
  Claim C22. Every request of the app-server client settles exactly once. Whatever the socket, the timers and
  the app-server do, a request that was given a number is either still open or was settled once; when the
  connection has closed no request is open; and a request is resolved only with the result of an answer that
  carries its number.
\<close>

theorem every_request_settles_once:
  assumes "c = client_run ops client_new"
  shows "(\<forall>i. 1 \<le> i \<and> i < ac_nextRequestId c \<longrightarrow>
       settlements i c = (if i \<in> fst ` set (ac_pending c) then 0 else 1)) \<and>
     (ac_closed c \<longrightarrow> ac_pending c = []) \<and>
     (\<forall>i r. (i, Resolved r) \<in> set (ac_settled c) \<longrightarrow> (\<exists>op \<in> set ops. answers_request i r op))"
proof (intro conjI allI impI)
  have inv: "client_inv c" unfolding assms by (rule client_inv_run [OF client_inv_new])
  show "ac_pending c = []" if "ac_closed c" using client_invD(2) [OF inv that] .
  show "settlements i c = (if i \<in> fst ` set (ac_pending c) then 0 else 1)"
    if "1 \<le> i \<and> i < ac_nextRequestId c" for i
  proof -
    have "i \<in> fst ` set (ac_pending c) \<longleftrightarrow> t_count (\<lambda>p. fst p = i) (ac_pending c) \<noteq> 0"
      by (auto simp: t_count_0)
    then show ?thesis using client_invD(3) [OF inv, of i] that by auto
  qed
  show "\<exists>op \<in> set ops. answers_request i r op" if "(i, Resolved r) \<in> set (ac_settled c)" for i r
    using resolved_run [OF that [unfolded assms]] by (simp add: client_new_def)
qed

definition example_session :: "client_op list" where
  "example_session = [A_open, A_request ''thread/read'' JNull False, A_request ''turn/start'' JNull True,
     A_message (JsonText (JObj [(''id'', JNum 1), (''result'', JBool True)])), A_on_close, A_timeout 2]"

theorem every_request_settles_once_witness:
  "settlements 1 (client_run example_session client_new) = 1 \<and> settlements 2 (client_run example_session client_new) = 1 \<and>
   (1, Resolved (JBool True)) \<in> set (ac_settled (client_run example_session client_new)) \<and>
   (\<exists>op \<in> set example_session. answers_request 1 (JBool True) op)"
proof -
  have run: "ac_nextRequestId (client_run example_session client_new) = 3"
    "ac_pending (client_run example_session client_new) = []"
    "(1, Resolved (JBool True)) \<in> set (ac_settled (client_run example_session client_new))"
    by code_simp+
  note once = every_request_settles_once [OF refl, of example_session]
  have "settlements i (client_run example_session client_new) = 1" if "1 \<le> i \<and> i < 3" for i
    using once that run(1,2) by simp
  moreover have "\<exists>op \<in> set example_session. answers_request 1 (JBool True) op" using once run(3) by blast
  ultimately show ?thesis using run(3) by simp
qed

end
