(* ===== verification/Interaction_Broker.thy ===== *)
theory Interaction_Broker
  imports App_Server_Client
begin

text \<open>
  The broker of interactive requests (\<open>apps/agent/src/v2/services/interaction-broker.ts\<close>) and the handler of a
  thread lease that feeds it (\<open>#serverRequest\<close> of \<open>thread-lease-manager.ts\<close>). A request of the app-server waits
  in the broker until a device answers it or the lease ends; its answer is a message of the client.
\<close>

section \<open>Interactions\<close>

datatype interaction_kind = IK_approval | IK_user_question | IK_mcp_elicitation

record pending_interaction =
  pi_id :: string
  pi_threadId :: string
  pi_turnId :: "string option"
  pi_kind :: interaction_kind
  pi_requestMethod :: string
  pi_createdAt :: timestamp
  pi_payload :: "(string \<times> js) list"

datatype broker_event =
    BE_created pending_interaction
  | BE_resolved string
  | BE_failed string string

datatype entry_state = ES_pending | ES_responding

record broker_entry =
  be_interaction :: pending_interaction
  be_request :: server_request
  be_state :: entry_state

text \<open>\<open>br_emitted\<close> records the events that were emitted.\<close>

record broker =
  br_entries :: "broker_entry list"
  br_emitted :: "broker_event list"

definition broker_new :: broker where
  "broker_new = \<lparr>br_entries = [], br_emitted = []\<rparr>"

abbreviation entry_id :: "broker_entry \<Rightarrow> string" where
  "entry_id e \<equiv> pi_id (be_interaction e)"

text \<open>What a device may answer.\<close>

datatype interaction_response =
    R_approval bool
  | R_user_input "(string \<times> string list) list"
  | R_mcp_elicitation string "js option"

section \<open>Reading a request\<close>

fun assertJsonValue :: "js \<Rightarrow> bool" where
  "assertJsonValue JNull = True"
| "assertJsonValue (JStr _) = True"
| "assertJsonValue (JBool _) = True"
| "assertJsonValue (JNum _) = True"
| "assertJsonValue (JArr vs) = (\<forall>v \<in> set vs. assertJsonValue v)"
| "assertJsonValue (JObj fs) = (\<forall>f \<in> set fs. assertJsonValue (snd f))"
| "assertJsonValue _ = False"

definition jsonObject :: "js \<Rightarrow> ce_error + (string \<times> js) list" where
  "jsonObject v = (case v of
     JObj fs \<Rightarrow> if assertJsonValue v then Inr fs else Inl (Error ''Interaction params are not JSON-compatible'')
   | _ \<Rightarrow> Inl (Error ''Interaction params must be a JSON object''))"

definition requiredString :: "js \<Rightarrow> string \<Rightarrow> ce_error + string" where
  "requiredString v field = (case v of
     JStr s \<Rightarrow> if s = [] then Inl (Error (''Missing '' @ field)) else Inr s
   | _ \<Rightarrow> Inl (Error (''Missing '' @ field)))"

definition optionalString :: "js \<Rightarrow> string option" where
  "optionalString v = (case v of JStr s \<Rightarrow> if s = [] then None else Some s | _ \<Rightarrow> None)"

definition interactionKind :: "string \<Rightarrow> ce_error + interaction_kind" where
  "interactionKind meth =
     (if meth = ''item/tool/requestUserInput'' then Inr IK_user_question
      else if meth = ''mcpServer/elicitation/request'' then Inr IK_mcp_elicitation
      else if meth \<in> {''item/commandExecution/requestApproval'', ''item/fileChange/requestApproval'',
        ''item/permissions/requestApproval'', ''applyPatchApproval'', ''execCommandApproval''} then Inr IK_approval
      else Inl (Error (''Unsupported interactive server request: '' @ meth)))"

text \<open>\<open>String(requestId)\<close>: a number and the text of its digits give the same identifier.\<close>

fun id_text :: "js \<Rightarrow> string" where
  "id_text (JStr s) = s"
| "id_text (JNum n) = json_number n"
| "id_text _ = ''Infinity''"

definition interactionId :: "string \<Rightarrow> js \<Rightarrow> string" where
  "interactionId threadId requestId = ''interaction:'' @ threadId @ '':'' @ id_text requestId"

section \<open>Answering a request\<close>

definition jsonRecord :: "js \<Rightarrow> (string \<times> js) list" where
  "jsonRecord v = (case v of JObj fs \<Rightarrow> fs | _ \<Rightarrow> [])"

definition permissionGrant :: "(string \<times> js) list \<Rightarrow> js" where
  "permissionGrant payload =
     (let source = jsonRecord (js_get payload ''permissions'');
          granted = (\<lambda>k. if js_get source k \<noteq> JUndefined \<and> js_get source k \<noteq> JNull then [(k, js_get source k)] else [])
      in JObj [(''permissions'', JObj (granted ''network'' @ granted ''fileSystem'')), (''scope'', JStr ''turn'')])"

datatype adapted = AdaptedError string | AdaptedResult js

definition responseKindMismatch :: ce_error where
  "responseKindMismatch = Error ''Interaction response kind does not match the pending request''"

definition adaptInteractionResponse :: "broker_entry \<Rightarrow> interaction_response \<Rightarrow> ce_error + adapted" where
  "adaptInteractionResponse entry response =
     (let meth = sr_method (be_request entry) in
      case pi_kind (be_interaction entry) of
        IK_approval \<Rightarrow>
          (case response of
             R_approval accept \<Rightarrow>
               if meth = ''item/permissions/requestApproval'' then
                 (if \<not> accept then Inr (AdaptedError ''Declined by user'')
                  else Inr (AdaptedResult (permissionGrant (pi_payload (be_interaction entry)))))
               else if meth = ''applyPatchApproval'' \<or> meth = ''execCommandApproval'' then
                 Inr (AdaptedResult (JObj [(''decision'',
                   if accept then JStr ''approved''
                   else JObj [(''denied'', JObj [(''rejection'', JStr ''Declined by user'')])])]))
               else Inr (AdaptedResult (JObj [(''decision'', JStr (if accept then ''accept'' else ''decline''))]))
           | _ \<Rightarrow> Inl responseKindMismatch)
      | IK_user_question \<Rightarrow>
          (case response of
             R_user_input answers \<Rightarrow>
               Inr (AdaptedResult (JObj [(''answers'',
                 JObj (map (\<lambda>(i, texts). (i, JObj [(''answers'', JArr (map JStr texts))])) answers))]))
           | _ \<Rightarrow> Inl responseKindMismatch)
      | IK_mcp_elicitation \<Rightarrow>
          (case response of
             R_mcp_elicitation action content \<Rightarrow>
               Inr (AdaptedResult (JObj [(''action'', JStr action),
                 (''content'', case content of Some v \<Rightarrow> v | None \<Rightarrow> JNull), (''_meta'', JNull)]))
           | _ \<Rightarrow> Inl responseKindMismatch))"

section \<open>The broker\<close>

text \<open>\<open>heard\<close> is what the listeners of an event throw, if they throw.\<close>

definition broker_emit :: "(broker_event \<Rightarrow> ce_error option) \<Rightarrow> broker_event \<Rightarrow> broker \<Rightarrow> ce_error option \<times> broker" where
  "broker_emit heard ev b = (heard ev, b\<lparr>br_emitted := br_emitted b @ [ev]\<rparr>)"

type_synonym 'a broker_outcome = "(ce_error + 'a) \<times> broker \<times> app_client"

text \<open>Rejecting a request and throwing, or throwing what the rejection threw.\<close>

definition reject_and_throw :: "server_request \<Rightarrow> string \<Rightarrow> string \<Rightarrow> broker \<Rightarrow> app_client \<Rightarrow> 'a broker_outcome" where
  "reject_and_throw req message thrown b c =
     (case request_reject req message c of
        (Some e, c') \<Rightarrow> (Inl e, b, c') | (None, c') \<Rightarrow> (Inl (Error thrown), b, c'))"

definition broker_add ::
  "(broker_event \<Rightarrow> ce_error option) \<Rightarrow> server_request \<Rightarrow> string \<Rightarrow> timestamp \<Rightarrow> broker \<Rightarrow> app_client \<Rightarrow> pending_interaction broker_outcome" where
  "broker_add heard req expectedThreadId now b c =
     (case jsonObject (sr_params req) of Inl e \<Rightarrow> (Inl e, b, c)
      | Inr payload \<Rightarrow>
      (case requiredString (js_get payload ''threadId'') ''interaction threadId'' of Inl e \<Rightarrow> (Inl e, b, c)
      | Inr threadId \<Rightarrow>
        if threadId \<noteq> expectedThreadId then
          reject_and_throw req ''Thread lease mismatch'' ''App-server request does not belong to this thread lease'' b c
        else let i = interactionId threadId (sr_id req) in
        if t_find entry_id i (br_entries b) \<noteq> None then
          reject_and_throw req ''Duplicate interaction'' ''App-server sent a duplicate interaction ID'' b c
        else case interactionKind (sr_method req) of Inl e \<Rightarrow> (Inl e, b, c)
        | Inr kind \<Rightarrow>
          let interaction = \<lparr>pi_id = i, pi_threadId = threadId, pi_turnId = optionalString (js_get payload ''turnId''),
                pi_kind = kind, pi_requestMethod = sr_method req, pi_createdAt = now, pi_payload = payload\<rparr>;
              b1 = b\<lparr>br_entries := br_entries b @ [\<lparr>be_interaction = interaction, be_request = req, be_state = ES_pending\<rparr>]\<rparr>
          in case broker_emit heard (BE_created interaction) b1 of
               (Some e, b2) \<Rightarrow> (Inl e, b2, c) | (None, b2) \<Rightarrow> (Inr interaction, b2, c)))"

definition broker_list :: "broker \<Rightarrow> pending_interaction list" where
  "broker_list b = map be_interaction (br_entries b)"

definition broker_size :: "broker \<Rightarrow> nat" where
  "broker_size b = length (br_entries b)"

definition broker_respond ::
  "(broker_event \<Rightarrow> ce_error option) \<Rightarrow> string \<Rightarrow> interaction_response \<Rightarrow> broker \<Rightarrow> app_client \<Rightarrow> unit broker_outcome" where
  "broker_respond heard i response b c =
     (case t_find entry_id i (br_entries b) of
        None \<Rightarrow> (Inl (InteractionAlreadyResolvedError i), b, c)
      | Some entry \<Rightarrow>
        if be_state entry \<noteq> ES_pending then (Inl (InteractionAlreadyResolvedError i), b, c)
        else case adaptInteractionResponse entry response of Inl e \<Rightarrow> (Inl e, b, c)
        | Inr ad \<Rightarrow>
          let b1 = b\<lparr>br_entries := t_delete (\<lambda>e. entry_id e = i) (br_entries b)\<rparr>;
              (thrown, c1) = (case ad of
                 AdaptedError message \<Rightarrow> request_reject (be_request entry) message c
               | AdaptedResult result \<Rightarrow> request_respond (be_request entry) result c);
              (thrown', b2) = (case thrown of Some e \<Rightarrow> (Some e, b1) | None \<Rightarrow> broker_emit heard (BE_resolved i) b1)
          in case thrown' of
               None \<Rightarrow> (Inr (), b2, c1)
             | Some e \<Rightarrow>
                 (case broker_emit heard (BE_failed i ''response-failed'') b2 of
                    (Some e', b3) \<Rightarrow> (Inl e', b3, c1) | (None, b3) \<Rightarrow> (Inl e, b3, c1)))"

text \<open>A listener that throws ends the loop of \<open>failAll\<close>.\<close>

fun fail_entries ::
  "(broker_event \<Rightarrow> ce_error option) \<Rightarrow> string \<Rightarrow> broker_entry list \<Rightarrow> broker \<Rightarrow> app_client \<Rightarrow> unit broker_outcome" where
  "fail_entries heard reason [] b c = (Inr (), b, c)"
| "fail_entries heard reason (entry # entries) b c =
     (if be_state entry \<noteq> ES_pending then fail_entries heard reason entries b c
      else case request_reject (be_request entry) reason c of (_, c') \<Rightarrow>
        (case broker_emit heard (BE_failed (entry_id entry) reason) b of
           (Some e, b') \<Rightarrow> (Inl e, b', c')
         | (None, b') \<Rightarrow> fail_entries heard reason entries b' c'))"

definition broker_failAll ::
  "(broker_event \<Rightarrow> ce_error option) \<Rightarrow> string \<Rightarrow> broker \<Rightarrow> app_client \<Rightarrow> unit broker_outcome" where
  "broker_failAll heard reason b c = fail_entries heard reason (br_entries b) (b\<lparr>br_entries := []\<rparr>) c"

section \<open>The handler of the lease\<close>

definition requestThreadId :: "js \<Rightarrow> string option" where
  "requestThreadId params =
     (case js_prop params ''threadId'' of JStr t \<Rightarrow> Some t
      | _ \<Rightarrow> (case js_prop (js_prop params ''thread'') ''id'' of JStr t \<Rightarrow> Some t | _ \<Rightarrow> None))"

definition serverRequest ::
  "(broker_event \<Rightarrow> ce_error option) \<Rightarrow> string \<Rightarrow> server_request \<Rightarrow> timestamp \<Rightarrow> broker \<Rightarrow> app_client \<Rightarrow> broker \<times> app_client" where
  "serverRequest heard threadId req now b c =
     (case broker_add heard req threadId now b c of
        (Inr _, b', c') \<Rightarrow> (b', c')
      | (Inl _, b', c') \<Rightarrow>
          if requestThreadId (sr_params req) = Some threadId
          then (b', snd (request_reject req ''Unsupported or invalid interactive request'' c'))
          else (b', c'))"

datatype broker_op =
    B_request server_request timestamp
  | B_respond string interaction_response
  | B_failAll string

fun broker_step :: "(broker_event \<Rightarrow> ce_error option) \<Rightarrow> string \<Rightarrow> broker_op \<Rightarrow> broker \<times> app_client \<Rightarrow> broker \<times> app_client" where
  "broker_step heard t (B_request req now) (b, c) = serverRequest heard t req now b c"
| "broker_step heard t (B_respond i response) (b, c) = snd (broker_respond heard i response b c)"
| "broker_step heard t (B_failAll reason) (b, c) = snd (broker_failAll heard reason b c)"

fun broker_run :: "(broker_event \<Rightarrow> ce_error option) \<Rightarrow> string \<Rightarrow> broker_op list \<Rightarrow> broker \<times> app_client \<Rightarrow> broker \<times> app_client" where
  "broker_run heard t [] s = s"
| "broker_run heard t (op # ops) s = broker_run heard t ops (broker_step heard t op s)"

section \<open>Every request is answered once\<close>

definition answers :: "js \<Rightarrow> app_client \<Rightarrow> nat" where
  "answers i c = t_count (\<lambda>m. js_prop m ''id'' = i \<and> js_prop m ''method'' = JUndefined) (ac_sent c)"

text \<open>
  The requests that get an answer: those that name a thread, and those that the handler can attribute to the
  thread of the lease in another way.
\<close>

definition addressed :: "string \<Rightarrow> server_request \<Rightarrow> bool" where
  "addressed t req \<longleftrightarrow> requestThreadId (sr_params req) = Some t \<or>
     (case jsonObject (sr_params req) of
        Inr payload \<Rightarrow> \<not> isl (requiredString (js_get payload ''threadId'') ''interaction threadId'')
      | Inl e \<Rightarrow> False)"

fun requests_of :: "broker_op list \<Rightarrow> server_request list" where
  "requests_of [] = []"
| "requests_of (B_request req now # ops) = req # requests_of ops"
| "requests_of (_ # ops) = requests_of ops"

abbreviation client_open :: "app_client \<Rightarrow> bool" where
  "client_open c \<equiv> \<not> ac_closed c \<and> ac_socket_open c"

abbreviation waiting :: "js \<Rightarrow> broker \<Rightarrow> nat" where
  "waiting i b \<equiv> t_count (\<lambda>e. sr_id (be_request e) = i) (br_entries b)"

abbreviation owed :: "string \<Rightarrow> js \<Rightarrow> server_request list \<Rightarrow> nat" where
  "owed t i seen \<equiv> t_count (\<lambda>r. sr_id r = i \<and> addressed t r) seen"

definition broker_inv :: "string \<Rightarrow> server_request list \<Rightarrow> broker \<times> app_client \<Rightarrow> bool" where
  "broker_inv t seen s = (case s of (b, c) \<Rightarrow>
     client_open c \<and> t_keyed entry_id (br_entries b) \<and>
     (\<forall>e \<in> set (br_entries b). be_state e = ES_pending \<and> entry_id e = interactionId t (sr_id (be_request e)) \<and>
        be_request e \<in> set seen) \<and>
     (\<forall>i. answers i c + waiting i b = owed t i seen))"

lemma request_reject_open:
  "client_open c \<Longrightarrow> \<exists>c'. request_reject r m c = (None, c') \<and> client_open c' \<and>
     (\<forall>i. answers i c' = answers i c + (if sr_id r = i then 1 else 0))"
  by (simp add: request_reject_def client_send_def answers_def)

lemma request_respond_open:
  "client_open c \<Longrightarrow> \<exists>c'. request_respond r v c = (None, c') \<and> client_open c' \<and>
     (\<forall>i. answers i c' = answers i c + (if sr_id r = i then 1 else 0))"
  by (simp add: request_respond_def client_send_def answers_def)

lemma interactionId_inject [simp]: "interactionId t i = interactionId t j \<longleftrightarrow> id_text i = id_text j"
  by (simp add: interactionId_def)

lemma requestThreadId_payload:
  "js_get payload ''threadId'' = JStr u \<Longrightarrow> requestThreadId (JObj payload) = Some u"
  by (simp add: requestThreadId_def)

lemma requiredString_Inr: "requiredString v f = Inr s \<longleftrightarrow> v = JStr s \<and> s \<noteq> []"
  by (auto simp: requiredString_def split: js.splits)

lemma jsonObject_Inr: "jsonObject v = Inr fs \<Longrightarrow> v = JObj fs"
  by (auto simp: jsonObject_def split: js.splits if_splits)

text \<open>A new request: it waits, or it has been answered, or nobody can tell whose it is.\<close>

lemma serverRequest_fresh:
  assumes "client_open c" and "t_find entry_id (interactionId t (sr_id req)) (br_entries b) = None"
  shows "case serverRequest (\<lambda>_. None) t req now b c of (b', c') \<Rightarrow>
    client_open c' \<and>
    (br_entries b' = br_entries b \<and> (\<forall>i. answers i c' = answers i c + (if addressed t req \<and> sr_id req = i then 1 else 0)) \<or>
     (\<exists>e. br_entries b' = br_entries b @ [e] \<and> be_request e = req \<and> be_state e = ES_pending \<and>
        entry_id e = interactionId t (sr_id req) \<and> addressed t req \<and> c' = c))"
proof -
  obtain c1 where c1: "request_reject req ''Unsupported or invalid interactive request'' c = (None, c1)" "client_open c1"
    "\<forall>i. answers i c1 = answers i c + (if sr_id req = i then 1 else 0)"
    using request_reject_open [OF assms(1)] by blast
  obtain c2 where c2: "request_reject req ''Thread lease mismatch'' c = (None, c2)" "client_open c2"
    "\<forall>i. answers i c2 = answers i c + (if sr_id req = i then 1 else 0)"
    using request_reject_open [OF assms(1)] by blast
  show ?thesis
  proof (cases "jsonObject (sr_params req)")
    case (Inl e)
    then show ?thesis using c1 assms(1) by (simp add: serverRequest_def broker_add_def addressed_def)
  next
    case (Inr payload)
    note params = jsonObject_Inr [OF Inr]
    show ?thesis
    proof (cases "requiredString (js_get payload ''threadId'') ''interaction threadId''")
      case (Inl e)
      then show ?thesis using c1 Inr assms(1) by (simp add: serverRequest_def broker_add_def addressed_def)
    next
      case r: (Inr u)
      have addr: "addressed t req" "requestThreadId (sr_params req) = Some u"
        using Inr r params by (simp add: addressed_def) (use r params in \<open>auto simp: requestThreadId_payload requiredString_Inr\<close>)
      show ?thesis
      proof (cases "u = t")
        case False
        then show ?thesis using c2 Inr r addr by (simp add: serverRequest_def broker_add_def reject_and_throw_def)
      next
        case True
        then show ?thesis using c1 Inr r addr assms
          by (cases "interactionKind (sr_method req)")
            (auto simp: serverRequest_def broker_add_def broker_emit_def Let_def)
      qed
    qed
  qed
qed

lemma broker_inv_request:
  assumes inv: "broker_inv t seen (b, c)" and fresh: "id_text (sr_id req) \<notin> (\<lambda>r. id_text (sr_id r)) ` set seen"
  shows "broker_inv t (seen @ [req]) (serverRequest (\<lambda>_. None) t req now b c)"
proof -
  have "t_find entry_id (interactionId t (sr_id req)) (br_entries b) = None"
    using inv fresh by (force simp: broker_inv_def t_find_None)
  from serverRequest_fresh [OF _ this, of c now] inv show ?thesis
    by (cases "serverRequest (\<lambda>_. None) t req now b c")
      (use \<open>t_find _ _ _ = None\<close> in \<open>auto simp: broker_inv_def\<close>)
qed

lemma broker_inv_respond:
  assumes inv: "broker_inv t seen (b, c)"
  shows "broker_inv t seen (snd (broker_respond (\<lambda>_. None) i response b c))"
proof (cases "t_find entry_id i (br_entries b)")
  case None
  then show ?thesis using inv by (simp add: broker_respond_def)
next
  case (Some entry)
  then have pending: "be_state entry = ES_pending" using inv t_find_Some [OF Some] by (auto simp: broker_inv_def)
  show ?thesis
  proof (cases "adaptInteractionResponse entry response")
    case (Inl e)
    then show ?thesis using inv Some by (simp add: broker_respond_def)
  next
    case (Inr ad)
    let ?send = "case ad of AdaptedError m \<Rightarrow> request_reject (be_request entry) m c | AdaptedResult v \<Rightarrow> request_respond (be_request entry) v c"
    have "client_open c" using inv by (simp add: broker_inv_def)
    then obtain c' where c': "?send = (None, c')" "client_open c'"
      "\<forall>j. answers j c' = answers j c + (if sr_id (be_request entry) = j then 1 else 0)"
      using request_reject_open [of c "be_request entry"] request_respond_open [of c "be_request entry"] by (cases ad) (force, force)
    let ?rest = "t_delete (\<lambda>e. entry_id e = i) (br_entries b)"
    have "waiting j b = (if sr_id (be_request entry) = j then 1 else 0) + t_count (\<lambda>e. sr_id (be_request e) = j) ?rest" for j
      using inv Some by (intro t_count_delete_key) (simp_all add: broker_inv_def)
    moreover have result: "snd (broker_respond (\<lambda>_. None) i response b c) =
        (b\<lparr>br_entries := ?rest, br_emitted := br_emitted b @ [BE_resolved i]\<rparr>, c')"
      using Some pending Inr c' by (simp add: broker_respond_def broker_emit_def Let_def)
    moreover have "owed t j seen = answers j c + waiting j b" for j using inv by (simp add: broker_inv_def)
    ultimately have "answers j c' + t_count (\<lambda>e. sr_id (be_request e) = j) ?rest = owed t j seen" for j
      using c'(3) by (simp add: eq_commute [of "owed t j seen"])
    then show ?thesis using inv c'(2) result by (simp add: broker_inv_def set_t_delete)
  qed
qed

lemma fail_entries_open:
  "client_open c \<Longrightarrow> \<forall>e \<in> set entries. be_state e = ES_pending \<Longrightarrow>
     case snd (fail_entries (\<lambda>_. None) reason entries b c) of (b', c') \<Rightarrow>
       br_entries b' = br_entries b \<and> client_open c' \<and>
       (\<forall>i. answers i c' = answers i c + t_count (\<lambda>e. sr_id (be_request e) = i) entries)"
proof (induction entries arbitrary: b c)
  case (Cons e entries)
  obtain c1 where c1: "request_reject (be_request e) reason c = (None, c1)" "client_open c1"
    "\<forall>i. answers i c1 = answers i c + (if sr_id (be_request e) = i then 1 else 0)"
    using request_reject_open [OF Cons.prems(1)] by blast
  from Cons.IH [OF c1(2), of "snd (broker_emit (\<lambda>_. None) (BE_failed (entry_id e) reason) b)"] Cons.prems(2) c1
  show ?case by (auto simp: broker_emit_def split: prod.splits)
qed simp

lemma broker_inv_failAll:
  assumes inv: "broker_inv t seen (b, c)"
  shows "broker_inv t seen (snd (broker_failAll (\<lambda>_. None) reason b c)) \<and> br_entries (fst (snd (broker_failAll (\<lambda>_. None) reason b c))) = []"
proof -
  have "client_open c" "\<forall>e \<in> set (br_entries b). be_state e = ES_pending" using inv by (auto simp: broker_inv_def)
  from fail_entries_open [OF this, where reason = reason and b = "b\<lparr>br_entries := []\<rparr>"] inv show ?thesis
    by (cases "snd (broker_failAll (\<lambda>_. None) reason b c)") (auto simp: broker_failAll_def broker_inv_def)
qed

lemma broker_inv_run:
  "broker_inv t seen s \<Longrightarrow> distinct (map (\<lambda>r. id_text (sr_id r)) (seen @ requests_of ops)) \<Longrightarrow>
     broker_inv t (seen @ requests_of ops) (broker_run (\<lambda>_. None) t ops s)"
proof (induction ops arbitrary: seen s)
  case (Cons op ops)
  obtain b c where s: "s = (b, c)" by (cases s)
  show ?case
  proof (cases op)
    case (B_request req now)
    then have "broker_inv t (seen @ [req]) (broker_step (\<lambda>_. None) t op s)"
      using Cons.prems s by (auto intro!: broker_inv_request)
    from Cons.IH [OF this] Cons.prems(2) B_request show ?thesis by auto
  next
    case (B_respond i r)
    then show ?thesis using Cons s broker_inv_respond by auto
  next
    case (B_failAll r)
    then show ?thesis using Cons s broker_inv_failAll by auto
  qed
qed simp

lemma owed_distinct:
  "distinct (map (\<lambda>r. id_text (sr_id r)) rs) \<Longrightarrow> req \<in> set rs \<Longrightarrow> owed t (sr_id req) rs = (if addressed t req then 1 else 0)"
proof (induction rs)
  case (Cons r rs)
  have none: "owed t (sr_id r) rs = 0" using Cons.prems(1) by (auto simp: t_count_0 image_iff)
  show ?case
  proof (cases "r = req")
    case False
    then have "req \<in> set rs" using Cons.prems(2) by simp
    moreover from this have "sr_id r \<noteq> sr_id req" using Cons.prems(1) by (auto simp: image_iff)
    ultimately show ?thesis using Cons by simp
  qed (use none in simp)
qed simp


section \<open>Where the handler departs from its intent\<close>

text \<open>
  A request whose id is already waiting is rejected by the broker and then once more by the handler: two
  answers for one id, although the handler expects the second rejection to throw.
\<close>

lemma duplicate_rejected_twice:
  assumes "client_open c" and "sr_params req = JObj payload" and "assertJsonValue (JObj payload)"
    and "js_get payload ''threadId'' = JStr t" "t \<noteq> []"
    and "t_find entry_id (interactionId t (sr_id req)) (br_entries b) \<noteq> None"
  shows "case serverRequest heard t req now b c of (b', c') \<Rightarrow>
    b' = b \<and> answers (sr_id req) c' = answers (sr_id req) c + 2"
proof -
  obtain c1 where c1: "request_reject req ''Duplicate interaction'' c = (None, c1)" "client_open c1"
    "answers (sr_id req) c1 = answers (sr_id req) c + 1"
    using request_reject_open [OF assms(1)] by fastforce
  obtain c2 where c2: "request_reject req ''Unsupported or invalid interactive request'' c1 = (None, c2)"
    "answers (sr_id req) c2 = answers (sr_id req) c1 + 1"
    using request_reject_open [OF c1(2)] by fastforce
  show ?thesis using assms c1 c2
    by (auto simp: serverRequest_def broker_add_def jsonObject_def requiredString_def requestThreadId_payload reject_and_throw_def Let_def
        simp del: assertJsonValue.simps)
qed

text \<open>
  The two approval methods of the older protocol name their thread in \<open>conversationId\<close>. The broker lists them
  as supported, but a request without \<open>threadId\<close> and \<open>thread\<close> is neither kept nor answered.
\<close>

lemma conversation_approval_unanswered:
  assumes "sr_params req = JObj payload" and "js_get payload ''threadId'' = JUndefined" and "js_get payload ''thread'' = JUndefined"
  shows "serverRequest heard t req now b c = (b, c)"
  using assms by (simp add: serverRequest_def broker_add_def jsonObject_def requiredString_def requestThreadId_def)

section \<open>Witnesses\<close>

definition example_request :: "js \<Rightarrow> string \<Rightarrow> server_request" where
  "example_request i meth = \<lparr>sr_id = i, sr_method = meth, sr_params = JObj [(''threadId'', JStr ''t1''), (''turnId'', JStr ''u1'')]\<rparr>"

definition example_broker_ops :: "broker_op list" where
  "example_broker_ops = [B_request (example_request (JNum 7) ''item/fileChange/requestApproval'') 5,
     B_request (example_request (JNum 8) ''unknown/method'') 6,
     B_request (example_request (JNum 9) ''item/tool/requestUserInput'') 7,
     B_respond ''interaction:t1:7'' (R_approval True), B_respond ''interaction:t1:7'' (R_approval False)]"

definition open_client :: app_client where
  "open_client = client_new\<lparr>ac_socket_open := True\<rparr>"


end
