(* ===== verification/Thread_Lease.thy ===== *)
theory Thread_Lease
  imports Interaction_Broker "HOL-Library.AList"
begin

text \<open>
  A live thread of the agent: the class \<open>ThreadLease\<close> of
  \<open>apps/agent/src/v2/services/thread-lease-manager.ts\<close>, with the client and the broker it owns. Callbacks that
  the code schedules are data: \<open>le_timers\<close> are the cleanups of terminal turns that have been scheduled and
  \<open>le_cleanups\<close> the number of background checks for disposal; both run as events of their own. Listeners of the
  lease's events are taken to return normally. The validator of notifications is the parameter \<open>known\<close>.
\<close>

section \<open>State\<close>

datatype lease_state = LS_idle | LS_running | LS_waiting_input | LS_failed

record thread_context_usage =
  cu_turnId :: string
  cu_currentTokens :: int
  cu_cumulativeTokens :: int
  cu_modelContextWindow :: "int option"

datatype lease_event =
    LE_context_usage thread_context_usage
  | LE_notification string js
  | LE_generic string js
  | LE_interaction_created pending_interaction
  | LE_interaction_resolved string
  | LE_interaction_failed string string
  | LE_lease_failed string
  | LE_state lease_state

text \<open>An entry of \<open>#terminalTurns\<close>; \<open>tt_serial\<close> is the identity of the object.\<close>

record terminal_turn =
  tt_status :: string
  tt_pendingStartResponse :: bool
  tt_serial :: nat

text \<open>
  The release functions that were handed out, in order: what each one observes, until it is called.
\<close>

datatype observation = Obs_turn string | Obs_start | Obs_released

record lease =
  le_threadId :: string
  le_client :: app_client
  le_broker :: broker
  le_references :: "(string \<times> nat) list"
  le_state :: lease_state
  le_currentTurnId :: "string option"
  le_terminalTurns :: "(string \<times> terminal_turn) list"
  le_terminalObservers :: "string \<Rightarrow> nat"
  le_startObservers :: nat
  le_workspacePath :: "string option"
  le_contextUsage :: "thread_context_usage option"
  le_hasAuthoritativeState :: bool
  le_closed :: bool
  le_scope_closed :: bool
  le_next_serial :: nat
  le_observations :: "observation list"
  le_timers :: "(string \<times> nat) list"
  le_cleanups :: nat
  le_events :: "lease_event list"

definition lease_new :: "string \<Rightarrow> app_client \<Rightarrow> lease" where
  "lease_new threadId client = \<lparr>le_threadId = threadId, le_client = client, le_broker = broker_new,
     le_references = [], le_state = LS_idle, le_currentTurnId = None, le_terminalTurns = [],
     le_terminalObservers = (\<lambda>_. 0), le_startObservers = 0, le_workspacePath = None, le_contextUsage = None,
     le_hasAuthoritativeState = False, le_closed = False, le_scope_closed = False, le_next_serial = 0,
     le_observations = [], le_timers = [], le_cleanups = 0, le_events = []\<rparr>"

definition lease_emit :: "lease_event \<Rightarrow> lease \<Rightarrow> lease" where
  "lease_emit ev l = l\<lparr>le_events := le_events l @ [ev]\<rparr>"

definition background_cleanup :: "lease \<Rightarrow> lease" where
  "background_cleanup l = l\<lparr>le_cleanups := Suc (le_cleanups l)\<rparr>"

definition set_state :: "lease_state \<Rightarrow> lease \<Rightarrow> lease" where
  "set_state s l = l\<lparr>le_state := s\<rparr>"

definition emit_if_changed :: "bool \<Rightarrow> lease \<Rightarrow> lease" where
  "emit_if_changed changed l = (if changed then lease_emit (LE_state (le_state l)) l else l)"

definition lease_open :: "lease \<Rightarrow> ce_error option" where
  "lease_open l = (if le_closed l then Some (Error ''Thread lease is closed'') else None)"

section \<open>Listeners of the broker\<close>

fun on_broker_event :: "broker_event \<Rightarrow> lease \<Rightarrow> lease" where
  "on_broker_event (BE_created interaction) l =
     lease_emit (LE_interaction_created interaction) (lease_emit (LE_state LS_waiting_input) (set_state LS_waiting_input l))"
| "on_broker_event (BE_resolved i) l =
     (let l1 = lease_emit (LE_interaction_resolved i) l;
          l2 = (if broker_size (le_broker l1) = 0 \<and> le_state l1 = LS_waiting_input
                then lease_emit (LE_state LS_running) (set_state LS_running l1) else l1)
      in background_cleanup l2)"
| "on_broker_event (BE_failed i reason) l = background_cleanup (lease_emit (LE_interaction_failed i reason) l)"

text \<open>
  A call of the broker, with the listeners of the lease reacting to the events it emits, in order. The
  subscriptions end with the scope.
\<close>

definition with_broker :: "(broker \<Rightarrow> app_client \<Rightarrow> 'a \<times> broker \<times> app_client) \<Rightarrow> lease \<Rightarrow> 'a \<times> lease" where
  "with_broker call l =
     (case call (le_broker l) (le_client l) of (r, b, c) \<Rightarrow>
        let l1 = l\<lparr>le_broker := b, le_client := c\<rparr> in
        (r, if le_scope_closed l then l1
            else fold on_broker_event (drop (length (br_emitted (le_broker l))) (br_emitted b)) l1))"

section \<open>Terminal turns\<close>

definition terminalTurnStatus :: "string \<Rightarrow> lease \<Rightarrow> string option" where
  "terminalTurnStatus turnId l = map_option tt_status (map_of (le_terminalTurns l) turnId)"

definition scheduleTerminalTurnCleanup :: "string \<Rightarrow> lease \<Rightarrow> lease" where
  "scheduleTerminalTurnCleanup turnId l =
     (case map_of (le_terminalTurns l) turnId of
        None \<Rightarrow> l
      | Some terminal \<Rightarrow>
          if le_scope_closed l \<or> tt_pendingStartResponse terminal \<or> 0 < le_terminalObservers l turnId then l
          else l\<lparr>le_timers := le_timers l @ [(turnId, tt_serial terminal)]\<rparr>)"

text \<open>The callback of the timer.\<close>

definition terminal_timer :: "string \<Rightarrow> nat \<Rightarrow> lease \<Rightarrow> lease" where
  "terminal_timer turnId serial l =
     (case map_of (le_terminalTurns l) turnId of
        Some current \<Rightarrow>
          if tt_serial current = serial \<and> \<not> tt_pendingStartResponse current \<and> le_terminalObservers l turnId = 0
          then l\<lparr>le_terminalTurns := AList.delete turnId (le_terminalTurns l)\<rparr> else l
      | None \<Rightarrow> l)"

definition observeTerminalTurn :: "string \<Rightarrow> lease \<Rightarrow> (ce_error + nat) \<times> lease" where
  "observeTerminalTurn turnId l =
     (case lease_open l of Some e \<Rightarrow> (Inl e, l)
      | None \<Rightarrow>
        if turnId = [] then (Inl (Error ''Turn ID is empty''), l)
        else (Inr (length (le_observations l)),
          l\<lparr>le_terminalObservers := (le_terminalObservers l)(turnId := le_terminalObservers l turnId + 1),
            le_observations := le_observations l @ [Obs_turn turnId]\<rparr>))"

definition observeTurnStartResponse :: "lease \<Rightarrow> (ce_error + nat) \<times> lease" where
  "observeTurnStartResponse l =
     (case lease_open l of Some e \<Rightarrow> (Inl e, l)
      | None \<Rightarrow> (Inr (length (le_observations l)),
          l\<lparr>le_startObservers := le_startObservers l + 1, le_observations := le_observations l @ [Obs_start]\<rparr>))"

text \<open>
  When the last start response has settled, no terminal turn waits for one; the loop over the map schedules
  their cleanup.
\<close>

fun settle_start_responses :: "string list \<Rightarrow> lease \<Rightarrow> lease" where
  "settle_start_responses [] l = l"
| "settle_start_responses (turnId # turns) l =
     settle_start_responses turns
       (case map_of (le_terminalTurns l) turnId of
          Some terminal \<Rightarrow>
            if tt_pendingStartResponse terminal
            then scheduleTerminalTurnCleanup turnId
              (l\<lparr>le_terminalTurns := AList.update turnId (terminal\<lparr>tt_pendingStartResponse := False\<rparr>) (le_terminalTurns l)\<rparr>)
            else l
        | None \<Rightarrow> l)"

definition release_observation :: "nat \<Rightarrow> lease \<Rightarrow> lease" where
  "release_observation k l =
     (if length (le_observations l) \<le> k then l
      else case le_observations l ! k of
        Obs_released \<Rightarrow> l
      | Obs_turn turnId \<Rightarrow>
          scheduleTerminalTurnCleanup turnId
            (l\<lparr>le_observations := (le_observations l)[k := Obs_released],
               le_terminalObservers := (le_terminalObservers l)(turnId :=
                 if le_terminalObservers l turnId \<le> 1 then 0 else le_terminalObservers l turnId - 1)\<rparr>)
      | Obs_start \<Rightarrow>
          let l1 = l\<lparr>le_observations := (le_observations l)[k := Obs_released], le_startObservers := le_startObservers l - 1\<rparr>
          in if le_startObservers l1 \<noteq> 0 then l1 else settle_start_responses (map fst (le_terminalTurns l1)) l1)"

section \<open>References\<close>

datatype reference_kind = RK_viewer | RK_queue | RK_effect

fun reference_kind_text :: "reference_kind \<Rightarrow> string" where
  "reference_kind_text RK_viewer = ''viewer''"
| "reference_kind_text RK_queue = ''queue''"
| "reference_kind_text RK_effect = ''effect''"

definition reference_key :: "reference_kind \<Rightarrow> string \<Rightarrow> string" where
  "reference_key kind i = reference_kind_text kind @ '':'' @ i"

definition addReference :: "reference_kind \<Rightarrow> string \<Rightarrow> lease \<Rightarrow> (ce_error + unit) \<times> lease" where
  "addReference kind i l =
     (case lease_open l of Some e \<Rightarrow> (Inl e, l)
      | None \<Rightarrow>
        if i = [] then (Inl (Error ''Thread lease reference ID is empty''), l)
        else (Inr (), l\<lparr>le_references := AList.update (reference_key kind i)
               ((case map_of (le_references l) (reference_key kind i) of Some n \<Rightarrow> n | None \<Rightarrow> 0) + 1) (le_references l)\<rparr>))"

text \<open>Whether the lease asks to be disposed; the caller runs \<open>onDisposable\<close> then.\<close>

definition disposeIfIdle :: "lease \<Rightarrow> bool" where
  "disposeIfIdle l \<longleftrightarrow> \<not> le_closed l \<and> le_state l = LS_idle \<and> le_references l = [] \<and> broker_size (le_broker l) = 0"

definition releaseReference :: "reference_kind \<Rightarrow> string \<Rightarrow> lease \<Rightarrow> bool \<times> lease" where
  "releaseReference kind i l =
     (let key = reference_key kind i;
          count = (case map_of (le_references l) key of Some n \<Rightarrow> n | None \<Rightarrow> 0);
          l1 = l\<lparr>le_references := (if count \<le> 1 then AList.delete key (le_references l) else AList.update key (count - 1) (le_references l))\<rparr>
      in (disposeIfIdle l1, l1))"

section \<open>The authoritative state\<close>

definition requiredNestedObject :: "js \<Rightarrow> string \<Rightarrow> ce_error + (string \<times> js) list" where
  "requiredNestedObject v field =
     (case v of
        JObj fs \<Rightarrow> (case js_get fs field of JObj nested \<Rightarrow> Inr nested | _ \<Rightarrow> Inl (Error (''App-server response has no '' @ field)))
      | _ \<Rightarrow> Inl (Error ''App-server response must be an object''))"

definition nestedObjectString :: "js \<Rightarrow> string \<Rightarrow> ce_error + string" where
  "nestedObjectString v field =
     (case v of
        JObj fs \<Rightarrow> (case js_get fs field of JStr s \<Rightarrow> Inr s | _ \<Rightarrow> Inl (Error ''App-server thread status type is invalid''))
      | _ \<Rightarrow> Inl (Error ''App-server thread status is invalid''))"

text \<open>The last turn of the list that is in progress.\<close>

definition turn_in_progress :: "js \<Rightarrow> string option" where
  "turn_in_progress turn =
     (case (js_prop turn ''status'', js_prop turn ''id'') of
        (JStr s, JStr i) \<Rightarrow> if s = ''inProgress'' then Some i else None
      | _ \<Rightarrow> None)"

fun first_some :: "('a \<Rightarrow> 'b option) \<Rightarrow> 'a list \<Rightarrow> 'b option" where
  "first_some f [] = None"
| "first_some f (x # xs) = (case f x of Some y \<Rightarrow> Some y | None \<Rightarrow> first_some f xs)"

definition activeTurnId :: "js \<Rightarrow> string option" where
  "activeTurnId v = (case v of JArr turns \<Rightarrow> first_some turn_in_progress (rev turns) | _ \<Rightarrow> None)"

record authoritative_state =
  as_thread :: "(string \<times> js) list"
  as_workspacePath :: string
  as_state :: lease_state
  as_currentTurnId :: "string option"

definition adoptAuthoritativeThread :: "(string \<times> js) list \<Rightarrow> lease \<Rightarrow> (ce_error + authoritative_state) \<times> lease" where
  "adoptAuthoritativeThread thread l =
     (case lease_open l of Some e \<Rightarrow> (Inl e, l)
      | None \<Rightarrow>
        if js_get thread ''id'' \<noteq> JStr (le_threadId l) then (Inl (Error ''App-server returned a different thread''), l)
        else case js_get thread ''cwd'' of
          JStr cwd \<Rightarrow>
            if cwd = [] then (Inl (Error ''App-server thread has no working directory''), l)
            else let l1 = l\<lparr>le_workspacePath := Some cwd\<rparr> in
              (case nestedObjectString (js_get thread ''status'') ''type'' of Inl e \<Rightarrow> (Inl e, l1)
               | Inr status \<Rightarrow>
                 let s = (if status = ''active'' then (if 0 < broker_size (le_broker l1) then LS_waiting_input else LS_running)
                          else if status = ''systemError'' then LS_failed else LS_idle);
                     l2 = l1\<lparr>le_hasAuthoritativeState := True, le_state := s, le_currentTurnId := activeTurnId (js_get thread ''turns'')\<rparr>
                 in (Inr \<lparr>as_thread = thread, as_workspacePath = cwd, as_state = s, as_currentTurnId = le_currentTurnId l2\<rparr>,
                     emit_if_changed (\<not> le_hasAuthoritativeState l1 \<or> s \<noteq> le_state l1) l2))
        | _ \<Rightarrow> (Inl (Error ''App-server thread has no working directory''), l))"

text \<open>
  The continuation of \<open>synchronize\<close> once \<open>thread/read\<close> has answered; \<open>jsonValueSchema\<close> accepts what
  \<open>assertJsonValue\<close> accepts.
\<close>

definition synchronize_resume :: "ce_error + js \<Rightarrow> lease \<Rightarrow> (ce_error + authoritative_state) \<times> lease" where
  "synchronize_resume answer l =
     (case answer of Inl e \<Rightarrow> (Inl e, l)
      | Inr v \<Rightarrow>
        if \<not> assertJsonValue v then (Inl (Error ''Invalid input''), l)
        else case requiredNestedObject v ''thread'' of Inl e \<Rightarrow> (Inl e, l)
        | Inr thread \<Rightarrow> adoptAuthoritativeThread thread l)"

definition noteTurnStarted :: "string \<Rightarrow> lease \<Rightarrow> (ce_error + unit) \<times> lease" where
  "noteTurnStarted turnId l =
     (case lease_open l of Some e \<Rightarrow> (Inl e, l)
      | None \<Rightarrow>
        if turnId = [] then (Inl (Error ''Turn ID is empty''), l)
        else case map_of (le_terminalTurns l) turnId of
          Some terminal \<Rightarrow>
            (Inr (), scheduleTerminalTurnCleanup turnId
               (l\<lparr>le_terminalTurns := AList.update turnId (terminal\<lparr>tt_pendingStartResponse := False\<rparr>) (le_terminalTurns l)\<rparr>))
        | None \<Rightarrow>
            let s = (if 0 < broker_size (le_broker l) then LS_waiting_input else LS_running)
            in (Inr (), emit_if_changed (le_state l \<noteq> s) (l\<lparr>le_state := s, le_currentTurnId := Some turnId\<rparr>)))"

section \<open>Notifications\<close>

definition nestedString :: "js \<Rightarrow> string \<Rightarrow> string \<Rightarrow> string option" where
  "nestedString params field nestedField =
     (case js_prop (js_prop params field) nestedField of JStr s \<Rightarrow> if s = [] then None else Some s | _ \<Rightarrow> None)"

definition nestedId :: "js \<Rightarrow> string \<Rightarrow> string option" where
  "nestedId params field = nestedString params field ''id''"

definition nestedStatusType :: "js \<Rightarrow> string option" where
  "nestedStatusType params = (case js_prop (js_prop params ''status'') ''type'' of JStr s \<Rightarrow> Some s | _ \<Rightarrow> None)"

definition turn_started :: "js \<Rightarrow> lease \<Rightarrow> lease" where
  "turn_started params l = l\<lparr>le_state := LS_running,
     le_currentTurnId := (case nestedId params ''turn'' of Some i \<Rightarrow> Some i | None \<Rightarrow> le_currentTurnId l)\<rparr>"

definition remember_terminal :: "string \<Rightarrow> string \<Rightarrow> lease \<Rightarrow> lease" where
  "remember_terminal turnId status l =
     (let pendingStartResponse = 0 < le_startObservers l in
      if pendingStartResponse \<or> 0 < le_terminalObservers l turnId
      then l\<lparr>le_terminalTurns := AList.update turnId
               \<lparr>tt_status = status, tt_pendingStartResponse = pendingStartResponse, tt_serial = le_next_serial l\<rparr> (le_terminalTurns l),
             le_next_serial := Suc (le_next_serial l)\<rparr>
      else l)"

definition turn_completed :: "js \<Rightarrow> lease \<Rightarrow> lease" where
  "turn_completed params l =
     (let l1 = l\<lparr>le_state := (if 0 < broker_size (le_broker l) then LS_waiting_input else LS_idle)\<rparr>;
          completed = nestedId params ''turn'';
          l2 = (case (completed, nestedString params ''turn'' ''status'') of
                  (Some turnId, Some status) \<Rightarrow> remember_terminal turnId status l1 | _ \<Rightarrow> l1)
      in if completed = None \<or> completed = le_currentTurnId l2 then l2\<lparr>le_currentTurnId := None\<rparr> else l2)"

definition status_changed :: "js \<Rightarrow> lease \<Rightarrow> lease" where
  "status_changed params l =
     (case nestedStatusType params of
        None \<Rightarrow> l
      | Some status \<Rightarrow>
          if status = ''idle'' \<or> status = ''notLoaded'' then l\<lparr>le_state := LS_idle\<rparr>
          else if status = ''active'' then l\<lparr>le_state := LS_running\<rparr>
          else if status = ''systemError'' then l\<lparr>le_state := LS_failed\<rparr> else l)"

definition updateState :: "string \<Rightarrow> js \<Rightarrow> lease \<Rightarrow> lease" where
  "updateState meth params l =
     (let l1 = (if meth = ''turn/started'' then turn_started params l else l);
          l2 = (if meth = ''turn/completed'' then turn_completed params l1 else l1);
          l3 = (if meth = ''thread/status/changed'' then status_changed params l2 else l2)
      in background_cleanup (emit_if_changed (le_state l3 \<noteq> le_state l) l3))"

definition token_count :: "js \<Rightarrow> int option" where
  "token_count v = (case v of JNum n \<Rightarrow> if 0 \<le> n \<and> n \<le> MAX_SAFE_INTEGER then Some n else None | _ \<Rightarrow> None)"

text \<open>The code calls this only for a valid notification of this method; the nested reads cannot fail then.\<close>

definition projectThreadContextUsage :: "js \<Rightarrow> thread_context_usage option" where
  "projectThreadContextUsage params =
     (let usage = js_prop params ''tokenUsage''; window = js_prop usage ''modelContextWindow'' in
      case (js_prop params ''turnId'', token_count (js_prop (js_prop usage ''last'') ''totalTokens''),
            token_count (js_prop (js_prop usage ''total'') ''totalTokens'')) of
        (JStr turnId, Some current, Some cumulative) \<Rightarrow>
          if turnId = [] \<or> 512 < length turnId then None
          else if window = JNull then Some \<lparr>cu_turnId = turnId, cu_currentTokens = current, cu_cumulativeTokens = cumulative,
            cu_modelContextWindow = None\<rparr>
          else (case token_count window of
            Some w \<Rightarrow> Some \<lparr>cu_turnId = turnId, cu_currentTokens = current, cu_cumulativeTokens = cumulative,
              cu_modelContextWindow = Some w\<rparr>
          | None \<Rightarrow> None)
      | _ \<Rightarrow> None)"

definition lease_notification :: "(string \<Rightarrow> js \<Rightarrow> bool) \<Rightarrow> string \<Rightarrow> js \<Rightarrow> lease \<Rightarrow> lease" where
  "lease_notification known meth params l =
     (if requestThreadId params \<noteq> Some (le_threadId l) then l
      else if \<not> assertJsonValue params then lease_emit (LE_generic meth JNull) l
      else let l1 = updateState meth params l in
        if known meth params then
          let l2 = (if meth = ''thread/tokenUsage/updated'' then
                case projectThreadContextUsage params of
                  Some usage \<Rightarrow> lease_emit (LE_context_usage usage) (l1\<lparr>le_contextUsage := Some usage\<rparr>)
                | None \<Rightarrow> l1
              else l1)
          in lease_emit (LE_notification meth params) l2
        else lease_emit (LE_generic meth params) l1)"

section \<open>Interactions and the end of the lease\<close>

definition lease_serverRequest :: "server_request \<Rightarrow> timestamp \<Rightarrow> lease \<Rightarrow> lease" where
  "lease_serverRequest req now l = snd (with_broker (\<lambda>b c. ((), serverRequest (\<lambda>_. None) (le_threadId l) req now b c)) l)"

definition respondToInteraction :: "string \<Rightarrow> interaction_response \<Rightarrow> lease \<Rightarrow> (ce_error + unit) \<times> lease" where
  "respondToInteraction i response l =
     (case lease_open l of Some e \<Rightarrow> (Inl e, l)
      | None \<Rightarrow> with_broker (broker_respond (\<lambda>_. None) i response) l)"

text \<open>The synchronous part of \<open>close\<close> and the end of the scope, which drops the timers and the subscriptions.\<close>

definition lease_close :: "string \<Rightarrow> lease \<Rightarrow> lease" where
  "lease_close reason l =
     (if le_closed l then l
      else (snd (with_broker (broker_failAll (\<lambda>_. None) reason) (l\<lparr>le_closed := True\<rparr>)))\<lparr>le_scope_closed := True, le_timers := []\<rparr>)"

definition lease_clientClosed :: "lease \<Rightarrow> lease" where
  "lease_clientClosed l =
     (if le_closed l then l
      else let l1 = lease_emit (LE_state LS_failed) (set_state LS_failed l);
               l2 = snd (with_broker (broker_failAll (\<lambda>_. None) ''app-server-client-closed'') l1)
           in lease_emit (LE_lease_failed ''app-server-client-closed'') l2)"

definition cleanup_failed :: "lease \<Rightarrow> lease" where
  "cleanup_failed l = lease_emit (LE_lease_failed ''lease-disposal-failed'') (lease_emit (LE_state LS_failed) (set_state LS_failed l))"

section \<open>Histories of a lease\<close>

datatype lease_op =
    L_observeTerminalTurn string
  | L_observeTurnStartResponse
  | L_release_observation nat
  | L_timer nat
  | L_noteTurnStarted string
  | L_notification string js
  | L_adopt "(string \<times> js) list"
  | L_serverRequest server_request timestamp
  | L_respond string interaction_response
  | L_addReference reference_kind string
  | L_releaseReference reference_kind string
  | L_clientClosed
  | L_cleanup_failed
  | L_close string

definition fire_timer :: "nat \<Rightarrow> lease \<Rightarrow> lease" where
  "fire_timer i l =
     (if i < length (le_timers l)
      then case le_timers l ! i of (turnId, serial) \<Rightarrow>
        terminal_timer turnId serial (l\<lparr>le_timers := take i (le_timers l) @ drop (Suc i) (le_timers l)\<rparr>)
      else l)"

text \<open>The subscriptions to the client end with the scope.\<close>

fun lease_step :: "(string \<Rightarrow> js \<Rightarrow> bool) \<Rightarrow> lease_op \<Rightarrow> lease \<Rightarrow> lease" where
  "lease_step known (L_observeTerminalTurn t) l = snd (observeTerminalTurn t l)"
| "lease_step known L_observeTurnStartResponse l = snd (observeTurnStartResponse l)"
| "lease_step known (L_release_observation k) l = release_observation k l"
| "lease_step known (L_timer i) l = fire_timer i l"
| "lease_step known (L_noteTurnStarted t) l = snd (noteTurnStarted t l)"
| "lease_step known (L_notification meth params) l = (if le_scope_closed l then l else lease_notification known meth params l)"
| "lease_step known (L_adopt thread) l = snd (adoptAuthoritativeThread thread l)"
| "lease_step known (L_serverRequest req now) l = (if le_scope_closed l then l else lease_serverRequest req now l)"
| "lease_step known (L_respond i r) l = snd (respondToInteraction i r l)"
| "lease_step known (L_addReference kind i) l = snd (addReference kind i l)"
| "lease_step known (L_releaseReference kind i) l = snd (releaseReference kind i l)"
| "lease_step known L_clientClosed l = (if le_scope_closed l then l else lease_clientClosed l)"
| "lease_step known L_cleanup_failed l = cleanup_failed l"
| "lease_step known (L_close reason) l = lease_close reason l"

fun lease_run :: "(string \<Rightarrow> js \<Rightarrow> bool) \<Rightarrow> lease_op list \<Rightarrow> lease \<Rightarrow> lease" where
  "lease_run known [] l = l"
| "lease_run known (op # ops) l = lease_run known ops (lease_step known op l)"

section \<open>What most operations leave alone\<close>

text \<open>The part of the lease that remembers terminal turns.\<close>

definition terminal_view ::
  "lease \<Rightarrow> (string \<times> terminal_turn) list \<times> (string \<Rightarrow> nat) \<times> nat \<times> observation list \<times> (string \<times> nat) list \<times> nat \<times> bool \<times> string" where
  "terminal_view l = (le_terminalTurns l, le_terminalObservers l, le_startObservers l, le_observations l, le_timers l, le_next_serial l,
     le_scope_closed l, le_threadId l)"

named_theorems lease_frames

lemma view_emit [lease_frames]:
  "terminal_view (lease_emit ev l) = terminal_view l" "terminal_view (set_state s l) = terminal_view l"
  "terminal_view (background_cleanup l) = terminal_view l" "terminal_view (emit_if_changed b l) = terminal_view l"
  by (simp_all add: terminal_view_def lease_emit_def set_state_def background_cleanup_def emit_if_changed_def)

lemma view_update [lease_frames]:
  "terminal_view (l\<lparr>le_state := s\<rparr>) = terminal_view l" "terminal_view (l\<lparr>le_broker := b\<rparr>) = terminal_view l"
  "terminal_view (l\<lparr>le_client := c\<rparr>) = terminal_view l" "terminal_view (l\<lparr>le_currentTurnId := t\<rparr>) = terminal_view l"
  "terminal_view (l\<lparr>le_references := r\<rparr>) = terminal_view l" "terminal_view (l\<lparr>le_closed := d\<rparr>) = terminal_view l"
  "terminal_view (l\<lparr>le_workspacePath := w\<rparr>) = terminal_view l" "terminal_view (l\<lparr>le_hasAuthoritativeState := h\<rparr>) = terminal_view l"
  "terminal_view (l\<lparr>le_contextUsage := u\<rparr>) = terminal_view l"
  by (simp_all add: terminal_view_def)

lemma view_broker_event [lease_frames]: "terminal_view (on_broker_event ev l) = terminal_view l"
  by (cases ev) (simp_all add: lease_frames Let_def)

lemma view_fold [lease_frames]: "terminal_view (fold on_broker_event evs l) = terminal_view l"
  by (induction evs arbitrary: l) (simp_all add: lease_frames)

lemma view_with_broker [lease_frames]: "terminal_view (snd (with_broker call l)) = terminal_view l"
  by (simp add: with_broker_def lease_frames Let_def split: prod.splits)

definition keeps_turns :: "lease_op \<Rightarrow> bool" where
  "keeps_turns op = (case op of
     L_adopt _ \<Rightarrow> True | L_serverRequest _ _ \<Rightarrow> True | L_respond _ _ \<Rightarrow> True | L_addReference _ _ \<Rightarrow> True
   | L_releaseReference _ _ \<Rightarrow> True | L_clientClosed \<Rightarrow> True | L_cleanup_failed \<Rightarrow> True
   | L_notification meth _ \<Rightarrow> meth \<noteq> ''turn/completed'' | _ \<Rightarrow> False)"

lemma view_status_changed [lease_frames]: "terminal_view (status_changed params l) = terminal_view l"
  by (simp add: status_changed_def lease_frames split: option.splits)

lemma view_notification:
  "terminal_view (lease_notification known meth params l) =
     (if requestThreadId params = Some (le_threadId l) \<and> assertJsonValue params \<and> meth = ''turn/completed''
      then terminal_view (turn_completed params l) else terminal_view l)"
  by (simp add: lease_notification_def updateState_def turn_started_def lease_frames Let_def split: option.splits)

lemma view_keeps_turns: "keeps_turns op \<Longrightarrow> terminal_view (lease_step known op l) = terminal_view l"
  by (cases op) (auto simp: keeps_turns_def view_notification adoptAuthoritativeThread_def lease_serverRequest_def respondToInteraction_def
      addReference_def releaseReference_def lease_clientClosed_def cleanup_failed_def lease_open_def Let_def lease_frames
      split: option.splits js.splits sum.splits)

lemma view_close:
  "terminal_view (lease_close reason l) =
     (if le_closed l then terminal_view l
      else (le_terminalTurns l, le_terminalObservers l, le_startObservers l, le_observations l, [], le_next_serial l, True, le_threadId l))"
  using view_with_broker [of "broker_failAll (\<lambda>_. None) reason" "l\<lparr>le_closed := True\<rparr>"]
  by (simp add: lease_close_def terminal_view_def)

section \<open>Terminal turns are kept while they are needed, and no longer\<close>

definition observers_counted :: "lease \<Rightarrow> bool" where
  "observers_counted l \<longleftrightarrow> (\<forall>t. le_terminalObservers l t = t_count ((=) (Obs_turn t)) (le_observations l)) \<and>
     le_startObservers l = t_count ((=) Obs_start) (le_observations l)"

text \<open>Why an entry may still be there: a start response or an observer is outstanding, or its cleanup is scheduled.\<close>

definition justified :: "lease \<Rightarrow> string \<Rightarrow> terminal_turn \<Rightarrow> bool" where
  "justified l t e \<longleftrightarrow> (if tt_pendingStartResponse e then 0 < le_startObservers l
     else 0 < le_terminalObservers l t \<or> (t, tt_serial e) \<in> set (le_timers l))"

definition turns_justified :: "lease \<Rightarrow> bool" where
  "turns_justified l \<longleftrightarrow> (\<forall>t e. map_of (le_terminalTurns l) t = Some e \<longrightarrow> justified l t e)"

definition turns_inv :: "lease \<Rightarrow> bool" where
  "turns_inv l \<longleftrightarrow> observers_counted l \<and> (\<not> le_scope_closed l \<longrightarrow> turns_justified l)"

lemma turns_inv_view: "terminal_view l' = terminal_view l \<Longrightarrow> turns_inv l' = turns_inv l"
  by (simp add: turns_inv_def observers_counted_def turns_justified_def justified_def terminal_view_def)

lemma turns_inv_new: "turns_inv (lease_new t c)"
  by (simp add: turns_inv_def observers_counted_def turns_justified_def lease_new_def)

lemma schedule_counted [simp]:
  "observers_counted (scheduleTerminalTurnCleanup t l) = observers_counted l"
  "le_scope_closed (scheduleTerminalTurnCleanup t l) = le_scope_closed l"
  "le_terminalTurns (scheduleTerminalTurnCleanup t l) = le_terminalTurns l"
  "le_observations (scheduleTerminalTurnCleanup t l) = le_observations l"
  by (simp_all add: scheduleTerminalTurnCleanup_def observers_counted_def split: option.splits)

lemma justified_schedule: "justified l t e \<Longrightarrow> justified (scheduleTerminalTurnCleanup u l) t e"
  by (auto simp: justified_def scheduleTerminalTurnCleanup_def split: option.splits)

lemma justified_scheduled:
  "\<not> le_scope_closed l \<Longrightarrow> map_of (le_terminalTurns l) t = Some e \<Longrightarrow> \<not> tt_pendingStartResponse e \<Longrightarrow>
     justified (scheduleTerminalTurnCleanup t l) t e"
  by (auto simp: justified_def scheduleTerminalTurnCleanup_def)

lemma settle_counted [simp]:
  "observers_counted (settle_start_responses ts l) = observers_counted l \<and>
   le_scope_closed (settle_start_responses ts l) = le_scope_closed l \<and>
   le_observations (settle_start_responses ts l) = le_observations l"
proof (induction ts arbitrary: l)
  case (Cons t ts)
  have "observers_counted (l\<lparr>le_terminalTurns := x\<rparr>) = observers_counted l" for x by (simp add: observers_counted_def)
  then show ?case by (simp add: Cons split: option.splits)
qed simp

lemma settle_justified:
  "\<not> le_scope_closed l \<Longrightarrow>
   \<forall>t e. map_of (le_terminalTurns l) t = Some e \<longrightarrow> justified l t e \<or> t \<in> set ts \<and> tt_pendingStartResponse e \<Longrightarrow>
     turns_justified (settle_start_responses ts l)"
proof (induction ts arbitrary: l)
  case Nil
  then show ?case by (simp add: turns_justified_def)
next
  case (Cons u ts)
  show ?case
  proof (cases "\<exists>e. map_of (le_terminalTurns l) u = Some e \<and> tt_pendingStartResponse e")
    case False
    then show ?thesis using Cons.IH [OF Cons.prems(1)] Cons.prems(2) by (fastforce split: option.splits)
  next
    case True
    then obtain e where e: "map_of (le_terminalTurns l) u = Some e" "tt_pendingStartResponse e" by blast
    let ?m = "l\<lparr>le_terminalTurns := AList.update u (e\<lparr>tt_pendingStartResponse := False\<rparr>) (le_terminalTurns l)\<rparr>"
    let ?l = "scheduleTerminalTurnCleanup u ?m"
    have "justified ?l t d \<or> t \<in> set ts \<and> tt_pendingStartResponse d"
      if d: "map_of (le_terminalTurns ?l) t = Some d" for t d
    proof (cases "t = u")
      case True
      then have "d = e\<lparr>tt_pendingStartResponse := False\<rparr>" using d by (simp add: update_conv')
      then show ?thesis using justified_scheduled [of ?m u d] Cons.prems(1) d True by simp
    next
      case False
      then have "map_of (le_terminalTurns l) t = Some d" using d by (simp add: update_conv')
      then have "justified l t d \<or> t \<in> set ts \<and> tt_pendingStartResponse d" using Cons.prems(2) False by auto
      moreover have "justified l t d \<Longrightarrow> justified ?l t d" by (rule justified_schedule) (simp add: justified_def)
      ultimately show ?thesis by blast
    qed
    then show ?thesis using Cons.IH [of ?l] Cons.prems(1) e by simp
  qed
qed

lemma justified_mono:
  "justified l t e \<Longrightarrow> le_startObservers l \<le> le_startObservers l' \<Longrightarrow> le_terminalObservers l t \<le> le_terminalObservers l' t \<Longrightarrow>
     set (le_timers l) \<subseteq> set (le_timers l') \<Longrightarrow> justified l' t e"
  by (auto simp: justified_def split: if_splits)

lemma turns_justified_mono:
  assumes "turns_justified l" and "le_terminalTurns l' = le_terminalTurns l" and "le_startObservers l \<le> le_startObservers l'"
    and "\<And>t. le_terminalObservers l t \<le> le_terminalObservers l' t" and "set (le_timers l) \<subseteq> set (le_timers l')"
  shows "turns_justified l'"
  using assms by (auto simp: turns_justified_def intro: justified_mono)

lemma turns_inv_observeTerminalTurn: "turns_inv l \<Longrightarrow> turns_inv (snd (observeTerminalTurn t l))"
proof -
  assume inv: "turns_inv l"
  let ?l = "l\<lparr>le_terminalObservers := (le_terminalObservers l)(t := le_terminalObservers l t + 1),
    le_observations := le_observations l @ [Obs_turn t]\<rparr>"
  have "turns_justified l \<Longrightarrow> turns_justified ?l" by (erule turns_justified_mono) auto
  then have "turns_inv ?l" using inv by (auto simp: turns_inv_def observers_counted_def)
  then show ?thesis using inv by (simp add: observeTerminalTurn_def split: option.splits)
qed

lemma turns_inv_observeTurnStartResponse: "turns_inv l \<Longrightarrow> turns_inv (snd (observeTurnStartResponse l))"
proof -
  assume inv: "turns_inv l"
  let ?l = "l\<lparr>le_startObservers := le_startObservers l + 1, le_observations := le_observations l @ [Obs_start]\<rparr>"
  have "turns_justified l \<Longrightarrow> turns_justified ?l" by (erule turns_justified_mono) auto
  then have "turns_inv ?l" using inv by (auto simp: turns_inv_def observers_counted_def)
  then show ?thesis using inv by (simp add: observeTurnStartResponse_def split: option.splits)
qed

lemma released_count:
  assumes "k < length obs"
  shows "t_count ((=) (Obs_turn t)) (obs[k := Obs_released]) = t_count ((=) (Obs_turn t)) obs - (if obs ! k = Obs_turn t then 1 else 0)"
    and "t_count ((=) Obs_start) (obs[k := Obs_released]) = t_count ((=) Obs_start) obs - (if obs ! k = Obs_start then 1 else 0)"
  using t_count_list_update [OF assms, of "(=) (Obs_turn t)" Obs_released] t_count_list_update [OF assms, of "(=) Obs_start" Obs_released]
  by (auto split: if_splits)

text \<open>After a change that concerns only the entry of one turn, scheduling the cleanup of that turn is enough.\<close>

lemma turns_inv_scheduled:
  assumes "observers_counted m"
    and "\<And>u e. \<not> le_scope_closed m \<Longrightarrow> map_of (le_terminalTurns m) u = Some e \<Longrightarrow>
      justified m u e \<or> u = t \<and> \<not> tt_pendingStartResponse e"
  shows "turns_inv (scheduleTerminalTurnCleanup t m)"
  using assms by (auto simp: turns_inv_def turns_justified_def intro: justified_schedule justified_scheduled)

lemma turns_inv_release:
  assumes inv: "turns_inv l"
  shows "turns_inv (release_observation k l)"
proof (cases "k < length (le_observations l)")
  case True
  note released = released_count [OF True]
  have pending: "\<not> le_scope_closed l \<Longrightarrow> map_of (le_terminalTurns l) u = Some e \<Longrightarrow> justified l u e" for u e
    using inv by (simp add: turns_inv_def turns_justified_def)
  show ?thesis
  proof (cases "le_observations l ! k")
    case (Obs_turn t)
    let ?m = "l\<lparr>le_observations := (le_observations l)[k := Obs_released], le_terminalObservers := (le_terminalObservers l)(t :=
        if le_terminalObservers l t \<le> 1 then 0 else le_terminalObservers l t - 1)\<rparr>"
    have "observers_counted ?m" using inv Obs_turn by (auto simp: turns_inv_def observers_counted_def released)
    moreover have "justified ?m u e \<or> u = t \<and> \<not> tt_pendingStartResponse e" if "justified l u e" for u e
      using that by (auto simp: justified_def)
    ultimately have "turns_inv (scheduleTerminalTurnCleanup t ?m)" using pending by (intro turns_inv_scheduled) auto
    then show ?thesis using True Obs_turn by (simp add: release_observation_def)
  next
    case Obs_start
    let ?m = "l\<lparr>le_observations := (le_observations l)[k := Obs_released], le_startObservers := le_startObservers l - 1\<rparr>"
    have counted: "observers_counted ?m" using inv Obs_start by (auto simp: turns_inv_def observers_counted_def released)
    show ?thesis
    proof (cases "le_startObservers ?m = 0")
      case True
      have "justified ?m u e \<or> u \<in> set (map fst (le_terminalTurns l)) \<and> tt_pendingStartResponse e"
        if "\<not> le_scope_closed l" "map_of (le_terminalTurns l) u = Some e" for u e
        using pending [OF that] map_of_SomeD [OF that(2)] by (force simp: justified_def)
      then have "\<not> le_scope_closed l \<Longrightarrow> turns_justified (settle_start_responses (map fst (le_terminalTurns l)) ?m)"
        using settle_justified [of ?m "map fst (le_terminalTurns l)"] by simp
      then show ?thesis using True \<open>k < _\<close> Obs_start counted by (simp add: release_observation_def turns_inv_def Let_def)
    next
      case False
      then have "justified ?m u e" if "justified l u e" for u e using that by (auto simp: justified_def)
      then have "\<not> le_scope_closed l \<Longrightarrow> turns_justified ?m" using pending by (auto simp: turns_justified_def)
      then show ?thesis using False \<open>k < _\<close> Obs_start counted by (simp add: release_observation_def turns_inv_def Let_def)
    qed
  next
    case Obs_released
    then show ?thesis using inv True by (simp add: release_observation_def)
  qed
qed (simp add: release_observation_def inv)

lemma turns_inv_fire_timer:
  assumes inv: "turns_inv l"
  shows "turns_inv (fire_timer i l)"
proof (cases "i < length (le_timers l)")
  case True
  obtain t serial where i: "le_timers l ! i = (t, serial)" by fastforce
  let ?rest = "take i (le_timers l) @ drop (Suc i) (le_timers l)"
  let ?l = "fire_timer i l"
  have timers: "set (le_timers l) = insert (t, serial) (set ?rest)" using id_take_nth_drop [OF True] i by (metis (no_types) list.set_map Un_insert_right list.simps(15) set_append)
  have l: "?l = terminal_timer t serial (l\<lparr>le_timers := ?rest\<rparr>)" using True i by (simp add: fire_timer_def)
  have "observers_counted ?l" using inv by (simp add: l terminal_timer_def turns_inv_def observers_counted_def split: option.splits)
  moreover have "justified ?l u e" if "\<not> le_scope_closed l" "map_of (le_terminalTurns ?l) u = Some e" for u e
  proof -
    have e: "map_of (le_terminalTurns l) u = Some e \<and>
        \<not> (u = t \<and> tt_serial e = serial \<and> \<not> tt_pendingStartResponse e \<and> le_terminalObservers l t = 0)"
      using that(2) by (auto simp: l terminal_timer_def delete_conv' split: option.splits if_splits)
    then have "justified l u e" using inv that(1) by (simp add: turns_inv_def turns_justified_def)
    then show ?thesis using e by (auto simp: l terminal_timer_def justified_def timers split: option.splits if_splits)
  qed
  moreover have "le_scope_closed ?l = le_scope_closed l" by (simp add: l terminal_timer_def split: option.splits)
  ultimately show ?thesis by (simp add: turns_inv_def turns_justified_def)
qed (simp add: fire_timer_def inv)

lemma turns_inv_noteTurnStarted:
  assumes inv: "turns_inv l"
  shows "turns_inv (snd (noteTurnStarted t l))"
proof (cases "map_of (le_terminalTurns l) t")
  case None
  have "terminal_view (snd (noteTurnStarted t l)) = terminal_view l"
    using None by (simp add: noteTurnStarted_def lease_frames Let_def split: option.splits)
  then show ?thesis using inv turns_inv_view by blast
next
  case (Some e)
  let ?m = "l\<lparr>le_terminalTurns := AList.update t (e\<lparr>tt_pendingStartResponse := False\<rparr>) (le_terminalTurns l)\<rparr>"
  have "justified ?m u d \<or> u = t \<and> \<not> tt_pendingStartResponse d"
    if "\<not> le_scope_closed l" "map_of (le_terminalTurns ?m) u = Some d" for u d
    using inv that by (auto simp: turns_inv_def turns_justified_def justified_def update_conv' split: if_splits)
  moreover have "observers_counted ?m" using inv by (simp add: turns_inv_def observers_counted_def)
  ultimately have "turns_inv (scheduleTerminalTurnCleanup t ?m)" by (intro turns_inv_scheduled) auto
  then show ?thesis using Some inv by (simp add: noteTurnStarted_def split: option.splits)
qed

lemma turns_inv_remember:
  assumes inv: "turns_inv l"
  shows "turns_inv (remember_terminal t status l)"
proof (cases "0 < le_startObservers l \<or> 0 < le_terminalObservers l t")
  case True
  let ?e = "\<lparr>tt_status = status, tt_pendingStartResponse = 0 < le_startObservers l, tt_serial = le_next_serial l\<rparr>"
  let ?l = "remember_terminal t status l"
  have l: "?l = l\<lparr>le_terminalTurns := AList.update t ?e (le_terminalTurns l), le_next_serial := Suc (le_next_serial l)\<rparr>"
    using True by (simp add: remember_terminal_def Let_def)
  have "justified ?l u d" if "\<not> le_scope_closed l" "map_of (le_terminalTurns ?l) u = Some d" for u d
    using inv that True by (auto simp: l turns_inv_def turns_justified_def justified_def update_conv' split: if_splits)
  then show ?thesis using inv by (simp add: turns_inv_def turns_justified_def observers_counted_def l)
qed (simp add: remember_terminal_def inv)

lemma turn_completed_view:
  "terminal_view (turn_completed params l) =
     (case (nestedId params ''turn'', nestedString params ''turn'' ''status'') of
        (Some t, Some status) \<Rightarrow> terminal_view (remember_terminal t status l) | _ \<Rightarrow> terminal_view l)"
proof -
  have "terminal_view (remember_terminal t status (l\<lparr>le_state := st\<rparr>)) = terminal_view (remember_terminal t status l)" for t status st
    by (simp add: remember_terminal_def terminal_view_def Let_def)
  then show ?thesis by (simp add: turn_completed_def lease_frames Let_def split: option.splits)
qed

lemma notification_view_cases:
  obtains (same) "terminal_view (lease_notification known meth params l) = terminal_view l"
  | (remembered) t status where "meth = ''turn/completed''" "nestedId params ''turn'' = Some t"
      "nestedString params ''turn'' ''status'' = Some status"
      "terminal_view (lease_notification known meth params l) = terminal_view (remember_terminal t status l)"
  by (cases "nestedId params ''turn''"; cases "nestedString params ''turn'' ''status''";
      cases "requestThreadId params = Some (le_threadId l) \<and> assertJsonValue params \<and> meth = ''turn/completed''")
    (auto simp: view_notification turn_completed_view)

lemma turns_inv_notification: "turns_inv l \<Longrightarrow> turns_inv (lease_notification known meth params l)"
  by (cases rule: notification_view_cases [of known meth params l]) (auto dest: turns_inv_view turns_inv_remember)

lemma turns_inv_close: "turns_inv l \<Longrightarrow> turns_inv (lease_close reason l)"
  using view_close [of reason l] turns_inv_view [of "lease_close reason l" l]
  by (cases "le_closed l") (auto simp: terminal_view_def turns_inv_def observers_counted_def)

lemma turns_inv_step: "turns_inv l \<Longrightarrow> turns_inv (lease_step known op l)"
proof (cases "keeps_turns op")
  case True
  assume "turns_inv l"
  then show ?thesis using turns_inv_view [OF view_keeps_turns [OF True]] by blast
next
  case False
  assume "turns_inv l"
  then show ?thesis
    using False by (cases op) (auto simp: keeps_turns_def intro: turns_inv_observeTerminalTurn turns_inv_observeTurnStartResponse turns_inv_release
        turns_inv_fire_timer turns_inv_noteTurnStarted turns_inv_notification turns_inv_close)
qed

lemma turns_inv_run: "turns_inv l \<Longrightarrow> turns_inv (lease_run known ops l)"
  by (induction ops arbitrary: l) (simp_all add: turns_inv_step)

text \<open>
  The memory of finished turns does not leak: in every history of an open lease, when all
  observations have been released and no cleanup is scheduled any more, nothing is remembered; and at every
  moment a remembered turn is one that an unreleased observation asked for or whose cleanup is on its way.
\<close>

theorem terminal_turns_do_not_leak:
  assumes "l = lease_run known ops (lease_new t c)" and "\<not> le_scope_closed l"
  shows "(set (le_observations l) \<subseteq> {Obs_released} \<and> le_timers l = [] \<longrightarrow> le_terminalTurns l = []) \<and>
    (\<forall>u e. map_of (le_terminalTurns l) u = Some e \<longrightarrow>
       (if tt_pendingStartResponse e then Obs_start \<in> set (le_observations l)
        else Obs_turn u \<in> set (le_observations l) \<or> (u, tt_serial e) \<in> set (le_timers l)))"
proof -
  have inv: "turns_inv l" using turns_inv_run [OF turns_inv_new] assms(1) by simp
  then have start: "0 < le_startObservers l \<Longrightarrow> Obs_start \<in> set (le_observations l)"
    and turn: "0 < le_terminalObservers l u \<Longrightarrow> Obs_turn u \<in> set (le_observations l)" for u
    by (auto simp: turns_inv_def observers_counted_def t_count_def filter_empty_conv)
  have just: "map_of (le_terminalTurns l) u = Some e \<Longrightarrow> justified l u e" for u e
    using inv assms(2) by (simp add: turns_inv_def turns_justified_def)
  have "le_terminalTurns l = []" if "set (le_observations l) \<subseteq> {Obs_released}" "le_timers l = []"
  proof (rule ccontr)
    assume "le_terminalTurns l \<noteq> []"
    then obtain u e where "map_of (le_terminalTurns l) u = Some e" by (cases "le_terminalTurns l") force+
    from just [OF this] show False using start turn [of u] that by (auto simp: justified_def split: if_splits)
  qed
  moreover have "if tt_pendingStartResponse e then Obs_start \<in> set (le_observations l)
      else Obs_turn u \<in> set (le_observations l) \<or> (u, tt_serial e) \<in> set (le_timers l)"
    if "map_of (le_terminalTurns l) u = Some e" for u e
    using just [OF that] start turn [of u] by (auto simp: justified_def split: if_splits)
  ultimately show ?thesis by blast
qed

text \<open>
  An outcome that an observation \<open>k\<close> waits for: the status is there, and for a start response it is still
  marked as waiting.
\<close>

definition retained :: "nat \<Rightarrow> observation \<Rightarrow> string \<Rightarrow> string \<Rightarrow> lease \<Rightarrow> bool" where
  "retained k ob t status l \<longleftrightarrow> k < length (le_observations l) \<and> le_observations l ! k = ob \<and>
     (\<exists>e. map_of (le_terminalTurns l) t = Some e \<and> tt_status e = status \<and> (ob = Obs_start \<longrightarrow> tt_pendingStartResponse e))"

definition disturbs :: "nat \<Rightarrow> observation \<Rightarrow> string \<Rightarrow> lease_op \<Rightarrow> bool" where
  "disturbs k ob t op = (case op of
     L_release_observation j \<Rightarrow> j = k
   | L_noteTurnStarted u \<Rightarrow> ob = Obs_start \<and> u = t
   | L_notification meth params \<Rightarrow> meth = ''turn/completed'' \<and> nestedId params ''turn'' = Some t
   | _ \<Rightarrow> False)"

lemma retained_view: "terminal_view l' = terminal_view l \<Longrightarrow> retained k ob t status l' = retained k ob t status l"
  by (simp add: retained_def terminal_view_def)

lemma settle_status:
  "map_option tt_status (map_of (le_terminalTurns (settle_start_responses ts l)) t) = map_option tt_status (map_of (le_terminalTurns l) t)"
  by (induction ts arbitrary: l) (auto simp: update_conv' split: option.splits)

lemma observed_count:
  assumes "observers_counted l" and "k < length (le_observations l)"
  shows "le_observations l ! k = Obs_turn t \<Longrightarrow> 0 < le_terminalObservers l t"
    and "le_observations l ! k = Obs_start \<Longrightarrow> 0 < le_startObservers l"
  using assms t_count_nth [OF assms(2)] by (auto simp: observers_counted_def)

lemma retained_release:
  assumes inv: "turns_inv l" and kept: "retained k ob t status l" and j: "j \<noteq> k" and ob: "ob \<in> {Obs_turn t, Obs_start}"
  shows "retained k ob t status (release_observation j l)"
proof (cases "j < length (le_observations l) \<and> le_observations l ! j = Obs_start")
  case True
  let ?m = "l\<lparr>le_observations := (le_observations l)[j := Obs_released], le_startObservers := le_startObservers l - 1\<rparr>"
  have m: "observers_counted ?m" "k < length (le_observations ?m)" "le_observations ?m ! k = ob"
    using inv True j kept by (auto simp: turns_inv_def observers_counted_def released_count retained_def)
  show ?thesis
  proof (cases "ob = Obs_start")
    case start: True
    then have "le_startObservers ?m \<noteq> 0" using observed_count(2) [OF m(1,2)] m(3) by simp
    then show ?thesis using True kept j by (simp add: release_observation_def retained_def)
  next
    case False
    then show ?thesis
      using True kept j settle_status [of "map fst (le_terminalTurns l)" ?m t] ob
      by (auto simp: release_observation_def retained_def Let_def)
  qed
next
  case False
  then show ?thesis using kept j
    by (cases "le_observations l ! j") (auto simp: release_observation_def retained_def)
qed

lemma retained_fire_timer:
  assumes inv: "turns_inv l" and kept: "retained k ob t status l" and ob: "ob \<in> {Obs_turn t, Obs_start}"
  shows "retained k ob t status (fire_timer i l)"
proof -
  obtain e where e: "map_of (le_terminalTurns l) t = Some e" "tt_status e = status" "ob = Obs_start \<longrightarrow> tt_pendingStartResponse e"
    using kept by (auto simp: retained_def)
  have "0 < le_terminalObservers l t \<or> tt_pendingStartResponse e"
    using observed_count(1) [of l k t] inv kept ob e(3) by (auto simp: turns_inv_def retained_def)
  then show ?thesis using kept e
    by (auto simp: fire_timer_def terminal_timer_def retained_def delete_conv' split: prod.splits option.splits)
qed

lemma retained_step:
  assumes inv: "turns_inv l" and kept: "retained k ob t status l" and op: "\<not> disturbs k ob t op" and ob: "ob \<in> {Obs_turn t, Obs_start}"
  shows "retained k ob t status (lease_step known op l)"
proof (cases "keeps_turns op")
  case True
  then show ?thesis using kept retained_view [OF view_keeps_turns [OF True]] by blast
next
  case False
  show ?thesis
  proof (cases op)
    case (L_release_observation j)
    then show ?thesis using retained_release [OF inv kept _ ob] op by (simp add: disturbs_def)
  next
    case (L_timer i)
    then show ?thesis using retained_fire_timer [OF inv kept ob] by simp
  next
    case (L_noteTurnStarted u)
    then show ?thesis using kept op ob
      by (auto simp: noteTurnStarted_def retained_def disturbs_def emit_if_changed_def lease_emit_def update_conv' Let_def split: option.splits)
  next
    case (L_notification meth params)
    then have "meth = ''turn/completed''" "nestedId params ''turn'' \<noteq> Some t" using False op by (auto simp: keeps_turns_def disturbs_def)
    moreover have "retained k ob t status (remember_terminal u s l)" if "u \<noteq> t" for u s
      using kept that by (auto simp: remember_terminal_def retained_def update_conv' Let_def)
    ultimately have "retained k ob t status (lease_notification known meth params l)"
      using kept by (cases rule: notification_view_cases [of known meth params l]) (auto dest: retained_view)
    then show ?thesis using L_notification kept by simp
  next
    case (L_close reason)
    then show ?thesis using kept view_close [of reason l] by (auto simp: retained_def terminal_view_def split: if_splits)
  qed (use False kept in \<open>auto simp: keeps_turns_def observeTerminalTurn_def observeTurnStartResponse_def retained_def nth_append split: option.splits\<close>)
qed

lemma retained_run:
  "turns_inv l \<Longrightarrow> retained k ob t status l \<Longrightarrow> \<forall>op \<in> set ops. \<not> disturbs k ob t op \<Longrightarrow> ob \<in> {Obs_turn t, Obs_start} \<Longrightarrow>
     retained k ob t status (lease_run known ops l)"
  by (induction ops arbitrary: l) (auto intro: turns_inv_step retained_step)

lemma lease_step_thread: "le_threadId (lease_step known op l) = le_threadId l"
proof (cases "keeps_turns op")
  case True
  then show ?thesis using view_keeps_turns [OF True, of known l] by (simp add: terminal_view_def)
next
  case False
  have notified: "le_threadId (lease_notification known meth params l) = le_threadId l" for meth params
    by (cases rule: notification_view_cases [of known meth params l]) (auto simp: terminal_view_def remember_terminal_def Let_def)
  have settled: "le_threadId (settle_start_responses ts m) = le_threadId m" for ts m
    by (induction ts arbitrary: m) (auto simp: scheduleTerminalTurnCleanup_def split: option.splits)
  have closed: "le_threadId (lease_close reason l) = le_threadId l" for reason
    using view_close [of reason l] by (auto simp: terminal_view_def split: if_splits)
  show ?thesis
    using False by (cases op) (auto simp: keeps_turns_def notified settled closed observeTerminalTurn_def observeTurnStartResponse_def
        release_observation_def fire_timer_def terminal_timer_def noteTurnStarted_def scheduleTerminalTurnCleanup_def emit_if_changed_def
        lease_emit_def Let_def split: option.splits prod.splits observation.splits)
qed

lemma lease_run_thread: "le_threadId (lease_run known ops l) = le_threadId l"
  by (induction ops arbitrary: l) (simp_all add: lease_step_thread)


section \<open>Witnesses\<close>

definition example_completed :: js where
  "example_completed = JObj [(''threadId'', JStr ''t1''), (''turn'', JObj [(''id'', JStr ''u1''), (''status'', JStr ''completed'')])]"

definition example_lease :: "lease_op list \<Rightarrow> lease" where
  "example_lease ops = lease_run (\<lambda>_ _. True) ops (lease_new ''t1'' open_client)"

theorem terminal_turns_do_not_leak_witness:
  "le_terminalTurns (example_lease [L_observeTurnStartResponse, L_notification ''turn/completed'' example_completed]) \<noteq> [] \<and>
   le_terminalTurns (example_lease [L_observeTurnStartResponse, L_notification ''turn/completed'' example_completed,
     L_release_observation 0, L_timer 0]) = []"
proof
  show "le_terminalTurns (example_lease [L_observeTurnStartResponse, L_notification ''turn/completed'' example_completed]) \<noteq> []"
    by code_simp
  let ?ops = "[L_observeTurnStartResponse, L_notification ''turn/completed'' example_completed, L_release_observation 0, L_timer 0]"
  have "\<not> le_scope_closed (example_lease ?ops)" "set (le_observations (example_lease ?ops)) \<subseteq> {Obs_released}"
    "le_timers (example_lease ?ops) = []" by code_simp+
  with terminal_turns_do_not_leak [of "example_lease ?ops" "\<lambda>_ _. True" ?ops "''t1''" open_client]
  show "le_terminalTurns (example_lease ?ops) = []" by (simp only: example_lease_def) blast
qed


end
