(* ===== verification/Lease_Manager.thy ===== *)
theory Lease_Manager
  imports Thread_Lease
begin

text \<open>
  The manager of the live threads: the class \<open>ThreadLeaseManager\<close> of
  \<open>apps/agent/src/v2/services/thread-lease-manager.ts\<close>. Its methods wait for clients to be created and for
  leases to be closed; each stretch between two waits is one event of the model, and the events of different
  calls may come in any order. Promises are numbered: a creation, a disposal and a call of \<open>acquire\<close> or
  \<open>start\<close> each have a position in a list. Leases are kept in a store, their position being their identity.
\<close>

section \<open>State\<close>

text \<open>The promise of \<open>#creating\<close>: the client is awaited, the lease has been made or has failed, the promise has settled.\<close>

datatype creation =
    C_running string
  | C_finishing string "ce_error + nat"
  | C_settled "ce_error + nat"

datatype disposal = D_running string | D_settled bool

record reference =
  rf_kind :: reference_kind
  rf_id :: string

datatype acquisition =
    Q_disposal string nat reference
  | Q_creation nat reference
  | Q_lease nat reference
  | Q_done "ce_error + nat"

datatype starting =
    S_client reference
  | S_disposal string app_client nat reference
  | S_closing ce_error
  | S_done "ce_error + nat"

record handle =
  ha_lease :: nat
  ha_reference :: reference
  ha_released :: bool

record manager =
  mg_maximumLeases :: int
  mg_store :: "lease list"
  mg_leases :: "(string \<times> nat) list"
  mg_creating :: "(string \<times> nat) list"
  mg_disposing :: "(string \<times> nat) list"
  mg_starting :: "nat list"
  mg_creations :: "creation list"
  mg_disposals :: "disposal list"
  mg_acquisitions :: "acquisition list"
  mg_starts :: "starting list"
  mg_handles :: "handle list"
  mg_closed :: bool
  mg_scope_closed :: bool

definition manager_new :: "int option \<Rightarrow> ce_error + manager" where
  "manager_new maximum =
     (let m = (case maximum of Some n \<Rightarrow> n | None \<Rightarrow> 128) in
      if \<not> safe_integer m \<or> m \<le> 0 then Inl (Error ''Thread lease capacity must be positive'')
      else Inr \<lparr>mg_maximumLeases = m, mg_store = [], mg_leases = [], mg_creating = [], mg_disposing = [], mg_starting = [],
        mg_creations = [], mg_disposals = [], mg_acquisitions = [], mg_starts = [], mg_handles = [], mg_closed = False,
        mg_scope_closed = False\<rparr>)"

definition ThreadLeaseCapacityError :: "int \<Rightarrow> ce_error" where
  "ThreadLeaseCapacityError maximumLeases = Error (''Thread lease capacity reached ('' @ json_number maximumLeases @ '')'')"

definition assertCapacity :: "manager \<Rightarrow> ce_error option" where
  "assertCapacity m =
     (if mg_maximumLeases m \<le> int (length (mg_leases m) + length (mg_creating m) + length (mg_disposing m) + length (mg_starting m))
      then Some (ThreadLeaseCapacityError (mg_maximumLeases m)) else None)"

definition update_lease :: "nat \<Rightarrow> (lease \<Rightarrow> lease) \<Rightarrow> manager \<Rightarrow> manager" where
  "update_lease i f m = (if i < length (mg_store m) then m\<lparr>mg_store := (mg_store m)[i := f (mg_store m ! i)]\<rparr> else m)"

section \<open>Disposal\<close>

text \<open>The synchronous part of \<open>#dispose\<close>: a lease that is not the current one of its thread is left alone.\<close>

definition manager_dispose :: "nat \<Rightarrow> manager \<Rightarrow> manager" where
  "manager_dispose i m =
     (if length (mg_store m) \<le> i then m
      else let t = le_threadId (mg_store m ! i) in
        if map_of (mg_leases m) t \<noteq> Some i then m
        else (update_lease i (lease_close ''lease-closed'') m)\<lparr>
          mg_leases := AList.delete t (mg_leases m),
          mg_disposing := AList.update t (length (mg_disposals m)) (mg_disposing m),
          mg_disposals := mg_disposals m @ [D_running t]\<rparr>)"

definition disposal_settles :: "nat \<Rightarrow> bool \<Rightarrow> manager \<Rightarrow> manager" where
  "disposal_settles d ok m =
     (if length (mg_disposals m) \<le> d then m
      else case mg_disposals m ! d of
        D_settled _ \<Rightarrow> m
      | D_running t \<Rightarrow>
          m\<lparr>mg_disposals := (mg_disposals m)[d := D_settled ok],
            mg_disposing := (if map_of (mg_disposing m) t = Some d then AList.delete t (mg_disposing m) else mg_disposing m)\<rparr>)"

text \<open>The background check of a lease, and a client that is gone.\<close>

definition dispose_if_idle :: "nat \<Rightarrow> manager \<Rightarrow> manager" where
  "dispose_if_idle i m = (if i < length (mg_store m) \<and> disposeIfIdle (mg_store m ! i) then manager_dispose i m else m)"

definition closeThread :: "string \<Rightarrow> string \<Rightarrow> manager \<Rightarrow> manager" where
  "closeThread t reason m =
     (case map_of (mg_leases m) t of
        None \<Rightarrow> m
      | Some i \<Rightarrow> (update_lease i (lease_close reason) m)\<lparr>mg_leases := AList.delete t (mg_leases m)\<rparr>)"

section \<open>Handles\<close>

definition release_handle :: "nat \<Rightarrow> manager \<Rightarrow> manager" where
  "release_handle h m =
     (if length (mg_handles m) \<le> h \<or> ha_released (mg_handles m ! h) then m
      else let x = mg_handles m ! h; i = ha_lease x; r = ha_reference x;
               m1 = m\<lparr>mg_handles := (mg_handles m)[h := x\<lparr>ha_released := True\<rparr>]\<rparr>;
               m2 = update_lease i (\<lambda>l. snd (releaseReference (rf_kind r) (rf_id r) l)) m1
           in dispose_if_idle i m2)"

text \<open>
  \<open>#attachReference\<close>: the handle's release is deferred to the owner's scope, if there is an owner; when that
  scope is closed already the reference is released at once.
\<close>

definition attachReference :: "nat \<Rightarrow> reference \<Rightarrow> bool \<Rightarrow> manager \<Rightarrow> (ce_error + nat) \<times> manager" where
  "attachReference i r owner_closed m =
     (if length (mg_store m) \<le> i then (Inl (Error ''unreachable''), m)
      else case addReference (rf_kind r) (rf_id r) (mg_store m ! i) of
        (Inl e, _) \<Rightarrow> (Inl e, m)
      | (Inr _, l) \<Rightarrow>
          let h = length (mg_handles m);
              m1 = (update_lease i (\<lambda>_. l) m)\<lparr>mg_handles := mg_handles m @ [\<lparr>ha_lease = i, ha_reference = r, ha_released = False\<rparr>]\<rparr>
          in if owner_closed then (Inl (ScopeClosedError ''owner''), release_handle h m1) else (Inr h, m1))"

section \<open>Acquiring\<close>

text \<open>
  \<open>#create\<close> up to its wait: forking the scope fails when the manager's scope is closed.
\<close>

definition begin_creation :: "string \<Rightarrow> manager \<Rightarrow> nat \<times> manager" where
  "begin_creation t m =
     (let c = length (mg_creations m) in
      (c, m\<lparr>mg_creations := mg_creations m @
              [if mg_scope_closed m then C_finishing t (Inl (ScopeClosedError ''thread-leases'')) else C_running t],
            mg_creating := AList.update t c (mg_creating m)\<rparr>))"

text \<open>\<open>#getOrCreate\<close> after the wait for a disposal: what the call waits for, or the error it throws.\<close>

definition get_or_create :: "string \<Rightarrow> reference \<Rightarrow> manager \<Rightarrow> acquisition \<times> manager" where
  "get_or_create t r m =
     (case map_of (mg_leases m) t of
        Some i \<Rightarrow> (Q_lease i r, m)
      | None \<Rightarrow>
        (case map_of (mg_creating m) t of
           Some c \<Rightarrow> (Q_creation c r, m)
         | None \<Rightarrow>
           (case assertCapacity m of
              Some e \<Rightarrow> (Q_done (Inl e), m)
            | None \<Rightarrow> (case begin_creation t m of (c, m') \<Rightarrow> (Q_creation c r, m')))))"

definition manager_acquire :: "string \<Rightarrow> reference \<Rightarrow> manager \<Rightarrow> manager" where
  "manager_acquire t r m =
     (let (q, m') =
        (if mg_closed m then (Q_done (Inl (Error ''Thread lease manager is closed'')), m)
         else if t = [] then (Q_done (Inl (Error ''Thread ID is empty'')), m)
         else case map_of (mg_disposing m) t of
           Some d \<Rightarrow> (Q_disposal t d r, m)
         | None \<Rightarrow> get_or_create t r m)
      in m'\<lparr>mg_acquisitions := mg_acquisitions m' @ [q]\<rparr>)"

text \<open>The call continues when what it waits for has settled; otherwise it goes on waiting.\<close>

definition acquire_resume :: "nat \<Rightarrow> bool \<Rightarrow> manager \<Rightarrow> manager" where
  "acquire_resume a owner_closed m =
     (if length (mg_acquisitions m) \<le> a then m
      else let (q, m') =
        (case mg_acquisitions m ! a of
           Q_disposal t d r \<Rightarrow>
             (if length (mg_disposals m) \<le> d then (Q_disposal t d r, m)
              else case mg_disposals m ! d of
                D_running _ \<Rightarrow> (Q_disposal t d r, m)
              | D_settled ok \<Rightarrow>
                  if \<not> ok then (Q_done (Inl (Error ''lease disposal failed'')), m)
                  else if mg_closed m then (Q_done (Inl (Error ''Thread lease manager is closed'')), m)
                  else get_or_create t r m)
         | Q_creation c r \<Rightarrow>
             (if length (mg_creations m) \<le> c then (Q_creation c r, m)
              else case mg_creations m ! c of
                C_settled (Inl e) \<Rightarrow> (Q_done (Inl e), m)
              | C_settled (Inr i) \<Rightarrow> (case attachReference i r owner_closed m of (x, m'') \<Rightarrow> (Q_done x, m''))
              | _ \<Rightarrow> (Q_creation c r, m))
         | Q_lease i r \<Rightarrow> (case attachReference i r owner_closed m of (x, m'') \<Rightarrow> (Q_done x, m''))
         | Q_done x \<Rightarrow> (Q_done x, m))
      in m'\<lparr>mg_acquisitions := (mg_acquisitions m')[a := q]\<rparr>)"

text \<open>
  The client of a creation is there, or the factory or the constructor of the lease threw, as the latter does
  when the scope has been closed in the meantime.
\<close>

definition client_ready :: "nat \<Rightarrow> ce_error + app_client \<Rightarrow> manager \<Rightarrow> manager" where
  "client_ready c answer m =
     (if length (mg_creations m) \<le> c then m
      else case mg_creations m ! c of
        C_running t \<Rightarrow>
          (case answer of
             Inl e \<Rightarrow> m\<lparr>mg_creations := (mg_creations m)[c := C_finishing t (Inl e)]\<rparr>
           | Inr client \<Rightarrow>
               let i = length (mg_store m) in
               m\<lparr>mg_store := mg_store m @ [lease_new t client], mg_leases := AList.update t i (mg_leases m),
                 mg_creations := (mg_creations m)[c := C_finishing t (Inr i)]\<rparr>)
      | _ \<Rightarrow> m)"

definition creation_settles :: "nat \<Rightarrow> manager \<Rightarrow> manager" where
  "creation_settles c m =
     (if length (mg_creations m) \<le> c then m
      else case mg_creations m ! c of
        C_finishing t result \<Rightarrow>
          m\<lparr>mg_creations := (mg_creations m)[c := C_settled result],
            mg_creating := (if map_of (mg_creating m) t = Some c then AList.delete t (mg_creating m) else mg_creating m)\<rparr>
      | _ \<Rightarrow> m)"

section \<open>Starting\<close>

definition manager_start :: "reference \<Rightarrow> manager \<Rightarrow> manager" where
  "manager_start r m =
     (let s = length (mg_starts m);
          refused = (\<lambda>e. m\<lparr>mg_starts := mg_starts m @ [S_done (Inl e)]\<rparr>) in
      if mg_closed m then refused (Error ''Thread lease manager is closed'')
      else case assertCapacity m of
        Some e \<Rightarrow> refused e
      | None \<Rightarrow>
          if mg_scope_closed m then refused (ScopeClosedError ''thread-leases'')
          else m\<lparr>mg_starts := mg_starts m @ [S_client r], mg_starting := mg_starting m @ [s]\<rparr>)"

text \<open>A start that fails closes its scope and gives its place free when the scope is closed.\<close>

definition fail_start :: "nat \<Rightarrow> ce_error \<Rightarrow> manager \<Rightarrow> manager" where
  "fail_start s e m = m\<lparr>mg_starts := (mg_starts m)[s := S_closing e]\<rparr>"

definition start_closed :: "nat \<Rightarrow> manager \<Rightarrow> manager" where
  "start_closed s m =
     (if length (mg_starts m) \<le> s then m
      else case mg_starts m ! s of
        S_closing e \<Rightarrow> m\<lparr>mg_starts := (mg_starts m)[s := S_done (Inl e)], mg_starting := removeAll s (mg_starting m)\<rparr>
      | _ \<Rightarrow> m)"

text \<open>The scope of a lease is closed without \<open>close\<close> of the lease.\<close>

definition close_lease_scope :: "lease \<Rightarrow> lease" where
  "close_lease_scope l = l\<lparr>le_scope_closed := True, le_timers := []\<rparr>"

text \<open>
  The last stretch of \<open>start\<close>: the lease is made on the client that started the thread, and its first
  reference attached; when that fails the lease is taken back and the scope closed.
\<close>

definition finish_start :: "nat \<Rightarrow> string \<Rightarrow> app_client \<Rightarrow> reference \<Rightarrow> bool \<Rightarrow> bool \<Rightarrow> manager \<Rightarrow> manager" where
  "finish_start s t client r scope_gone owner_closed m =
     (if mg_closed m then fail_start s (Error ''Thread lease manager is closed'') m
      else if map_of (mg_leases m) t \<noteq> None \<or> map_of (mg_creating m) t \<noteq> None
      then fail_start s (Error ''Started thread already has a lease'') m
      else if scope_gone then fail_start s (ScopeClosedError ''thread-start'') m
      else
        let i = length (mg_store m);
            m1 = m\<lparr>mg_store := mg_store m @ [lease_new t client], mg_leases := AList.update t i (mg_leases m),
              mg_starting := removeAll s (mg_starting m)\<rparr>
        in case attachReference i r owner_closed m1 of
             (Inr h, m2) \<Rightarrow> m2\<lparr>mg_starts := (mg_starts m2)[s := S_done (Inr h)]\<rparr>
           | (Inl e, m2) \<Rightarrow>
               let m3 = update_lease i close_lease_scope m2
               in m3\<lparr>mg_leases := (if map_of (mg_leases m2) t = Some i then AList.delete t (mg_leases m2) else mg_leases m2),
                     mg_starts := (mg_starts m3)[s := S_done (Inl e)]\<rparr>)"

text \<open>The client has been created and has started a thread, or either failed.\<close>

definition start_initialized :: "nat \<Rightarrow> ce_error + app_client \<times> string \<Rightarrow> bool \<Rightarrow> bool \<Rightarrow> manager \<Rightarrow> manager" where
  "start_initialized s answer scope_gone owner_closed m =
     (if length (mg_starts m) \<le> s then m
      else case mg_starts m ! s of
        S_client r \<Rightarrow>
          (case answer of
             Inl e \<Rightarrow> fail_start s e m
           | Inr (client, t) \<Rightarrow>
               if t = [] then fail_start s (Error ''Started thread ID is empty'') m
               else if mg_closed m then fail_start s (Error ''Thread lease manager is closed'') m
               else case map_of (mg_disposing m) t of
                 Some d \<Rightarrow> m\<lparr>mg_starts := (mg_starts m)[s := S_disposal t client d r]\<rparr>
               | None \<Rightarrow> finish_start s t client r scope_gone owner_closed m)
      | _ \<Rightarrow> m)"

definition start_resume :: "nat \<Rightarrow> bool \<Rightarrow> bool \<Rightarrow> manager \<Rightarrow> manager" where
  "start_resume s scope_gone owner_closed m =
     (if length (mg_starts m) \<le> s then m
      else case mg_starts m ! s of
        S_disposal t client d r \<Rightarrow>
          (if length (mg_disposals m) \<le> d then m
           else case mg_disposals m ! d of
             D_running _ \<Rightarrow> m
           | D_settled ok \<Rightarrow>
               if \<not> ok then fail_start s (Error ''lease disposal failed'') m
               else finish_start s t client r scope_gone owner_closed m)
      | _ \<Rightarrow> m)"

section \<open>Closing the manager\<close>

text \<open>
  Closing the scope of the manager first closes the scopes of its leases, one after the other, and then runs
  the disposer that closes the leases themselves.
\<close>

definition manager_scope_closing :: "manager \<Rightarrow> manager" where
  "manager_scope_closing m = m\<lparr>mg_scope_closed := True\<rparr>"

definition close_child :: "nat \<Rightarrow> manager \<Rightarrow> manager" where
  "close_child i m = (if mg_scope_closed m then update_lease i close_lease_scope m else m)"

definition manager_close :: "manager \<Rightarrow> manager" where
  "manager_close m =
     (if mg_scope_closed m \<and> (\<forall>l \<in> set (mg_store m). le_scope_closed l) then
        m\<lparr>mg_closed := True,
          mg_store := map (\<lambda>i. if map_of (mg_leases m) (le_threadId (mg_store m ! i)) = Some i
            then lease_close ''manager-closed'' (mg_store m ! i) else mg_store m ! i) [0..<length (mg_store m)],
          mg_leases := [], mg_disposing := []\<rparr>
      else m)"

definition busyThreadIds :: "manager \<Rightarrow> string list" where
  "busyThreadIds m = sort (map le_threadId (filter (\<lambda>l. le_state l = LS_running \<or> le_state l = LS_waiting_input)
     (map (\<lambda>(t, i). mg_store m ! i) (mg_leases m))))"

section \<open>Histories\<close>

datatype manager_op =
    M_acquire string reference
  | M_acquire_resume nat bool
  | M_client_ready nat "ce_error + app_client"
  | M_creation_settles nat
  | M_start reference
  | M_start_initialized nat "ce_error + app_client \<times> string" bool bool
  | M_start_resume nat bool bool
  | M_start_closed nat
  | M_release nat
  | M_lease nat lease_op
  | M_dispose_if_idle nat
  | M_dispose nat
  | M_disposal_settles nat bool
  | M_closeThread string string
  | M_scope_closing
  | M_close_child nat
  | M_close

text \<open>
  \<open>M_dispose\<close> is the disposal that a lease asks for when its client is gone. Other users of a lease call every operation but those that belong to the manager: closing, and the
  references of viewers and of the queue.
\<close>

definition foreign_op :: "lease_op \<Rightarrow> bool" where
  "foreign_op op = (case op of
     L_close _ \<Rightarrow> False | L_addReference kind _ \<Rightarrow> kind = RK_effect | L_releaseReference kind _ \<Rightarrow> kind = RK_effect | _ \<Rightarrow> True)"

fun manager_step :: "(string \<Rightarrow> js \<Rightarrow> bool) \<Rightarrow> manager_op \<Rightarrow> manager \<Rightarrow> manager" where
  "manager_step known (M_acquire t r) m = manager_acquire t r m"
| "manager_step known (M_acquire_resume a oc) m = acquire_resume a oc m"
| "manager_step known (M_client_ready c answer) m = client_ready c answer m"
| "manager_step known (M_creation_settles c) m = creation_settles c m"
| "manager_step known (M_start r) m = manager_start r m"
| "manager_step known (M_start_initialized s answer sg oc) m = start_initialized s answer sg oc m"
| "manager_step known (M_start_resume s sg oc) m = start_resume s sg oc m"
| "manager_step known (M_start_closed s) m = start_closed s m"
| "manager_step known (M_release h) m = release_handle h m"
| "manager_step known (M_lease i op) m = (if foreign_op op then update_lease i (lease_step known op) m else m)"
| "manager_step known (M_dispose_if_idle i) m = dispose_if_idle i m"
| "manager_step known (M_dispose i) m = manager_dispose i m"
| "manager_step known (M_disposal_settles d ok) m = disposal_settles d ok m"
| "manager_step known (M_closeThread t reason) m = closeThread t reason m"
| "manager_step known M_scope_closing m = manager_scope_closing m"
| "manager_step known (M_close_child i) m = close_child i m"
| "manager_step known M_close m = manager_close m"

fun manager_run :: "(string \<Rightarrow> js \<Rightarrow> bool) \<Rightarrow> manager_op list \<Rightarrow> manager \<Rightarrow> manager" where
  "manager_run known [] m = m"
| "manager_run known (op # ops) m = manager_run known ops (manager_step known op m)"

section \<open>What happens to a single lease\<close>

text \<open>The part of a lease that the manager relies on.\<close>

definition lease_view :: "lease \<Rightarrow> (string \<times> nat) list \<times> bool \<times> bool \<times> string" where
  "lease_view l = (le_references l, le_closed l, le_scope_closed l, le_threadId l)"

named_theorems view_frames

lemma lease_view_update [view_frames]:
  "lease_view (l\<lparr>le_state := s\<rparr>) = lease_view l" "lease_view (l\<lparr>le_broker := b\<rparr>) = lease_view l"
  "lease_view (l\<lparr>le_client := c\<rparr>) = lease_view l" "lease_view (l\<lparr>le_currentTurnId := t\<rparr>) = lease_view l"
  "lease_view (l\<lparr>le_workspacePath := w\<rparr>) = lease_view l" "lease_view (l\<lparr>le_hasAuthoritativeState := h\<rparr>) = lease_view l"
  "lease_view (l\<lparr>le_contextUsage := u\<rparr>) = lease_view l" "lease_view (l\<lparr>le_terminalTurns := tt\<rparr>) = lease_view l"
  "lease_view (l\<lparr>le_terminalObservers := ob\<rparr>) = lease_view l" "lease_view (l\<lparr>le_startObservers := so\<rparr>) = lease_view l"
  "lease_view (l\<lparr>le_observations := os\<rparr>) = lease_view l" "lease_view (l\<lparr>le_timers := ti\<rparr>) = lease_view l"
  "lease_view (l\<lparr>le_next_serial := ns\<rparr>) = lease_view l"
  by (simp_all add: lease_view_def)

lemma lease_view_emit [view_frames]:
  "lease_view (lease_emit ev l) = lease_view l" "lease_view (set_state s l) = lease_view l"
  "lease_view (background_cleanup l) = lease_view l" "lease_view (emit_if_changed b l) = lease_view l"
  by (simp_all add: lease_view_def lease_emit_def set_state_def background_cleanup_def emit_if_changed_def)

lemma lease_view_broker_event [view_frames]: "lease_view (on_broker_event ev l) = lease_view l"
  by (cases ev) (simp_all add: view_frames Let_def)

lemma lease_view_fold [view_frames]: "lease_view (fold on_broker_event evs l) = lease_view l"
  by (induction evs arbitrary: l) (simp_all add: view_frames)

lemma lease_view_with_broker [view_frames]: "lease_view (snd (with_broker call l)) = lease_view l"
  by (simp add: with_broker_def view_frames Let_def split: prod.splits)

lemma lease_view_schedule [view_frames]: "lease_view (scheduleTerminalTurnCleanup t l) = lease_view l"
  by (simp add: scheduleTerminalTurnCleanup_def view_frames split: option.splits)

lemma lease_view_settle [view_frames]: "lease_view (settle_start_responses ts l) = lease_view l"
  by (induction ts arbitrary: l) (auto simp: view_frames split: option.splits)

lemma lease_view_turn [view_frames]:
  "lease_view (turn_started params l) = lease_view l" "lease_view (status_changed params l) = lease_view l"
  "lease_view (remember_terminal t status l) = lease_view l"
  by (simp_all add: turn_started_def status_changed_def remember_terminal_def view_frames Let_def split: option.splits)

lemma lease_view_completed [view_frames]: "lease_view (turn_completed params l) = lease_view l"
  by (simp add: turn_completed_def view_frames Let_def split: option.splits)

lemma lease_view_updateState [view_frames]: "lease_view (updateState meth params l) = lease_view l"
  by (simp add: updateState_def view_frames Let_def)

lemma lease_view_notification [view_frames]: "lease_view (lease_notification known meth params l) = lease_view l"
  by (simp add: lease_notification_def view_frames Let_def split: option.splits)

lemma lease_view_foreign:
  assumes "foreign_op op"
  shows "lease_view (lease_step known op l) = lease_view l \<or>
    (\<exists>i. op = L_addReference RK_effect i \<or> op = L_releaseReference RK_effect i)"
  using assms
  by (cases op)
    (auto simp: foreign_op_def observeTerminalTurn_def observeTurnStartResponse_def release_observation_def fire_timer_def
      terminal_timer_def noteTurnStarted_def adoptAuthoritativeThread_def lease_serverRequest_def respondToInteraction_def
      lease_clientClosed_def cleanup_failed_def lease_open_def view_frames Let_def
      split: option.splits prod.splits js.splits sum.splits observation.splits)

definition references :: "lease \<Rightarrow> string \<Rightarrow> nat" where
  "references l key = (case map_of (le_references l) key of Some n \<Rightarrow> n | None \<Rightarrow> 0)"

lemma addReference_effect:
  "addReference kind i l = (Inr u, l') \<Longrightarrow>
     references l' = (references l)(reference_key kind i := references l (reference_key kind i) + 1) \<and> le_scope_closed l' = le_scope_closed l \<and>
     le_threadId l' = le_threadId l \<and> le_closed l' = le_closed l"
  by (auto simp: addReference_def references_def update_conv' fun_eq_iff split: option.splits if_splits)

lemma releaseReference_effect:
  "references (snd (releaseReference kind i l)) = (references l)(reference_key kind i := references l (reference_key kind i) - 1) \<and>
   le_scope_closed (snd (releaseReference kind i l)) = le_scope_closed l \<and> le_threadId (snd (releaseReference kind i l)) = le_threadId l \<and>
   le_closed (snd (releaseReference kind i l)) = le_closed l"
  by (auto simp: releaseReference_def references_def update_conv' delete_conv' fun_eq_iff Let_def split: option.splits)

lemma reference_key_kind: "reference_key kind i = reference_key RK_effect j \<Longrightarrow> kind = RK_effect"
  by (cases kind) (simp_all add: reference_key_def)

text \<open>A use of a lease by others keeps its thread, does not open its scope and counts only effects.\<close>

lemma lease_foreign:
  assumes "foreign_op op"
  shows "le_threadId (lease_step known op l) = le_threadId l" and "le_scope_closed (lease_step known op l) = le_scope_closed l"
    and "le_closed (lease_step known op l) = le_closed l"
    and "kind \<noteq> RK_effect \<Longrightarrow> references (lease_step known op l) (reference_key kind i) = references l (reference_key kind i)"
proof -
  consider "lease_view (lease_step known op l) = lease_view l"
    | j where "op = L_addReference RK_effect j" | j where "op = L_releaseReference RK_effect j"
    using lease_view_foreign [OF assms] by blast
  then have "le_threadId (lease_step known op l) = le_threadId l \<and> le_scope_closed (lease_step known op l) = le_scope_closed l \<and>
      le_closed (lease_step known op l) = le_closed l \<and> (kind \<noteq> RK_effect \<longrightarrow> references (lease_step known op l) (reference_key kind i) = references l (reference_key kind i))"
  proof cases
    case 1
    then show ?thesis by (simp add: lease_view_def references_def)
  next
    case (2 j)
    show ?thesis
    proof (cases "addReference RK_effect j l")
      case (Pair r l')
      then show ?thesis using 2 addReference_effect [of RK_effect j l _ l'] reference_key_kind [of kind i j]
        by (cases r) (auto simp: addReference_def split: option.splits if_splits)
    qed
  next
    case (3 j)
    then show ?thesis using releaseReference_effect [of RK_effect j l] reference_key_kind [of kind i j] by auto
  qed
  then show "le_threadId (lease_step known op l) = le_threadId l" and "le_scope_closed (lease_step known op l) = le_scope_closed l"
    and "le_closed (lease_step known op l) = le_closed l"
    and "kind \<noteq> RK_effect \<Longrightarrow> references (lease_step known op l) (reference_key kind i) = references l (reference_key kind i)"
    by blast+
qed

lemma lease_close_effect:
  "le_threadId (lease_close reason l) = le_threadId l \<and> references (lease_close reason l) = references l \<and>
   le_closed (lease_close reason l) \<and> ((le_closed l \<longrightarrow> le_scope_closed l) \<longrightarrow> le_scope_closed (lease_close reason l))"
proof (cases "le_closed l")
  case False
  have "lease_view (snd (with_broker (broker_failAll (\<lambda>_. None) reason) (l\<lparr>le_closed := True\<rparr>))) = lease_view (l\<lparr>le_closed := True\<rparr>)"
    by (rule lease_view_with_broker)
  then show ?thesis using False by (simp add: lease_close_def lease_view_def references_def fun_eq_iff)
qed (simp add: lease_close_def)

section \<open>One open lease for a thread\<close>

text \<open>
  What a change of a lease by its users may do: the thread stays, a closed scope stays closed, and the lease is
  closed only together with its scope.
\<close>

definition tame :: "(lease \<Rightarrow> lease) \<Rightarrow> bool" where
  "tame f \<longleftrightarrow> (\<forall>l. le_threadId (f l) = le_threadId l \<and> (le_scope_closed l \<longrightarrow> le_scope_closed (f l)) \<and>
     ((le_closed l \<longrightarrow> le_scope_closed l) \<longrightarrow> le_closed (f l) \<longrightarrow> le_scope_closed (f l)))"

lemma tame_facts:
  "foreign_op op \<Longrightarrow> tame (lease_step known op)" "tame (lease_close reason)" "tame close_lease_scope"
  "tame (\<lambda>l. snd (releaseReference kind i l))"
  using lease_close_effect releaseReference_effect by (auto simp: tame_def lease_foreign close_lease_scope_def lease_close_def)

definition maps_inv :: "manager \<Rightarrow> bool" where
  "maps_inv m \<longleftrightarrow>
     distinct (map fst (mg_leases m)) \<and> distinct (map fst (mg_creating m)) \<and> distinct (map fst (mg_disposing m)) \<and>
     (\<forall>t i. map_of (mg_leases m) t = Some i \<longrightarrow> i < length (mg_store m) \<and> le_threadId (mg_store m ! i) = t) \<and>
     (\<forall>i < length (mg_store m). \<not> le_scope_closed (mg_store m ! i) \<longrightarrow> map_of (mg_leases m) (le_threadId (mg_store m ! i)) = Some i) \<and>
     (\<forall>i < length (mg_store m). le_closed (mg_store m ! i) \<longrightarrow> le_scope_closed (mg_store m ! i)) \<and>
     (\<forall>c < length (mg_creations m). \<forall>t. mg_creations m ! c = C_running t \<longrightarrow>
        map_of (mg_creating m) t = Some c \<and> map_of (mg_leases m) t = None)"

lemma maps_invI:
  assumes "distinct (map fst (mg_leases m))" and "distinct (map fst (mg_creating m))" and "distinct (map fst (mg_disposing m))"
    and "\<And>t i. map_of (mg_leases m) t = Some i \<Longrightarrow> i < length (mg_store m) \<and> le_threadId (mg_store m ! i) = t"
    and "\<And>i. i < length (mg_store m) \<Longrightarrow> \<not> le_scope_closed (mg_store m ! i) \<Longrightarrow>
      map_of (mg_leases m) (le_threadId (mg_store m ! i)) = Some i"
    and "\<And>i. i < length (mg_store m) \<Longrightarrow> le_closed (mg_store m ! i) \<Longrightarrow> le_scope_closed (mg_store m ! i)"
    and "\<And>c t. c < length (mg_creations m) \<Longrightarrow> mg_creations m ! c = C_running t \<Longrightarrow>
      map_of (mg_creating m) t = Some c \<and> map_of (mg_leases m) t = None"
  shows "maps_inv m"
  using assms unfolding maps_inv_def by blast

lemma maps_invD:
  assumes "maps_inv m"
  shows "distinct (map fst (mg_leases m))" and "distinct (map fst (mg_creating m))" and "distinct (map fst (mg_disposing m))"
    and "map_of (mg_leases m) t = Some i \<Longrightarrow> i < length (mg_store m) \<and> le_threadId (mg_store m ! i) = t"
    and "i < length (mg_store m) \<Longrightarrow> \<not> le_scope_closed (mg_store m ! i) \<Longrightarrow>
      map_of (mg_leases m) (le_threadId (mg_store m ! i)) = Some i"
    and "i < length (mg_store m) \<Longrightarrow> le_closed (mg_store m ! i) \<Longrightarrow> le_scope_closed (mg_store m ! i)"
    and "c < length (mg_creations m) \<Longrightarrow> mg_creations m ! c = C_running t \<Longrightarrow>
      map_of (mg_creating m) t = Some c \<and> map_of (mg_leases m) t = None"
  using assms unfolding maps_inv_def by blast+

lemma maps_inv_same [simp]:
  "maps_inv (m\<lparr>mg_handles := hs\<rparr>) = maps_inv m" "maps_inv (m\<lparr>mg_acquisitions := qs\<rparr>) = maps_inv m"
  "maps_inv (m\<lparr>mg_starts := ss\<rparr>) = maps_inv m" "maps_inv (m\<lparr>mg_starting := st\<rparr>) = maps_inv m"
  "maps_inv (m\<lparr>mg_disposals := ds\<rparr>) = maps_inv m" "maps_inv (m\<lparr>mg_closed := b\<rparr>) = maps_inv m"
  "maps_inv (m\<lparr>mg_scope_closed := b\<rparr>) = maps_inv m"
  by (simp_all add: maps_inv_def)

lemma maps_inv_disposing: "maps_inv m \<Longrightarrow> distinct (map fst d) \<Longrightarrow> maps_inv (m\<lparr>mg_disposing := d\<rparr>)"
  by (simp add: maps_inv_def)

lemma update_lease_fields [simp]:
  "mg_leases (update_lease i f m) = mg_leases m" "mg_creating (update_lease i f m) = mg_creating m"
  "mg_disposing (update_lease i f m) = mg_disposing m" "mg_creations (update_lease i f m) = mg_creations m"
  "mg_starting (update_lease i f m) = mg_starting m" "mg_starts (update_lease i f m) = mg_starts m"
  "mg_handles (update_lease i f m) = mg_handles m" "mg_maximumLeases (update_lease i f m) = mg_maximumLeases m"
  "mg_disposals (update_lease i f m) = mg_disposals m" "mg_closed (update_lease i f m) = mg_closed m"
  "mg_acquisitions (update_lease i f m) = mg_acquisitions m" "mg_scope_closed (update_lease i f m) = mg_scope_closed m"
  "length (mg_store (update_lease i f m)) = length (mg_store m)"
  "j < length (mg_store m) \<Longrightarrow> mg_store (update_lease i f m) ! j = (if j = i then f (mg_store m ! j) else mg_store m ! j)"
  by (simp_all add: update_lease_def)

lemma tameD:
  assumes "tame f"
  shows "le_threadId (f l) = le_threadId l" and "le_scope_closed l \<Longrightarrow> le_scope_closed (f l)"
    and "(le_closed l \<Longrightarrow> le_scope_closed l) \<Longrightarrow> le_closed (f l) \<Longrightarrow> le_scope_closed (f l)"
  using assms unfolding tame_def by blast+

lemma maps_inv_update:
  assumes inv: "maps_inv m" and f: "tame f"
  shows "maps_inv (update_lease i f m)"
proof (rule maps_invI, goal_cases)
  case (4 t j)
  then show ?case using maps_invD(4) [OF inv, of t j] tameD(1) [OF f] by auto
next
  case (5 j)
  then show ?case using maps_invD(5) [OF inv, of j] tameD(1,2) [OF f] by (auto split: if_splits)
next
  case (6 j)
  then show ?case using maps_invD(6) [OF inv, of j] tameD(3) [OF f, of "mg_store m ! j"] by (auto split: if_splits)
qed (use maps_invD(1,2,3,7) [OF inv] in auto)

text \<open>A lease leaves the map when its scope has been closed.\<close>

lemma maps_inv_remove:
  assumes inv: "maps_inv m" and f: "tame f" "\<And>l. (le_closed l \<longrightarrow> le_scope_closed l) \<Longrightarrow> le_scope_closed (f l)"
    and i: "map_of (mg_leases m) t = Some i"
  shows "maps_inv ((update_lease i f m)\<lparr>mg_leases := AList.delete t (mg_leases m)\<rparr>)"
proof -
  have upd: "maps_inv (update_lease i f m)" by (rule maps_inv_update [OF inv f(1)])
  show ?thesis
  proof (rule maps_invI, goal_cases)
    case (4 u j)
    then show ?case using maps_invD(4) [OF upd, of u j] by (auto simp: delete_conv' split: if_splits)
  next
    case (5 j)
    then have j: "j < length (mg_store m)" by simp
    have "j \<noteq> i"
    proof
      assume "j = i"
      then show False using 5 j f(2) [of "mg_store m ! i"] maps_invD(6) [OF inv, of i] by simp
    qed
    then have "map_of (mg_leases m) (le_threadId (mg_store m ! j)) = Some j" using maps_invD(5) [OF inv j] 5 j by simp
    moreover from this have "le_threadId (mg_store m ! j) \<noteq> t" using i \<open>j \<noteq> i\<close> by auto
    ultimately show ?case using j \<open>j \<noteq> i\<close> by (simp add: delete_conv')
  next
    case (6 j)
    then show ?case using maps_invD(6) [OF upd, of j] by simp
  next
    case (7 c u)
    then show ?case using maps_invD(7) [OF inv, of c u] by (simp add: delete_conv')
  qed (use maps_invD(1-3) [OF inv] in \<open>simp_all add: distinct_delete\<close>)
qed

text \<open>A new lease enters the map when its thread has none and none is being created, its own creation apart.\<close>

lemma maps_inv_add:
  assumes inv: "maps_inv m" and t: "map_of (mg_leases m) t = None"
    and cs: "\<And>c. c < length cs \<Longrightarrow> cs ! c \<noteq> C_running t" "length cs = length (mg_creations m)"
      "\<And>c u. c < length cs \<Longrightarrow> cs ! c = C_running u \<Longrightarrow> mg_creations m ! c = C_running u"
  shows "maps_inv (m\<lparr>mg_store := mg_store m @ [lease_new t client], mg_leases := AList.update t (length (mg_store m)) (mg_leases m),
    mg_creations := cs\<rparr>)"
proof (rule maps_invI, goal_cases)
  case (4 u j)
  then show ?case using maps_invD(4) [OF inv, of u j] by (auto simp: update_conv' nth_append lease_new_def split: if_splits)
next
  case (5 j)
  then show ?case using maps_invD(5) [OF inv, of j] t
    by (cases "j < length (mg_store m)") (auto simp: update_conv' nth_append lease_new_def less_Suc_eq)
next
  case (6 j)
  then show ?case using maps_invD(6) [OF inv, of j]
    by (cases "j < length (mg_store m)") (auto simp: nth_append lease_new_def less_Suc_eq)
next
  case (7 c u)
  then show ?case using maps_invD(7) [OF inv, of c u] cs by (auto simp: update_conv')
qed (use maps_invD(1-3) [OF inv] in \<open>simp_all add: distinct_update\<close>)

lemma close_closes: "(le_closed l \<longrightarrow> le_scope_closed l) \<Longrightarrow> le_scope_closed (lease_close reason l)"
  using lease_close_effect by blast

lemma maps_inv_dispose: "maps_inv m \<Longrightarrow> maps_inv (manager_dispose i m)"
proof -
  assume inv: "maps_inv m"
  let ?t = "le_threadId (mg_store m ! i)"
  show ?thesis
  proof (cases "i < length (mg_store m) \<and> map_of (mg_leases m) ?t = Some i")
    case True
    then have "maps_inv ((update_lease i (lease_close ''lease-closed'') m)\<lparr>mg_leases := AList.delete ?t (mg_leases m)\<rparr>)"
      using maps_inv_remove [OF inv tame_facts(2) close_closes] by blast
    moreover have "distinct (map fst (AList.update ?t (length (mg_disposals m)) (mg_disposing m)))"
      using maps_invD(3) [OF inv] by (simp add: distinct_update)
    ultimately show ?thesis using True by (simp add: manager_dispose_def Let_def maps_inv_disposing)
  qed (simp add: manager_dispose_def Let_def inv)
qed

lemma maps_inv_dispose_if_idle: "maps_inv m \<Longrightarrow> maps_inv (dispose_if_idle i m)"
  by (simp add: dispose_if_idle_def maps_inv_dispose)

lemma maps_inv_disposal_settles: "maps_inv m \<Longrightarrow> maps_inv (disposal_settles d ok m)"
  using maps_invD(3) [of m] by (simp add: disposal_settles_def maps_inv_disposing distinct_delete split: disposal.splits)

lemma maps_inv_closeThread: "maps_inv m \<Longrightarrow> maps_inv (closeThread t reason m)"
  using maps_inv_remove [OF _ tame_facts(2) close_closes, of m t] by (auto simp: closeThread_def split: option.splits)

lemma maps_inv_release: "maps_inv m \<Longrightarrow> maps_inv (release_handle h m)"
  by (auto simp: release_handle_def Let_def intro!: maps_inv_dispose_if_idle maps_inv_update tame_facts)

lemma maps_inv_attached:
  assumes inv: "maps_inv m" and "i < length (mg_store m)" and add: "addReference kind k (mg_store m ! i) = (Inr u, l)"
  shows "maps_inv (update_lease i (\<lambda>_. l) m)"
proof -
  have "update_lease i (\<lambda>_. l) m = update_lease i (\<lambda>x. x\<lparr>le_references := le_references l\<rparr>) m"
    using add by (auto simp: update_lease_def addReference_def split: option.splits if_splits)
  moreover have "tame (\<lambda>x. x\<lparr>le_references := le_references l\<rparr>)" by (simp add: tame_def)
  ultimately show ?thesis using maps_inv_update [OF inv] by simp
qed

lemma maps_inv_attach: "maps_inv m \<Longrightarrow> maps_inv (snd (attachReference i r oc m))"
  by (auto simp: attachReference_def Let_def maps_inv_attached intro!: maps_inv_release split: prod.splits sum.splits)

lemma maps_inv_begin_creation:
  assumes inv: "maps_inv m" and "map_of (mg_leases m) t = None" "map_of (mg_creating m) t = None"
  shows "maps_inv (snd (begin_creation t m))"
proof (rule maps_invI, goal_cases)
  case (7 c u)
  then show ?case using maps_invD(7) [OF inv, of c u] assms(2,3)
    by (auto simp: begin_creation_def Let_def update_conv' nth_append less_Suc_eq split: if_splits)
qed (use maps_invD(1-6) [OF inv] in \<open>auto simp: begin_creation_def Let_def distinct_update\<close>)

lemma maps_inv_get_or_create: "maps_inv m \<Longrightarrow> maps_inv (snd (get_or_create t r m))"
  using maps_inv_begin_creation [of m t] by (auto simp: get_or_create_def split: option.splits prod.splits)

lemma maps_inv_acquire: "maps_inv m \<Longrightarrow> maps_inv (manager_acquire t r m)"
  using maps_inv_get_or_create [of m t r] by (auto simp: manager_acquire_def Let_def split: prod.splits option.splits)

text \<open>An invariant that ignores the progress of the calls holds after a resumption if it holds after its two ends.\<close>

lemma acquire_resume_keeps:
  assumes "P m" and "\<And>m qs. P (m\<lparr>mg_acquisitions := qs\<rparr>) = P m"
    and "\<And>t r. P (snd (get_or_create t r m))" and "\<And>i r. P (snd (attachReference i r oc m))"
  shows "P (acquire_resume a oc m)"
proof (cases "mg_acquisitions m ! a")
  case (Q_disposal t d r)
  then show ?thesis using assms(1,2) assms(3) [of t r]
    by (cases "mg_disposals m ! d") (simp_all add: acquire_resume_def case_prod_beta)
next
  case (Q_creation c r)
  show ?thesis
  proof (cases "mg_creations m ! c")
    case (C_settled x)
    then show ?thesis using Q_creation assms(1,2) assms(4) [of _ r] by (cases x) (simp_all add: acquire_resume_def case_prod_beta)
  qed (use Q_creation assms(1,2) in \<open>simp_all add: acquire_resume_def\<close>)
next
  case (Q_lease i r)
  then show ?thesis using assms(1,2) assms(4) [of i r] by (simp add: acquire_resume_def case_prod_beta)
next
  case (Q_done x)
  then show ?thesis using assms(1,2) by (simp add: acquire_resume_def)
qed

lemma maps_inv_acquire_resume: "maps_inv m \<Longrightarrow> maps_inv (acquire_resume a oc m)"
  by (rule acquire_resume_keeps) (simp_all add: maps_inv_get_or_create maps_inv_attach)

lemma maps_inv_creations:
  assumes inv: "maps_inv m" and "length cs = length (mg_creations m)"
    and "\<And>c u. c < length cs \<Longrightarrow> cs ! c = C_running u \<Longrightarrow> mg_creations m ! c = C_running u"
    and "distinct (map fst cr)" "\<And>c u. c < length cs \<Longrightarrow> cs ! c = C_running u \<Longrightarrow> map_of cr u = map_of (mg_creating m) u"
  shows "maps_inv (m\<lparr>mg_creations := cs, mg_creating := cr\<rparr>)"
  by (rule maps_invI) (use maps_invD [OF inv] assms in auto)

lemma maps_inv_client_ready: "maps_inv m \<Longrightarrow> maps_inv (client_ready c answer m)"
proof -
  assume inv: "maps_inv m"
  show ?thesis
  proof (cases "c < length (mg_creations m) \<and> (\<exists>t. mg_creations m ! c = C_running t)")
    case True
    then obtain t where c: "c < length (mg_creations m)" "mg_creations m ! c = C_running t" by blast
    note t = maps_invD(7) [OF inv c]
    let ?cs = "\<lambda>x. (mg_creations m)[c := C_finishing t x]"
    have others: "?cs x ! d = C_running u \<Longrightarrow> d < length (mg_creations m) \<Longrightarrow> mg_creations m ! d = C_running u \<and> u \<noteq> t" for x d u
      using maps_invD(7) [OF inv, of d t] t c(1) by (auto simp: nth_list_update split: if_splits)
    have "maps_inv (m\<lparr>mg_creations := ?cs x, mg_creating := mg_creating m\<rparr>)" for x
      using maps_invD(2) [OF inv] others by (intro maps_inv_creations [OF inv]) auto
    moreover have "maps_inv (m\<lparr>mg_store := mg_store m @ [lease_new t client], mg_leases := AList.update t (length (mg_store m)) (mg_leases m),
        mg_creations := ?cs x\<rparr>)" for client x
      using t others [of x] by (intro maps_inv_add [OF inv]) auto
    ultimately show ?thesis using c by (auto simp: client_ready_def Let_def split: sum.splits)
  qed (auto simp: client_ready_def inv split: creation.splits)
qed

lemma maps_inv_creation_settles: "maps_inv m \<Longrightarrow> maps_inv (creation_settles c m)"
proof -
  assume inv: "maps_inv m"
  show ?thesis
  proof (cases "c < length (mg_creations m) \<and> (\<exists>t x. mg_creations m ! c = C_finishing t x)")
    case True
    then obtain t x where c: "c < length (mg_creations m)" "mg_creations m ! c = C_finishing t x" by blast
    let ?cr = "if map_of (mg_creating m) t = Some c then AList.delete t (mg_creating m) else mg_creating m"
    have "map_of ?cr u = map_of (mg_creating m) u \<and> mg_creations m ! d = C_running u"
      if d: "d < length (mg_creations m)" "(mg_creations m)[c := C_settled x] ! d = C_running u" for d u
    proof -
      have "d \<noteq> c" "mg_creations m ! d = C_running u" using d c(1) by (auto simp: nth_list_update split: if_splits)
      then show ?thesis using maps_invD(7) [OF inv d(1), of u] by (auto simp: delete_conv')
    qed
    then have "maps_inv (m\<lparr>mg_creations := (mg_creations m)[c := C_settled x], mg_creating := ?cr\<rparr>)"
      using maps_invD(2) [OF inv] by (intro maps_inv_creations [OF inv]) (auto simp: distinct_delete)
    then show ?thesis using c by (simp add: creation_settles_def)
  qed (auto simp: creation_settles_def inv split: creation.splits)
qed

lemma maps_inv_start: "maps_inv m \<Longrightarrow> maps_inv (manager_start r m)"
  by (simp add: manager_start_def Let_def split: option.splits)

lemma maps_inv_fail_start [simp]: "maps_inv (fail_start s e m) = maps_inv m"
  by (simp add: fail_start_def)

lemma maps_inv_start_closed: "maps_inv m \<Longrightarrow> maps_inv (start_closed s m)"
  by (simp add: start_closed_def split: starting.splits)

lemma scope_closes: "le_scope_closed (close_lease_scope l)"
  by (simp add: close_lease_scope_def)

text \<open>Starting a thread: the lease that could not be attached is taken back.\<close>

lemma maps_inv_take_back:
  assumes inv: "maps_inv m"
  shows "maps_inv ((update_lease i close_lease_scope m)\<lparr>
    mg_leases := (if map_of (mg_leases m) t = Some i then AList.delete t (mg_leases m) else mg_leases m)\<rparr>)"
proof (cases "map_of (mg_leases m) t = Some i")
  case True
  then show ?thesis using maps_inv_remove [OF inv tame_facts(3) scope_closes, of t i] by simp
next
  case False
  have same: "(update_lease i close_lease_scope m)\<lparr>mg_leases := mg_leases m\<rparr> = update_lease i close_lease_scope m"
    by (simp add: update_lease_def)
  show ?thesis unfolding if_not_P [OF False] same by (rule maps_inv_update [OF inv tame_facts(3)])
qed

lemma maps_inv_finish_start: "maps_inv m \<Longrightarrow> maps_inv (finish_start s t client r sg oc m)"
proof -
  assume inv: "maps_inv m"
  let ?m = "m\<lparr>mg_store := mg_store m @ [lease_new t client], mg_leases := AList.update t (length (mg_store m)) (mg_leases m),
    mg_starting := removeAll s (mg_starting m)\<rparr>"
  have "maps_inv ?m" if "map_of (mg_leases m) t = None" "map_of (mg_creating m) t = None"
  proof -
    have "mg_creations m ! c \<noteq> C_running t" if "c < length (mg_creations m)" for c
      using maps_invD(7) [OF inv that, of t] \<open>map_of (mg_creating m) t = None\<close> by auto
    then have "maps_inv (m\<lparr>mg_store := mg_store m @ [lease_new t client], mg_leases := AList.update t (length (mg_store m)) (mg_leases m),
        mg_creations := mg_creations m\<rparr>)" using that by (intro maps_inv_add [OF inv]) auto
    then show ?thesis by simp
  qed
  then have att: "maps_inv (snd (attachReference (length (mg_store m)) r oc ?m))"
    if "map_of (mg_leases m) t = None" "map_of (mg_creating m) t = None"
    using maps_inv_attach that by blast
  show ?thesis
  proof (cases "attachReference (length (mg_store m)) r oc ?m")
    case (Pair x m2)
    then show ?thesis using att inv maps_inv_take_back [where m = m2 and i = "length (mg_store m)" and t = t]
      by (cases x) (simp_all add: finish_start_def Let_def)
  qed
qed

lemma maps_inv_start_initialized: "maps_inv m \<Longrightarrow> maps_inv (start_initialized s answer sg oc m)"
  by (auto simp: start_initialized_def intro: maps_inv_finish_start split: starting.splits sum.splits option.splits)

lemma maps_inv_start_resume: "maps_inv m \<Longrightarrow> maps_inv (start_resume s sg oc m)"
  by (auto simp: start_resume_def intro: maps_inv_finish_start split: starting.splits disposal.splits)

lemma maps_inv_close: "maps_inv m \<Longrightarrow> maps_inv (manager_close m)"
proof (cases "mg_scope_closed m \<and> (\<forall>l \<in> set (mg_store m). le_scope_closed l)")
  case True
  assume inv: "maps_inv m"
  have gone: "le_scope_closed (lease_close ''manager-closed'' (mg_store m ! i))" "le_scope_closed (mg_store m ! i)"
    if "i < length (mg_store m)" for i
    using True that close_closes nth_mem by blast+
  show ?thesis
    by (rule maps_invI) (use True gone maps_invD(2) [OF inv] maps_invD(7) [OF inv] in \<open>auto simp: manager_close_def split: if_splits\<close>)
qed (auto simp: manager_close_def)

lemma maps_inv_step: "maps_inv m \<Longrightarrow> maps_inv (manager_step known op m)"
  by (cases op) (simp_all add: manager_scope_closing_def close_child_def maps_inv_acquire maps_inv_acquire_resume maps_inv_client_ready
      maps_inv_creation_settles maps_inv_start maps_inv_start_closed maps_inv_start_initialized maps_inv_start_resume maps_inv_release maps_inv_update tame_facts
      maps_inv_dispose_if_idle maps_inv_dispose maps_inv_disposal_settles maps_inv_closeThread maps_inv_close)

lemma maps_inv_run: "maps_inv m \<Longrightarrow> maps_inv (manager_run known ops m)"
  by (induction ops arbitrary: m) (simp_all add: maps_inv_step)

lemma maps_inv_new: "manager_new maximum = Inr m \<Longrightarrow> maps_inv m"
  by (auto simp: manager_new_def maps_inv_def Let_def split: if_splits)

text \<open>
  Claim C18. A thread never has two open leases: whatever the order in which calls acquire, start, release
  and close threads, clients come up or fail, and leases are disposed, two leases whose scope is open and that
  belong to the same thread are the same lease, and it is the one the manager hands out.
\<close>

theorem one_open_lease_per_thread:
  assumes "manager_new maximum = Inr m0" and "m = manager_run known ops m0"
    and "i < length (mg_store m)" and "j < length (mg_store m)"
    and "\<not> le_scope_closed (mg_store m ! i)" and "\<not> le_scope_closed (mg_store m ! j)"
    and "le_threadId (mg_store m ! i) = le_threadId (mg_store m ! j)"
  shows "i = j \<and> map_of (mg_leases m) (le_threadId (mg_store m ! i)) = Some i"
proof -
  have "maps_inv m" using maps_inv_run [OF maps_inv_new [OF assms(1)]] assms(2) by simp
  note current = maps_invD(5) [OF this]
  have "Some i = Some j" using current [OF assms(3,5)] current [OF assms(4,6)] unfolding assms(7) by (rule subst)
  then show ?thesis using current [OF assms(3,5)] by blast
qed

section \<open>Capacity\<close>

definition running :: "creation list \<Rightarrow> string \<times> nat \<Rightarrow> bool" where
  "running cs p \<longleftrightarrow> snd p < length cs \<and> cs ! snd p = C_running (fst p)"

text \<open>
  What counts against the capacity: the leases handed out, those whose client is awaited, those that are
  closing and the threads that are being started. A creation that already has its lease is not counted twice.
\<close>

definition load :: "manager \<Rightarrow> nat" where
  "load m = length (mg_leases m) + t_count (running (mg_creations m)) (mg_creating m) + length (mg_disposing m) + length (mg_starting m)"

definition unfinished :: "starting \<Rightarrow> bool" where
  "unfinished x = (case x of S_done _ \<Rightarrow> False | _ \<Rightarrow> True)"

definition capacity_inv :: "manager \<Rightarrow> bool" where
  "capacity_inv m \<longleftrightarrow> int (load m) \<le> mg_maximumLeases m \<and> distinct (mg_starting m) \<and>
     (\<forall>s < length (mg_starts m). unfinished (mg_starts m ! s) \<longrightarrow> s \<in> set (mg_starting m)) \<and>
     (\<forall>s \<in> set (mg_starting m). s < length (mg_starts m))"

definition lighter :: "manager \<Rightarrow> manager \<Rightarrow> bool" where
  "lighter m m' \<longleftrightarrow> load m' \<le> load m \<and> mg_maximumLeases m' = mg_maximumLeases m \<and> mg_starts m' = mg_starts m \<and> mg_starting m' = mg_starting m"

lemma capacity_inv_lighter: "capacity_inv m \<Longrightarrow> lighter m m' \<Longrightarrow> capacity_inv m'"
  by (auto simp: capacity_inv_def lighter_def)

lemma length_update: "length (AList.update k v al) = (if map_of al k = None then Suc (length al) else length al)"
  by (induction al) auto

lemma length_delete: "map_of al k = Some v \<Longrightarrow> length (AList.delete k al) < length al"
proof (induction al)
  case (Cons x al)
  then show ?case using length_delete_le [of k al] by (cases x) (auto simp: less_Suc_eq_le split: if_splits)
qed simp

lemma t_count_AList_delete: "t_count p (AList.delete k al) \<le> t_count p al"
  by (induction al) auto

lemma load_update [simp]: "load (update_lease i f m) = load m"
  by (simp add: load_def)

lemma load_same [simp]:
  "load (m\<lparr>mg_handles := hs\<rparr>) = load m" "load (m\<lparr>mg_acquisitions := qs\<rparr>) = load m" "load (m\<lparr>mg_scope_closed := b\<rparr>) = load m"
  "load (m\<lparr>mg_starts := ss\<rparr>) = load m"
  by (simp_all add: load_def)

lemma capacity_inv_same [simp]:
  "capacity_inv (m\<lparr>mg_acquisitions := qs\<rparr>) = capacity_inv m" "capacity_inv (m\<lparr>mg_scope_closed := b\<rparr>) = capacity_inv m"
  "capacity_inv (update_lease i f m) = capacity_inv m"
  by (simp_all add: capacity_inv_def)

lemma lighter_dispose: "lighter m (manager_dispose i m)"
  using length_delete [of "mg_leases m" "le_threadId (mg_store m ! i)" i]
  by (auto simp: manager_dispose_def lighter_def load_def Let_def length_update)

lemma lighter_dispose_if_idle: "lighter m (dispose_if_idle i m)"
  using lighter_dispose by (simp add: dispose_if_idle_def lighter_def)

lemma lighter_disposal_settles: "lighter m (disposal_settles d ok m)"
  by (auto simp: disposal_settles_def lighter_def load_def length_delete_le split: disposal.splits)

lemma lighter_closeThread: "lighter m (closeThread t reason m)"
  by (auto simp: closeThread_def lighter_def load_def length_delete_le split: option.splits)

lemma lighter_release: "lighter m (release_handle h m)"
proof (cases "length (mg_handles m) \<le> h \<or> ha_released (mg_handles m ! h)")
  case False
  let ?x = "mg_handles m ! h"
  let ?r = "ha_reference ?x"
  let ?m = "update_lease (ha_lease ?x) (\<lambda>l. snd (releaseReference (rf_kind ?r) (rf_id ?r) l))
    (m\<lparr>mg_handles := (mg_handles m)[h := ?x\<lparr>ha_released := True\<rparr>]\<rparr>)"
  have "lighter m ?m" by (simp add: lighter_def)
  then show ?thesis using False lighter_dispose_if_idle [of ?m "ha_lease ?x"] by (simp add: release_handle_def Let_def lighter_def)
qed (simp add: release_handle_def lighter_def)

text \<open>The state after a reference has been attached, before the owner is asked.\<close>

definition attached :: "nat \<Rightarrow> reference \<Rightarrow> lease \<Rightarrow> manager \<Rightarrow> manager" where
  "attached i r l m = (update_lease i (\<lambda>_. l) m)\<lparr>mg_handles := mg_handles m @ [\<lparr>ha_lease = i, ha_reference = r, ha_released = False\<rparr>]\<rparr>"

lemma attachReference_cases:
  obtains (refused) e where "attachReference i r oc m = (Inl e, m)"
  | (attached) l where "i < length (mg_store m)" "addReference (rf_kind r) (rf_id r) (mg_store m ! i) = (Inr (), l)" "\<not> oc"
      "attachReference i r oc m = (Inr (length (mg_handles m)), attached i r l m)"
  | (orphaned) l where "i < length (mg_store m)" "addReference (rf_kind r) (rf_id r) (mg_store m ! i) = (Inr (), l)" "oc"
      "attachReference i r oc m = (Inl (ScopeClosedError ''owner''), release_handle (length (mg_handles m)) (attached i r l m))"
proof (cases "length (mg_store m) \<le> i \<or> isl (fst (addReference (rf_kind r) (rf_id r) (mg_store m ! i)))")
  case True
  then have "\<exists>e. attachReference i r oc m = (Inl e, m)"
    by (cases "addReference (rf_kind r) (rf_id r) (mg_store m ! i)"; cases "fst (addReference (rf_kind r) (rf_id r) (mg_store m ! i))")
      (auto simp: attachReference_def)
  then show ?thesis using refused by blast
next
  case False
  then obtain l where "addReference (rf_kind r) (rf_id r) (mg_store m ! i) = (Inr (), l)"
    by (cases "addReference (rf_kind r) (rf_id r) (mg_store m ! i)"; cases "fst (addReference (rf_kind r) (rf_id r) (mg_store m ! i))") auto
  then show ?thesis using False attached orphaned by (cases oc) (auto simp: attachReference_def attached_def Let_def)
qed

lemma lighter_attach: "lighter m (snd (attachReference i r oc m))"
proof -
  have "lighter m (attached i r l m)" for l by (simp add: lighter_def attached_def)
  then show ?thesis using lighter_release [of "attached i r _ m" "length (mg_handles m)"]
    by (cases rule: attachReference_cases [of i r oc m]) (auto simp: lighter_def intro: order_trans)
qed

lemma load_le: "load m \<le> length (mg_leases m) + length (mg_creating m) + length (mg_disposing m) + length (mg_starting m)"
  by (simp add: load_def t_count_le_length)

lemma capacity_inv_get_or_create: "capacity_inv m \<Longrightarrow> capacity_inv (snd (get_or_create t r m))"
proof -
  assume inv: "capacity_inv m"
  have "int (load (snd (begin_creation t m))) \<le> mg_maximumLeases m" if "assertCapacity m = None"
    using that load_le [of "snd (begin_creation t m)"]
    by (auto simp: assertCapacity_def begin_creation_def Let_def length_update split: if_splits)
  then have "assertCapacity m = None \<Longrightarrow> capacity_inv (snd (begin_creation t m))"
    using inv by (auto simp: capacity_inv_def begin_creation_def Let_def)
  then show ?thesis using inv by (auto simp: get_or_create_def split: option.splits prod.splits)
qed

lemma capacity_inv_acquire: "capacity_inv m \<Longrightarrow> capacity_inv (manager_acquire t r m)"
  using capacity_inv_get_or_create [of m t r] by (auto simp: manager_acquire_def Let_def split: prod.splits option.splits)

lemma capacity_inv_acquire_resume: "capacity_inv m \<Longrightarrow> capacity_inv (acquire_resume a oc m)"
  by (rule acquire_resume_keeps) (simp_all add: capacity_inv_get_or_create capacity_inv_lighter [OF _ lighter_attach])

lemma running_settled: "running (cs[c := x]) p \<Longrightarrow> (\<And>u. x \<noteq> C_running u) \<Longrightarrow> running cs p \<and> snd p \<noteq> c"
  by (cases "snd p = c") (auto simp: running_def)

lemma capacity_inv_client_ready:
  assumes maps: "maps_inv m" and inv: "capacity_inv m"
  shows "capacity_inv (client_ready c answer m)"
proof (cases "c < length (mg_creations m) \<and> (\<exists>t. mg_creations m ! c = C_running t)")
  case True
  then obtain t where c: "c < length (mg_creations m)" "mg_creations m ! c = C_running t" by blast
  from maps_invD(7) [OF maps c] have "(t, c) \<in> set (mg_creating m)" by (auto dest: map_of_SomeD)
  moreover have "running (mg_creations m) (t, c)" using c by (simp add: running_def)
  ultimately have "t_count (running ((mg_creations m)[c := C_finishing t x])) (mg_creating m) < t_count (running (mg_creations m)) (mg_creating m)" for x
    using running_settled [of "mg_creations m" c "C_finishing t x"] by (intro t_count_less [of _ _ _ "(t, c)"]) fastforce+
  then have less: "Suc (t_count (running ((mg_creations m)[c := C_finishing t x])) (mg_creating m)) \<le> t_count (running (mg_creations m)) (mg_creating m)" for x
    by (simp add: Suc_le_eq)
  have "load (client_ready c answer m) \<le> load m"
  proof (cases answer)
    case (Inl e)
    then show ?thesis using c less [of "Inl e"] by (simp add: client_ready_def load_def)
  next
    case (Inr client)
    then show ?thesis using c less [of "Inr (length (mg_store m))"] by (simp add: client_ready_def load_def Let_def length_update)
  qed
  then have "lighter m (client_ready c answer m)" using c by (cases answer) (simp_all add: lighter_def client_ready_def Let_def)
  then show ?thesis by (rule capacity_inv_lighter [OF inv])
qed (auto simp: client_ready_def inv split: creation.splits)

lemma capacity_inv_creation_settles:
  assumes inv: "capacity_inv m"
  shows "capacity_inv (creation_settles c m)"
proof (cases "c < length (mg_creations m) \<and> (\<exists>t x. mg_creations m ! c = C_finishing t x)")
  case True
  then obtain t x where c: "c < length (mg_creations m)" "mg_creations m ! c = C_finishing t x" by blast
  let ?p = "running ((mg_creations m)[c := C_settled x])"
  have "t_count ?p (mg_creating m) \<le> t_count (running (mg_creations m)) (mg_creating m)"
    using running_settled [of "mg_creations m" c "C_settled x"] by (intro t_count_mono) auto
  then have "load (creation_settles c m) \<le> load m"
    using c t_count_AList_delete [of ?p t "mg_creating m"] by (simp add: creation_settles_def load_def)
  then have "lighter m (creation_settles c m)" using c by (simp add: lighter_def creation_settles_def)
  then show ?thesis by (rule capacity_inv_lighter [OF inv])
qed (auto simp: creation_settles_def inv split: creation.splits)

lemma capacity_inv_start: "capacity_inv m \<Longrightarrow> capacity_inv (manager_start r m)"
proof -
  assume inv: "capacity_inv m"
  have "int (load m) + 1 \<le> mg_maximumLeases m" if "assertCapacity m = None"
    using that load_le [of m] by (auto simp: assertCapacity_def split: if_splits)
  then show ?thesis using inv
    by (auto simp: manager_start_def Let_def capacity_inv_def load_def unfinished_def nth_append less_Suc_eq split: option.splits)
qed

text \<open>The end of a start gives its place free.\<close>

lemma length_removeAll: "distinct xs \<Longrightarrow> x \<in> set xs \<Longrightarrow> Suc (length (removeAll x xs)) = length xs"
  by (induction xs) (auto simp: removeAll_id)

lemma capacity_inv_done:
  assumes "capacity_inv m" and "int (load m') \<le> mg_maximumLeases m" and "mg_maximumLeases m' = mg_maximumLeases m"
    and "mg_starts m' = (mg_starts m)[s := S_done x]" and "mg_starting m' = removeAll s (mg_starting m)"
  shows "capacity_inv m'"
  using assms by (cases "s < length (mg_starts m)") (auto simp: capacity_inv_def distinct_removeAll unfinished_def nth_list_update)

lemma capacity_inv_start_closed: "capacity_inv m \<Longrightarrow> capacity_inv (start_closed s m)"
proof (cases "s < length (mg_starts m) \<and> (\<exists>e. mg_starts m ! s = S_closing e)")
  case True
  assume inv: "capacity_inv m"
  from True obtain e where s: "s < length (mg_starts m)" "mg_starts m ! s = S_closing e" by blast
  have "length (removeAll s xs) + t_count ((=) s) xs = length xs" for xs :: "nat list"
    by (induction xs) auto
  from this [of "mg_starting m"] have "length (removeAll s (mg_starting m)) + t_count ((=) s) (mg_starting m) = length (mg_starting m)" .
  then have "load (start_closed s m) \<le> load m" using s by (simp add: load_def start_closed_def)
  with inv s show ?thesis by (intro capacity_inv_done [OF inv, where s = s and x = "Inl e"]) (auto simp: capacity_inv_def start_closed_def)
qed (auto simp: start_closed_def split: starting.splits)

lemma capacity_inv_fail_start: "capacity_inv m \<Longrightarrow> s \<in> set (mg_starting m) \<Longrightarrow> capacity_inv (fail_start s e m)"
  by (auto simp: fail_start_def capacity_inv_def nth_list_update)

lemma capacity_inv_finish_start:
  assumes inv: "capacity_inv m" and s: "s \<in> set (mg_starting m)"
  shows "capacity_inv (finish_start s t client r sg oc m)"
proof (cases "mg_closed m \<or> map_of (mg_leases m) t \<noteq> None \<or> map_of (mg_creating m) t \<noteq> None \<or> sg")
  case True
  then show ?thesis using capacity_inv_fail_start [OF inv s] by (auto simp: finish_start_def)
next
  case False
  let ?i = "length (mg_store m)"
  let ?m = "m\<lparr>mg_store := mg_store m @ [lease_new t client], mg_leases := AList.update t ?i (mg_leases m),
    mg_starting := removeAll s (mg_starting m)\<rparr>"
  obtain x m2 where att: "attachReference ?i r oc ?m = (x, m2)" by fastforce
  have "distinct (mg_starting m)" using inv by (simp add: capacity_inv_def)
  from length_removeAll [OF this s] have "load ?m \<le> load m" by (simp add: load_def length_update)
  moreover have light: "lighter ?m m2" using lighter_attach [of ?m ?i r oc] att by simp
  ultimately have "load m2 \<le> load m" by (simp add: lighter_def)
  then have bound: "int (load m2) \<le> mg_maximumLeases m" using inv by (simp add: capacity_inv_def)
  show ?thesis
  proof (cases x)
    case (Inl e)
    let ?m3 = "(update_lease ?i close_lease_scope m2)\<lparr>mg_leases := (if map_of (mg_leases m2) t = Some ?i then AList.delete t (mg_leases m2) else mg_leases m2),
      mg_starts := (mg_starts m2)[s := S_done (Inl e)]\<rparr>"
    have "load ?m3 \<le> load m2" by (simp add: load_def length_delete_le)
    then have "capacity_inv ?m3" using bound light by (intro capacity_inv_done [OF inv]) (auto simp: lighter_def)
    then show ?thesis using False att Inl by (simp add: finish_start_def Let_def)
  next
    case (Inr h)
    have "capacity_inv (m2\<lparr>mg_starts := (mg_starts m2)[s := S_done (Inr h)]\<rparr>)"
      using bound light by (intro capacity_inv_done [OF inv]) (auto simp: lighter_def)
    then show ?thesis using False att Inr by (simp add: finish_start_def Let_def)
  qed
qed

lemma capacity_inv_waits:
  assumes "capacity_inv m" and "s < length (mg_starts m)" and "unfinished (mg_starts m ! s)" and "unfinished x"
  shows "s \<in> set (mg_starting m)" and "capacity_inv (m\<lparr>mg_starts := (mg_starts m)[s := x]\<rparr>)"
  using assms by (auto simp: capacity_inv_def nth_list_update)

lemma capacity_inv_start_initialized: "capacity_inv m \<Longrightarrow> capacity_inv (start_initialized s answer sg oc m)"
proof (cases "s < length (mg_starts m) \<and> (\<exists>r. mg_starts m ! s = S_client r)")
  case True
  assume inv: "capacity_inv m"
  from True obtain r where s: "s < length (mg_starts m)" "mg_starts m ! s = S_client r" by blast
  then have "s \<in> set (mg_starting m)" "capacity_inv (m\<lparr>mg_starts := (mg_starts m)[s := S_disposal t c d r]\<rparr>)" for t c d
    using capacity_inv_waits [OF inv s(1), of "S_disposal t c d r"] by (simp_all add: unfinished_def)
  then show ?thesis using inv s capacity_inv_finish_start [OF inv] capacity_inv_fail_start [OF inv]
    by (auto simp: start_initialized_def split: sum.splits option.splits)
qed (auto simp: start_initialized_def split: starting.splits)

lemma capacity_inv_start_resume: "capacity_inv m \<Longrightarrow> capacity_inv (start_resume s sg oc m)"
proof (cases "s < length (mg_starts m) \<and> (\<exists>t c d r. mg_starts m ! s = S_disposal t c d r)")
  case True
  assume inv: "capacity_inv m"
  from True have "s \<in> set (mg_starting m)" using capacity_inv_waits(1) [OF inv, of s "S_client undefined"] by (auto simp: unfinished_def)
  then show ?thesis using True inv capacity_inv_finish_start [OF inv] capacity_inv_fail_start [OF inv]
    by (auto simp: start_resume_def split: disposal.splits)
qed (auto simp: start_resume_def split: starting.splits)

lemma lighter_close: "lighter m (manager_close m)"
  by (simp add: manager_close_def lighter_def load_def)

lemma capacity_inv_step: "maps_inv m \<Longrightarrow> capacity_inv m \<Longrightarrow> capacity_inv (manager_step known op m)"
  by (cases op) (simp_all add: manager_scope_closing_def close_child_def capacity_inv_acquire capacity_inv_acquire_resume capacity_inv_client_ready
      capacity_inv_creation_settles capacity_inv_start capacity_inv_start_closed capacity_inv_start_initialized capacity_inv_start_resume
      lighter_release [THEN capacity_inv_lighter [rotated]] lighter_dispose_if_idle [THEN capacity_inv_lighter [rotated]]
      lighter_dispose [THEN capacity_inv_lighter [rotated]] lighter_disposal_settles [THEN capacity_inv_lighter [rotated]]
      lighter_closeThread [THEN capacity_inv_lighter [rotated]] lighter_close [THEN capacity_inv_lighter [rotated]])

lemma capacity_inv_run: "maps_inv m \<Longrightarrow> capacity_inv m \<Longrightarrow> capacity_inv (manager_run known ops m)"
  by (induction ops arbitrary: m) (simp_all add: maps_inv_step capacity_inv_step)

lemma maximum_finish_start: "mg_maximumLeases (finish_start s t client r sg oc m) = mg_maximumLeases m"
proof -
  let ?m = "m\<lparr>mg_store := mg_store m @ [lease_new t client], mg_leases := AList.update t (length (mg_store m)) (mg_leases m),
    mg_starting := removeAll s (mg_starting m)\<rparr>"
  show ?thesis using lighter_attach [of ?m "length (mg_store m)" r oc]
    by (auto simp: finish_start_def fail_start_def lighter_def Let_def split: prod.splits sum.splits)
qed

lemma maximum_get_or_create: "mg_maximumLeases (snd (get_or_create t r m)) = mg_maximumLeases m"
  by (simp add: get_or_create_def begin_creation_def Let_def split: option.splits)

lemma maximum_step: "mg_maximumLeases (manager_step known op m) = mg_maximumLeases m"
proof (cases op)
  case (M_acquire t r)
  then show ?thesis using maximum_get_or_create [of t r m] by (auto simp: manager_acquire_def Let_def split: prod.splits option.splits)
next
  case (M_acquire_resume a oc)
  have "mg_maximumLeases (acquire_resume a oc m) = mg_maximumLeases m"
    using lighter_attach [of m]
    by (intro acquire_resume_keeps [where P = "\<lambda>x. mg_maximumLeases x = mg_maximumLeases m"]) (simp_all add: maximum_get_or_create lighter_def)
  then show ?thesis using M_acquire_resume by simp
next
  case (M_start_initialized s answer sg oc)
  then show ?thesis by (simp add: start_initialized_def maximum_finish_start fail_start_def split: starting.splits sum.splits option.splits)
next
  case (M_start_resume s sg oc)
  then show ?thesis by (simp add: start_resume_def maximum_finish_start fail_start_def split: starting.splits disposal.splits)
next
  case (M_client_ready c answer)
  then show ?thesis by (simp add: client_ready_def Let_def split: creation.splits sum.splits)
next
  case (M_creation_settles c)
  then show ?thesis by (simp add: creation_settles_def split: creation.splits)
next
  case (M_start_closed s)
  then show ?thesis by (simp add: start_closed_def split: starting.splits)
next
  case (M_start r)
  then show ?thesis by (simp add: manager_start_def Let_def split: option.splits)
qed (use lighter_release lighter_dispose_if_idle lighter_dispose lighter_disposal_settles lighter_closeThread lighter_close in
    \<open>simp_all add: lighter_def manager_scope_closing_def close_child_def\<close>)

lemma maximum_run: "mg_maximumLeases (manager_run known ops m) = mg_maximumLeases m"
  by (induction ops arbitrary: m) (simp_all add: maximum_step)

text \<open>
  Claim C20. The capacity holds at every moment: the leases handed out, the ones being created and not yet
  handed out, the ones being disposed and the threads being started are together never more than the
  configured maximum, however the calls interleave.
\<close>

theorem lease_capacity_is_respected:
  assumes "manager_new maximum = Inr m0" and "m = manager_run known ops m0"
  shows "int (load m) \<le> (case maximum of Some n \<Rightarrow> n | None \<Rightarrow> 128)"
proof -
  have m0: "capacity_inv m0" "mg_maximumLeases m0 = (case maximum of Some n \<Rightarrow> n | None \<Rightarrow> 128)"
    using assms(1) by (auto simp: manager_new_def capacity_inv_def load_def Let_def split: if_splits)
  then have "capacity_inv m" using capacity_inv_run maps_inv_new [OF assms(1)] assms(2) by blast
  then show ?thesis using m0(2) maximum_run assms(2) by (simp add: capacity_inv_def)
qed

section \<open>Handles\<close>

text \<open>The references of a lease are counted by the handles on it that have not been released.\<close>

definition live_handles :: "manager \<Rightarrow> nat \<Rightarrow> string \<Rightarrow> nat" where
  "live_handles m i key = t_count (\<lambda>h. ha_lease h = i \<and> \<not> ha_released h \<and> reference_key (rf_kind (ha_reference h)) (rf_id (ha_reference h)) = key)
     (mg_handles m)"

definition handles_inv :: "manager \<Rightarrow> bool" where
  "handles_inv m \<longleftrightarrow> (\<forall>i < length (mg_store m). \<forall>kind k. kind \<noteq> RK_effect \<longrightarrow>
     live_handles m i (reference_key kind k) \<le> references (mg_store m ! i) (reference_key kind k)) \<and>
     (\<forall>h \<in> set (mg_handles m). ha_lease h < length (mg_store m))"

lemma handles_inv_same [simp]:
  "handles_inv (m\<lparr>mg_acquisitions := qs\<rparr>) = handles_inv m" "handles_inv (m\<lparr>mg_starts := ss\<rparr>) = handles_inv m"
  "handles_inv (m\<lparr>mg_starting := st\<rparr>) = handles_inv m" "handles_inv (m\<lparr>mg_disposals := ds\<rparr>) = handles_inv m"
  "handles_inv (m\<lparr>mg_disposing := dg\<rparr>) = handles_inv m" "handles_inv (m\<lparr>mg_leases := ls\<rparr>) = handles_inv m"
  "handles_inv (m\<lparr>mg_creations := cs\<rparr>) = handles_inv m" "handles_inv (m\<lparr>mg_creating := cr\<rparr>) = handles_inv m"
  "handles_inv (m\<lparr>mg_closed := b\<rparr>) = handles_inv m" "handles_inv (m\<lparr>mg_scope_closed := b\<rparr>) = handles_inv m"
  by (simp_all add: handles_inv_def live_handles_def)

lemma handles_inv_store:
  assumes "handles_inv m" and "length st = length (mg_store m)"
    and "\<And>i kind k. i < length st \<Longrightarrow> kind \<noteq> RK_effect \<Longrightarrow> references (st ! i) (reference_key kind k) = references (mg_store m ! i) (reference_key kind k)"
  shows "handles_inv (m\<lparr>mg_store := st\<rparr>)"
  using assms by (simp add: handles_inv_def live_handles_def)

lemma handles_inv_update:
  assumes "handles_inv m"
    and "\<And>l kind k. kind \<noteq> RK_effect \<Longrightarrow> references (f l) (reference_key kind k) = references l (reference_key kind k)"
  shows "handles_inv (update_lease i f m)"
  using handles_inv_store [OF assms(1)] assms(2) by (simp add: update_lease_def nth_list_update assms(1))

lemma references_close [simp]:
  "references (lease_close reason l) = references l" "references (close_lease_scope l) = references l"
  using lease_close_effect by (simp_all add: close_lease_scope_def references_def fun_eq_iff)

lemma handles_inv_dispose: "handles_inv m \<Longrightarrow> handles_inv (manager_dispose i m)"
  by (simp add: manager_dispose_def Let_def handles_inv_update)

lemma handles_inv_dispose_if_idle: "handles_inv m \<Longrightarrow> handles_inv (dispose_if_idle i m)"
  by (simp add: dispose_if_idle_def handles_inv_dispose)

text \<open>The state between the release of a handle and the check that may dispose the lease.\<close>

definition released :: "nat \<Rightarrow> manager \<Rightarrow> manager" where
  "released h m = (let x = mg_handles m ! h; r = ha_reference x in
     update_lease (ha_lease x) (\<lambda>l. snd (releaseReference (rf_kind r) (rf_id r) l))
       (m\<lparr>mg_handles := (mg_handles m)[h := x\<lparr>ha_released := True\<rparr>]\<rparr>))"

lemma release_handle_released:
  "release_handle h m = (if length (mg_handles m) \<le> h \<or> ha_released (mg_handles m ! h) then m
     else dispose_if_idle (ha_lease (mg_handles m ! h)) (released h m))"
  by (simp add: release_handle_def released_def Let_def)

lemma handles_inv_released:
  assumes inv: "handles_inv m" and h: "h < length (mg_handles m)" "\<not> ha_released (mg_handles m ! h)"
  shows "handles_inv (released h m)"
proof -
  let ?x = "mg_handles m ! h"
  let ?r = "ha_reference ?x"
  let ?key = "reference_key (rf_kind ?r) (rf_id ?r)"
  let ?f = "\<lambda>l. snd (releaseReference (rf_kind ?r) (rf_id ?r) l)"
  have bound: "ha_lease ?x < length (mg_store m)" using inv h(1) by (simp add: handles_inv_def)
  have live: "live_handles (released h m) i key = live_handles m i key - (if i = ha_lease ?x \<and> key = ?key then 1 else 0)" for i key
    using t_count_list_update [OF h(1), of "\<lambda>h. ha_lease h = i \<and> \<not> ha_released h \<and>
        reference_key (rf_kind (ha_reference h)) (rf_id (ha_reference h)) = key" "?x\<lparr>ha_released := True\<rparr>"] h(2)
    by (auto simp: live_handles_def released_def Let_def split: if_splits)
  have refs: "references (mg_store (released h m) ! i) key =
      references (mg_store m ! i) key - (if i = ha_lease ?x \<and> key = ?key then 1 else 0)" if "i < length (mg_store m)" for i key
    using that releaseReference_effect [of "rf_kind ?r" "rf_id ?r" "mg_store m ! i"] by (auto simp: released_def Let_def)
  have len: "length (mg_store (released h m)) = length (mg_store m)" by (simp add: released_def Let_def)
  have "ha_lease y < length (mg_store m)" if "y \<in> set (mg_handles (released h m))" for y
    using that inv bound set_update_subset_insert [of "mg_handles m" h "?x\<lparr>ha_released := True\<rparr>"]
    by (auto simp: released_def Let_def handles_inv_def)
  moreover have "live_handles (released h m) i (reference_key kind k) \<le> references (mg_store (released h m) ! i) (reference_key kind k)"
    if "i < length (mg_store m)" "kind \<noteq> RK_effect" for i kind k
    using inv that unfolding handles_inv_def live refs [OF that(1)] by (simp add: diff_le_mono)
  ultimately show ?thesis by (simp add: handles_inv_def len)
qed

lemma handles_inv_release: "handles_inv m \<Longrightarrow> handles_inv (release_handle h m)"
  by (simp add: release_handle_released handles_inv_released handles_inv_dispose_if_idle)

lemma handles_inv_attached:
  assumes inv: "handles_inv m" and i: "i < length (mg_store m)" and add: "addReference (rf_kind r) (rf_id r) (mg_store m ! i) = (Inr (), l)"
  shows "handles_inv (attached i r l m)"
proof -
  let ?key = "reference_key (rf_kind r) (rf_id r)"
  have live: "live_handles (attached i r l m) j key = live_handles m j key + (if j = i \<and> key = ?key then 1 else 0)" for j key
    by (auto simp: live_handles_def attached_def)
  have refs: "references (mg_store (attached i r l m) ! j) key = references (mg_store m ! j) key + (if j = i \<and> key = ?key then 1 else 0)"
    if "j < length (mg_store m)" for j key
    using that addReference_effect [OF add] by (simp add: attached_def)
  have len: "length (mg_store (attached i r l m)) = length (mg_store m)" by (simp add: attached_def)
  show ?thesis using inv i unfolding handles_inv_def len
    by (auto simp: live refs) (auto simp: attached_def)
qed

lemma handles_inv_attach: "handles_inv m \<Longrightarrow> handles_inv (snd (attachReference i r oc m))"
  by (cases rule: attachReference_cases [of i r oc m]) (simp_all add: handles_inv_attached handles_inv_release)

lemma handles_inv_new_lease: "handles_inv m \<Longrightarrow> handles_inv (m\<lparr>mg_store := mg_store m @ [lease_new t c]\<rparr>)"
proof -
  assume inv: "handles_inv m"
  then have "live_handles m (length (mg_store m)) key = 0" for key by (auto simp: live_handles_def t_count_0 handles_inv_def)
  with inv show ?thesis by (auto simp: handles_inv_def live_handles_def nth_append less_Suc_eq)
qed

lemma handles_inv_get_or_create: "handles_inv m \<Longrightarrow> handles_inv (snd (get_or_create t r m))"
  by (simp add: get_or_create_def begin_creation_def Let_def split: option.splits)

lemma handles_inv_finish_start: "handles_inv m \<Longrightarrow> handles_inv (finish_start s t client r sg oc m)"
proof -
  assume inv: "handles_inv m"
  let ?i = "length (mg_store m)"
  let ?m = "m\<lparr>mg_store := mg_store m @ [lease_new t client], mg_leases := AList.update t ?i (mg_leases m),
    mg_starting := removeAll s (mg_starting m)\<rparr>"
  have "handles_inv ?m" using handles_inv_new_lease [OF inv] by simp
  then have "handles_inv (snd (attachReference ?i r oc ?m))" by (rule handles_inv_attach)
  then show ?thesis using inv handles_inv_update [of "snd (attachReference ?i r oc ?m)" close_lease_scope ?i]
    by (auto simp: finish_start_def fail_start_def Let_def split: prod.splits sum.splits)
qed

lemma handles_inv_step: "handles_inv m \<Longrightarrow> handles_inv (manager_step known op m)"
proof -
  assume inv: "handles_inv m"
  show ?thesis
  proof (cases op)
    case (M_acquire t r)
    then show ?thesis using inv handles_inv_get_or_create [OF inv, of t r] by (auto simp: manager_acquire_def Let_def split: prod.splits option.splits)
  next
    case (M_acquire_resume a oc)
    have "handles_inv (acquire_resume a oc m)"
      by (rule acquire_resume_keeps) (simp_all add: inv handles_inv_get_or_create handles_inv_attach)
    then show ?thesis using M_acquire_resume by simp
  next
    case (M_client_ready c answer)
    then show ?thesis using inv handles_inv_new_lease [OF inv] by (simp add: client_ready_def Let_def split: creation.splits sum.splits)
  next
    case (M_start_initialized s answer sg oc)
    then show ?thesis using inv
      by (simp add: start_initialized_def handles_inv_finish_start fail_start_def split: starting.splits sum.splits option.splits)
  next
    case (M_start_resume s sg oc)
    then show ?thesis using inv by (simp add: start_resume_def handles_inv_finish_start fail_start_def split: starting.splits disposal.splits)
  next
    case (M_lease i op)
    then show ?thesis using inv by (simp add: handles_inv_update lease_foreign)
  next
    case M_close
    have "handles_inv (m\<lparr>mg_store := map (\<lambda>i. if map_of (mg_leases m) (le_threadId (mg_store m ! i)) = Some i
        then lease_close ''manager-closed'' (mg_store m ! i) else mg_store m ! i) [0..<length (mg_store m)]\<rparr>)"
      by (rule handles_inv_store [OF inv]) auto
    then show ?thesis using M_close inv by (simp add: manager_close_def handles_inv_def live_handles_def)
  qed (use inv in \<open>simp_all add: handles_inv_release handles_inv_dispose handles_inv_dispose_if_idle handles_inv_update closeThread_def
      creation_settles_def manager_start_def start_closed_def disposal_settles_def manager_scope_closing_def close_child_def Let_def
      split: creation.splits option.splits disposal.splits starting.splits\<close>)
qed

lemma handles_inv_run: "handles_inv m \<Longrightarrow> handles_inv (manager_run known ops m)"
  by (induction ops arbitrary: m) (simp_all add: handles_inv_step)

text \<open>A handle that its owner has not released, of a viewer or of the queue.\<close>

definition live_handle :: "manager \<Rightarrow> nat \<Rightarrow> bool" where
  "live_handle m h \<longleftrightarrow> h < length (mg_handles m) \<and> \<not> ha_released (mg_handles m ! h) \<and> rf_kind (ha_reference (mg_handles m ! h)) \<noteq> RK_effect"

abbreviation lease_of :: "manager \<Rightarrow> nat \<Rightarrow> nat" where
  "lease_of m h \<equiv> ha_lease (mg_handles m ! h)"

lemma live_not_idle:
  assumes "handles_inv m" and "live_handle m h"
  shows "\<not> disposeIfIdle (mg_store m ! lease_of m h)" and "lease_of m h < length (mg_store m)"
proof -
  let ?x = "mg_handles m ! h"
  let ?key = "reference_key (rf_kind (ha_reference ?x)) (rf_id (ha_reference ?x))"
  show bound: "lease_of m h < length (mg_store m)" using assms by (simp add: handles_inv_def live_handle_def)
  have "0 < live_handles m (lease_of m h) ?key"
    unfolding live_handles_def using assms(2) by (intro t_count_nth) (auto simp: live_handle_def)
  then have "0 < references (mg_store m ! lease_of m h) ?key"
    using assms bound unfolding handles_inv_def live_handle_def by (metis less_le_trans)
  then show "\<not> disposeIfIdle (mg_store m ! lease_of m h)" by (auto simp: disposeIfIdle_def references_def)
qed

lemma dispose_other: "j \<noteq> i \<Longrightarrow> i < length (mg_store m) \<Longrightarrow> mg_store (manager_dispose j m) ! i = mg_store m ! i"
  by (simp add: manager_dispose_def Let_def)

lemma length_dispose [simp]: "length (mg_store (manager_dispose j m)) = length (mg_store m)"
  by (simp add: manager_dispose_def Let_def)

lemma idle_check_keeps:
  assumes "handles_inv m" and "live_handle m h"
  shows "mg_store (dispose_if_idle j m) ! lease_of m h = mg_store m ! lease_of m h"
  using live_not_idle [OF assms] dispose_other [of j "lease_of m h" m] by (cases "j = lease_of m h") (auto simp: dispose_if_idle_def)

lemma release_keeps:
  assumes inv: "handles_inv m" and live: "live_handle m h" and "g \<noteq> h"
  shows "le_scope_closed (mg_store (release_handle g m) ! lease_of m h) = le_scope_closed (mg_store m ! lease_of m h)"
proof (cases "length (mg_handles m) \<le> g \<or> ha_released (mg_handles m ! g)")
  case False
  let ?m = "released g m"
  have same: "mg_handles ?m ! h = mg_handles m ! h" "length (mg_handles ?m) = length (mg_handles m)"
    using assms(3) by (simp_all add: released_def Let_def)
  then have "live_handle ?m h" using live by (simp add: live_handle_def)
  moreover have "handles_inv ?m" using handles_inv_released [OF inv] False by simp
  ultimately have "mg_store (release_handle g m) ! lease_of m h = mg_store ?m ! lease_of m h"
    using idle_check_keeps [of ?m h "lease_of m g"] False same by (simp add: release_handle_released)
  moreover have "le_scope_closed (mg_store ?m ! lease_of m h) = le_scope_closed (mg_store m ! lease_of m h)"
    using live_not_idle(2) [OF inv live] releaseReference_effect by (auto simp: released_def Let_def)
  ultimately show ?thesis by simp
qed (simp add: release_handle_released)

lemma attach_keeps:
  assumes inv: "handles_inv m" and live: "live_handle m h"
  shows "le_scope_closed (mg_store (snd (attachReference i r oc m)) ! lease_of m h) = le_scope_closed (mg_store m ! lease_of m h)"
proof -
  have attached: "le_scope_closed (mg_store (attached i r l m) ! lease_of m h) = le_scope_closed (mg_store m ! lease_of m h)
      \<and> live_handle (attached i r l m) h \<and> lease_of (attached i r l m) h = lease_of m h"
    if "addReference (rf_kind r) (rf_id r) (mg_store m ! i) = (Inr (), l)" for l
    using addReference_effect [OF that] live_not_idle(2) [OF inv live] live by (auto simp: attached_def live_handle_def nth_append)
  show ?thesis
  proof (cases rule: attachReference_cases [of i r oc m])
    case (orphaned l)
    have "handles_inv (attached i r l m)" using handles_inv_attached [OF inv orphaned(1,2)] .
    moreover have "length (mg_handles m) \<noteq> h" using live by (simp add: live_handle_def)
    ultimately show ?thesis using attached [OF orphaned(2)] release_keeps [of "attached i r l m" h "length (mg_handles m)"] orphaned(4) by simp
  qed (use attached in auto)
qed

lemma finish_start_keeps:
  assumes inv: "handles_inv m" and live: "live_handle m h"
  shows "le_scope_closed (mg_store (finish_start s t client r sg oc m) ! lease_of m h) = le_scope_closed (mg_store m ! lease_of m h)"
proof -
  let ?i = "length (mg_store m)"
  let ?m = "m\<lparr>mg_store := mg_store m @ [lease_new t client], mg_leases := AList.update t ?i (mg_leases m),
    mg_starting := removeAll s (mg_starting m)\<rparr>"
  have bound: "lease_of m h < ?i" using live_not_idle(2) [OF inv live] .
  have m: "handles_inv ?m" "live_handle ?m h" "lease_of ?m h = lease_of m h" "mg_store ?m ! lease_of m h = mg_store m ! lease_of m h"
    using handles_inv_new_lease [OF inv] live bound by (simp_all add: live_handle_def nth_append)
  have "le_scope_closed (mg_store (snd (attachReference ?i r oc ?m)) ! lease_of m h) = le_scope_closed (mg_store m ! lease_of m h)"
    using attach_keeps [OF m(1,2), of ?i r oc] m(3,4) by simp
  moreover have "mg_store (update_lease ?i close_lease_scope m2) ! lease_of m h = mg_store m2 ! lease_of m h" for m2
    using bound by (simp add: update_lease_def)
  ultimately show ?thesis by (auto simp: finish_start_def fail_start_def Let_def split: prod.splits sum.splits)
qed

lemma lease_op_keeps: "foreign_op op \<Longrightarrow> i < length (mg_store m) \<Longrightarrow>
   le_scope_closed (mg_store (update_lease j (lease_step known op) m) ! i) = le_scope_closed (mg_store m ! i)"
  by (simp add: lease_foreign)

text \<open>
  Claim C24. A lease is not taken away from under its users: while a viewer or the queue holds a handle it has
  not released, no step of the manager closes the lease, except the disposal that a lost client asks for,
  closing that very thread, and closing the manager. Idle checks, other releases, other calls and anything
  that happens to the lease itself leave it open.
\<close>

theorem live_handle_keeps_lease_open:
  assumes "manager_new maximum = Inr m0" and "m = manager_run known ops m0" and "live_handle m h"
    and "\<not> le_scope_closed (mg_store m ! lease_of m h)"
    and "op \<noteq> M_release h" and "op \<noteq> M_dispose (lease_of m h)" and "op \<noteq> M_close_child (lease_of m h)"
    and "\<forall>reason. op \<noteq> M_closeThread (le_threadId (mg_store m ! lease_of m h)) reason"
  shows "\<not> le_scope_closed (mg_store (manager_step known op m) ! lease_of m h)"
proof -
  let ?i = "lease_of m h"
  have "handles_inv m0" using assms(1) by (auto simp: manager_new_def handles_inv_def Let_def split: if_splits)
  then have inv: "handles_inv m" using handles_inv_run assms(2) by blast
  have maps: "maps_inv m" using maps_inv_run [OF maps_inv_new [OF assms(1)]] assms(2) by simp
  note live = assms(3)
  note bound = live_not_idle(2) [OF inv live]
  show ?thesis
  proof (cases op)
    case (M_acquire t r)
    have "mg_store (manager_acquire t r m) = mg_store m"
      by (simp add: manager_acquire_def get_or_create_def begin_creation_def Let_def split: option.splits)
    then show ?thesis using assms(4) M_acquire by simp
  next
    case (M_acquire_resume a oc)
    have "le_scope_closed (mg_store (acquire_resume a oc m) ! ?i) = le_scope_closed (mg_store m ! ?i)"
      by (rule acquire_resume_keeps [where P = "\<lambda>x. le_scope_closed (mg_store x ! ?i) = le_scope_closed (mg_store m ! ?i)"])
        (simp_all add: attach_keeps [OF inv live] get_or_create_def begin_creation_def Let_def split: option.splits)
    then show ?thesis using assms(4) M_acquire_resume by simp
  next
    case (M_client_ready c answer)
    then show ?thesis using assms(4) bound by (simp add: client_ready_def Let_def nth_append split: creation.splits sum.splits)
  next
    case (M_start_initialized s answer sg oc)
    then show ?thesis using assms(4) finish_start_keeps [OF inv live]
      by (simp add: start_initialized_def fail_start_def split: starting.splits sum.splits option.splits)
  next
    case (M_start_resume s sg oc)
    then show ?thesis using assms(4) finish_start_keeps [OF inv live]
      by (simp add: start_resume_def fail_start_def split: starting.splits disposal.splits)
  next
    case (M_release g)
    then show ?thesis using assms(4,5) release_keeps [OF inv live, of g] by auto
  next
    case (M_lease j lop)
    then show ?thesis using assms(4) lease_op_keeps [where op = lop and i = ?i and m = m and j = j and known = known] bound by auto
  next
    case (M_dispose_if_idle j)
    then show ?thesis using assms(4) idle_check_keeps [OF inv live, of j] by simp
  next
    case (M_dispose j)
    then show ?thesis using assms(4,6) dispose_other [of j ?i m] bound by auto
  next
    case (M_closeThread t reason)
    have "map_of (mg_leases m) t \<noteq> Some ?i" using maps_invD(4) [OF maps, of t ?i] assms(8) M_closeThread by auto
    then show ?thesis using assms(4) M_closeThread bound by (auto simp: closeThread_def split: option.splits)
  next
    case (M_close_child j)
    then show ?thesis using assms(4,7) bound by (simp add: close_child_def)
  next
    case M_close
    then show ?thesis using assms(4) bound nth_mem by (auto simp: manager_close_def)
  qed (use assms(4) in \<open>simp_all add: creation_settles_def manager_start_def start_closed_def disposal_settles_def manager_scope_closing_def Let_def
      split: creation.splits option.splits disposal.splits starting.splits\<close>)
qed

section \<open>Witnesses\<close>

definition example_reference :: reference where
  "example_reference = \<lparr>rf_kind = RK_viewer, rf_id = ''s1''\<rparr>"

definition example_manager_ops :: "manager_op list" where
  "example_manager_ops = [M_acquire ''t1'' example_reference, M_acquire ''t1'' example_reference, M_client_ready 0 (Inr open_client),
     M_creation_settles 0, M_acquire_resume 0 False, M_acquire_resume 1 False, M_release 0, M_acquire ''t2'' example_reference]"

definition example_manager :: manager where
  "example_manager = manager_run (\<lambda>_ _. True) example_manager_ops (case manager_new (Some 1) of Inr m \<Rightarrow> m)"

lemma example_manager_new: "manager_new (Some 1) = Inr (case manager_new (Some 1) of Inr m \<Rightarrow> m)"
  by (simp add: manager_new_def safe_integer_def MAX_SAFE_INTEGER_def)

theorem one_open_lease_per_thread_witness:
  "length (mg_store example_manager) = 1 \<and> map_of (mg_leases example_manager) ''t1'' = Some 0"
proof
  have *: "length (mg_store example_manager) = 1" "\<not> le_scope_closed (mg_store example_manager ! 0)"
    "le_threadId (mg_store example_manager ! 0) = ''t1''" by code_simp+
  show "length (mg_store example_manager) = 1" by (rule *(1))
  show "map_of (mg_leases example_manager) ''t1'' = Some 0"
    using one_open_lease_per_thread [OF example_manager_new example_manager_def, of 0 0] * by simp
qed

theorem lease_capacity_is_respected_witness:
  "int (load example_manager) \<le> 1 \<and> mg_acquisitions example_manager ! 2 = Q_done (Inl (ThreadLeaseCapacityError 1))"
proof
  show "int (load example_manager) \<le> 1"
    using lease_capacity_is_respected [OF example_manager_new example_manager_def] by simp
  show "mg_acquisitions example_manager ! 2 = Q_done (Inl (ThreadLeaseCapacityError 1))" by code_simp
qed

theorem live_handle_keeps_lease_open_witness:
  "live_handle example_manager 1 \<and>
   \<not> le_scope_closed (mg_store (manager_step (\<lambda>_ _. True) (M_dispose_if_idle 0) example_manager) ! 0)"
proof
  have *: "live_handle example_manager 1" "lease_of example_manager 1 = 0" "\<not> le_scope_closed (mg_store example_manager ! 0)" by code_simp+
  show "live_handle example_manager 1" by (rule *(1))
  show "\<not> le_scope_closed (mg_store (manager_step (\<lambda>_ _. True) (M_dispose_if_idle 0) example_manager) ! 0)"
    using live_handle_keeps_lease_open [OF example_manager_new example_manager_def *(1), of "M_dispose_if_idle 0"] *(2,3) by simp
qed

end
