(* ===== verification/Queue_Service.thy ===== *)
theory Queue_Service
  imports Queue_Repository Thread_Lease
begin

text \<open>
  The dispatcher of the queue (\<open>apps/agent/src/v2/services/queue-service.ts\<close>) over the queue repository. A
  call of the dispatcher or of \<open>steer\<close> waits for the database, for the lease of the thread and for the
  app-server; each stretch between two waits is a step of the model, and the steps of different calls, of the
  user and of crashes come in any order. What the environment answers is an argument: whether a write to the
  state file failed, before or after it took effect, the state of the thread, the authorised workspace paths.
\<close>

section \<open>Calls and what they wait for\<close>

datatype q_call = Dispatch | Steer string string

text \<open>What a call needs of the synchronised thread.\<close>

record q_snapshot =
  sn_thread :: js
  sn_workspacePath :: string
  sn_state :: lease_state
  sn_currentTurnId :: "string option"

datatype q_phase =
    P_read
  | P_gate queue_record
  | P_check queue_record
  | P_pausing queue_record
  | P_acquire queue_record
  | P_sync queue_record
  | P_compare queue_record q_snapshot
  | P_claim queue_record q_snapshot
  | P_send queue_record delivery_identity "string option" bool
  | P_response delivery_identity
  | P_complete delivery_identity string
  | P_mark delivery_identity string
  | P_reread delivery_identity string
  | P_done "ce_error + bool"

record q_task =
  qt_call :: q_call
  qt_phase :: q_phase

datatype delivery_state = DS_delivering | DS_completed | DS_indeterminate | DS_paused

datatype q_event =
    QE_changed queue_record
  | QE_removed string
  | QE_delivery string string delivery_state

text \<open>A message that went to the app-server: the identity it was claimed under, and the request.\<close>

record q_message =
  qm_identity :: delivery_identity
  qm_method :: string
  qm_params :: js

text \<open>
  \<open>qs_calls\<close> is the list of the repository's transactions that took effect. The service's flag \<open>#draining\<close> is
  the dispatch that is under way.
\<close>

record q_service =
  qs_db :: user_db
  qs_started :: bool
  qs_draining :: "nat option"
  qs_tasks :: "q_task list"
  qs_sent :: "q_message list"
  qs_events :: "q_event list"
  qs_calls :: "queue_op list"

section \<open>Transactions\<close>

text \<open>
  What the state file makes of a transaction: it is committed; or the caller gets an error and the change
  has not, or has, taken effect.
\<close>

datatype write_fate = Committed | Failed_before | Failed_after

definition repository_call ::
  "write_fate \<Rightarrow> queue_op \<Rightarrow> (user_db, 'a) tx \<Rightarrow> q_service \<Rightarrow> (ce_error + 'a) \<times> q_service" where
  "repository_call fate op body s =
     (case fate of
        Failed_before \<Rightarrow> (Inl (Error ''State file could not be written''), s)
      | _ \<Rightarrow>
        (case run_tx body (qs_db s) of (result, db) \<Rightarrow>
           (if fate = Failed_after then Inl (Error ''State file could not be written'') else result,
            s\<lparr>qs_db := db, qs_calls := qs_calls s @ [op]\<rparr>)))"

definition emit_event :: "q_event \<Rightarrow> q_service \<Rightarrow> q_service" where
  "emit_event ev s = s\<lparr>qs_events := qs_events s @ [ev]\<rparr>"

definition deliveryEvent :: "queue_record \<Rightarrow> delivery_state \<Rightarrow> q_service \<Rightarrow> q_service" where
  "deliveryEvent item state s = emit_event (QE_delivery (qr_id item) (qr_threadId item) state) s"

section \<open>Delivery\<close>

definition hasExplicitThreadName :: "js \<Rightarrow> bool" where
  "hasExplicitThreadName thread = (case js_prop thread ''name'' of JStr n \<Rightarrow> js_trim n \<noteq> [] | _ \<Rightarrow> False)"

definition textInput :: "string \<Rightarrow> js" where
  "textInput txt = JArr [JObj [(''type'', JStr ''text''), (''text'', JStr txt), (''text_elements'', JArr [])]]"

definition responseTurnId :: "js \<Rightarrow> bool \<Rightarrow> ce_error + string" where
  "responseTurnId v nested =
     (case v of
        JObj fs \<Rightarrow>
          (case (nested, js_get fs ''turnId'', js_prop (js_get fs ''turn'') ''id'') of
             (False, JStr t, _) \<Rightarrow> if t \<noteq> [] then Inr t else Inl (Error ''Codex returned no turn ID'')
           | (True, _, JStr t) \<Rightarrow> Inr t
           | _ \<Rightarrow> Inl (Error ''Codex returned no turn ID''))
      | _ \<Rightarrow> Inl (Error ''Codex returned an invalid turn response''))"

definition queueUnavailable :: "string \<Rightarrow> ce_error" where
  "queueUnavailable itemId = GatewayV2Error ((gateway_v2_error ''QUEUE_STATE_CONFLICT'' ''Queue item is missing or no longer eligible'')\<lparr>
     ge_details := Some (JObj [(''issues'', JArr [JObj [(''path'', JArr [JStr ''itemId'']),
       (''code'', JStr (if itemId \<noteq> [] then ''stale'' else ''invalid''))]])])\<rparr>)"

definition outcome_unknown :: "string \<Rightarrow> ce_error" where
  "outcome_unknown message = GatewayV2Error (gateway_v2_error ''QUEUE_OUTCOME_UNKNOWN'' message)"

text \<open>The request that carries the item.\<close>

definition delivery_message :: "queue_record \<Rightarrow> delivery_identity \<Rightarrow> string option \<Rightarrow> ce_error + q_message" where
  "delivery_message item identity expectedTurnId =
     (if di_operation identity = ''turn/steer'' then
        (case expectedTurnId of
           None \<Rightarrow> Inl (Error ''Steer delivery has no active turn precondition'')
         | Some turn \<Rightarrow> Inr \<lparr>qm_identity = identity, qm_method = ''turn/steer'',
             qm_params = JObj [(''threadId'', JStr (di_threadId identity)), (''expectedTurnId'', JStr turn),
               (''input'', textInput (qr_text item)), (''clientUserMessageId'', JStr (di_clientUserMessageId identity))]\<rparr>)
      else Inr \<lparr>qm_identity = identity, qm_method = ''turn/start'',
        qm_params = JObj [(''threadId'', JStr (di_threadId identity)), (''cwd'', JStr (qr_workspacePath item)),
          (''input'', textInput (qr_text item)), (''clientUserMessageId'', JStr (di_clientUserMessageId identity))]\<rparr>)"

section \<open>One step of a call\<close>

text \<open>What the environment answers to the wait of a call.\<close>

datatype q_input =
    I_write write_fate string timestamp
  | I_ok
  | I_throw ce_error
  | I_snapshot q_snapshot
  | I_paths string string
  | I_closed
  | I_response js bool

definition may_not_reach :: string where
  "may_not_reach = ''Queue delivery may have reached Codex; automatic replay is disabled''"

definition not_committed :: string where
  "not_committed = ''Codex accepted the Queue item but its result was not committed''"

text \<open>An item is paused and the dispatch is over.\<close>

definition pause_step :: "write_fate \<Rightarrow> timestamp \<Rightarrow> queue_record \<Rightarrow> q_service \<Rightarrow> q_phase \<times> q_service" where
  "pause_step fate now current s =
     (case repository_call fate (QPause (qr_id current) now) (queue_pause (qr_id current) now) s of
        (Inl e, s') \<Rightarrow> (P_done (Inl e), s')
      | (Inr paused, s') \<Rightarrow> (P_done (Inr False), deliveryEvent paused DS_paused (emit_event (QE_changed paused) s')))"

definition read_step :: "q_call \<Rightarrow> q_service \<Rightarrow> q_phase" where
  "read_step call s =
     (case call of
        Dispatch \<Rightarrow> (case queue_nextPending (qs_db s) of
            Inl e \<Rightarrow> P_done (Inl e) | Inr None \<Rightarrow> P_done (Inr False) | Inr (Some current) \<Rightarrow> P_gate current)
      | Steer i _ \<Rightarrow> (case queue_get i (qs_db s) of
            Inl e \<Rightarrow> P_done (Inl e) | Inr None \<Rightarrow> P_done (Inl (queueUnavailable i)) | Inr (Some current) \<Rightarrow> P_check current))"

text \<open>After the workspace paths have been compared: what the state of the thread allows.\<close>

definition decide :: "q_call \<Rightarrow> queue_record \<Rightarrow> q_snapshot \<Rightarrow> q_phase" where
  "decide call current snapshot =
     (case call of
        Dispatch \<Rightarrow>
          if sn_state snapshot = LS_running \<or> sn_state snapshot = LS_waiting_input then P_done (Inr False)
          else if sn_state snapshot \<noteq> LS_idle then P_pausing current
          else P_claim current snapshot
      | Steer _ _ \<Rightarrow> P_claim current snapshot)"

definition workspace_changed :: ce_error where
  "workspace_changed = GatewayV2Error (gateway_v2_error ''WORKSPACE_CHANGED'' ''The task workspace changed after this Queue item was created'')"

definition steer_unavailable :: ce_error where
  "steer_unavailable = GatewayV2Error (gateway_v2_error ''QUEUE_STEER_UNAVAILABLE'' ''The task has no active turn that can be steered'')"

definition synced :: "q_call \<Rightarrow> queue_record \<Rightarrow> q_snapshot \<Rightarrow> q_phase" where
  "synced call current snapshot =
     (case call of
        Dispatch \<Rightarrow> P_compare current snapshot
      | Steer _ _ \<Rightarrow>
          if sn_state snapshot \<noteq> LS_running \<or> sn_currentTurnId snapshot = None then P_done (Inl steer_unavailable)
          else P_compare current snapshot)"

definition is_conflict :: "ce_error \<Rightarrow> bool" where
  "is_conflict e = (case e of QueueStateConflictError _ _ \<Rightarrow> True | _ \<Rightarrow> False)"

definition claim_step ::
  "q_call \<Rightarrow> write_fate \<Rightarrow> string \<Rightarrow> timestamp \<Rightarrow> queue_record \<Rightarrow> q_snapshot \<Rightarrow> q_service \<Rightarrow> q_phase \<times> q_service" where
  "claim_step call fate messageId now current snapshot s =
     (let operation = (case call of Dispatch \<Rightarrow> ''turn/start'' | Steer _ _ \<Rightarrow> ''turn/steer'');
          replacement = (case call of Dispatch \<Rightarrow> None | Steer _ txt \<Rightarrow> Some txt) in
      case repository_call fate (QClaim (qr_id current) (qr_revision current) operation replacement messageId now)
             (queue_claim (qr_id current) (qr_revision current) operation replacement messageId now) s of
        (Inl e, s') \<Rightarrow>
          (P_done (case call of
             Dispatch \<Rightarrow> if is_conflict e then Inr False else Inl e
           | Steer i _ \<Rightarrow> if is_conflict e then Inl (queueUnavailable i) else Inl e), s')
      | (Inr (item, identity), s') \<Rightarrow>
          (P_send item identity (case call of Dispatch \<Rightarrow> None | Steer _ _ \<Rightarrow> sn_currentTurnId snapshot)
             (\<not> hasExplicitThreadName (sn_thread snapshot)),
           deliveryEvent item DS_delivering s'))"

text \<open>
  \<open>#deliver\<close> up to its wait. The observations are made outside its \<open>try\<close>: when the lease is closed, or the
  turn to observe has no id, the call is over with their error and the claim stays as it is. Later the lease
  refuses the request inside the \<open>try\<close>.
\<close>

definition observation_error :: "bool \<Rightarrow> delivery_identity \<Rightarrow> string option \<Rightarrow> bool \<Rightarrow> ce_error option" where
  "observation_error lease_closed identity expectedTurnId autoTitleEligible =
     (if di_operation identity = ''turn/steer'' then
        (case expectedTurnId of
           Some turn \<Rightarrow>
             if \<not> autoTitleEligible then None
             else if lease_closed then Some (Error ''Thread lease is closed'')
             else if turn = [] then Some (Error ''Turn ID is empty'') else None
         | None \<Rightarrow> None)
      else if lease_closed then Some (Error ''Thread lease is closed'') else None)"

definition send_step ::
  "bool \<Rightarrow> queue_record \<Rightarrow> delivery_identity \<Rightarrow> string option \<Rightarrow> bool \<Rightarrow> q_service \<Rightarrow> q_phase \<times> q_service" where
  "send_step lease_closed item identity expectedTurnId autoTitleEligible s =
     (case observation_error lease_closed identity expectedTurnId autoTitleEligible of
        Some e \<Rightarrow> (P_done (Inl e), s)
      | None \<Rightarrow>
        (case delivery_message item identity expectedTurnId of
           Inl e \<Rightarrow> (P_mark identity may_not_reach, s)
         | Inr message \<Rightarrow>
             if lease_closed then (P_mark identity may_not_reach, s)
             else (P_response identity, s\<lparr>qs_sent := qs_sent s @ [message]\<rparr>)))"

text \<open>The answer, and whether the lease refuses to note the turn that was started.\<close>

definition response_step :: "ce_error + js \<Rightarrow> bool \<Rightarrow> delivery_identity \<Rightarrow> q_phase" where
  "response_step answer lease_closed identity =
     (let steer = (di_operation identity = ''turn/steer'') in
      case bind_result answer (\<lambda>v. responseTurnId v (\<not> steer)) of
        Inl e \<Rightarrow> P_mark identity may_not_reach
      | Inr turnId \<Rightarrow>
          if \<not> steer \<and> (lease_closed \<or> turnId = []) then P_mark identity may_not_reach
          else P_complete identity turnId)"

definition complete_step :: "write_fate \<Rightarrow> timestamp \<Rightarrow> delivery_identity \<Rightarrow> string \<Rightarrow> q_service \<Rightarrow> q_phase \<times> q_service" where
  "complete_step fate now identity turnId s =
     (case repository_call fate (QComplete identity turnId now) (queue_complete identity turnId now) s of
        (Inl e, s') \<Rightarrow> (P_mark identity not_committed, s')
      | (Inr item, s') \<Rightarrow> (P_done (Inr True), deliveryEvent item DS_completed (emit_event (QE_changed item) s')))"

text \<open>The item as it is after the repair decides what is reported.\<close>

definition repaired_step :: "queue_record \<Rightarrow> string \<Rightarrow> q_service \<Rightarrow> q_phase \<times> q_service" where
  "repaired_step item message s =
     (let s1 = emit_event (QE_changed item) s in
      if qr_status item = QS_completed then (P_done (Inr True), deliveryEvent item DS_completed s1)
      else (P_done (Inl (outcome_unknown message)), deliveryEvent item DS_indeterminate s1))"

definition mark_step :: "write_fate \<Rightarrow> timestamp \<Rightarrow> delivery_identity \<Rightarrow> string \<Rightarrow> q_service \<Rightarrow> q_phase \<times> q_service" where
  "mark_step fate now identity message s =
     (case repository_call fate (QMark identity now) (queue_markIndeterminate identity now) s of
        (Inl e, s') \<Rightarrow> (P_reread identity message, s')
      | (Inr item, s') \<Rightarrow> repaired_step item message s')"

definition reread_step :: "delivery_identity \<Rightarrow> string \<Rightarrow> q_service \<Rightarrow> q_phase \<times> q_service" where
  "reread_step identity message s =
     (case queue_get (di_queueItemId identity) (qs_db s) of
        Inl e \<Rightarrow> (P_done (Inl e), s)
      | Inr None \<Rightarrow> (P_done (Inl (Error ''Queue item disappeared after external delivery'')), s)
      | Inr (Some item) \<Rightarrow> repaired_step item message s)"

text \<open>One step; an answer that does not fit the wait changes nothing.\<close>

definition task_step :: "q_call \<Rightarrow> q_phase \<Rightarrow> q_input \<Rightarrow> q_service \<Rightarrow> q_phase \<times> q_service" where
  "task_step call phase inp s =
     (case phase of
        P_read \<Rightarrow> (case inp of I_ok \<Rightarrow> (read_step call s, s) | I_throw e \<Rightarrow> (P_done (Inl e), s) | _ \<Rightarrow> (phase, s))
      | P_gate current \<Rightarrow> (case inp of I_ok \<Rightarrow> (P_check current, s) | I_throw e \<Rightarrow> (P_done (Inl e), s) | _ \<Rightarrow> (phase, s))
      | P_check current \<Rightarrow>
          (case inp of I_ok \<Rightarrow> (P_acquire current, s)
           | I_throw e \<Rightarrow> (case call of Dispatch \<Rightarrow> (P_pausing current, s) | Steer _ _ \<Rightarrow> (P_done (Inl e), s))
           | _ \<Rightarrow> (phase, s))
      | P_pausing current \<Rightarrow> (case inp of I_write fate _ now \<Rightarrow> pause_step fate now current s | _ \<Rightarrow> (phase, s))
      | P_acquire current \<Rightarrow> (case inp of I_ok \<Rightarrow> (P_sync current, s) | I_throw e \<Rightarrow> (P_done (Inl e), s) | _ \<Rightarrow> (phase, s))
      | P_sync current \<Rightarrow>
          (case inp of I_snapshot snapshot \<Rightarrow> (synced call current snapshot, s)
           | I_throw e \<Rightarrow> (case call of Dispatch \<Rightarrow> (P_done (Inr False), s) | Steer _ _ \<Rightarrow> (P_done (Inl e), s))
           | _ \<Rightarrow> (phase, s))
      | P_compare current snapshot \<Rightarrow>
          (case inp of
             I_paths queued now_path \<Rightarrow>
               if queued = now_path then (decide call current snapshot, s)
               else (case call of Dispatch \<Rightarrow> (P_pausing current, s) | Steer _ _ \<Rightarrow> (P_done (Inl workspace_changed), s))
           | I_throw e \<Rightarrow> (case call of Dispatch \<Rightarrow> (P_pausing current, s) | Steer _ _ \<Rightarrow> (P_done (Inl e), s))
           | _ \<Rightarrow> (phase, s))
      | P_claim current snapshot \<Rightarrow>
          (case inp of I_write fate messageId now \<Rightarrow> claim_step call fate messageId now current snapshot s | _ \<Rightarrow> (phase, s))
      | P_send item identity turn eligible_title \<Rightarrow>
          (case inp of I_ok \<Rightarrow> send_step False item identity turn eligible_title s
           | I_closed \<Rightarrow> send_step True item identity turn eligible_title s | _ \<Rightarrow> (phase, s))
      | P_response identity \<Rightarrow>
          (case inp of I_response v closed \<Rightarrow> (response_step (Inr v) closed identity, s)
           | I_throw e \<Rightarrow> (response_step (Inl e) False identity, s) | _ \<Rightarrow> (phase, s))
      | P_complete identity turnId \<Rightarrow> (case inp of I_write fate _ now \<Rightarrow> complete_step fate now identity turnId s | _ \<Rightarrow> (phase, s))
      | P_mark identity message \<Rightarrow> (case inp of I_write fate _ now \<Rightarrow> mark_step fate now identity message s | _ \<Rightarrow> (phase, s))
      | P_reread identity message \<Rightarrow>
          (case inp of I_ok \<Rightarrow> reread_step identity message s | I_throw e \<Rightarrow> (P_done (Inl e), s) | _ \<Rightarrow> (phase, s))
      | P_done r \<Rightarrow> (phase, s))"

section \<open>The service\<close>

definition service_new :: "user_db \<Rightarrow> q_service" where
  "service_new db = \<lparr>qs_db = db, qs_started = False, qs_draining = None, qs_tasks = [], qs_sent = [], qs_events = [], qs_calls = []\<rparr>"

definition dispatchOnce :: "q_service \<Rightarrow> q_service" where
  "dispatchOnce s =
     (if \<not> qs_started s \<or> qs_draining s \<noteq> None then s
      else s\<lparr>qs_draining := Some (length (qs_tasks s)), qs_tasks := qs_tasks s @ [\<lparr>qt_call = Dispatch, qt_phase = P_read\<rparr>]\<rparr>)"

definition service_start :: "write_fate \<Rightarrow> timestamp \<Rightarrow> q_service \<Rightarrow> q_service" where
  "service_start fate now s =
     (if qs_started s then s
      else case repository_call fate (QRecover now) (queue_recoverDelivering now) s of
        (Inl e, s') \<Rightarrow> s'
      | (Inr n, s') \<Rightarrow> dispatchOnce (s'\<lparr>qs_started := True\<rparr>))"

text \<open>The last part of \<open>add\<close>, once the workspace of the thread has been resolved.\<close>

definition service_add :: "write_fate \<Rightarrow> string \<Rightarrow> string \<Rightarrow> string \<Rightarrow> string \<Rightarrow> timestamp \<Rightarrow> q_service \<Rightarrow> q_service" where
  "service_add fate i path thread txt now s =
     (case repository_call fate (QAdd i path thread txt now) (queue_add i path thread txt now) s of
        (Inl e, s') \<Rightarrow> s' | (Inr item, s') \<Rightarrow> dispatchOnce (emit_event (QE_changed item) s'))"

definition service_remove :: "write_fate \<Rightarrow> string \<Rightarrow> q_service \<Rightarrow> q_service" where
  "service_remove fate i s =
     (case repository_call fate (QRemove i) (queue_remove i) s of
        (Inl e, s') \<Rightarrow> s' | (Inr gone, s') \<Rightarrow> if gone then emit_event (QE_removed i) s' else s')"

definition service_steer :: "string \<Rightarrow> string \<Rightarrow> q_service \<Rightarrow> q_service" where
  "service_steer i txt s = s\<lparr>qs_tasks := qs_tasks s @ [\<lparr>qt_call = Steer i txt, qt_phase = P_read\<rparr>]\<rparr>"

definition service_acknowledge :: "write_fate \<Rightarrow> string \<Rightarrow> disposition \<Rightarrow> string \<Rightarrow> timestamp \<Rightarrow> q_service \<Rightarrow> (ce_error + queue_record) \<times> q_service" where
  "service_acknowledge fate i d auditId now s =
     (case repository_call fate (QAcknowledge i d auditId now) (queue_acknowledgeIndeterminate i d auditId now) s of
        (Inl e, s') \<Rightarrow> (Inl (if is_conflict e then queueUnavailable i else e), s')
      | (Inr item, s') \<Rightarrow>
          let s1 = emit_event (QE_changed item) s' in (Inr item, if d = Retry then dispatchOnce s1 else s1))"

text \<open>A call takes a step; the flag \<open>#draining\<close> is reset when its dispatch is over.\<close>

definition advance :: "nat \<Rightarrow> q_input \<Rightarrow> q_service \<Rightarrow> q_service" where
  "advance k inp s =
     (if length (qs_tasks s) \<le> k then s
      else case task_step (qt_call (qs_tasks s ! k)) (qt_phase (qs_tasks s ! k)) inp s of
        (phase, s') \<Rightarrow>
          s'\<lparr>qs_tasks := (qs_tasks s')[k := (qs_tasks s ! k)\<lparr>qt_phase := phase\<rparr>],
             qs_draining := (if (case phase of P_done _ \<Rightarrow> True | _ \<Rightarrow> False) \<and> qs_draining s' = Some k then None else qs_draining s')\<rparr>)"

text \<open>A crash of the process loses the calls; the database file and what was sent stay.\<close>

definition crash :: "q_service \<Rightarrow> q_service" where
  "crash s = s\<lparr>qs_started := False, qs_draining := None, qs_tasks := []\<rparr>"

datatype service_op =
    V_start write_fate timestamp
  | V_dispatch
  | V_add write_fate string string string string timestamp
  | V_remove write_fate string
  | V_steer string string
  | V_acknowledge write_fate string disposition string timestamp
  | V_advance nat q_input
  | V_crash

fun service_step :: "service_op \<Rightarrow> q_service \<Rightarrow> q_service" where
  "service_step (V_start fate now) s = service_start fate now s"
| "service_step V_dispatch s = dispatchOnce s"
| "service_step (V_add fate i path thread txt now) s = service_add fate i path thread txt now s"
| "service_step (V_remove fate i) s = service_remove fate i s"
| "service_step (V_steer i txt) s = service_steer i txt s"
| "service_step (V_acknowledge fate i d audit now) s = snd (service_acknowledge fate i d audit now s)"
| "service_step (V_advance k inp) s = advance k inp s"
| "service_step V_crash s = crash s"

fun service_run :: "service_op list \<Rightarrow> q_service \<Rightarrow> q_service" where
  "service_run [] s = s"
| "service_run (op # ops) s = service_run ops (service_step op s)"

section \<open>No item is sent twice\<close>

definition sent :: "string \<Rightarrow> q_service \<Rightarrow> nat" where
  "sent i s = t_count (\<lambda>m. di_queueItemId (qm_identity m) = i) (qs_sent s)"

fun about_to_send :: "string \<Rightarrow> q_phase \<Rightarrow> nat" where
  "about_to_send i (P_send item identity turn eligible_title) = (if di_queueItemId identity = i then 1 else 0)"
| "about_to_send i _ = 0"

definition sending :: "string \<Rightarrow> q_service \<Rightarrow> nat" where
  "sending i s = sum_list (map (\<lambda>t. about_to_send i (qt_phase t)) (qs_tasks s))"

abbreviation claims_made :: "string \<Rightarrow> user_db \<Rightarrow> q_service \<Rightarrow> nat" where
  "claims_made i db s \<equiv> successes (is_claim i) (qs_calls s) db"

text \<open>The database is the result of the transactions that took effect, in order.\<close>

definition recorded_calls :: "user_db \<Rightarrow> q_service \<Rightarrow> bool" where
  "recorded_calls db s \<longleftrightarrow> qs_db s = queue_run (qs_calls s) db"

lemma queue_run_append: "queue_run (xs @ ys) db = queue_run ys (queue_run xs db)"
  by (induction xs arbitrary: db) simp_all

lemma successes_append: "successes p (xs @ ys) db = successes p xs db + successes p ys (queue_run xs db)"
  by (induction xs arbitrary: db) (simp_all split: prod.splits)

lemma repository_call_effect:
  assumes "repository_call fate op body s = (r, s')" and "\<And>db. queue_exec op db = returns (run_tx body db)" and "recorded_calls db0 s"
  shows "recorded_calls db0 s' \<and> qs_tasks s' = qs_tasks s \<and> qs_sent s' = qs_sent s \<and>
    (\<forall>i. claims_made i db0 s + (if is_claim i op \<and> \<not> isl r then 1 else 0) \<le> claims_made i db0 s')"
proof (cases "fate = Failed_before")
  case True
  then show ?thesis using assms(1,3) by (auto simp: repository_call_def)
next
  case False
  obtain x db where tx: "run_tx body (qs_db s) = (x, db)" by fastforce
  then have s': "s' = s\<lparr>qs_db := db, qs_calls := qs_calls s @ [op]\<rparr>" "\<not> isl r \<Longrightarrow> \<not> isl x"
    using assms(1) False by (auto simp: repository_call_def split: write_fate.splits)
  have "queue_exec op (qs_db s) = (\<not> isl x, db)" using assms(2) tx by (simp add: returns_def)
  then show ?thesis using s' assms(3) by (auto simp: recorded_calls_def queue_run_append successes_append)
qed

text \<open>Events do not touch what is counted.\<close>

lemma emit_frames [simp]:
  "qs_db (emit_event ev s) = qs_db s" "qs_calls (emit_event ev s) = qs_calls s" "qs_tasks (emit_event ev s) = qs_tasks s"
  "qs_sent (emit_event ev s) = qs_sent s" "qs_db (deliveryEvent item st s) = qs_db s" "qs_calls (deliveryEvent item st s) = qs_calls s"
  "qs_tasks (deliveryEvent item st s) = qs_tasks s" "qs_sent (deliveryEvent item st s) = qs_sent s"
  by (simp_all add: emit_event_def deliveryEvent_def)

text \<open>
  A step balances: what is sent or about to be sent grows no faster than the claims that were made.
\<close>

definition balanced :: "user_db \<Rightarrow> q_service \<Rightarrow> q_phase \<Rightarrow> q_service \<times> q_phase \<Rightarrow> bool" where
  "balanced db s phase x = (case x of (s', phase') \<Rightarrow>
     recorded_calls db s' \<and> qs_tasks s' = qs_tasks s \<and>
     (\<forall>i. sent i s' + about_to_send i phase' + claims_made i db s \<le> sent i s + about_to_send i phase + claims_made i db s'))"

lemma balanced_quiet: "recorded_calls db s \<Longrightarrow> (\<And>i. about_to_send i phase' = 0) \<Longrightarrow> balanced db s phase (s, phase')"
  by (simp add: balanced_def)

lemma balanced_stay: "recorded_calls db s \<Longrightarrow> balanced db s phase (s, phase)"
  by (simp add: balanced_def)

lemma balanced_call:
  assumes "repository_call fate op body s = (r, s')" and "\<And>db. queue_exec op db = returns (run_tx body db)" and "recorded_calls db s"
    and "qs_db t = qs_db s'" "qs_calls t = qs_calls s'" "qs_tasks t = qs_tasks s'" "qs_sent t = qs_sent s'"
    and "\<And>i. about_to_send i phase' \<le> (if is_claim i op \<and> \<not> isl r then 1 else 0)"
  shows "balanced db s phase (t, phase')"
proof -
  have *: "recorded_calls db s'" "qs_tasks s' = qs_tasks s" "qs_sent s' = qs_sent s"
    and le: "\<And>i. claims_made i db s + (if is_claim i op \<and> \<not> isl r then 1 else 0) \<le> claims_made i db s'"
    using repository_call_effect [OF assms(1-3)] by blast+
  have "sent i t + about_to_send i phase' + claims_made i db s \<le> sent i s + about_to_send i phase + claims_made i db t" for i
    using le [of i] assms(8) [of i] *(3) assms(5,7) by (simp add: sent_def)
  then show ?thesis using * assms(4-6) by (simp add: balanced_def recorded_calls_def)
qed

lemma quiet_phases [simp]:
  "about_to_send i (read_step call s) = 0" "about_to_send i (synced call current snapshot) = 0"
  "about_to_send i (decide call current snapshot) = 0" "about_to_send i (response_step answer closed identity) = 0"
  by (simp_all add: read_step_def synced_def decide_def response_step_def Let_def split: q_call.splits sum.splits option.splits)

lemma balanced_pause: "recorded_calls db s \<Longrightarrow> pause_step fate now current s = (phase', s') \<Longrightarrow> balanced db s phase (s', phase')"
  by (auto simp: pause_step_def intro!: balanced_call split: prod.splits sum.splits)

lemma balanced_complete: "recorded_calls db s \<Longrightarrow> complete_step fate now identity turnId s = (phase', s') \<Longrightarrow> balanced db s phase (s', phase')"
  by (auto simp: complete_step_def intro!: balanced_call split: prod.splits sum.splits)

lemma balanced_mark: "recorded_calls db s \<Longrightarrow> mark_step fate now identity message s = (phase', s') \<Longrightarrow> balanced db s phase (s', phase')"
  by (auto simp: mark_step_def repaired_step_def Let_def intro!: balanced_call split: prod.splits sum.splits if_splits)

lemma queue_claim_item:
  assumes "queue_claim i revision operation replacement message now db = Inr ((item, identity), db')"
  shows "di_queueItemId identity = i \<and> di_operation identity = operation \<and> di_clientUserMessageId identity = message"
proof -
  obtain cur where cur: "readQueue db i = Inr (Some cur)"
    using assms by (auto simp: queue_claim_def bind_result_Inr split: option.splits)
  have c: "qr_id cur = i" by (rule readQueue_Some [OF cur])
  have "identity = \<lparr>di_queueItemId = i, di_operation = operation, di_threadId = qr_threadId cur, di_clientUserMessageId = message\<rparr>"
    using assms unfolding queue_claim_def cur
    by (simp add: Let_def bind_result_def c split: if_splits) (clarsimp split: sum.splits option.splits)
  then show ?thesis by simp
qed

lemma repository_call_Inr:
  "repository_call fate op body s = (Inr r, s') \<Longrightarrow> fate = Committed \<and> body (qs_db s) = Inr (r, qs_db s')"
  by (auto simp: repository_call_def run_tx_def split: write_fate.splits sum.splits prod.splits)

lemma balanced_claim:
  assumes "recorded_calls db s" and step: "claim_step call fate message now current snapshot s = (phase', s')"
  shows "balanced db s phase (s', phase')"
proof -
  let ?operation = "case call of Dispatch \<Rightarrow> ''turn/start'' | Steer _ _ \<Rightarrow> ''turn/steer''"
  let ?replacement = "case call of Dispatch \<Rightarrow> None | Steer _ txt \<Rightarrow> Some txt"
  let ?op = "QClaim (qr_id current) (qr_revision current) ?operation ?replacement message now"
  let ?body = "queue_claim (qr_id current) (qr_revision current) ?operation ?replacement message now"
  obtain r s1 where c: "repository_call fate ?op ?body s = (r, s1)" by fastforce
  show ?thesis
  proof (cases r)
    case (Inl e)
    show ?thesis by (rule balanced_call [OF c]) (use step c Inl assms(1) in \<open>auto simp: claim_step_def Let_def\<close>)
  next
    case (Inr x)
    obtain item identity where x: "x = (item, identity)" by (cases x)
    have "?body (qs_db s) = Inr ((item, identity), qs_db s1)" using repository_call_Inr [of fate ?op ?body s x s1] c Inr x by simp
    then have "di_queueItemId identity = qr_id current" using queue_claim_item by blast
    then show ?thesis by (intro balanced_call [OF c]) (use step c Inr x assms(1) in \<open>auto simp: claim_step_def Let_def\<close>)
  qed
qed

lemma delivery_message_identity: "delivery_message item identity turn = Inr m \<Longrightarrow> qm_identity m = identity"
  by (auto simp: delivery_message_def split: if_splits option.splits)

lemma balanced_send:
  "recorded_calls db s \<Longrightarrow> send_step closed item identity turn eligible_title s = (phase', s') \<Longrightarrow>
     balanced db s (P_send item identity turn eligible_title) (s', phase')"
  by (auto simp: send_step_def balanced_def recorded_calls_def sent_def dest: delivery_message_identity
      split: option.splits sum.splits if_splits)

lemma balanced_reread: "recorded_calls db s \<Longrightarrow> reread_step identity message s = (phase', s') \<Longrightarrow> balanced db s phase (s', phase')"
  by (auto simp: reread_step_def repaired_step_def Let_def balanced_def recorded_calls_def sent_def split: sum.splits option.splits if_splits)

lemma balanced_step:
  assumes "recorded_calls db s" and "task_step call phase inp s = (phase', s')"
  shows "balanced db s phase (s', phase')"
proof (cases phase)
  case (P_pausing current)
  then show ?thesis using assms by (cases inp) (auto simp: task_step_def intro: balanced_pause balanced_quiet)
next
  case (P_claim current snapshot)
  then show ?thesis using assms by (cases inp) (auto simp: task_step_def intro: balanced_claim balanced_quiet)
next
  case (P_send item identity turn et)
  then show ?thesis using assms by (cases inp) (auto simp: task_step_def intro: balanced_send balanced_stay)
next
  case (P_complete identity turnId)
  then show ?thesis using assms by (cases inp) (auto simp: task_step_def intro: balanced_complete balanced_quiet)
next
  case (P_mark identity message)
  then show ?thesis using assms by (cases inp) (auto simp: task_step_def intro: balanced_mark balanced_quiet)
next
  case (P_reread identity message)
  then show ?thesis using assms by (cases inp) (auto simp: task_step_def intro: balanced_reread balanced_quiet)
qed (use assms in \<open>cases inp; auto simp: task_step_def intro!: balanced_quiet split: q_call.splits if_splits\<close>)+

definition sends_inv :: "user_db \<Rightarrow> q_service \<Rightarrow> bool" where
  "sends_inv db s \<longleftrightarrow> recorded_calls db s \<and> (\<forall>i. sent i s + sending i s \<le> claims_made i db s)"

lemma sum_list_update_task:
  assumes "k < length ts"
  shows "sum_list (map f (ts[k := t])) + f (ts ! k) = sum_list (map f ts) + (f t :: nat)"
  using assms by (induction ts arbitrary: k) (auto simp: nth_Cons split: nat.splits)

lemma balance_arith:
  "(a' :: nat) + p = a + p' \<Longrightarrow> s' + p' + c \<le> s + p + c' \<Longrightarrow> s + a \<le> c \<Longrightarrow> s' + a' \<le> c'"
  by arith

lemma sends_inv_advance:
  assumes "sends_inv db s"
  shows "sends_inv db (advance k inp s)"
proof (cases "k < length (qs_tasks s)")
  case True
  let ?t = "qs_tasks s ! k"
  obtain phase' s' where st: "task_step (qt_call ?t) (qt_phase ?t) inp s = (phase', s')" by fastforce
  have bal: "balanced db s (qt_phase ?t) (s', phase')" using balanced_step [OF _ st] assms by (simp add: sends_inv_def)
  let ?a = "advance k inp s"
  have a: "qs_tasks ?a = (qs_tasks s)[k := ?t\<lparr>qt_phase := phase'\<rparr>]" "qs_sent ?a = qs_sent s'" "qs_calls ?a = qs_calls s'" "qs_db ?a = qs_db s'"
    using True st bal by (simp_all add: advance_def balanced_def)
  have "sending i ?a + about_to_send i (qt_phase ?t) = sending i s + about_to_send i phase'" for i
    using sum_list_update_task [OF True, of "\<lambda>t. about_to_send i (qt_phase t)" "?t\<lparr>qt_phase := phase'\<rparr>"] by (simp add: sending_def a(1))
  moreover have "sent i ?a + about_to_send i phase' + claims_made i db s \<le> sent i s + about_to_send i (qt_phase ?t) + claims_made i db ?a" for i
    using bal by (simp add: balanced_def sent_def a)
  moreover have "sent i s + sending i s \<le> claims_made i db s" for i using assms by (simp add: sends_inv_def)
  ultimately have "sent i ?a + sending i ?a \<le> claims_made i db ?a" for i
    by (rule balance_arith)
  then show ?thesis using bal by (simp add: sends_inv_def balanced_def recorded_calls_def a)
qed (simp add: advance_def assms)

lemma sends_inv_call:
  assumes "sends_inv db s" and "repository_call fate op body s = (r, s')" and "\<And>db. queue_exec op db = returns (run_tx body db)"
  shows "sends_inv db s'"
proof -
  have "recorded_calls db s" using assms(1) by (simp add: sends_inv_def)
  note eff = repository_call_effect [OF assms(2,3) this]
  have "sent i s' + sending i s' \<le> claims_made i db s'" for i
  proof -
    have "sent i s' + sending i s' = sent i s + sending i s" using eff by (simp add: sent_def sending_def)
    also have "\<dots> \<le> claims_made i db s" using assms(1) by (simp add: sends_inv_def)
    also have "\<dots> \<le> claims_made i db s'" using eff by (meson add_leD1)
    finally show ?thesis .
  qed
  then show ?thesis using eff by (simp add: sends_inv_def)
qed

lemma sends_inv_quiet [simp]:
  "sends_inv db (emit_event ev s) = sends_inv db s" "sends_inv db (s\<lparr>qs_started := b\<rparr>) = sends_inv db s"
  by (simp_all add: sends_inv_def recorded_calls_def sent_def sending_def)

lemma sends_inv_dispatch: "sends_inv db s \<Longrightarrow> sends_inv db (dispatchOnce s)"
  by (simp add: dispatchOnce_def sends_inv_def recorded_calls_def sent_def sending_def)

lemma sends_inv_crash: "sends_inv db s \<Longrightarrow> sends_inv db (crash s)"
  by (auto simp: crash_def sends_inv_def recorded_calls_def sent_def sending_def intro: add_leD1)

lemma sends_inv_step: "sends_inv db s \<Longrightarrow> sends_inv db (service_step op s)"
proof -
  assume inv: "sends_inv db s"
  note call = sends_inv_call [OF inv]
  show ?thesis
  proof (cases op)
    case (V_start fate now)
    then show ?thesis using inv call [of fate "QRecover now" "queue_recoverDelivering now"]
      by (auto simp: service_start_def intro!: sends_inv_dispatch split: prod.splits sum.splits)
  next
    case (V_add fate i path thread msg now)
    then show ?thesis using call [of fate "QAdd i path thread msg now" "queue_add i path thread msg now"]
      by (auto simp: service_add_def intro!: sends_inv_dispatch split: prod.splits sum.splits)
  next
    case (V_remove fate i)
    then show ?thesis using call [of fate "QRemove i" "queue_remove i"]
      by (auto simp: service_remove_def split: prod.splits sum.splits)
  next
    case (V_acknowledge fate i d audit now)
    then show ?thesis using call [of fate "QAcknowledge i d audit now" "queue_acknowledgeIndeterminate i d audit now"]
      by (auto simp: service_acknowledge_def Let_def intro!: sends_inv_dispatch split: prod.splits sum.splits)
  next
    case (V_steer i msg)
    then show ?thesis using inv by (simp add: service_steer_def sends_inv_def recorded_calls_def sent_def sending_def)
  qed (use inv in \<open>simp_all add: sends_inv_dispatch sends_inv_advance sends_inv_crash\<close>)
qed

lemma sends_inv_run: "sends_inv db s \<Longrightarrow> sends_inv db (service_run ops s)"
  by (induction ops arbitrary: s) (simp_all add: sends_inv_step)

lemma sends_inv_new: "sends_inv db (service_new db)"
  by (simp add: sends_inv_def service_new_def recorded_calls_def sent_def sending_def)

text \<open>
  Claim C17. The queue never sends an item twice on its own: whatever the dispatcher, steering calls, the user
  and the app-server do, in any interleaving, with writes to the state file that fail before or after they
  take effect and with crashes of the agent at any moment, the messages that left for an item are at most as
  many as the user's decisions to retry it, and one more only while a claim for it is on record.
\<close>

theorem queue_never_resends:
  assumes "queue_inv db" and "snd (qview db i) = None" and "s = service_run ops (service_new db)"
  shows "sent i s \<le> successes (is_retry i) (qs_calls s) db + claimed_now i (qs_db s)"
proof -
  have inv: "sends_inv db s" using sends_inv_run [OF sends_inv_new] assms(3) by simp
  have "sent i s \<le> claims_made i db s" using inv by (metis sends_inv_def add_leD1)
  also have "\<dots> = successes (is_retry i) (qs_calls s) db + claimed_now i (queue_run (qs_calls s) db)"
    using claims_balance [OF assms(1), of i "qs_calls s"] assms(2) by (simp add: claimed_now_def)
  finally show ?thesis using inv by (simp add: sends_inv_def recorded_calls_def)
qed

section \<open>A delivery that is stranded\<close>

text \<open>
  The observation of the start response is made after the claim and outside the \<open>try\<close> that repairs a failed
  delivery. If the lease is closed between the two, the call ends with an error, nothing was sent, and the
  item stays in delivery under its claim.
\<close>

lemma closed_lease_strands_delivery:
  assumes "k < length (qs_tasks s)" and "qs_tasks s ! k = \<lparr>qt_call = Dispatch, qt_phase = P_send item identity turn et\<rparr>"
    and "di_operation identity = ''turn/start''"
  shows "qs_tasks (advance k I_closed s) ! k = \<lparr>qt_call = Dispatch, qt_phase = P_done (Inl (Error ''Thread lease is closed''))\<rparr> \<and>
    qs_db (advance k I_closed s) = qs_db s \<and> qs_sent (advance k I_closed s) = qs_sent s"
  using assms by (simp add: advance_def task_step_def send_step_def observation_error_def)

section \<open>Witnesses\<close>

definition example_snapshot :: q_snapshot where
  "example_snapshot = \<lparr>sn_thread = JObj [], sn_workspacePath = ''/srv/app'', sn_state = LS_idle, sn_currentTurnId = None\<rparr>"

definition example_dispatch :: "service_op list" where
  "example_dispatch = [V_start Committed 1, V_advance 0 I_ok, V_add Committed ''q1'' ''/srv/app'' ''t1'' ''hello'' 10,
     V_advance 1 I_ok, V_advance 1 I_ok, V_advance 1 I_ok, V_advance 1 I_ok, V_advance 1 (I_snapshot example_snapshot),
     V_advance 1 (I_paths ''/srv/app'' ''/srv/app''), V_advance 1 (I_write Committed ''m1'' 11), V_advance 1 I_ok,
     V_advance 1 (I_throw (Error ''socket closed'')), V_advance 1 (I_write Failed_before ''-'' 12), V_crash, V_start Committed 13]"

theorem queue_never_resends_witness:
  "sent ''q1'' (service_run example_dispatch (service_new (empty_user_db 0))) = 1 \<and>
   sent ''q1'' (service_run example_dispatch (service_new (empty_user_db 0))) \<le>
     successes (is_retry ''q1'') (qs_calls (service_run example_dispatch (service_new (empty_user_db 0)))) (empty_user_db 0) +
     claimed_now ''q1'' (qs_db (service_run example_dispatch (service_new (empty_user_db 0))))"
proof
  show "sent ''q1'' (service_run example_dispatch (service_new (empty_user_db 0))) = 1" by code_simp
  have "snd (qview (empty_user_db 0) ''q1'') = None" by (simp add: qview_def empty_user_db_def)
  from queue_never_resends [OF empty_queue_inv this refl]
  show "sent ''q1'' (service_run example_dispatch (service_new (empty_user_db 0))) \<le>
     successes (is_retry ''q1'') (qs_calls (service_run example_dispatch (service_new (empty_user_db 0)))) (empty_user_db 0) +
     claimed_now ''q1'' (qs_db (service_run example_dispatch (service_new (empty_user_db 0))))" .
qed

end
