(* ===== verification/Kernel_Actor.thy ===== *)
theory Kernel_Actor
  imports CE_Prelude
begin

text \<open>
  The actor of the kernel package (\<open>packages/kernel/src/actor.ts\<close>): an external store whose pure
  reducer may start asynchronous effects, each bound to the generation in which it was started.
  The second half runs an actor together with the effects in flight and states the contract between
  a reducer and its effects as a locale; the actors of the web client interpret it.
\<close>

section \<open>State and operations\<close>

text \<open>
  A reducer returns the state it was given or a new object; the actor notifies its listeners only
  in the second case, so the two are kept apart. A missing \<open>effects\<close> field is the empty list and a
  missing \<open>preserveEffects\<close> is \<open>False\<close>: the actor treats them alike.
\<close>

datatype 'st nextst = Same | New 'st

record ('st, 'ef) transition =
  tr_state :: "'st nextst"
  tr_effects :: "'ef list"
  tr_preserve :: bool

type_synonym ('st, 'ev, 'ef) reducer = "'st \<Rightarrow> 'ev \<Rightarrow> ('st, 'ef) transition"

fun next_state :: "'st \<Rightarrow> 'st nextst \<Rightarrow> 'st" where
  "next_state s Same = s"
| "next_state s (New s') = s'"

definition keep :: "('st, 'ef) transition" where
  "keep = \<lparr>tr_state = Same, tr_effects = [], tr_preserve = True\<rparr>"

definition preserve :: "'st \<Rightarrow> ('st, 'ef) transition" where
  "preserve s = \<lparr>tr_state = New s, tr_effects = [], tr_preserve = True\<rparr>"

definition become :: "'st \<Rightarrow> 'ef list \<Rightarrow> ('st, 'ef) transition" where
  "become s effects = \<lparr>tr_state = New s, tr_effects = effects, tr_preserve = False\<rparr>"

lemmas transition_defs = keep_def preserve_def become_def

text \<open>
  Effect scopes are objects compared by identity: they are numbered in the order of creation.
  \<open>a_aborted\<close> holds the scopes whose signal is aborted, \<open>a_scope_closed\<close> says that the actor's own
  scope has been closed (by \<open>close\<close> or by its parent), after which \<open>fork\<close> throws.
\<close>

record 'st actor =
  a_name :: string
  a_state :: 'st
  a_generation :: nat
  a_effect_scope :: "nat option"
  a_next_scope :: nat
  a_aborted :: "nat list"
  a_listeners :: "nat list"
  a_scope_closed :: bool
  a_closed :: bool

text \<open>An effect in flight: the effect with the generation and the scope of its context.\<close>

type_synonym 'ef flight = "'ef \<times> nat \<times> nat"

definition actor_new :: "string \<Rightarrow> bool \<Rightarrow> string \<Rightarrow> 'st \<Rightarrow> ce_error + 'st actor" where
  "actor_new parent parent_closed name initial =
     (if parent_closed then Inl (ScopeClosedError parent)
      else Inr \<lparr>a_name = parent @ ''/'' @ name, a_state = initial, a_generation = 0,
        a_effect_scope = None, a_next_scope = 0, a_aborted = [], a_listeners = [],
        a_scope_closed = False, a_closed = False\<rparr>)"

definition actor_subscribe :: "nat \<Rightarrow> 'st actor \<Rightarrow> ce_error + 'st actor" where
  "actor_subscribe l a =
     (if a_closed a then Inl (ScopeClosedError (a_name a))
      else Inr (a\<lparr>a_listeners := (if l \<in> set (a_listeners a) then a_listeners a
                                 else a_listeners a @ [l])\<rparr>))"

definition actor_unsubscribe :: "nat \<Rightarrow> 'st actor \<Rightarrow> 'st actor" where
  "actor_unsubscribe l a = a\<lparr>a_listeners := removeAll l (a_listeners a)\<rparr>"

definition abort_effects :: "'st actor \<Rightarrow> 'st actor" where
  "abort_effects a =
     (case a_effect_scope a of None \<Rightarrow> a | Some sc \<Rightarrow> a\<lparr>a_aborted := sc # a_aborted a\<rparr>)"

text \<open>
  \<open>dispatch\<close>: the result is the error thrown or the effects started, the listeners notified, and
  the new actor. The generation is advanced and the state replaced before \<open>fork\<close> can throw.
\<close>

definition actor_dispatch ::
  "('st, 'ev, 'ef) reducer \<Rightarrow> 'ev \<Rightarrow> 'st actor \<Rightarrow>
   (ce_error + 'ef flight list) \<times> nat list \<times> 'st actor" where
  "actor_dispatch reducer ev a =
     (if a_closed a then (Inl (ScopeClosedError (a_name a)), [], a)
      else let t = reducer (a_state a) ev in
        if tr_preserve t \<and> tr_effects t \<noteq> []
        then (Inl (Error ''A preserved actor transition cannot start effects''), [], a)
        else let
          a1 = (if tr_preserve t then a
                else (abort_effects a)\<lparr>a_generation := Suc (a_generation a),
                                       a_effect_scope := None\<rparr>);
          a2 = (case tr_state t of Same \<Rightarrow> a1 | New s \<Rightarrow> a1\<lparr>a_state := s\<rparr>);
          notified = (case tr_state t of Same \<Rightarrow> [] | New s \<Rightarrow> a_listeners a)
        in
          if tr_effects t = [] then (Inr [], notified, a2)
          else if a_scope_closed a2 then (Inl (ScopeClosedError (a_name a)), notified, a2)
          else let sc = a_next_scope a2 in
            (Inr (map (\<lambda>ef. (ef, a_generation a2, sc)) (tr_effects t)), notified,
             a2\<lparr>a_effect_scope := Some sc, a_next_scope := Suc sc\<rparr>))"

definition is_current :: "nat \<times> nat \<Rightarrow> 'st actor \<Rightarrow> bool" where
  "is_current ctx a \<longleftrightarrow>
     \<not> a_closed a \<and> snd ctx \<notin> set (a_aborted a) \<and> fst ctx = a_generation a \<and>
     a_effect_scope a = Some (snd ctx)"

text \<open>The \<open>dispatch\<close> of an effect's context: ignored unless the context is current.\<close>

definition context_dispatch ::
  "('st, 'ev, 'ef) reducer \<Rightarrow> nat \<times> nat \<Rightarrow> 'ev \<Rightarrow> 'st actor \<Rightarrow>
   (ce_error + 'ef flight list) \<times> nat list \<times> 'st actor" where
  "context_dispatch reducer ctx ev a =
     (if is_current ctx a then actor_dispatch reducer ev a else (Inr [], [], a))"

definition actor_close :: "'st actor \<Rightarrow> 'st actor" where
  "actor_close a =
     (if a_closed a then a
      else (abort_effects a)\<lparr>a_closed := True, a_generation := Suc (a_generation a),
             a_listeners := [], a_scope_closed := True\<rparr>)"

text \<open>The parent scope closes the actor's scope, which aborts the live effect scope.\<close>

definition actor_scope_close :: "'st actor \<Rightarrow> 'st actor" where
  "actor_scope_close a = (abort_effects a)\<lparr>a_scope_closed := True\<rparr>"

section \<open>An actor with its effects in flight\<close>

type_synonym ('st, 'ef) system = "'st actor \<times> 'ef flight list"

fun started :: "ce_error + 'ef flight list \<Rightarrow> 'ef flight list" where
  "started (Inl e) = []"
| "started (Inr fs) = fs"

text \<open>
  The steps of the system: an event from outside, an effect in flight that ends by dispatching an
  event through its context, an effect that ends without one (it is of a kind that does so, or its
  context is stale and it sees the abort), and the changes of listeners and scope. \<open>external\<close>,
  \<open>completes\<close> and \<open>silent\<close> describe the actor's events and its effect runner.
\<close>

inductive sys_step ::
  "('st, 'ev, 'ef) reducer \<Rightarrow> ('ev \<Rightarrow> bool) \<Rightarrow> ('ef \<Rightarrow> 'ev \<Rightarrow> bool) \<Rightarrow> ('ef \<Rightarrow> bool) \<Rightarrow>
   ('st, 'ef) system \<Rightarrow> ('st, 'ef) system \<Rightarrow> bool"
  for reducer external completes silent where
  external_event: "external ev \<Longrightarrow> actor_dispatch reducer ev a = (r, ns, a') \<Longrightarrow>
    sys_step reducer external completes silent (a, fs) (a', fs @ started r)"
| effect_event: "f \<in> set fs \<Longrightarrow> completes (fst f) ev \<Longrightarrow>
    context_dispatch reducer (snd f) ev a = (r, ns, a') \<Longrightarrow>
    sys_step reducer external completes silent (a, fs) (a', remove1 f fs @ started r)"
| effect_silent: "f \<in> set fs \<Longrightarrow> silent (fst f) \<or> \<not> is_current (snd f) a \<Longrightarrow>
    sys_step reducer external completes silent (a, fs) (a, remove1 f fs)"
| subscribe: "actor_subscribe l a = Inr a' \<Longrightarrow>
    sys_step reducer external completes silent (a, fs) (a', fs)"
| unsubscribe: "sys_step reducer external completes silent (a, fs) (actor_unsubscribe l a, fs)"
| close: "sys_step reducer external completes silent (a, fs) (actor_close a, fs)"
| scope_close: "sys_step reducer external completes silent (a, fs) (actor_scope_close a, fs)"

text \<open>A finite run of the system.\<close>

inductive sys_run ::
  "('st, 'ev, 'ef) reducer \<Rightarrow> ('ev \<Rightarrow> bool) \<Rightarrow> ('ef \<Rightarrow> 'ev \<Rightarrow> bool) \<Rightarrow> ('ef \<Rightarrow> bool) \<Rightarrow>
   ('st, 'ef) system \<Rightarrow> ('st, 'ef) system \<Rightarrow> bool"
  for reducer external completes silent where
  run_refl: "sys_run reducer external completes silent x x"
| run_step: "sys_run reducer external completes silent x y \<Longrightarrow>
    sys_step reducer external completes silent y z \<Longrightarrow>
    sys_run reducer external completes silent x z"

text \<open>The effects whose context is still current.\<close>

definition live :: "'st actor \<Rightarrow> 'ef flight list \<Rightarrow> 'ef list" where
  "live a fs = map fst (filter (\<lambda>f. is_current (snd f) a) fs)"

section \<open>Single operations\<close>

lemma abort_effects_simps [simp]:
  "a_state (abort_effects a) = a_state a" "a_generation (abort_effects a) = a_generation a"
  "a_effect_scope (abort_effects a) = a_effect_scope a" "a_next_scope (abort_effects a) = a_next_scope a"
  "a_listeners (abort_effects a) = a_listeners a" "a_closed (abort_effects a) = a_closed a"
  "a_scope_closed (abort_effects a) = a_scope_closed a" "a_name (abort_effects a) = a_name a"
  "set (a_aborted a) \<subseteq> set (a_aborted (abort_effects a))"
  by (auto simp: abort_effects_def split: option.splits)

text \<open>What a dispatch on an open actor does, case by case.\<close>

lemma dispatch_preserve:
  assumes "\<not> a_closed a" "tr_preserve (reducer (a_state a) ev)" "tr_effects (reducer (a_state a) ev) = []"
  shows "snd (snd (actor_dispatch reducer ev a)) =
      a\<lparr>a_state := next_state (a_state a) (tr_state (reducer (a_state a) ev))\<rparr>"
    and "fst (actor_dispatch reducer ev a) = Inr []"
  using assms by (auto simp: actor_dispatch_def Let_def split: nextst.splits)

lemma dispatch_state:
  assumes "\<not> a_closed a" "\<not> (tr_preserve (reducer (a_state a) ev) \<and> tr_effects (reducer (a_state a) ev) \<noteq> [])"
  shows "a_state (snd (snd (actor_dispatch reducer ev a))) =
      next_state (a_state a) (tr_state (reducer (a_state a) ev))"
  using assms by (auto simp: actor_dispatch_def Let_def split: nextst.splits)

lemma dispatch_supersede:
  assumes "\<not> a_closed a" "\<not> a_scope_closed a" "\<not> tr_preserve (reducer (a_state a) ev)"
    "actor_dispatch reducer ev a = (r, ns, a')"
  shows "r = Inr (map (\<lambda>ef. (ef, Suc (a_generation a), a_next_scope a)) (tr_effects (reducer (a_state a) ev)))"
    and "a_generation a' = Suc (a_generation a)"
    and "a_effect_scope a' =
      (if tr_effects (reducer (a_state a) ev) = [] then None else Some (a_next_scope a))"
    and "a_aborted a' = a_aborted (abort_effects a)"
    and "a_closed a' = False" and "a_scope_closed a' = False"
  using assms by (auto simp: actor_dispatch_def Let_def split: if_splits nextst.splits)

lemma dispatch_frame:
  assumes "actor_dispatch reducer ev a = (r, ns, a')"
  shows "a_next_scope a \<le> a_next_scope a'" "set (a_aborted a) \<subseteq> set (a_aborted a')"
    "a_closed a' = a_closed a" "a_scope_closed a' = a_scope_closed a"
  using assms
  by (auto simp: actor_dispatch_def Let_def abort_effects_def
    split: if_splits nextst.splits option.splits)

lemma dispatch_scope_or_fresh:
  assumes "actor_dispatch reducer ev a = (r, ns, a')" "a_effect_scope a' = Some sc"
  shows "a_effect_scope a = Some sc \<and> a_generation a' = a_generation a \<or> sc = a_next_scope a"
  using assms
  by (auto simp: actor_dispatch_def Let_def abort_effects_def
    split: if_splits nextst.splits option.splits)

section \<open>Stale contexts\<close>

lemma dispatch_keeps_stale:
  assumes "actor_dispatch reducer ev a = (r, ns, a')"
    and "sc < a_next_scope a" and "\<not> is_current (g, sc) a"
  shows "sc < a_next_scope a' \<and> \<not> is_current (g, sc) a'"
  using dispatch_frame [OF assms(1)] dispatch_scope_or_fresh [OF assms(1)] assms(2,3)
  by (auto simp: is_current_def)

lemma step_keeps_stale:
  assumes "sys_step reducer external completes silent (a, fs) (a', fs')"
    and "sc < a_next_scope a" and "\<not> is_current (g, sc) a"
  shows "sc < a_next_scope a' \<and> \<not> is_current (g, sc) a'"
  using assms
proof (cases rule: sys_step.cases)
  case (external_event ev r ns)
  then show ?thesis using dispatch_keeps_stale [OF external_event(3) assms(2,3)] by simp
next
  case (effect_event f ev r ns)
  then show ?thesis
    using dispatch_keeps_stale [OF _ assms(2,3), of reducer ev r ns a'] assms(2,3)
    by (auto simp: context_dispatch_def split: if_splits)
qed (auto simp: is_current_def actor_subscribe_def actor_unsubscribe_def actor_close_def
      actor_scope_close_def abort_effects_def split: if_splits option.splits)

lemma run_keeps_stale:
  assumes "sys_run reducer external completes silent x y"
    and "sc < a_next_scope (fst x)" and "\<not> is_current (g, sc) (fst x)"
  shows "sc < a_next_scope (fst y) \<and> \<not> is_current (g, sc) (fst y)"
  using assms
proof (induction rule: sys_run.induct)
  case (run_step x y z)
  then show ?case
    using step_keeps_stale [of reducer external completes silent "fst y" "snd y" "fst z" "snd z" sc g]
    by simp
qed simp

section \<open>The contract between a reducer and its effects\<close>

text \<open>
  \<open>good s L\<close> relates the state to the effects that are still live: for the actors of the web client
  it says that a state which shows work in progress has a live effect that will end it. The
  assumptions are one obligation per kind of step; the locale lifts them to every reachable state
  of the actor. \<open>no_start\<close> is the contract of \<open>dispatch\<close>: it throws on a preserved transition that
  starts effects, and so it never does for these reducers.
\<close>

definition live_after :: "('st, 'ef) transition \<Rightarrow> 'ef list \<Rightarrow> 'ef list" where
  "live_after t L = (if tr_preserve t then L else tr_effects t)"

locale effect_protocol =
  fixes reducer :: "('st, 'ev, 'ef) reducer"
    and external :: "'ev \<Rightarrow> bool"
    and completes :: "'ef \<Rightarrow> 'ev \<Rightarrow> bool"
    and silent :: "'ef \<Rightarrow> bool"
    and initial :: 'st
    and good :: "'st \<Rightarrow> 'ef list \<Rightarrow> bool"
  assumes good_initial: "good initial []"
    and no_start: "tr_preserve (reducer s ev) \<Longrightarrow> tr_effects (reducer s ev) = []"
    and good_external: "good s L \<Longrightarrow> external ev \<Longrightarrow>
      good (next_state s (tr_state (reducer s ev))) (live_after (reducer s ev) L)"
    and good_effect: "good s L \<Longrightarrow> ef \<in> set L \<Longrightarrow> completes ef ev \<Longrightarrow>
      good (next_state s (tr_state (reducer s ev))) (live_after (reducer s ev) (remove1 ef L))"
    and good_silent: "good s L \<Longrightarrow> ef \<in> set L \<Longrightarrow> silent ef \<Longrightarrow> good s (remove1 ef L)"
begin

abbreviation step :: "('st, 'ef) system \<Rightarrow> ('st, 'ef) system \<Rightarrow> bool" where
  "step \<equiv> sys_step reducer external completes silent"

abbreviation run :: "('st, 'ef) system \<Rightarrow> ('st, 'ef) system \<Rightarrow> bool" where
  "run \<equiv> sys_run reducer external completes silent"

text \<open>The structural invariant: scopes in use were handed out, and the live one is not aborted.\<close>

definition flights_ok :: "('st, 'ef) system \<Rightarrow> bool" where
  "flights_ok x \<longleftrightarrow>
     (\<forall>f \<in> set (snd x). snd (snd f) < a_next_scope (fst x)) \<and>
     (\<forall>sc \<in> set (a_aborted (fst x)). sc < a_next_scope (fst x)) \<and>
     (\<forall>sc. a_effect_scope (fst x) = Some sc \<longrightarrow> sc < a_next_scope (fst x))"

definition sys_inv :: "('st, 'ef) system \<Rightarrow> bool" where
  "sys_inv x \<longleftrightarrow> flights_ok x \<and>
     (\<not> a_closed (fst x) \<and> \<not> a_scope_closed (fst x) \<longrightarrow> good (a_state (fst x)) (live (fst x) (snd x)))"

lemma dispatch_never_throws_protocol:
  "\<not> a_closed a \<Longrightarrow> \<not> a_scope_closed a \<Longrightarrow> \<exists>fs. fst (actor_dispatch reducer ev a) = Inr fs"
  using no_start [of "a_state a" ev]
  by (auto simp: actor_dispatch_def Let_def split: nextst.splits)

text \<open>All live effects have one context, so removing a flight removes one effect.\<close>

lemma live_remove1_current:
  "is_current (snd f) a \<Longrightarrow> live a (remove1 f fs) = remove1 (fst f) (live a fs)"
proof (induction fs)
  case Nil
  then show ?case by (simp add: live_def)
next
  case (Cons f' fs)
  have "fst f = fst f' \<Longrightarrow> is_current (snd f') a \<Longrightarrow> f = f'"
    using Cons.prems by (auto simp: is_current_def prod_eq_iff)
  then show ?case using Cons by (auto simp: live_def)
qed

lemma live_remove1_stale: "\<not> is_current (snd f) a \<Longrightarrow> live a (remove1 f fs) = live a fs"
  by (simp add: live_def filter_remove1 remove1_idem)

lemma live_member: "f \<in> set fs \<Longrightarrow> is_current (snd f) a \<Longrightarrow> fst f \<in> set (live a fs)"
  by (force simp: live_def)

lemma live_dispatch:
  assumes ok: "flights_ok (a, fs)" and opened: "\<not> a_closed a" "\<not> a_scope_closed a"
    and d: "actor_dispatch reducer ev a = (r, ns, a')"
  shows "live a' (fs @ started r) = live_after (reducer (a_state a) ev) (live a fs)"
proof (cases "tr_preserve (reducer (a_state a) ev)")
  case True
  with dispatch_preserve [of a reducer ev] no_start opened d
  have "r = Inr []" and "\<And>ctx. is_current ctx a' = is_current ctx a"
    by (auto simp: is_current_def)
  with True show ?thesis by (simp add: live_def live_after_def)
next
  case False
  note D = dispatch_supersede [OF opened False d]
  have old: "\<not> is_current (snd f) a'" if "f \<in> set fs" for f
    using ok that D(3) by (auto simp: is_current_def flights_ok_def split: if_splits)
  have "a_next_scope a \<notin> set (a_aborted a')"
    using ok D(4) by (fastforce simp: flights_ok_def abort_effects_def split: option.splits)
  then have new: "is_current (Suc (a_generation a), a_next_scope a) a'"
    if "tr_effects (reducer (a_state a) ev) \<noteq> []"
    using that D by (simp add: is_current_def)
  have "filter (\<lambda>f. is_current (snd f) a') fs = []"
    using old by (simp add: filter_empty_conv)
  moreover have "filter (\<lambda>f. is_current (snd f) a') (started r) = started r"
    using D(1) new by (cases "tr_effects (reducer (a_state a) ev) = []") (auto simp: filter_id_conv)
  ultimately show ?thesis
    using False D(1) by (simp add: live_def live_after_def comp_def)
qed

lemma dispatch_flights_ok:
  assumes ok: "flights_ok (a, fs)" and d: "actor_dispatch reducer ev a = (r, ns, a')"
  shows "flights_ok (a', fs @ started r)"
proof -
  have "\<forall>f \<in> set (started r). snd (snd f) = a_next_scope a \<and> a_next_scope a' = Suc (a_next_scope a)"
    using d by (auto simp: actor_dispatch_def Let_def split: if_splits nextst.splits)
  moreover have "\<forall>sc \<in> set (a_aborted a'). sc < a_next_scope a'"
    and "\<forall>sc. a_effect_scope a' = Some sc \<longrightarrow> sc < a_next_scope a'"
    using d ok by (auto simp: actor_dispatch_def Let_def flights_ok_def abort_effects_def
      less_Suc_eq split: if_splits nextst.splits option.splits)
  ultimately show ?thesis
    using ok dispatch_frame(1) [OF d] by (fastforce simp: flights_ok_def)
qed

lemma flights_ok_remove1: "flights_ok (a, fs) \<Longrightarrow> flights_ok (a, remove1 f fs)"
  using set_remove1_subset by (fastforce simp: flights_ok_def)

lemma dispatch_sys_inv:
  assumes "flights_ok (a, fs)" and d: "actor_dispatch reducer ev a = (r, ns, a')"
    and "\<not> a_closed a \<Longrightarrow> \<not> a_scope_closed a \<Longrightarrow>
      good (next_state (a_state a) (tr_state (reducer (a_state a) ev)))
           (live_after (reducer (a_state a) ev) (live a fs))"
  shows "sys_inv (a', fs @ started r)"
proof -
  have "a_state a' = next_state (a_state a) (tr_state (reducer (a_state a) ev))" if "\<not> a_closed a"
    using dispatch_state [OF that, of reducer ev] no_start d by auto
  then show ?thesis
    using assms dispatch_flights_ok [OF assms(1) d] live_dispatch [OF assms(1) _ _ d]
      dispatch_frame(3,4) [OF d]
    by (auto simp: sys_inv_def)
qed

lemma step_sys_inv: "step x y \<Longrightarrow> sys_inv x \<Longrightarrow> sys_inv y"
proof (induction rule: sys_step.induct)
  case (external_event ev a r ns a' fs)
  then show ?case
    using good_external by (intro dispatch_sys_inv) (auto simp: sys_inv_def)
next
  case (effect_event f fs ev a r ns a')
  show ?case
  proof (cases "is_current (snd f) a")
    case True
    then have d: "actor_dispatch reducer ev a = (r, ns, a')"
      using effect_event.hyps(3) by (simp add: context_dispatch_def)
    have "flights_ok (a, remove1 f fs)"
      using effect_event.prems flights_ok_remove1 by (simp add: sys_inv_def)
    then show ?thesis
      using d effect_event good_effect live_member [OF effect_event.hyps(1) True]
        live_remove1_current [OF True]
      by (intro dispatch_sys_inv) (auto simp: sys_inv_def)
  next
    case False
    then show ?thesis
      using effect_event flights_ok_remove1 [of a fs f]
      by (auto simp: context_dispatch_def sys_inv_def live_remove1_stale)
  qed
next
  case (effect_silent f fs a)
  then show ?case
    using flights_ok_remove1 [of a fs f] good_silent live_member [OF effect_silent.hyps(1), of a]
      live_remove1_current [of f a fs] live_remove1_stale [of f a fs]
    by (cases "is_current (snd f) a") (auto simp: sys_inv_def)
qed (auto simp: sys_inv_def flights_ok_def live_def is_current_def actor_subscribe_def
      actor_unsubscribe_def actor_close_def actor_scope_close_def abort_effects_def
      split: if_splits option.splits)

text \<open>The invariant holds in every state a new actor can reach.\<close>

lemma run_sys_inv: "run x y \<Longrightarrow> sys_inv x \<Longrightarrow> sys_inv y"
  by (induction rule: sys_run.induct) (auto intro: step_sys_inv)

lemma new_sys_inv: "actor_new p False n initial = Inr a \<Longrightarrow> sys_inv (a, [])"
  by (auto simp: actor_new_def sys_inv_def flights_ok_def live_def good_initial)

lemma reachable_good:
  assumes "actor_new p False n initial = Inr a" and "run (a, []) (a', fs)"
    and "\<not> a_closed a'" "\<not> a_scope_closed a'"
  shows "good (a_state a') (live a' fs)"
  using run_sys_inv [OF assms(2) new_sys_inv [OF assms(1)]] assms(3,4) by (simp add: sys_inv_def)

end

section \<open>Superseded effects\<close>

lemma supersede_makes_stale:
  assumes "\<not> tr_preserve (reducer (a_state a) ev)" "actor_dispatch reducer ev a = (r, ns, a')"
    and "\<not> a_closed a" "sc < a_next_scope a"
  shows "sc < a_next_scope a' \<and> \<not> is_current (g, sc) a'"
  using assms
  by (auto simp: actor_dispatch_def Let_def is_current_def split: if_splits nextst.splits)

lemma stale_dispatch_ignored: "\<not> is_current ctx a \<Longrightarrow> context_dispatch reducer ctx ev a = (Inr [], [], a)"
  by (simp add: context_dispatch_def)

text \<open>Extending a run by one event from outside.\<close>

lemma run_external:
  assumes "sys_run reducer external completes silent x (a, fs)" "external ev"
    "actor_dispatch reducer ev a = (r, ns, a')"
  shows "sys_run reducer external completes silent x (a', fs @ started r)"
  using assms by (blast intro: sys_run.run_step sys_step.external_event)

end
