(* ===== verification/Web_Timeline.thy ===== *)
theory Web_Timeline
  imports CE_Prelude
begin

text \<open>
  The timeline window of the web client (\<open>apps/web/src/v4/actors/thread-timeline-model.ts\<close>): how a
  page of earlier history and a refreshed latest page are merged into the items on screen.
\<close>

section \<open>Data\<close>

datatype thread_state = TS_idle | TS_running | TS_waiting_input | TS_failed

datatype timeline_item_type =
    TI_message | TI_plan | TI_command | TI_file_change | TI_mcp | TI_subagent | TI_error | TI_generic

record timeline_item =
  ti_id :: string
  ti_turn_id :: "string option"
  ti_type :: timeline_item_type
  ti_created_at :: "timestamp option"
  ti_data :: "(string \<times> js) list"

record interaction =
  ia_id :: string
  ia_thread_id :: string
  ia_turn_id :: "string option"
  ia_kind :: string
  ia_request_method :: string
  ia_created_at :: timestamp
  ia_payload :: "(string \<times> js) list"

record thread_settings =
  ts_revision :: int
  ts_model :: "string option"
  ts_effort :: "string option"
  ts_sandbox :: "string option"
  ts_approval_policy :: "string option"

record context_usage =
  cu_turn_id :: string
  cu_current_tokens :: int
  cu_cumulative_tokens :: int
  cu_model_context_window :: "int option"

record thread_summary =
  th_id :: string
  th_workspace_id :: string
  th_title :: string
  th_state :: thread_state
  th_archived :: bool
  th_created_at :: timestamp
  th_updated_at :: timestamp

record snapshot =
  sn_thread :: thread_summary
  sn_working_directory :: "string option"
  sn_state :: thread_state
  sn_items :: "timeline_item list"
  sn_interactions :: "interaction list"
  sn_history_cursor :: "string option"
  sn_has_earlier_history :: bool
  sn_settings :: thread_settings
  sn_context_usage :: "context_usage option"
  sn_compaction_count :: "int option"

record history_page =
  hp_items :: "timeline_item list"
  hp_next_cursor :: "string option"
  hp_has_more :: bool

definition TIMELINE_PAGE_SIZE :: int where "TIMELINE_PAGE_SIZE = 50"
definition TIMELINE_TURN_PAGE_SIZE :: int where "TIMELINE_TURN_PAGE_SIZE = 3"

section \<open>Operations\<close>

text \<open>The loop of \<open>deduplicateKeepingLast\<close>: it walks the items from the last to the first.\<close>

fun dedup_back :: "timeline_item list \<Rightarrow> string set \<Rightarrow> timeline_item list" where
  "dedup_back [] seen = []"
| "dedup_back (item # items) seen =
     (if ti_id item \<in> seen then dedup_back items seen
      else item # dedup_back items (insert (ti_id item) seen))"

definition deduplicateKeepingLast :: "timeline_item list \<Rightarrow> timeline_item list" where
  "deduplicateKeepingLast items = rev (dedup_back (rev items) {})"

definition mergeTimelinePages :: "timeline_item list \<Rightarrow> timeline_item list \<Rightarrow> timeline_item list" where
  "mergeTimelinePages earlier later =
     filter (\<lambda>item. ti_id item \<notin> ti_id ` set later) earlier @ deduplicateKeepingLast later"

definition hasOverlap :: "timeline_item list \<Rightarrow> timeline_item list \<Rightarrow> bool" where
  "hasOverlap current authoritative =
     list_ex (\<lambda>item. ti_id item \<in> ti_id ` set current) authoritative"

definition isTransientGenericItem :: "timeline_item \<Rightarrow> bool" where
  "isTransientGenericItem item \<longleftrightarrow>
     ti_type item = TI_generic \<and> js_get (ti_data item) ''source'' = JStr ''codex/generic''"

definition prependAuthoritativeHistoryPage :: "snapshot \<Rightarrow> history_page \<Rightarrow> snapshot" where
  "prependAuthoritativeHistoryPage snapshot page =
     snapshot\<lparr>sn_items := mergeTimelinePages (hp_items page) (sn_items snapshot),
       sn_history_cursor := hp_next_cursor page,
       sn_has_earlier_history := hp_has_more page\<rparr>"

definition replaceAuthoritativeTimelineWindow :: "snapshot option \<Rightarrow> snapshot \<Rightarrow> snapshot" where
  "replaceAuthoritativeTimelineWindow current authoritative =
     (case current of None \<Rightarrow> authoritative
      | Some cur \<Rightarrow>
          if th_id (sn_thread cur) \<noteq> th_id (sn_thread authoritative) then authoritative
          else let transient = filter isTransientGenericItem (sn_items cur) in
            if transient = [] then authoritative
            else authoritative\<lparr>sn_items := mergeTimelinePages (sn_items authoritative) transient\<rparr>)"

text \<open>
  \<open>findIndex\<close> followed by \<open>slice(0, boundary)\<close>: the items before the first one that is also on the
  authoritative page. There is such an item, since the overlap was tested before.
\<close>

definition mergeAuthoritativeTimelineWindow ::
  "snapshot option \<Rightarrow> snapshot \<Rightarrow> string list \<Rightarrow> snapshot" where
  "mergeAuthoritativeTimelineWindow current authoritative loadedHistoryItemIds =
     (case current of None \<Rightarrow> authoritative
      | Some cur \<Rightarrow>
          if th_id (sn_thread cur) \<noteq> th_id (sn_thread authoritative) then authoritative
          else if \<not> hasOverlap (sn_items cur) (sn_items authoritative)
          then replaceAuthoritativeTimelineWindow current authoritative
          else if loadedHistoryItemIds = []
          then replaceAuthoritativeTimelineWindow current authoritative
          else let
            authoritativeIds = ti_id ` set (sn_items authoritative);
            retainedEarlier = takeWhile (\<lambda>item. ti_id item \<notin> authoritativeIds) (sn_items cur);
            transient = filter isTransientGenericItem (sn_items cur);
            items = mergeTimelinePages retainedEarlier (sn_items authoritative @ transient)
          in authoritative\<lparr>sn_items := items,
               sn_history_cursor := sn_history_cursor cur,
               sn_has_earlier_history := sn_has_earlier_history cur\<rparr>)"

section \<open>Deduplication\<close>

lemma set_dedup_back: "ti_id ` set (dedup_back xs seen) = ti_id ` set xs - seen"
  by (induction xs seen rule: dedup_back.induct) auto

lemma distinct_dedup_back: "distinct (map ti_id (dedup_back xs seen))"
proof (induction xs seen rule: dedup_back.induct)
  case (2 item items seen)
  have "ti_id item \<notin> ti_id ` set (dedup_back items (insert (ti_id item) seen))"
    by (simp add: set_dedup_back)
  with 2 show ?case by auto
qed simp

lemma dedup_back_remdups:
  "map ti_id (dedup_back xs seen) = filter (\<lambda>i. i \<notin> seen) (rev (remdups (rev (map ti_id xs))))"
proof (induction xs seen rule: dedup_back.induct)
  case (2 item items seen)
  have last_first: "rev (remdups (rev ys @ [y])) = y # filter (\<lambda>i. i \<noteq> y) (rev (remdups (rev ys)))"
    for y :: string and ys
  proof -
    have "remdups (zs @ [y]) = filter (\<lambda>i. i \<noteq> y) (remdups zs) @ [y]" for zs :: "string list"
      by (induction zs) auto
    then show ?thesis by (simp add: rev_filter)
  qed
  show ?case
    using 2 by (auto simp: last_first filter_filter conj_commute intro: filter_cong)
qed simp

text \<open>The loop computes the library's \<open>remdups\<close>, which keeps the last of equal elements.\<close>

lemma map_id_deduplicate: "map ti_id (deduplicateKeepingLast items) = remdups (map ti_id items)"
  using dedup_back_remdups [of "rev items" "{}"]
  by (simp add: deduplicateKeepingLast_def rev_map [symmetric])

lemma ids_deduplicate: "ti_id ` set (deduplicateKeepingLast items) = ti_id ` set items"
  by (simp add: deduplicateKeepingLast_def set_dedup_back)

lemma dedup_back_subset: "set (dedup_back xs seen) \<subseteq> set xs"
  by (induction xs seen rule: dedup_back.induct) auto

lemma dedup_back_unseen: "item \<in> set (dedup_back xs seen) \<Longrightarrow> ti_id item \<notin> seen"
  using set_dedup_back [of xs seen] by blast

text \<open>The item kept for an id is the last one of the list with that id.\<close>

lemma dedup_back_first:
  "item \<in> set (dedup_back xs seen) \<Longrightarrow>
   \<exists>ys zs. xs = ys @ item # zs \<and> ti_id item \<notin> ti_id ` set ys"
proof (induction xs seen rule: dedup_back.induct)
  case (2 x items seen)
  show ?case
  proof (cases "item = x")
    case True
    then show ?thesis by (metis append_Nil empty_iff image_empty list.set(1))
  next
    case False
    have "ti_id x \<noteq> ti_id item"
      using 2(3) False by (auto split: if_splits dest: dedup_back_unseen)
    moreover have "\<exists>ys zs. items = ys @ item # zs \<and> ti_id item \<notin> ti_id ` set ys"
      using 2 False by (auto split: if_splits)
    then obtain ys zs where "items = ys @ item # zs" "ti_id item \<notin> ti_id ` set ys" by blast
    ultimately have "x # items = (x # ys) @ item # zs \<and> ti_id item \<notin> ti_id ` set (x # ys)" by auto
    then show ?thesis by blast
  qed
qed simp

lemma deduplicate_last:
  assumes "item \<in> set (deduplicateKeepingLast items)"
  shows "\<exists>ys zs. items = ys @ item # zs \<and> ti_id item \<notin> ti_id ` set zs"
proof -
  obtain ys zs where "rev items = ys @ item # zs" "ti_id item \<notin> ti_id ` set ys"
    using assms dedup_back_first [of item "rev items" "{}"] by (auto simp: deduplicateKeepingLast_def)
  then have "items = rev zs @ item # rev ys" by (simp add: rev_swap)
  moreover from \<open>ti_id item \<notin> ti_id ` set ys\<close> have "ti_id item \<notin> ti_id ` set (rev ys)" by simp
  ultimately show ?thesis by blast
qed

section \<open>Merging pages\<close>

lemma map_id_merge:
  "map ti_id (mergeTimelinePages earlier later) =
   filter (\<lambda>i. i \<notin> ti_id ` set later) (map ti_id earlier) @ remdups (map ti_id later)"
  by (simp add: mergeTimelinePages_def map_id_deduplicate filter_map comp_def)

lemma ids_merge:
  "ti_id ` set (mergeTimelinePages earlier later) = ti_id ` set earlier \<union> ti_id ` set later"
  by (auto simp: mergeTimelinePages_def ids_deduplicate image_Un)

lemma distinct_merge:
  "distinct (map ti_id earlier) \<Longrightarrow> distinct (map ti_id (mergeTimelinePages earlier later))"
  by (auto simp: map_id_merge)

lemma merge_later_wins:
  assumes "item \<in> set (mergeTimelinePages earlier later)" "ti_id item \<in> ti_id ` set later"
  shows "\<exists>ys zs. later = ys @ item # zs \<and> ti_id item \<notin> ti_id ` set zs"
  using assms by (auto simp: mergeTimelinePages_def intro: deduplicate_last)

section \<open>Properties\<close>

text \<open>
  Refreshing the latest page of a task whose earlier history was loaded page by page, when
  the refreshed page overlaps what is on screen: the items before the overlap stay on screen, in
  their order and each once, followed by the refreshed page and the transient events; the cursor for
  further history stays that of the loaded window. No item of the refreshed page is shown in an older
  version, and if ids on screen were distinct they still are.
\<close>

theorem refresh_keeps_loaded_history:
  assumes "th_id (sn_thread cur) = th_id (sn_thread auth)"
    and "hasOverlap (sn_items cur) (sn_items auth)"
    and "loaded \<noteq> []"
    and "distinct (map ti_id (sn_items cur))"
  defines "r \<equiv> mergeAuthoritativeTimelineWindow (Some cur) auth loaded"
    and "before \<equiv> takeWhile (\<lambda>item. ti_id item \<notin> ti_id ` set (sn_items auth)) (sn_items cur)"
    and "transient \<equiv> filter isTransientGenericItem (sn_items cur)"
  shows "map ti_id (sn_items r) =
      filter (\<lambda>i. i \<notin> ti_id ` set transient) (map ti_id before) @
      remdups (map ti_id (sn_items auth @ transient)) \<and>
    distinct (map ti_id (sn_items r)) \<and>
    (\<forall>item \<in> set (sn_items r). ti_id item \<in> ti_id ` set (sn_items auth) \<longrightarrow>
       item \<in> set (sn_items auth @ transient)) \<and>
    sn_history_cursor r = sn_history_cursor cur \<and>
    sn_has_earlier_history r = sn_has_earlier_history cur"
proof -
  have items: "sn_items r = mergeTimelinePages before (sn_items auth @ transient)"
    using assms(1-3) by (simp add: r_def before_def transient_def mergeAuthoritativeTimelineWindow_def Let_def)
  have "ti_id item \<notin> ti_id ` set (sn_items auth)" if "item \<in> set before" for item
    using that by (auto simp: before_def dest: set_takeWhileD)
  then have "filter (\<lambda>i. i \<notin> ti_id ` set (sn_items auth @ transient)) (map ti_id before) =
      filter (\<lambda>i. i \<notin> ti_id ` set transient) (map ti_id before)"
    by (intro filter_cong) auto
  moreover have "distinct (map ti_id before)"
    using assms(4) unfolding before_def by (metis distinct_append map_append takeWhile_dropWhile_id)
  moreover have "item \<in> set (sn_items auth @ transient)"
    if "item \<in> set (sn_items r)" "ti_id item \<in> ti_id ` set (sn_items auth)" for item
    using merge_later_wins [of item before "sn_items auth @ transient"] that items by fastforce
  moreover have "sn_history_cursor r = sn_history_cursor cur"
    and "sn_has_earlier_history r = sn_has_earlier_history cur"
    using assms(1-3) by (simp_all add: r_def mergeAuthoritativeTimelineWindow_def Let_def)
  moreover have "distinct (map ti_id (sn_items r))"
    unfolding items using \<open>distinct (map ti_id before)\<close> by (rule distinct_merge)
  moreover have "map ti_id (sn_items r) =
      filter (\<lambda>i. i \<notin> ti_id ` set (sn_items auth @ transient)) (map ti_id before) @
      remdups (map ti_id (sn_items auth @ transient))"
    unfolding items by (rule map_id_merge)
  ultimately show ?thesis by simp
qed

section \<open>Witness\<close>

definition example_item :: "string \<Rightarrow> timeline_item" where
  "example_item i = \<lparr>ti_id = i, ti_turn_id = None, ti_type = TI_message, ti_created_at = None, ti_data = []\<rparr>"

definition example_snapshot :: "string list \<Rightarrow> snapshot" where
  "example_snapshot ids =
     \<lparr>sn_thread = \<lparr>th_id = ''t1'', th_workspace_id = ''w1'', th_title = [], th_state = TS_idle,
        th_archived = False, th_created_at = 0, th_updated_at = 0\<rparr>,
      sn_working_directory = None, sn_state = TS_idle, sn_items = map example_item ids, sn_interactions = [],
      sn_history_cursor = Some ''c1'', sn_has_earlier_history = True,
      sn_settings = \<lparr>ts_revision = 0, ts_model = None, ts_effort = None, ts_sandbox = None, ts_approval_policy = None\<rparr>,
      sn_context_usage = None, sn_compaction_count = None\<rparr>"

theorem refresh_keeps_loaded_history_witness:
  "map ti_id (sn_items (mergeAuthoritativeTimelineWindow (Some (example_snapshot [''a'', ''b'', ''c'']))
      (example_snapshot [''c'', ''d'']) [''a''])) = [''a'', ''b'', ''c'', ''d'']"
  using refresh_keeps_loaded_history [of "example_snapshot [''a'', ''b'', ''c'']" "example_snapshot [''c'', ''d'']" "[''a'']"]
  by (simp add: example_snapshot_def example_item_def hasOverlap_def isTransientGenericItem_def)

end
