(* ===== verification/Web_ThreadActor.thy ===== *)
theory Web_ThreadActor
  imports Kernel_Actor Web_Timeline
begin

text \<open>
  The actor behind the open task of the web client (\<open>apps/web/src/v4/actors/thread-actor.ts\<close>): its
  state, its reducer, its effect runner over the Gateway, and the proof that a state which shows work
  in progress always has a live effect that ends it.
\<close>

section \<open>State, events, effects\<close>

datatype thread_actor_status =
    TA_closed | TA_opening | TA_syncing | TA_idle | TA_running | TA_waiting_input
  | TA_reconnecting | TA_failed

datatype history_status = HS_idle | HS_loading | HS_failed

fun status_of_state :: "thread_state \<Rightarrow> thread_actor_status" where
  "status_of_state TS_idle = TA_idle"
| "status_of_state TS_running = TA_running"
| "status_of_state TS_waiting_input = TA_waiting_input"
| "status_of_state TS_failed = TA_failed"

text \<open>The optional flags are only ever compared with \<open>=== true\<close>, so an absent one is \<open>False\<close>.\<close>

record thread_actor_state =
  ta_status :: thread_actor_status
  ta_threadId :: "string option"
  ta_snapshot :: "snapshot option"
  ta_contextUsage :: "context_usage option"
  ta_contextUsageChangedDuringOpen :: bool
  ta_loadedHistoryItemIds :: "string list"
  ta_refreshing :: bool
  ta_historyStatus :: history_status
  ta_historyError :: "string option"
  ta_refreshPending :: bool
  ta_replaceHistoryOnRefresh :: bool
  ta_error :: "string option"

text \<open>
  A Gateway event after its payload was validated by the schema of its type. \<open>GE_other\<close> is every
  event type the reducer does not look at.
\<close>

datatype gateway_payload =
    GE_context_usage string context_usage
  | GE_thread_state string thread_state
  | GE_codex_notification string string
  | GE_codex_generic "string option" string js
  | GE_interaction_created interaction
  | GE_interaction_resolved string string
  | GE_interaction_failed string string
  | GE_lease_failed string string
  | GE_other string

record gateway_event =
  gv_event_id :: string
  gv_payload :: gateway_payload

text \<open>\<open>T_gateway_event\<close> carries the instant at which the reducer runs.\<close>

datatype thread_event =
    T_open string
  | T_opened snapshot
  | T_settings_updated string thread_settings
  | T_load_earlier
  | T_history_loaded history_page
  | T_history_failed string
  | T_gateway_event gateway_event timestamp
  | T_reconnecting
  | T_close
  | T_failed string

datatype thread_effect =
    TE_fetch string "string option"
  | TE_history string string
  | TE_close "string option"

section \<open>The reducer\<close>

definition blank_thread_state :: "thread_actor_status \<Rightarrow> string option \<Rightarrow> thread_actor_state" where
  "blank_thread_state status threadId =
     \<lparr>ta_status = status, ta_threadId = threadId, ta_snapshot = None, ta_contextUsage = None,
      ta_contextUsageChangedDuringOpen = False, ta_loadedHistoryItemIds = [], ta_refreshing = False,
      ta_historyStatus = HS_idle, ta_historyError = None, ta_refreshPending = False,
      ta_replaceHistoryOnRefresh = False, ta_error = None\<rparr>"

definition thread_initial_state :: thread_actor_state where
  "thread_initial_state = blank_thread_state TA_closed None"

text \<open>
  \<open>[...new Set([...loaded, ...page, ...current])]\<close>: a set iterates in order of first insertion.
\<close>

definition unique_ids :: "string list \<Rightarrow> string list" where
  "unique_ids ids = rev (remdups (rev ids))"

definition appendNewHistoryIds :: "string list \<Rightarrow> snapshot \<Rightarrow> history_page \<Rightarrow> string list" where
  "appendNewHistoryIds loadedHistoryItemIds current page =
     (if hp_items page = [] then loadedHistoryItemIds
      else unique_ids (loadedHistoryItemIds @ map ti_id (hp_items page) @ map ti_id (sn_items current)))"

definition retainPresentIds :: "string list \<Rightarrow> snapshot \<Rightarrow> string list" where
  "retainPresentIds loadedHistoryItemIds snapshot =
     (if loadedHistoryItemIds = [] then loadedHistoryItemIds
      else filter (\<lambda>i. i \<in> ti_id ` set (sn_items snapshot)) loadedHistoryItemIds)"

text \<open>\<open>Same\<close> is the state object itself.\<close>

definition applyGatewayEvent ::
  "thread_actor_state \<Rightarrow> gateway_event \<Rightarrow> timestamp \<Rightarrow> thread_actor_state nextst" where
  "applyGatewayEvent state event now =
     (case ta_threadId state of None \<Rightarrow> Same
      | Some threadId \<Rightarrow>
        (case gv_payload event of
           GE_context_usage tid usage \<Rightarrow>
             if tid \<noteq> threadId then Same
             else New (state\<lparr>ta_contextUsage := Some usage,
               ta_contextUsageChangedDuringOpen :=
                 ta_status state = TA_opening \<or> ta_refreshing state\<rparr>)
         | payload \<Rightarrow>
           (case ta_snapshot state of None \<Rightarrow> Same
            | Some snapshot \<Rightarrow>
              (case payload of
                 GE_thread_state tid st \<Rightarrow>
                   if tid \<noteq> threadId then Same
                   else New (state\<lparr>ta_status := status_of_state st,
                     ta_snapshot := Some (snapshot\<lparr>sn_state := st\<rparr>)\<rparr>)
               | GE_codex_notification tid method \<Rightarrow>
                   if tid \<noteq> threadId then Same
                   else if method = ''thread/compacted''
                   then New (state\<lparr>ta_replaceHistoryOnRefresh := True\<rparr>)
                   else Same
               | GE_interaction_created ia \<Rightarrow>
                   if ia_thread_id ia \<noteq> threadId then Same
                   else New (state\<lparr>ta_status := TA_waiting_input,
                     ta_snapshot := Some (snapshot\<lparr>sn_interactions :=
                       filter (\<lambda>c. ia_id c \<noteq> ia_id ia) (sn_interactions snapshot) @ [ia]\<rparr>)\<rparr>)
               | GE_codex_generic tid method params \<Rightarrow>
                   if tid \<noteq> Some threadId then Same
                   else let item = \<lparr>ti_id = ''gateway:'' @ gv_event_id event, ti_turn_id = None,
                       ti_type = TI_generic, ti_created_at = Some now,
                       ti_data = [(''source'', JStr ''codex/generic''), (''method'', JStr method),
                                  (''params'', params)]\<rparr>
                     in New (state\<lparr>ta_snapshot := Some (snapshot\<lparr>sn_items :=
                       mergeTimelinePages (sn_items snapshot) [item]\<rparr>)\<rparr>)
               | GE_interaction_resolved tid iid \<Rightarrow>
                   if tid \<noteq> threadId then Same
                   else New (state\<lparr>ta_snapshot := Some (snapshot\<lparr>sn_interactions :=
                     filter (\<lambda>i. ia_id i \<noteq> iid) (sn_interactions snapshot)\<rparr>)\<rparr>)
               | GE_interaction_failed tid iid \<Rightarrow>
                   if tid \<noteq> threadId then Same
                   else New (state\<lparr>ta_snapshot := Some (snapshot\<lparr>sn_interactions :=
                     filter (\<lambda>i. ia_id i \<noteq> iid) (sn_interactions snapshot)\<rparr>)\<rparr>)
               | GE_lease_failed tid reason \<Rightarrow>
                   if tid \<noteq> threadId then Same
                   else New (state\<lparr>ta_contextUsage := None, ta_status := TA_failed,
                     ta_refreshing := False, ta_contextUsageChangedDuringOpen := False,
                     ta_error := Some reason\<rparr>)
               | _ \<Rightarrow> Same))))"

text \<open>The tail shared by \<open>HISTORY_LOADED\<close> and \<open>HISTORY_FAILED\<close>: a refresh that waited for the page.\<close>

definition after_history ::
  "thread_actor_state \<Rightarrow> thread_actor_state \<Rightarrow> (thread_actor_state, thread_effect) transition" where
  "after_history state nextState =
     (case ta_threadId state of
        Some threadId \<Rightarrow>
          if ta_refreshPending state
          then become (nextState\<lparr>ta_refreshing := True, ta_contextUsageChangedDuringOpen := False\<rparr>)
                 [TE_fetch threadId None]
          else become nextState []
      | None \<Rightarrow> become nextState [])"

definition reduce_open ::
  "thread_actor_state \<Rightarrow> string \<Rightarrow> (thread_actor_state, thread_effect) transition" where
  "reduce_open state threadId =
     (if ta_threadId state = Some threadId \<and> ta_snapshot state \<noteq> None then
        (if ta_historyStatus state = HS_loading
         then preserve (state\<lparr>ta_refreshing := True, ta_refreshPending := True\<rparr>)
         else if ta_refreshing state then preserve (state\<lparr>ta_refreshPending := True\<rparr>)
         else become (state\<lparr>ta_refreshing := True, ta_contextUsageChangedDuringOpen := False\<rparr>)
                [TE_fetch threadId None])
      else become (blank_thread_state TA_opening (Some threadId))
             [TE_fetch threadId
                (if ta_threadId state = None \<or> ta_threadId state = Some threadId then None
                 else ta_threadId state)])"

definition reduce_opened ::
  "thread_actor_state \<Rightarrow> snapshot \<Rightarrow> (thread_actor_state, thread_effect) transition" where
  "reduce_opened state opened =
     (let refreshAgain = ta_refreshPending state;
          replaceHistory = ta_replaceHistoryOnRefresh state;
          snapshot = (if replaceHistory
            then replaceAuthoritativeTimelineWindow (ta_snapshot state) opened
            else mergeAuthoritativeTimelineWindow (ta_snapshot state) opened (ta_loadedHistoryItemIds state));
          contextUsage = (case sn_context_usage opened of Some u \<Rightarrow> Some u
            | None \<Rightarrow> if ta_contextUsageChangedDuringOpen state \<and>
                        ta_threadId state = Some (th_id (sn_thread opened))
                      then ta_contextUsage state else None);
          nextState = \<lparr>ta_status = status_of_state (sn_state opened),
            ta_threadId = Some (th_id (sn_thread opened)), ta_snapshot = Some snapshot,
            ta_contextUsage = contextUsage, ta_contextUsageChangedDuringOpen = False,
            ta_loadedHistoryItemIds =
              (if replaceHistory then [] else retainPresentIds (ta_loadedHistoryItemIds state) snapshot),
            ta_refreshing = refreshAgain, ta_historyStatus = ta_historyStatus state,
            ta_historyError = None, ta_refreshPending = False,
            ta_replaceHistoryOnRefresh = (replaceHistory \<and> refreshAgain), ta_error = None\<rparr>
      in become nextState
           (if refreshAgain then [TE_fetch (th_id (sn_thread opened)) None] else []))"

fun thread_reducer ::
  "thread_actor_state \<Rightarrow> thread_event \<Rightarrow> (thread_actor_state, thread_effect) transition" where
  "thread_reducer state (T_open threadId) = reduce_open state threadId"
| "thread_reducer state (T_opened opened) = reduce_opened state opened"
| "thread_reducer state (T_settings_updated threadId settings) =
     (case ta_snapshot state of None \<Rightarrow> keep
      | Some snapshot \<Rightarrow>
          if ta_threadId state \<noteq> Some threadId \<or> ts_revision settings < ts_revision (sn_settings snapshot)
          then keep
          else preserve (state\<lparr>ta_snapshot := Some (snapshot\<lparr>sn_settings := settings\<rparr>)\<rparr>))"
| "thread_reducer state T_load_earlier =
     (case (ta_threadId state, ta_snapshot state) of
        (Some threadId, Some snapshot) \<Rightarrow>
          if ta_refreshing state \<or> ta_historyStatus state = HS_loading \<or>
             \<not> sn_has_earlier_history snapshot
          then keep
          else (case sn_history_cursor snapshot of None \<Rightarrow> keep
                | Some cursor \<Rightarrow>
                    become (state\<lparr>ta_historyStatus := HS_loading, ta_historyError := None\<rparr>)
                      [TE_history threadId cursor])
      | _ \<Rightarrow> keep)"
| "thread_reducer state (T_history_loaded page) =
     (case ta_snapshot state of None \<Rightarrow> keep
      | Some snapshot \<Rightarrow> after_history state (state\<lparr>
          ta_snapshot := Some (prependAuthoritativeHistoryPage snapshot page),
          ta_loadedHistoryItemIds := appendNewHistoryIds (ta_loadedHistoryItemIds state) snapshot page,
          ta_historyStatus := HS_idle, ta_historyError := None, ta_refreshPending := False\<rparr>))"
| "thread_reducer state (T_history_failed message) =
     after_history state (state\<lparr>ta_historyStatus := HS_failed, ta_historyError := Some message,
       ta_refreshPending := False\<rparr>)"
| "thread_reducer state (T_gateway_event event now) =
     \<lparr>tr_state = applyGatewayEvent state event now, tr_effects = [], tr_preserve = True\<rparr>"
| "thread_reducer state T_reconnecting =
     become (state\<lparr>ta_contextUsage := None, ta_status := TA_reconnecting, ta_refreshing := False,
       ta_historyStatus := HS_idle, ta_refreshPending := False,
       ta_contextUsageChangedDuringOpen := False\<rparr>) []"
| "thread_reducer state T_close =
     become (blank_thread_state TA_closed None) [TE_close (ta_threadId state)]"
| "thread_reducer state (T_failed message) =
     become (state\<lparr>ta_status := TA_failed, ta_refreshing := False, ta_error := Some message\<rparr>) []"

section \<open>The effect runner\<close>

text \<open>
  The Gateway is a parameter: what it answers to each request. A request fails with a remote error
  code and a message, or with some other error and its message (\<open>None\<close> when what was thrown is not
  an \<open>Error\<close> object).
\<close>

datatype request_failure = Remote string string | OtherFailure "string option"

record open_input =
  oi_threadId :: string
  oi_historyLimit :: int
  oi_historyTurnLimit :: "int option"
  oi_includeWorkingDirectory :: bool
  oi_includeContextUsage :: bool
  oi_includeCompactionCount :: bool

record history_input =
  hi_threadId :: string
  hi_cursor :: string
  hi_limit :: int
  hi_historyTurnLimit :: "int option"

record thread_gateway =
  gw_open :: "open_input \<Rightarrow> request_failure + snapshot"
  gw_history :: "history_input \<Rightarrow> request_failure + history_page"
  gw_close :: "string \<Rightarrow> request_failure option"

definition open_candidates :: "string \<Rightarrow> open_input list" where
  "open_candidates threadId =
     (let base = \<lparr>oi_threadId = threadId, oi_historyLimit = TIMELINE_PAGE_SIZE,
            oi_historyTurnLimit = None, oi_includeWorkingDirectory = False,
            oi_includeContextUsage = False, oi_includeCompactionCount = False\<rparr>
      in [base\<lparr>oi_historyTurnLimit := Some TIMELINE_TURN_PAGE_SIZE, oi_includeWorkingDirectory := True,
            oi_includeContextUsage := True, oi_includeCompactionCount := True\<rparr>,
          base\<lparr>oi_includeWorkingDirectory := True, oi_includeContextUsage := True,
            oi_includeCompactionCount := True\<rparr>,
          base\<lparr>oi_includeWorkingDirectory := True, oi_includeContextUsage := True\<rparr>,
          base\<lparr>oi_includeWorkingDirectory := True\<rparr>,
          base])"

text \<open>
  The loop over the candidates: an \<open>INVALID_INPUT\<close> answer moves on to the next one, and the last
  such error is thrown at the end.
\<close>

fun try_candidates ::
  "thread_gateway \<Rightarrow> open_input list \<Rightarrow> request_failure option \<Rightarrow> request_failure + snapshot" where
  "try_candidates gw [] compatibilityError =
     Inl (case compatibilityError of Some e \<Rightarrow> e
          | None \<Rightarrow> OtherFailure (Some ''No compatible thread/open request''))"
| "try_candidates gw (input # rest) compatibilityError =
     (case gw_open gw input of
        Inr snapshot \<Rightarrow> Inr snapshot
      | Inl (Remote code message) \<Rightarrow>
          if code = ''INVALID_INPUT'' then try_candidates gw rest (Some (Remote code message))
          else Inl (Remote code message)
      | Inl (OtherFailure m) \<Rightarrow> Inl (OtherFailure m))"

definition openThreadWithCompatibility :: "thread_gateway \<Rightarrow> string \<Rightarrow> request_failure + snapshot" where
  "openThreadWithCompatibility gw threadId = try_candidates gw (open_candidates threadId) None"

definition failure_message :: "string \<Rightarrow> request_failure \<Rightarrow> string" where
  "failure_message fallback e =
     (case e of Remote code message \<Rightarrow> message
      | OtherFailure m \<Rightarrow> (case m of Some message \<Rightarrow> message | None \<Rightarrow> fallback))"

text \<open>The history request: a Gateway that rejects the turn limit is asked again without it.\<close>

definition request_history :: "thread_gateway \<Rightarrow> string \<Rightarrow> string \<Rightarrow> request_failure + history_page" where
  "request_history gw threadId cursor =
     (let input = \<lparr>hi_threadId = threadId, hi_cursor = cursor, hi_limit = TIMELINE_PAGE_SIZE,
            hi_historyTurnLimit = None\<rparr>
      in case gw_history gw (input\<lparr>hi_historyTurnLimit := Some TIMELINE_TURN_PAGE_SIZE\<rparr>) of
           Inr page \<Rightarrow> Inr page
         | Inl (Remote code message) \<Rightarrow>
             if code = ''INVALID_INPUT'' then gw_history gw input else Inl (Remote code message)
         | Inl (OtherFailure m) \<Rightarrow> Inl (OtherFailure m))"

text \<open>
  What an effect that is not aborted dispatches in the end. \<open>still_current\<close> is the answer of
  \<open>context.isCurrent()\<close> after the previous task was closed. The two fallback texts of the source are
  Chinese; they are written here in ASCII.
\<close>

fun thread_run_effect :: "thread_gateway \<Rightarrow> bool \<Rightarrow> thread_effect \<Rightarrow> thread_event option" where
  "thread_run_effect gw still_current (TE_close threadId) = None"
| "thread_run_effect gw still_current (TE_history threadId cursor) =
     (case request_history gw threadId cursor of
        Inr page \<Rightarrow> Some (T_history_loaded page)
      | Inl e \<Rightarrow> Some (T_history_failed (failure_message ''history load failed'' e)))"
| "thread_run_effect gw still_current (TE_fetch threadId previousThreadId) =
     (case (case previousThreadId of None \<Rightarrow> None | Some p \<Rightarrow> gw_close gw p) of
        Some e \<Rightarrow> Some (T_failed (failure_message ''task open failed'' e))
      | None \<Rightarrow>
          if previousThreadId \<noteq> None \<and> \<not> still_current then None
          else (case openThreadWithCompatibility gw threadId of
                  Inr snapshot \<Rightarrow> Some (T_opened snapshot)
                | Inl e \<Rightarrow> Some (T_failed (failure_message ''task open failed'' e))))"

section \<open>Events and effects of the protocol\<close>

fun thread_external :: "thread_event \<Rightarrow> bool" where
  "thread_external (T_opened _) = False"
| "thread_external (T_history_loaded _) = False"
| "thread_external (T_history_failed _) = False"
| "thread_external (T_failed _) = False"
| "thread_external _ = True"

fun thread_completes :: "thread_effect \<Rightarrow> thread_event \<Rightarrow> bool" where
  "thread_completes (TE_fetch _ _) (T_opened _) = True"
| "thread_completes (TE_fetch _ _) (T_failed _) = True"
| "thread_completes (TE_history _ _) (T_history_loaded _) = True"
| "thread_completes (TE_history _ _) (T_history_failed _) = True"
| "thread_completes _ _ = False"

fun thread_silent :: "thread_effect \<Rightarrow> bool" where
  "thread_silent (TE_close _) = True"
| "thread_silent _ = False"

text \<open>The runner ends with an event of the protocol, or without one only for \<open>TE_close\<close> or when stale.\<close>

lemma thread_run_effect_protocol:
  "(case thread_run_effect gw still_current ef of
      Some ev \<Rightarrow> thread_completes ef ev | None \<Rightarrow> thread_silent ef \<or> \<not> still_current)"
  by (cases ef) (auto split: option.splits sum.splits)

text \<open>
  The invariant: at most one effect is live; opening needs a live fetch, loading history a live
  history request, and refreshing one of the two, where a refresh that waits for a history page is
  remembered in \<open>refreshPending\<close>.
\<close>

definition thread_good :: "thread_actor_state \<Rightarrow> thread_effect list \<Rightarrow> bool" where
  "thread_good s L \<longleftrightarrow> length L \<le> 1 \<and>
     ((\<exists>tid cursor. L = [TE_history tid cursor]) \<longrightarrow> ta_historyStatus s = HS_loading) \<and>
     (ta_status s = TA_opening \<longrightarrow> ta_snapshot s = None \<and> \<not> ta_refreshing s \<and>
        ta_historyStatus s \<noteq> HS_loading \<and> (\<exists>tid prev. L = [TE_fetch tid prev])) \<and>
     (ta_historyStatus s = HS_loading \<longrightarrow> ta_snapshot s \<noteq> None \<and> ta_threadId s \<noteq> None \<and>
        (\<exists>tid cursor. L = [TE_history tid cursor]) \<and> (ta_refreshing s \<longrightarrow> ta_refreshPending s)) \<and>
     (ta_refreshing s \<and> ta_historyStatus s \<noteq> HS_loading \<longrightarrow> ta_snapshot s \<noteq> None \<and>
        (\<exists>tid prev. L = [TE_fetch tid prev]))"

lemma status_of_state_not_opening [simp]: "status_of_state st \<noteq> TA_opening"
  by (cases st) auto

lemma thread_good_same_work:
  "thread_good s L \<Longrightarrow> ta_refreshing s' = ta_refreshing s \<Longrightarrow> ta_historyStatus s' = ta_historyStatus s \<Longrightarrow>
   ta_refreshPending s' = ta_refreshPending s \<Longrightarrow> ta_threadId s' = ta_threadId s \<Longrightarrow>
   (ta_snapshot s' = None \<longleftrightarrow> ta_snapshot s = None) \<Longrightarrow>
   (ta_status s' = TA_opening \<Longrightarrow> ta_status s = TA_opening) \<Longrightarrow> thread_good s' L"
  by (auto simp: thread_good_def)

lemma thread_good_gateway_event:
  assumes "thread_good s L"
  shows "thread_good (next_state s (applyGatewayEvent s event now)) L"
proof (cases "gv_payload event")
  case (GE_lease_failed tid reason)
  with assms show ?thesis
    by (auto simp: applyGatewayEvent_def thread_good_def split: option.splits)
qed (use assms in \<open>auto simp: applyGatewayEvent_def Let_def split: option.splits
        intro: thread_good_same_work\<close>)

lemma thread_good_external:
  assumes "thread_good s L" "thread_external ev"
  shows "thread_good (next_state s (tr_state (thread_reducer s ev))) (live_after (thread_reducer s ev) L)"
proof (cases ev)
  case (T_open tid)
  with assms show ?thesis
    by (auto simp: thread_good_def reduce_open_def live_after_def transition_defs blank_thread_state_def)
next
  case (T_gateway_event event now)
  with assms thread_good_gateway_event show ?thesis by (simp add: live_after_def)
qed (use assms in \<open>auto simp: thread_good_def live_after_def transition_defs blank_thread_state_def
        split: option.splits\<close>)

lemma thread_good_single: "thread_good s L \<Longrightarrow> ef \<in> set L \<Longrightarrow> L = [ef]"
  by (cases L) (auto simp: thread_good_def)

lemma thread_good_silent:
  assumes "thread_good s L" "ef \<in> set L" "thread_silent ef"
  shows "thread_good s (remove1 ef L)"
proof -
  obtain p where "ef = TE_close p" using assms(3) by (cases ef) auto
  moreover have "L = [ef]" using assms(1,2) by (rule thread_good_single)
  ultimately show ?thesis using assms(1) by (auto simp: thread_good_def)
qed

lemma thread_good_initial: "thread_good thread_initial_state []"
  by (simp add: thread_good_def thread_initial_state_def blank_thread_state_def)

lemma thread_good_effect:
  assumes "thread_good s L" "ef \<in> set L" "thread_completes ef ev"
  shows "thread_good (next_state s (tr_state (thread_reducer s ev)))
    (live_after (thread_reducer s ev) (remove1 ef L))"
proof -
  have L: "L = [ef]"
    using assms(1,2) by (rule thread_good_single)
  show ?thesis
    using assms unfolding L
    by (cases ef; cases ev) (auto simp: thread_good_def live_after_def transition_defs reduce_opened_def
      after_history_def Let_def split: option.splits)
qed

interpretation thread_protocol: effect_protocol thread_reducer thread_external thread_completes
  thread_silent thread_initial_state thread_good
proof unfold_locales
  fix s ev
  show "tr_preserve (thread_reducer s ev) \<Longrightarrow> tr_effects (thread_reducer s ev) = []"
    by (cases ev) (auto simp: transition_defs reduce_open_def reduce_opened_def after_history_def
      Let_def split: option.splits if_splits)
qed (simp_all add: thread_good_external thread_good_effect thread_good_silent thread_good_initial)

section \<open>Properties\<close>

text \<open>
  Claim C5. The open task never hangs: in every state the thread actor can reach, by any interleaving
  of user events, Gateway events, reconnects and effects that end in any order, at most one effect is
  live; while the task shows as opening there is a live fetch, while history shows as loading there is
  a live history request, and while a refresh shows there is a live request after which it is taken up.
\<close>

theorem thread_actor_never_hangs:
  assumes "actor_new parent False name thread_initial_state = Inr a0"
    and "sys_run thread_reducer thread_external thread_completes thread_silent (a0, []) (a, fs)"
    and "\<not> a_closed a" and "\<not> a_scope_closed a"
  shows "length (live a fs) \<le> 1 \<and>
    (ta_status (a_state a) = TA_opening \<longrightarrow> (\<exists>tid prev. live a fs = [TE_fetch tid prev])) \<and>
    (ta_historyStatus (a_state a) = HS_loading \<longrightarrow> (\<exists>tid c. live a fs = [TE_history tid c])) \<and>
    (ta_refreshing (a_state a) \<longrightarrow>
       (\<exists>tid prev. live a fs = [TE_fetch tid prev]) \<or>
       (\<exists>tid c. live a fs = [TE_history tid c]) \<and> ta_refreshPending (a_state a))"
  using thread_protocol.reachable_good [OF assms] by (auto simp: thread_good_def)

section \<open>Witness\<close>

theorem thread_actor_never_hangs_witness:
  "\<exists>(a0 :: thread_actor_state actor) a fs. actor_new ''web'' False ''thread'' thread_initial_state = Inr a0 \<and>
     sys_run thread_reducer thread_external thread_completes thread_silent (a0, []) (a, fs) \<and>
     ta_status (a_state a) = TA_opening \<and> (\<exists>tid prev. live a fs = [TE_fetch tid prev])"
proof -
  obtain a0 where new: "actor_new ''web'' False ''thread'' thread_initial_state = Inr a0"
    by (simp add: actor_new_def)
  obtain r ns a where d: "actor_dispatch thread_reducer (T_open ''t1'') a0 = (r, ns, a)"
    by (metis prod.collapse)
  have run: "sys_run thread_reducer thread_external thread_completes thread_silent (a0, []) (a, [] @ started r)"
    by (rule run_external [OF sys_run.run_refl _ d]) simp
  have at: "ta_status (a_state a) = TA_opening \<and> \<not> a_closed a \<and> \<not> a_scope_closed a"
    using new d by (auto simp: actor_new_def actor_dispatch_def Let_def reduce_open_def thread_initial_state_def
        blank_thread_state_def transition_defs abort_effects_def)
  then have "\<exists>tid prev. live a ([] @ started r) = [TE_fetch tid prev]"
    using thread_actor_never_hangs [OF new run] by simp
  with at new run show ?thesis by blast
qed

end
