(* ===== verification/Web_ComposerActor.thy ===== *)
theory Web_ComposerActor
  imports Kernel_Actor
begin

text \<open>
  The composer of the web client (\<open>apps/web/src/v4/actors/composer-actor.ts\<close>): drafts per task, one
  submission at a time, and the reconciliation of a submission whose outcome is unknown. The answers
  of the Gateway are parameters of the effect runner.
\<close>

section \<open>State, events, effects\<close>

datatype composer_status = CS_idle | CS_submitting | CS_outcome_unknown | CS_reconciling | CS_manual_review

datatype submission = SubmitTurn | SubmitQueue

record composer_state =
  co_status :: composer_status
  co_drafts :: "string \<rightharpoonup> string"
  co_threadId :: "string option"
  co_operationKey :: "string option"
  co_submittedText :: "string option"
  co_submission :: "submission option"
  co_error :: "string option"

text \<open>\<open>SUBMIT\<close> and \<open>QUEUE\<close> carry the UUID the reducer draws for the operation key.\<close>

datatype composer_event =
    C_draft string string
  | C_submit string string
  | C_queue string string
  | C_sent
  | C_unknown string
  | C_reconcile string
  | C_resolved
  | C_manual string
  | C_acknowledge_manual
  | C_failed string

datatype composer_effect =
    CE_send string string string
  | CE_enqueue string string string
  | CE_status string

section \<open>The reducer\<close>

definition blank_composer :: "(string \<rightharpoonup> string) \<Rightarrow> composer_state" where
  "blank_composer drafts =
     \<lparr>co_status = CS_idle, co_drafts = drafts, co_threadId = None, co_operationKey = None,
      co_submittedText = None, co_submission = None, co_error = None\<rparr>"

definition composer_initial :: composer_state where
  "composer_initial = blank_composer Map.empty"

definition composerDraftFor :: "composer_state \<Rightarrow> string \<Rightarrow> string" where
  "composerDraftFor state threadId = (case co_drafts state threadId of Some d \<Rightarrow> d | None \<Rightarrow> [])"

definition restoreSubmittedDraft :: "composer_state \<Rightarrow> string \<rightharpoonup> string" where
  "restoreSubmittedDraft state =
     (case (co_threadId state, co_submittedText state) of
        (Some threadId, Some text) \<Rightarrow>
          if composerDraftFor state threadId \<noteq> [] then co_drafts state
          else (co_drafts state)(threadId \<mapsto> text)
      | _ \<Rightarrow> co_drafts state)"

definition reduce_submission ::
  "submission \<Rightarrow> composer_state \<Rightarrow> string \<Rightarrow> string \<Rightarrow> (composer_state, composer_effect) transition" where
  "reduce_submission kind state threadId operationKey =
     (let text = js_trim (composerDraftFor state threadId) in
      if co_status state \<noteq> CS_idle \<or> text = [] then keep
      else become
        \<lparr>co_status = CS_submitting, co_drafts = (co_drafts state)(threadId \<mapsto> []),
         co_threadId = Some threadId, co_operationKey = Some operationKey,
         co_submittedText = Some text, co_submission = Some kind, co_error = None\<rparr>
        [case kind of SubmitTurn \<Rightarrow> CE_send threadId text operationKey
         | SubmitQueue \<Rightarrow> CE_enqueue threadId text operationKey])"

fun composer_reducer ::
  "composer_state \<Rightarrow> composer_event \<Rightarrow> (composer_state, composer_effect) transition" where
  "composer_reducer state (C_draft threadId value) =
     (let nextDrafts = (co_drafts state)(threadId \<mapsto> value) in
      if co_status state = CS_idle \<and> co_threadId state = Some threadId
      then preserve (state\<lparr>co_error := None, co_threadId := None, co_drafts := nextDrafts\<rparr>)
      else preserve (state\<lparr>co_drafts := nextDrafts\<rparr>))"
| "composer_reducer state (C_submit threadId operationKey) =
     reduce_submission SubmitTurn state threadId operationKey"
| "composer_reducer state (C_queue threadId operationKey) =
     reduce_submission SubmitQueue state threadId operationKey"
| "composer_reducer state C_sent = become (blank_composer (co_drafts state)) []"
| "composer_reducer state C_resolved = become (blank_composer (co_drafts state)) []"
| "composer_reducer state (C_unknown operationKey) =
     become (state\<lparr>co_status := CS_outcome_unknown, co_operationKey := Some operationKey\<rparr>)
       [CE_status operationKey]"
| "composer_reducer state (C_reconcile operationKey) =
     become (state\<lparr>co_status := CS_reconciling, co_operationKey := Some operationKey\<rparr>)
       [CE_status operationKey]"
| "composer_reducer state (C_manual message) =
     become (state\<lparr>co_status := CS_manual_review, co_error := Some message\<rparr>) []"
| "composer_reducer state C_acknowledge_manual =
     (if co_status state \<noteq> CS_manual_review then keep
      else become (blank_composer (restoreSubmittedDraft state)) [])"
| "composer_reducer state (C_failed message) =
     become ((blank_composer (restoreSubmittedDraft state))
       \<lparr>co_threadId := co_threadId state, co_error := Some message\<rparr>) []"

section \<open>The effect runner\<close>

text \<open>
  What the Gateway answers: to a mutation, success, an unknown outcome with the operation key the
  client reports, or another failure; to \<open>mutation/status\<close>, one of the four states or a failure.
  Messages that are constant texts of the source are passed as they are produced.
\<close>

datatype mutation_answer = MA_ok | MA_unknown string | MA_failed string

datatype status_answer =
    SA_completed_success | SA_completed_error string | SA_pending | SA_indeterminate string
  | SA_missing string | SA_failed string

fun composer_run_mutation :: "mutation_answer \<Rightarrow> composer_event" where
  "composer_run_mutation MA_ok = C_sent"
| "composer_run_mutation (MA_unknown key) = C_unknown key"
| "composer_run_mutation (MA_failed message) = C_failed message"

fun composer_run_status :: "string \<Rightarrow> status_answer \<Rightarrow> composer_event" where
  "composer_run_status key SA_completed_success = C_resolved"
| "composer_run_status key (SA_completed_error message) = C_failed message"
| "composer_run_status key SA_pending = C_reconcile key"
| "composer_run_status key (SA_indeterminate message) = C_manual message"
| "composer_run_status key (SA_missing message) = C_manual message"
| "composer_run_status key (SA_failed message) = C_manual message"

fun composer_run_effect :: "mutation_answer \<Rightarrow> status_answer \<Rightarrow> composer_effect \<Rightarrow> composer_event" where
  "composer_run_effect ma sa (CE_send _ _ _) = composer_run_mutation ma"
| "composer_run_effect ma sa (CE_enqueue _ _ _) = composer_run_mutation ma"
| "composer_run_effect ma sa (CE_status key) = composer_run_status key sa"

fun effect_key :: "composer_effect \<Rightarrow> string" where
  "effect_key (CE_send _ _ key) = key"
| "effect_key (CE_enqueue _ _ key) = key"
| "effect_key (CE_status key) = key"

fun composer_external :: "composer_event \<Rightarrow> bool" where
  "composer_external (C_draft _ _) = True"
| "composer_external (C_submit _ _) = True"
| "composer_external (C_queue _ _) = True"
| "composer_external C_acknowledge_manual = True"
| "composer_external _ = False"

text \<open>
  The client reports the operation key of the request itself (\<open>GatewayV2Client.request\<close>), so an
  effect only ever reports its own key.
\<close>

definition composer_completes :: "composer_effect \<Rightarrow> composer_event \<Rightarrow> bool" where
  "composer_completes ef ev \<longleftrightarrow>
     (case ev of
        C_sent \<Rightarrow> (\<forall>key. ef \<noteq> CE_status key)
      | C_unknown key \<Rightarrow> key = effect_key ef \<and> (\<forall>key. ef \<noteq> CE_status key)
      | C_failed _ \<Rightarrow> True
      | C_resolved \<Rightarrow> ef = CE_status (effect_key ef)
      | C_reconcile key \<Rightarrow> ef = CE_status key
      | C_manual _ \<Rightarrow> ef = CE_status (effect_key ef)
      | _ \<Rightarrow> False)"

lemma composer_run_effect_protocol:
  assumes "\<And>key. ma = MA_unknown key \<Longrightarrow> key = effect_key ef"
  shows "composer_completes ef (composer_run_effect ma sa ef)"
  using assms
  by (cases ef; cases ma; cases sa) (auto simp: composer_completes_def)

section \<open>One submission at a time\<close>

text \<open>
  The invariant: a submission or a reconciliation in progress has exactly one live effect, which
  carries the operation key of the state; otherwise nothing is live.
\<close>

fun submitted_as :: "composer_state \<Rightarrow> composer_effect \<Rightarrow> bool" where
  "submitted_as s (CE_send tid text key) \<longleftrightarrow> co_threadId s = Some tid \<and>
     co_submittedText s = Some text \<and> co_operationKey s = Some key \<and> co_submission s = Some SubmitTurn"
| "submitted_as s (CE_enqueue tid text key) \<longleftrightarrow> co_threadId s = Some tid \<and>
     co_submittedText s = Some text \<and> co_operationKey s = Some key \<and> co_submission s = Some SubmitQueue"
| "submitted_as s (CE_status key) \<longleftrightarrow> False"

lemma submitted_as_drafts [simp]: "submitted_as (s\<lparr>co_drafts := d\<rparr>) ef = submitted_as s ef"
  by (cases ef) auto

definition composer_good :: "composer_state \<Rightarrow> composer_effect list \<Rightarrow> bool" where
  "composer_good s L \<longleftrightarrow>
     (case co_status s of
        CS_submitting \<Rightarrow> (\<exists>ef. L = [ef] \<and> submitted_as s ef)
      | CS_outcome_unknown \<Rightarrow> (\<exists>key. L = [CE_status key] \<and> co_operationKey s = Some key)
      | CS_reconciling \<Rightarrow> (\<exists>key. L = [CE_status key] \<and> co_operationKey s = Some key)
      | _ \<Rightarrow> L = []) \<and>
     (co_status s \<noteq> CS_idle \<longrightarrow> co_threadId s \<noteq> None \<and> co_submittedText s \<noteq> None)"

lemma composer_good_single: "composer_good s L \<Longrightarrow> ef \<in> set L \<Longrightarrow> L = [ef] \<and> co_status s \<noteq> CS_idle"
  by (auto simp: composer_good_def split: composer_status.splits)

lemma composer_good_external:
  "composer_good s L \<Longrightarrow> composer_external ev \<Longrightarrow>
   composer_good (next_state s (tr_state (composer_reducer s ev))) (live_after (composer_reducer s ev) L)"
  by (cases ev) (auto simp: composer_good_def transition_defs live_after_def reduce_submission_def Let_def
      blank_composer_def split: composer_status.splits)

lemma composer_good_effect:
  assumes "composer_good s L" "ef \<in> set L" "composer_completes ef ev"
  shows "composer_good (next_state s (tr_state (composer_reducer s ev)))
    (live_after (composer_reducer s ev) (remove1 ef L))"
proof -
  have L: "L = [ef]" "co_status s \<noteq> CS_idle"
    using composer_good_single [OF assms(1,2)] by auto
  then have "co_threadId s \<noteq> None" "co_submittedText s \<noteq> None"
    using assms(1) by (auto simp: composer_good_def)
  with assms(3) show ?thesis
    unfolding L
    by (cases ev) (auto simp: composer_completes_def composer_good_def transition_defs live_after_def
      blank_composer_def)
qed

lemma composer_good_initial: "composer_good composer_initial []"
  by (simp add: composer_good_def composer_initial_def blank_composer_def)

interpretation composer_protocol: effect_protocol composer_reducer composer_external composer_completes
  "\<lambda>_. False" composer_initial composer_good
proof unfold_locales
  fix s ev
  show "tr_preserve (composer_reducer s ev) \<Longrightarrow> tr_effects (composer_reducer s ev) = []"
    by (cases ev) (auto simp: transition_defs reduce_submission_def Let_def split: if_splits)
qed (simp_all add: composer_good_external composer_good_effect composer_good_initial)

section \<open>Properties\<close>


text \<open>
  Drafts are kept apart: an event changes the draft of a task only if it edits or submits
  that task, or if it ends a submission of that task; and ending it restores the submitted text
  without overwriting a newer non-empty draft.
\<close>

theorem composer_draft_isolation:
  assumes "co_drafts (next_state s (tr_state (composer_reducer s ev))) t \<noteq> co_drafts s t"
  shows "(\<exists>v. ev = C_draft t v) \<or> (\<exists>k. ev = C_submit t k \<or> ev = C_queue t k) \<or>
    ((\<exists>m. ev = C_failed m) \<or> ev = C_acknowledge_manual) \<and> co_threadId s = Some t \<and>
      composerDraftFor s t = [] \<and>
      co_drafts (next_state s (tr_state (composer_reducer s ev))) t = co_submittedText s"
  using assms
  by (cases ev) (auto simp: transition_defs reduce_submission_def Let_def blank_composer_def
      restoreSubmittedDraft_def split: if_splits option.splits)

text \<open>
  A failed submission loses no text: if a submission of a task is accepted and then fails,
  the draft of the task is the trimmed text that was submitted, and the composer is idle again.
\<close>

theorem composer_failed_submission_restores_text:
  assumes "co_status s = CS_idle" and "js_trim (composerDraftFor s t) \<noteq> []"
  shows "let s1 = next_state s (tr_state (composer_reducer s (C_submit t key)));
             s2 = next_state s1 (tr_state (composer_reducer s1 (C_failed m)))
    in co_status s1 = CS_submitting \<and> composerDraftFor s1 t = [] \<and>
       co_status s2 = CS_idle \<and> composerDraftFor s2 t = js_trim (composerDraftFor s t)"
  using assms by (simp add: transition_defs reduce_submission_def blank_composer_def Let_def
      restoreSubmittedDraft_def composerDraftFor_def)

section \<open>Witnesses\<close>


theorem composer_draft_isolation_witness:
  "(\<exists>v. C_draft ''t1'' ''hi'' = C_draft ''t1'' v) \<or> (\<exists>k. C_draft ''t1'' ''hi'' = C_submit ''t1'' k \<or> C_draft ''t1'' ''hi'' = C_queue ''t1'' k) \<or>
    ((\<exists>m. C_draft ''t1'' ''hi'' = C_failed m) \<or> C_draft ''t1'' ''hi'' = C_acknowledge_manual) \<and>
      co_threadId composer_initial = Some ''t1'' \<and> composerDraftFor composer_initial ''t1'' = [] \<and>
      co_drafts (next_state composer_initial (tr_state (composer_reducer composer_initial (C_draft ''t1'' ''hi'')))) ''t1'' =
        co_submittedText composer_initial"
  by (rule composer_draft_isolation) (simp add: composer_initial_def blank_composer_def transition_defs)

theorem composer_failed_submission_restores_text_witness:
  "let s = composer_initial\<lparr>co_drafts := [''t1'' \<mapsto> '' hi '']\<rparr>;
       s1 = next_state s (tr_state (composer_reducer s (C_submit ''t1'' ''k1'')));
       s2 = next_state s1 (tr_state (composer_reducer s1 (C_failed ''offline'')))
   in co_status s2 = CS_idle \<and> composerDraftFor s2 ''t1'' = ''hi''"
  using composer_failed_submission_restores_text [of "composer_initial\<lparr>co_drafts := [''t1'' \<mapsto> '' hi '']\<rparr>" "''t1''" "''k1''" "''offline''"]
  by (simp add: composer_initial_def blank_composer_def composerDraftFor_def js_trim_def js_space_def Let_def)

end
