(* ===== verification/Web_QueueActor.thy ===== *)
theory Web_QueueActor
  imports Kernel_Actor
begin

text \<open>
  The queue actor of the web client (\<open>apps/web/src/v4/actors/queue-actor.ts\<close>): the list of queue
  items, one mutation at a time, and the reconciliation of a mutation whose outcome is unknown.
\<close>

section \<open>State, events, effects\<close>

datatype queue_item_status = QV_pending | QV_paused | QV_delivering | QV_completed | QV_indeterminate

record queue_view_item =
  qv_id :: string
  qv_threadId :: string
  qv_text :: string
  qv_status :: queue_item_status
  qv_createdAt :: timestamp
  qv_updatedAt :: timestamp
  qv_revision :: int
  qv_indeterminateReason :: "string option"

datatype queue_actor_status = QA_loading | QA_ready | QA_mutating | QA_reconciling | QA_indeterminate

record queue_actor_state =
  qa_status :: queue_actor_status
  qa_items :: "queue_view_item list"
  qa_operationKey :: "string option"
  qa_error :: "string option"

datatype queue_disposition = Q_retry | Q_dismiss

text \<open>The four user mutations carry the UUID the reducer draws for the operation key.\<close>

datatype queue_event =
    Q_load "string option"
  | Q_loaded "queue_view_item list"
  | Q_add string string string
  | Q_remove string string
  | Q_steer string string string
  | Q_acknowledge string queue_disposition string
  | Q_changed queue_view_item
  | Q_removed string
  | Q_mutated queue_view_item
  | Q_mutation_removed string
  | Q_unknown string
  | Q_reconcile string
  | Q_reconciled
  | Q_failed string bool

datatype queue_effect =
    QE_fetch "string option"
  | QE_add string string string
  | QE_remove string string
  | QE_steer string string string
  | QE_acknowledge string queue_disposition string
  | QE_status string

section \<open>The reducer\<close>

text \<open>\<open>localeCompare\<close> on instants of one format is their order; \<open>Array.prototype.sort\<close> is stable.\<close>

definition queue_upsert :: "queue_view_item list \<Rightarrow> queue_view_item \<Rightarrow> queue_view_item list" where
  "queue_upsert items item = sort_key qv_createdAt (item # filter (\<lambda>c. qv_id c \<noteq> qv_id item) items)"

definition queue_initial :: queue_actor_state where
  "queue_initial = \<lparr>qa_status = QA_loading, qa_items = [], qa_operationKey = None, qa_error = None\<rparr>"

definition reduce_mutation ::
  "queue_actor_state \<Rightarrow> string \<Rightarrow> queue_effect \<Rightarrow> (queue_actor_state, queue_effect) transition" where
  "reduce_mutation state operationKey effect =
     (if qa_status state \<noteq> QA_ready then keep
      else become (state\<lparr>qa_status := QA_mutating, qa_operationKey := Some operationKey\<rparr>) [effect])"

text \<open>The text of the notice for an unknown outcome is Chinese in the source.\<close>

definition unknown_notice :: string where
  "unknown_notice = ''queue outcome unknown, reconciling with the host''"

fun queue_reducer :: "queue_actor_state \<Rightarrow> queue_event \<Rightarrow> (queue_actor_state, queue_effect) transition" where
  "queue_reducer state (Q_load threadId) =
     (if qa_status state = QA_mutating \<or> qa_status state = QA_reconciling then keep
      else become (state\<lparr>qa_status := QA_loading\<rparr>) [QE_fetch threadId])"
| "queue_reducer state (Q_loaded items) =
     become \<lparr>qa_status = QA_ready, qa_items = items, qa_operationKey = None, qa_error = None\<rparr> []"
| "queue_reducer state (Q_add threadId text operationKey) =
     reduce_mutation state operationKey (QE_add threadId text operationKey)"
| "queue_reducer state (Q_remove itemId operationKey) =
     reduce_mutation state operationKey (QE_remove itemId operationKey)"
| "queue_reducer state (Q_steer itemId text operationKey) =
     reduce_mutation state operationKey (QE_steer itemId text operationKey)"
| "queue_reducer state (Q_acknowledge itemId disposition operationKey) =
     reduce_mutation state operationKey (QE_acknowledge itemId disposition operationKey)"
| "queue_reducer state (Q_changed item) =
     preserve (state\<lparr>qa_items := queue_upsert (qa_items state) item\<rparr>)"
| "queue_reducer state (Q_removed itemId) =
     preserve (state\<lparr>qa_items := filter (\<lambda>i. qv_id i \<noteq> itemId) (qa_items state)\<rparr>)"
| "queue_reducer state (Q_mutated item) =
     become \<lparr>qa_status = QA_ready, qa_items = queue_upsert (qa_items state) item,
       qa_operationKey = None, qa_error = None\<rparr> []"
| "queue_reducer state (Q_mutation_removed itemId) =
     become \<lparr>qa_status = QA_ready, qa_items = filter (\<lambda>i. qv_id i \<noteq> itemId) (qa_items state),
       qa_operationKey = None, qa_error = None\<rparr> []"
| "queue_reducer state (Q_unknown operationKey) =
     become (state\<lparr>qa_status := QA_reconciling, qa_operationKey := Some operationKey,
       qa_error := Some unknown_notice\<rparr>) [QE_status operationKey]"
| "queue_reducer state (Q_reconcile operationKey) =
     become (state\<lparr>qa_status := QA_reconciling, qa_operationKey := Some operationKey\<rparr>)
       [QE_status operationKey]"
| "queue_reducer state Q_reconciled =
     become \<lparr>qa_status = QA_loading, qa_items = qa_items state, qa_operationKey = None,
       qa_error = None\<rparr> [QE_fetch None]"
| "queue_reducer state (Q_failed message unknown) =
     (if unknown
      then become (state\<lparr>qa_status := QA_indeterminate, qa_error := Some message\<rparr>) []
      else become \<lparr>qa_status = QA_ready, qa_items = qa_items state, qa_operationKey = None,
             qa_error = Some message\<rparr> [])"

section \<open>The effect runner\<close>

datatype queue_answer =
    A_items "queue_view_item list"
  | A_item queue_view_item
  | A_removed
  | A_status_success
  | A_status_error string
  | A_status_pending
  | A_status_unresolved string
  | A_outcome_unknown string
  | A_failed string

text \<open>
  The event an effect dispatches for what the Gateway answered. An answer of another method cannot
  occur (the client checks it against the schema of the method) and is mapped to a failure.
\<close>

fun queue_run_effect :: "queue_effect \<Rightarrow> queue_answer \<Rightarrow> queue_event" where
  "queue_run_effect (QE_fetch _) (A_items items) = Q_loaded items"
| "queue_run_effect (QE_status key) A_status_success = Q_reconciled"
| "queue_run_effect (QE_status key) (A_status_error message) = Q_failed message False"
| "queue_run_effect (QE_status key) A_status_pending = Q_reconcile key"
| "queue_run_effect (QE_status key) (A_status_unresolved message) = Q_failed message True"
| "queue_run_effect (QE_add _ _ _) (A_item item) = Q_mutated item"
| "queue_run_effect (QE_remove itemId _) A_removed = Q_mutation_removed itemId"
| "queue_run_effect (QE_steer _ _ _) (A_item item) = Q_mutated item"
| "queue_run_effect (QE_acknowledge _ _ _) (A_item item) = Q_mutated item"
| "queue_run_effect ef (A_outcome_unknown key) = Q_unknown key"
| "queue_run_effect ef (A_failed message) = Q_failed message False"
| "queue_run_effect ef _ = Q_failed [] False"

fun queue_effect_key :: "queue_effect \<Rightarrow> string option" where
  "queue_effect_key (QE_fetch _) = None"
| "queue_effect_key (QE_add _ _ key) = Some key"
| "queue_effect_key (QE_remove _ key) = Some key"
| "queue_effect_key (QE_steer _ _ key) = Some key"
| "queue_effect_key (QE_acknowledge _ _ key) = Some key"
| "queue_effect_key (QE_status key) = Some key"

fun is_query :: "queue_effect \<Rightarrow> bool" where
  "is_query (QE_fetch _) = True"
| "is_query (QE_status _) = True"
| "is_query _ = False"

fun queue_external :: "queue_event \<Rightarrow> bool" where
  "queue_external (Q_load _) = True"
| "queue_external (Q_add _ _ _) = True"
| "queue_external (Q_remove _ _) = True"
| "queue_external (Q_steer _ _ _) = True"
| "queue_external (Q_acknowledge _ _ _) = True"
| "queue_external (Q_changed _) = True"
| "queue_external (Q_removed _) = True"
| "queue_external _ = False"

text \<open>Only a mutation can end with an unknown outcome, and the client reports its own key.\<close>

definition queue_completes :: "queue_effect \<Rightarrow> queue_event \<Rightarrow> bool" where
  "queue_completes ef ev \<longleftrightarrow>
     (\<exists>answer. ev = queue_run_effect ef answer \<and>
        (\<forall>key. answer = A_outcome_unknown key \<longrightarrow> \<not> is_query ef \<and> queue_effect_key ef = Some key))"

section \<open>The tracked operation\<close>

definition queue_good :: "queue_actor_state \<Rightarrow> queue_effect list \<Rightarrow> bool" where
  "queue_good s L \<longleftrightarrow>
     (case qa_status s of
        QA_mutating \<Rightarrow> (\<exists>ef. L = [ef] \<and> \<not> is_query ef \<and> queue_effect_key ef = qa_operationKey s)
      | QA_reconciling \<Rightarrow> (\<exists>key. L = [QE_status key] \<and> qa_operationKey s = Some key)
      | QA_loading \<Rightarrow> L = [] \<or> (\<exists>tid. L = [QE_fetch tid])
      | _ \<Rightarrow> L = [])"

lemma queue_good_single: "queue_good s L \<Longrightarrow> ef \<in> set L \<Longrightarrow> L = [ef]"
  by (auto simp: queue_good_def split: queue_actor_status.splits)

lemma queue_good_external:
  "queue_good s L \<Longrightarrow> queue_external ev \<Longrightarrow>
   queue_good (next_state s (tr_state (queue_reducer s ev))) (live_after (queue_reducer s ev) L)"
  by (cases ev) (auto simp: queue_good_def transition_defs live_after_def reduce_mutation_def
      split: queue_actor_status.splits)

lemma queue_good_effect:
  assumes "queue_good s L" "ef \<in> set L" "queue_completes ef ev"
  shows "queue_good (next_state s (tr_state (queue_reducer s ev)))
    (live_after (queue_reducer s ev) (remove1 ef L))"
proof -
  obtain answer where ev: "ev = queue_run_effect ef answer"
    and key: "\<And>k. answer = A_outcome_unknown k \<Longrightarrow> \<not> is_query ef \<and> queue_effect_key ef = Some k"
    using assms(3) by (auto simp: queue_completes_def)
  show ?thesis
    unfolding queue_good_single [OF assms(1,2)] ev
    by (cases ef; cases answer) (auto simp: key queue_good_def transition_defs live_after_def)
qed

lemma queue_good_initial: "queue_good queue_initial []"
  by (simp add: queue_good_def queue_initial_def)

interpretation queue_protocol: effect_protocol queue_reducer queue_external queue_completes
  "\<lambda>_. False" queue_initial queue_good
proof unfold_locales
  fix s ev
  show "tr_preserve (queue_reducer s ev) \<Longrightarrow> tr_effects (queue_reducer s ev) = []"
    by (cases ev) (auto simp: transition_defs reduce_mutation_def split: if_splits)
qed (simp_all add: queue_good_external queue_good_effect queue_good_initial)

section \<open>Properties\<close>

text \<open>
  A queue mutation is never forgotten: in every reachable state of the queue actor, a mutation in
  progress has exactly one live request, which carries the recorded operation key, and a mutation
  under reconciliation has exactly one live status query with that key. Notifications and stray
  refreshes that arrive meanwhile do not cancel it.
\<close>

theorem queue_actor_tracks_operation:
  assumes "actor_new parent False name queue_initial = Inr a0"
    and "sys_run queue_reducer queue_external queue_completes (\<lambda>_. False) (a0, []) (a, fs)"
    and "\<not> a_closed a" and "\<not> a_scope_closed a"
  shows "(qa_status (a_state a) = QA_mutating \<longrightarrow>
      (\<exists>ef. live a fs = [ef] \<and> \<not> is_query ef \<and> queue_effect_key ef = qa_operationKey (a_state a))) \<and>
    (qa_status (a_state a) = QA_reconciling \<longrightarrow>
      (\<exists>key. live a fs = [QE_status key] \<and> qa_operationKey (a_state a) = Some key))"
  using queue_protocol.reachable_good [OF assms]
  by (auto simp: queue_good_def)

section \<open>Witness\<close>

theorem queue_actor_tracks_operation_witness:
  "\<exists>(a0 :: queue_actor_state actor) a fs. actor_new ''web'' False ''queue'' queue_initial = Inr a0 \<and>
     sys_run queue_reducer queue_external queue_completes (\<lambda>_. False) (a0, []) (a, fs) \<and>
     qa_status (a_state a) = QA_mutating \<and>
     (\<exists>ef. live a fs = [ef] \<and> \<not> is_query ef \<and> queue_effect_key ef = qa_operationKey (a_state a))"
proof -
  obtain a0 where new: "actor_new ''web'' False ''queue'' queue_initial = Inr a0"
    by (simp add: actor_new_def)
  obtain r1 ns1 a1 where d1: "actor_dispatch queue_reducer (Q_load None) a0 = (r1, ns1, a1)"
    by (metis prod.collapse)
  define f where "f = (QE_fetch None, a_generation a1, the (a_effect_scope a1))"
  obtain r2 ns2 a2 where d2: "context_dispatch queue_reducer (snd f) (Q_loaded []) a1 = (r2, ns2, a2)"
    by (metis prod.collapse)
  obtain r3 ns3 a3 where d3: "actor_dispatch queue_reducer (Q_remove ''q1'' ''k1'') a2 = (r3, ns3, a3)"
    by (metis prod.collapse)
  have run1: "sys_run queue_reducer queue_external queue_completes (\<lambda>_. False) (a0, []) (a1, [] @ started r1)"
    by (rule run_external [OF sys_run.run_refl _ d1]) simp
  have f: "f \<in> set ([] @ started r1)"
    using new d1 by (auto simp: f_def actor_new_def actor_dispatch_def Let_def queue_initial_def transition_defs abort_effects_def)
  have "queue_completes (fst f) (Q_loaded [])"
    unfolding queue_completes_def f_def by (auto intro: exI [of _ "A_items []"])
  then have run2: "sys_run queue_reducer queue_external queue_completes (\<lambda>_. False) (a0, [])
      (a2, remove1 f ([] @ started r1) @ started r2)"
    using sys_run.run_step [OF run1] sys_step.effect_event [OF f _ d2] by blast
  have run: "sys_run queue_reducer queue_external queue_completes (\<lambda>_. False) (a0, [])
      (a3, (remove1 f ([] @ started r1) @ started r2) @ started r3)"
    by (rule run_external [OF run2 _ d3]) simp
  have at: "qa_status (a_state a3) = QA_mutating \<and> \<not> a_closed a3 \<and> \<not> a_scope_closed a3"
    using new d1 d2 d3 by (auto simp: f_def actor_new_def actor_dispatch_def context_dispatch_def is_current_def Let_def
        queue_initial_def transition_defs abort_effects_def reduce_mutation_def)
  then have "\<exists>ef. live a3 ((remove1 f ([] @ started r1) @ started r2) @ started r3) = [ef] \<and>
      \<not> is_query ef \<and> queue_effect_key ef = qa_operationKey (a_state a3)"
    using queue_actor_tracks_operation [OF new run] by simp
  with at new run show ?thesis by blast
qed

end
