(* ===== verification/Web_ListActors.thy ===== *)
theory Web_ListActors
  imports Kernel_Actor Web_Timeline
begin

text \<open>
  The remaining actors of the web client whose reducers coordinate a request with the state on
  screen: the task list (\<open>task-list-actor.ts\<close>), the onboarding (\<open>onboarding-actor.ts\<close>), the model
  catalogue (\<open>model-catalog-actor.ts\<close>), the connection (\<open>connection-actor.ts\<close>) and the administration
  page (\<open>admin-actor.ts\<close>), all under \<open>apps/web/src/v4/actors\<close>.
\<close>

section \<open>Task list\<close>

datatype task_list_status = TL_loading | TL_ready | TL_paginating | TL_failed

text \<open>\<open>pendingStateChanges\<close> is an object whose entries are visited in insertion order.\<close>

record task_list_state =
  tl_status :: task_list_status
  tl_tasks :: "thread_summary list"
  tl_requestInFlight :: bool
  tl_refreshPending :: bool
  tl_nextCursor :: "string option"
  tl_hasMore :: bool
  tl_archived :: bool
  tl_workspaceId :: "string option"
  tl_workspaceLabel :: "string option"
  tl_error :: "string option"
  tl_pendingStateChanges :: "(string \<times> thread_state) list"

record task_page =
  tp_threads :: "thread_summary list"
  tp_nextCursor :: "string option"
  tp_hasMore :: bool

datatype task_list_event =
    L_load "string option" "string option" "bool option"
  | L_more
  | L_loaded task_page bool
  | L_thread_state_changed string thread_state
  | L_failed string

record task_list_effect =
  fe_append :: bool
  fe_workspaceId :: "string option"
  fe_archived :: bool
  fe_cursor :: "string option"

definition task_list_initial :: task_list_state where
  "task_list_initial =
     \<lparr>tl_status = TL_loading, tl_tasks = [], tl_requestInFlight = False, tl_refreshPending = False,
      tl_nextCursor = None, tl_hasMore = False, tl_archived = False, tl_workspaceId = None,
      tl_workspaceLabel = None, tl_error = None, tl_pendingStateChanges = []\<rparr>"

definition refreshEffect :: "task_list_state \<Rightarrow> task_list_effect" where
  "refreshEffect state =
     \<lparr>fe_append = False, fe_workspaceId = tl_workspaceId state, fe_archived = tl_archived state,
      fe_cursor = None\<rparr>"

text \<open>
  \<open>Map.set\<close> and the assignment of an object entry: an existing key keeps its place.
\<close>

fun map_set :: "'k \<Rightarrow> 'v \<Rightarrow> ('k \<times> 'v) list \<Rightarrow> ('k \<times> 'v) list" where
  "map_set k v [] = [(k, v)]"
| "map_set k v ((k', v') # m) = (if k' = k then (k, v) # m else (k', v') # map_set k v m)"

definition mergeTasks :: "thread_summary list \<Rightarrow> thread_summary list \<Rightarrow> thread_summary list" where
  "mergeTasks current next_page =
     sort_key (\<lambda>t. - th_updated_at t)
       (map snd (foldl (\<lambda>byId task. map_set (th_id task) task byId)
                  (foldl (\<lambda>byId task. map_set (th_id task) task byId) [] current) next_page))"

text \<open>\<open>Same\<close> is the very list that was passed; only the first task with the id is replaced.\<close>

fun replace_first_state :: "thread_summary list \<Rightarrow> string \<Rightarrow> thread_state \<Rightarrow> thread_summary list nextst" where
  "replace_first_state [] threadId state = Same"
| "replace_first_state (task # tasks) threadId state =
     (if th_id task = threadId
      then (if th_state task = state then Same else New (task\<lparr>th_state := state\<rparr> # tasks))
      else (case replace_first_state tasks threadId state of
              Same \<Rightarrow> Same | New tasks' \<Rightarrow> New (task # tasks')))"

definition replaceTaskState :: "thread_summary list \<Rightarrow> string \<Rightarrow> thread_state \<Rightarrow> thread_summary list" where
  "replaceTaskState tasks threadId state = next_state tasks (replace_first_state tasks threadId state)"

definition applyPendingStateChanges ::
  "thread_summary list \<Rightarrow> (string \<times> thread_state) list \<Rightarrow> thread_summary list" where
  "applyPendingStateChanges tasks changes =
     foldl (\<lambda>result (threadId, state). replaceTaskState result threadId state) tasks changes"

fun task_list_reducer ::
  "task_list_state \<Rightarrow> task_list_event \<Rightarrow> (task_list_state, task_list_effect) transition" where
  "task_list_reducer state (L_load workspaceId workspaceLabel archived_opt) =
     (let archived = (case archived_opt of Some b \<Rightarrow> b | None \<Rightarrow> False);
          sameScope = (tl_archived state = archived \<and> tl_workspaceId state = workspaceId)
      in if sameScope \<and> tl_requestInFlight state
         then preserve (state\<lparr>tl_refreshPending := True\<rparr>)
         else let base = (if sameScope then state\<lparr>tl_error := None\<rparr>
                else task_list_initial\<lparr>tl_archived := archived, tl_workspaceId := workspaceId\<rparr>)
           in become (base\<lparr>tl_status := TL_loading, tl_requestInFlight := True,
                  tl_refreshPending := False, tl_pendingStateChanges := [],
                  tl_workspaceLabel := (case workspaceLabel of Some l \<Rightarrow> Some l
                                        | None \<Rightarrow> tl_workspaceLabel base)\<rparr>)
                [\<lparr>fe_append = False, fe_workspaceId = workspaceId, fe_archived = archived,
                  fe_cursor = None\<rparr>])"
| "task_list_reducer state L_more =
     (if tl_requestInFlight state \<or> \<not> tl_hasMore state \<or> tl_nextCursor state = None then keep
      else become (state\<lparr>tl_status := TL_paginating, tl_requestInFlight := True\<rparr>)
             [\<lparr>fe_append = True, fe_workspaceId = tl_workspaceId state,
               fe_archived = tl_archived state, fe_cursor = tl_nextCursor state\<rparr>])"
| "task_list_reducer state (L_loaded page isAppend) =
     (let refreshAgain = tl_refreshPending state;
          tasks = applyPendingStateChanges
            (if isAppend then mergeTasks (tl_tasks state) (tp_threads page) else tp_threads page)
            (tl_pendingStateChanges state)
      in become (state\<lparr>tl_error := None, tl_status := (if refreshAgain then TL_loading else TL_ready),
             tl_tasks := tasks, tl_requestInFlight := refreshAgain, tl_refreshPending := False,
             tl_pendingStateChanges := [], tl_nextCursor := tp_nextCursor page,
             tl_hasMore := tp_hasMore page\<rparr>)
           (if refreshAgain then [refreshEffect state] else []))"
| "task_list_reducer state (L_thread_state_changed threadId st) =
     (case (tl_requestInFlight state, replace_first_state (tl_tasks state) threadId st) of
        (False, Same) \<Rightarrow> keep
      | (inFlight, _) \<Rightarrow>
          preserve (state\<lparr>tl_tasks := replaceTaskState (tl_tasks state) threadId st,
            tl_pendingStateChanges :=
              (if inFlight then map_set threadId st (tl_pendingStateChanges state)
               else tl_pendingStateChanges state)\<rparr>))"
| "task_list_reducer state (L_failed message) =
     (if tl_refreshPending state
      then become (state\<lparr>tl_status := TL_loading, tl_requestInFlight := True,
             tl_refreshPending := False, tl_pendingStateChanges := []\<rparr>) [refreshEffect state]
      else become (state\<lparr>tl_status := TL_failed, tl_requestInFlight := False,
             tl_refreshPending := False, tl_error := Some message, tl_pendingStateChanges := []\<rparr>) [])"

text \<open>What the effect runner dispatches for the answer of the Gateway.\<close>

fun task_list_run_effect :: "task_list_effect \<Rightarrow> string + task_page \<Rightarrow> task_list_event" where
  "task_list_run_effect effect (Inr page) = L_loaded page (fe_append effect)"
| "task_list_run_effect effect (Inl message) = L_failed message"

fun task_list_external :: "task_list_event \<Rightarrow> bool" where
  "task_list_external (L_loaded _ _) = False"
| "task_list_external (L_failed _) = False"
| "task_list_external _ = True"

definition task_list_completes :: "task_list_effect \<Rightarrow> task_list_event \<Rightarrow> bool" where
  "task_list_completes effect ev \<longleftrightarrow> (\<exists>answer. ev = task_list_run_effect effect answer)"

text \<open>A request in flight is one live request for the scope that is on screen.\<close>

definition task_list_good :: "task_list_state \<Rightarrow> task_list_effect list \<Rightarrow> bool" where
  "task_list_good s L \<longleftrightarrow>
     (if tl_requestInFlight s
      then \<exists>ef. L = [ef] \<and> fe_archived ef = tl_archived s \<and> fe_workspaceId ef = tl_workspaceId s
      else L = [] \<and> \<not> tl_refreshPending s)"

lemma task_list_good_external:
  "task_list_good s L \<Longrightarrow> task_list_external ev \<Longrightarrow>
   task_list_good (next_state s (tr_state (task_list_reducer s ev))) (live_after (task_list_reducer s ev) L)"
  by (cases ev) (auto simp: task_list_good_def transition_defs live_after_def Let_def task_list_initial_def
      split: if_splits nextst.splits bool.splits)

lemma task_list_good_effect:
  assumes "task_list_good s L" "ef \<in> set L" "task_list_completes ef ev"
  shows "task_list_good (next_state s (tr_state (task_list_reducer s ev)))
    (live_after (task_list_reducer s ev) (remove1 ef L))"
proof -
  obtain answer where "ev = task_list_run_effect ef answer"
    using assms(3) by (auto simp: task_list_completes_def)
  with assms(1,2) show ?thesis
    by (cases answer) (auto simp: task_list_good_def transition_defs live_after_def Let_def
        refreshEffect_def split: if_splits)
qed

lemma task_list_good_initial: "task_list_good task_list_initial []"
  by (simp add: task_list_good_def task_list_initial_def)

interpretation task_list_protocol: effect_protocol task_list_reducer task_list_external
  task_list_completes "\<lambda>_. False" task_list_initial task_list_good
proof unfold_locales
  fix s ev
  show "tr_preserve (task_list_reducer s ev) \<Longrightarrow> tr_effects (task_list_reducer s ev) = []"
    by (cases ev) (auto simp: transition_defs Let_def split: if_splits nextst.splits bool.splits)
qed (simp_all add: task_list_good_external task_list_good_effect task_list_good_initial)

section \<open>Onboarding\<close>

datatype onboarding_step = OS_inspect | OS_network | OS_install | OS_codex_login | OS_ready

record setup_status =
  ss_networkConfigured :: bool
  ss_codexInstalled :: bool
  ss_codexAuthenticated :: bool

datatype install_phase = IP_preparing | IP_installing | IP_verifying | IP_completed | IP_failed

record login_completion =
  lc_success :: bool
  lc_error :: "string option"

record onboarding_state =
  on_step :: onboarding_step
  on_loading :: bool
  on_status :: "setup_status option"
  on_installProgress :: "install_phase option"
  on_loginCompletion :: "login_completion option"
  on_error :: "string option"

datatype onboarding_event =
    O_inspect
  | O_install_started
  | O_runtime_restarted
  | O_login_started
  | O_loaded setup_status
  | O_install_progress install_phase
  | O_login_completed login_completion
  | O_failed string

datatype onboarding_effect = OE_load

definition onboarding_initial :: onboarding_state where
  "onboarding_initial =
     \<lparr>on_step = OS_inspect, on_loading = False, on_status = None, on_installProgress = None,
      on_loginCompletion = None, on_error = None\<rparr>"

definition setupStep :: "setup_status \<Rightarrow> onboarding_step" where
  "setupStep status =
     (if \<not> ss_networkConfigured status then OS_network
      else if \<not> ss_codexInstalled status then OS_install
      else if \<not> ss_codexAuthenticated status then OS_codex_login
      else OS_ready)"

text \<open>The notices of the source are Chinese; the two constants stand for them.\<close>

definition install_failed_notice :: string where
  "install_failed_notice = ''codex update or app-server switch failed''"

definition login_failed_notice :: string where
  "login_failed_notice = ''codex device login failed''"

definition login_error :: "login_completion \<Rightarrow> string" where
  "login_error c = (case lc_error c of Some e \<Rightarrow> e | None \<Rightarrow> login_failed_notice)"

fun onboarding_reducer ::
  "onboarding_state \<Rightarrow> onboarding_event \<Rightarrow> (onboarding_state, onboarding_effect) transition" where
  "onboarding_reducer state O_inspect =
     become (state\<lparr>on_error := None, on_loading := True\<rparr>) [OE_load]"
| "onboarding_reducer state O_install_started =
     become (state\<lparr>on_error := None, on_installProgress := None\<rparr>) []"
| "onboarding_reducer state O_runtime_restarted =
     preserve (state\<lparr>on_error := None, on_installProgress := None\<rparr>)"
| "onboarding_reducer state O_login_started =
     become (state\<lparr>on_error := None, on_loginCompletion := None\<rparr>) []"
| "onboarding_reducer state (O_loaded status) =
     (let error = (if on_installProgress state = Some IP_failed then Some install_failed_notice
            else case on_loginCompletion state of
                   Some c \<Rightarrow> if \<not> ss_codexAuthenticated status \<and> \<not> lc_success c
                             then Some (login_error c) else None
                 | None \<Rightarrow> None)
      in become (state\<lparr>on_error := error, on_loading := False, on_step := setupStep status,
           on_status := Some status\<rparr>) [])"
| "onboarding_reducer state (O_install_progress phase) =
     preserve (state\<lparr>on_error := (if phase = IP_failed then Some install_failed_notice else None),
       on_installProgress := Some phase\<rparr>)"
| "onboarding_reducer state (O_login_completed c) =
     preserve (state\<lparr>on_error := (if lc_success c then None else Some (login_error c)),
       on_loginCompletion := Some c\<rparr>)"
| "onboarding_reducer state (O_failed message) =
     become (state\<lparr>on_loading := False, on_error := Some message\<rparr>) []"

fun onboarding_run_effect :: "onboarding_effect \<Rightarrow> string + setup_status \<Rightarrow> onboarding_event" where
  "onboarding_run_effect OE_load (Inr status) = O_loaded status"
| "onboarding_run_effect OE_load (Inl message) = O_failed message"

section \<open>Model catalogue\<close>

record model_entry =
  me_model :: string
  me_displayName :: string

record model_page =
  mp_models :: "model_entry list"
  mp_nextCursor :: "string option"
  mp_hasMore :: bool

datatype model_catalog_status = MC_idle | MC_loading | MC_ready | MC_failed

record model_catalog_state =
  mc_status :: model_catalog_status
  mc_models :: "model_entry list"
  mc_error :: "string option"

datatype model_catalog_event = M_load | M_loaded "model_entry list" | M_failed string

datatype model_catalog_effect = ME_fetch

fun model_catalog_reducer ::
  "model_catalog_state \<Rightarrow> model_catalog_event \<Rightarrow> (model_catalog_state, model_catalog_effect) transition" where
  "model_catalog_reducer state M_load =
     become \<lparr>mc_status = MC_loading, mc_models = mc_models state, mc_error = None\<rparr> [ME_fetch]"
| "model_catalog_reducer state (M_loaded models) =
     become \<lparr>mc_status = MC_ready, mc_models = models, mc_error = None\<rparr> []"
| "model_catalog_reducer state (M_failed message) =
     become \<lparr>mc_status = MC_failed, mc_models = mc_models state, mc_error = Some message\<rparr> []"

fun unique_models_loop :: "string set \<Rightarrow> model_entry list \<Rightarrow> model_entry list" where
  "unique_models_loop seen [] = []"
| "unique_models_loop seen (m # ms) =
     (if me_model m \<in> seen then unique_models_loop seen ms
      else m # unique_models_loop (insert (me_model m) seen) ms)"

definition uniqueModels :: "model_entry list \<Rightarrow> model_entry list" where
  "uniqueModels models = unique_models_loop {} models"

text \<open>
  The page loop of the effect runner; \<open>pages\<close> is what the Gateway answers to the cursor of each page
  (\<open>Inl\<close> a failure) and \<open>left\<close> the number of iterations the \<open>for\<close> loop still has, 20 at the start.
  The two error texts of the source are Chinese.
\<close>

fun load_models ::
  "(string option \<Rightarrow> string + model_page) \<Rightarrow> nat \<Rightarrow> string set \<Rightarrow> string option \<Rightarrow> model_entry list \<Rightarrow>
   string + model_entry list" where
  "load_models pages 0 seen cursor models = Inr models"
| "load_models pages (Suc left) seen cursor models =
     (case pages cursor of Inl message \<Rightarrow> Inl message
      | Inr page \<Rightarrow>
          let models' = models @ mp_models page in
          if \<not> mp_hasMore page then Inr models'
          else case mp_nextCursor page of None \<Rightarrow> Inr models'
               | Some next_cursor \<Rightarrow>
                   if next_cursor \<in> seen then Inl ''duplicate model catalogue cursor''
                   else if left = 0 then Inl ''too many model catalogue pages''
                   else load_models pages left (insert next_cursor seen) (Some next_cursor) models')"

definition model_catalog_run_effect :: "(string option \<Rightarrow> string + model_page) \<Rightarrow> model_catalog_event" where
  "model_catalog_run_effect pages =
     (case load_models pages 20 {} None [] of
        Inr models \<Rightarrow> M_loaded (uniqueModels models)
      | Inl message \<Rightarrow> M_failed message)"

section \<open>Connection\<close>

datatype connection_status =
    CN_disconnected | CN_connecting | CN_authenticating | CN_online | CN_reconnecting | CN_upgrade_required

record connection_state =
  cn_status :: connection_status
  cn_hostName :: "string option"
  cn_error :: "string option"

datatype connection_event =
    N_connect "string option"
  | N_authenticating
  | N_connected string
  | N_lost string
  | N_reconnecting
  | N_upgrade_required string
  | N_disconnect

fun connection_reducer :: "connection_state \<Rightarrow> connection_event \<Rightarrow> (connection_state, unit) transition" where
  "connection_reducer state (N_connect hostName) =
     become \<lparr>cn_status = CN_connecting, cn_hostName = hostName, cn_error = None\<rparr> []"
| "connection_reducer state N_authenticating = become (state\<lparr>cn_status := CN_authenticating\<rparr>) []"
| "connection_reducer state (N_connected hostName) =
     become \<lparr>cn_status = CN_online, cn_hostName = Some hostName, cn_error = None\<rparr> []"
| "connection_reducer state (N_lost message) =
     become (state\<lparr>cn_status := CN_disconnected, cn_error := Some message\<rparr>) []"
| "connection_reducer state N_reconnecting = become (state\<lparr>cn_status := CN_reconnecting\<rparr>) []"
| "connection_reducer state (N_upgrade_required message) =
     become \<lparr>cn_status = CN_upgrade_required, cn_hostName = None, cn_error = Some message\<rparr> []"
| "connection_reducer state N_disconnect =
     become \<lparr>cn_status = CN_disconnected, cn_hostName = None, cn_error = None\<rparr> []"

section \<open>Administration page\<close>

datatype admin_status = AD_signed_out | AD_authenticating | AD_ready | AD_mutating

text \<open>The host status and the audit events are passed through unchanged.\<close>

record ('h, 'v) admin_state =
  ad_status :: admin_status
  ad_host :: "'h option"
  ad_audit :: "'v list"
  ad_error :: "string option"

datatype ('h, 'v) admin_event = A_load | A_mutating | A_loaded 'h "'v list" | A_failed string

datatype admin_effect = AE_fetch

definition admin_initial :: "('h, 'v) admin_state" where
  "admin_initial = \<lparr>ad_status = AD_signed_out, ad_host = None, ad_audit = [], ad_error = None\<rparr>"

fun admin_reducer ::
  "('h, 'v) admin_state \<Rightarrow> ('h, 'v) admin_event \<Rightarrow> (('h, 'v) admin_state, admin_effect) transition" where
  "admin_reducer state A_load = become (state\<lparr>ad_status := AD_authenticating\<rparr>) [AE_fetch]"
| "admin_reducer state A_mutating = become (state\<lparr>ad_status := AD_mutating\<rparr>) []"
| "admin_reducer state (A_loaded host audit) =
     become \<lparr>ad_status = AD_ready, ad_host = Some host, ad_audit = audit, ad_error = None\<rparr> []"
| "admin_reducer state (A_failed message) =
     become (state\<lparr>ad_status := AD_signed_out, ad_error := Some message\<rparr>) []"

section \<open>Properties\<close>

text \<open>
  In every reachable state of the task list, a request in flight is one live request for the
  archive filter and workspace on screen, and otherwise no request is live and no refresh is owed. So
  a page of another scope is never merged into the visible list and a requested refresh is not lost.
\<close>

theorem task_list_request_matches_scope:
  assumes "actor_new parent False name task_list_initial = Inr a0"
    and "sys_run task_list_reducer task_list_external task_list_completes (\<lambda>_. False) (a0, []) (a, fs)"
    and "\<not> a_closed a" and "\<not> a_scope_closed a"
  shows "if tl_requestInFlight (a_state a)
    then \<exists>ef. live a fs = [ef] \<and> fe_archived ef = tl_archived (a_state a) \<and>
           fe_workspaceId ef = tl_workspaceId (a_state a)
    else live a fs = [] \<and> \<not> tl_refreshPending (a_state a)"
  using task_list_protocol.reachable_good [OF assms] by (simp add: task_list_good_def)

lemma replaceTaskState_map:
  "distinct (map th_id tasks) \<Longrightarrow>
   replaceTaskState tasks threadId st =
     map (\<lambda>t. if th_id t = threadId then t\<lparr>th_state := st\<rparr> else t) tasks"
proof (induction tasks)
  case Nil
  then show ?case by (simp add: replaceTaskState_def)
next
  case (Cons task tasks)
  have other: "map (\<lambda>t. if th_id t = th_id task then t\<lparr>th_state := st\<rparr> else t) tasks = tasks"
    by (rule map_idI) (metis Cons.prems distinct.simps(2) image_eqI image_set list.simps(9))
  show ?case
    using Cons other
    by (auto simp: replaceTaskState_def split: nextst.splits)
qed

lemma applyPendingStateChanges_map:
  assumes "distinct (map th_id tasks)" "distinct (map fst changes)"
  shows "applyPendingStateChanges tasks changes =
    map (\<lambda>t. case map_of changes (th_id t) of Some st \<Rightarrow> t\<lparr>th_state := st\<rparr> | None \<Rightarrow> t) tasks"
  using assms
proof (induction changes arbitrary: tasks)
  case Nil
  then show ?case by (simp add: applyPendingStateChanges_def)
next
  case (Cons c changes)
  obtain tid st where c: "c = (tid, st)" by force
  let ?tasks = "map (\<lambda>t. if th_id t = tid then t\<lparr>th_state := st\<rparr> else t) tasks"
  have "map th_id ?tasks = map th_id tasks" by simp
  then have d: "distinct (map th_id ?tasks)" using Cons.prems by metis
  have fresh: "map_of changes tid = None"
    using Cons.prems c by (simp add: map_of_eq_None_iff)
  have "applyPendingStateChanges tasks (c # changes) = applyPendingStateChanges ?tasks changes"
    using Cons.prems c by (simp add: applyPendingStateChanges_def replaceTaskState_map)
  also have "\<dots> = map (\<lambda>t. case map_of changes (th_id t) of Some st \<Rightarrow> t\<lparr>th_state := st\<rparr> | None \<Rightarrow> t) ?tasks"
    using Cons.IH d Cons.prems by simp
  also have "\<dots> = map (\<lambda>t. case map_of (c # changes) (th_id t) of Some st \<Rightarrow> t\<lparr>th_state := st\<rparr> | None \<Rightarrow> t) tasks"
    using fresh c by auto
  finally show ?case .
qed

lemma map_of_map_set: "map_of (map_set k v m) = (map_of m)(k \<mapsto> v)"
  by (induction m) auto

lemma keys_map_set: "fst ` set (map_set k v m) = insert k (fst ` set m)"
  by (induction k v m rule: map_set.induct) auto

lemma set_map_set: "set (map_set k v m) \<subseteq> insert (k, v) (set m)"
  by (induction k v m rule: map_set.induct) auto

lemma distinct_map_set: "distinct (map fst m) \<Longrightarrow> distinct (map fst (map_set k v m))"
  by (induction m) (auto simp: keys_map_set)

text \<open>
  A state change that is reported while a page is requested is not undone by the page: when
  the page arrives, each of its tasks shows the reported state if there was a report for it and the
  state of the page otherwise.
\<close>

theorem task_list_page_keeps_reported_states:
  assumes "tl_requestInFlight s" and "distinct (map fst (tl_pendingStateChanges s))"
    and "distinct (map th_id (tp_threads page))"
  shows "let s1 = next_state s (tr_state (task_list_reducer s (L_thread_state_changed tid st)));
             s2 = next_state s1 (tr_state (task_list_reducer s1 (L_loaded page False)))
    in tl_tasks s2 = map (\<lambda>t. case ((map_of (tl_pendingStateChanges s))(tid \<mapsto> st)) (th_id t) of
         Some reported \<Rightarrow> t\<lparr>th_state := reported\<rparr> | None \<Rightarrow> t) (tp_threads page)"
  using assms
  by (simp add: transition_defs Let_def applyPendingStateChanges_map distinct_map_set map_of_map_set
      split: nextst.splits)

lemma map_set_foldl_keys:
  assumes "distinct (map fst m)" "\<forall>(k, t) \<in> set m. k = th_id t"
  shows "distinct (map fst (foldl (\<lambda>m t. map_set (th_id t) t m) m ts)) \<and>
    (\<forall>(k, t) \<in> set (foldl (\<lambda>m t. map_set (th_id t) t m) m ts). k = th_id t) \<and>
    map_of (foldl (\<lambda>m t. map_set (th_id t) t m) m ts) = map_of (rev (map (\<lambda>t. (th_id t, t)) ts) @ m)"
  using assms
proof (induction ts arbitrary: m)
  case (Cons t ts)
  have "\<forall>(k, u) \<in> set (map_set (th_id t) t m). k = th_id u"
    using set_map_set [of "th_id t" t m] Cons.prems(2) by blast
  with Cons.IH [of "map_set (th_id t) t m"] Cons.prems(1) show ?case
    by (simp add: distinct_map_set map_of_map_set)
qed auto

text \<open>
  Appending a page to the task list: the merged list is ordered by falling update time, has
  each task id once, and shows for every id the last version given, those of the new page before those
  on screen.
\<close>

theorem mergeTasks_correct:
  "sorted (map (\<lambda>t. - th_updated_at t) (mergeTasks current page)) \<and>
   distinct (map th_id (mergeTasks current page)) \<and>
   set (mergeTasks current page) =
     {t. map_of (rev (map (\<lambda>t. (th_id t, t)) (current @ page))) (th_id t) = Some t}"
proof -
  define m where "m = foldl (\<lambda>m t. map_set (th_id t) t m) [] (current @ page)"
  have merged: "mergeTasks current page = sort_key (\<lambda>t. - th_updated_at t) (map snd m)"
    by (simp add: mergeTasks_def m_def)
  have d: "distinct (map fst m)" and keys: "\<forall>(k, t) \<in> set m. k = th_id t"
    and look: "map_of m = map_of (rev (map (\<lambda>t. (th_id t, t)) (current @ page)))"
    using map_set_foldl_keys [of "[]" "current @ page"] by (simp_all add: m_def)
  have "map th_id (map snd m) = map fst m"
    using keys by auto
  then have "distinct (map th_id (map snd m))" using d by metis
  then have "distinct (map th_id (mergeTasks current page))"
    unfolding merged distinct_map [of th_id] by (simp only: set_sort distinct_sort)
  moreover have "set (map snd m) = {t. map_of m (th_id t) = Some t}"
    using keys d by (force simp: map_of_eq_Some_iff)
  ultimately show ?thesis
    unfolding merged look [symmetric] by simp
qed

text \<open>
  A fault of the onboarding actor: if an installation (or a login) is started while the setup
  status is being loaded, the request is abandoned but the state keeps \<open>loading\<close>: no request that was
  in flight can dispatch its answer any more, and the page stays in the loading state until the next
  inspection.
\<close>

theorem onboarding_start_strands_loading:
  assumes "\<not> a_closed a" and "on_loading (a_state a)" and "ev = O_install_started \<or> ev = O_login_started"
  shows "let a' = snd (snd (actor_dispatch onboarding_reducer ev a))
    in on_loading (a_state a') \<and> a_effect_scope a' = None \<and>
       (\<forall>ctx answer. context_dispatch onboarding_reducer ctx answer a' = (Inr [], [], a'))"
  using assms
  by (auto simp: Let_def actor_dispatch_def transition_defs context_dispatch_def is_current_def)

section \<open>Witnesses\<close>

definition example_task :: "string \<Rightarrow> int \<Rightarrow> thread_summary" where
  "example_task i at = \<lparr>th_id = i, th_workspace_id = ''w1'', th_title = [], th_state = TS_idle,
     th_archived = False, th_created_at = 0, th_updated_at = at\<rparr>"

theorem task_list_request_matches_scope_witness:
  "\<exists>(a0 :: task_list_state actor) a fs. actor_new ''web'' False ''tasks'' task_list_initial = Inr a0 \<and>
     sys_run task_list_reducer task_list_external task_list_completes (\<lambda>_. False) (a0, []) (a, fs) \<and>
     tl_requestInFlight (a_state a) \<and> (\<exists>ef. live a fs = [ef] \<and> fe_archived ef = tl_archived (a_state a) \<and>
     fe_workspaceId ef = tl_workspaceId (a_state a))"
proof -
  obtain a0 where new: "actor_new ''web'' False ''tasks'' task_list_initial = Inr a0"
    by (simp add: actor_new_def)
  obtain r ns a where d: "actor_dispatch task_list_reducer (L_load (Some ''w1'') None None) a0 = (r, ns, a)"
    by (metis prod.collapse)
  have run: "sys_run task_list_reducer task_list_external task_list_completes (\<lambda>_. False) (a0, []) (a, [] @ started r)"
    by (rule run_external [OF sys_run.run_refl _ d]) simp
  have at: "tl_requestInFlight (a_state a) \<and> \<not> a_closed a \<and> \<not> a_scope_closed a"
    using new d by (auto simp: actor_new_def actor_dispatch_def Let_def task_list_initial_def transition_defs abort_effects_def)
  then have "\<exists>ef. live a ([] @ started r) = [ef] \<and> fe_archived ef = tl_archived (a_state a) \<and>
      fe_workspaceId ef = tl_workspaceId (a_state a)"
    using task_list_request_matches_scope [OF new run] by auto
  with at new run show ?thesis by blast
qed

theorem task_list_page_keeps_reported_states_witness:
  "let s = task_list_initial\<lparr>tl_requestInFlight := True\<rparr>;
       page = \<lparr>tp_threads = [example_task ''t1'' 5], tp_nextCursor = None, tp_hasMore = False\<rparr>;
       s1 = next_state s (tr_state (task_list_reducer s (L_thread_state_changed ''t1'' TS_running)));
       s2 = next_state s1 (tr_state (task_list_reducer s1 (L_loaded page False)))
   in map th_state (tl_tasks s2) = [TS_running]"
  using task_list_page_keeps_reported_states [of "task_list_initial\<lparr>tl_requestInFlight := True\<rparr>"
      "\<lparr>tp_threads = [example_task ''t1'' 5], tp_nextCursor = None, tp_hasMore = False\<rparr>" "''t1''" TS_running]
  by (simp add: task_list_initial_def example_task_def Let_def del: task_list_reducer.simps)

theorem onboarding_start_strands_loading_witness:
  "let a = \<lparr>a_name = ''web'', a_state = onboarding_initial\<lparr>on_loading := True\<rparr>, a_generation = 1, a_effect_scope = Some 0,
         a_next_scope = 1, a_aborted = [], a_listeners = [], a_scope_closed = False, a_closed = False\<rparr>;
       a' = snd (snd (actor_dispatch onboarding_reducer O_login_started a))
   in on_loading (a_state a') \<and> context_dispatch onboarding_reducer (1, 0) (O_failed ''offline'') a' = (Inr [], [], a')"
  using onboarding_start_strands_loading [of "\<lparr>a_name = ''web'', a_state = onboarding_initial\<lparr>on_loading := True\<rparr>,
      a_generation = 1, a_effect_scope = Some 0, a_next_scope = 1, a_aborted = [], a_listeners = [],
      a_scope_closed = False, a_closed = False\<rparr>" O_login_started]
  by (simp add: Let_def onboarding_initial_def)

end
