(* ===== verification/Gateway_Protocol.thy ===== *)
theory Gateway_Protocol
  imports Mutation_Middleware
begin

text \<open>
  The Gateway protocol of \<open>packages/protocol/src/v2\<close>: the registry of methods (\<open>methods.ts\<close>), the
  envelopes on the wire (\<open>wire.ts\<close>), the router of the agent (\<open>router.ts\<close>) and the client of the browser
  (\<open>client.ts\<close>). The schemas are declarations for the third-party validator: what it answers for a value is
  the argument \<open>zod\<close>, and \<open>zod_laws\<close> states what the protocol relies on. A handler and the mutation
  middleware are arguments, as the code receives them.
\<close>

section \<open>The registry of methods\<close>

datatype access = PreAuth | UserAccess | AdminAccess

datatype method_kind = Query_method | Mutation_method

text \<open>The idempotency \<open>None\<close> is the \<open>none\<close> of the registry.\<close>

record method_definition =
  md_access :: access
  md_kind :: method_kind
  md_idempotency :: "idempotency option"
  md_capability :: "string option"

definition query_method :: "access \<Rightarrow> string option \<Rightarrow> method_definition" where
  "query_method access capability =
     \<lparr>md_access = access, md_kind = Query_method, md_idempotency = None, md_capability = capability\<rparr>"

definition mutation_method :: "access \<Rightarrow> idempotency \<Rightarrow> string option \<Rightarrow> method_definition" where
  "mutation_method access idempotency capability =
     \<lparr>md_access = access, md_kind = Mutation_method, md_idempotency = Some idempotency, md_capability = capability\<rparr>"

definition queueSteer :: string where
  "queueSteer = ''queue-steer-v1''"

definition tuiHandoff :: string where
  "tuiHandoff = ''tui-handoff-v1''"

definition gatewayMethodDefinitions :: "(string \<times> method_definition) list" where
  "gatewayMethodDefinitions =
    [
     (''host/ping'', query_method PreAuth None),
     (''auth/status'', query_method PreAuth None),
     (''auth/register/options'', mutation_method PreAuth Ephemeral None),
     (''auth/register/verify'', mutation_method PreAuth Ephemeral None),
     (''auth/login/options'', mutation_method PreAuth Ephemeral None),
     (''auth/login/verify'', mutation_method PreAuth Ephemeral None),
     (''auth/password/register/start'', mutation_method PreAuth Ephemeral None),
     (''auth/password/register/finish'', mutation_method PreAuth Ephemeral None),
     (''auth/password/login/start'', mutation_method PreAuth Ephemeral None),
     (''auth/password/login/finish'', mutation_method PreAuth Ephemeral None),
     (''auth/recover'', mutation_method PreAuth Ephemeral None),
     (''auth/recovery/rotate'', mutation_method PreAuth Ephemeral None),
     (''setup/status'', query_method UserAccess None),
     (''setup/network/configure'', mutation_method UserAccess Durable None),
     (''setup/codex/install'', mutation_method UserAccess Durable None),
     (''setup/codex/version'', query_method UserAccess None),
     (''setup/codex/login/start'', mutation_method UserAccess Ephemeral None),
     (''setup/codex/login/cancel'', mutation_method UserAccess Ephemeral None),
     (''setup/codex/logout'', mutation_method UserAccess Durable None),
     (''setup/app-server/restart'', mutation_method UserAccess Ephemeral None),
     (''workspace/list'', query_method UserAccess None),
     (''workspace/browse'', query_method UserAccess None),
     (''workspace/add'', mutation_method UserAccess Durable None),
     (''workspace/remove'', mutation_method UserAccess Durable None),
     (''workspace/default/read'', query_method UserAccess None),
     (''workspace/default/update'', mutation_method UserAccess Durable None),
     (''model/list'', query_method UserAccess None),
     (''thread/list'', query_method UserAccess None),
     (''thread/open'', query_method UserAccess None),
     (''thread/history'', query_method UserAccess None),
     (''side/read'', query_method UserAccess None),
     (''side/start'', mutation_method UserAccess Durable None),
     (''side/abandon'', mutation_method UserAccess Durable None),
     (''side/delete'', mutation_method UserAccess Durable None),
     (''thread/start'', mutation_method UserAccess Durable None),
     (''thread/close'', mutation_method UserAccess Ephemeral None),
     (''thread/rename'', mutation_method UserAccess Durable None),
     (''thread/archive'', mutation_method UserAccess Durable None),
     (''thread/unarchive'', mutation_method UserAccess Durable None),
     (''thread/delete'', mutation_method UserAccess Durable None),
     (''thread/settings/update'', mutation_method UserAccess Durable None),
     (''thread/tui/handoff'', mutation_method UserAccess Ephemeral (Some tuiHandoff)),
     (''turn/start'', mutation_method UserAccess Durable None),
     (''turn/interrupt'', mutation_method UserAccess Ephemeral None),
     (''interaction/list'', query_method UserAccess None),
     (''interaction/respond'', mutation_method UserAccess Durable None),
     (''queue/list'', query_method UserAccess None),
     (''queue/add'', mutation_method UserAccess Durable None),
     (''queue/remove'', mutation_method UserAccess Durable None),
     (''queue/steer'', mutation_method UserAccess Durable (Some queueSteer)),
     (''queue/indeterminate/acknowledge'', mutation_method UserAccess Durable None),
     (''mutation/status'', query_method PreAuth None),
     (''preferences/read'', query_method UserAccess None),
     (''preferences/update'', mutation_method UserAccess Durable None),
     (''admin/host/status'', query_method AdminAccess None),
     (''admin/user/inspect'', query_method AdminAccess None),
     (''admin/user/register'', mutation_method AdminAccess Durable None),
     (''admin/user/disable'', mutation_method AdminAccess Durable None),
     (''admin/user/enable'', mutation_method AdminAccess Durable None),
     (''admin/user/removal/schedule'', mutation_method AdminAccess Durable None),
     (''admin/user/removal/cancel'', mutation_method AdminAccess Durable None),
     (''admin/user/recovery/start'', mutation_method AdminAccess Ephemeral None),
     (''admin/audit/list'', query_method AdminAccess None)]"

definition gatewayMethodNames :: "string list" where
  "gatewayMethodNames = map fst gatewayMethodDefinitions"

definition isGatewayMethodName :: "string \<Rightarrow> bool" where
  "isGatewayMethodName name \<longleftrightarrow> name \<in> set gatewayMethodNames"

definition method_of :: "string \<Rightarrow> method_definition option" where
  "method_of name = map_of gatewayMethodDefinitions name"

section \<open>Values on the wire\<close>

text \<open>
  A message is a text, represented by the value it denotes, or an object handed over in memory.
\<close>

datatype wire = WireText json_text | WireValue js

definition GATEWAY_API_VERSION :: int where
  "GATEWAY_API_VERSION = 2"

record request =
  rq_version :: int
  rq_requestId :: string
  rq_method :: string
  rq_input :: js
  rq_operationKey :: "string option"

datatype response = Ok_response string js | Error_response string gateway_error

text \<open>An issue of the validator: the path to the offending part and a code.\<close>

datatype path_part = Path_key string | Path_index nat | Path_symbol "string option"

type_synonym issue = "path_part list \<times> string"

record zod =
  z_uuid :: "js \<Rightarrow> bool"
  z_request :: "js \<Rightarrow> issue list + request"
  z_response :: "js \<Rightarrow> issue list + response"
  z_input :: "string \<Rightarrow> js \<Rightarrow> issue list + js"
  z_output :: "string \<Rightarrow> js \<Rightarrow> issue list + js"

definition optional :: "string \<Rightarrow> js option \<Rightarrow> (string \<times> js) list" where
  "optional k v = (case v of None \<Rightarrow> [] | Some x \<Rightarrow> [(k, x)])"

definition request_value :: "request \<Rightarrow> js" where
  "request_value r = JObj ([(''version'', JNum (rq_version r)), (''requestId'', JStr (rq_requestId r)),
     (''method'', JStr (rq_method r)), (''input'', rq_input r)] @
     optional ''operationKey'' (map_option JStr (rq_operationKey r)))"

text \<open>\<open>toPayload\<close>: the decision to close the connection is not part of the payload.\<close>

definition toPayload :: "gateway_error \<Rightarrow> js" where
  "toPayload e = JObj ([(''code'', JStr (ge_code e)), (''message'', JStr (ge_message e))] @
     optional ''retryable'' (map_option JBool (ge_retryable e)) @ optional ''details'' (ge_details e))"

definition payload_of :: "gateway_error \<Rightarrow> gateway_error" where
  "payload_of e = e\<lparr>ge_close_connection := False\<rparr>"

fun response_value :: "response \<Rightarrow> js" where
  "response_value (Ok_response rid result) = JObj [(''version'', JNum GATEWAY_API_VERSION),
     (''requestId'', JStr rid), (''ok'', JBool True), (''result'', result)]"
| "response_value (Error_response rid e) = JObj [(''version'', JNum GATEWAY_API_VERSION),
     (''requestId'', JStr rid), (''ok'', JBool False), (''error'', toPayload e)]"

definition closing_error :: "string \<Rightarrow> string \<Rightarrow> ce_error" where
  "closing_error code message = GatewayV2Error ((gateway_v2_error code message)\<lparr>ge_close_connection := True\<rparr>)"

definition parseJsonIfNeeded :: "wire \<Rightarrow> string \<Rightarrow> ce_error + js" where
  "parseJsonIfNeeded input description =
     (case input of
        WireValue v \<Rightarrow> Inr v
      | WireText (JsonText v) \<Rightarrow> Inr v
      | WireText (BadJson _) \<Rightarrow> Inl (closing_error ''INVALID_JSON'' (''Invalid '' @ description @ '' JSON'')))"

text \<open>
  A version that is a number but not finite can only come from memory; it is not below the version of
  the protocol.
\<close>

fun readNumericVersion :: "js \<Rightarrow> int option" where
  "readNumericVersion (JObj fs) =
     (case js_get fs ''version'' of JNum n \<Rightarrow> Some n | JNonFinite \<Rightarrow> Some (GATEWAY_API_VERSION + 1) | _ \<Rightarrow> None)"
| "readNumericVersion _ = None"

definition versionMismatchError :: "int \<Rightarrow> ce_error" where
  "versionMismatchError version =
     (if version < GATEWAY_API_VERSION
      then closing_error ''CLIENT_UPGRADE_REQUIRED'' ''This client must be upgraded for Gateway API v2''
      else closing_error ''AGENT_UPGRADE_REQUIRED'' ''The host Agent must be upgraded for this client'')"

fun path_value :: "(string option \<Rightarrow> string) \<Rightarrow> path_part \<Rightarrow> js" where
  "path_value symbol (Path_key k) = JStr k"
| "path_value symbol (Path_index n) = JNum (int n)"
| "path_value symbol (Path_symbol d) = JStr (symbol d)"

definition issue_details :: "(string option \<Rightarrow> string) \<Rightarrow> issue list \<Rightarrow> js" where
  "issue_details symbol issues = JObj [(''issues'', JArr (map (\<lambda>(path, code).
     JObj [(''path'', JArr (map (path_value symbol) path)), (''code'', JStr code)]) (take 32 issues)))]"

text \<open>\<open>String(symbol)\<close>.\<close>

definition symbol_string :: "string option \<Rightarrow> string" where
  "symbol_string d = ''Symbol('' @ (case d of None \<Rightarrow> [] | Some s \<Rightarrow> s) @ '')''"

definition schemaError :: "string \<Rightarrow> string \<Rightarrow> issue list \<Rightarrow> ce_error" where
  "schemaError code message issues =
     GatewayV2Error ((gateway_v2_error code message)
       \<lparr>ge_close_connection := True, ge_details := Some (issue_details symbol_string issues)\<rparr>)"

text \<open>A value the base schema refuses: another version of the protocol is told apart from a malformed value.\<close>

definition refused :: "js \<Rightarrow> string \<Rightarrow> string \<Rightarrow> issue list \<Rightarrow> ce_error" where
  "refused v code message issues =
     (case readNumericVersion v of
        Some n \<Rightarrow> if n \<noteq> GATEWAY_API_VERSION then versionMismatchError n else schemaError code message issues
      | None \<Rightarrow> schemaError code message issues)"

definition operationKeyRequired :: ce_error where
  "operationKeyRequired = closing_error ''OPERATION_KEY_REQUIRED'' ''Mutation requires a UUID operation key''"

definition parseGatewayRequestEnvelopeV2 :: "zod \<Rightarrow> wire \<Rightarrow> ce_error + request" where
  "parseGatewayRequestEnvelopeV2 z input =
     (case parseJsonIfNeeded input ''gateway request'' of
        Inl e \<Rightarrow> Inl e
      | Inr v \<Rightarrow>
     (case z_request z v of
        Inl issues \<Rightarrow> Inl (refused v ''INVALID_REQUEST'' ''Invalid Gateway API request'' issues)
      | Inr base \<Rightarrow>
          if rq_version base \<noteq> GATEWAY_API_VERSION then Inl (versionMismatchError (rq_version base))
          else
     (case method_of (rq_method base) of
        None \<Rightarrow> Inl (closing_error ''METHOD_NOT_FOUND'' ''Unknown Gateway API method'')
      | Some d \<Rightarrow>
     (case z_input z (rq_method base) (rq_input base) of
        Inl issues \<Rightarrow> Inl (schemaError ''INVALID_INPUT'' ''Gateway API input did not match its schema'' issues)
      | Inr data \<Rightarrow>
          if md_kind d = Mutation_method \<and> rq_operationKey base = None then Inl operationKeyRequired
          else if md_kind d = Query_method \<and> rq_operationKey base \<noteq> None
          then Inl (closing_error ''OPERATION_KEY_NOT_ALLOWED'' ''Query must not include an operation key'')
          else Inr (base\<lparr>rq_input := data\<rparr>)))))"

fun response_id :: "response \<Rightarrow> string" where
  "response_id (Ok_response rid result) = rid"
| "response_id (Error_response rid e) = rid"

definition parseGatewayResponseEnvelopeV2 :: "zod \<Rightarrow> wire \<Rightarrow> string \<Rightarrow> string option \<Rightarrow> ce_error + response" where
  "parseGatewayResponseEnvelopeV2 z input meth expected =
     (case parseJsonIfNeeded input ''gateway response'' of
        Inl e \<Rightarrow> Inl e
      | Inr v \<Rightarrow>
     (case z_response z v of
        Inl issues \<Rightarrow> Inl (refused v ''INVALID_RESPONSE'' ''Invalid Gateway API response'' issues)
      | Inr base \<Rightarrow>
          if expected \<noteq> None \<and> expected \<noteq> Some (response_id base)
          then Inl (closing_error ''RESPONSE_REQUEST_MISMATCH'' ''Gateway response request ID did not match'')
          else
     (case base of
        Error_response rid e \<Rightarrow> Inr base
      | Ok_response rid result \<Rightarrow>
     (case z_output z meth result of
        Inl issues \<Rightarrow> Inl (schemaError ''INVALID_RESPONSE_RESULT'' ''Gateway response result did not match its schema'' issues)
      | Inr data \<Rightarrow> Inr (Ok_response rid data)))))"

section \<open>The router\<close>

text \<open>
  \<open>cx_current\<close> is what \<open>assertCurrent\<close> throws for the session at this moment, if anything.
\<close>

record request_context =
  cx_access :: access
  cx_principalId :: string
  cx_capabilities :: "string list"
  cx_current :: "ce_error option"

type_synonym handler = "js \<Rightarrow> ce_error + js"

record router =
  rt_handlers :: "(string \<times> handler) list"
  rt_access :: "access list"
  rt_sealed :: bool

definition all_access :: "access list" where
  "all_access = [PreAuth, UserAccess, AdminAccess]"

definition router_new :: router where
  "router_new = \<lparr>rt_handlers = [], rt_access = all_access, rt_sealed = False\<rparr>"

definition router_register :: "string \<Rightarrow> handler \<Rightarrow> router \<Rightarrow> ce_error option \<times> router" where
  "router_register meth h rt =
     (if rt_sealed rt then (Some (Error ''Gateway router is sealed''), rt)
      else if map_of (rt_handlers rt) meth \<noteq> None
      then (Some (Error (''Gateway handler already registered: '' @ meth)), rt)
      else (None, rt\<lparr>rt_handlers := rt_handlers rt @ [(meth, h)]\<rparr>))"

definition missing_handlers :: "access list \<Rightarrow> (string \<times> handler) list \<Rightarrow> string list" where
  "missing_handlers accesses handlers =
     map fst (filter (\<lambda>(name, d). md_access d \<in> set accesses \<and> map_of handlers name = None) gatewayMethodDefinitions)"

definition router_seal :: "access list option \<Rightarrow> router \<Rightarrow> ce_error option \<times> router" where
  "router_seal accesses rt =
     (let supported = (case accesses of None \<Rightarrow> all_access | Some a \<Rightarrow> a);
          rt' = rt\<lparr>rt_access := supported\<rparr>;
          missing = missing_handlers supported (rt_handlers rt)
      in if missing \<noteq> [] then (Some (Error (''Missing Gateway handlers: '' @ join_with '', '' missing)), rt')
         else (None, rt'\<lparr>rt_sealed := True\<rparr>))"

text \<open>\<open>authorize\<close>: the error it throws, if any.\<close>

definition authorize :: "access \<Rightarrow> string option \<Rightarrow> request_context \<Rightarrow> ce_error option" where
  "authorize required capability cx =
     (if required = UserAccess \<and> cx_access cx \<noteq> UserAccess \<or> required = AdminAccess \<and> cx_access cx \<noteq> AdminAccess
      then Some (closing_error ''ACCESS_DENIED'' ''The authenticated principal cannot call this method'')
      else case capability of
             Some c \<Rightarrow>
               if c \<in> set (cx_capabilities cx) then None
               else Some (GatewayV2Error ((gateway_v2_error ''CAPABILITY_REQUIRED''
                 ''The client did not negotiate a required capability'')
                 \<lparr>ge_close_connection := True, ge_details := Some (JObj [(''requiredCapability'', JStr c)])\<rparr>))
           | None \<Rightarrow> None)"

definition extractRequestId :: "zod \<Rightarrow> wire \<Rightarrow> string option" where
  "extractRequestId z input =
     (case parseJsonIfNeeded input [] of
        Inr (JObj fs) \<Rightarrow>
          (case js_get fs ''requestId'' of
             JStr s \<Rightarrow> if z_uuid z (JStr s) then Some s else None
           | _ \<Rightarrow> None)
      | _ \<Rightarrow> None)"

text \<open>The part of \<open>route\<close> up to the handler: what is admitted, with its definition and handler.\<close>

definition route_admit ::
  "zod \<Rightarrow> router \<Rightarrow> request_context \<Rightarrow> request \<Rightarrow> ce_error + (method_definition \<times> handler)" where
  "route_admit z rt cx req =
     (case cx_current cx of
        Some e \<Rightarrow> Inl e
      | None \<Rightarrow>
     (case method_of (rq_method req) of
        None \<Rightarrow> Inl (Error ''Unknown method'')
      | Some d \<Rightarrow>
          if md_access d \<notin> set (rt_access rt)
          then Inl (closing_error ''ACCESS_DENIED'' ''This Gateway endpoint does not serve the requested access domain'')
          else
     (case authorize (md_access d) (md_capability d) cx of
        Some e \<Rightarrow> Inl e
      | None \<Rightarrow>
     (case map_of (rt_handlers rt) (rq_method req) of
        None \<Rightarrow> Inl (Error ''Sealed router lost a handler'')
      | Some h \<Rightarrow> Inr (d, h)))))"

definition validated_result :: "zod \<Rightarrow> string \<Rightarrow> ce_error + js \<Rightarrow> ce_error + js" where
  "validated_result z meth r =
     (case r of
        Inl e \<Rightarrow> Inl e
      | Inr v \<Rightarrow>
          (case z_output z meth v of
             Inl _ \<Rightarrow> Inl (GatewayV2Error (gateway_v2_error ''INTERNAL_PROTOCOL_ERROR''
               ''Gateway handler returned an invalid result''))
           | Inr w \<Rightarrow> Inr w))"

text \<open>
  The mutation middleware, as the router sees it: given an invocation and what \<open>execute\<close> answers when it
  is called, it answers, says whether it called \<open>execute\<close>, and changes its state.
\<close>

type_synonym 's run_mutation = "invocation \<Rightarrow> ce_error + js \<Rightarrow> 's \<Rightarrow> (ce_error + js) \<times> bool \<times> 's"

definition route_execute ::
  "zod \<Rightarrow> 's run_mutation \<Rightarrow> request_context \<Rightarrow> request \<Rightarrow> method_definition \<Rightarrow> handler \<Rightarrow> 's \<Rightarrow>
   (ce_error + js) \<times> bool \<times> 's" where
  "route_execute z run cx req d h s =
     (let execute = validated_result z (rq_method req) (h (rq_input req)) in
      if md_kind d = Mutation_method
      then (case rq_operationKey req of
              None \<Rightarrow> (Inl operationKeyRequired, False, s)
            | Some k \<Rightarrow>
           (case md_idempotency d of
              None \<Rightarrow> (Inl (GatewayV2Error (gateway_v2_error ''INTERNAL_PROTOCOL_ERROR''
                ''Mutation method has invalid idempotency metadata'')), False, s)
            | Some i \<Rightarrow> run \<lparr>iv_principalId = cx_principalId cx, iv_operationKey = k, iv_method = rq_method req,
                iv_input = rq_input req, iv_idempotency = i\<rparr> execute s))
      else (execute, True, s))"

fun gateway_error_of :: "ce_error \<Rightarrow> gateway_error" where
  "gateway_error_of (GatewayV2Error e) = e"
| "gateway_error_of _ = gateway_v2_error ''INTERNAL_ERROR'' ''Gateway request could not be completed''"

fun route_answer :: "string \<Rightarrow> ce_error + js \<Rightarrow> response \<times> bool" where
  "route_answer rid (Inr result) = (Ok_response rid result, False)"
| "route_answer rid (Inl e) =
     (Error_response rid (payload_of (gateway_error_of e)), ge_close_connection (gateway_error_of e))"

text \<open>
  \<open>route\<close> answers the response, whether the connection is to be closed, whether the handler of the
  method was called, and the state of the middleware. \<open>fresh\<close> is the id \<open>createUuid\<close> would return.
\<close>

definition route ::
  "zod \<Rightarrow> 's run_mutation \<Rightarrow> router \<Rightarrow> request_context \<Rightarrow> string \<Rightarrow> wire \<Rightarrow> 's \<Rightarrow>
   (response \<times> bool) \<times> bool \<times> 's" where
  "route z run rt cx fresh input s =
     (let rid = (case extractRequestId z input of None \<Rightarrow> fresh | Some r \<Rightarrow> r) in
      if \<not> rt_sealed rt then (route_answer rid (Inl (Error ''Gateway router is not sealed'')), False, s)
      else
     (case parseGatewayRequestEnvelopeV2 z input of
        Inl e \<Rightarrow> (route_answer rid (Inl e), False, s)
      | Inr req \<Rightarrow>
     (case route_admit z rt cx req of
        Inl e \<Rightarrow> (route_answer (rq_requestId req) (Inl e), False, s)
      | Inr (d, h) \<Rightarrow>
     (case route_execute z run cx req d h s of
        (r, called, s') \<Rightarrow> (route_answer (rq_requestId req) r, called, s')))))"

definition passthrough :: "'s run_mutation" where
  "passthrough iv execute s = (execute, True, s)"

section \<open>The client\<close>

datatype client_failure =
    LocalFailure gateway_error
  | TransportFailure string
  | OutcomeUnknown string string
  | RemoteError gateway_error

definition client_error :: "string \<Rightarrow> string \<Rightarrow> client_failure" where
  "client_error code message = LocalFailure (gateway_v2_error code message)"

definition symbol_description :: "string option \<Rightarrow> string" where
  "symbol_description d = (case d of None \<Rightarrow> ''symbol'' | Some s \<Rightarrow> s)"

fun local_failure :: "ce_error \<Rightarrow> client_failure" where
  "local_failure (GatewayV2Error e) = LocalFailure e"
| "local_failure e = TransportFailure ''unexpected error''"

text \<open>The envelope the client sends, or what it throws before it sends anything.\<close>

definition client_envelope ::
  "zod \<Rightarrow> string \<Rightarrow> method_definition \<Rightarrow> js \<Rightarrow> string \<Rightarrow> string option \<Rightarrow> client_failure + request" where
  "client_envelope z meth d input rid key =
     (case z_input z meth input of
        Inl issues \<Rightarrow> Inl (LocalFailure ((gateway_v2_error ''INVALID_CLIENT_INPUT''
            (''Gateway request input for '' @ meth @ '' did not match its schema''))
            \<lparr>ge_details := Some (issue_details symbol_description issues)\<rparr>))
      | Inr data \<Rightarrow>
          if \<not> z_uuid z (JStr rid)
          then Inl (client_error ''INVALID_REQUEST_ID'' ''Gateway request ID factory must return a UUID'')
          else if md_kind d = Mutation_method \<and> (case key of None \<Rightarrow> True | Some k \<Rightarrow> \<not> z_uuid z (JStr k))
          then Inl (client_error ''INVALID_OPERATION_KEY'' ''Mutation operation key must be a UUID'')
          else if md_kind d \<noteq> Mutation_method \<and> key \<noteq> None
          then Inl (client_error ''OPERATION_KEY_NOT_ALLOWED'' ''Query must not include an operation key'')
          else Inr \<lparr>rq_version = GATEWAY_API_VERSION, rq_requestId = rid, rq_method = meth, rq_input = data,
                 rq_operationKey = key\<rparr>)"

text \<open>What the client makes of an answer of the agent.\<close>

definition client_outcome :: "string \<Rightarrow> method_definition \<Rightarrow> string option \<Rightarrow> response \<Rightarrow> client_failure + js" where
  "client_outcome meth d key resp =
     (case resp of
        Ok_response rid result \<Rightarrow> Inr result
      | Error_response rid e \<Rightarrow>
          if md_kind d = Mutation_method \<and> (ge_code e = ''MUTATION_OUTCOME_UNKNOWN'' \<or> ge_code e = ''MUTATION_PENDING'')
          then Inl (OutcomeUnknown meth (the key))
          else Inl (RemoteError e))"

text \<open>\<open>exchange\<close> is the transport: it fails with a text or returns a message, and changes the far side.\<close>

type_synonym 's exchange = "js \<Rightarrow> 's \<Rightarrow> (string + wire) \<times> 's"

definition gateway_client_request ::
  "zod \<Rightarrow> 's exchange \<Rightarrow> string \<Rightarrow> method_definition \<Rightarrow> js \<Rightarrow> string \<Rightarrow> string option \<Rightarrow> 's \<Rightarrow>
   (client_failure + js) \<times> 's" where
  "gateway_client_request z exchange meth d input rid key s =
     (case client_envelope z meth d input rid key of
        Inl e \<Rightarrow> (Inl e, s)
      | Inr env \<Rightarrow>
     (case exchange (request_value env) s of
        (Inl e, s') \<Rightarrow>
          (Inl (if md_kind d = Mutation_method then OutcomeUnknown meth (the key) else TransportFailure e), s')
      | (Inr raw, s') \<Rightarrow>
     (case parseGatewayResponseEnvelopeV2 z raw meth (Some rid) of
        Inl e \<Rightarrow> (Inl (local_failure e), s')
      | Inr resp \<Rightarrow> (client_outcome meth d key resp, s'))))"

section \<open>The session of the agent\<close>

text \<open>
  The part of \<open>AgentGatewaySession\<close> the router consults. \<open>gs_device\<close> is what \<open>assertDeviceCurrent\<close>
  throws for the device of the session, if it has one.
\<close>

record gateway_session =
  gs_id :: string
  gs_closed :: bool
  gs_access :: access
  gs_principalId :: string
  gs_temporary :: bool
  gs_device :: "ce_error option"

definition session_new :: "string \<Rightarrow> ce_error option \<Rightarrow> gateway_session" where
  "session_new i device =
     \<lparr>gs_id = i, gs_closed = False, gs_access = PreAuth, gs_principalId = ''pre-auth:'' @ i,
      gs_temporary = True, gs_device = device\<rparr>"

definition session_closed_error :: "gateway_session \<Rightarrow> ce_error" where
  "session_closed_error g = ScopeClosedError (''gateway-session-'' @ gs_id g)"

definition session_assertCurrent :: "gateway_session \<Rightarrow> ce_error option" where
  "session_assertCurrent g =
     (if gs_closed g then Some (session_closed_error g)
      else if gs_access g = UserAccess \<and> \<not> gs_temporary g then gs_device g
      else None)"

definition session_authenticate :: "access \<Rightarrow> string \<Rightarrow> bool \<Rightarrow> gateway_session \<Rightarrow> ce_error option \<times> gateway_session" where
  "session_authenticate access who temporary g =
     (if gs_closed g then (Some (session_closed_error g), g)
      else if access \<noteq> UserAccess then (Some (Error ''Agent session cannot authenticate an administrator''), g)
      else (None, g\<lparr>gs_access := UserAccess, gs_principalId := who, gs_temporary := temporary\<rparr>))"

definition session_close :: "gateway_session \<Rightarrow> gateway_session" where
  "session_close g = g\<lparr>gs_closed := True\<rparr>"

definition agentGatewayContext :: "string list \<Rightarrow> gateway_session \<Rightarrow> request_context" where
  "agentGatewayContext capabilities g =
     \<lparr>cx_access = gs_access g, cx_principalId = gs_principalId g, cx_capabilities = capabilities,
      cx_current = session_assertCurrent g\<rparr>"

text \<open>What happens to a session: it is authenticated, its device is revoked or checked again, it closes.\<close>

inductive session_reachable :: "gateway_session \<Rightarrow> bool" where
  sr_new: "session_reachable (session_new i device)"
| sr_authenticate: "session_reachable g \<Longrightarrow> session_reachable (snd (session_authenticate a p t g))"
| sr_device: "session_reachable g \<Longrightarrow> session_reachable (g\<lparr>gs_device := e\<rparr>)"
| sr_close: "session_reachable g \<Longrightarrow> session_reachable (session_close g)"

section \<open>The mutation middleware behind the router\<close>

text \<open>
  \<open>AgentMutationMiddleware.run\<close> when no other call comes in between; \<open>joined\<close> is what the promise of an
  ephemeral call in flight resolves to, and \<open>ts\<close>, \<open>es\<close> are the clock and the writes of the call.
\<close>

record run_env =
  re_hashing :: hashing
  re_closed :: bool
  re_durable :: "(timestamp \<times> persist_outcome) \<times> (timestamp \<times> persist_outcome) \<times> (timestamp \<times> persist_outcome)"
  re_ephemeral :: "timestamp \<times> timestamp"
  re_joined :: stored_outcome

definition runEphemeral :: "run_env \<Rightarrow> invocation \<Rightarrow> ce_error + js \<Rightarrow> ephemeral_map \<Rightarrow> (ce_error + js) \<times> bool \<times> ephemeral_map" where
  "runEphemeral env iv execute m =
     (case begin_ephemeral (re_hashing env) iv (fst (re_ephemeral env)) m of
        (E_reuse e, m') \<Rightarrow> (Inl e, False, m')
      | (E_join i, m') \<Rightarrow>
          (unwrapOutcome (case map_of (em_entries m') (ephemeral_key iv) of
             Some e \<Rightarrow> (case ee_outcome e of Some out \<Rightarrow> out | None \<Rightarrow> re_joined env)
           | None \<Rightarrow> re_joined env), False, m')
      | (E_execute i, m') \<Rightarrow>
          (unwrapOutcome (captureOutcome execute), True, settle_ephemeral iv i execute (snd (re_ephemeral env)) m'))"

definition middleware_run :: "'db receipt_ops \<Rightarrow> run_env \<Rightarrow> (ephemeral_map \<times> 'db \<times> 'db) run_mutation" where
  "middleware_run repo env iv execute s =
     (if re_closed env then (Inl (ScopeClosedError ''mutation-middleware''), False, s)
      else if map_option md_idempotency (method_of (iv_method iv)) \<noteq> Some (Some (iv_idempotency iv))
      then (Inl (GatewayV2Error (gateway_v2_error ''INTERNAL_PROTOCOL_ERROR''
        ''Mutation idempotency metadata does not match the method registry'')), False, s)
      else case s of (m, dbs) \<Rightarrow>
        (case iv_idempotency iv of
           Ephemeral \<Rightarrow> (case runEphemeral env iv execute m of (r, called, m') \<Rightarrow> (r, called, m', dbs))
         | Durable \<Rightarrow> (case executeDurable repo (re_hashing env) iv execute (re_durable env) dbs of
             (r, called, dbs') \<Rightarrow> (r, called, m, dbs'))))"

section \<open>What the protocol relies on\<close>

text \<open>\<open>gatewayErrorSchema\<close>: the error payloads that can be sent.\<close>

definition text_between :: "nat \<Rightarrow> nat \<Rightarrow> js \<Rightarrow> bool" where
  "text_between lo hi v = (case v of JStr s \<Rightarrow> lo \<le> length s \<and> length s \<le> hi | _ \<Rightarrow> False)"

fun path_part_ok :: "js \<Rightarrow> bool" where
  "path_part_ok (JStr s) = True"
| "path_part_ok (JNum n) = True"
| "path_part_ok _ = False"

definition issue_ok :: "js \<Rightarrow> bool" where
  "issue_ok v = (case v of
     JObj [(k1, JArr path), (k2, code)] \<Rightarrow>
       k1 = ''path'' \<and> k2 = ''code'' \<and> list_all path_part_ok path \<and> text_between 1 128 code
   | _ \<Rightarrow> False)"

definition details_ok :: "js \<Rightarrow> bool" where
  "details_ok v = (case v of
     JObj fs \<Rightarrow> distinct (map fst fs) \<and> list_all (\<lambda>(k, x).
       k = ''issues'' \<and> (case x of JArr is \<Rightarrow> length is \<le> 32 \<and> list_all issue_ok is | _ \<Rightarrow> False) \<or>
       k = ''requiredCapability'' \<and> text_between 1 512 x) fs
   | _ \<Rightarrow> False)"

definition payload_ok :: "gateway_error \<Rightarrow> bool" where
  "payload_ok e \<longleftrightarrow> text_between 1 128 (JStr (ge_code e)) \<and> text_between 1 2048 (JStr (ge_message e)) \<and>
     (case ge_details e of None \<Rightarrow> True | Some v \<Rightarrow> details_ok v)"

text \<open>
  The validator accepts an object that has the fields of a strict schema and returns it, and what a
  schema returned it returns again: no schema of the registry transforms its own output.
\<close>

definition request_ok :: "zod \<Rightarrow> request \<Rightarrow> bool" where
  "request_ok z r \<longleftrightarrow> z_uuid z (JStr (rq_requestId r)) \<and> text_between 1 512 (JStr (rq_method r)) \<and>
     (case rq_operationKey r of None \<Rightarrow> True | Some k \<Rightarrow> z_uuid z (JStr k))"

fun response_ok :: "zod \<Rightarrow> response \<Rightarrow> bool" where
  "response_ok z (Ok_response rid v) = (z_uuid z (JStr rid) \<and> isJsonValue v)"
| "response_ok z (Error_response rid e) = (z_uuid z (JStr rid) \<and> payload_ok e \<and> \<not> ge_close_connection e)"

definition zod_laws :: "zod \<Rightarrow> bool" where
  "zod_laws z \<longleftrightarrow>
     (\<forall>r. request_ok z r \<longrightarrow> z_request z (request_value r) = Inr r) \<and>
     (\<forall>r. response_ok z r \<longrightarrow> z_response z (response_value r) = Inr r) \<and>
     (\<forall>m x y. z_input z m x = Inr y \<longrightarrow> z_input z m y = Inr y) \<and>
     (\<forall>m x y. z_output z m x = Inr y \<longrightarrow> z_output z m y = Inr y)"

section \<open>Admission\<close>

lemma method_registry_distinct: "distinct (map fst gatewayMethodDefinitions)"
  by code_simp

lemma registry_entry_iff: "(name, d) \<in> set gatewayMethodDefinitions \<longleftrightarrow> method_of name = Some d"
  by (simp add: method_of_def method_registry_distinct)

lemma registry_metadata:
  assumes "method_of name = Some d"
  shows "(md_kind d = Query_method \<longleftrightarrow> md_idempotency d = None) \<and> text_between 1 512 (JStr name)"
proof -
  have "list_all (\<lambda>(name, d). (md_kind d = Query_method \<longleftrightarrow> md_idempotency d = None) \<and>
      text_between 1 512 (JStr name)) gatewayMethodDefinitions"
    by code_simp
  then show ?thesis
    using assms by (auto simp: list_all_iff method_of_def dest: map_of_SomeD)
qed

text \<open>A call of \<open>seal\<close> that returns has found a handler for every method the endpoint serves.\<close>

lemma sealed_has_handler:
  assumes "router_seal accesses rt0 = (None, rt)" and "method_of name = Some d" and "md_access d \<in> set (rt_access rt)"
  obtains h where "map_of (rt_handlers rt) name = Some h"
proof -
  have "missing_handlers (rt_access rt) (rt_handlers rt) = []"
    using assms(1) by (auto simp: router_seal_def Let_def split: if_splits option.splits)
  moreover have "(name, d) \<in> set gatewayMethodDefinitions" using assms(2) by (simp add: registry_entry_iff)
  ultimately have "map_of (rt_handlers rt) name \<noteq> None"
    using assms(3) by (fastforce simp: missing_handlers_def filter_empty_conv)
  with that show thesis by auto
qed

lemma route_admit_Inr:
  "route_admit z rt cx req = Inr (d, h) \<longleftrightarrow>
     cx_current cx = None \<and> method_of (rq_method req) = Some d \<and> md_access d \<in> set (rt_access rt) \<and>
     authorize (md_access d) (md_capability d) cx = None \<and> map_of (rt_handlers rt) (rq_method req) = Some h"
  by (auto simp: route_admit_def split: option.splits if_splits)

lemma authorize_None:
  "authorize required capability cx = None \<longleftrightarrow>
     (required = PreAuth \<or> cx_access cx = required) \<and> (\<forall>c. capability = Some c \<longrightarrow> c \<in> set (cx_capabilities cx))"
  by (cases required) (auto simp: authorize_def split: option.splits)

lemma parsed_request:
  assumes "parseGatewayRequestEnvelopeV2 z input = Inr req"
  obtains v d where "method_of (rq_method req) = Some d" and "rq_version req = GATEWAY_API_VERSION"
    and "z_input z (rq_method req) v = Inr (rq_input req)"
    and "md_kind d = Mutation_method \<longleftrightarrow> rq_operationKey req \<noteq> None"
proof -
  obtain d where "method_of (rq_method req) = Some d" "rq_version req = GATEWAY_API_VERSION"
    "\<exists>v. z_input z (rq_method req) v = Inr (rq_input req)"
    "md_kind d = Mutation_method \<longleftrightarrow> rq_operationKey req \<noteq> None"
    using assms
    by (cases "md_kind (the (method_of (rq_method req)))")
      (auto simp: parseGatewayRequestEnvelopeV2_def split: sum.splits option.splits if_splits method_kind.splits, blast+)
  with that show thesis by blast
qed

lemma route_called:
  assumes "route z run rt cx fresh input s = (answer, True, s')"
  obtains req d h where "rt_sealed rt" and "parseGatewayRequestEnvelopeV2 z input = Inr req"
    and "route_admit z rt cx req = Inr (d, h)"
  using assms that
  by (auto simp: route_def Let_def split: if_splits sum.splits prod.splits)

text \<open>An agent session never has the access of an administrator, and has a principal once it has one.\<close>

lemma session_access: "session_reachable g \<Longrightarrow> gs_access g \<noteq> AdminAccess"
  by (induction rule: session_reachable.induct)
    (auto simp: session_new_def session_authenticate_def session_close_def)


text \<open>
  Claim C30. The registry, the parser and the seal fit together: for a router that was sealed, a request
  that parsed and was authorized always has a handler, a query is executed directly, and a mutation has
  both the operation key and the kind of idempotency that the middleware needs, so that neither of the
  router's defensive errors (a lost handler, invalid idempotency metadata) can be thrown.
\<close>

theorem sealed_router_is_well_typed:
  assumes "router_seal accesses rt0 = (None, rt)" and "parseGatewayRequestEnvelopeV2 z input = Inr req"
    and "method_of (rq_method req) = Some d" and "md_access d \<in> set (rt_access rt)"
    and "cx_current cx = None" and "authorize (md_access d) (md_capability d) cx = None"
  shows "\<exists>h. route_admit z rt cx req = Inr (d, h) \<and>
    (md_kind d = Query_method \<and> route_execute z run cx req d h s =
       (validated_result z (rq_method req) (h (rq_input req)), True, s) \<or>
     md_kind d = Mutation_method \<and> (\<exists>k i. rq_operationKey req = Some k \<and> md_idempotency d = Some i \<and>
       route_execute z run cx req d h s = run \<lparr>iv_principalId = cx_principalId cx, iv_operationKey = k,
         iv_method = rq_method req, iv_input = rq_input req, iv_idempotency = i\<rparr>
         (validated_result z (rq_method req) (h (rq_input req))) s))"
proof -
  obtain h where h: "map_of (rt_handlers rt) (rq_method req) = Some h"
    by (rule sealed_has_handler [OF assms(1,3,4)])
  then have admit: "route_admit z rt cx req = Inr (d, h)" using assms(3-6) by (simp add: route_admit_Inr)
  have "md_kind d = Mutation_method \<longleftrightarrow> rq_operationKey req \<noteq> None"
    by (rule parsed_request [OF assms(2)]) (use assms(3) in auto)
  then show ?thesis
    using admit registry_metadata [OF assms(3)]
    by (intro exI [of _ h]) (cases "md_kind d"; auto simp: route_execute_def)
qed

section \<open>Client and router together\<close>

text \<open>
  A connection between a client and the router: messages are texts or objects in memory, and the answer
  may be lost on the way back. The state of the far side is the middleware's and the number of handler
  calls so far.
\<close>

definition packed :: "bool \<Rightarrow> js \<Rightarrow> wire" where
  "packed as_text v = (if as_text then WireText (JsonText v) else WireValue v)"

definition loopback ::
  "bool \<Rightarrow> bool \<Rightarrow> zod \<Rightarrow> 's run_mutation \<Rightarrow> router \<Rightarrow> request_context \<Rightarrow> string \<Rightarrow> ('s \<times> nat) exchange" where
  "loopback as_text lost z run rt cx fresh v s =
     (case route z run rt cx fresh (packed as_text v) (fst s) of
        ((resp, close), called, s') \<Rightarrow>
          (if lost then Inl ''connection lost'' else Inr (packed as_text (response_value resp)),
           s', snd s + (if called then 1 else 0)))"

text \<open>What the client should see of an outcome of the agent.\<close>

definition client_view :: "string \<Rightarrow> method_definition \<Rightarrow> string option \<Rightarrow> ce_error + js \<Rightarrow> client_failure + js" where
  "client_view meth d key r =
     (case r of
        Inr v \<Rightarrow> Inr v
      | Inl e \<Rightarrow>
          if md_kind d = Mutation_method \<and>
             ge_code (gateway_error_of e) \<in> {''MUTATION_OUTCOME_UNKNOWN'', ''MUTATION_PENDING''}
          then Inl (OutcomeUnknown meth (the key))
          else Inl (RemoteError (payload_of (gateway_error_of e))))"

definition sendable :: "zod \<Rightarrow> string \<Rightarrow> ce_error + js \<Rightarrow> bool" where
  "sendable z meth r =
     (case r of
        Inr v \<Rightarrow> isJsonValue v \<and> z_output z meth v = Inr v
      | Inl e \<Rightarrow> payload_ok (gateway_error_of e))"

text \<open>A call that passes the checks of the client and is admitted by the router.\<close>

definition admissible_call ::
  "zod \<Rightarrow> router \<Rightarrow> request_context \<Rightarrow> string \<Rightarrow> method_definition \<Rightarrow> js \<Rightarrow> js \<Rightarrow> string \<Rightarrow> string option \<Rightarrow> bool" where
  "admissible_call z rt cx meth d input data rid key \<longleftrightarrow>
     method_of meth = Some d \<and> md_access d \<in> set (rt_access rt) \<and> cx_current cx = None \<and>
     authorize (md_access d) (md_capability d) cx = None \<and> z_input z meth input = Inr data \<and>
     z_uuid z (JStr rid) \<and> (md_kind d = Mutation_method \<longleftrightarrow> key \<noteq> None) \<and>
     (case key of None \<Rightarrow> True | Some k \<Rightarrow> z_uuid z (JStr k))"

abbreviation call_request :: "string \<Rightarrow> js \<Rightarrow> string \<Rightarrow> string option \<Rightarrow> request" where
  "call_request meth data rid key \<equiv>
     \<lparr>rq_version = GATEWAY_API_VERSION, rq_requestId = rid, rq_method = meth, rq_input = data, rq_operationKey = key\<rparr>"

lemma admissible_envelope:
  "admissible_call z rt cx meth d input data rid key \<Longrightarrow>
     client_envelope z meth d input rid key = Inr (call_request meth data rid key)"
  by (auto simp: admissible_call_def client_envelope_def split: option.splits)

lemma parseJson_packed [simp]: "parseJsonIfNeeded (packed as_text v) what = Inr v"
  by (simp add: parseJsonIfNeeded_def packed_def)

lemma admissible_parsed:
  assumes "zod_laws z" and "admissible_call z rt cx meth d input data rid key"
  shows "parseGatewayRequestEnvelopeV2 z (packed as_text (request_value (call_request meth data rid key))) =
    Inr (call_request meth data rid key)"
proof -
  have "request_ok z (call_request meth data rid key)"
    using assms(2) registry_metadata [of meth d] by (auto simp: request_ok_def admissible_call_def)
  then have "z_request z (request_value (call_request meth data rid key)) = Inr (call_request meth data rid key)"
    using assms(1) by (simp add: zod_laws_def)
  moreover have "z_input z meth data = Inr data"
    using assms by (auto simp: zod_laws_def admissible_call_def)
  ultimately show ?thesis
    using assms(2) by (cases "md_kind d") (auto simp: parseGatewayRequestEnvelopeV2_def admissible_call_def)
qed

lemma routed_call:
  assumes "zod_laws z" and "rt_sealed rt" and "admissible_call z rt cx meth d input data rid key"
    and "map_of (rt_handlers rt) meth = Some h"
    and "route_execute z run cx (call_request meth data rid key) d h s = (r, called, s')"
  shows "route z run rt cx fresh (packed as_text (request_value (call_request meth data rid key))) s =
    (route_answer rid r, called, s')"
proof -
  have "route_admit z rt cx (call_request meth data rid key) = Inr (d, h)"
    using assms(3,4) by (simp add: route_admit_Inr admissible_call_def)
  then show ?thesis
    using assms(2,5) admissible_parsed [OF assms(1,3), of as_text] by (simp add: route_def)
qed

lemma sent_answer:
  assumes "zod_laws z" and "z_uuid z (JStr rid)" and "sendable z meth r"
  shows "parseGatewayResponseEnvelopeV2 z (packed as_text (response_value (fst (route_answer rid r)))) meth (Some rid) =
    Inr (fst (route_answer rid r))"
proof -
  have "response_ok z (fst (route_answer rid r))"
    using assms(2,3) by (cases r) (simp_all add: sendable_def payload_of_def payload_ok_def)
  then have "z_response z (response_value (fst (route_answer rid r))) = Inr (fst (route_answer rid r))"
    using assms(1) by (simp add: zod_laws_def)
  then show ?thesis
    using assms(3) by (cases r) (simp_all add: parseGatewayResponseEnvelopeV2_def sendable_def)
qed

lemma answer_outcome: "client_outcome meth d key (fst (route_answer rid r)) = client_view meth d key r"
  by (cases r) (auto simp: client_outcome_def client_view_def payload_of_def)

lemma loopback_call:
  assumes "zod_laws z" and "rt_sealed rt" and "admissible_call z rt cx meth d input data rid key"
    and "map_of (rt_handlers rt) meth = Some h"
    and "route_execute z run cx (call_request meth data rid key) d h s = (r, called, s')"
    and "sendable z meth r"
  shows "gateway_client_request z (loopback as_text lost z run rt cx fresh) meth d input rid key (s, n) =
    (if lost then Inl (if md_kind d = Mutation_method then OutcomeUnknown meth (the key) else TransportFailure ''connection lost'')
     else client_view meth d key r, s', n + (if called then 1 else 0))"
proof -
  obtain resp close where a: "route_answer rid r = (resp, close)" by (cases "route_answer rid r")
  have "z_uuid z (JStr rid)" using assms(3) by (simp add: admissible_call_def)
  then have "parseGatewayResponseEnvelopeV2 z (packed as_text (response_value resp)) meth (Some rid) = Inr resp"
    using sent_answer [OF assms(1) _ assms(6), of rid as_text] a by simp
  moreover have "client_outcome meth d key resp = client_view meth d key r"
    using answer_outcome [of meth d key rid r] a by simp
  ultimately show ?thesis
    using routed_call [OF assms(1-5), of fresh as_text] admissible_envelope [OF assms(3)] a
    by (simp add: gateway_client_request_def loopback_def)
qed


lemma durable_route_execute:
  assumes "admissible_call z rt cx meth d input data rid (Some k)" and "md_idempotency d = Some Durable"
    and "\<not> re_closed env"
    and "executeDurable repo (re_hashing env) \<lparr>iv_principalId = cx_principalId cx, iv_operationKey = k, iv_method = meth,
        iv_input = data, iv_idempotency = Durable\<rparr> (validated_result z meth (h data)) (re_durable env) dbs = (r, called, dbs')"
  shows "route_execute z (middleware_run repo env) cx (call_request meth data rid (Some k)) d h (m, dbs) = (r, called, m, dbs')"
  using assms by (auto simp: route_execute_def middleware_run_def admissible_call_def)


section \<open>Witnesses\<close>

text \<open>A validator that reads the envelopes and accepts every input and output.\<close>

definition read_error :: "js \<Rightarrow> gateway_error" where
  "read_error v =
     \<lparr>ge_code = (case js_prop v ''code'' of JStr s \<Rightarrow> s | _ \<Rightarrow> []),
      ge_message = (case js_prop v ''message'' of JStr s \<Rightarrow> s | _ \<Rightarrow> []),
      ge_retryable = (case js_prop v ''retryable'' of JBool b \<Rightarrow> Some b | _ \<Rightarrow> None),
      ge_details = (case js_prop v ''details'' of JUndefined \<Rightarrow> None | x \<Rightarrow> Some x),
      ge_close_connection = False\<rparr>"

definition read_request :: "js \<Rightarrow> issue list + request" where
  "read_request v =
     (case (js_prop v ''version'', js_prop v ''requestId'', js_prop v ''method'') of
        (JNum n, JStr rid, JStr meth) \<Rightarrow>
          Inr \<lparr>rq_version = n, rq_requestId = rid, rq_method = meth, rq_input = js_prop v ''input'',
            rq_operationKey = (case js_prop v ''operationKey'' of JStr k \<Rightarrow> Some k | _ \<Rightarrow> None)\<rparr>
      | _ \<Rightarrow> Inl [([], ''invalid_type'')])"

definition read_response :: "js \<Rightarrow> issue list + response" where
  "read_response v =
     (case (js_prop v ''requestId'', js_prop v ''ok'') of
        (JStr rid, JBool True) \<Rightarrow> Inr (Ok_response rid (js_prop v ''result''))
      | (JStr rid, JBool False) \<Rightarrow> Inr (Error_response rid (read_error (js_prop v ''error'')))
      | _ \<Rightarrow> Inl [([], ''invalid_type'')])"

definition example_zod :: zod where
  "example_zod = \<lparr>z_uuid = (\<lambda>v. case v of JStr s \<Rightarrow> s \<noteq> [] | _ \<Rightarrow> False), z_request = read_request,
     z_response = read_response, z_input = (\<lambda>m v. Inr v), z_output = (\<lambda>m v. Inr v)\<rparr>"

lemma read_request_value: "read_request (request_value r) = Inr r"
  by (cases r) (simp add: read_request_def request_value_def optional_def split: option.splits)

lemma read_error_payload: "payload_ok e \<Longrightarrow> \<not> ge_close_connection e \<Longrightarrow> read_error (toPayload e) = e"
  by (cases e) (auto simp: read_error_def toPayload_def optional_def payload_ok_def details_ok_def
      split: option.splits js.splits)

lemma read_response_value: "response_ok example_zod r \<Longrightarrow> read_response (response_value r) = Inr r"
  by (cases r) (auto simp: read_response_def read_error_payload)

lemma example_zod_laws: "zod_laws example_zod"
  using read_request_value read_response_value by (simp add: zod_laws_def) (simp add: example_zod_def)

text \<open>A router with the same handler for every method, and a session that logged in.\<close>

definition example_handler :: handler where
  "example_handler v = Inr (JObj [(''version'', JNum 1), (''echo'', v)])"

definition example_handlers :: router where
  "example_handlers = router_new\<lparr>rt_handlers := map (\<lambda>n. (n, example_handler)) gatewayMethodNames\<rparr>"

definition example_gateway_session :: gateway_session where
  "example_gateway_session = snd (session_authenticate UserAccess ''alice'' True (session_new ''s1'' None))"

abbreviation example_router :: router where
  "example_router \<equiv> example_handlers\<lparr>rt_access := all_access, rt_sealed := True\<rparr>"

abbreviation example_context :: request_context where
  "example_context \<equiv> agentGatewayContext [] example_gateway_session"

abbreviation add_method :: method_definition where
  "add_method \<equiv> mutation_method UserAccess Durable None"

lemma map_of_same: "map_of (map (\<lambda>n. (n, f)) ns) n = (if n \<in> set ns then Some f else None)"
  by (induction ns) auto

lemma example_handler_of: "method_of name = Some d \<Longrightarrow> map_of (rt_handlers example_handlers) name = Some example_handler"
  using weak_map_of_SomeI [of name d gatewayMethodDefinitions] map_of_eq_None_iff [of gatewayMethodDefinitions name]
  by (simp add: example_handlers_def map_of_same method_of_def gatewayMethodNames_def del: map_map)

lemma example_sealed: "router_seal None example_handlers = (None, example_router)"
proof -
  have "missing_handlers all_access (rt_handlers example_handlers) = []"
    by (auto simp: missing_handlers_def filter_empty_conv registry_entry_iff example_handler_of)
  then show ?thesis by (simp add: router_seal_def)
qed

lemma queue_add_method: "method_of ''queue/add'' = Some add_method"
  by code_simp

lemma example_call:
  "rid \<noteq> [] \<Longrightarrow> k \<noteq> [] \<Longrightarrow>
   admissible_call example_zod example_router example_context ''queue/add'' add_method v v rid (Some k)"
  by (simp add: admissible_call_def queue_add_method authorize_None example_zod_def agentGatewayContext_def
      example_gateway_session_def session_authenticate_def session_new_def session_assertCurrent_def mutation_method_def all_access_def)

lemma example_session_reachable: "session_reachable example_gateway_session"
  unfolding example_gateway_session_def by (intro session_reachable.intros)


theorem sealed_router_is_well_typed_witness:
  "\<exists>h. route_admit example_zod example_router example_context
     (call_request ''queue/add'' (JStr ''hi'') ''r1'' (Some ''k1'')) = Inr (add_method, h)"
proof -
  let ?req = "call_request ''queue/add'' (JStr ''hi'') ''r1'' (Some ''k1'')"
  have c: "admissible_call example_zod example_router example_context ''queue/add'' add_method (JStr ''hi'') (JStr ''hi'')
      ''r1'' (Some ''k1'')"
    by (rule example_call) simp_all
  then have "method_of (rq_method ?req) = Some add_method" "md_access add_method \<in> set (rt_access example_router)"
    "cx_current example_context = None" "authorize (md_access add_method) (md_capability add_method) example_context = None"
    by (simp_all add: admissible_call_def)
  from sealed_router_is_well_typed [OF example_sealed admissible_parsed [OF example_zod_laws c, of True] this, of passthrough "()"]
  show ?thesis by blast
qed


definition example_env :: "timestamp \<Rightarrow> run_env" where
  "example_env t = \<lparr>re_hashing = example_hashing, re_closed = False,
     re_durable = ((t, Persisted True), (t + 1, Persisted True), (t + 2, Persisted True)), re_ephemeral = (t, t + 1),
     re_joined = internal_failure\<rparr>"


end
