(* ===== verification/Web_Gateway.thy ===== *)
theory Web_Gateway
  imports Gateway_Protocol "HOL-Library.Multiset"
begin

text \<open>
  The gateway ports of the web client: \<open>durable-mutation.ts\<close>, which reads the receipt of a mutation whose
  answer was lost, and the reconnecting port of \<open>gateway-port.ts\<close>, which replaces failed transports under
  the actors. Answers of the gateway, timers and the transports that a reconnection yields are events.
\<close>

section \<open>Reconciling a durable mutation\<close>

text \<open>
  One round of the loop: whether the scope is closed when it starts, what the gateway answers to
  \<open>mutation/status\<close>, whether the scope was aborted meanwhile, and whether it is aborted during the delay.
\<close>

record poll =
  po_closed :: bool
  po_answer :: "client_failure + mutation_status"
  po_aborted :: bool
  po_delay_aborted :: bool

datatype mutation_end =
    Returned js
  | Failed client_failure
  | NeedsReview string string
  | Aborted

definition MAX_TRANSIENT_FAILURES :: nat where
  "MAX_TRANSIENT_FAILURES = 120"

text \<open>
  The answer to one query: the mutation ends, or the loop goes on with a new count of transient failures.
\<close>

fun status_end :: "zod \<Rightarrow> string \<Rightarrow> string \<Rightarrow> mutation_status \<Rightarrow> mutation_end option" where
  "status_end z meth key (Status_completed m t (Failure e)) = Some (Failed (RemoteError e))"
| "status_end z meth key (Status_completed m t (Success v)) =
     Some (case z_output z meth v of Inr w \<Rightarrow> Returned w | Inl _ \<Rightarrow> NeedsReview key ''completed with an invalid result'')"
| "status_end z meth key Status_missing = Some (NeedsReview key ''no record of the operation'')"
| "status_end z meth key (Status_indeterminate m t) = Some (NeedsReview key ''outcome not known to the host'')"
| "status_end z meth key (Status_pending m t) = None"

definition poll_step :: "zod \<Rightarrow> string \<Rightarrow> string \<Rightarrow> nat \<Rightarrow> poll \<Rightarrow> mutation_end + nat" where
  "poll_step z meth key transient p =
     (if po_closed p then Inl Aborted
      else
        let next = (case po_answer p of
               Inr status \<Rightarrow> (case status_end z meth key status of Some r \<Rightarrow> Inl r | None \<Rightarrow> Inr 0)
             | Inl (RemoteError e) \<Rightarrow> Inl (Failed (RemoteError e))
             | Inl e \<Rightarrow>
                 if po_aborted p then Inl (Failed e)
                 else if Suc transient \<ge> MAX_TRANSIENT_FAILURES
                 then Inl (NeedsReview key ''status cannot be read'')
                 else Inr (Suc transient))
        in case next of
             Inl r \<Rightarrow> Inl r
           | Inr n \<Rightarrow> if po_delay_aborted p then Inl Aborted else Inr n)"

text \<open>\<open>None\<close>: the loop is still waiting for the next round.\<close>

fun reconcile :: "zod \<Rightarrow> string \<Rightarrow> string \<Rightarrow> nat \<Rightarrow> poll list \<Rightarrow> mutation_end option" where
  "reconcile z meth key transient [] = None"
| "reconcile z meth key transient (p # ps) =
     (case poll_step z meth key transient p of
        Inl r \<Rightarrow> Some r
      | Inr n \<Rightarrow> reconcile z meth key n ps)"

definition durableMutation ::
  "zod \<Rightarrow> string \<Rightarrow> string \<Rightarrow> client_failure + js \<Rightarrow> poll list \<Rightarrow> mutation_end option" where
  "durableMutation z meth key first polls =
     (case first of
        Inr v \<Rightarrow> Some (Returned v)
      | Inl (OutcomeUnknown m k) \<Rightarrow> reconcile z meth key 0 polls
      | Inl e \<Rightarrow> Some (Failed e))"

definition is_pending :: "poll \<Rightarrow> bool" where
  "is_pending p = (case po_answer p of Inr (Status_pending m t) \<Rightarrow> True | _ \<Rightarrow> False)"

lemma status_end_None: "status_end z meth key st = None \<longleftrightarrow> (\<exists>m t. st = Status_pending m t)"
  by (cases st; cases "case st of Status_completed m t out \<Rightarrow> out | _ \<Rightarrow> undefined") auto

lemma poll_step_Inr:
  assumes "poll_step z meth key transient p = Inr n"
  shows "is_pending p \<and> n = 0 \<or> \<not> is_pending p \<and> n = Suc transient \<and> n < MAX_TRANSIENT_FAILURES"
  using assms
  by (auto simp: poll_step_def is_pending_def Let_def status_end_None
      split: if_splits sum.splits option.splits client_failure.splits)

lemma reconcile_bound:
  "reconcile z meth key transient ps = None \<Longrightarrow> transient < MAX_TRANSIENT_FAILURES \<Longrightarrow>
     transient + length ps < MAX_TRANSIENT_FAILURES * Suc (t_count is_pending ps)"
proof (induction ps arbitrary: transient)
  case (Cons p ps)
  then obtain n where n: "poll_step z meth key transient p = Inr n" and rest: "reconcile z meth key n ps = None"
    by (auto split: sum.splits)
  have "n < MAX_TRANSIENT_FAILURES" using poll_step_Inr [OF n] by (auto simp: MAX_TRANSIENT_FAILURES_def)
  then have "n + length ps < MAX_TRANSIENT_FAILURES * Suc (t_count is_pending ps)" by (rule Cons.IH [OF rest])
  then show ?case using poll_step_Inr [OF n] Cons.prems(2) by auto
qed simp

lemma reconcile_append:
  "reconcile z meth key transient ps = Some r \<Longrightarrow> reconcile z meth key transient (ps @ qs) = Some r"
  by (induction ps arbitrary: transient) (auto split: sum.splits)

lemma count_of_finite:
  fixes f :: "nat \<Rightarrow> 'a"
  assumes "finite {i. P (f i)}"
  shows "t_count P (map f [0..<k]) \<le> card {i. P (f i)}"
proof -
  have "t_count P (map f [0..<k]) = card {i. i < k \<and> P (f i)}"
    by (simp add: t_count_def length_filter_conv_card) (metis (no_types, lifting) length_map length_upt nth_map_upt add_0 diff_zero)
  also have "\<dots> \<le> card {i. P (f i)}" by (rule card_mono [OF assms]) auto
  finally show ?thesis .
qed

text \<open>
  Claim C28. The reconciliation ends: unless the host answers forever that the mutation is still pending,
  the loop ends, and after \<open>p\<close> such answers it takes fewer than 120 further rounds for each of them and
  for the end, whatever fails in between.
\<close>

theorem reconciliation_terminates:
  assumes "finite {i. is_pending (polls i)}"
  shows "\<exists>k r. k \<le> MAX_TRANSIENT_FAILURES * Suc (card {i. is_pending (polls i)}) \<and>
    (\<forall>n \<ge> k. durableMutation z meth key first (map polls [0..<n]) = Some r)"
proof -
  define k where "k = MAX_TRANSIENT_FAILURES * Suc (card {i. is_pending (polls i)})"
  have "reconcile z meth key 0 (map polls [0..<k]) \<noteq> None"
  proof
    assume "reconcile z meth key 0 (map polls [0..<k]) = None"
    from reconcile_bound [OF this] have "k < MAX_TRANSIENT_FAILURES * Suc (t_count is_pending (map polls [0..<k]))"
      by (simp add: MAX_TRANSIENT_FAILURES_def)
    also have "\<dots> \<le> MAX_TRANSIENT_FAILURES * Suc (card {i. is_pending (polls i)})"
      using count_of_finite [of is_pending polls k] assms by (intro mult_le_mono2) simp
    also have "\<dots> = k" by (simp add: k_def)
    finally show False by simp
  qed
  then obtain r where r: "reconcile z meth key 0 (map polls [0..<k]) = Some r" by blast
  have "reconcile z meth key 0 (map polls [0..<n]) = Some r" if "n \<ge> k" for n
  proof -
    have "map polls [0..<n] = map polls [0..<k] @ map polls [k..<n]"
      using that by (metis le0 map_append upt_add_eq_append le_add_diff_inverse)
    with reconcile_append [OF r] show ?thesis by simp
  qed
  then have "\<exists>r. \<forall>n \<ge> k. durableMutation z meth key first (map polls [0..<n]) = Some r"
    by (cases first; cases "projl first") (auto simp: durableMutation_def)
  then show ?thesis using k_def by blast
qed

text \<open>
  What the client reports after a lost answer is what the receipt says: a result only if the host has
  completed the mutation with it, a failure only if the host reported one or the page is going away.
\<close>

lemma reconcile_authoritative:
  "reconcile z meth key transient ps = Some r \<Longrightarrow>
     (\<forall>w. r = Returned w \<longrightarrow> (\<exists>p \<in> set ps. \<exists>m t v. po_answer p = Inr (Status_completed m t (Success v)) \<and> z_output z meth v = Inr w)) \<and>
     (\<forall>e. r = Failed e \<longrightarrow> (\<exists>p \<in> set ps. (\<exists>m t g. po_answer p = Inr (Status_completed m t (Failure g)) \<and> e = RemoteError g) \<or>
        po_answer p = Inl e \<and> ((\<exists>g. e = RemoteError g) \<or> po_aborted p)))"
proof (induction ps arbitrary: transient)
  case (Cons p ps)
  show ?case
  proof (cases "poll_step z meth key transient p")
    case (Inl r')
    then have "r' = r" using Cons.prems by simp
    with Inl show ?thesis
      by (auto simp: poll_step_def Let_def split: if_splits sum.splits option.splits client_failure.splits
          elim!: status_end.elims)
  next
    case (Inr n)
    then have "reconcile z meth key n ps = Some r" using Cons.prems by simp
    from Cons.IH [OF this] show ?thesis by auto
  qed
qed simp

section \<open>The reconnecting port\<close>

text \<open>
  Transports are numbered. \<open>gp_scheduled\<close> is the flag of the code; while the scope is open it says that
  the timer is pending. \<open>gp_attempting\<close> counts the calls of \<open>reconnect\<close> that have not returned.
  \<open>gp_opened\<close> and \<open>gp_released\<close> are the transports the port was given and those it has closed, and
  \<open>gp_delay\<close> is the delay of the last timer.
\<close>

record gateway_port =
  gp_closed :: bool
  gp_current :: "nat option"
  gp_terminal :: bool
  gp_attempt :: nat
  gp_scheduled :: bool
  gp_delays :: "int list"
  gp_attempting :: nat
  gp_opened :: "nat list"
  gp_released :: "nat list"
  gp_delay :: int

definition port_attach :: "nat \<Rightarrow> gateway_port \<Rightarrow> gateway_port" where
  "port_attach p g = g\<lparr>gp_current := Some p\<rparr>"

definition port_new :: "int list \<Rightarrow> nat \<Rightarrow> ce_error + gateway_port" where
  "port_new delays initial =
     (if delays = [] then Inl (Error ''Reconnect retry delays cannot be empty'')
      else if \<exists>d \<in> set delays. \<not> safe_integer d \<or> d < 0
      then Inl (Error ''Reconnect retry delays must be non-negative integers'')
      else Inr (port_attach initial
        \<lparr>gp_closed = False, gp_current = None, gp_terminal = False, gp_attempt = 0, gp_scheduled = False,
         gp_delays = delays, gp_attempting = 0, gp_opened = [initial], gp_released = [], gp_delay = 0\<rparr>))"

definition default_delays :: "int list" where
  "default_delays = [250, 500, 1000, 2000, 5000]"

definition scheduleReconnect :: "gateway_port \<Rightarrow> gateway_port" where
  "scheduleReconnect g =
     (if gp_closed g \<or> gp_scheduled g \<or> gp_terminal g then g
      else g\<lparr>gp_scheduled := True, gp_delay := gp_delays g ! min (gp_attempt g) (length (gp_delays g) - 1)\<rparr>)"

text \<open>
  A transport reports that it was lost; its binding is closed, which closes the transport. \<open>throws\<close> says
  that a listener throws, which ends the callback.
\<close>

definition transportLost :: "nat \<Rightarrow> bool \<Rightarrow> gateway_port \<Rightarrow> gateway_port" where
  "transportLost p throws g =
     (if gp_closed g \<or> gp_current g \<noteq> Some p then g
      else let g' = g\<lparr>gp_current := None, gp_released := gp_released g @ [p]\<rparr>
           in if throws then g' else scheduleReconnect g')"

definition timer_fires :: "gateway_port \<Rightarrow> gateway_port" where
  "timer_fires g =
     (if gp_closed g \<or> \<not> gp_scheduled g then g
      else let g' = g\<lparr>gp_scheduled := False\<rparr>
           in if gp_current g' \<noteq> None then g' else g'\<lparr>gp_attempting := Suc (gp_attempting g')\<rparr>)"

text \<open>The \<open>catch\<close> of \<open>#attemptReconnect\<close>; \<open>terminal\<close> is \<open>isTerminalReconnectError\<close> of the failure.\<close>

definition reconnect_caught :: "bool \<Rightarrow> gateway_port \<Rightarrow> gateway_port" where
  "reconnect_caught terminal g =
     (if gp_closed g then g
      else if terminal then g\<lparr>gp_terminal := True\<rparr>
      else scheduleReconnect (g\<lparr>gp_attempt := Suc (gp_attempt g)\<rparr>))"

definition reconnect_fails :: "bool \<Rightarrow> gateway_port \<Rightarrow> gateway_port" where
  "reconnect_fails terminal g = reconnect_caught terminal (g\<lparr>gp_attempting := gp_attempting g - 1\<rparr>)"

text \<open>\<open>throws\<close> is the error of a listener of the restored connection: whether it counts as terminal.\<close>

definition reconnect_succeeds :: "nat \<Rightarrow> bool option \<Rightarrow> gateway_port \<Rightarrow> gateway_port" where
  "reconnect_succeeds p throws g =
     (let g' = g\<lparr>gp_attempting := gp_attempting g - 1, gp_opened := gp_opened g @ [p]\<rparr>
      in if gp_closed g' then g'\<lparr>gp_released := gp_released g' @ [p]\<rparr>
         else let g'' = port_attach p (g'\<lparr>gp_attempt := 0\<rparr>)
              in case throws of None \<Rightarrow> g'' | Some terminal \<Rightarrow> reconnect_caught terminal g'')"

text \<open>\<open>close\<close>: the scope closes its binding, which closes the transport, and cancels the timer.\<close>

definition port_close :: "gateway_port \<Rightarrow> gateway_port" where
  "port_close g =
     (if gp_closed g then g
      else g\<lparr>gp_closed := True, gp_released := gp_released g @ (case gp_current g of None \<Rightarrow> [] | Some p \<Rightarrow> [p])\<rparr>)"

definition port_request :: "gateway_port \<Rightarrow> ce_error + nat" where
  "port_request g =
     (if gp_terminal g then Inl (Error ''terminal reconnect failure'')
      else case gp_current g of None \<Rightarrow> Inl (Error ''reconnecting'') | Some p \<Rightarrow> Inr p)"

text \<open>
  The events, when no listener of a lost connection throws. A reconnection yields a new transport.
\<close>

inductive port_reachable :: "gateway_port \<Rightarrow> bool" where
  pr_new: "port_new delays initial = Inr g \<Longrightarrow> port_reachable g"
| pr_lost: "port_reachable g \<Longrightarrow> port_reachable (transportLost p False g)"
| pr_timer: "port_reachable g \<Longrightarrow> port_reachable (timer_fires g)"
| pr_fails: "port_reachable g \<Longrightarrow> 0 < gp_attempting g \<Longrightarrow> port_reachable (reconnect_fails terminal g)"
| pr_succeeds: "port_reachable g \<Longrightarrow> 0 < gp_attempting g \<Longrightarrow> p \<notin> set (gp_opened g) \<Longrightarrow>
    port_reachable (reconnect_succeeds p throws g)"
| pr_close: "port_reachable g \<Longrightarrow> port_reachable (port_close g)"

definition port_holds :: "gateway_port \<Rightarrow> nat list" where
  "port_holds g = (if gp_closed g then [] else case gp_current g of None \<Rightarrow> [] | Some p \<Rightarrow> [p])"

definition port_inv :: "gateway_port \<Rightarrow> bool" where
  "port_inv g \<longleftrightarrow>
     distinct (gp_opened g) \<and> mset (gp_opened g) = mset (gp_released g @ port_holds g) \<and>
     gp_delays g \<noteq> [] \<and> (\<forall>d \<in> set (gp_delays g). 0 \<le> d) \<and> (gp_scheduled g \<longrightarrow> gp_delay g \<in> set (gp_delays g)) \<and>
     gp_attempting g \<le> 1 \<and>
     (gp_attempting g = 1 \<and> \<not> gp_closed g \<longrightarrow> gp_current g = None \<and> \<not> gp_scheduled g \<and> \<not> gp_terminal g) \<and>
     (gp_scheduled g \<and> \<not> gp_closed g \<longrightarrow> \<not> gp_terminal g) \<and>
     (\<not> gp_closed g \<and> gp_current g = None \<and> \<not> gp_terminal g \<longrightarrow> gp_scheduled g \<or> gp_attempting g = 1)"

lemma retry_delay: "delays \<noteq> [] \<Longrightarrow> delays ! min n (length delays - Suc 0) \<in> set delays"
  by (intro nth_mem) (cases delays; simp)

lemmas port_defs = port_inv_def port_holds_def scheduleReconnect_def transportLost_def timer_fires_def reconnect_caught_def
  reconnect_fails_def reconnect_succeeds_def port_close_def port_attach_def Let_def

lemma port_new_inv: "port_new delays initial = Inr g \<Longrightarrow> port_inv g"
  by (fastforce simp: port_new_def port_defs split: if_splits)

lemma transportLost_inv: "port_inv g \<Longrightarrow> port_inv (transportLost p False g)"
  by (auto simp: port_defs retry_delay split: if_splits option.splits)

lemma timer_fires_inv: "port_inv g \<Longrightarrow> port_inv (timer_fires g)"
  by (auto simp: port_defs split: if_splits option.splits)

lemma reconnect_fails_inv: "port_inv g \<Longrightarrow> 0 < gp_attempting g \<Longrightarrow> port_inv (reconnect_fails terminal g)"
  by (auto simp: port_defs retry_delay split: if_splits option.splits)

lemma reconnect_succeeds_inv:
  "port_inv g \<Longrightarrow> 0 < gp_attempting g \<Longrightarrow> p \<notin> set (gp_opened g) \<Longrightarrow> port_inv (reconnect_succeeds p throws g)"
  by (auto simp: port_defs retry_delay split: if_splits option.splits)

lemma port_close_inv: "port_inv g \<Longrightarrow> port_inv (port_close g)"
  by (auto simp: port_defs split: if_splits option.splits)

lemma port_reachable_inv: "port_reachable g \<Longrightarrow> port_inv g"
  by (induction rule: port_reachable.induct)
    (use port_new_inv transportLost_inv timer_fires_inv reconnect_fails_inv reconnect_succeeds_inv port_close_inv in blast)+


text \<open>
  A listener that throws when the connection is lost stops the port for good: no transport, no timer and
  no reconnection is left, and no later event but \<open>close\<close> changes that.
\<close>

lemma throwing_listener_strands_port:
  assumes "port_inv g" and "\<not> gp_closed g" and "gp_current g = Some p" and "\<not> gp_scheduled g"
  shows "let g' = transportLost p True g in gp_current g' = None \<and> \<not> gp_scheduled g' \<and> gp_attempting g' = 0 \<and>
    \<not> gp_closed g' \<and> timer_fires g' = g' \<and> transportLost q b g' = g'"
  using assms by (auto simp: port_defs)

theorem reconciliation_terminates_witness:
  "\<exists>k r. k \<le> MAX_TRANSIENT_FAILURES * 2 \<and>
    (\<forall>n \<ge> k. durableMutation example_zod ''queue/add'' ''k1'' (Inl (OutcomeUnknown ''queue/add'' ''k1''))
      (map (\<lambda>i. \<lparr>po_closed = False, po_answer = (if i = 0 then Inr (Status_pending ''queue/add'' 5) else Inl (TransportFailure ''offline'')),
        po_aborted = False, po_delay_aborted = False\<rparr>) [0..<n]) = Some r)"
proof -
  let ?f = "\<lambda>i :: nat. \<lparr>po_closed = False, po_answer = (if i = 0 then Inr (Status_pending ''queue/add'' 5) else Inl (TransportFailure ''offline'')),
        po_aborted = False, po_delay_aborted = False\<rparr>"
  have set: "{i. is_pending (?f i)} = {0}"
    by (auto simp: is_pending_def split: if_splits)
  then have "finite {i. is_pending (?f i)}" by simp
  from reconciliation_terminates [of ?f, OF this, of example_zod "''queue/add''" "''k1''" "Inl (OutcomeUnknown ''queue/add'' ''k1'')"]
  show ?thesis unfolding set by (simp add: mult_2_right)
qed


end
