(* ===== verification/Relay_Capability.thy ===== *)
theory Relay_Capability
  imports CE_Prelude
begin

text \<open>
  Route capabilities of the relay (\<open>packages/protocol/src/relay-capability.ts\<close>): a signed payload that
  allows an agent to register a route. The keyed hash, base64url, JSON texts and dates are those of the
  platform and are the argument \<open>codec\<close>; \<open>codec_laws\<close> states what the code relies on. A buffer is the list
  of its bytes as characters.
\<close>

section \<open>Buffers, texts and dates\<close>

type_synonym buffer = string

record codec =
  cc_hmac :: "buffer \<Rightarrow> string \<Rightarrow> buffer"
  cc_b64 :: "buffer \<Rightarrow> string"
  cc_unb64 :: "string \<Rightarrow> buffer"
  cc_json :: "js \<Rightarrow> buffer"
  cc_parse :: "buffer \<Rightarrow> js option"
  cc_date :: "string \<Rightarrow> int option"
  cc_iso :: "int \<Rightarrow> string"

text \<open>
  \<open>digest("base64url")\<close> never has a dot and decodes to what was encoded, SHA-256 has 32 bytes, and an ISO
  text denotes its instant.
\<close>

definition codec_laws :: "codec \<Rightarrow> bool" where
  "codec_laws c \<longleftrightarrow>
     (\<forall>x. cc_unb64 c (cc_b64 c x) = x \<and> CHR ''.'' \<notin> set (cc_b64 c x) \<and> (x \<noteq> [] \<longrightarrow> cc_b64 c x \<noteq> [])) \<and>
     (\<forall>k t. length (cc_hmac c k t) = 32) \<and> (\<forall>n. cc_date c (cc_iso c n) = Some n)"

definition validDate :: "codec \<Rightarrow> string \<Rightarrow> bool" where
  "validDate c s \<longleftrightarrow> cc_date c s \<noteq> None"

text \<open>Whether the instant of a date text is not after \<open>now\<close>; a text that is no date compares as \<open>NaN\<close>.\<close>

definition date_le :: "codec \<Rightarrow> string \<Rightarrow> int \<Rightarrow> bool" where
  "date_le c s now = (case cc_date c s of Some t \<Rightarrow> t \<le> now | None \<Rightarrow> False)"

section \<open>Names\<close>

definition is_letter :: "char \<Rightarrow> bool" where
  "is_letter ch \<longleftrightarrow> (CHR ''A'' \<le> ch \<and> ch \<le> CHR ''Z'') \<or> (CHR ''a'' \<le> ch \<and> ch \<le> CHR ''z'')"

definition is_digit :: "char \<Rightarrow> bool" where
  "is_digit ch \<longleftrightarrow> CHR ''0'' \<le> ch \<and> ch \<le> CHR ''9''"

definition token_char :: "char \<Rightarrow> bool" where
  "token_char ch \<longleftrightarrow> is_letter ch \<or> is_digit ch \<or> ch \<in> set ''_-''"

definition name_char :: "char \<Rightarrow> bool" where
  "name_char ch \<longleftrightarrow> token_char ch \<or> ch = CHR ''.''"

text \<open>\<open>[A-Za-z0-9_-]{32}\<close>\<close>

definition token32 :: "string \<Rightarrow> bool" where
  "token32 s \<longleftrightarrow> length s = 32 \<and> list_all token_char s"

text \<open>\<open>[A-Za-z_][A-Za-z0-9_.-]{0,62}\$?\<close>: at most one dollar, at the end.\<close>

fun login_pattern :: "string \<Rightarrow> bool" where
  "login_pattern [] = False"
| "login_pattern (ch # s) =
     ((is_letter ch \<or> ch = CHR ''_'') \<and>
      (let body = (if s \<noteq> [] \<and> last s = CHR ''$'' then butlast s else s)
       in length body \<le> 62 \<and> list_all name_char body))"

fun installation_pattern :: "string \<Rightarrow> bool" where
  "installation_pattern [] = False"
| "installation_pattern (ch # s) = ((is_letter ch \<or> is_digit ch) \<and> length s \<le> 63 \<and> list_all name_char s)"

definition normalizeLoginName :: "string \<Rightarrow> ce_error + string" where
  "normalizeLoginName v =
     (let n = js_trim v in
      if length n < 1 \<or> length n > 64 \<or> \<not> login_pattern n then Inl (Error ''Invalid Relay login name'') else Inr n)"

definition normalizeInstallationId :: "string \<Rightarrow> ce_error + string" where
  "normalizeInstallationId v =
     (let n = js_trim v in
      if length n < 1 \<or> length n > 64 \<or> \<not> installation_pattern n then Inl (Error ''Invalid Relay installation ID'') else Inr n)"

definition assertSigningKey :: "buffer \<Rightarrow> ce_error option" where
  "assertSigningKey key = (if length key \<noteq> 32 then Some (Error ''Relay signing key must be 32 bytes'') else None)"

definition assertRouteId :: "string \<Rightarrow> ce_error option" where
  "assertRouteId s = (if token32 s then None else Some (Error ''Invalid Relay route ID''))"

section \<open>Payloads\<close>

text \<open>The fields of the three generations of payloads; \<open>None\<close> is an absent field.\<close>

datatype relay_principal = User_principal | HostAdmin_principal

record payload =
  cp_version :: int
  cp_purpose :: string
  cp_principal :: "relay_principal option"
  cp_routeId :: string
  cp_installationId :: "string option"
  cp_loginId :: "string option"
  cp_loginName :: "string option"
  cp_issuedAt :: string
  cp_expiresAt :: "string option"
  cp_provisionerExpiresAt :: "string option"

fun principal_text :: "relay_principal \<Rightarrow> string" where
  "principal_text User_principal = ''user''"
| "principal_text HostAdmin_principal = ''host-admin''"

definition opt_field :: "string \<Rightarrow> string option \<Rightarrow> (string \<times> js) list" where
  "opt_field k v = (case v of None \<Rightarrow> [] | Some s \<Rightarrow> [(k, JStr s)])"

definition payload_value :: "payload \<Rightarrow> js" where
  "payload_value p = JObj ([(''version'', JNum (cp_version p)), (''purpose'', JStr (cp_purpose p))] @
     opt_field ''principal'' (map_option principal_text (cp_principal p)) @
     [(''routeId'', JStr (cp_routeId p))] @ opt_field ''installationId'' (cp_installationId p) @
     opt_field ''loginId'' (cp_loginId p) @ opt_field ''loginName'' (cp_loginName p) @
     [(''issuedAt'', JStr (cp_issuedAt p))] @ opt_field ''expiresAt'' (cp_expiresAt p) @
     opt_field ''provisionerExpiresAt'' (cp_provisionerExpiresAt p))"

fun text_of :: "js \<Rightarrow> string option" where
  "text_of (JStr s) = Some s"
| "text_of _ = None"

definition read_payload :: "js \<Rightarrow> payload" where
  "read_payload v =
     \<lparr>cp_version = (case js_prop v ''version'' of JNum n \<Rightarrow> n | _ \<Rightarrow> 0),
      cp_purpose = (case js_prop v ''purpose'' of JStr s \<Rightarrow> s | _ \<Rightarrow> []),
      cp_principal = (if js_prop v ''principal'' = JStr ''user'' then Some User_principal
        else if js_prop v ''principal'' = JStr ''host-admin'' then Some HostAdmin_principal else None),
      cp_routeId = (case js_prop v ''routeId'' of JStr s \<Rightarrow> s | _ \<Rightarrow> []),
      cp_installationId = text_of (js_prop v ''installationId''),
      cp_loginId = text_of (js_prop v ''loginId''),
      cp_loginName = text_of (js_prop v ''loginName''),
      cp_issuedAt = (case js_prop v ''issuedAt'' of JStr s \<Rightarrow> s | _ \<Rightarrow> []),
      cp_expiresAt = text_of (js_prop v ''expiresAt''),
      cp_provisionerExpiresAt = text_of (js_prop v ''provisionerExpiresAt'')\<rparr>"

definition isNormalizedInstallationId :: "string \<Rightarrow> bool" where
  "isNormalizedInstallationId s \<longleftrightarrow> normalizeInstallationId s = Inr s"

definition isNormalizedLoginName :: "string \<Rightarrow> bool" where
  "isNormalizedLoginName s \<longleftrightarrow> normalizeLoginName s = Inr s"

definition str_field :: "js \<Rightarrow> string \<Rightarrow> (string \<Rightarrow> bool) \<Rightarrow> bool" where
  "str_field v k p = (case js_prop v k of JStr s \<Rightarrow> p s | _ \<Rightarrow> False)"

definition opt_str_field :: "js \<Rightarrow> string \<Rightarrow> (string \<Rightarrow> bool) \<Rightarrow> bool" where
  "opt_str_field v k p \<longleftrightarrow> js_prop v k = JUndefined \<or> str_field v k p"

definition provisioned_fields :: "codec \<Rightarrow> js \<Rightarrow> bool" where
  "provisioned_fields c v \<longleftrightarrow> str_field v ''installationId'' isNormalizedInstallationId \<and>
     str_field v ''loginName'' isNormalizedLoginName \<and> str_field v ''provisionerExpiresAt'' (validDate c)"

definition isCapabilityPayload :: "codec \<Rightarrow> js \<Rightarrow> bool" where
  "isCapabilityPayload c v \<longleftrightarrow>
     (case v of JObj fs \<Rightarrow> True | JArr vs \<Rightarrow> True | _ \<Rightarrow> False) \<and>
     (js_prop v ''purpose'' = JStr ''agent-route'' \<or> js_prop v ''purpose'' = JStr ''host-admin-route'') \<and>
     str_field v ''routeId'' token32 \<and> str_field v ''issuedAt'' (validDate c) \<and>
     opt_str_field v ''expiresAt'' (validDate c) \<and>
     (if js_prop v ''version'' = JNum 1 \<or> js_prop v ''version'' = JNum 2
      then js_prop v ''purpose'' = JStr ''agent-route'' \<and> opt_str_field v ''loginId'' token32
      else if js_prop v ''version'' = JNum 3
      then js_prop v ''purpose'' = JStr ''agent-route'' \<and> provisioned_fields c v
      else js_prop v ''version'' = JNum 4 \<and>
        (js_prop v ''principal'' = JStr ''user'' \<and> js_prop v ''purpose'' = JStr ''agent-route'' \<or>
         js_prop v ''principal'' = JStr ''host-admin'' \<and> js_prop v ''purpose'' = JStr ''host-admin-route'') \<and>
        provisioned_fields c v)"

definition isProvisionedCapability :: "payload \<Rightarrow> bool" where
  "isProvisionedCapability p \<longleftrightarrow> cp_version p = 3 \<or> cp_version p = 4"

section \<open>Signatures\<close>

definition nul :: string where
  "nul = [CHR 0x00]"

definition deriveProvisionerSigningKey :: "codec \<Rightarrow> buffer \<Rightarrow> string \<Rightarrow> string \<Rightarrow> ce_error + buffer" where
  "deriveProvisionerSigningKey c key installation expires =
     (case assertSigningKey key of
        Some e \<Rightarrow> Inl e
      | None \<Rightarrow>
          (case normalizeInstallationId installation of
             Inl e \<Rightarrow> Inl e
           | Inr i \<Rightarrow> Inr (cc_hmac c key (''ce-relay-provisioner-v1'' @ nul @ i @ nul @ expires))))"

definition signCapability :: "codec \<Rightarrow> payload \<Rightarrow> buffer \<Rightarrow> string \<Rightarrow> string" where
  "signCapability c p key prefix =
     (let body = cc_b64 c (cc_json c (payload_value p))
      in body @ ''.'' @ cc_b64 c (cc_hmac c key (prefix @ ''.'' @ body)))"

definition verifySignature :: "codec \<Rightarrow> string \<Rightarrow> string \<Rightarrow> buffer \<Rightarrow> string \<Rightarrow> ce_error option" where
  "verifySignature c body signature key prefix =
     (if cc_unb64 c signature \<noteq> cc_hmac c key (prefix @ ''.'' @ body)
      then Some (Error ''Invalid route capability signature'') else None)"

text \<open>\<open>split(".")\<close>.\<close>

fun split_dots :: "string \<Rightarrow> string list" where
  "split_dots [] = [[]]"
| "split_dots (ch # s) =
     (if ch = CHR ''.'' then [] # split_dots s
      else case split_dots s of [] \<Rightarrow> [[ch]] | x # xs \<Rightarrow> (ch # x) # xs)"

definition parseCapabilityParts :: "codec \<Rightarrow> string \<Rightarrow> ce_error + (string \<times> string \<times> payload)" where
  "parseCapabilityParts c capability =
     (case split_dots capability of
        [body, signature] \<Rightarrow>
          if body = [] \<or> signature = [] then Inl (Error ''Invalid route capability'')
          else (case cc_parse c (cc_unb64 c body) of
                  None \<Rightarrow> Inl (Error ''Invalid route capability payload'')
                | Some v \<Rightarrow>
                    if isCapabilityPayload c v then Inr (body, signature, read_payload v)
                    else Inl (Error ''Invalid route capability payload''))
      | _ \<Rightarrow> Inl (Error ''Invalid route capability''))"

definition legacy_prefix :: string where
  "legacy_prefix = ''ce-relay-v1''"

definition provisioned_prefix :: string where
  "provisioned_prefix = ''ce-relay-provisioned-v1''"

text \<open>
  The key and the prefix a payload must be signed with. (\<open>JSON.parse\<close> throws its own error for a body that
  is no JSON text; the model gives it the message of \<open>parseCapabilityParts\<close>.)
\<close>

definition verifying_key :: "codec \<Rightarrow> buffer \<Rightarrow> payload \<Rightarrow> ce_error + buffer" where
  "verifying_key c key p =
     (if isProvisionedCapability p
      then deriveProvisionerSigningKey c key (the (cp_installationId p)) (the (cp_provisionerExpiresAt p))
      else Inr key)"

definition verifyRouteCapability :: "codec \<Rightarrow> string \<Rightarrow> buffer \<Rightarrow> int \<Rightarrow> ce_error + payload" where
  "verifyRouteCapability c capability key now =
     (case assertSigningKey key of
        Some e \<Rightarrow> Inl e
      | None \<Rightarrow>
     (case parseCapabilityParts c capability of
        Inl e \<Rightarrow> Inl e
      | Inr (body, signature, p) \<Rightarrow>
     (case verifying_key c key p of
        Inl e \<Rightarrow> Inl e
      | Inr k \<Rightarrow>
     (case verifySignature c body signature k (if isProvisionedCapability p then provisioned_prefix else legacy_prefix) of
        Some e \<Rightarrow> Inl e
      | None \<Rightarrow>
          if (case cp_expiresAt p of None \<Rightarrow> False | Some t \<Rightarrow> date_le c t now)
          then Inl (Error ''Route capability has expired'')
          else if isProvisionedCapability p \<and> date_le c (the (cp_provisionerExpiresAt p)) now
          then Inl (Error ''Host provisioner credential has expired'')
          else Inr p))))"

section \<open>Identities of a capability\<close>

definition hmac_id :: "codec \<Rightarrow> buffer \<Rightarrow> string \<Rightarrow> string" where
  "hmac_id c key t = take 32 (cc_b64 c (cc_hmac c key t))"

definition relayLoginId :: "codec \<Rightarrow> buffer \<Rightarrow> string \<Rightarrow> ce_error + string" where
  "relayLoginId c key login =
     (case assertSigningKey key of Some e \<Rightarrow> Inl e | None \<Rightarrow>
     (case normalizeLoginName login of Inl e \<Rightarrow> Inl e
      | Inr n \<Rightarrow> Inr (hmac_id c key (''ce-relay-login-v1'' @ nul @ n))))"

definition relayPrincipalLoginId :: "codec \<Rightarrow> buffer \<Rightarrow> relay_principal \<Rightarrow> string \<Rightarrow> ce_error + string" where
  "relayPrincipalLoginId c key who login =
     (case assertSigningKey key of Some e \<Rightarrow> Inl e | None \<Rightarrow>
      if who = User_principal then relayLoginId c key login
      else case normalizeLoginName login of Inl e \<Rightarrow> Inl e
           | Inr n \<Rightarrow> Inr (hmac_id c key (''ce-relay-login-v2'' @ nul @ principal_text who @ nul @ n)))"

definition relayInstallationPrincipalLoginId ::
  "codec \<Rightarrow> buffer \<Rightarrow> string \<Rightarrow> relay_principal \<Rightarrow> string \<Rightarrow> ce_error + string" where
  "relayInstallationPrincipalLoginId c key installation who login =
     (case assertSigningKey key of Some e \<Rightarrow> Inl e | None \<Rightarrow>
     (case normalizeInstallationId installation of Inl e \<Rightarrow> Inl e | Inr i \<Rightarrow>
     (case normalizeLoginName login of Inl e \<Rightarrow> Inl e
      | Inr n \<Rightarrow> Inr (hmac_id c key (''ce-relay-login-v3'' @ nul @ i @ nul @ principal_text who @ nul @ n)))))"

definition routeCapabilityPrincipal :: "payload \<Rightarrow> relay_principal" where
  "routeCapabilityPrincipal p = (if cp_version p = 4 then the (cp_principal p) else User_principal)"

definition routeCapabilityOwnerId :: "codec \<Rightarrow> payload \<Rightarrow> buffer \<Rightarrow> ce_error + string option" where
  "routeCapabilityOwnerId c p key =
     (if isProvisionedCapability p
      then map_sum id Some (relayInstallationPrincipalLoginId c key (the (cp_installationId p))
        (if cp_version p = 4 then the (cp_principal p) else User_principal) (the (cp_loginName p)))
      else Inr None)"

definition routeCapabilityLoginId :: "codec \<Rightarrow> payload \<Rightarrow> buffer \<Rightarrow> ce_error + string option" where
  "routeCapabilityLoginId c p key =
     (if isProvisionedCapability p
      then map_sum id Some (relayInstallationPrincipalLoginId c key (the (cp_installationId p))
        (if cp_version p = 4 then the (cp_principal p) else User_principal) (the (cp_loginName p)))
      else Inr (cp_loginId p))"

definition date_of :: "codec \<Rightarrow> string \<Rightarrow> int" where
  "date_of c s = (case cc_date c s of Some t \<Rightarrow> t | None \<Rightarrow> 0)"

text \<open>\<open>reduce\<close> keeps the earlier of two dates; every date of an accepted payload is valid.\<close>

definition routeCapabilityEffectiveExpiration :: "codec \<Rightarrow> string \<Rightarrow> ce_error + string option" where
  "routeCapabilityEffectiveExpiration c capability =
     (case parseCapabilityParts c capability of
        Inl e \<Rightarrow> Inl e
      | Inr (body, signature, p) \<Rightarrow>
          (let expirations = List.map_filter id [cp_expiresAt p,
                 if isProvisionedCapability p then cp_provisionerExpiresAt p else None]
           in case expirations of
                [] \<Rightarrow> Inr None
              | e # es \<Rightarrow> Inr (Some (foldl (\<lambda>earliest v. if date_of c v < date_of c earliest then v else earliest) e es))))"

definition routeIdFromCapability :: "codec \<Rightarrow> string \<Rightarrow> ce_error + string" where
  "routeIdFromCapability c capability = map_sum id (\<lambda>(body, signature, p). cp_routeId p) (parseCapabilityParts c capability)"

section \<open>Issuing\<close>

record credential =
  hc_installationId :: string
  hc_issuedAt :: string
  hc_expiresAt :: string
  hc_signingKey :: string

definition issueRouteCapability ::
  "codec \<Rightarrow> buffer \<Rightarrow> int option \<Rightarrow> string option \<Rightarrow> string \<Rightarrow> int \<Rightarrow> ce_error + (string \<times> payload)" where
  "issueRouteCapability c key expires login route now =
     (case assertSigningKey key of Some e \<Rightarrow> Inl e | None \<Rightarrow>
     (case (case login of None \<Rightarrow> Inr None
            | Some l \<Rightarrow> if l = [] then Inr None else map_sum id Some (relayLoginId c key l)) of
        Inl e \<Rightarrow> Inl e
      | Inr loginId \<Rightarrow>
          (let p = \<lparr>cp_version = 2, cp_purpose = ''agent-route'', cp_principal = None, cp_routeId = route,
                 cp_installationId = None, cp_loginId = loginId, cp_loginName = None, cp_issuedAt = cc_iso c now,
                 cp_expiresAt = map_option (cc_iso c) expires, cp_provisionerExpiresAt = None\<rparr>
           in case assertRouteId route of Some e \<Rightarrow> Inl e | None \<Rightarrow> Inr (signCapability c p key legacy_prefix, p))))"

definition issueHostProvisionerCredential :: "codec \<Rightarrow> buffer \<Rightarrow> string \<Rightarrow> int \<Rightarrow> int \<Rightarrow> ce_error + credential" where
  "issueHostProvisionerCredential c key installation expires now =
     (case assertSigningKey key of Some e \<Rightarrow> Inl e | None \<Rightarrow>
     (case normalizeInstallationId installation of Inl e \<Rightarrow> Inl e | Inr i \<Rightarrow>
      if expires \<le> now then Inl (Error ''Host provisioner expiration must be in the future'')
      else case deriveProvisionerSigningKey c key i (cc_iso c expires) of
             Inl e \<Rightarrow> Inl e
           | Inr k \<Rightarrow> Inr \<lparr>hc_installationId = i, hc_issuedAt = cc_iso c now, hc_expiresAt = cc_iso c expires,
                 hc_signingKey = cc_b64 c k\<rparr>))"

text \<open>
  \<open>parseHostProvisionerCredential\<close> of a credential object whose fields are texts and whose version and
  purpose are the expected ones.
\<close>

definition parseHostProvisionerCredential :: "codec \<Rightarrow> credential \<Rightarrow> int \<Rightarrow> ce_error + credential" where
  "parseHostProvisionerCredential c h now =
     (case normalizeInstallationId (hc_installationId h) of
        Inl e \<Rightarrow> Inl e
      | Inr i \<Rightarrow>
          if i \<noteq> hc_installationId h \<or>
             \<not> validDate c (hc_issuedAt h) \<or> \<not> validDate c (hc_expiresAt h) \<or>
             date_of c (hc_expiresAt h) \<le> date_of c (hc_issuedAt h) \<or> length (cc_unb64 c (hc_signingKey h)) \<noteq> 32
          then Inl (Error ''Invalid host provisioner credential'')
          else if date_of c (hc_expiresAt h) \<le> now then Inl (Error ''Invalid or expired host provisioner credential'')
          else Inr h)"

definition issueProvisioned ::
  "codec \<Rightarrow> relay_principal \<Rightarrow> credential \<Rightarrow> string \<Rightarrow> int option \<Rightarrow> string \<Rightarrow> int \<Rightarrow> ce_error + (string \<times> payload)" where
  "issueProvisioned c who cred login expires route now =
     (case parseHostProvisionerCredential c cred now of Inl e \<Rightarrow> Inl e | Inr h \<Rightarrow>
      if (case expires of None \<Rightarrow> False | Some t \<Rightarrow> t \<le> now)
      then Inl (Error ''Route capability expiration must be in the future'')
      else if (case expires of None \<Rightarrow> False | Some t \<Rightarrow> t > date_of c (hc_expiresAt h))
      then Inl (Error ''Route capability cannot outlive its host provisioner'')
      else case normalizeLoginName login of Inl e \<Rightarrow> Inl e | Inr n \<Rightarrow>
        (let p = \<lparr>cp_version = 4, cp_purpose = (if who = User_principal then ''agent-route'' else ''host-admin-route''),
               cp_principal = Some who, cp_routeId = route, cp_installationId = Some (hc_installationId h),
               cp_loginId = None, cp_loginName = Some n, cp_issuedAt = cc_iso c now,
               cp_expiresAt = map_option (cc_iso c) expires, cp_provisionerExpiresAt = Some (hc_expiresAt h)\<rparr>
         in case assertRouteId route of Some e \<Rightarrow> Inl e | None \<Rightarrow>
            (let key = cc_unb64 c (hc_signingKey h)
             in case assertSigningKey key of Some e \<Rightarrow> Inl e
                | None \<Rightarrow> Inr (signCapability c p key provisioned_prefix, p))))"

definition issueProvisionedRouteCapability where
  "issueProvisionedRouteCapability c = issueProvisioned c User_principal"

definition issueProvisionedAdminRouteCapability where
  "issueProvisionedAdminRouteCapability c = issueProvisioned c HostAdmin_principal"

text \<open>The renewal checks: a capability is checked with the credential that signed it.\<close>

definition assertCapabilityCurrent :: "codec \<Rightarrow> payload \<Rightarrow> int \<Rightarrow> ce_error option" where
  "assertCapabilityCurrent c p now =
     (if (case cp_expiresAt p of None \<Rightarrow> False | Some t \<Rightarrow> date_le c t now)
      then Some (Error ''Route capability has expired'')
      else if date_le c (the (cp_provisionerExpiresAt p)) now
      then Some (Error ''Host provisioner credential has expired'') else None)"

definition verify_for_renewal ::
  "codec \<Rightarrow> (payload \<Rightarrow> ce_error option) \<Rightarrow> (payload \<Rightarrow> bool) \<Rightarrow> string \<Rightarrow> string \<Rightarrow> credential \<Rightarrow> string \<Rightarrow> int \<Rightarrow> ce_error + payload" where
  "verify_for_renewal c first_check kind message capability cred login now =
     (case parseHostProvisionerCredential c cred now of Inl e \<Rightarrow> Inl e | Inr h \<Rightarrow>
     (case parseCapabilityParts c capability of Inl e \<Rightarrow> Inl e | Inr (body, signature, p) \<Rightarrow>
     (case first_check p of Some e \<Rightarrow> Inl e | None \<Rightarrow>
      if \<not> kind p \<or> cp_installationId p \<noteq> Some (hc_installationId h) \<or> cp_provisionerExpiresAt p \<noteq> Some (hc_expiresAt h)
      then Inl (Error message)
      else case normalizeLoginName login of Inl e \<Rightarrow> Inl e | Inr n \<Rightarrow>
     (if cp_loginName p \<noteq> Some n then Inl (Error message)
      else case verifySignature c body signature (cc_unb64 c (hc_signingKey h)) provisioned_prefix of
             Some e \<Rightarrow> Inl e
           | None \<Rightarrow> (case assertCapabilityCurrent c p now of Some e \<Rightarrow> Inl e | None \<Rightarrow> Inr p)))))"

definition verifyProvisionedUserRouteForRenewal where
  "verifyProvisionedUserRouteForRenewal c =
     verify_for_renewal c
       (\<lambda>p. if isProvisionedCapability p then None else Some (Error ''Relay capability was not issued by a host provisioner''))
       (\<lambda>p. routeCapabilityPrincipal p = User_principal \<and> cp_purpose p = ''agent-route'')
       ''Relay capability does not belong to this Unix user''"

definition verifyProvisionedAdminRouteForRenewal where
  "verifyProvisionedAdminRouteForRenewal c =
     verify_for_renewal c (\<lambda>p. None)
       (\<lambda>p. cp_version p = 4 \<and> cp_principal p = Some HostAdmin_principal \<and> cp_purpose p = ''host-admin-route'')
       ''Relay capability does not belong to this host administrator''"

section \<open>Issued capabilities are accepted\<close>

lemma name_char_no_space: "name_char ch \<Longrightarrow> \<not> js_space ch"
proof
  assume n: "name_char ch" and "js_space ch"
  then have "(of_char ch :: nat) \<in> set [9, 10, 11, 12, 13, 32, 160]" by (simp add: js_space_def)
  moreover have "list_all (\<lambda>n. \<not> name_char (char_of n)) [9, 10, 11, 12, 13, 32, 160 :: nat]" by code_simp
  ultimately have "\<not> name_char (char_of (of_char ch :: nat))" 
    unfolding list_all_iff by blast
  with n show False by simp
qed

lemma trim_unspaced: "list_all (\<lambda>ch. \<not> js_space ch) s \<Longrightarrow> js_trim s = s"
  by (simp add: js_trim_def list_all_iff dropWhile_eq_self_iff)
    (metis dropWhile_eq_self_iff hd_in_set last_in_set hd_rev rev_is_Nil_conv rev_rev_ident)

lemma installation_unspaced: "installation_pattern s \<Longrightarrow> js_trim s = s"
proof (cases s)
  case (Cons ch t)
  assume "installation_pattern s"
  then have "list_all name_char s" using Cons by (auto simp: name_char_def token_char_def)
  then show ?thesis using name_char_no_space by (auto simp: list_all_iff intro!: trim_unspaced)
qed simp

lemma dollar_no_space: "\<not> js_space (CHR ''$'')"
  by code_simp

lemma login_unspaced:
  assumes "login_pattern s"
  shows "js_trim s = s"
proof (cases s)
  case (Cons ch t)
  define body where "body = (if t \<noteq> [] \<and> last t = CHR ''$'' then butlast t else t)"
  have b: "list_all name_char body" and ch: "name_char ch"
    using assms Cons by (auto simp: body_def Let_def name_char_def token_char_def split: if_splits)
  have "set t \<subseteq> insert (CHR ''$'') (set body)"
    by (cases t rule: rev_cases) (auto simp: body_def)
  then have "list_all (\<lambda>ch. \<not> js_space ch) s"
    using b ch name_char_no_space dollar_no_space Cons by (auto simp: list_all_iff)
  then show ?thesis by (rule trim_unspaced)
qed (use assms in simp)

lemma normalized_installation: "normalizeInstallationId v = Inr i \<Longrightarrow> normalizeInstallationId i = Inr i"
  by (auto simp: normalizeInstallationId_def Let_def installation_unspaced split: if_splits)

lemma normalized_login: "normalizeLoginName v = Inr n \<Longrightarrow> normalizeLoginName n = Inr n"
  by (auto simp: normalizeLoginName_def Let_def login_unspaced split: if_splits)

lemma split_dots_none: "CHR ''.'' \<notin> set s \<Longrightarrow> split_dots s = [s]"
  by (induction s) auto

lemma split_dots_two: "CHR ''.'' \<notin> set a \<Longrightarrow> CHR ''.'' \<notin> set b \<Longrightarrow> split_dots (a @ ''.'' @ b) = [a, b]"
  by (induction a) (auto simp: split_dots_none)

lemma principal_text_iff [simp]:
  "principal_text who = ''user'' \<longleftrightarrow> who = User_principal" "principal_text who = ''host-admin'' \<longleftrightarrow> who = HostAdmin_principal"
  by (cases who; simp)+

lemma js_get_opt_field:
  "js_get (opt_field k v @ fs) k' = (if k' = k \<and> v \<noteq> None then JStr (the v) else js_get fs k')"
  by (auto simp: opt_field_def split: option.splits)

lemma payload_fields:
  "js_prop (payload_value p) ''version'' = JNum (cp_version p)"
  "js_prop (payload_value p) ''purpose'' = JStr (cp_purpose p)"
  "js_prop (payload_value p) ''principal'' = (case cp_principal p of None \<Rightarrow> JUndefined | Some w \<Rightarrow> JStr (principal_text w))"
  "js_prop (payload_value p) ''routeId'' = JStr (cp_routeId p)"
  "js_prop (payload_value p) ''installationId'' = (case cp_installationId p of None \<Rightarrow> JUndefined | Some t \<Rightarrow> JStr t)"
  "js_prop (payload_value p) ''loginId'' = (case cp_loginId p of None \<Rightarrow> JUndefined | Some t \<Rightarrow> JStr t)"
  "js_prop (payload_value p) ''loginName'' = (case cp_loginName p of None \<Rightarrow> JUndefined | Some t \<Rightarrow> JStr t)"
  "js_prop (payload_value p) ''issuedAt'' = JStr (cp_issuedAt p)"
  "js_prop (payload_value p) ''expiresAt'' = (case cp_expiresAt p of None \<Rightarrow> JUndefined | Some t \<Rightarrow> JStr t)"
  "js_prop (payload_value p) ''provisionerExpiresAt'' = (case cp_provisionerExpiresAt p of None \<Rightarrow> JUndefined | Some t \<Rightarrow> JStr t)"
  by (simp_all add: payload_value_def js_get_opt_field js_get_opt_field [where fs = "[]", simplified] split: option.splits)

lemma text_of_option [simp]: "text_of (case x of None \<Rightarrow> JUndefined | Some t \<Rightarrow> JStr t) = x"
  by (cases x) simp_all

lemma principal_of_option [simp]:
  "(if (case x of None \<Rightarrow> JUndefined | Some w \<Rightarrow> JStr (principal_text w)) = JStr ''user'' then Some User_principal
    else if (case x of None \<Rightarrow> JUndefined | Some w \<Rightarrow> JStr (principal_text w)) = JStr ''host-admin'' then Some HostAdmin_principal
    else None) = x"
  by (cases x; cases "the x") auto

lemma read_payload_value: "read_payload (payload_value p) = p"
  unfolding read_payload_def payload_fields principal_of_option text_of_option by simp

text \<open>A capability signed by the code is taken apart into its payload again.\<close>

lemma parse_signed:
  assumes "codec_laws c" and "isCapabilityPayload c (payload_value p)"
    and "cc_parse c (cc_json c (payload_value p)) = Some (payload_value p)" and "cc_json c (payload_value p) \<noteq> []"
  shows "parseCapabilityParts c (signCapability c p key prefix) =
    Inr (cc_b64 c (cc_json c (payload_value p)),
      cc_b64 c (cc_hmac c key (prefix @ ''.'' @ cc_b64 c (cc_json c (payload_value p)))), p)"
proof -
  have b64: "cc_unb64 c (cc_b64 c x) = x" "CHR ''.'' \<notin> set (cc_b64 c x)" "x \<noteq> [] \<Longrightarrow> cc_b64 c x \<noteq> []" for x
    using assms(1) by (simp_all add: codec_laws_def)
  have "cc_hmac c key t \<noteq> []" for t
    using assms(1) by (metis codec_laws_def list.size(3) zero_neq_numeral)
  then show ?thesis
    using assms(2-4) b64
    by (simp add: parseCapabilityParts_def signCapability_def Let_def split_dots_two [simplified] read_payload_value)
qed

lemma issued_credential:
  assumes "codec_laws c" and "issueHostProvisionerCredential c key inst exp now0 = Inr cred"
  shows "length key = 32" and "hc_expiresAt cred = cc_iso c exp" and "isNormalizedInstallationId (hc_installationId cred)"
    and "deriveProvisionerSigningKey c key (hc_installationId cred) (hc_expiresAt cred) = Inr (cc_unb64 c (hc_signingKey cred))"
  using assms
  by (auto simp: issueHostProvisionerCredential_def assertSigningKey_def deriveProvisionerSigningKey_def codec_laws_def
      isNormalizedInstallationId_def normalized_installation split: if_splits sum.splits option.splits)

lemma issued_payload:
  assumes "issueProvisioned c who cred login expires route now = Inr (cap, p)"
  obtains n where "normalizeLoginName n = Inr n" and "token32 route" and "\<forall>t. expires = Some t \<longrightarrow> t \<le> date_of c (hc_expiresAt cred)"
    and "p = \<lparr>cp_version = 4, cp_purpose = (if who = User_principal then ''agent-route'' else ''host-admin-route''),
       cp_principal = Some who, cp_routeId = route, cp_installationId = Some (hc_installationId cred),
       cp_loginId = None, cp_loginName = Some n, cp_issuedAt = cc_iso c now,
       cp_expiresAt = map_option (cc_iso c) expires, cp_provisionerExpiresAt = Some (hc_expiresAt cred)\<rparr>"
    and "cap = signCapability c p (cc_unb64 c (hc_signingKey cred)) provisioned_prefix"
proof -
  obtain n where "normalizeLoginName login = Inr n" and "parseHostProvisionerCredential c cred now = Inr cred"
    using assms by (auto simp: issueProvisioned_def parseHostProvisionerCredential_def split: sum.splits if_splits)
  then show thesis
    using assms that [of n] normalized_login
    by (auto simp: issueProvisioned_def Let_def assertRouteId_def split: if_splits option.splits)
qed

text \<open>
  Claim C29. What a host provisioner issues the relay accepts, and only while it is current: a route
  capability issued with a credential of the relay verifies under the relay's key to exactly the payload
  that was issued, with its principal and route, at every instant before both its own expiration and that
  of the credential, and is refused from then on; its effective expiration is the earlier of the two.
\<close>

theorem issued_capability_verifies:
  assumes "codec_laws c" and "issueHostProvisionerCredential c key inst exp now0 = Inr cred"
    and "issueProvisioned c who cred login expires route now = Inr (cap, p)"
    and "cc_parse c (cc_json c (payload_value p)) = Some (payload_value p)" and "cc_json c (payload_value p) \<noteq> []"
  shows "(verifyRouteCapability c cap key now' = Inr p \<longleftrightarrow> now' < exp \<and> (\<forall>t. expires = Some t \<longrightarrow> now' < t)) \<and>
    (isl (verifyRouteCapability c cap key now') \<longleftrightarrow> \<not> (now' < exp \<and> (\<forall>t. expires = Some t \<longrightarrow> now' < t))) \<and>
    routeCapabilityPrincipal p = who \<and> cp_routeId p = route \<and>
    routeCapabilityEffectiveExpiration c cap = Inr (Some (cc_iso c (case expires of None \<Rightarrow> exp | Some t \<Rightarrow> t)))"
proof -
  note k = issued_credential [OF assms(1,2)]
  obtain n where n: "normalizeLoginName n = Inr n" and route: "token32 route"
    and le: "\<forall>t. expires = Some t \<longrightarrow> t \<le> date_of c (hc_expiresAt cred)"
    and p: "p = \<lparr>cp_version = 4, cp_purpose = (if who = User_principal then ''agent-route'' else ''host-admin-route''),
       cp_principal = Some who, cp_routeId = route, cp_installationId = Some (hc_installationId cred),
       cp_loginId = None, cp_loginName = Some n, cp_issuedAt = cc_iso c now,
       cp_expiresAt = map_option (cc_iso c) expires, cp_provisionerExpiresAt = Some (hc_expiresAt cred)\<rparr>"
    and cap: "cap = signCapability c p (cc_unb64 c (hc_signingKey cred)) provisioned_prefix"
    by (rule issued_payload [OF assms(3)])
  have date: "cc_date c (cc_iso c t) = Some t" for t using assms(1) by (simp add: codec_laws_def)
  have "isCapabilityPayload c (payload_value p)"
    unfolding isCapabilityPayload_def provisioned_fields_def str_field_def opt_str_field_def payload_fields
    using k(2,3) n route date
    by (cases who; cases expires) (simp_all add: p validDate_def isNormalizedLoginName_def payload_value_def)
  note parts = parse_signed [OF assms(1) this assms(4,5), of "cc_unb64 c (hc_signingKey cred)" provisioned_prefix, folded cap]
  have prov: "isProvisionedCapability p" by (simp add: p isProvisionedCapability_def)
  have "cc_unb64 c (cc_b64 c x) = x" for x using assms(1) by (simp add: codec_laws_def)
  then have verify: "verifyRouteCapability c cap key now' =
      (if (case expires of None \<Rightarrow> False | Some t \<Rightarrow> t \<le> now') then Inl (Error ''Route capability has expired'')
       else if exp \<le> now' then Inl (Error ''Host provisioner credential has expired'') else Inr p)"
    using k parts prov date
    by (cases expires) (simp_all add: verifyRouteCapability_def assertSigningKey_def verifying_key_def verifySignature_def p date_le_def)
  have "routeCapabilityEffectiveExpiration c cap = Inr (Some (cc_iso c (case expires of None \<Rightarrow> exp | Some t \<Rightarrow> t)))"
    using parts prov k(2) date le
    by (cases expires) (auto simp: routeCapabilityEffectiveExpiration_def p date_of_def List.map_filter_def)
  moreover have "routeCapabilityPrincipal p = who" by (simp add: routeCapabilityPrincipal_def p)
  ultimately show ?thesis
    unfolding verify by (cases expires) (auto simp: p)
qed

section \<open>A witness\<close>

fun escape_dots :: "string \<Rightarrow> string" where
  "escape_dots [] = []"
| "escape_dots (ch # s) =
     (if ch = CHR ''.'' then ''~d'' @ escape_dots s else if ch = CHR ''~'' then ''~t'' @ escape_dots s else ch # escape_dots s)"

fun unescape_dots :: "string \<Rightarrow> string" where
  "unescape_dots [] = []"
| "unescape_dots [ch] = [ch]"
| "unescape_dots (a # b # s) =
     (if a = CHR ''~'' then (if b = CHR ''d'' then CHR ''.'' else CHR ''~'') # unescape_dots s
      else a # unescape_dots (b # s))"

lemma unescape_Cons: "a \<noteq> CHR ''~'' \<Longrightarrow> unescape_dots (a # s) = a # unescape_dots s"
  by (cases s) simp_all

lemma unescape_escape: "unescape_dots (escape_dots s) = s"
  by (induction s) (simp_all add: unescape_Cons)

lemma escape_no_dot: "CHR ''.'' \<notin> set (escape_dots s)"
  by (induction s) auto

lemma escape_Nil: "escape_dots s = [] \<Longrightarrow> s = []"
  by (cases s) (auto split: if_splits)

definition unary_date :: "int \<Rightarrow> string" where
  "unary_date n = (if n < 0 then CHR ''-'' else CHR ''+'') # replicate (nat \<bar>n\<bar>) (CHR ''i'')"

definition read_unary_date :: "string \<Rightarrow> int option" where
  "read_unary_date s = (case s of [] \<Rightarrow> None | ch # t \<Rightarrow> Some (if ch = CHR ''-'' then - int (length t) else int (length t)))"

definition example_codec :: "payload \<Rightarrow> codec" where
  "example_codec p = \<lparr>cc_hmac = (\<lambda>k t. replicate 32 (CHR ''h'')), cc_b64 = escape_dots, cc_unb64 = unescape_dots,
     cc_json = (\<lambda>v. ''{}''), cc_parse = (\<lambda>s. Some (payload_value p)), cc_date = read_unary_date, cc_iso = unary_date\<rparr>"

lemma example_codec_laws: "codec_laws (example_codec p)"
  by (auto simp: codec_laws_def example_codec_def unescape_escape escape_no_dot unary_date_def read_unary_date_def
      dest: escape_Nil)

definition example_route :: string where
  "example_route = replicate 32 (CHR ''r'')"

definition example_payload :: payload where
  "example_payload = \<lparr>cp_version = 4, cp_purpose = ''agent-route'', cp_principal = Some User_principal, cp_routeId = example_route,
     cp_installationId = Some ''host1'', cp_loginId = None, cp_loginName = Some ''alice'', cp_issuedAt = unary_date 2,
     cp_expiresAt = Some (unary_date 8), cp_provisionerExpiresAt = Some (unary_date 9)\<rparr>"

theorem issued_capability_verifies_witness:
  "\<exists>cap. verifyRouteCapability (example_codec example_payload) cap (replicate 32 (CHR ''k'')) 7 = Inr example_payload \<and>
    isl (verifyRouteCapability (example_codec example_payload) cap (replicate 32 (CHR ''k'')) 8)"
proof -
  let ?c = "example_codec example_payload" and ?key = "replicate 32 (CHR ''k'')"
  let ?cred = "\<lparr>hc_installationId = ''host1'', hc_issuedAt = unary_date 1, hc_expiresAt = unary_date 9,
      hc_signingKey = replicate 32 (CHR ''h'')\<rparr>"
  have cred: "issueHostProvisionerCredential ?c ?key ''host1'' 9 1 = Inr ?cred"
    by code_simp
  have "map_sum id snd (issueProvisioned ?c User_principal ?cred ''alice'' (Some 8) example_route 2) = Inr example_payload"
    by code_simp
  then obtain cap where cap: "issueProvisioned ?c User_principal ?cred ''alice'' (Some 8) example_route 2 = Inr (cap, example_payload)"
    by (cases "issueProvisioned ?c User_principal ?cred ''alice'' (Some 8) example_route 2") auto
  have "cc_parse ?c (cc_json ?c (payload_value example_payload)) = Some (payload_value example_payload)"
    "cc_json ?c (payload_value example_payload) \<noteq> []"
    by (simp_all add: example_codec_def)
  note v = issued_capability_verifies [OF example_codec_laws cred cap this]
  from v [of 7] v [of 8] show ?thesis by auto
qed

end
