(* ===== verification/Relay_Server.thy ===== *)
theory Relay_Server
  imports Relay_Capability
begin

text \<open>
  The relay (\<open>apps/relay/src/relay-server.ts\<close>): agents register routes with capabilities, browsers connect
  to routes, and an accepted connection becomes a tunnel whose messages the relay forwards. The server is a
  record; what its sockets, timers and callbacks do are events. A callback that follows a message without
  waiting for anything else (the \<open>then\<close> of \<open>nextMessage\<close>) belongs to the event of the message.
\<close>

section \<open>State\<close>

datatype ready_state = OPEN | CLOSING | CLOSED

record profile =
  pf_principal :: relay_principal
  pf_nodeId :: string
  pf_userId :: string
  pf_hostPublicKey :: string
  pf_hostFingerprint :: string
  pf_directEndpoint :: "string option"

record registered_route =
  rg_routeId :: string
  rg_socket :: nat
  rg_profile :: "profile option"
  rg_loginId :: "string option"
  rg_ownerId :: "string option"

text \<open>Authorizations are objects compared by identity: \<open>au_id\<close>.\<close>

record authorization =
  au_routeId :: string
  au_id :: nat
  au_ownerId :: "string option"
  au_expiresAt :: "int option"
  au_issuedAt :: int
  au_digest :: string
  au_timer :: "int option"

record pending_connection =
  pd_id :: string
  pd_routeId :: string
  pd_ownerId :: "string option"
  pd_browser :: nat

text \<open>A tunnel being set up, and an active one, told apart by \<open>tn_id\<close>; \<open>tn_ownerId\<close> is the owner it was accepted for.\<close>

record tunnel =
  tn_id :: nat
  tn_routeId :: string
  tn_ownerId :: "string option"
  tn_browser :: nat
  tn_agent :: nat

record bridge =
  br_tunnel :: tunnel
  br_closed :: bool
  br_left :: nat
  br_right :: nat

record reservation =
  rs_id :: nat
  rs_tunnel :: nat
  rs_target :: nat
  rs_bytes :: int

record bucket =
  bk_address :: string
  bk_startedAt :: int
  bk_count :: nat

datatype relay_waiting = First_message | Tunnel_ready tunnel

datatype role = Control string "string option" | Browser string

datatype relay_message =
    Registered string
  | Incoming string
  | Accepted
  | Ready
  | Profile string profile
  | Payload int

datatype relay_out = Send nat relay_message | Close nat nat string | Terminate nat | Ping nat

record relay =
  rl_routes :: "registered_route list"
  rl_auths :: "authorization list"
  rl_logins :: "string \<Rightarrow> string option"
  rl_pending :: "pending_connection list"
  rl_setups :: "tunnel list"
  rl_active :: "tunnel list"
  rl_bridges :: "bridge list"
  rl_sockets :: "(nat \<times> string) list"
  rl_by_address :: "string \<Rightarrow> nat"
  rl_connects :: "bucket list"
  rl_lookups :: "bucket list"
  rl_reserved :: int
  rl_reservations :: "reservation list"
  rl_ready :: "nat \<Rightarrow> ready_state"
  rl_waiting :: "nat \<Rightarrow> relay_waiting option"
  rl_role :: "nat \<Rightarrow> role option"
  rl_next :: nat
  rl_out :: "relay_out list"

text \<open>
  The options of the server, and what it takes from the platform: the digest of a capability and the
  parser of URLs, which gives the protocol and the normalized text.
\<close>

record relay_options =
  op_codec :: codec
  op_signingKey :: buffer
  op_installationId :: string
  op_digest :: "string \<Rightarrow> string"
  op_url :: "string \<Rightarrow> (string \<times> string) option"
  op_maxSocketsPerAddress :: nat
  op_maxRouteAuthorizations :: nat
  op_maxConnectsPerWindow :: nat
  op_connectWindowMs :: int
  op_maxLookupsPerWindow :: nat
  op_lookupWindowMs :: int
  op_maxAddressRateBuckets :: nat
  op_maxTunnelBufferedBytes :: int
  op_maxRelayBufferedBytes :: int
  op_heartbeatMissLimit :: nat
  op_trustLoopbackProxy :: bool
  op_isIP :: "string \<Rightarrow> bool"

definition MAX_RELAY_SOCKETS :: nat where
  "MAX_RELAY_SOCKETS = 4096"

definition MAX_PENDING_CONNECTIONS :: nat where
  "MAX_PENDING_CONNECTIONS = 1024"

definition MAX_CONNECTIONS_PER_ROUTE :: nat where
  "MAX_CONNECTIONS_PER_ROUTE = 32"

definition MAX_ROUTE_EXPIRATION_TIMER_MS :: int where
  "MAX_ROUTE_EXPIRATION_TIMER_MS = 2147483647"

definition relay_new :: relay where
  "relay_new = \<lparr>rl_routes = [], rl_auths = [], rl_logins = (\<lambda>_. None), rl_pending = [], rl_setups = [], rl_active = [],
     rl_bridges = [], rl_sockets = [], rl_by_address = (\<lambda>_. 0), rl_connects = [], rl_lookups = [], rl_reserved = 0,
     rl_reservations = [], rl_ready = (\<lambda>_. CLOSED), rl_waiting = (\<lambda>_. None), rl_role = (\<lambda>_. None), rl_next = 0,
     rl_out = []\<rparr>"

section \<open>Sockets\<close>

text \<open>\<open>close\<close> and \<open>terminate\<close> of a socket that is open start its closing; its close event follows.\<close>

definition ws_close :: "nat \<Rightarrow> nat \<Rightarrow> string \<Rightarrow> relay \<Rightarrow> relay" where
  "ws_close s code reason r =
     (if rl_ready r s = OPEN
      then r\<lparr>rl_ready := (rl_ready r)(s := CLOSING), rl_out := rl_out r @ [Close s code reason]\<rparr> else r)"

definition ws_terminate :: "nat \<Rightarrow> relay \<Rightarrow> relay" where
  "ws_terminate s r =
     (if rl_ready r s = OPEN
      then r\<lparr>rl_ready := (rl_ready r)(s := CLOSING), rl_out := rl_out r @ [Terminate s]\<rparr> else r)"

definition ws_send :: "nat \<Rightarrow> relay_message \<Rightarrow> relay \<Rightarrow> relay" where
  "ws_send s m r = r\<lparr>rl_out := rl_out r @ [Send s m]\<rparr>"

definition closeForExpiredRouteAuthorization :: "nat \<Rightarrow> relay \<Rightarrow> relay" where
  "closeForExpiredRouteAuthorization s = ws_close s 1008 ''route authorization expired''"

text \<open>The codes 1005 and 1006 cannot be put on the wire.\<close>

definition sendable_code :: "nat \<Rightarrow> bool" where
  "sendable_code code \<longleftrightarrow> (1000 \<le> code \<and> code \<le> 1014 \<and> code \<noteq> 1004 \<and> code \<noteq> 1005 \<and> code \<noteq> 1006) \<or>
     (3000 \<le> code \<and> code \<le> 4999)"

definition closePeer :: "nat \<Rightarrow> nat \<Rightarrow> string \<Rightarrow> relay \<Rightarrow> relay" where
  "closePeer target code reason =
     ws_close target (if sendable_code code then code else 1000) (if sendable_code code then reason else [])"

section \<open>Maps\<close>

definition t_put :: "('r \<Rightarrow> 'k) \<Rightarrow> 'r \<Rightarrow> 'r list \<Rightarrow> 'r list" where
  "t_put key row rows =
     (if t_find key (key row) rows = None then rows @ [row] else t_update (\<lambda>x. key x = key row) (\<lambda>_. row) rows)"

definition route_has_state :: "string \<Rightarrow> relay \<Rightarrow> bool" where
  "route_has_state rid r \<longleftrightarrow> t_find rg_routeId rid (rl_routes r) \<noteq> None \<or> 0 < t_count (\<lambda>t. tn_routeId t = rid) (rl_setups r) \<or>
     0 < t_count (\<lambda>t. tn_routeId t = rid) (rl_active r) \<or> 0 < t_count (\<lambda>p. pd_routeId p = rid) (rl_pending r)"

definition pruneRouteAuthorization :: "string \<Rightarrow> relay \<Rightarrow> relay" where
  "pruneRouteAuthorization rid r =
     (if route_has_state rid r then r
      else case t_find au_routeId rid (rl_auths r) of
             None \<Rightarrow> r
           | Some a \<Rightarrow> if au_expiresAt a \<noteq> None then r
               else r\<lparr>rl_auths := t_delete (\<lambda>x. au_routeId x = rid) (rl_auths r)\<rparr>)"

definition clearPending :: "string \<Rightarrow> relay \<Rightarrow> relay" where
  "clearPending cid r =
     (case t_find pd_id cid (rl_pending r) of
        None \<Rightarrow> r
      | Some p \<Rightarrow> pruneRouteAuthorization (pd_routeId p) (r\<lparr>rl_pending := t_delete (\<lambda>x. pd_id x = cid) (rl_pending r)\<rparr>))"

definition hasPendingTunnelSetup :: "tunnel \<Rightarrow> relay \<Rightarrow> bool" where
  "hasPendingTunnelSetup t r \<longleftrightarrow> t \<in> set (rl_setups r)"

definition removePendingTunnelSetup :: "tunnel \<Rightarrow> relay \<Rightarrow> relay" where
  "removePendingTunnelSetup t r =
     (if hasPendingTunnelSetup t r
      then pruneRouteAuthorization (tn_routeId t) (r\<lparr>rl_setups := t_delete (\<lambda>x. x = t) (rl_setups r)\<rparr>)
      else r)"

definition removeActiveTunnel :: "tunnel \<Rightarrow> relay \<Rightarrow> relay" where
  "removeActiveTunnel t r =
     (if t \<in> set (rl_active r)
      then pruneRouteAuthorization (tn_routeId t) (r\<lparr>rl_active := t_delete (\<lambda>x. x = t) (rl_active r)\<rparr>)
      else r)"

section \<open>Authorizations\<close>

definition logout :: "string option \<Rightarrow> string \<Rightarrow> relay \<Rightarrow> relay" where
  "logout login rid r =
     (case login of
        None \<Rightarrow> r
      | Some l \<Rightarrow> if rl_logins r l = Some rid then r\<lparr>rl_logins := (rl_logins r)(l := None)\<rparr> else r)"

definition expireRouteAuthorization :: "string \<Rightarrow> nat \<Rightarrow> relay \<Rightarrow> relay" where
  "expireRouteAuthorization rid i r =
     (case t_find au_routeId rid (rl_auths r) of
        None \<Rightarrow> r
      | Some a \<Rightarrow>
          if au_id a \<noteq> i then r
          else
            let route = t_find rg_routeId rid (rl_routes r);
                pendings = filter (\<lambda>p. pd_routeId p = rid) (rl_pending r);
                tunnels = filter (\<lambda>t. tn_routeId t = rid) (rl_setups r @ rl_active r);
                r1 = r\<lparr>rl_auths := t_delete (\<lambda>x. au_routeId x = rid) (rl_auths r),
                       rl_routes := t_delete (\<lambda>x. rg_routeId x = rid) (rl_routes r)\<rparr>;
                r2 = (case route of None \<Rightarrow> r1 | Some g \<Rightarrow> logout (rg_loginId g) rid r1);
                r3 = r2\<lparr>rl_pending := t_delete (\<lambda>p. pd_routeId p = rid) (rl_pending r2),
                       rl_setups := t_delete (\<lambda>t. tn_routeId t = rid) (rl_setups r2),
                       rl_active := t_delete (\<lambda>t. tn_routeId t = rid) (rl_active r2)\<rparr>
            in fold closeForExpiredRouteAuthorization
                 (map pd_browser pendings @ concat (map (\<lambda>t. [tn_browser t, tn_agent t]) tunnels) @
                  (case route of None \<Rightarrow> [] | Some g \<Rightarrow> [rg_socket g])) r3)"

definition expired_at :: "int \<Rightarrow> authorization \<Rightarrow> bool" where
  "expired_at now a = (case au_expiresAt a of None \<Rightarrow> False | Some e \<Rightarrow> e \<le> now)"

definition currentRouteAuthorization :: "string \<Rightarrow> int \<Rightarrow> relay \<Rightarrow> authorization option \<times> relay" where
  "currentRouteAuthorization rid now r =
     (case t_find au_routeId rid (rl_auths r) of
        None \<Rightarrow> (None, r)
      | Some a \<Rightarrow> if expired_at now a then (None, expireRouteAuthorization rid (au_id a) r) else (Some a, r))"

definition currentRegisteredRoute :: "string \<Rightarrow> int \<Rightarrow> relay \<Rightarrow> registered_route option \<times> relay" where
  "currentRegisteredRoute rid now r =
     (case currentRouteAuthorization rid now r of
        (None, r') \<Rightarrow> (None, r')
      | (Some a, r') \<Rightarrow> (t_find rg_routeId rid (rl_routes r'), r'))"

definition expiration_delay :: "int \<Rightarrow> int \<Rightarrow> int" where
  "expiration_delay expires now = min (max (expires - now) 0) MAX_ROUTE_EXPIRATION_TIMER_MS"

definition scheduleRouteExpiration :: "int \<Rightarrow> authorization \<Rightarrow> authorization" where
  "scheduleRouteExpiration now a = a\<lparr>au_timer := map_option (\<lambda>e. expiration_delay e now) (au_expiresAt a)\<rparr>"

definition authorizeRoute :: "relay_options \<Rightarrow> authorization \<Rightarrow> int \<Rightarrow> relay \<Rightarrow> ce_error option \<times> relay" where
  "authorizeRoute op a now r =
     (if t_find au_routeId (au_routeId a) (rl_auths r) = None \<and> op_maxRouteAuthorizations op \<le> length (rl_auths r)
      then (Some (Error ''Relay route authorization capacity exceeded''), r)
      else (None, r\<lparr>rl_auths := t_put au_routeId (scheduleRouteExpiration now (a\<lparr>au_id := rl_next r\<rparr>)) (rl_auths r),
                    rl_next := Suc (rl_next r)\<rparr>))"

text \<open>The timer of an authorization: it expires the route, or is set again for a date too far away.\<close>

definition expiration_timer :: "string \<Rightarrow> nat \<Rightarrow> int \<Rightarrow> relay \<Rightarrow> relay" where
  "expiration_timer rid i now r =
     (case t_find au_routeId rid (rl_auths r) of
        None \<Rightarrow> r
      | Some a \<Rightarrow>
          if au_id a \<noteq> i \<or> au_timer a = None then r
          else if expired_at now a then expireRouteAuthorization rid i r
          else r\<lparr>rl_auths := t_put au_routeId (scheduleRouteExpiration now a) (rl_auths r)\<rparr>)"

text \<open>An absent expiration counts as infinite.\<close>

definition expires_before :: "int option \<Rightarrow> int option \<Rightarrow> bool" where
  "expires_before a b = (case (a, b) of (None, _) \<Rightarrow> False | (Some x, None) \<Rightarrow> True | (Some x, Some y) \<Rightarrow> x < y)"

definition assertMonotonicRouteAuthorization :: "authorization \<Rightarrow> authorization \<Rightarrow> ce_error option" where
  "assertMonotonicRouteAuthorization current candidate =
     (if expires_before (au_expiresAt candidate) (au_expiresAt current)
      then Some (Error ''Route capability cannot shorten current authorization'')
      else if expires_before (au_expiresAt current) (au_expiresAt candidate) then None
      else if au_issuedAt candidate < au_issuedAt current
      then Some (Error ''Route capability predates current authorization'')
      else if au_issuedAt candidate = au_issuedAt current \<and> au_digest candidate \<noteq> au_digest current
      then Some (Error ''Conflicting route capability generation'') else None)"

definition verifyCapability :: "relay_options \<Rightarrow> string \<Rightarrow> int \<Rightarrow> ce_error + payload" where
  "verifyCapability op cap now =
     (case verifyRouteCapability (op_codec op) cap (op_signingKey op) now of
        Inl e \<Rightarrow> Inl e
      | Inr p \<Rightarrow>
          if isProvisionedCapability p \<and> cp_installationId p \<noteq> Some (op_installationId op)
          then Inl (Error ''Route capability belongs to another installation'') else Inr p)"

section \<open>Registering a route\<close>

definition parseRelayPrincipal :: "js \<Rightarrow> ce_error + relay_principal" where
  "parseRelayPrincipal v =
     (if v = JUndefined \<or> v = JStr ''user'' then Inr User_principal
      else if v = JStr ''host-admin'' then Inr HostAdmin_principal
      else Inl (Error ''Invalid Relay principal''))"

definition validDirectEndpoint :: "relay_options \<Rightarrow> string \<Rightarrow> ce_error + string" where
  "validDirectEndpoint op v =
     (if length v > 2048 then Inl (Error ''Invalid direct endpoint'')
      else case op_url op v of
             None \<Rightarrow> Inl (Error ''Invalid URL'')
           | Some (protocol, text) \<Rightarrow>
               if protocol \<noteq> ''wss:'' \<and> protocol \<noteq> ''ws:'' then Inl (Error ''Invalid direct endpoint'') else Inr text)"

definition key_text :: "string \<Rightarrow> bool" where
  "key_text s \<longleftrightarrow> length s = 43 \<and> list_all token_char s"

definition fingerprint_text :: "string \<Rightarrow> bool" where
  "fingerprint_text s \<longleftrightarrow> take 7 s = ''sha256:'' \<and> key_text (drop 7 s)"

fun is_object :: "js \<Rightarrow> bool" where
  "is_object (JObj fs) = True"
| "is_object (JArr vs) = True"
| "is_object _ = False"

definition parsePublicHostProfile :: "relay_options \<Rightarrow> js \<Rightarrow> ce_error + profile option" where
  "parsePublicHostProfile op v =
     (if v = JUndefined then Inr None
      else if \<not> is_object v \<or> \<not> str_field v ''nodeId'' (\<lambda>_. True) \<or> \<not> str_field v ''userId'' (\<lambda>_. True) \<or>
         \<not> str_field v ''hostPublicKey'' key_text \<or> \<not> str_field v ''hostFingerprint'' fingerprint_text \<or>
         \<not> opt_str_field v ''directEndpoint'' (\<lambda>_. True)
      then Inl (Error ''Invalid public host profile'')
      else case parseRelayPrincipal (js_prop v ''principal'') of
             Inl e \<Rightarrow> Inl e
           | Inr who \<Rightarrow>
          (case (case text_of (js_prop v ''directEndpoint'') of
                   None \<Rightarrow> Inr None | Some d \<Rightarrow> map_sum id Some (validDirectEndpoint op d)) of
             Inl e \<Rightarrow> Inl e
           | Inr direct \<Rightarrow> Inr (Some \<lparr>pf_principal = who, pf_nodeId = the (text_of (js_prop v ''nodeId'')),
               pf_userId = the (text_of (js_prop v ''userId'')), pf_hostPublicKey = the (text_of (js_prop v ''hostPublicKey'')),
               pf_hostFingerprint = the (text_of (js_prop v ''hostFingerprint'')), pf_directEndpoint = direct\<rparr>)))"

text \<open>
  What \<open>#register\<close> computes from the message alone: the route to register and its authorization.
\<close>

definition registration ::
  "relay_options \<Rightarrow> nat \<Rightarrow> js \<Rightarrow> int \<Rightarrow> ce_error + (registered_route \<times> authorization)" where
  "registration op s msg now =
     (case js_prop msg ''capability'' of
        JStr cap \<Rightarrow>
     (case verifyCapability op cap now of Inl e \<Rightarrow> Inl e | Inr p \<Rightarrow>
     (case routeCapabilityLoginId (op_codec op) p (op_signingKey op) of Inl e \<Rightarrow> Inl e | Inr login \<Rightarrow>
     (case routeCapabilityOwnerId (op_codec op) p (op_signingKey op) of Inl e \<Rightarrow> Inl e | Inr owner \<Rightarrow>
     (case routeCapabilityEffectiveExpiration (op_codec op) cap of Inl e \<Rightarrow> Inl e | Inr expires \<Rightarrow>
     (case parsePublicHostProfile op (js_prop msg ''profile'') of Inl e \<Rightarrow> Inl e | Inr prof \<Rightarrow>
      if login \<noteq> None \<and> prof = None then Inl (Error ''Login-enabled route requires a public profile'')
      else if (case prof of None \<Rightarrow> False | Some f \<Rightarrow> pf_principal f \<noteq> routeCapabilityPrincipal p)
      then Inl (Error ''Relay principal does not match route capability'')
      else Inr (
        \<lparr>rg_routeId = cp_routeId p, rg_socket = s, rg_profile = prof, rg_loginId = login, rg_ownerId = owner\<rparr>,
        \<lparr>au_routeId = cp_routeId p, au_id = 0, au_ownerId = owner, au_expiresAt = map_option (date_of (op_codec op)) expires,
         au_issuedAt = date_of (op_codec op) (cp_issuedAt p), au_digest = op_digest op cap, au_timer = None\<rparr>))))))
      | _ \<Rightarrow> Inl (Error ''Missing capability''))"

definition another_owner :: "authorization option \<Rightarrow> registered_route option \<Rightarrow> string option \<Rightarrow> bool" where
  "another_owner a g owner \<longleftrightarrow> (a \<noteq> None \<or> g \<noteq> None) \<and>
     (case Option.bind a au_ownerId of Some o' \<Rightarrow> Some o' | None \<Rightarrow> Option.bind g rg_ownerId) \<noteq> owner"

text \<open>The part of \<open>#register\<close> after its checks; \<open>previous\<close> is the route registered before.\<close>

definition commit_registration ::
  "relay_options \<Rightarrow> registered_route \<Rightarrow> authorization \<Rightarrow> registered_route option \<Rightarrow> int \<Rightarrow> relay \<Rightarrow> ce_error option \<times> relay" where
  "commit_registration op route auth previous now r1 =
     (let rid = rg_routeId route; s = rg_socket route;
          r2 = (case previous of
                 Some g \<Rightarrow> if rg_loginId g \<noteq> rg_loginId route then logout (rg_loginId g) rid r1 else r1
               | None \<Rightarrow> r1)
      in
     (case authorizeRoute op auth now r2 of
        (Some e, r3) \<Rightarrow> (Some e, r3)
      | (None, r3) \<Rightarrow>
          let r4 = r3\<lparr>rl_routes := t_put rg_routeId route (rl_routes r3)\<rparr>;
              r5 = (case rg_loginId route of None \<Rightarrow> r4
                    | Some l \<Rightarrow> r4\<lparr>rl_logins := (rl_logins r4)(l := Some rid)\<rparr>);
              r6 = (case previous of
                      Some g \<Rightarrow> if rg_socket g \<noteq> s then ws_close (rg_socket g) 1008 ''route registered elsewhere'' r5 else r5
                    | None \<Rightarrow> r5);
              r7 = r6\<lparr>rl_role := (rl_role r6)(s := Some (Control rid (rg_loginId route)))\<rparr>
          in (None, ws_send s (Registered rid) r7)))"

definition relay_register :: "relay_options \<Rightarrow> nat \<Rightarrow> js \<Rightarrow> int \<Rightarrow> relay \<Rightarrow> ce_error option \<times> relay" where
  "relay_register op s msg now r =
     (case registration op s msg now of
        Inl e \<Rightarrow> (Some e, r)
      | Inr (route, auth) \<Rightarrow>
          if (case Option.bind (rg_loginId route) (rl_logins r) of None \<Rightarrow> False | Some other \<Rightarrow> other \<noteq> rg_routeId route)
          then (Some (Error ''Login name registered by another route''), r)
          else
     (case currentRouteAuthorization (rg_routeId route) now r of (previousAuth, r1) \<Rightarrow>
        let previous = t_find rg_routeId (rg_routeId route) (rl_routes r1) in
        if another_owner previousAuth previous (rg_ownerId route)
        then (Some (Error ''Route registered by another owner namespace''), r1)
        else
     (case (case previousAuth of None \<Rightarrow> None | Some a \<Rightarrow> assertMonotonicRouteAuthorization a auth) of
        Some e \<Rightarrow> (Some e, r1)
      | None \<Rightarrow> commit_registration op route auth previous now r1)))"

section \<open>Connecting\<close>

definition consumeAddressBudget :: "string \<Rightarrow> nat \<Rightarrow> int \<Rightarrow> nat \<Rightarrow> int \<Rightarrow> bucket list \<Rightarrow> bool \<times> bucket list" where
  "consumeAddressBudget address maximum window capacity now buckets =
     (let stale = (case t_find bk_address address buckets of None \<Rightarrow> False | Some b \<Rightarrow> now - bk_startedAt b \<ge> window);
          bs = (if stale then t_delete (\<lambda>b. bk_address b = address) buckets else buckets);
          count = (\<lambda>bs. (let n = Suc (case t_find bk_address address bs of None \<Rightarrow> 0 | Some b \<Rightarrow> bk_count b)
                         in (n \<le> maximum, t_update (\<lambda>b. bk_address b = address) (\<lambda>b. b\<lparr>bk_count := n\<rparr>) bs)));
          fresh = \<lparr>bk_address = address, bk_startedAt = now, bk_count = 0\<rparr>
      in if t_find bk_address address bs \<noteq> None then count bs
         else if length bs < capacity then count (bs @ [fresh])
         else case bs of
                [] \<Rightarrow> (False, bs)
              | oldest # rest \<Rightarrow> if now - bk_startedAt oldest < window then (False, bs) else count (rest @ [fresh]))"

definition socket_address :: "nat \<Rightarrow> relay \<Rightarrow> string" where
  "socket_address s r = (case map_of (rl_sockets r) s of None \<Rightarrow> ''unknown'' | Some a \<Rightarrow> a)"

definition route_load :: "string \<Rightarrow> relay \<Rightarrow> nat" where
  "route_load rid r = t_count (\<lambda>t. tn_routeId t = rid) (rl_active r) + t_count (\<lambda>t. tn_routeId t = rid) (rl_setups r) +
     t_count (\<lambda>p. pd_routeId p = rid) (rl_pending r)"

text \<open>\<open>cid\<close> is the random id of the connection.\<close>

definition relay_connect :: "relay_options \<Rightarrow> nat \<Rightarrow> js \<Rightarrow> string \<Rightarrow> int \<Rightarrow> relay \<Rightarrow> ce_error option \<times> relay" where
  "relay_connect op s msg cid now r =
     (case consumeAddressBudget (socket_address s r) (op_maxConnectsPerWindow op) (op_connectWindowMs op)
             (op_maxAddressRateBuckets op) now (rl_connects r) of
        (ok, buckets) \<Rightarrow>
     (let r1 = r\<lparr>rl_connects := buckets\<rparr> in
      if \<not> ok then (None, ws_close s 1013 ''connect rate exceeded'' r1)
      else case js_prop msg ''routeId'' of
        JStr rid \<Rightarrow>
     (case currentRegisteredRoute rid now r1 of
        (None, r2) \<Rightarrow> (None, ws_close s 1013 ''route offline'' r2)
      | (Some g, r2) \<Rightarrow>
          if rl_ready r2 (rg_socket g) \<noteq> OPEN then (None, ws_close s 1013 ''route offline'' r2)
          else if MAX_PENDING_CONNECTIONS \<le> length (rl_pending r2) \<or> MAX_CONNECTIONS_PER_ROUTE \<le> route_load rid r2
          then (None, ws_close s 1013 ''route busy'' r2)
          else
            let r3 = r2\<lparr>rl_pending := t_put pd_id \<lparr>pd_id = cid, pd_routeId = rid, pd_ownerId = rg_ownerId g, pd_browser = s\<rparr>
                         (rl_pending r2),
                        rl_role := (rl_role r2)(s := Some (Browser cid))\<rparr>
            in (None, ws_send (rg_socket g) (Incoming cid) r3))
      | _ \<Rightarrow> (Some (Error ''Missing route''), r1)))"

definition pending_timeout :: "string \<Rightarrow> relay \<Rightarrow> relay" where
  "pending_timeout cid r =
     (case t_find pd_id cid (rl_pending r) of
        None \<Rightarrow> r
      | Some p \<Rightarrow> ws_close (pd_browser p) 1013 ''agent did not accept connection'' (clearPending cid r))"

definition relay_lookup :: "relay_options \<Rightarrow> nat \<Rightarrow> js \<Rightarrow> int \<Rightarrow> relay \<Rightarrow> ce_error option \<times> relay" where
  "relay_lookup op s msg now r =
     (case consumeAddressBudget (socket_address s r) (op_maxLookupsPerWindow op) (op_lookupWindowMs op)
             (op_maxAddressRateBuckets op) now (rl_lookups r) of
        (ok, buckets) \<Rightarrow>
     (let r1 = r\<lparr>rl_lookups := buckets\<rparr> in
      if \<not> ok then (None, ws_close s 1013 ''lookup rate exceeded'' r1)
      else case js_prop msg ''loginName'' of
        JStr login \<Rightarrow>
     (case parseRelayPrincipal (js_prop msg ''principal'') of Inl e \<Rightarrow> (Some e, r1) | Inr who \<Rightarrow>
     (case relayInstallationPrincipalLoginId (op_codec op) (op_signingKey op) (op_installationId op) who login of
        Inl e \<Rightarrow> (Some e, r1) | Inr scoped \<Rightarrow>
     (case relayPrincipalLoginId (op_codec op) (op_signingKey op) who login of Inl e \<Rightarrow> (Some e, r1) | Inr legacy \<Rightarrow>
     (case (case rl_logins r1 scoped of Some rid \<Rightarrow> Some rid | None \<Rightarrow> rl_logins r1 legacy) of
        None \<Rightarrow> (None, ws_close s 1013 ''login unavailable'' r1)
      | Some rid \<Rightarrow>
     (case currentRegisteredRoute rid now r1 of
        (Some g, r2) \<Rightarrow>
          (case rg_profile g of
             Some f \<Rightarrow> if rl_ready r2 (rg_socket g) = OPEN then (None, ws_send s (Profile rid f) r2)
               else (None, ws_close s 1013 ''login unavailable'' r2)
           | None \<Rightarrow> (None, ws_close s 1013 ''login unavailable'' r2))
      | (None, r2) \<Rightarrow> (None, ws_close s 1013 ''login unavailable'' r2))))))
      | _ \<Rightarrow> (Some (Error ''Missing login name''), r1)))"

section \<open>Tunnels\<close>

definition acceptTunnel :: "relay_options \<Rightarrow> nat \<Rightarrow> js \<Rightarrow> int \<Rightarrow> relay \<Rightarrow> ce_error option \<times> relay" where
  "acceptTunnel op s msg now r =
     (case (js_prop msg ''capability'', js_prop msg ''connectionId'') of
        (JStr cap, JStr cid) \<Rightarrow>
     (case verifyCapability op cap now of Inl e \<Rightarrow> (Some e, r) | Inr p \<Rightarrow>
     (case t_find pd_id cid (rl_pending r) of
        None \<Rightarrow> (Some (Error ''Unknown relay connection''), r)
      | Some pending \<Rightarrow>
          if pd_routeId pending \<noteq> cp_routeId p then (Some (Error ''Unknown relay connection''), r)
          else
     (case routeCapabilityOwnerId (op_codec op) p (op_signingKey op) of Inl e \<Rightarrow> (Some e, r) | Inr owner \<Rightarrow>
     (case currentRouteAuthorization (pd_routeId pending) now r of
        (None, r1) \<Rightarrow> (Some (Error ''Relay connection belongs to another provisioned owner''), r1)
      | (Some a, r1) \<Rightarrow>
          if au_ownerId a \<noteq> owner \<or> owner \<noteq> pd_ownerId pending
          then (Some (Error ''Relay connection belongs to another provisioned owner''), r1)
          else
            let r2 = r1\<lparr>rl_pending := t_delete (\<lambda>x. pd_id x = cid) (rl_pending r1)\<rparr> in
            if rl_ready r2 (pd_browser pending) \<noteq> OPEN then (Some (Error ''Browser connection closed''), r2)
            else
              let t = \<lparr>tn_id = rl_next r2, tn_routeId = pd_routeId pending, tn_ownerId = owner,
                       tn_browser = pd_browser pending, tn_agent = s\<rparr>;
                  r3 = r2\<lparr>rl_setups := rl_setups r2 @ [t], rl_next := Suc (rl_next r2),
                         rl_waiting := (rl_waiting r2)(s := Some (Tunnel_ready t))\<rparr>
              in (None, ws_send s Accepted r3)))))
      | _ \<Rightarrow> (Some (Error ''Invalid tunnel acceptance''), r))"

text \<open>The \<open>catch\<close> of a tunnel that is being set up.\<close>

definition setup_failed :: "tunnel \<Rightarrow> relay \<Rightarrow> relay" where
  "setup_failed t r =
     ws_close (tn_agent t) 1008 ''invalid tunnel readiness''
       (ws_close (tn_browser t) 1013 ''agent tunnel setup failed'' (removePendingTunnelSetup t r))"

definition RELAY_PROTOCOL_VERSION :: int where
  "RELAY_PROTOCOL_VERSION = 1"

definition parseRelayWireMessage :: "json_text \<Rightarrow> ce_error + (string \<times> js)" where
  "parseRelayWireMessage raw =
     (case raw of
        JsonText (JObj fs) \<Rightarrow>
          if js_get fs ''version'' \<noteq> JNum RELAY_PROTOCOL_VERSION then Inl (Error ''Unsupported Relay protocol version'')
          else (case js_get fs ''type'' of
                  JStr t \<Rightarrow>
                    if t \<in> set [''relay/register'', ''relay/registered'', ''relay/connect'', ''relay/incoming'', ''relay/accept'',
                         ''relay/accepted'', ''relay/tunnel-ready'', ''relay/ready'', ''relay/lookup'', ''relay/profile'']
                    then Inr (t, JObj fs) else Inl (Error ''Unknown Relay message type'')
                | _ \<Rightarrow> Inl (Error ''Unknown Relay message type''))
      | BadJson _ \<Rightarrow> Inl (Error ''Invalid Relay message JSON'')
      | _ \<Rightarrow> Inl (Error ''Invalid Relay message''))"

definition tunnel_ready :: "tunnel \<Rightarrow> json_text \<Rightarrow> int \<Rightarrow> relay \<Rightarrow> relay" where
  "tunnel_ready t raw now r =
     (if map_sum id fst (parseRelayWireMessage raw) \<noteq> Inr ''relay/tunnel-ready'' \<or> \<not> hasPendingTunnelSetup t r
      then setup_failed t r
      else case currentRouteAuthorization (tn_routeId t) now r of
             (None, r1) \<Rightarrow> setup_failed t r1
           | (Some a, r1) \<Rightarrow>
               if rl_ready r1 (tn_browser t) \<noteq> OPEN then setup_failed t r1
               else ws_send (tn_browser t) Ready
                 ((removePendingTunnelSetup t (r1\<lparr>rl_active := rl_active r1 @ [t]\<rparr>))
                   \<lparr>rl_bridges := rl_bridges r1 @ [\<lparr>br_tunnel = t, br_closed = False, br_left = 0, br_right = 0\<rparr>]\<rparr>))"

section \<open>Forwarding\<close>

definition reserve :: "relay_options \<Rightarrow> int \<Rightarrow> relay \<Rightarrow> bool" where
  "reserve op bytes r \<longleftrightarrow> bytes = 0 \<or>
     (safe_integer bytes \<and> 0 \<le> bytes \<and> rl_reserved r + bytes \<le> op_maxRelayBufferedBytes op)"

definition release_where :: "(reservation \<Rightarrow> bool) \<Rightarrow> relay \<Rightarrow> relay" where
  "release_where p r =
     r\<lparr>rl_reserved := fold (\<lambda>x n. max 0 (n - rs_bytes x)) (filter p (rl_reservations r)) (rl_reserved r),
       rl_reservations := t_delete p (rl_reservations r)\<rparr>"

text \<open>A message of one end of a bridge; \<open>buffered\<close> is what the socket of the other end has not yet sent.\<close>

definition forward :: "relay_options \<Rightarrow> tunnel \<Rightarrow> nat \<Rightarrow> nat \<Rightarrow> int \<Rightarrow> int \<Rightarrow> relay \<Rightarrow> relay" where
  "forward op t source target bytes buffered r =
     (if rl_ready r target \<noteq> OPEN then r
      else if buffered + bytes > op_maxTunnelBufferedBytes op
      then ws_close source 1013 ''relay peer is too slow'' (ws_terminate target r)
      else if \<not> reserve op bytes r
      then ws_close source 1013 ''relay buffer budget exceeded'' (ws_terminate target r)
      else if bytes = 0 then ws_send target (Payload 0) r
      else ws_send target (Payload bytes)
        (r\<lparr>rl_reserved := rl_reserved r + bytes, rl_next := Suc (rl_next r),
           rl_reservations := rl_reservations r @
             [\<lparr>rs_id = rl_next r, rs_tunnel = tn_id t, rs_target = target, rs_bytes = bytes\<rparr>]\<rparr>))"

text \<open>The callback of a forwarded message: its bytes were sent, or sending failed.\<close>

definition send_settled :: "nat \<Rightarrow> bool \<Rightarrow> nat \<Rightarrow> relay \<Rightarrow> relay" where
  "send_settled i failed target r =
     (let r1 = release_where (\<lambda>x. rs_id x = i) r
      in if failed then ws_close target 1011 ''relay forwarding failed'' r1 else r1)"

definition bridge_message :: "relay_options \<Rightarrow> bridge \<Rightarrow> nat \<Rightarrow> int \<Rightarrow> int \<Rightarrow> int \<Rightarrow> relay \<Rightarrow> relay" where
  "bridge_message op b s bytes buffered now r =
     (case currentRouteAuthorization (tn_routeId (br_tunnel b)) now r of
        (None, r1) \<Rightarrow> r1
      | (Some a, r1) \<Rightarrow>
          forward op (br_tunnel b) s (if s = tn_browser (br_tunnel b) then tn_agent (br_tunnel b) else tn_browser (br_tunnel b))
            bytes buffered r1)"

definition set_bridge :: "bridge \<Rightarrow> relay \<Rightarrow> relay" where
  "set_bridge b r = r\<lparr>rl_bridges := t_update (\<lambda>x. br_tunnel x = br_tunnel b) (\<lambda>_. b) (rl_bridges r)\<rparr>"

definition ping_end :: "nat \<Rightarrow> relay \<Rightarrow> relay" where
  "ping_end s r = (if rl_ready r s = OPEN then r\<lparr>rl_out := rl_out r @ [Ping s]\<rparr> else r)"

definition bridge_heartbeat :: "relay_options \<Rightarrow> bridge \<Rightarrow> int \<Rightarrow> relay \<Rightarrow> relay" where
  "bridge_heartbeat op b now r =
     (if br_closed b then r
      else case currentRouteAuthorization (tn_routeId (br_tunnel b)) now r of
        (None, r1) \<Rightarrow> r1
      | (Some a, r1) \<Rightarrow>
          let left = tn_browser (br_tunnel b); right = tn_agent (br_tunnel b);
              left_out = op_heartbeatMissLimit op \<le> br_left b; right_out = op_heartbeatMissLimit op \<le> br_right b;
              r2 = (if left_out then ws_terminate left r1 else r1);
              r3 = (if right_out then ws_terminate right r2 else r2)
          in if left_out \<or> right_out then r3
             else ping_end right (ping_end left (set_bridge (b\<lparr>
                    br_left := br_left b + (if rl_ready r1 left = OPEN then 1 else 0),
                    br_right := br_right b + (if rl_ready r1 right = OPEN then 1 else 0)\<rparr>) r1)))"

definition bridge_pong :: "nat \<Rightarrow> relay \<Rightarrow> relay" where
  "bridge_pong s r = r\<lparr>rl_bridges := map (\<lambda>b. if tn_browser (br_tunnel b) = s then b\<lparr>br_left := 0\<rparr>
     else if tn_agent (br_tunnel b) = s then b\<lparr>br_right := 0\<rparr> else b) (rl_bridges r)\<rparr>"

definition bridge_finish :: "bridge \<Rightarrow> relay \<Rightarrow> relay" where
  "bridge_finish b r =
     (if br_closed b then r
      else removeActiveTunnel (br_tunnel b)
        (release_where (\<lambda>x. rs_tunnel x = tn_id (br_tunnel b)) (set_bridge (b\<lparr>br_closed := True\<rparr>) r)))"

definition bridge_peer_closed :: "nat \<Rightarrow> nat \<Rightarrow> string \<Rightarrow> bridge \<Rightarrow> relay \<Rightarrow> relay" where
  "bridge_peer_closed s code reason b r =
     (let t = br_tunnel b in
      if tn_browser t = s then closePeer (tn_agent t) code reason (bridge_finish b r)
      else if tn_agent t = s then closePeer (tn_browser t) code reason (bridge_finish b r)
      else r)"

definition bridge_peer_failed :: "nat \<Rightarrow> bridge \<Rightarrow> relay \<Rightarrow> relay" where
  "bridge_peer_failed s b r =
     (let t = br_tunnel b in
      if tn_browser t = s then ws_close (tn_agent t) 1011 ''peer connection failed'' r
      else if tn_agent t = s then ws_close (tn_browser t) 1011 ''peer connection failed'' r
      else r)"

section \<open>Events\<close>

definition isLoopbackAddress :: "string \<Rightarrow> bool" where
  "isLoopbackAddress a \<longleftrightarrow> a = ''127.0.0.1'' \<or> a = ''::1'' \<or> a = ''::ffff:127.0.0.1''"

text \<open>The address of a client, and the one a proxy on the same host reports, if that is trusted.\<close>

definition clientAddress :: "relay_options \<Rightarrow> string option \<Rightarrow> string option \<Rightarrow> string" where
  "clientAddress op remote real_ip =
     (let direct = (case remote of None \<Rightarrow> ''unknown'' | Some a \<Rightarrow> a) in
      if \<not> op_trustLoopbackProxy op \<or> \<not> isLoopbackAddress direct then direct
      else case real_ip of None \<Rightarrow> direct | Some f \<Rightarrow> if op_isIP op f then f else direct)"

text \<open>A new socket gets the next number.\<close>

definition accept_socket :: "relay_options \<Rightarrow> string \<Rightarrow> relay \<Rightarrow> relay" where
  "accept_socket op address r =
     (let s = rl_next r; r0 = r\<lparr>rl_ready := (rl_ready r)(s := OPEN), rl_next := Suc s\<rparr> in
      if MAX_RELAY_SOCKETS \<le> length (rl_sockets r) \<or> op_maxSocketsPerAddress op \<le> rl_by_address r address
      then ws_close s 1013 ''relay busy'' r0
      else r0\<lparr>rl_sockets := rl_sockets r @ [(s, address)],
              rl_by_address := (rl_by_address r)(address := Suc (rl_by_address r address)),
              rl_waiting := (rl_waiting r)(s := Some First_message)\<rparr>)"

definition routeFirstMessage :: "relay_options \<Rightarrow> nat \<Rightarrow> json_text \<Rightarrow> string \<Rightarrow> int \<Rightarrow> relay \<Rightarrow> ce_error option \<times> relay" where
  "routeFirstMessage op s raw cid now r =
     (case parseRelayWireMessage raw of
        Inl e \<Rightarrow> (Some e, r)
      | Inr (t, msg) \<Rightarrow>
          if t = ''relay/register'' then relay_register op s msg now r
          else if t = ''relay/connect'' then relay_connect op s msg cid now r
          else if t = ''relay/lookup'' then relay_lookup op s msg now r
          else if t = ''relay/accept'' then acceptTunnel op s msg now r
          else (Some (Error ''Unknown relay handshake''), r))"

text \<open>A message is for \<open>nextMessage\<close> when it waits on the socket, otherwise for the bridge the socket is an end of.\<close>

definition socket_message ::
  "relay_options \<Rightarrow> nat \<Rightarrow> json_text \<Rightarrow> string \<Rightarrow> int \<Rightarrow> int \<Rightarrow> int \<Rightarrow> relay \<Rightarrow> relay" where
  "socket_message op s raw cid bytes buffered now r =
     (case rl_waiting r s of
        Some First_message \<Rightarrow>
          (case routeFirstMessage op s raw cid now (r\<lparr>rl_waiting := (rl_waiting r)(s := None)\<rparr>) of
             (None, r1) \<Rightarrow> r1
           | (Some e, r1) \<Rightarrow> ws_close s 1008 ''invalid relay handshake'' r1)
      | Some (Tunnel_ready t) \<Rightarrow> tunnel_ready t raw now (r\<lparr>rl_waiting := (rl_waiting r)(s := None)\<rparr>)
      | None \<Rightarrow>
          (case find (\<lambda>b. tn_browser (br_tunnel b) = s \<or> tn_agent (br_tunnel b) = s) (rl_bridges r) of
             None \<Rightarrow> r
           | Some b \<Rightarrow> bridge_message op b s bytes buffered now r))"

definition wait_failed :: "nat \<Rightarrow> relay \<Rightarrow> relay" where
  "wait_failed s r =
     (let r1 = r\<lparr>rl_waiting := (rl_waiting r)(s := None)\<rparr> in
      case rl_waiting r s of
        None \<Rightarrow> r
      | Some First_message \<Rightarrow> ws_close s 1008 ''invalid relay handshake'' r1
      | Some (Tunnel_ready t) \<Rightarrow> setup_failed t r1)"

definition role_closed :: "nat \<Rightarrow> relay \<Rightarrow> relay" where
  "role_closed s r =
     (case rl_role r s of
        None \<Rightarrow> r
      | Some (Browser cid) \<Rightarrow> clearPending cid r
      | Some (Control rid login) \<Rightarrow>
          (case t_find rg_routeId rid (rl_routes r) of
             None \<Rightarrow> r
           | Some g \<Rightarrow>
               if rg_socket g \<noteq> s then r
               else pruneRouteAuthorization rid (logout login rid
                 (r\<lparr>rl_routes := t_delete (\<lambda>x. rg_routeId x = rid) (rl_routes r)\<rparr>))))"

definition forget_socket :: "nat \<Rightarrow> relay \<Rightarrow> relay" where
  "forget_socket s r =
     (case map_of (rl_sockets r) s of
        None \<Rightarrow> r
      | Some address \<Rightarrow> r\<lparr>rl_sockets := filter (\<lambda>x. fst x \<noteq> s) (rl_sockets r),
          rl_by_address := (rl_by_address r)(address := rl_by_address r address - 1)\<rparr>)"

definition socket_closed :: "nat \<Rightarrow> nat \<Rightarrow> string \<Rightarrow> relay \<Rightarrow> relay" where
  "socket_closed s code reason r =
     (let r1 = role_closed s (forget_socket s (r\<lparr>rl_ready := (rl_ready r)(s := CLOSED)\<rparr>))
      in wait_failed s (fold (bridge_peer_closed s code reason) (rl_bridges r1) r1))"

datatype relay_event =
    Connection "string option" "string option"
  | Message nat json_text string int int
  | Wait_timeout nat
  | Pending_timeout string
  | Expiration_timer string nat
  | Heartbeat nat
  | Pong nat
  | Send_settled nat bool nat
  | Reply_sent nat bool bool
  | Socket_error nat
  | Socket_closed nat nat string

text \<open>
  One event at the time \<open>now\<close>; messages come from sockets that exist. \<open>Reply_sent s ok lookup\<close> is the callback of the answer to a registration or
  to a lookup.
\<close>

fun relay_step :: "relay_options \<Rightarrow> int \<Rightarrow> relay_event \<Rightarrow> relay \<Rightarrow> relay" where
  "relay_step op now (Connection remote real_ip) r = accept_socket op (clientAddress op remote real_ip) r"
| "relay_step op now (Message s raw cid bytes buffered) r =
     (if s < rl_next r then socket_message op s raw cid bytes buffered now r else r)"
| "relay_step op now (Wait_timeout s) r = wait_failed s r"
| "relay_step op now (Pending_timeout cid) r = pending_timeout cid r"
| "relay_step op now (Expiration_timer rid i) r = expiration_timer rid i now r"
| "relay_step op now (Heartbeat i) r =
     (case find (\<lambda>b. tn_id (br_tunnel b) = i) (rl_bridges r) of None \<Rightarrow> r | Some b \<Rightarrow> bridge_heartbeat op b now r)"
| "relay_step op now (Pong s) r = bridge_pong s r"
| "relay_step op now (Send_settled i failed target) r = send_settled i failed target r"
| "relay_step op now (Reply_sent s ok lookup) r =
     (if \<not> ok then ws_terminate s r else if lookup then ws_close s 1000 ''lookup complete'' r else r)"
| "relay_step op now (Socket_error s) r = fold (bridge_peer_failed s) (rl_bridges r) r"
| "relay_step op now (Socket_closed s code reason) r = socket_closed s code reason r"

text \<open>\<open>close\<close>: the server forgets everything and closes its sockets.\<close>

definition relay_close :: "relay \<Rightarrow> relay" where
  "relay_close r = fold (\<lambda>s. ws_close s 1001 ''relay stopping'') (map fst (rl_sockets r))
     (r\<lparr>rl_pending := [], rl_setups := [], rl_active := [], rl_auths := [], rl_routes := [], rl_logins := (\<lambda>_. None)\<rparr>)"

definition relay_run :: "relay_options \<Rightarrow> (int \<times> relay_event) list \<Rightarrow> relay \<Rightarrow> relay" where
  "relay_run op evs r = fold (\<lambda>(now, e). relay_step op now e) evs r"

section \<open>What the small steps leave alone\<close>

lemma ws_close_frame [simp]:
  "rl_routes (ws_close s code reason r) = rl_routes r"
  "rl_auths (ws_close s code reason r) = rl_auths r"
  "rl_logins (ws_close s code reason r) = rl_logins r"
  "rl_pending (ws_close s code reason r) = rl_pending r"
  "rl_setups (ws_close s code reason r) = rl_setups r"
  "rl_active (ws_close s code reason r) = rl_active r"
  "rl_bridges (ws_close s code reason r) = rl_bridges r"
  "rl_sockets (ws_close s code reason r) = rl_sockets r"
  "rl_by_address (ws_close s code reason r) = rl_by_address r"
  "rl_connects (ws_close s code reason r) = rl_connects r"
  "rl_lookups (ws_close s code reason r) = rl_lookups r"
  "rl_reserved (ws_close s code reason r) = rl_reserved r"
  "rl_reservations (ws_close s code reason r) = rl_reservations r"
  "rl_waiting (ws_close s code reason r) = rl_waiting r"
  "rl_role (ws_close s code reason r) = rl_role r"
  "rl_next (ws_close s code reason r) = rl_next r"
  by (simp_all add: ws_close_def)

lemma ws_terminate_frame [simp]:
  "rl_routes (ws_terminate s r) = rl_routes r"
  "rl_auths (ws_terminate s r) = rl_auths r"
  "rl_logins (ws_terminate s r) = rl_logins r"
  "rl_pending (ws_terminate s r) = rl_pending r"
  "rl_setups (ws_terminate s r) = rl_setups r"
  "rl_active (ws_terminate s r) = rl_active r"
  "rl_bridges (ws_terminate s r) = rl_bridges r"
  "rl_sockets (ws_terminate s r) = rl_sockets r"
  "rl_by_address (ws_terminate s r) = rl_by_address r"
  "rl_connects (ws_terminate s r) = rl_connects r"
  "rl_lookups (ws_terminate s r) = rl_lookups r"
  "rl_reserved (ws_terminate s r) = rl_reserved r"
  "rl_reservations (ws_terminate s r) = rl_reservations r"
  "rl_waiting (ws_terminate s r) = rl_waiting r"
  "rl_role (ws_terminate s r) = rl_role r"
  "rl_next (ws_terminate s r) = rl_next r"
  by (simp_all add: ws_terminate_def)

lemma ws_send_frame [simp]:
  "rl_routes (ws_send s m r) = rl_routes r"
  "rl_auths (ws_send s m r) = rl_auths r"
  "rl_logins (ws_send s m r) = rl_logins r"
  "rl_pending (ws_send s m r) = rl_pending r"
  "rl_setups (ws_send s m r) = rl_setups r"
  "rl_active (ws_send s m r) = rl_active r"
  "rl_bridges (ws_send s m r) = rl_bridges r"
  "rl_sockets (ws_send s m r) = rl_sockets r"
  "rl_by_address (ws_send s m r) = rl_by_address r"
  "rl_connects (ws_send s m r) = rl_connects r"
  "rl_lookups (ws_send s m r) = rl_lookups r"
  "rl_reserved (ws_send s m r) = rl_reserved r"
  "rl_reservations (ws_send s m r) = rl_reservations r"
  "rl_ready (ws_send s m r) = rl_ready r"
  "rl_waiting (ws_send s m r) = rl_waiting r"
  "rl_role (ws_send s m r) = rl_role r"
  "rl_next (ws_send s m r) = rl_next r"
  by (simp_all add: ws_send_def)

lemma closeForExpired_frame [simp]:
  "rl_routes (closeForExpiredRouteAuthorization s r) = rl_routes r"
  "rl_auths (closeForExpiredRouteAuthorization s r) = rl_auths r"
  "rl_logins (closeForExpiredRouteAuthorization s r) = rl_logins r"
  "rl_pending (closeForExpiredRouteAuthorization s r) = rl_pending r"
  "rl_setups (closeForExpiredRouteAuthorization s r) = rl_setups r"
  "rl_active (closeForExpiredRouteAuthorization s r) = rl_active r"
  "rl_bridges (closeForExpiredRouteAuthorization s r) = rl_bridges r"
  "rl_sockets (closeForExpiredRouteAuthorization s r) = rl_sockets r"
  "rl_by_address (closeForExpiredRouteAuthorization s r) = rl_by_address r"
  "rl_connects (closeForExpiredRouteAuthorization s r) = rl_connects r"
  "rl_lookups (closeForExpiredRouteAuthorization s r) = rl_lookups r"
  "rl_reserved (closeForExpiredRouteAuthorization s r) = rl_reserved r"
  "rl_reservations (closeForExpiredRouteAuthorization s r) = rl_reservations r"
  "rl_waiting (closeForExpiredRouteAuthorization s r) = rl_waiting r"
  "rl_role (closeForExpiredRouteAuthorization s r) = rl_role r"
  "rl_next (closeForExpiredRouteAuthorization s r) = rl_next r"
  by (simp_all add: closeForExpiredRouteAuthorization_def)

lemma close_all_frame [simp]:
  "rl_routes (fold closeForExpiredRouteAuthorization ss r) = rl_routes r"
  "rl_auths (fold closeForExpiredRouteAuthorization ss r) = rl_auths r"
  "rl_logins (fold closeForExpiredRouteAuthorization ss r) = rl_logins r"
  "rl_pending (fold closeForExpiredRouteAuthorization ss r) = rl_pending r"
  "rl_setups (fold closeForExpiredRouteAuthorization ss r) = rl_setups r"
  "rl_active (fold closeForExpiredRouteAuthorization ss r) = rl_active r"
  "rl_bridges (fold closeForExpiredRouteAuthorization ss r) = rl_bridges r"
  "rl_sockets (fold closeForExpiredRouteAuthorization ss r) = rl_sockets r"
  "rl_by_address (fold closeForExpiredRouteAuthorization ss r) = rl_by_address r"
  "rl_connects (fold closeForExpiredRouteAuthorization ss r) = rl_connects r"
  "rl_lookups (fold closeForExpiredRouteAuthorization ss r) = rl_lookups r"
  "rl_reserved (fold closeForExpiredRouteAuthorization ss r) = rl_reserved r"
  "rl_reservations (fold closeForExpiredRouteAuthorization ss r) = rl_reservations r"
  "rl_waiting (fold closeForExpiredRouteAuthorization ss r) = rl_waiting r"
  "rl_role (fold closeForExpiredRouteAuthorization ss r) = rl_role r"
  "rl_next (fold closeForExpiredRouteAuthorization ss r) = rl_next r"
  by (induction ss arbitrary: r; simp)+

lemma closePeer_frame [simp]:
  "rl_routes (closePeer s code reason r) = rl_routes r"
  "rl_auths (closePeer s code reason r) = rl_auths r"
  "rl_logins (closePeer s code reason r) = rl_logins r"
  "rl_pending (closePeer s code reason r) = rl_pending r"
  "rl_setups (closePeer s code reason r) = rl_setups r"
  "rl_active (closePeer s code reason r) = rl_active r"
  "rl_bridges (closePeer s code reason r) = rl_bridges r"
  "rl_sockets (closePeer s code reason r) = rl_sockets r"
  "rl_by_address (closePeer s code reason r) = rl_by_address r"
  "rl_connects (closePeer s code reason r) = rl_connects r"
  "rl_lookups (closePeer s code reason r) = rl_lookups r"
  "rl_reserved (closePeer s code reason r) = rl_reserved r"
  "rl_reservations (closePeer s code reason r) = rl_reservations r"
  "rl_waiting (closePeer s code reason r) = rl_waiting r"
  "rl_role (closePeer s code reason r) = rl_role r"
  "rl_next (closePeer s code reason r) = rl_next r"
  by (simp_all add: closePeer_def)

lemma prune_frame [simp]:
  "rl_routes (pruneRouteAuthorization rid r) = rl_routes r"
  "rl_logins (pruneRouteAuthorization rid r) = rl_logins r"
  "rl_pending (pruneRouteAuthorization rid r) = rl_pending r"
  "rl_setups (pruneRouteAuthorization rid r) = rl_setups r"
  "rl_active (pruneRouteAuthorization rid r) = rl_active r"
  "rl_bridges (pruneRouteAuthorization rid r) = rl_bridges r"
  "rl_sockets (pruneRouteAuthorization rid r) = rl_sockets r"
  "rl_by_address (pruneRouteAuthorization rid r) = rl_by_address r"
  "rl_connects (pruneRouteAuthorization rid r) = rl_connects r"
  "rl_lookups (pruneRouteAuthorization rid r) = rl_lookups r"
  "rl_reserved (pruneRouteAuthorization rid r) = rl_reserved r"
  "rl_reservations (pruneRouteAuthorization rid r) = rl_reservations r"
  "rl_ready (pruneRouteAuthorization rid r) = rl_ready r"
  "rl_waiting (pruneRouteAuthorization rid r) = rl_waiting r"
  "rl_role (pruneRouteAuthorization rid r) = rl_role r"
  "rl_next (pruneRouteAuthorization rid r) = rl_next r"
  "rl_out (pruneRouteAuthorization rid r) = rl_out r"
  by (simp_all add: pruneRouteAuthorization_def split: option.splits)

lemma logout_frame [simp]:
  "rl_routes (logout login rid r) = rl_routes r"
  "rl_auths (logout login rid r) = rl_auths r"
  "rl_pending (logout login rid r) = rl_pending r"
  "rl_setups (logout login rid r) = rl_setups r"
  "rl_active (logout login rid r) = rl_active r"
  "rl_bridges (logout login rid r) = rl_bridges r"
  "rl_sockets (logout login rid r) = rl_sockets r"
  "rl_by_address (logout login rid r) = rl_by_address r"
  "rl_connects (logout login rid r) = rl_connects r"
  "rl_lookups (logout login rid r) = rl_lookups r"
  "rl_reserved (logout login rid r) = rl_reserved r"
  "rl_reservations (logout login rid r) = rl_reservations r"
  "rl_ready (logout login rid r) = rl_ready r"
  "rl_waiting (logout login rid r) = rl_waiting r"
  "rl_role (logout login rid r) = rl_role r"
  "rl_next (logout login rid r) = rl_next r"
  "rl_out (logout login rid r) = rl_out r"
  by (simp_all add: logout_def split: option.splits)

lemma ping_end_frame [simp]:
  "rl_routes (ping_end s r) = rl_routes r"
  "rl_auths (ping_end s r) = rl_auths r"
  "rl_logins (ping_end s r) = rl_logins r"
  "rl_pending (ping_end s r) = rl_pending r"
  "rl_setups (ping_end s r) = rl_setups r"
  "rl_active (ping_end s r) = rl_active r"
  "rl_bridges (ping_end s r) = rl_bridges r"
  "rl_sockets (ping_end s r) = rl_sockets r"
  "rl_by_address (ping_end s r) = rl_by_address r"
  "rl_connects (ping_end s r) = rl_connects r"
  "rl_lookups (ping_end s r) = rl_lookups r"
  "rl_reserved (ping_end s r) = rl_reserved r"
  "rl_reservations (ping_end s r) = rl_reservations r"
  "rl_ready (ping_end s r) = rl_ready r"
  "rl_waiting (ping_end s r) = rl_waiting r"
  "rl_role (ping_end s r) = rl_role r"
  "rl_next (ping_end s r) = rl_next r"
  by (simp_all add: ping_end_def)

lemma set_bridge_frame [simp]:
  "rl_routes (set_bridge b r) = rl_routes r"
  "rl_auths (set_bridge b r) = rl_auths r"
  "rl_logins (set_bridge b r) = rl_logins r"
  "rl_pending (set_bridge b r) = rl_pending r"
  "rl_setups (set_bridge b r) = rl_setups r"
  "rl_active (set_bridge b r) = rl_active r"
  "rl_sockets (set_bridge b r) = rl_sockets r"
  "rl_by_address (set_bridge b r) = rl_by_address r"
  "rl_connects (set_bridge b r) = rl_connects r"
  "rl_lookups (set_bridge b r) = rl_lookups r"
  "rl_reserved (set_bridge b r) = rl_reserved r"
  "rl_reservations (set_bridge b r) = rl_reservations r"
  "rl_ready (set_bridge b r) = rl_ready r"
  "rl_waiting (set_bridge b r) = rl_waiting r"
  "rl_role (set_bridge b r) = rl_role r"
  "rl_next (set_bridge b r) = rl_next r"
  "rl_out (set_bridge b r) = rl_out r"
  by (simp_all add: set_bridge_def)

lemma release_frame [simp]:
  "rl_routes (release_where p r) = rl_routes r"
  "rl_auths (release_where p r) = rl_auths r"
  "rl_logins (release_where p r) = rl_logins r"
  "rl_pending (release_where p r) = rl_pending r"
  "rl_setups (release_where p r) = rl_setups r"
  "rl_active (release_where p r) = rl_active r"
  "rl_bridges (release_where p r) = rl_bridges r"
  "rl_sockets (release_where p r) = rl_sockets r"
  "rl_by_address (release_where p r) = rl_by_address r"
  "rl_connects (release_where p r) = rl_connects r"
  "rl_lookups (release_where p r) = rl_lookups r"
  "rl_ready (release_where p r) = rl_ready r"
  "rl_waiting (release_where p r) = rl_waiting r"
  "rl_role (release_where p r) = rl_role r"
  "rl_next (release_where p r) = rl_next r"
  "rl_out (release_where p r) = rl_out r"
  by (simp_all add: release_where_def)

lemma removeSetup_frame [simp]:
  "rl_routes (removePendingTunnelSetup t r) = rl_routes r"
  "rl_logins (removePendingTunnelSetup t r) = rl_logins r"
  "rl_pending (removePendingTunnelSetup t r) = rl_pending r"
  "rl_active (removePendingTunnelSetup t r) = rl_active r"
  "rl_bridges (removePendingTunnelSetup t r) = rl_bridges r"
  "rl_sockets (removePendingTunnelSetup t r) = rl_sockets r"
  "rl_by_address (removePendingTunnelSetup t r) = rl_by_address r"
  "rl_connects (removePendingTunnelSetup t r) = rl_connects r"
  "rl_lookups (removePendingTunnelSetup t r) = rl_lookups r"
  "rl_reserved (removePendingTunnelSetup t r) = rl_reserved r"
  "rl_reservations (removePendingTunnelSetup t r) = rl_reservations r"
  "rl_ready (removePendingTunnelSetup t r) = rl_ready r"
  "rl_waiting (removePendingTunnelSetup t r) = rl_waiting r"
  "rl_role (removePendingTunnelSetup t r) = rl_role r"
  "rl_next (removePendingTunnelSetup t r) = rl_next r"
  "rl_out (removePendingTunnelSetup t r) = rl_out r"
  by (simp_all add: removePendingTunnelSetup_def)

lemma removeActive_frame [simp]:
  "rl_routes (removeActiveTunnel t r) = rl_routes r"
  "rl_logins (removeActiveTunnel t r) = rl_logins r"
  "rl_pending (removeActiveTunnel t r) = rl_pending r"
  "rl_setups (removeActiveTunnel t r) = rl_setups r"
  "rl_bridges (removeActiveTunnel t r) = rl_bridges r"
  "rl_sockets (removeActiveTunnel t r) = rl_sockets r"
  "rl_by_address (removeActiveTunnel t r) = rl_by_address r"
  "rl_connects (removeActiveTunnel t r) = rl_connects r"
  "rl_lookups (removeActiveTunnel t r) = rl_lookups r"
  "rl_reserved (removeActiveTunnel t r) = rl_reserved r"
  "rl_reservations (removeActiveTunnel t r) = rl_reservations r"
  "rl_ready (removeActiveTunnel t r) = rl_ready r"
  "rl_waiting (removeActiveTunnel t r) = rl_waiting r"
  "rl_role (removeActiveTunnel t r) = rl_role r"
  "rl_next (removeActiveTunnel t r) = rl_next r"
  "rl_out (removeActiveTunnel t r) = rl_out r"
  by (simp_all add: removeActiveTunnel_def)

lemma clearPending_frame [simp]:
  "rl_routes (clearPending cid r) = rl_routes r"
  "rl_logins (clearPending cid r) = rl_logins r"
  "rl_setups (clearPending cid r) = rl_setups r"
  "rl_active (clearPending cid r) = rl_active r"
  "rl_bridges (clearPending cid r) = rl_bridges r"
  "rl_sockets (clearPending cid r) = rl_sockets r"
  "rl_by_address (clearPending cid r) = rl_by_address r"
  "rl_connects (clearPending cid r) = rl_connects r"
  "rl_lookups (clearPending cid r) = rl_lookups r"
  "rl_reserved (clearPending cid r) = rl_reserved r"
  "rl_reservations (clearPending cid r) = rl_reservations r"
  "rl_ready (clearPending cid r) = rl_ready r"
  "rl_waiting (clearPending cid r) = rl_waiting r"
  "rl_role (clearPending cid r) = rl_role r"
  "rl_next (clearPending cid r) = rl_next r"
  "rl_out (clearPending cid r) = rl_out r"
  by (simp_all add: clearPending_def split: option.splits)

end
