(* ===== verification/Relay_Moves.thy ===== *)
theory Relay_Moves
  imports Relay_Server
begin

text \<open>
  The relay as a system of moves: an account of the ways in which what the server owes to routes, owners and
  sockets can change, and the proof that every event of \<open>Relay_Server\<close> is a sequence of moves. An invariant
  of the moves is an invariant of the server.
\<close>

section \<open>Maps\<close>

lemma t_find_put: "t_find key k (t_put key row rows) = (if k = key row then Some row else t_find key k rows)"
proof (cases "t_find key (key row) rows")
  case None
  then show ?thesis by (auto simp: t_put_def split: option.splits)
next
  case (Some x)
  have "t_find key k (t_update (\<lambda>x. key x = key row) (\<lambda>_. row) rows) =
      (if k = key row then (if key row \<in> key ` set rows then Some row else None) else t_find key k rows)"
    by (induction rows) auto
  moreover have "key row \<in> key ` set rows" using Some t_find_None [of key "key row" rows] by simp
  ultimately show ?thesis using Some by (simp add: t_put_def)
qed

lemma t_keyed_put: "t_keyed key rows \<Longrightarrow> t_keyed key (t_put key row rows)"
proof (cases "t_find key (key row) rows")
  case (Some x)
  have "map key (t_update (\<lambda>x. key x = key row) (\<lambda>_. row) rows) = map key rows" by (induction rows) auto
  then show "t_keyed key rows \<Longrightarrow> ?thesis" using Some by (simp add: t_put_def t_keyed_def)
qed (simp add: t_put_def)

lemma length_put: "length (t_put key row rows) = (if t_find key (key row) rows = None then Suc (length rows) else length rows)"
  by (simp add: t_put_def t_update_def)

lemma set_put: "set (t_put key row rows) \<subseteq> insert row (set rows)"
  by (auto simp: t_put_def set_t_update split: if_splits)

section \<open>Moves\<close>

text \<open>
  An abstract account of the server: the ways in which what it owes to routes, owners and sockets can
  change. A move is quiet when it changes none of that; it may close sockets and send control messages.
\<close>

abbreviation auth_of :: "string \<Rightarrow> relay \<Rightarrow> authorization option" where
  "auth_of rid r \<equiv> t_find au_routeId rid (rl_auths r)"

fun payload_out :: "relay_out \<Rightarrow> bool" where
  "payload_out (Send s (Payload n)) = True"
| "payload_out _ = False"

definition bridge_tunnels :: "relay \<Rightarrow> tunnel list" where
  "bridge_tunnels r = map br_tunnel (rl_bridges r)"

definition quiet :: "relay \<Rightarrow> relay \<Rightarrow> bool" where
  "quiet r r' \<longleftrightarrow> rl_auths r' = rl_auths r \<and> rl_routes r' = rl_routes r \<and> rl_pending r' = rl_pending r \<and>
     rl_setups r' = rl_setups r \<and> rl_active r' = rl_active r \<and> bridge_tunnels r' = bridge_tunnels r \<and>
     rl_sockets r' = rl_sockets r \<and> rl_by_address r' = rl_by_address r \<and> rl_reserved r' = rl_reserved r \<and>
     rl_reservations r' = rl_reservations r \<and> rl_next r' = rl_next r \<and>
     (\<forall>s. rl_ready r' s = OPEN \<longrightarrow> rl_ready r s = OPEN) \<and> filter payload_out (rl_out r') = filter payload_out (rl_out r)"

inductive relay_move :: "relay_options \<Rightarrow> int \<Rightarrow> relay \<Rightarrow> relay \<Rightarrow> bool" for op now where
  mv_quiet: "quiet r r' \<Longrightarrow> relay_move op now r r'"
| mv_open: "relay_move op now r (accept_socket op address r)"
| mv_forget: "relay_move op now r (forget_socket s r)"
| mv_expire: "auth_of rid r = Some a \<Longrightarrow> expired_at now a \<Longrightarrow> relay_move op now r (expireRouteAuthorization rid (au_id a) r)"
| mv_prune: "relay_move op now r (pruneRouteAuthorization rid r)"
| mv_reschedule: "auth_of rid r = Some a \<Longrightarrow>
    relay_move op now r (r\<lparr>rl_auths := t_put au_routeId (scheduleRouteExpiration now a) (rl_auths r)\<rparr>)"
| mv_register: "rg_routeId route = au_routeId auth \<Longrightarrow> rg_ownerId route = au_ownerId auth \<Longrightarrow>
    \<not> another_owner (auth_of (au_routeId auth) r) (t_find rg_routeId (au_routeId auth) (rl_routes r)) (au_ownerId auth) \<Longrightarrow>
    (\<And>a. auth_of (au_routeId auth) r = Some a \<Longrightarrow> assertMonotonicRouteAuthorization a auth = None) \<Longrightarrow>
    au_ownerId auth = None \<or> au_expiresAt auth \<noteq> None \<Longrightarrow>
    auth_of (au_routeId auth) r \<noteq> None \<or> length (rl_auths r) < op_maxRouteAuthorizations op \<Longrightarrow>
    relay_move op now r (r\<lparr>rl_auths := t_put au_routeId (scheduleRouteExpiration now (auth\<lparr>au_id := rl_next r\<rparr>)) (rl_auths r),
      rl_routes := t_put rg_routeId route (rl_routes r), rl_next := Suc (rl_next r)\<rparr>)"
| mv_drop_route: "relay_move op now r (r\<lparr>rl_routes := t_delete (\<lambda>g. rg_routeId g = rid) (rl_routes r)\<rparr>)"
| mv_drop_pending: "relay_move op now r (r\<lparr>rl_pending := t_delete (\<lambda>p. pd_id p = cid) (rl_pending r)\<rparr>)"
| mv_drop_setup: "relay_move op now r (r\<lparr>rl_setups := t_delete (\<lambda>x. x = t) (rl_setups r)\<rparr>)"
| mv_pend: "auth_of rid r = Some a \<Longrightarrow> \<not> expired_at now a \<Longrightarrow> t_find rg_routeId rid (rl_routes r) = Some g \<Longrightarrow>
    length (rl_pending r) < MAX_PENDING_CONNECTIONS \<Longrightarrow> route_load rid r < MAX_CONNECTIONS_PER_ROUTE \<Longrightarrow> s < rl_next r \<Longrightarrow>
    relay_move op now r (r\<lparr>rl_pending := t_put pd_id \<lparr>pd_id = cid, pd_routeId = rid, pd_ownerId = rg_ownerId g, pd_browser = s\<rparr>
      (rl_pending r)\<rparr>)"
| mv_accept: "t_find pd_id cid (rl_pending r) = Some p \<Longrightarrow> auth_of (pd_routeId p) r = Some a \<Longrightarrow> \<not> expired_at now a \<Longrightarrow>
    au_ownerId a = pd_ownerId p \<Longrightarrow> tn_id t = rl_next r \<Longrightarrow> tn_routeId t = pd_routeId p \<Longrightarrow> tn_ownerId t = pd_ownerId p \<Longrightarrow>
    tn_browser t = pd_browser p \<Longrightarrow> tn_agent t < rl_next r \<Longrightarrow>
    relay_move op now r (r\<lparr>rl_pending := t_delete (\<lambda>x. pd_id x = cid) (rl_pending r), rl_setups := rl_setups r @ [t],
      rl_next := Suc (rl_next r)\<rparr>)"
| mv_activate: "t \<in> set (rl_setups r) \<Longrightarrow> auth_of (tn_routeId t) r = Some a \<Longrightarrow> \<not> expired_at now a \<Longrightarrow>
    relay_move op now r (r\<lparr>rl_active := rl_active r @ [t], rl_setups := t_delete (\<lambda>x. x = t) (rl_setups r),
      rl_bridges := rl_bridges r @ [\<lparr>br_tunnel = t, br_closed = False, br_left = 0, br_right = 0\<rparr>]\<rparr>)"
| mv_finish: "rl_ready r (tn_browser t) \<noteq> OPEN \<Longrightarrow> rl_ready r (tn_agent t) \<noteq> OPEN \<Longrightarrow>
    relay_move op now r (r\<lparr>rl_active := t_delete (\<lambda>x. x = t) (rl_active r)\<rparr>)"
| mv_forward: "t \<in> set (bridge_tunnels r) \<Longrightarrow> target = tn_browser t \<or> target = tn_agent t \<Longrightarrow> rl_ready r target = OPEN \<Longrightarrow>
    auth_of (tn_routeId t) r = Some a \<Longrightarrow> \<not> expired_at now a \<Longrightarrow> reserve op bytes r \<Longrightarrow> bytes \<noteq> 0 \<Longrightarrow>
    relay_move op now r (ws_send target (Payload bytes) (r\<lparr>rl_reserved := rl_reserved r + bytes, rl_next := Suc (rl_next r),
      rl_reservations := rl_reservations r @ [\<lparr>rs_id = rl_next r, rs_tunnel = tn_id t, rs_target = target, rs_bytes = bytes\<rparr>]\<rparr>))"
| mv_forward_empty: "t \<in> set (bridge_tunnels r) \<Longrightarrow> target = tn_browser t \<or> target = tn_agent t \<Longrightarrow> rl_ready r target = OPEN \<Longrightarrow>
    auth_of (tn_routeId t) r = Some a \<Longrightarrow> \<not> expired_at now a \<Longrightarrow> relay_move op now r (ws_send target (Payload 0) r)"
| mv_release: "relay_move op now r (release_where p r)"

abbreviation relay_moves :: "relay_options \<Rightarrow> int \<Rightarrow> relay \<Rightarrow> relay \<Rightarrow> bool" where
  "relay_moves op now \<equiv> (relay_move op now)\<^sup>*\<^sup>*"

lemma one_move: "relay_move op now r r' \<Longrightarrow> relay_moves op now r r'"
  by (rule r_into_rtranclp)

lemma more_moves: "relay_moves op now r r' \<Longrightarrow> relay_move op now r' r'' \<Longrightarrow> relay_moves op now r r''"
  by (rule rtranclp.rtrancl_into_rtrancl)

section \<open>The small steps are moves\<close>

lemma quiet_refl [simp]: "quiet r r"
  by (simp add: quiet_def)

lemma quiet_trans: "quiet r r' \<Longrightarrow> quiet r' r'' \<Longrightarrow> quiet r r''"
  by (simp add: quiet_def)

lemma quiet_sockets [intro]:
  "quiet r (ws_close s code reason r)" "quiet r (ws_terminate s r)" "quiet r (closePeer s code reason r)"
  "quiet r (logout login rid r)" "quiet r (ping_end s r)"
  "quiet r (r\<lparr>rl_waiting := w\<rparr>)" "quiet r (r\<lparr>rl_role := f\<rparr>)" "quiet r (r\<lparr>rl_connects := b\<rparr>)" "quiet r (r\<lparr>rl_lookups := b\<rparr>)"
  "quiet r (r\<lparr>rl_logins := l\<rparr>)"
  by (auto simp: quiet_def bridge_tunnels_def ws_close_def ws_terminate_def closePeer_def logout_def ping_end_def split: option.splits)

lemma quiet_send: "\<not> payload_out (Send s m) \<Longrightarrow> quiet r (ws_send s m r)"
  by (simp add: quiet_def bridge_tunnels_def ws_send_def)

lemma quiet_closed: "quiet r (r\<lparr>rl_ready := (rl_ready r)(s := CLOSED)\<rparr>)"
  by (simp add: quiet_def bridge_tunnels_def)

lemma quiet_bridges: "map br_tunnel bs = map br_tunnel (rl_bridges r) \<Longrightarrow> quiet r (r\<lparr>rl_bridges := bs\<rparr>)"
  by (simp add: quiet_def bridge_tunnels_def)

lemma quiet_set_bridge [intro]: "quiet r (set_bridge b r)"
  unfolding set_bridge_def by (intro quiet_bridges) (simp add: t_update_def)

lemma moves_quiet: "quiet r r' \<Longrightarrow> relay_moves op now r r'"
  by (intro one_move mv_quiet)

lemma then_quiet: "relay_moves op now r r' \<Longrightarrow> quiet r' r'' \<Longrightarrow> relay_moves op now r r''"
  by (rule more_moves [OF _ mv_quiet])

lemma then_close [intro]:
  "relay_moves op now r r' \<Longrightarrow> relay_moves op now r (ws_close s code reason r')"
  "relay_moves op now r r' \<Longrightarrow> relay_moves op now r (ws_terminate s r')"
  by (blast intro: then_quiet quiet_sockets)+

lemma then_send: "relay_moves op now r r' \<Longrightarrow> \<not> payload_out (Send s m) \<Longrightarrow> relay_moves op now r (ws_send s m r')"
  by (rule then_quiet [OF _ quiet_send])

lemma current_cases:
  assumes "currentRouteAuthorization rid now r = (x, r')"
  obtains (none) "x = None" "r' = r" "auth_of rid r = None"
    | (expired) a where "x = None" "auth_of rid r = Some a" "expired_at now a" "r' = expireRouteAuthorization rid (au_id a) r"
    | (some) a where "x = Some a" "auth_of rid r = Some a" "\<not> expired_at now a" "r' = r"
proof (cases "auth_of rid r")
  case None
  then show thesis using assms none by (simp add: currentRouteAuthorization_def)
next
  case (Some a)
  show thesis
  proof (cases "expired_at now a")
    case True
    then have "x = None" and "r' = expireRouteAuthorization rid (au_id a) r"
      using assms Some by (simp_all add: currentRouteAuthorization_def)
    with Some True show thesis by (intro expired)
  next
    case False
    then have "x = Some a" and "r' = r" using assms Some by (simp_all add: currentRouteAuthorization_def)
    with Some False show thesis by (intro some)
  qed
qed

text \<open>When an authorization expires, nothing that belongs to its route is left.\<close>

lemma expire_fields:
  assumes "auth_of rid r = Some a"
  shows "rl_auths (expireRouteAuthorization rid (au_id a) r) = t_delete (\<lambda>x. au_routeId x = rid) (rl_auths r)"
    and "rl_routes (expireRouteAuthorization rid (au_id a) r) = t_delete (\<lambda>x. rg_routeId x = rid) (rl_routes r)"
    and "rl_pending (expireRouteAuthorization rid (au_id a) r) = t_delete (\<lambda>x. pd_routeId x = rid) (rl_pending r)"
    and "rl_setups (expireRouteAuthorization rid (au_id a) r) = t_delete (\<lambda>x. tn_routeId x = rid) (rl_setups r)"
    and "rl_active (expireRouteAuthorization rid (au_id a) r) = t_delete (\<lambda>x. tn_routeId x = rid) (rl_active r)"
  using assms by (simp_all add: expireRouteAuthorization_def Let_def split: option.splits)

lemma expire_frame [simp]:
  "rl_bridges (expireRouteAuthorization rid i r) = rl_bridges r"
  "rl_sockets (expireRouteAuthorization rid i r) = rl_sockets r"
  "rl_by_address (expireRouteAuthorization rid i r) = rl_by_address r"
  "rl_connects (expireRouteAuthorization rid i r) = rl_connects r"
  "rl_lookups (expireRouteAuthorization rid i r) = rl_lookups r"
  "rl_reserved (expireRouteAuthorization rid i r) = rl_reserved r"
  "rl_reservations (expireRouteAuthorization rid i r) = rl_reservations r"
  "rl_waiting (expireRouteAuthorization rid i r) = rl_waiting r"
  "rl_role (expireRouteAuthorization rid i r) = rl_role r"
  "rl_next (expireRouteAuthorization rid i r) = rl_next r"
  by (simp_all add: expireRouteAuthorization_def Let_def split: option.splits)

lemma moves_current: "currentRouteAuthorization rid now r = (x, r') \<Longrightarrow> relay_moves op now r r'"
  by (erule current_cases) (auto intro: one_move mv_expire)

lemma current_route_Some:
  "currentRegisteredRoute rid now r = (Some g, r') \<Longrightarrow>
     \<exists>a. currentRouteAuthorization rid now r = (Some a, r') \<and> t_find rg_routeId rid (rl_routes r') = Some g"
  by (cases "currentRouteAuthorization rid now r"; cases "fst (currentRouteAuthorization rid now r)")
    (simp_all add: currentRegisteredRoute_def)

lemma moves_current_route: "currentRegisteredRoute rid now r = (x, r') \<Longrightarrow> relay_moves op now r r'"
  by (auto simp: currentRegisteredRoute_def split: prod.splits option.splits intro: moves_current)

lemma moves_clearPending: "relay_moves op now r (clearPending cid r)"
  by (auto simp: clearPending_def split: option.splits intro: more_moves [OF one_move mv_prune] mv_drop_pending)

lemma moves_removeSetup: "relay_moves op now r (removePendingTunnelSetup t r)"
  by (auto simp: removePendingTunnelSetup_def intro: more_moves [OF one_move mv_prune] mv_drop_setup)

lemma moves_removeActive:
  "rl_ready r (tn_browser t) \<noteq> OPEN \<Longrightarrow> rl_ready r (tn_agent t) \<noteq> OPEN \<Longrightarrow> relay_moves op now r (removeActiveTunnel t r)"
  by (auto simp: removeActiveTunnel_def intro: more_moves [OF one_move mv_prune] mv_finish)

lemma moves_setup_failed: "relay_moves op now r (setup_failed t r)"
  unfolding setup_failed_def by (intro then_close moves_removeSetup)

lemma moves_pending_timeout: "relay_moves op now r (pending_timeout cid r)"
  by (auto simp: pending_timeout_def split: option.splits intro: then_close moves_clearPending)

lemma moves_expiration_timer: "relay_moves op now r (expiration_timer rid i now r)"
  by (auto simp: expiration_timer_def split: option.splits intro: one_move mv_expire mv_reschedule)

text \<open>What a lookup keeps: its budget, an expiration, control messages and closing sockets.\<close>

lemma lookup_rule:
  assumes q: "\<And>bs. Q (r\<lparr>rl_lookups := bs\<rparr>)"
    and c: "\<And>rid bs x r'. currentRegisteredRoute rid now (r\<lparr>rl_lookups := bs\<rparr>) = (x, r') \<Longrightarrow> Q r'"
    and close: "\<And>r' s code reason. Q r' \<Longrightarrow> Q (ws_close s code reason r')"
    and send: "\<And>r' s m. Q r' \<Longrightarrow> \<not> payload_out (Send s m) \<Longrightarrow> Q (ws_send s m r')"
  shows "Q (snd (relay_lookup op s msg now r))"
  by (auto simp: relay_lookup_def Let_def split: prod.splits sum.splits option.splits js.splits intro!: close send q intro: c)

lemma moves_lookup: "relay_moves op now r (snd (relay_lookup op s msg now r))"
proof (rule lookup_rule)
  have q: "relay_moves op now r (r\<lparr>rl_lookups := bs\<rparr>)" for bs by (intro moves_quiet quiet_sockets)
  then show "relay_moves op now r (r\<lparr>rl_lookups := bs\<rparr>)" for bs .
  show "relay_moves op now r r'" if "currentRegisteredRoute rid now (r\<lparr>rl_lookups := bs\<rparr>) = (x, r')" for rid bs x r'
    using q moves_current_route [OF that] by (rule rtranclp_trans)
qed (auto intro: then_send)

lemma current_next: "currentRouteAuthorization rid now r = (x, r') \<Longrightarrow> rl_next r' = rl_next r"
  by (erule current_cases) simp_all

lemma moves_connect:
  assumes "s < rl_next r"
  shows "relay_moves op now r (snd (relay_connect op s msg cid now r))"
proof -
  have q: "relay_moves op now r (r\<lparr>rl_connects := bs\<rparr>)" for bs by (intro moves_quiet quiet_sockets)
  have c: "relay_moves op now r r'" if "currentRegisteredRoute rid now (r\<lparr>rl_connects := bs\<rparr>) = (x, r')" for rid bs x r'
    using q moves_current_route [OF that] by (rule rtranclp_trans)
  have p: "relay_moves op now r (r'\<lparr>rl_pending := t_put pd_id \<lparr>pd_id = cid, pd_routeId = rid, pd_ownerId = rg_ownerId g, pd_browser = s\<rparr>
        (rl_pending r'), rl_role := f\<rparr>)"
    if "currentRegisteredRoute rid now (r\<lparr>rl_connects := bs\<rparr>) = (Some g, r')" "\<not> MAX_PENDING_CONNECTIONS \<le> length (rl_pending r')"
      "\<not> MAX_CONNECTIONS_PER_ROUTE \<le> route_load rid r'" for rid bs g r' f
  proof -
    note here = that
    obtain a where a: "currentRouteAuthorization rid now (r\<lparr>rl_connects := bs\<rparr>) = (Some a, r')"
      and g: "t_find rg_routeId rid (rl_routes r') = Some g"
      using current_route_Some [OF here(1)] by blast
    from a have "auth_of rid r' = Some a" "\<not> expired_at now a" "s < rl_next r'" using assms current_next [OF a] by (auto elim: current_cases)
    then have "relay_move op now r' (r'\<lparr>rl_pending := t_put pd_id \<lparr>pd_id = cid, pd_routeId = rid, pd_ownerId = rg_ownerId g, pd_browser = s\<rparr>
        (rl_pending r')\<rparr>)"
      using g that by (intro mv_pend) auto
    with c [OF that(1)] have "relay_moves op now r (r'\<lparr>rl_pending := t_put pd_id \<lparr>pd_id = cid, pd_routeId = rid,
        pd_ownerId = rg_ownerId g, pd_browser = s\<rparr> (rl_pending r')\<rparr>)" by (rule more_moves)
    from then_quiet [OF this quiet_sockets(7), of f] show ?thesis by simp
  qed
  show ?thesis
    by (auto simp: relay_connect_def Let_def split: prod.splits option.splits js.splits intro!: then_close then_send q p intro: c)
qed

lemma moves_commit:
  assumes "rg_routeId route = au_routeId auth" and "rg_ownerId route = au_ownerId auth"
    and "\<not> another_owner (auth_of (au_routeId auth) r) (t_find rg_routeId (au_routeId auth) (rl_routes r)) (au_ownerId auth)"
    and "\<And>a. auth_of (au_routeId auth) r = Some a \<Longrightarrow> assertMonotonicRouteAuthorization a auth = None"
    and "au_ownerId auth = None \<or> au_expiresAt auth \<noteq> None"
  shows "relay_moves op now r (snd (commit_registration op route auth previous now r))"
proof -
  let ?r2 = "case previous of Some g \<Rightarrow> if rg_loginId g \<noteq> rg_loginId route then logout (rg_loginId g) (rg_routeId route) r else r
      | None \<Rightarrow> r"
  have q2: "quiet r ?r2" by (auto split: option.splits)
  then have m2: "relay_moves op now r ?r2" by (rule moves_quiet)
  have same: "rl_auths ?r2 = rl_auths r" "rl_routes ?r2 = rl_routes r" "rl_next ?r2 = rl_next r"
    using q2 by (simp_all add: quiet_def)
  show ?thesis
  proof (cases "auth_of (au_routeId auth) r = None \<and> op_maxRouteAuthorizations op \<le> length (rl_auths r)")
    case True
    then have "snd (commit_registration op route auth previous now r) = ?r2"
      by (simp add: commit_registration_def authorizeRoute_def Let_def same)
    with m2 show ?thesis by simp
  next
    case False
    let ?r4 = "?r2\<lparr>rl_auths := t_put au_routeId (scheduleRouteExpiration now (auth\<lparr>au_id := rl_next ?r2\<rparr>)) (rl_auths ?r2),
      rl_routes := t_put rg_routeId route (rl_routes ?r2), rl_next := Suc (rl_next ?r2)\<rparr>"
    have "relay_move op now ?r2 ?r4"
      by (rule mv_register) (use assms False in \<open>auto simp: same\<close>)
    with m2 have m4: "relay_moves op now r ?r4" by (rule more_moves)
    have "quiet ?r4 (snd (commit_registration op route auth previous now r))"
      using False
      by (auto simp: commit_registration_def authorizeRoute_def Let_def same quiet_def bridge_tunnels_def ws_send_def ws_close_def
          split: option.splits if_splits)
    with m4 show ?thesis by (rule then_quiet)
  qed
qed

text \<open>A provisioned capability names the end of its provisioner, so its authorization ends.\<close>

lemma provisioned_expires:
  assumes "parseCapabilityParts c cap = Inr (body, sig, p)" and "isProvisionedCapability p"
  shows "cp_provisionerExpiresAt p \<noteq> None"
proof -
  obtain v where v: "isCapabilityPayload c v" "p = read_payload v"
    using assms(1) by (auto simp: parseCapabilityParts_def split: list.splits option.splits if_splits)
  have "js_prop v ''version'' = JNum 3 \<or> js_prop v ''version'' = JNum 4"
    using assms(2) v(2) by (auto simp: isProvisionedCapability_def read_payload_def split: js.splits)
  then have "provisioned_fields c v" using v(1) by (auto simp: isCapabilityPayload_def)
  then show ?thesis by (auto simp: provisioned_fields_def str_field_def v(2) read_payload_def split: js.splits)
qed

lemma verified_parts: "verifyCapability op cap now = Inr p \<Longrightarrow> \<exists>body sig. parseCapabilityParts (op_codec op) cap = Inr (body, sig, p)"
  by (auto simp: verifyCapability_def verifyRouteCapability_def split: option.splits sum.splits if_splits)

lemma registration_bounded:
  assumes "registration op s msg now = Inr (route, auth)"
  shows "au_ownerId auth = None \<or> au_expiresAt auth \<noteq> None"
proof -
  obtain cap p owner expires where x: "verifyCapability op cap now = Inr p"
    "routeCapabilityOwnerId (op_codec op) p (op_signingKey op) = Inr owner"
    "routeCapabilityEffectiveExpiration (op_codec op) cap = Inr expires"
    "au_ownerId auth = owner" "au_expiresAt auth = map_option (date_of (op_codec op)) expires"
    using assms by (auto simp: registration_def split: js.splits sum.splits if_splits)
  obtain body sig where parts: "parseCapabilityParts (op_codec op) cap = Inr (body, sig, p)" using verified_parts [OF x(1)] by blast
  show ?thesis
  proof (cases "isProvisionedCapability p")
    case True
    from provisioned_expires [OF parts True] True x(3) parts have "expires \<noteq> None"
      by (auto simp: routeCapabilityEffectiveExpiration_def Let_def List.map_filter_def split: list.splits option.splits if_splits)
    with x(5) show ?thesis by simp
  next
    case False
    with x(2,4) show ?thesis by (simp add: routeCapabilityOwnerId_def)
  qed
qed

lemma registration_route:
  "registration op s msg now = Inr (route, auth) \<Longrightarrow>
     rg_routeId route = au_routeId auth \<and> rg_ownerId route = au_ownerId auth \<and> rg_socket route = s \<and> au_timer auth = None"
  by (auto simp: registration_def split: js.splits sum.splits if_splits)

lemma moves_register: "relay_moves op now r (snd (relay_register op s msg now r))"
proof (cases "registration op s msg now")
  case (Inr x)
  obtain route auth where x: "x = (route, auth)" by (cases x)
  obtain prev r1 where c: "currentRouteAuthorization (rg_routeId route) now r = (prev, r1)"
    by (cases "currentRouteAuthorization (rg_routeId route) now r")
  note eq = registration_route [OF Inr [unfolded x]]
  have prev: "prev = auth_of (au_routeId auth) r1"
    using c eq by (auto elim!: current_cases simp: expire_fields t_find_delete_key)
  have m: "relay_moves op now r1 (snd (commit_registration op route auth previous now r1))"
    if "\<not> another_owner prev (t_find rg_routeId (rg_routeId route) (rl_routes r1)) (rg_ownerId route)"
      "\<And>a. prev = Some a \<Longrightarrow> assertMonotonicRouteAuthorization a auth = None" for previous
    using that eq registration_bounded [OF Inr [unfolded x]] by (intro moves_commit) (auto simp: prev)
  have m1: "relay_moves op now r r1" using c by (rule moves_current)
  show ?thesis
    using m1 rtranclp_trans [OF m1 m] Inr x c
    by (auto simp: relay_register_def Let_def split: option.splits)
qed (simp add: relay_register_def)

lemma moves_accept:
  assumes "s < rl_next r"
  shows "relay_moves op now r (snd (acceptTunnel op s msg now r))"
proof -
  have add: "relay_moves op now r (ws_send s Accepted (r1\<lparr>rl_pending := t_delete (\<lambda>x. pd_id x = cid) (rl_pending r1),
      rl_setups := rl_setups r1 @ [t], rl_next := Suc (rl_next r1), rl_waiting := w\<rparr>))"
    if here: "currentRouteAuthorization rid now r = (Some a, r1)" "pd_routeId p = rid" "t_find pd_id cid (rl_pending r) = Some p"
      "au_ownerId a = pd_ownerId p" "t = \<lparr>tn_id = rl_next r1, tn_routeId = rid, tn_ownerId = pd_ownerId p,
         tn_browser = pd_browser p, tn_agent = s\<rparr>" for rid cid p a r1 t w
  proof -
    have a: "r1 = r" "auth_of rid r = Some a" "\<not> expired_at now a" using here(1) by (auto elim: current_cases)
    then have "relay_move op now r (r\<lparr>rl_pending := t_delete (\<lambda>x. pd_id x = cid) (rl_pending r), rl_setups := rl_setups r @ [t],
        rl_next := Suc (rl_next r)\<rparr>)"
      using here(2-5) assms by (intro mv_accept [of cid r p a]) simp_all
    from then_quiet [OF one_move [OF this] quiet_sockets(6), of w] show ?thesis
      unfolding a(1) by (intro then_send) simp_all
  qed
  have drop: "relay_moves op now r (r1\<lparr>rl_pending := t_delete (\<lambda>x. pd_id x = cid) (rl_pending r1)\<rparr>)"
    if "currentRouteAuthorization rid now r = (x, r1)" for rid x r1 cid
    using moves_current [OF that] mv_drop_pending by (rule more_moves)
  show ?thesis
    by (auto simp: acceptTunnel_def Let_def split: js.splits sum.splits option.splits prod.splits
        intro: add drop moves_current)
qed

lemma prune_active: "t \<in> set (rl_active r) \<Longrightarrow> pruneRouteAuthorization (tn_routeId t) r = r"
proof -
  assume "t \<in> set (rl_active r)"
  then have "0 < t_count (\<lambda>x. tn_routeId x = tn_routeId t) (rl_active r)"
    using t_count_0 [of "\<lambda>x. tn_routeId x = tn_routeId t" "rl_active r"] by auto
  then show ?thesis by (simp add: pruneRouteAuthorization_def route_has_state_def)
qed

lemma moves_tunnel_ready: "relay_moves op now r (tunnel_ready t raw now r)"
proof -
  have go: "relay_moves op now r (ws_send (tn_browser t) Ready
      ((removePendingTunnelSetup t (r1\<lparr>rl_active := rl_active r1 @ [t]\<rparr>))
        \<lparr>rl_bridges := rl_bridges r1 @ [\<lparr>br_tunnel = t, br_closed = False, br_left = 0, br_right = 0\<rparr>]\<rparr>))"
    if here: "currentRouteAuthorization (tn_routeId t) now r = (Some a, r1)" "hasPendingTunnelSetup t r" for a r1
  proof -
    have a: "r1 = r" "auth_of (tn_routeId t) r = Some a" "\<not> expired_at now a" using here(1) by (auto elim: current_cases)
    have t: "t \<in> set (rl_setups r)" using here(2) by (simp add: hasPendingTunnelSetup_def)
    have "removePendingTunnelSetup t (r\<lparr>rl_active := rl_active r @ [t]\<rparr>) =
        r\<lparr>rl_active := rl_active r @ [t], rl_setups := t_delete (\<lambda>x. x = t) (rl_setups r)\<rparr>"
      using t by (simp add: removePendingTunnelSetup_def hasPendingTunnelSetup_def prune_active)
    with one_move [OF mv_activate [OF t a(2,3)], of op] show ?thesis
      unfolding a(1) by (intro then_send) (simp_all add: t)
  qed
  have fail: "relay_moves op now r (setup_failed t r1)" if "currentRouteAuthorization (tn_routeId t) now r = (x, r1)" for x r1
    using moves_current [OF that] moves_setup_failed by (rule rtranclp_trans)
  show ?thesis
    by (auto simp: tunnel_ready_def split: prod.splits option.splits intro: go fail moves_setup_failed)
qed

lemma moves_forward:
  assumes "t \<in> set (bridge_tunnels r)" and "target = tn_browser t \<or> target = tn_agent t"
    and "auth_of (tn_routeId t) r = Some a" and "\<not> expired_at now a"
  shows "relay_moves op now r (forward op t source target bytes buffered r)"
  using assms
  by (auto simp: forward_def intro!: then_close one_move [OF mv_forward] one_move [OF mv_forward_empty])

lemma moves_bridge_message:
  "b \<in> set (rl_bridges r) \<Longrightarrow> relay_moves op now r (bridge_message op b s bytes buffered now r)"
proof -
  assume b: "b \<in> set (rl_bridges r)"
  show ?thesis
  proof (cases "currentRouteAuthorization (tn_routeId (br_tunnel b)) now r")
    case (Pair x r1)
    show ?thesis
    proof (cases x)
      case None
      then show ?thesis using Pair moves_current [OF Pair] by (simp add: bridge_message_def)
    next
      case (Some a)
      then have "r1 = r" "auth_of (tn_routeId (br_tunnel b)) r = Some a" "\<not> expired_at now a"
        using Pair by (auto elim: current_cases)
      then show ?thesis
        using Pair Some b by (auto simp: bridge_message_def bridge_tunnels_def intro!: moves_forward)
    qed
  qed
qed

lemma moves_heartbeat: "relay_moves op now r (bridge_heartbeat op b now r)"
proof (cases "br_closed b")
  case False
  obtain x r1 where c: "currentRouteAuthorization (tn_routeId (br_tunnel b)) now r = (x, r1)"
    by (cases "currentRouteAuthorization (tn_routeId (br_tunnel b)) now r")
  note m = moves_current [OF c, of op]
  have p: "relay_moves op now r (ping_end s1 (ping_end s2 (set_bridge b' r1)))" for s1 s2 b'
    by (rule then_quiet [OF m], rule quiet_trans [OF quiet_set_bridge], rule quiet_trans [OF quiet_sockets(5)], rule quiet_sockets(5))
  show ?thesis
    using False c m p by (cases x) (auto simp: bridge_heartbeat_def Let_def)
qed (simp add: bridge_heartbeat_def)

lemma closePeer_commutes:
  "closePeer s code reason (pruneRouteAuthorization rid r) = pruneRouteAuthorization rid (closePeer s code reason r)"
  "closePeer s code reason (release_where p r) = release_where p (closePeer s code reason r)"
  "closePeer s code reason (set_bridge b r) = set_bridge b (closePeer s code reason r)"
  "closePeer s code reason (r\<lparr>rl_active := as\<rparr>) = (closePeer s code reason r)\<lparr>rl_active := as\<rparr>"
  by (simp_all add: closePeer_def ws_close_def pruneRouteAuthorization_def route_has_state_def release_where_def set_bridge_def
      split: option.splits)

lemma closePeer_finish: "closePeer s code reason (bridge_finish b r) = bridge_finish b (closePeer s code reason r)"
  by (simp add: bridge_finish_def removeActiveTunnel_def closePeer_commutes)

lemma closePeer_ready: "rl_ready (closePeer s code reason r) s \<noteq> OPEN"
  "rl_ready r x \<noteq> OPEN \<Longrightarrow> rl_ready (closePeer s code reason r) x \<noteq> OPEN"
  by (simp_all add: closePeer_def ws_close_def)

lemma moves_finish:
  assumes "rl_ready r (tn_browser (br_tunnel b)) \<noteq> OPEN" and "rl_ready r (tn_agent (br_tunnel b)) \<noteq> OPEN"
  shows "relay_moves op now r (bridge_finish b r)"
proof (cases "br_closed b")
  case False
  have "relay_moves op now r (release_where (\<lambda>x. rs_tunnel x = tn_id (br_tunnel b)) (set_bridge (b\<lparr>br_closed := True\<rparr>) r))"
    by (rule more_moves [OF moves_quiet [OF quiet_set_bridge] mv_release])
  then show ?thesis
    using False assms
    by (auto simp: bridge_finish_def intro: rtranclp_trans [OF _ moves_removeActive])
qed (simp add: bridge_finish_def)

lemma finish_ready [simp]: "rl_ready (bridge_finish b r) = rl_ready r"
  by (simp add: bridge_finish_def)

lemma moves_peer_closed:
  assumes "rl_ready r s \<noteq> OPEN"
  shows "relay_moves op now r (bridge_peer_closed s code reason b r)"
proof -
  have close: "relay_moves op now r (closePeer x code reason r)" for x by (intro moves_quiet quiet_sockets)
  have fin: "relay_moves op now r (bridge_finish b (closePeer x code reason r))"
    if "{tn_browser (br_tunnel b), tn_agent (br_tunnel b)} = {s, x}" for x
    using that assms
    by (intro rtranclp_trans [OF close moves_finish]) (auto simp: doubleton_eq_iff closePeer_ready)
  show ?thesis
    using fin by (auto simp: bridge_peer_closed_def Let_def closePeer_finish)
qed

lemma peer_closed_ready: "rl_ready r s \<noteq> OPEN \<Longrightarrow> rl_ready (bridge_peer_closed s' code reason b r) s \<noteq> OPEN"
  by (auto simp: bridge_peer_closed_def Let_def closePeer_finish closePeer_ready)

lemma moves_peers_closed:
  "rl_ready r s \<noteq> OPEN \<Longrightarrow> relay_moves op now r (fold (bridge_peer_closed s code reason) bs r)"
proof (induction bs arbitrary: r)
  case (Cons b bs)
  from Cons.IH [OF peer_closed_ready [OF Cons.prems], of s code reason b] moves_peer_closed [OF Cons.prems, of op now code reason b]
  show ?case by simp
qed simp

lemma moves_wait_failed: "relay_moves op now r (wait_failed s r)"
proof -
  have q: "relay_moves op now r (r\<lparr>rl_waiting := w\<rparr>)" for w by (intro moves_quiet quiet_sockets)
  show ?thesis
    by (auto simp: wait_failed_def Let_def split: option.splits relay_waiting.splits
        intro!: then_close q intro: rtranclp_trans [OF q moves_setup_failed])
qed

lemma moves_role_closed: "relay_moves op now r (role_closed s r)"
proof -
  have "relay_moves op now r (pruneRouteAuthorization rid (logout login rid
      (r\<lparr>rl_routes := t_delete (\<lambda>x. rg_routeId x = rid) (rl_routes r)\<rparr>)))" for rid login
    by (rule more_moves [OF then_quiet [OF one_move [OF mv_drop_route] quiet_sockets(4)] mv_prune])
  then show ?thesis
    by (auto simp: role_closed_def split: option.splits role.splits intro: moves_clearPending)
qed

lemma role_closed_ready [simp]: "rl_ready (role_closed s r) = rl_ready r"
  by (simp add: role_closed_def split: option.splits role.splits)

lemma forget_ready [simp]: "rl_ready (forget_socket s r) = rl_ready r"
  by (simp add: forget_socket_def split: option.splits)

lemma moves_socket_closed: "relay_moves op now r (socket_closed s code reason r)"
proof -
  define r0 where "r0 = r\<lparr>rl_ready := (rl_ready r)(s := CLOSED)\<rparr>"
  define r1 where "r1 = role_closed s (forget_socket s r0)"
  have "relay_moves op now r (forget_socket s r0)"
    unfolding r0_def by (rule more_moves [OF moves_quiet [OF quiet_closed] mv_forget])
  then have m1: "relay_moves op now r r1" unfolding r1_def using moves_role_closed by (rule rtranclp_trans)
  have "rl_ready r1 s \<noteq> OPEN" by (simp add: r1_def r0_def)
  from rtranclp_trans [OF m1 moves_peers_closed [OF this]] have "relay_moves op now r (fold (bridge_peer_closed s code reason) (rl_bridges r1) r1)" .
  from rtranclp_trans [OF this moves_wait_failed] show ?thesis
    by (simp add: socket_closed_def Let_def r1_def r0_def)
qed

lemma moves_first_message:
  assumes "s < rl_next r"
  shows "relay_moves op now r (snd (routeFirstMessage op s raw cid now r))"
  by (cases "parseRelayWireMessage raw")
    (simp_all add: routeFirstMessage_def moves_register moves_connect moves_lookup moves_accept assms split: prod.splits)

lemma moves_message:
  assumes "s < rl_next r"
  shows "relay_moves op now r (socket_message op s raw cid bytes buffered now r)"
proof -
  have q: "relay_moves op now r (r\<lparr>rl_waiting := w\<rparr>)" for w by (intro moves_quiet quiet_sockets)
  have first: "relay_moves op now r r1"
    if "routeFirstMessage op s raw cid now (r\<lparr>rl_waiting := w\<rparr>) = (e, r1)" for w e r1
    using rtranclp_trans [OF q [of w] moves_first_message [of s _ op now raw cid]] that assms by simp
  have br: "relay_moves op now r (bridge_message op b s bytes buffered now r)"
    if "find p (rl_bridges r) = Some b" for p b
    using that by (intro moves_bridge_message) (auto simp: find_Some_iff)
  show ?thesis
    by (auto simp: socket_message_def split: option.splits relay_waiting.splits prod.splits
        intro!: then_close intro: first br rtranclp_trans [OF q moves_tunnel_ready])
qed

lemma quiet_peer_failed: "quiet r (fold (bridge_peer_failed s) bs r)"
proof (induction bs arbitrary: r)
  case (Cons b bs)
  have "quiet r (bridge_peer_failed s b r)" by (auto simp: bridge_peer_failed_def Let_def)
  from quiet_trans [OF this Cons.IH] show ?case by simp
qed simp

text \<open>Every event is a sequence of moves.\<close>

lemma step_moves: "relay_moves op now r (relay_step op now e r)"
proof (cases e)
  case (Send_settled i failed target)
  then show ?thesis by (auto simp: send_settled_def Let_def intro!: then_close intro: one_move mv_release)
next
  case (Pong s)
  have "quiet r (bridge_pong s r)" unfolding bridge_pong_def by (intro quiet_bridges) simp
  then show ?thesis using Pong by (simp add: moves_quiet)
qed (auto split: option.splits intro: moves_message moves_wait_failed moves_pending_timeout moves_expiration_timer moves_heartbeat
    moves_socket_closed one_move mv_open moves_quiet quiet_peer_failed)

text \<open>Invariants of the moves are invariants of the server.\<close>

lemma moves_invariant:
  assumes "\<And>r r'. I r \<Longrightarrow> relay_move op now r r' \<Longrightarrow> I r'" and "relay_moves op now r r'" and "I r"
  shows "I r'"
  using assms(2,3) by (induction rule: rtranclp_induct) (blast intro: assms(1))+

lemma run_invariant:
  assumes "\<And>now e r r'. (now, e) \<in> set evs \<Longrightarrow> relay_move op now r r' \<Longrightarrow> I r \<Longrightarrow> I r'" and "I r"
  shows "I (relay_run op evs r)"
  using assms
proof (induction evs arbitrary: r)
  case (Cons x evs)
  obtain now e where x: "x = (now, e)" by (cases x)
  have "I (relay_step op now e r)"
    by (rule moves_invariant [of I op now, OF _ step_moves Cons.prems(2)]) (rule Cons.prems(1) [of now e], simp_all add: x)
  moreover have "I r''" if "(now', e') \<in> set evs" "relay_move op now' r' r''" "I r'" for now' e' r' r''
    by (rule Cons.prems(1) [of now' e', OF _ that(2,3)]) (use that(1) in simp)
  ultimately have "I (relay_run op evs (relay_step op now e r))" by (intro Cons.IH)
  then show ?case using x by (simp add: relay_run_def)
qed (simp add: relay_run_def)

end
