(* ===== verification/Relay_Safety.thy ===== *)
theory Relay_Safety
  imports Relay_Moves
begin

text \<open>
  The properties of the relay: the ownership of routes and tunnels, its limits, and the protection of a
  route against older capabilities. Each is shown for the moves of \<open>Relay_Moves\<close>.
\<close>

section \<open>Ownership\<close>

text \<open>The routes something of the relay's state belongs to, with the owner it belongs to.\<close>

definition claims :: "relay \<Rightarrow> (string \<times> string option) set" where
  "claims r = (\<lambda>g. (rg_routeId g, rg_ownerId g)) ` set (rl_routes r) \<union> (\<lambda>p. (pd_routeId p, pd_ownerId p)) ` set (rl_pending r) \<union>
     (\<lambda>t. (tn_routeId t, tn_ownerId t)) ` (set (rl_setups r) \<union> set (rl_active r))"

text \<open>Everything that belongs to a route is covered by an authorization of the route for the same owner.\<close>

definition covered :: "relay \<Rightarrow> bool" where
  "covered r \<longleftrightarrow> t_keyed au_routeId (rl_auths r) \<and> t_keyed rg_routeId (rl_routes r) \<and>
     (\<forall>(rid, owner) \<in> claims r. \<exists>a. auth_of rid r = Some a \<and> au_ownerId a = owner)"

lemma coveredD: "covered r \<Longrightarrow> (rid, owner) \<in> claims r \<Longrightarrow> \<exists>a. auth_of rid r = Some a \<and> au_ownerId a = owner"
  by (auto simp: covered_def)

lemma coveredI:
  "t_keyed au_routeId (rl_auths r) \<Longrightarrow> t_keyed rg_routeId (rl_routes r) \<Longrightarrow>
   (\<And>rid owner. (rid, owner) \<in> claims r \<Longrightarrow> \<exists>a. auth_of rid r = Some a \<and> au_ownerId a = owner) \<Longrightarrow> covered r"
  by (auto simp: covered_def)

lemma schedule_simps [simp]:
  "au_routeId (scheduleRouteExpiration now a) = au_routeId a" "au_ownerId (scheduleRouteExpiration now a) = au_ownerId a"
  "au_expiresAt (scheduleRouteExpiration now a) = au_expiresAt a" "au_issuedAt (scheduleRouteExpiration now a) = au_issuedAt a"
  "au_digest (scheduleRouteExpiration now a) = au_digest a" "au_id (scheduleRouteExpiration now a) = au_id a"
  by (simp_all add: scheduleRouteExpiration_def)

lemma covered_shrink:
  "covered r \<Longrightarrow> rl_auths r' = rl_auths r \<Longrightarrow> t_keyed rg_routeId (rl_routes r') \<Longrightarrow> claims r' \<subseteq> claims r \<Longrightarrow> covered r'"
  unfolding covered_def by fastforce

lemma covered_cong:
  "rl_auths r' = rl_auths r \<Longrightarrow> rl_routes r' = rl_routes r \<Longrightarrow> rl_pending r' = rl_pending r \<Longrightarrow>
   rl_setups r' = rl_setups r \<Longrightarrow> rl_active r' = rl_active r \<Longrightarrow> covered r' = covered r"
  by (simp add: covered_def claims_def)

lemma route_has_state_claims: "route_has_state rid r \<longleftrightarrow> (\<exists>owner. (rid, owner) \<in> claims r)"
proof -
  have count: "0 < t_count p xs \<longleftrightarrow> (\<exists>x \<in> set xs. p x)" for p and xs :: "'x list"
    using t_count_0 [of p xs] by auto
  show ?thesis by (auto simp: route_has_state_def claims_def t_find_None count)
qed

lemma claims_prune [simp]: "claims (pruneRouteAuthorization rid r) = claims r"
  by (simp add: claims_def)

lemma prune_cases:
  obtains (same) "pruneRouteAuthorization rid r = r"
    | (pruned) a where "\<not> route_has_state rid r" "auth_of rid r = Some a" "au_expiresAt a = None"
      "rl_auths (pruneRouteAuthorization rid r) = t_delete (\<lambda>x. au_routeId x = rid) (rl_auths r)"
proof (cases "route_has_state rid r \<or> auth_of rid r = None \<or> au_expiresAt (the (auth_of rid r)) \<noteq> None")
  case True
  then have "pruneRouteAuthorization rid r = r"
    by (cases "auth_of rid r") (auto simp: pruneRouteAuthorization_def)
  then show thesis by (rule same)
next
  case False
  then show thesis using pruned by (auto simp: pruneRouteAuthorization_def)
qed

lemma covered_prune: "covered r \<Longrightarrow> covered (pruneRouteAuthorization rid r)"
proof (cases rule: prune_cases [of rid r])
  case (pruned a)
  assume c: "covered r"
  have "auth_of rid' (pruneRouteAuthorization rid r) = auth_of rid' r" if "(rid', owner) \<in> claims r" for rid' owner
    using pruned that by (auto simp: t_find_delete_key route_has_state_claims)
  then show ?thesis using c pruned(4) by (auto simp: covered_def)
qed simp

lemma claims_mono:
  "set (rl_routes r') \<subseteq> set (rl_routes r) \<Longrightarrow> set (rl_pending r') \<subseteq> set (rl_pending r) \<Longrightarrow>
   set (rl_setups r') \<subseteq> set (rl_setups r) \<Longrightarrow> set (rl_active r') \<subseteq> set (rl_active r) \<Longrightarrow> claims r' \<subseteq> claims r"
  by (auto simp: claims_def)

lemma covered_remove:
  "covered r \<Longrightarrow> covered (r\<lparr>rl_pending := t_delete p (rl_pending r)\<rparr>)"
  "covered r \<Longrightarrow> covered (r\<lparr>rl_setups := t_delete q (rl_setups r)\<rparr>)"
  "covered r \<Longrightarrow> covered (r\<lparr>rl_active := t_delete q (rl_active r)\<rparr>)"
  by (rule covered_shrink; (intro claims_mono)?; auto simp: covered_def set_t_delete)+

lemma covered_clearPending: "covered r \<Longrightarrow> covered (clearPending cid r)"
  by (auto simp: clearPending_def covered_prune covered_remove split: option.splits)

lemma covered_removeSetup: "covered r \<Longrightarrow> covered (removePendingTunnelSetup t r)"
  by (auto simp: removePendingTunnelSetup_def covered_prune covered_remove)

lemma covered_removeActive: "covered r \<Longrightarrow> covered (removeActiveTunnel t r)"
  by (auto simp: removeActiveTunnel_def covered_prune covered_remove)

lemma claims_expire:
  assumes "auth_of rid r = Some a"
  shows "claims (expireRouteAuthorization rid (au_id a) r) = {c \<in> claims r. fst c \<noteq> rid}"
  using expire_fields [OF assms] by (auto simp: claims_def set_t_delete)

lemma expire_other: "(\<And>a. auth_of rid r = Some a \<Longrightarrow> au_id a \<noteq> i) \<Longrightarrow> expireRouteAuthorization rid i r = r"
  by (auto simp: expireRouteAuthorization_def split: option.splits)

lemma covered_expire: "covered r \<Longrightarrow> covered (expireRouteAuthorization rid i r)"
proof (cases "\<exists>a. auth_of rid r = Some a \<and> au_id a = i")
  case True
  then obtain a where a: "auth_of rid r = Some a" "au_id a = i" by blast
  assume "covered r"
  then show ?thesis
    using expire_fields [OF a(1)] claims_expire [OF a(1)] unfolding a(2)
    by (auto simp: covered_def t_find_delete_key)
qed (metis expire_other)

lemma covered_current: "covered r \<Longrightarrow> currentRouteAuthorization rid now r = (x, r') \<Longrightarrow> covered r'"
  by (erule current_cases) (auto simp: covered_expire)

lemma current_None_claims:
  assumes "covered r" and "currentRouteAuthorization rid now r = (None, r')"
  shows "(rid, owner) \<notin> claims r' \<and> auth_of rid r' = None"
  using assms(2)
proof (cases rule: current_cases)
  case none
  then show ?thesis using coveredD [OF assms(1)] by force
next
  case (expired a)
  then show ?thesis by (simp add: claims_expire expire_fields t_find_delete_key)
qed simp

text \<open>Adding something for an owner whose authorization is there.\<close>

lemma covered_grow:
  assumes "covered r" and "auth_of rid r = Some a" and "rl_auths r' = rl_auths r" and "rl_routes r' = rl_routes r"
    and "claims r' \<subseteq> insert (rid, au_ownerId a) (claims r)"
  shows "covered r'"
  using assms unfolding covered_def by fastforce

lemma covered_add:
  assumes "covered r" and "auth_of rid r = Some a"
  shows "pd_routeId p = rid \<Longrightarrow> pd_ownerId p = au_ownerId a \<Longrightarrow> covered (r\<lparr>rl_pending := t_put pd_id p (rl_pending r)\<rparr>)"
    and "tn_routeId t = rid \<Longrightarrow> tn_ownerId t = au_ownerId a \<Longrightarrow> covered (r\<lparr>rl_setups := rl_setups r @ [t]\<rparr>)"
    and "tn_routeId t = rid \<Longrightarrow> tn_ownerId t = au_ownerId a \<Longrightarrow> covered (r\<lparr>rl_active := rl_active r @ [t]\<rparr>)"
  by (auto intro!: covered_grow [OF assms] simp: claims_def dest!: subsetD [OF set_put])

lemma covered_current_route:
  assumes "covered r" and "currentRegisteredRoute rid now r = (Some g, r')"
  obtains a where "r' = r" and "auth_of rid r = Some a" and "\<not> expired_at now a" and "rg_routeId g = rid" and "g \<in> set (rl_routes r)"
    and "au_ownerId a = rg_ownerId g"
proof -
  obtain a where c: "currentRouteAuthorization rid now r = (Some a, r')" and g: "t_find rg_routeId rid (rl_routes r') = Some g"
    using current_route_Some [OF assms(2)] by blast
  from c have a: "r' = r" "auth_of rid r = Some a" "\<not> expired_at now a" by (auto elim: current_cases)
  have m: "g \<in> set (rl_routes r)" "rg_routeId g = rid" using g a(1) by (auto dest: t_find_Some)
  then have "(rid, rg_ownerId g) \<in> claims r" by (auto simp: claims_def)
  then have "au_ownerId a = rg_ownerId g" using coveredD [OF assms(1)] a(2) by fastforce
  with a m that show thesis by blast
qed

lemma covered_current_registered: "covered r \<Longrightarrow> covered (snd (currentRegisteredRoute rid now r))"
  by (auto simp: currentRegisteredRoute_def split: prod.splits option.splits dest: covered_current)

lemma claims_finish: "claims (r\<lparr>rl_active := t_delete p (rl_active r)\<rparr>) \<subseteq> claims r"
  by (rule claims_mono) (auto simp: set_t_delete)

lemma owner_of_previous:
  assumes "covered r" and "auth_of rid r = Some a" and "\<not> another_owner (Some a) (t_find rg_routeId rid (rl_routes r)) owner"
  shows "au_ownerId a = owner"
proof (cases "au_ownerId a")
  case None
  show ?thesis
  proof (cases "t_find rg_routeId rid (rl_routes r)")
    case (Some g)
    then have "(rid, rg_ownerId g) \<in> claims r" by (auto simp: claims_def dest!: t_find_Some)
    then have "rg_ownerId g = None" using coveredD [OF assms(1)] assms(2) None by fastforce
    then show ?thesis using assms(3) None Some by (simp add: another_owner_def)
  qed (use assms(3) None in \<open>simp add: another_owner_def\<close>)
qed (use assms(3) in \<open>simp add: another_owner_def\<close>)

lemma covered_register:
  assumes "covered r" and "rg_routeId route = au_routeId auth" and "rg_ownerId route = au_ownerId auth"
    and "\<not> another_owner (auth_of (au_routeId auth) r) (t_find rg_routeId (au_routeId auth) (rl_routes r)) (au_ownerId auth)"
  shows "covered (r\<lparr>rl_auths := t_put au_routeId (scheduleRouteExpiration now (auth\<lparr>au_id := n\<rparr>)) (rl_auths r),
      rl_routes := t_put rg_routeId route (rl_routes r), rl_next := m\<rparr>)" (is "covered ?r'")
proof -
  have "owner = au_ownerId auth" if c: "(au_routeId auth, owner) \<in> claims r" for owner
  proof -
    obtain a where a: "auth_of (au_routeId auth) r = Some a" "au_ownerId a = owner" using coveredD [OF assms(1) c] by blast
    with owner_of_previous [OF assms(1) a(1)] assms(4) show ?thesis by simp
  qed
  moreover have "claims ?r' \<subseteq> insert (au_routeId auth, au_ownerId auth) (claims r)"
    using assms(2,3) by (auto simp: claims_def dest!: subsetD [OF set_put])
  ultimately have split: "(rid = au_routeId auth \<and> owner = au_ownerId auth) \<or> (rid \<noteq> au_routeId auth \<and> (rid, owner) \<in> claims r)"
    if "(rid, owner) \<in> claims ?r'" for rid owner
    using that by blast
  have "\<exists>a. auth_of rid ?r' = Some a \<and> au_ownerId a = owner" if "(rid, owner) \<in> claims ?r'" for rid owner
    using split [OF that] coveredD [OF assms(1), of rid owner] by (auto simp: t_find_put)
  then show ?thesis
    using assms(1) by (intro coveredI) (simp_all add: t_keyed_put covered_def)
qed

lemma claims_auths [simp]: "claims (r\<lparr>rl_auths := as\<rparr>) = claims r"
  by (simp add: claims_def)

lemma covered_reschedule:
  assumes "covered r" and "auth_of rid r = Some a"
  shows "covered (r\<lparr>rl_auths := t_put au_routeId (scheduleRouteExpiration now a) (rl_auths r)\<rparr>)"
proof (rule coveredI)
  have rid: "au_routeId a = rid" using assms(2) by (rule t_find_SomeD)
  fix rid' owner
  assume "(rid', owner) \<in> claims (r\<lparr>rl_auths := t_put au_routeId (scheduleRouteExpiration now a) (rl_auths r)\<rparr>)"
  then have "\<exists>b. auth_of rid' r = Some b \<and> au_ownerId b = owner" using coveredD [OF assms(1)] by simp
  then show "\<exists>b. auth_of rid' (r\<lparr>rl_auths := t_put au_routeId (scheduleRouteExpiration now a) (rl_auths r)\<rparr>) = Some b \<and> au_ownerId b = owner"
    using assms(2) rid by (auto simp: t_find_put)
qed (use assms(1) in \<open>simp_all add: covered_def t_keyed_put\<close>)

lemma covered_move: "relay_move op now r r' \<Longrightarrow> covered r \<Longrightarrow> covered r'"
proof (induction rule: relay_move.induct)
  case (mv_quiet r r')
  then show ?case by (simp add: quiet_def covered_cong [of r' r])
next
  case (mv_pend rid r a g cid s)
  have g: "g \<in> set (rl_routes r)" "rg_routeId g = rid" using mv_pend.hyps(3) by (auto dest: t_find_Some)
  then have "(rid, rg_ownerId g) \<in> claims r" by (auto simp: claims_def)
  then have "au_ownerId a = rg_ownerId g" using coveredD [OF mv_pend.prems] mv_pend.hyps(1) by fastforce
  then show ?case by (intro covered_add(1) [OF mv_pend.prems mv_pend.hyps(1)]) simp_all
next
  case (mv_accept cid r p a t)
  have "covered (r\<lparr>rl_setups := rl_setups r @ [t]\<rparr>)"
    by (rule covered_add(2) [OF mv_accept.prems mv_accept.hyps(2)]) (use mv_accept.hyps in simp_all)
  from covered_remove(1) [OF this, of "\<lambda>x. pd_id x = cid"] show ?case
    by (subst covered_cong [where r = "r\<lparr>rl_setups := rl_setups r @ [t], rl_pending := t_delete (\<lambda>x. pd_id x = cid) (rl_pending r)\<rparr>"]) simp_all
next
  case (mv_activate t r a)
  have "claims (r\<lparr>rl_active := rl_active r @ [t], rl_setups := t_delete (\<lambda>x. x = t) (rl_setups r),
      rl_bridges := rl_bridges r @ [\<lparr>br_tunnel = t, br_closed = False, br_left = 0, br_right = 0\<rparr>]\<rparr>) \<subseteq> claims r"
    using mv_activate.hyps(1) by (auto simp: claims_def set_t_delete)
  then show ?case by (intro covered_shrink [OF mv_activate.prems]) (use mv_activate.prems in \<open>auto simp: covered_def\<close>)
next
  case (mv_open r address)
  have "covered (accept_socket op address r) = covered r"
    by (rule covered_cong) (simp_all add: accept_socket_def Let_def)
  with mv_open show ?case by simp
next
  case (mv_forget r s)
  have "covered (forget_socket s r) = covered r"
    by (rule covered_cong) (simp_all add: forget_socket_def split: option.splits)
  with mv_forget show ?case by simp
next
  case (mv_drop_route r rid)
  have "claims (r\<lparr>rl_routes := t_delete (\<lambda>g. rg_routeId g = rid) (rl_routes r)\<rparr>) \<subseteq> claims r"
    by (rule claims_mono) (auto simp: set_t_delete)
  then show ?case by (intro covered_shrink [OF mv_drop_route.prems]) (use mv_drop_route.prems in \<open>auto simp: covered_def\<close>)
next
  case (mv_forward t r target a bytes)
  then show ?case by (simp add: covered_def claims_def)
next
  case (mv_forward_empty t r target a)
  then show ?case by (simp add: covered_def claims_def)
next
  case (mv_release r p)
  then show ?case by (simp add: covered_def claims_def)
qed (auto simp: covered_expire covered_prune covered_reschedule covered_register covered_remove)

section \<open>Bridges\<close>

text \<open>
  A bridge whose tunnel is no longer active has both sockets closing; sockets of tunnels exist.
\<close>

definition bridges_ok :: "relay \<Rightarrow> bool" where
  "bridges_ok r \<longleftrightarrow>
     (\<forall>t \<in> set (bridge_tunnels r). t \<in> set (rl_active r) \<or> (rl_ready r (tn_browser t) \<noteq> OPEN \<and> rl_ready r (tn_agent t) \<noteq> OPEN)) \<and>
     (\<forall>t \<in> set (rl_setups r) \<union> set (rl_active r) \<union> set (bridge_tunnels r). tn_browser t < rl_next r \<and> tn_agent t < rl_next r) \<and>
     (\<forall>p \<in> set (rl_pending r). pd_browser p < rl_next r)"

lemma expired_close_ready:
  "rl_ready (closeForExpiredRouteAuthorization s r) x = (if x = s \<and> rl_ready r s = OPEN then CLOSING else rl_ready r x)"
  by (simp add: closeForExpiredRouteAuthorization_def ws_close_def)

lemma close_all_ready:
  "rl_ready (fold closeForExpiredRouteAuthorization ss r) x = (if x \<in> set ss \<and> rl_ready r x = OPEN then CLOSING else rl_ready r x)"
  by (induction ss arbitrary: r) (auto simp: expired_close_ready)

lemma expire_ready:
  assumes "auth_of rid r = Some a"
  shows "(t \<in> set (rl_setups r) \<union> set (rl_active r) \<and> tn_routeId t = rid \<and> (x = tn_browser t \<or> x = tn_agent t) \<longrightarrow>
      rl_ready (expireRouteAuthorization rid (au_id a) r) x \<noteq> OPEN) \<and>
    (rl_ready (expireRouteAuthorization rid (au_id a) r) x = OPEN \<longrightarrow> rl_ready r x = OPEN)"
  using assms by (auto simp: expireRouteAuthorization_def Let_def close_all_ready split: option.splits)

lemma bridges_expire: "bridges_ok r \<Longrightarrow> auth_of rid r = Some a \<Longrightarrow> bridges_ok (expireRouteAuthorization rid (au_id a) r)"
  unfolding bridges_ok_def bridge_tunnels_def
  using expire_ready [of rid r a] by (auto simp: expire_fields set_t_delete)

lemma bridges_move: "relay_move op now r r' \<Longrightarrow> bridges_ok r \<Longrightarrow> bridges_ok r'"
proof (induction rule: relay_move.induct)
  case (mv_quiet r r')
  then show ?case by (auto simp: quiet_def bridges_ok_def)
next
  case (mv_open r address)
  then have "tn_browser t \<noteq> rl_next r \<and> tn_agent t \<noteq> rl_next r" if "t \<in> set (bridge_tunnels r)" for t
    using that unfolding bridges_ok_def by (metis UnCI less_irrefl)
  with mv_open show ?case
    by (auto simp: bridges_ok_def bridge_tunnels_def accept_socket_def Let_def ws_close_def less_Suc_eq)
next
  case (mv_forget r s)
  then show ?case by (simp add: bridges_ok_def bridge_tunnels_def forget_socket_def split: option.splits)
next
  case (mv_expire rid r a)
  then show ?case by (intro bridges_expire)
next
  case (mv_pend rid r a g cid s)
  then show ?case by (auto simp: bridges_ok_def bridge_tunnels_def dest!: subsetD [OF set_put])
next
  case (mv_accept cid r p a t)
  then have "p \<in> set (rl_pending r)" by (auto dest: t_find_Some)
  with mv_accept show ?case
    by (auto simp: bridges_ok_def bridge_tunnels_def set_t_delete less_Suc_eq)
qed (auto simp: bridges_ok_def bridge_tunnels_def set_t_delete ws_send_def less_Suc_eq)

section \<open>Limits\<close>

text \<open>Sockets per address and in all.\<close>

definition sockets_ok :: "relay_options \<Rightarrow> relay \<Rightarrow> bool" where
  "sockets_ok op r \<longleftrightarrow> length (rl_sockets r) \<le> MAX_RELAY_SOCKETS \<and> distinct (map fst (rl_sockets r)) \<and>
     (\<forall>s \<in> fst ` set (rl_sockets r). s < rl_next r) \<and>
     rl_by_address r = (\<lambda>a. t_count (\<lambda>x. snd x = a) (rl_sockets r)) \<and>
     (\<forall>a. t_count (\<lambda>x. snd x = a) (rl_sockets r) \<le> op_maxSocketsPerAddress op)"

lemma count_forget:
  assumes "distinct (map fst xs)" and "map_of xs s = Some a"
  shows "t_count (\<lambda>x. snd x = b) (filter (\<lambda>x. fst x \<noteq> s) xs) = t_count (\<lambda>x. snd x = b) xs - (if b = a then 1 else 0)"
proof -
  have "t_find fst s xs = Some (s, a)"
    using assms(2) by (induction xs) (auto split: if_splits)
  with t_count_delete_key [of fst xs s "(s, a)" "\<lambda>x. snd x = b"] assms(1) show ?thesis
    by (auto simp: t_keyed_def t_delete_def)
qed

lemma sockets_cong:
  "rl_sockets r' = rl_sockets r \<Longrightarrow> rl_by_address r' = rl_by_address r \<Longrightarrow> rl_next r \<le> rl_next r' \<Longrightarrow> sockets_ok op r \<Longrightarrow> sockets_ok op r'"
  by (auto simp: sockets_ok_def)

lemma sockets_open: "sockets_ok op r \<Longrightarrow> sockets_ok op (accept_socket op address r)"
  by (auto simp: sockets_ok_def accept_socket_def Let_def less_Suc_eq fun_eq_iff not_le Suc_le_eq)

lemma sockets_forget: "sockets_ok op r \<Longrightarrow> sockets_ok op (forget_socket s r)"
proof (cases "map_of (rl_sockets r) s")
  case (Some a)
  assume ok: "sockets_ok op r"
  then have c: "t_count (\<lambda>x. snd x = b) (filter (\<lambda>x. fst x \<noteq> s) (rl_sockets r)) =
      t_count (\<lambda>x. snd x = b) (rl_sockets r) - (if b = a then 1 else 0)" for b
    using count_forget [OF _ Some, of b] by (simp add: sockets_ok_def)
  have n: "length (filter (\<lambda>x. fst x \<noteq> s) (rl_sockets r)) \<le> MAX_RELAY_SOCKETS"
    using ok by (auto simp: sockets_ok_def intro: le_trans [OF length_filter_le])
  have "t_count (\<lambda>x. snd x = b) (rl_sockets r) - n \<le> op_maxSocketsPerAddress op" for b n
    using ok by (auto simp: sockets_ok_def intro: le_trans [OF diff_le_self])
  then show ?thesis
    using ok Some n by (auto simp: sockets_ok_def forget_socket_def distinct_map_filter c fun_eq_iff)
qed (simp add: forget_socket_def)

lemma sockets_move: "relay_move op now r r' \<Longrightarrow> sockets_ok op r \<Longrightarrow> sockets_ok op r'"
proof (induction rule: relay_move.induct)
  case (mv_quiet r r')
  then show ?case by (auto simp: quiet_def intro: sockets_cong [of r' r])
qed (auto simp: sockets_open sockets_forget ws_send_def intro: sockets_cong)

text \<open>Reserved bytes: what is reserved is what the outstanding reservations add up to.\<close>

definition bytes_ok :: "relay_options \<Rightarrow> relay \<Rightarrow> bool" where
  "bytes_ok op r \<longleftrightarrow> rl_reserved r = sum_list (map rs_bytes (rl_reservations r)) \<and> (\<forall>x \<in> set (rl_reservations r). 0 < rs_bytes x) \<and>
     (rl_reservations r \<noteq> [] \<longrightarrow> sum_list (map rs_bytes (rl_reservations r)) \<le> op_maxRelayBufferedBytes op)"

lemma fold_release:
  "(\<And>x. x \<in> set xs \<Longrightarrow> 0 \<le> f x) \<Longrightarrow> sum_list (map f xs) \<le> n \<Longrightarrow>
     fold (\<lambda>x n. max 0 (n - f x)) xs n = n - (sum_list (map f xs) :: int)"
proof (induction xs arbitrary: n)
  case (Cons x xs)
  have "0 \<le> sum_list (map f xs)" using Cons.prems(1) by (intro sum_list_nonneg) auto
  then show ?case using Cons.IH [of "n - f x"] Cons.prems by (simp add: max_def)
qed simp

lemma sum_split: "sum_list (map f xs) = sum_list (map f (filter p xs)) + sum_list (map f (t_delete p xs) :: int list)"
  by (induction xs) auto

lemma bytes_release:
  assumes "bytes_ok op r"
  shows "bytes_ok op (release_where p r)"
proof -
  have nonneg: "0 \<le> rs_bytes x" if "x \<in> set (rl_reservations r)" for x
    using assms that by (auto simp: bytes_ok_def less_imp_le)
  then have pos: "0 \<le> sum_list (map rs_bytes (filter p (rl_reservations r)))" "0 \<le> sum_list (map rs_bytes (t_delete p (rl_reservations r)))"
    by (auto simp: set_t_delete intro!: sum_list_nonneg)
  have "rl_reserved (release_where p r) = sum_list (map rs_bytes (t_delete p (rl_reservations r)))"
    using assms pos sum_split [of rs_bytes "rl_reservations r" p]
    by (simp add: release_where_def bytes_ok_def) (subst fold_release, auto simp: less_imp_le)
  then show ?thesis
    using assms pos sum_split [of rs_bytes "rl_reservations r" p]
    by (auto simp: bytes_ok_def release_where_def set_t_delete)
qed

lemma bytes_move: "relay_move op now r r' \<Longrightarrow> bytes_ok op r \<Longrightarrow> bytes_ok op r'"
proof (induction rule: relay_move.induct)
  case (mv_quiet r r')
  then show ?case by (simp add: quiet_def bytes_ok_def)
next
  case (mv_forward t r target a bytes)
  then show ?case by (auto simp: bytes_ok_def reserve_def ws_send_def)
next
  case (mv_release r p)
  then show ?case by (intro bytes_release)
qed (auto simp: bytes_ok_def accept_socket_def forget_socket_def ws_send_def Let_def split: option.splits)

text \<open>Authorizations, pending connections and the load of a route.\<close>

definition load_ok :: "relay_options \<Rightarrow> relay \<Rightarrow> bool" where
  "load_ok op r \<longleftrightarrow> t_keyed pd_id (rl_pending r) \<and> length (rl_auths r) \<le> op_maxRouteAuthorizations op \<and>
     length (rl_pending r) \<le> MAX_PENDING_CONNECTIONS \<and> (\<forall>rid. route_load rid r \<le> MAX_CONNECTIONS_PER_ROUTE)"

lemma length_t_delete: "length (t_delete p rows) \<le> length rows"
  by (simp add: t_delete_def)

lemma count_put: "t_keyed key rows \<Longrightarrow> t_count p (t_put key row rows) \<le> t_count p rows + (if p row then 1 else 0)"
proof (cases "t_find key (key row) rows")
  case (Some x)
  assume k: "t_keyed key rows"
  have "t_count p (t_update (\<lambda>x. key x = key row) (\<lambda>_. row) rows) \<le>
      t_count p (t_delete (\<lambda>x. key x = key row) rows) + (if p row then t_count (\<lambda>x. key x = key row) rows else 0)"
    by (induction rows) auto
  moreover have "t_count (\<lambda>x. key x = key row) rows \<le> 1" by (rule t_count_le_1 [OF k])
  ultimately show ?thesis
    using Some t_count_delete_le [of p "\<lambda>x. key x = key row" rows] by (auto simp: t_put_def)
qed (simp add: t_put_def)

lemma count_delete_member: "t \<in> set rows \<Longrightarrow> p t \<Longrightarrow> Suc (t_count p (t_delete (\<lambda>x. x = t) rows)) \<le> t_count p rows"
  using t_count_delete_le [of p "\<lambda>x. x = t"] by (induction rows) (auto simp: le_SucI)

lemma load_mono:
  "load_ok op r \<Longrightarrow> t_keyed pd_id (rl_pending r') \<Longrightarrow> length (rl_auths r') \<le> op_maxRouteAuthorizations op \<Longrightarrow>
   length (rl_pending r') \<le> MAX_PENDING_CONNECTIONS \<Longrightarrow> (\<And>rid. route_load rid r' \<le> route_load rid r) \<Longrightarrow> load_ok op r'"
  by (auto simp: load_ok_def intro: le_trans)

lemma load_fewer:
  assumes "load_ok op r" and "length (rl_auths r') \<le> length (rl_auths r)" and "rl_pending r' = t_delete p (rl_pending r)"
    and "rl_setups r' = t_delete q (rl_setups r)" and "rl_active r' = t_delete q' (rl_active r)"
  shows "load_ok op r'"
proof (rule load_mono [OF assms(1)])
  show "length (rl_pending r') \<le> MAX_PENDING_CONNECTIONS"
    using assms(1,3) length_t_delete [of p "rl_pending r"] by (simp add: load_ok_def)
  show "route_load rid r' \<le> route_load rid r" for rid
    using assms(3-5) by (simp add: route_load_def add_mono t_count_delete_le)
qed (use assms(1-3) in \<open>auto simp: load_ok_def\<close>)

lemma delete_none: "t_delete (\<lambda>_. False) rows = rows"
  by (simp add: t_delete_def)

lemma load_cong:
  "load_ok op r \<Longrightarrow> length (rl_auths r') \<le> length (rl_auths r) \<Longrightarrow> rl_pending r' = rl_pending r \<Longrightarrow>
   rl_setups r' = rl_setups r \<Longrightarrow> rl_active r' = rl_active r \<Longrightarrow> load_ok op r'"
  by (rule load_fewer [where p = "\<lambda>_. False" and q = "\<lambda>_. False" and q' = "\<lambda>_. False"]) (simp_all add: delete_none)

lemma load_drop:
  "load_ok op r \<Longrightarrow> load_ok op (r\<lparr>rl_pending := t_delete p (rl_pending r)\<rparr>)"
  "load_ok op r \<Longrightarrow> load_ok op (r\<lparr>rl_setups := t_delete q (rl_setups r)\<rparr>)"
  "load_ok op r \<Longrightarrow> load_ok op (r\<lparr>rl_active := t_delete q (rl_active r)\<rparr>)"
  subgoal by (rule load_fewer [where r = r and p = p and q = "\<lambda>_. False" and q' = "\<lambda>_. False"]) (simp_all add: delete_none)
  subgoal by (rule load_fewer [where r = r and p = "\<lambda>_. False" and q = q and q' = "\<lambda>_. False"]) (simp_all add: delete_none)
  subgoal by (rule load_fewer [where r = r and p = "\<lambda>_. False" and q = "\<lambda>_. False" and q' = q]) (simp_all add: delete_none)
  done

lemma load_expire: "load_ok op r \<Longrightarrow> auth_of rid r = Some a \<Longrightarrow> load_ok op (expireRouteAuthorization rid (au_id a) r)"
  by (rule load_fewer [of op r]) (simp_all add: expire_fields length_t_delete)

lemma load_prune: "load_ok op r \<Longrightarrow> load_ok op (pruneRouteAuthorization rid r)"
  by (rule load_cong [of op r]) (simp_all add: pruneRouteAuthorization_def length_t_delete split: option.splits)

lemma load_register:
  assumes "load_ok op r" and "auth_of (au_routeId auth) r \<noteq> None \<or> length (rl_auths r) < op_maxRouteAuthorizations op"
    and "rl_auths r' = t_put au_routeId (scheduleRouteExpiration now (auth\<lparr>au_id := n\<rparr>)) (rl_auths r)"
    and "rl_pending r' = rl_pending r" "rl_setups r' = rl_setups r" "rl_active r' = rl_active r"
  shows "load_ok op r'"
  using assms by (auto simp: load_ok_def route_load_def length_put)

lemma load_pend:
  assumes "load_ok op r" and "length (rl_pending r) < MAX_PENDING_CONNECTIONS" and "route_load (pd_routeId p) r < MAX_CONNECTIONS_PER_ROUTE"
  shows "load_ok op (r\<lparr>rl_pending := t_put pd_id p (rl_pending r)\<rparr>)"
proof -
  have "route_load rid (r\<lparr>rl_pending := t_put pd_id p (rl_pending r)\<rparr>) \<le> MAX_CONNECTIONS_PER_ROUTE" for rid
    using assms count_put [of pd_id "rl_pending r" "\<lambda>x. pd_routeId x = rid" p]
    by (cases "pd_routeId p = rid") (auto simp: load_ok_def route_load_def dest!: spec [of _ rid])
  then show ?thesis using assms by (simp add: load_ok_def t_keyed_put length_put Suc_le_eq)
qed

lemma load_accept:
  assumes "load_ok op r" and "t_find pd_id cid (rl_pending r) = Some p" and "tn_routeId t = pd_routeId p"
    and "rl_pending r' = t_delete (\<lambda>x. pd_id x = cid) (rl_pending r)" and "rl_setups r' = rl_setups r @ [t]"
    and "rl_active r' = rl_active r" and "rl_auths r' = rl_auths r"
  shows "load_ok op r'"
proof (rule load_mono [OF assms(1)])
  have keyed: "t_keyed pd_id (rl_pending r)" using assms(1) by (simp add: load_ok_def)
  have "p \<in> set (rl_pending r)" using assms(2) by (auto dest: t_find_Some)
  then have "0 < t_count (\<lambda>x. pd_routeId x = pd_routeId p) (rl_pending r)"
    using t_count_0 [of "\<lambda>x. pd_routeId x = pd_routeId p" "rl_pending r"] by auto
  then show "route_load rid r' \<le> route_load rid r" for rid
    using assms(3-6) t_count_delete_key [OF keyed assms(2), of "\<lambda>x. pd_routeId x = rid"] by (auto simp: route_load_def)
  show "length (rl_pending r') \<le> MAX_PENDING_CONNECTIONS"
    using assms(1,4) length_t_delete [of "\<lambda>x. pd_id x = cid" "rl_pending r"] by (simp add: load_ok_def)
qed (use assms in \<open>auto simp: load_ok_def\<close>)

lemma load_activate:
  assumes "load_ok op r" and "t \<in> set (rl_setups r)" and "rl_active r' = rl_active r @ [t]"
    and "rl_setups r' = t_delete (\<lambda>x. x = t) (rl_setups r)" and "rl_pending r' = rl_pending r" and "rl_auths r' = rl_auths r"
  shows "load_ok op r'"
proof (rule load_mono [OF assms(1)])
  show "route_load rid r' \<le> route_load rid r" for rid
    using assms(3-5) count_delete_member [OF assms(2), of "\<lambda>x. tn_routeId x = rid"]
      t_count_delete_le [of "\<lambda>x. tn_routeId x = rid" "\<lambda>x. x = t" "rl_setups r"]
    by (cases "tn_routeId t = rid") (auto simp: route_load_def)
qed (use assms in \<open>auto simp: load_ok_def\<close>)

lemma load_move: "relay_move op now r r' \<Longrightarrow> load_ok op r \<Longrightarrow> load_ok op r'"
proof (induction rule: relay_move.induct)
  case (mv_quiet r r')
  show ?case by (rule load_cong [of op r r']) (use mv_quiet in \<open>simp_all add: quiet_def\<close>)
next
  case (mv_open r address)
  show ?case by (rule load_cong [of op r]) (use mv_open in \<open>simp_all add: accept_socket_def Let_def\<close>)
next
  case (mv_forget r s)
  show ?case by (rule load_cong [of op r]) (use mv_forget in \<open>simp_all add: forget_socket_def split: option.splits\<close>)
next
  case (mv_expire rid r a)
  from mv_expire.prems mv_expire.hyps(1) show ?case by (rule load_expire)
next
  case (mv_reschedule rid r a)
  then have "au_routeId a = rid" by (auto dest: t_find_SomeD)
  then show ?case by (intro load_cong [OF mv_reschedule.prems]) (use mv_reschedule.hyps in \<open>simp_all add: length_put\<close>)
next
  case (mv_register route auth r)
  show ?case by (rule load_register [of op r auth]) (use mv_register in \<open>simp_all\<close>)
next
  case (mv_pend rid r a g cid s)
  show ?case by (rule load_pend) (use mv_pend in \<open>simp_all\<close>)
next
  case (mv_accept cid r p a t)
  show ?case by (rule load_accept [of op r cid p t]) (use mv_accept in \<open>simp_all\<close>)
next
  case (mv_activate t r a)
  show ?case by (rule load_activate [of op r t]) (use mv_activate in \<open>simp_all\<close>)
next
  case (mv_drop_route r rid)
  show ?case by (rule load_cong [of op r]) (use mv_drop_route in \<open>simp_all\<close>)
next
  case (mv_forward t r target a bytes)
  show ?case by (rule load_cong [of op r]) (use mv_forward in \<open>simp_all\<close>)
next
  case (mv_forward_empty t r target a)
  show ?case by (rule load_cong [of op r]) (use mv_forward_empty in \<open>simp_all\<close>)
next
  case (mv_release r p)
  show ?case by (rule load_cong [of op r]) (use mv_release in \<open>simp_all\<close>)
qed (simp_all add: load_drop load_prune)

text \<open>
  Claim C16. The limits of the relay hold after any sequence of events: the number of sockets, in all and for
  each address (which the table by address counts exactly), the number of remembered authorizations, the number of pending connections, the
  connections of every route in whatever phase they are, and the bytes that wait to be forwarded, which are exactly the
  bytes of the outstanding reservations.
\<close>

theorem relay_limits_are_respected:
  "let r = relay_run op evs relay_new in
     length (rl_sockets r) \<le> MAX_RELAY_SOCKETS \<and>
     (\<forall>a. rl_by_address r a = t_count (\<lambda>x. snd x = a) (rl_sockets r) \<and> rl_by_address r a \<le> op_maxSocketsPerAddress op) \<and>
     length (rl_auths r) \<le> op_maxRouteAuthorizations op \<and>
     length (rl_pending r) \<le> MAX_PENDING_CONNECTIONS \<and> (\<forall>rid. route_load rid r \<le> MAX_CONNECTIONS_PER_ROUTE) \<and>
     rl_reserved r = sum_list (map rs_bytes (rl_reservations r)) \<and> rl_reserved r \<le> max 0 (op_maxRelayBufferedBytes op)"
proof -
  have s: "sockets_ok op (relay_run op evs relay_new)"
    by (rule run_invariant, rule sockets_move, assumption+) (simp add: sockets_ok_def relay_new_def)
  have b: "bytes_ok op (relay_run op evs relay_new)"
    by (rule run_invariant, rule bytes_move, assumption+) (simp add: bytes_ok_def relay_new_def)
  have l: "load_ok op (relay_run op evs relay_new)"
    by (rule run_invariant, rule load_move, assumption+) (simp add: load_ok_def route_load_def relay_new_def)
  have "rl_reserved (relay_run op evs relay_new) \<le> max 0 (op_maxRelayBufferedBytes op)"
    using b by (cases "rl_reservations (relay_run op evs relay_new)") (auto simp: bytes_ok_def)
  then show ?thesis using s b l by (simp add: Let_def sockets_ok_def bytes_ok_def load_ok_def)
qed

section \<open>Forwarding\<close>

abbreviation payloads :: "relay \<Rightarrow> relay_out list" where
  "payloads r \<equiv> filter payload_out (rl_out r)"

lemma payloads_frame [simp]:
  "payloads (ws_close s code reason r) = payloads r" "payloads (ws_terminate s r) = payloads r"
  "payloads (closeForExpiredRouteAuthorization s r) = payloads r" "payloads (closePeer s code reason r) = payloads r"
  "payloads (ping_end s r) = payloads r"
  by (simp_all add: ws_close_def ws_terminate_def closeForExpiredRouteAuthorization_def closePeer_def ping_end_def)

lemma payloads_send: "\<not> payload_out (Send s m) \<Longrightarrow> payloads (ws_send s m r) = payloads r"
  by (simp add: ws_send_def)

lemma payloads_close_all [simp]: "payloads (fold closeForExpiredRouteAuthorization ss r) = payloads r"
  by (induction ss arbitrary: r) simp_all

lemma payloads_expire [simp]: "payloads (expireRouteAuthorization rid i r) = payloads r"
  by (simp add: expireRouteAuthorization_def Let_def split: option.splits)

lemma payloads_current: "currentRouteAuthorization rid now r = (x, r') \<Longrightarrow> payloads r' = payloads r"
  by (erule current_cases) simp_all

lemma payloads_current_route: "currentRegisteredRoute rid now r = (x, r') \<Longrightarrow> payloads r' = payloads r"
  by (auto simp: currentRegisteredRoute_def split: prod.splits option.splits dest: payloads_current)

lemma payloads_setup_failed [simp]: "payloads (setup_failed t r) = payloads r"
  by (simp add: setup_failed_def)

lemma payloads_commit [simp]: "payloads (snd (commit_registration op route auth previous now r)) = payloads r"
  by (simp add: commit_registration_def authorizeRoute_def Let_def payloads_send split: option.splits)

lemma payloads_register [simp]: "payloads (snd (relay_register op s msg now r)) = payloads r"
  by (auto simp: relay_register_def Let_def split: sum.splits prod.splits option.splits dest: payloads_current)

lemma payloads_connect [simp]: "payloads (snd (relay_connect op s msg cid now r)) = payloads r"
  by (auto simp: relay_connect_def Let_def payloads_send split: prod.splits option.splits js.splits dest!: payloads_current_route)

lemma payloads_lookup [simp]: "payloads (snd (relay_lookup op s msg now r)) = payloads r"
  by (rule lookup_rule) (auto simp: payloads_send dest: payloads_current_route)

lemma payloads_accept [simp]: "payloads (snd (acceptTunnel op s msg now r)) = payloads r"
  by (simp add: acceptTunnel_def Let_def payloads_send payloads_current split: prod.split sum.split option.split js.split)

lemma payloads_first [simp]: "payloads (snd (routeFirstMessage op s raw cid now r)) = payloads r"
  by (simp add: routeFirstMessage_def split: sum.splits prod.splits)

lemma payloads_ready [simp]: "payloads (tunnel_ready t raw now r) = payloads r"
  by (auto simp: tunnel_ready_def payloads_send split: prod.splits option.splits dest!: payloads_current)

lemma payloads_wait_failed [simp]: "payloads (wait_failed s r) = payloads r"
  by (simp add: wait_failed_def Let_def split: option.splits relay_waiting.splits)

lemma payloads_heartbeat [simp]: "payloads (bridge_heartbeat op b now r) = payloads r"
  by (auto simp: bridge_heartbeat_def Let_def split: prod.splits option.splits dest!: payloads_current)

lemma payloads_finish [simp]: "payloads (bridge_finish b r) = payloads r"
  by (simp add: bridge_finish_def)

lemma payloads_peers [simp]:
  "payloads (fold (bridge_peer_closed s code reason) bs r) = payloads r" "payloads (fold (bridge_peer_failed s) bs r) = payloads r"
  by (induction bs arbitrary: r) (simp_all add: bridge_peer_closed_def bridge_peer_failed_def Let_def)

lemma payloads_closed [simp]: "payloads (socket_closed s code reason r) = payloads r"
  by (simp add: socket_closed_def Let_def role_closed_def forget_socket_def split: option.splits role.splits)

lemma payloads_accept_socket [simp]: "payloads (accept_socket op address r) = payloads r"
  by (simp add: accept_socket_def Let_def)

lemma find_SomeD: "find P xs = Some x \<Longrightarrow> x \<in> set xs \<and> P x"
  by (induction xs) (auto split: if_splits)

lemma step_payloads:
  assumes "payloads (relay_step op now e r) \<noteq> payloads r"
  obtains s raw cid bytes buffered b where "e = Message s raw cid bytes buffered" and "b \<in> set (rl_bridges r)"
    and "tn_browser (br_tunnel b) = s \<or> tn_agent (br_tunnel b) = s"
    and "relay_step op now e r = bridge_message op b s bytes buffered now r"
proof (cases e)
  case (Message s raw cid bytes buffered)
  have first: "payloads r1 = payloads r" if "routeFirstMessage op s raw cid now (r\<lparr>rl_waiting := w\<rparr>) = (x, r1)" for w x r1
    using payloads_first [of op s raw cid now "r\<lparr>rl_waiting := w\<rparr>"] that by simp
  from assms have "s < rl_next r" "rl_waiting r s = None"
    by (auto simp: Message socket_message_def dest: first split: if_splits option.splits relay_waiting.splits prod.splits)
  with assms obtain b where b: "find (\<lambda>b. tn_browser (br_tunnel b) = s \<or> tn_agent (br_tunnel b) = s) (rl_bridges r) = Some b"
    "relay_step op now e r = bridge_message op b s bytes buffered now r"
    by (auto simp: Message socket_message_def split: option.splits)
  from find_SomeD [OF b(1)] show thesis using that [OF Message _ _ b(2)] by blast
next
  case (Heartbeat i)
  with assms show thesis by (simp split: option.splits)
next
  case (Expiration_timer rid i)
  with assms show thesis by (simp add: expiration_timer_def split: option.splits if_splits)
next
  case (Pending_timeout cid)
  with assms show thesis by (simp add: pending_timeout_def split: option.splits)
next
  case (Send_settled i failed target)
  with assms show thesis by (simp add: send_settled_def Let_def split: if_splits)
next
  case (Pong s)
  with assms show thesis by (simp add: bridge_pong_def)
qed (use assms in \<open>simp_all split: if_splits\<close>)

lemma forward_payloads:
  "payloads (forward op t s target bytes buffered r) \<noteq> payloads r \<Longrightarrow>
     rl_ready r target = OPEN \<and> payloads (forward op t s target bytes buffered r) = payloads r @ [Send target (Payload bytes)]"
  by (auto simp: forward_def ws_send_def split: if_splits)

lemma reachable_covered: "covered (relay_run op evs relay_new)" "bridges_ok (relay_run op evs relay_new)"
  by (rule run_invariant, rule covered_move, assumption+) (simp add: covered_def claims_def relay_new_def,
      rule run_invariant, rule bridges_move, assumption+, simp add: bridges_ok_def bridge_tunnels_def relay_new_def)

text \<open>
  Claim C14. Whatever the relay forwards, it forwards between the two ends of an active tunnel, as the
  message it has just received at the other end, at a time at which the route of the tunnel is authorized
  for the owner for whom the tunnel was accepted: no event of any other kind forwards anything, and nothing
  is forwarded once the authorization has expired or for another owner.
\<close>

theorem relay_forwards_for_owner_only:
  assumes "r = relay_run op evs relay_new" and "filter payload_out (rl_out (relay_step op now e r)) \<noteq> filter payload_out (rl_out r)"
  shows "\<exists>s raw cid bytes buffered t target a. e = Message s raw cid bytes buffered \<and> t \<in> set (rl_active r) \<and>
    (s = tn_browser t \<and> target = tn_agent t \<or> s = tn_agent t \<and> target = tn_browser t) \<and>
    filter payload_out (rl_out (relay_step op now e r)) = filter payload_out (rl_out r) @ [Send target (Payload bytes)] \<and>
    a \<in> set (rl_auths r) \<and> au_routeId a = tn_routeId t \<and> au_ownerId a = tn_ownerId t \<and> \<not> expired_at now a"
proof -
  obtain s raw cid bytes buffered b where e: "e = Message s raw cid bytes buffered" and b: "b \<in> set (rl_bridges r)"
    and s: "tn_browser (br_tunnel b) = s \<or> tn_agent (br_tunnel b) = s"
    and step: "relay_step op now e r = bridge_message op b s bytes buffered now r"
    using step_payloads [OF assms(2)] by blast
  define t where "t = br_tunnel b"
  define target where "target = (if s = tn_browser t then tn_agent t else tn_browser t)"
  obtain x r1 where c: "currentRouteAuthorization (tn_routeId t) now r = (x, r1)"
    by (cases "currentRouteAuthorization (tn_routeId t) now r")
  with assms(2) step payloads_current [OF c] obtain a where x: "x = Some a"
    by (cases x) (auto simp: bridge_message_def t_def)
  from c x have a: "r1 = r" "auth_of (tn_routeId t) r = Some a" "\<not> expired_at now a" by (auto elim: current_cases)
  have eq: "relay_step op now e r = forward op t s target bytes buffered r"
    using step c x a(1) by (simp add: bridge_message_def t_def target_def)
  with forward_payloads [of op t s target bytes buffered r] assms(2)
  have out: "rl_ready r target = OPEN" "payloads (relay_step op now e r) = payloads r @ [Send target (Payload bytes)]" by auto
  have ends: "s = tn_browser t \<and> target = tn_agent t \<or> s = tn_agent t \<and> target = tn_browser t"
    using s by (auto simp: target_def t_def)
  have "t \<in> set (bridge_tunnels r)" using b by (simp add: bridge_tunnels_def t_def)
  then have act: "t \<in> set (rl_active r)"
    using reachable_covered(2) [of op evs] out(1) ends assms(1) unfolding bridges_ok_def by blast
  then have "(tn_routeId t, tn_ownerId t) \<in> claims r" by (auto simp: claims_def)
  then have "au_ownerId a = tn_ownerId t" using coveredD [OF reachable_covered(1) [of op evs, folded assms(1)]] a(2) by fastforce
  moreover have "a \<in> set (rl_auths r)" "au_routeId a = tn_routeId t" using a(2) by (auto dest: t_find_Some)
  ultimately show ?thesis using e act ends out(2) a(3) by blast
qed

section \<open>Rollback protection\<close>

text \<open>That \<open>b\<close> is the same capability as \<open>a\<close> or a newer one.\<close>

definition supersedes :: "authorization \<Rightarrow> authorization \<Rightarrow> bool" where
  "supersedes b a \<longleftrightarrow> expires_before (au_expiresAt a) (au_expiresAt b) \<or>
     au_expiresAt a = au_expiresAt b \<and> (au_issuedAt a < au_issuedAt b \<or> au_issuedAt a = au_issuedAt b \<and> au_digest a = au_digest b)"

lemma supersedes_refl: "supersedes a a"
  by (simp add: supersedes_def)

lemma expires_trans: "expires_before x y \<Longrightarrow> expires_before y z \<Longrightarrow> expires_before x z"
  by (auto simp: expires_before_def split: option.splits)

lemma expires_total: "expires_before x y \<or> x = y \<or> expires_before y x"
  by (auto simp: expires_before_def split: option.splits)

lemma supersedes_trans: "supersedes b a \<Longrightarrow> supersedes c b \<Longrightarrow> supersedes c a"
  by (auto simp: supersedes_def dest: expires_trans)

lemma monotonic_supersedes: "assertMonotonicRouteAuthorization a b = None \<Longrightarrow> supersedes b a"
  using expires_total [of "au_expiresAt a" "au_expiresAt b"]
  by (auto simp: assertMonotonicRouteAuthorization_def supersedes_def split: if_splits)

definition owned_bounded :: "relay \<Rightarrow> bool" where
  "owned_bounded r \<longleftrightarrow> (\<forall>a \<in> set (rl_auths r). au_ownerId a = None \<or> au_expiresAt a \<noteq> None)"

lemma owned_boundedD: "owned_bounded r \<Longrightarrow> a \<in> set (rl_auths r) \<Longrightarrow> au_ownerId a = None \<or> au_expiresAt a \<noteq> None"
  by (auto simp: owned_bounded_def)

lemma bounded_mono: "owned_bounded r \<Longrightarrow> set (rl_auths r') \<subseteq> set (rl_auths r) \<Longrightarrow> owned_bounded r'"
  by (auto simp: owned_bounded_def)

lemma bounded_move: "relay_move op now r r' \<Longrightarrow> owned_bounded r \<Longrightarrow> owned_bounded r'"
proof (induction rule: relay_move.induct)
  case (mv_reschedule rid r a)
  then have "a \<in> set (rl_auths r)" by (auto dest: t_find_Some)
  with mv_reschedule show ?case by (auto simp: owned_bounded_def dest!: subsetD [OF set_put])
next
  case (mv_register route auth r)
  then show ?case by (auto simp: owned_bounded_def dest!: subsetD [OF set_put])
next
  case (mv_prune r rid)
  then show ?case by (auto simp: pruneRouteAuthorization_def set_t_delete owned_bounded_def split: option.splits)
next
  case (mv_expire rid r a)
  then show ?case by (simp add: owned_bounded_def expire_fields set_t_delete)
next
  case (mv_quiet r r')
  then show ?case by (simp add: owned_bounded_def quiet_def)
qed (simp_all add: owned_bounded_def accept_socket_def forget_socket_def Let_def split: option.splits)

text \<open>The authorization of a route that supersedes \<open>a\<close> for the same owner.\<close>

definition kept :: "string \<Rightarrow> authorization \<Rightarrow> relay \<Rightarrow> bool" where
  "kept rid a r \<longleftrightarrow> (\<exists>b. auth_of rid r = Some b \<and> au_ownerId b = au_ownerId a \<and> supersedes b a)"

lemma kept_cong: "kept rid a r \<Longrightarrow> auth_of rid r' = auth_of rid r \<Longrightarrow> kept rid a r'"
  by (simp add: kept_def)

lemma kept_live:
  assumes "kept rid a r" and "owned_bounded r" and "au_ownerId a \<noteq> None" and "au_expiresAt a = Some e" and "now < e"
    and "auth_of rid r = Some b"
  shows "\<not> expired_at now b \<and> au_expiresAt b \<noteq> None"
proof -
  have b: "b \<in> set (rl_auths r)" "au_ownerId b \<noteq> None" "supersedes b a" using assms by (auto simp: kept_def dest: t_find_Some)
  then obtain e' where "au_expiresAt b = Some e'" using assms(2) by (auto simp: owned_bounded_def)
  with b(3) assms(4,5) show ?thesis by (auto simp: supersedes_def expires_before_def expired_at_def)
qed

lemma kept_move:
  assumes "relay_move op now r r'" and "covered r" and "kept rid a r" and "owned_bounded r"
    and "au_ownerId a \<noteq> None" and "au_expiresAt a = Some e" and "now < e"
  shows "kept rid a r'"
  using assms
proof (induction rule: relay_move.induct)
  case (mv_expire rid' r b)
  then have "rid' \<noteq> rid" using kept_live [of rid a r e now b] by auto
  then show ?case
    by (intro kept_cong [OF mv_expire.prems(2)]) (simp add: expire_fields [OF mv_expire.hyps(1)] t_find_delete_key)
next
  case (mv_prune r rid')
  show ?case
  proof (cases rule: prune_cases [of rid' r])
    case (pruned b)
    then have "rid' \<noteq> rid" using mv_prune kept_live [of rid a r e now b] by auto
    then show ?thesis by (intro kept_cong [OF mv_prune.prems(2)]) (simp add: pruned(4) t_find_delete_key)
  qed (use mv_prune in simp)
next
  case (mv_reschedule rid' r b)
  then have "au_routeId b = rid'" by (auto dest: t_find_SomeD)
  with mv_reschedule show ?case by (auto simp: kept_def t_find_put supersedes_def)
next
  case (mv_register route auth r)
  show ?case
  proof (cases "rid = au_routeId auth")
    case True
    then obtain b where b: "auth_of rid r = Some b" "au_ownerId b = au_ownerId a" "supersedes b a"
      using mv_register.prems(2) by (auto simp: kept_def)
    have "supersedes auth b" using mv_register.hyps(4) b(1) True by (intro monotonic_supersedes) simp
    with b(3) have "supersedes auth a" by (rule supersedes_trans)
    moreover have "au_ownerId b = au_ownerId auth"
      by (rule owner_of_previous [OF mv_register.prems(1) b(1)]) (use mv_register.hyps(3) b(1) True in simp)
    ultimately show ?thesis using b(2) True by (auto simp: kept_def t_find_put supersedes_def)
  next
    case False
    with mv_register.prems(2) show ?thesis by (auto simp: kept_def t_find_put)
  qed
next
  case (mv_quiet r r')
  then show ?case by (simp add: kept_def quiet_def)
qed (simp_all add: kept_def accept_socket_def forget_socket_def Let_def split: option.splits)

text \<open>
  Claim C15. A capability of a provisioned owner, once accepted for a route, cannot be rolled back before it
  expires: whatever happens until then (registrations from other sockets, disconnections, timers), the route has an
  authorization of the same owner that expires later, or as late and was issued later, or is the same
  capability. It is neither dropped nor shortened nor replaced by an older capability or one of another owner.
\<close>

theorem route_authorization_is_monotone:
  assumes "r = relay_run op evs relay_new" and "t_find au_routeId rid (rl_auths r) = Some a"
    and "au_ownerId a \<noteq> None" and "au_expiresAt a = Some e" and "\<forall>(now, ev) \<in> set evs'. now < e"
  shows "\<exists>b. t_find au_routeId rid (rl_auths (relay_run op evs' r)) = Some b \<and> au_ownerId b = au_ownerId a \<and>
    (expires_before (au_expiresAt a) (au_expiresAt b) \<or>
     au_expiresAt a = au_expiresAt b \<and> (au_issuedAt a < au_issuedAt b \<or> au_issuedAt a = au_issuedAt b \<and> au_digest a = au_digest b))"
proof -
  have "owned_bounded r"
    unfolding assms(1) by (rule run_invariant, rule bounded_move, assumption+) (simp add: owned_bounded_def relay_new_def)
  moreover have "kept rid a r" using assms(2) by (simp add: kept_def supersedes_refl)
  ultimately have "covered r \<and> owned_bounded r \<and> kept rid a r"
    using reachable_covered(1) [of op evs] assms(1) by simp
  moreover have "now < e" if "(now, ev) \<in> set evs'" for now ev using assms(5) that by blast
  ultimately have "covered (relay_run op evs' r) \<and> owned_bounded (relay_run op evs' r) \<and> kept rid a (relay_run op evs' r)"
    by (intro run_invariant [where I = "\<lambda>r. covered r \<and> owned_bounded r \<and> kept rid a r"])
      (blast intro: covered_move bounded_move kept_move [OF _ _ _ _ assms(3,4)])+
  then show ?thesis by (auto simp: kept_def supersedes_def)
qed

section \<open>Witnesses\<close>

definition example_relay_options :: relay_options where
  "example_relay_options = \<lparr>op_codec = example_codec example_payload, op_signingKey = replicate 32 (CHR ''k''), op_installationId = ''host1'',
     op_digest = (\<lambda>s. s), op_url = (\<lambda>s. None), op_maxSocketsPerAddress = 8, op_maxRouteAuthorizations = 4,
     op_maxConnectsPerWindow = 5, op_connectWindowMs = 1000, op_maxLookupsPerWindow = 5, op_lookupWindowMs = 1000,
     op_maxAddressRateBuckets = 4, op_maxTunnelBufferedBytes = 100, op_maxRelayBufferedBytes = 200, op_heartbeatMissLimit = 2,
     op_trustLoopbackProxy = False, op_isIP = (\<lambda>s. False)\<rparr>"

definition example_capability :: string where
  "example_capability = ''{}.'' @ replicate 32 (CHR ''h'')"

definition example_message :: "nat \<Rightarrow> string \<Rightarrow> (string \<times> js) list \<Rightarrow> relay_event" where
  "example_message s t fs = Message s (JsonText (JObj ([(''version'', JNum 1), (''type'', JStr t)] @ fs))) ''c1'' 0 0"

definition example_registration :: "(int \<times> relay_event) list" where
  "example_registration = [(3, Connection None None),
     (3, example_message 0 ''relay/register'' [(''capability'', JStr example_capability), (''profile'', JObj [
        (''nodeId'', JStr ''n''), (''userId'', JStr ''u''), (''hostPublicKey'', JStr (replicate 43 (CHR ''p''))),
        (''hostFingerprint'', JStr (''sha256:'' @ replicate 43 (CHR ''f'')))])])]"

text \<open>An agent registers, a browser connects, the agent accepts on another socket and is ready.\<close>

definition example_tunnel :: "(int \<times> relay_event) list" where
  "example_tunnel = example_registration @ [(4, Connection None None), (4, example_message 2 ''relay/connect'' [(''routeId'', JStr example_route)]),
     (4, Connection None None),
     (4, example_message 3 ''relay/accept'' [(''capability'', JStr example_capability), (''connectionId'', JStr ''c1'')]),
     (4, example_message 3 ''relay/tunnel-ready'' [])]"

text \<open>What the examples need of the registration, of the tunnel, and of a message of the browser.\<close>

lemma example_forwards:
  "(let r0 = relay_run example_relay_options example_registration relay_new;
        r1 = fold (\<lambda>(now, e). relay_step example_relay_options now e) (drop 2 example_tunnel) r0;
        r2 = relay_step example_relay_options 5 (Message 2 (BadJson ''hello'') [] 5 0) r1
    in (map (\<lambda>a. (au_routeId a, au_expiresAt a, au_ownerId a = None)) (rl_auths r0),
        filter payload_out (rl_out r1), filter payload_out (rl_out r2))) =
     ([(example_route, Some 8, False)], [], [Send 3 (Payload 5)])"
  by code_simp

lemma example_tunnel_split:
  "relay_run example_relay_options example_tunnel relay_new =
     fold (\<lambda>(now, e). relay_step example_relay_options now e) (drop 2 example_tunnel) (relay_run example_relay_options example_registration relay_new)"
  by (simp add: relay_run_def example_tunnel_def example_registration_def)

theorem relay_forwards_for_owner_only_witness:
  "\<exists>t a. t \<in> set (rl_active (relay_run example_relay_options example_tunnel relay_new)) \<and> 2 \<in> {tn_browser t, tn_agent t} \<and>
    a \<in> set (rl_auths (relay_run example_relay_options example_tunnel relay_new)) \<and> au_ownerId a = tn_ownerId t \<and> \<not> expired_at 5 a"
proof -
  let ?e = "Message 2 (BadJson ''hello'') [] 5 0"
  note ex = example_forwards [folded example_tunnel_split, unfolded Let_def prod.inject, folded example_tunnel_split]
  have "filter payload_out (rl_out (relay_step example_relay_options 5 ?e (relay_run example_relay_options example_tunnel relay_new))) \<noteq>
      filter payload_out (rl_out (relay_run example_relay_options example_tunnel relay_new))"
    using ex by simp
  from relay_forwards_for_owner_only [OF refl this] show ?thesis by blast
qed

theorem route_authorization_is_monotone_witness:
  "\<exists>b. t_find au_routeId example_route
      (rl_auths (relay_run example_relay_options [(7, Socket_closed 0 1000 [])] (relay_run example_relay_options example_registration relay_new))) = Some b \<and>
    au_ownerId b \<noteq> None"
proof -
  let ?r = "relay_run example_relay_options example_registration relay_new"
  have "map (\<lambda>a. (au_routeId a, au_expiresAt a, au_ownerId a = None)) (rl_auths ?r) = [(example_route, Some 8, False)]"
    using example_forwards by (simp add: Let_def)
  then obtain a where a: "rl_auths ?r = [a]" "au_routeId a = example_route" "au_expiresAt a = Some 8" "au_ownerId a \<noteq> None" by auto
  then have "t_find au_routeId example_route (rl_auths ?r) = Some a" by simp
  from route_authorization_is_monotone [OF refl this a(4,3), of "[(7, Socket_closed 0 1000 [])]"] a(4) show ?thesis by auto
qed

end
