(* ===== verification/Admin_Repository.thy ===== *)
theory Admin_Repository
  imports User_Db Relay_Capability
begin

text \<open>
  The administrator's repository (\<open>admin-repository.ts\<close>): the managed Unix users, with an optimistic
  revision, and the audit log, which is read in pages. The status column is free text in the schema and is
  checked when a row is read. The texts of a cursor are those of the platform, given by a \<open>codec\<close>.
\<close>

section \<open>Tables\<close>

datatype managed_status = MU_enabled | MU_disabled | MU_removal_pending | MU_removing | MU_removed

record managed_row =
  mr_uid :: int
  mr_username :: string
  mr_home :: string
  mr_status :: string
  mr_registered_at :: timestamp
  mr_updated_at :: timestamp
  mr_revision :: int
  mr_remove_after :: "timestamp option"

record managed_user =
  mu_uid :: int
  mu_username :: string
  mu_home :: string
  mu_status :: managed_status
  mu_registeredAt :: timestamp
  mu_updatedAt :: timestamp
  mu_revision :: int
  mu_removeAfter :: "timestamp option"

datatype audit_result = Audit_succeeded | Audit_failed

record admin_audit_row =
  aa_id :: string
  aa_request_id :: string
  aa_actor :: string
  aa_action :: string
  aa_target_username :: "string option"
  aa_result :: string
  aa_created_at :: timestamp

record admin_audit =
  ae_id :: string
  ae_requestId :: string
  ae_actor :: string
  ae_action :: string
  ae_targetUsername :: "string option"
  ae_result :: audit_result
  ae_createdAt :: timestamp

record admin_db =
  ad_users :: "managed_row list"
  ad_audit :: "admin_audit_row list"

fun status_text :: "managed_status \<Rightarrow> string" where
  "status_text MU_enabled = ''enabled''"
| "status_text MU_disabled = ''disabled''"
| "status_text MU_removal_pending = ''removal_pending''"
| "status_text MU_removing = ''removing''"
| "status_text MU_removed = ''removed''"

definition managedUserStatus :: "string \<Rightarrow> ce_error + managed_status" where
  "managedUserStatus s =
     (if s = ''enabled'' then Inr MU_enabled else if s = ''disabled'' then Inr MU_disabled
      else if s = ''removal_pending'' then Inr MU_removal_pending else if s = ''removing'' then Inr MU_removing
      else if s = ''removed'' then Inr MU_removed else Inl (Error ''Invalid managed user status''))"

definition parseUser :: "managed_row \<Rightarrow> ce_error + managed_user" where
  "parseUser r =
     bind_result (sql_integer (mr_uid r) ''managed user uid'') (\<lambda>uid.
     bind_result (managedUserStatus (mr_status r)) (\<lambda>status.
     bind_result (sql_integer (mr_revision r) ''managed user revision'') (\<lambda>revision.
     Inr \<lparr>mu_uid = uid, mu_username = mr_username r, mu_home = mr_home r, mu_status = status,
       mu_registeredAt = mr_registered_at r, mu_updatedAt = mr_updated_at r, mu_revision = revision,
       mu_removeAfter = mr_remove_after r\<rparr>)))"

definition parseAudit :: "admin_audit_row \<Rightarrow> ce_error + admin_audit" where
  "parseAudit r =
     bind_result (if aa_result r = ''succeeded'' then Inr Audit_succeeded
        else if aa_result r = ''failed'' then Inr Audit_failed
        else Inl (Error ''Invalid administrator audit result'')) (\<lambda>res.
     Inr \<lparr>ae_id = aa_id r, ae_requestId = aa_request_id r, ae_actor = aa_actor r, ae_action = aa_action r,
       ae_targetUsername = aa_target_username r, ae_result = res, ae_createdAt = aa_created_at r\<rparr>)"

fun result_text :: "audit_result \<Rightarrow> string" where
  "result_text Audit_succeeded = ''succeeded''"
| "result_text Audit_failed = ''failed''"

section \<open>Managed users\<close>

definition readUserByUsername :: "admin_db \<Rightarrow> string \<Rightarrow> ce_error + managed_user option" where
  "readUserByUsername db name =
     (case t_find mr_username name (ad_users db) of None \<Rightarrow> Inr None | Some r \<Rightarrow> map_sum id Some (parseUser r))"

definition readUserByUid :: "admin_db \<Rightarrow> int \<Rightarrow> ce_error + managed_user option" where
  "readUserByUid db uid =
     (case t_find mr_uid uid (ad_users db) of None \<Rightarrow> Inr None | Some r \<Rightarrow> map_sum id Some (parseUser r))"

definition requiredUser :: "admin_db \<Rightarrow> string \<Rightarrow> ce_error + managed_user" where
  "requiredUser db name =
     bind_result (readUserByUsername db name) (\<lambda>u.
       case u of None \<Rightarrow> Inl (Error ''Managed user does not exist'') | Some u \<Rightarrow> Inr u)"

definition admin_get :: "string \<Rightarrow> admin_db \<Rightarrow> ce_error + managed_user option" where
  "admin_get name db = readUserByUsername db name"

text \<open>\<open>COLLATE NOCASE\<close> folds the ASCII letters.\<close>

definition nocase :: "string \<Rightarrow> string" where
  "nocase = map (\<lambda>ch. if CHR ''A'' \<le> ch \<and> ch \<le> CHR ''Z'' then char_of (of_char ch + 32 :: nat) else ch)"

definition admin_list :: "admin_db \<Rightarrow> ce_error + managed_user list" where
  "admin_list db = map_result parseUser (sort_key (\<lambda>r. (nocase (mr_username r), mr_uid r)) (ad_users db))"

record admin_counts =
  ct_managedUsers :: nat
  ct_enabledUsers :: nat
  ct_disabledUsers :: nat
  ct_pendingRemovals :: nat

text \<open>The groups of \<open>GROUP BY status\<close> are parsed before anything is counted.\<close>

definition status_count :: "managed_status \<Rightarrow> admin_db \<Rightarrow> nat" where
  "status_count s db = t_count (\<lambda>r. mr_status r = status_text s) (ad_users db)"

definition admin_count :: "admin_db \<Rightarrow> ce_error + admin_counts" where
  "admin_count db =
     bind_result (map_result managedUserStatus (remdups (map mr_status (ad_users db)))) (\<lambda>statuses.
     Inr \<lparr>ct_managedUsers = sum_list (map (\<lambda>s. status_count s db) statuses), ct_enabledUsers = status_count MU_enabled db,
       ct_disabledUsers = status_count MU_disabled db + status_count MU_removed db,
       ct_pendingRemovals = status_count MU_removal_pending db + status_count MU_removing db\<rparr>)"

text \<open>The checks of the table: \<open>uid\<close> is the primary key, \<open>username\<close> is unique, \<open>revision\<close> is not negative.\<close>

definition insert_user :: "managed_row \<Rightarrow> admin_db \<Rightarrow> ce_error + admin_db" where
  "insert_user r db =
     (if t_find mr_uid (mr_uid r) (ad_users db) \<noteq> None \<or> t_find mr_username (mr_username r) (ad_users db) \<noteq> None
      then Inl (SqlConstraint ''UNIQUE constraint failed: managed_users'')
      else if mr_revision r < 0 then Inl (SqlConstraint ''CHECK constraint failed: managed_users'')
      else Inr (db\<lparr>ad_users := ad_users db @ [r]\<rparr>))"

definition admin_register :: "int \<Rightarrow> string \<Rightarrow> string \<Rightarrow> timestamp \<Rightarrow> (admin_db, managed_user) tx" where
  "admin_register uid name home now db =
     bind_result (readUserByUid db uid) (\<lambda>byUid.
     bind_result (readUserByUsername db name) (\<lambda>byUsername.
     (case (case byUid of Some u \<Rightarrow> Some u | None \<Rightarrow> byUsername) of
        Some existing \<Rightarrow>
          if mu_uid existing \<noteq> uid \<or> mu_username existing \<noteq> name \<or> mu_home existing \<noteq> home \<or>
             (byUid \<noteq> None \<and> byUsername \<noteq> None \<and> mu_uid (the byUid) \<noteq> mu_uid (the byUsername))
          then Inl (ManagedUserConflictError ''Unix identity conflicts with an existing managed user'')
          else Inr (existing, db)
      | None \<Rightarrow>
          bind_result (insert_user \<lparr>mr_uid = uid, mr_username = name, mr_home = home, mr_status = ''enabled'',
             mr_registered_at = now, mr_updated_at = now, mr_revision = 1, mr_remove_after = None\<rparr> db) (\<lambda>db1.
          bind_result (requiredUser db1 name) (\<lambda>u. Inr (u, db1))))))"

definition admin_setStatus ::
  "string \<Rightarrow> int \<Rightarrow> managed_status \<Rightarrow> timestamp option \<Rightarrow> timestamp \<Rightarrow> (admin_db, managed_user) tx" where
  "admin_setStatus name expected status removeAfter now db =
     bind_result (requiredUser db name) (\<lambda>current.
       if mu_revision current \<noteq> expected then Inl (ManagedUserRevisionConflictError name)
       else
         let selected = (\<lambda>r. mr_username r = name \<and> mr_revision r = expected);
             db1 = db\<lparr>ad_users := t_update selected
               (\<lambda>r. r\<lparr>mr_status := status_text status, mr_remove_after := removeAfter, mr_updated_at := now,
                       mr_revision := mr_revision r + 1\<rparr>) (ad_users db)\<rparr>
         in if t_count selected (ad_users db) \<noteq> 1 then Inl (ManagedUserRevisionConflictError name)
            else bind_result (requiredUser db1 name) (\<lambda>u. Inr (u, db1)))"

text \<open>\<open>NULL <= ?\<close> is not true, and \<open>ORDER BY remove_after\<close> has \<open>NULL\<close> first.\<close>

definition is_due :: "timestamp \<Rightarrow> managed_row \<Rightarrow> bool" where
  "is_due now r \<longleftrightarrow> mr_status r = ''removing'' \<or>
     (mr_status r = ''removal_pending'' \<and> (case mr_remove_after r of None \<Rightarrow> False | Some t \<Rightarrow> t \<le> now))"

definition due_order :: "managed_row \<Rightarrow> bool \<times> timestamp \<times> string" where
  "due_order r = (mr_remove_after r \<noteq> None, (case mr_remove_after r of None \<Rightarrow> 0 | Some t \<Rightarrow> t), mr_username r)"

definition admin_dueRemovals :: "timestamp \<Rightarrow> admin_db \<Rightarrow> ce_error + managed_user list" where
  "admin_dueRemovals now db = map_result parseUser (sort_key due_order (filter (is_due now) (ad_users db)))"

section \<open>Audit log\<close>

definition admin_appendAudit :: "admin_audit \<Rightarrow> (admin_db, admin_audit) tx" where
  "admin_appendAudit a db =
     bind_result (t_insert aa_id ''admin_audit''
       \<lparr>aa_id = ae_id a, aa_request_id = ae_requestId a, aa_actor = ae_actor a, aa_action = ae_action a,
        aa_target_username = ae_targetUsername a, aa_result = result_text (ae_result a), aa_created_at = ae_createdAt a\<rparr>
       (ad_audit db)) (\<lambda>rows. Inr (a, db\<lparr>ad_audit := rows\<rparr>))"

definition cursor_value :: "codec \<Rightarrow> admin_audit \<Rightarrow> js" where
  "cursor_value c a = JObj [(''version'', JNum 1), (''createdAt'', JStr (cc_iso c (ae_createdAt a))), (''id'', JStr (ae_id a))]"

definition encodeAuditCursor :: "codec \<Rightarrow> admin_audit \<Rightarrow> string" where
  "encodeAuditCursor c a = cc_b64 c (cc_json c (cursor_value c a))"

definition decodeAuditCursor :: "codec \<Rightarrow> string \<Rightarrow> ce_error + (timestamp \<times> string)" where
  "decodeAuditCursor c s =
     (case cc_parse c (cc_unb64 c s) of
        None \<Rightarrow> Inl AdminAuditCursorError
      | Some v \<Rightarrow>
          (case (js_prop v ''version'', js_prop v ''createdAt'', js_prop v ''id'') of
             (JNum n, JStr t, JStr i) \<Rightarrow>
               if n = 1 \<and> validDate c t \<and> i \<noteq> [] then Inr (date_of c t, i) else Inl AdminAuditCursorError
           | _ \<Rightarrow> Inl AdminAuditCursorError))"

record audit_page =
  ap_events :: "admin_audit list"
  ap_nextCursor :: "string option"
  ap_hasMore :: bool

definition page_limit :: "int \<Rightarrow> nat" where
  "page_limit limit = nat (max 1 (min 200 limit))"

definition audit_key :: "admin_audit_row \<Rightarrow> timestamp \<times> string" where
  "audit_key r = (aa_created_at r, aa_id r)"

definition audit_selected :: "string option \<Rightarrow> (timestamp \<times> string) option \<Rightarrow> admin_audit_row \<Rightarrow> bool" where
  "audit_selected user boundary r \<longleftrightarrow> (user = None \<or> aa_target_username r = user) \<and>
     (case boundary of None \<Rightarrow> True | Some (t, i) \<Rightarrow> aa_created_at r < t \<or> (aa_created_at r = t \<and> aa_id r < i))"

definition listAudit :: "codec \<Rightarrow> string option \<Rightarrow> string option \<Rightarrow> int \<Rightarrow> admin_db \<Rightarrow> ce_error + audit_page" where
  "listAudit c user cursor limit db =
     bind_result (case cursor of None \<Rightarrow> Inr None | Some s \<Rightarrow> map_sum id Some (decodeAuditCursor c s)) (\<lambda>boundary.
       let n = page_limit limit;
           selected = rev (sort_key audit_key (filter (audit_selected user boundary) (ad_audit db)))
       in bind_result (map_result parseAudit (take (n + 1) selected)) (\<lambda>rows.
         let hasMore = length rows > n; events = take n rows
         in Inr \<lparr>ap_events = events,
              ap_nextCursor = (if hasMore \<and> events \<noteq> [] then Some (encodeAuditCursor c (last events)) else None),
              ap_hasMore = hasMore\<rparr>))"

text \<open>Reading the log page by page: one request for each of the given databases, each with the cursor of the page before.\<close>

fun audit_pages :: "codec \<Rightarrow> string option \<Rightarrow> int \<Rightarrow> string option \<Rightarrow> admin_db list \<Rightarrow> ce_error + admin_audit list" where
  "audit_pages c user limit cursor [] = Inr []"
| "audit_pages c user limit cursor (db # dbs) =
     bind_result (listAudit c user cursor limit db) (\<lambda>page.
       case ap_nextCursor page of
         None \<Rightarrow> Inr (ap_events page)
       | Some next \<Rightarrow> bind_result (audit_pages c user limit (Some next) dbs) (\<lambda>rest. Inr (ap_events page @ rest)))"

section \<open>Pages of the log\<close>

lemma audit_selected_key:
  "audit_selected user boundary r \<longleftrightarrow> (user = None \<or> aa_target_username r = user) \<and>
     (case boundary of None \<Rightarrow> True | Some b \<Rightarrow> audit_key r < b)"
  by (auto simp: audit_selected_def audit_key_def split: option.splits)

text \<open>The entries for a user, newest first.\<close>

definition log_of :: "string option \<Rightarrow> admin_db \<Rightarrow> admin_audit_row list" where
  "log_of user db = rev (sort_key audit_key (filter (\<lambda>r. user = None \<or> aa_target_username r = user) (ad_audit db)))"

lemma selected_log:
  "rev (sort_key audit_key (filter (audit_selected user boundary) (ad_audit db))) =
     filter (\<lambda>r. case boundary of None \<Rightarrow> True | Some b \<Rightarrow> audit_key r < b) (log_of user db)"
proof -
  have "audit_selected user boundary = (\<lambda>r. (user = None \<or> aa_target_username r = user) \<and>
      (case boundary of None \<Rightarrow> True | Some b \<Rightarrow> audit_key r < b))"
    by (rule ext) (auto simp: audit_selected_key)
  then show ?thesis by (simp add: log_of_def rev_filter [symmetric] filter_sort)
qed

definition older :: "(timestamp \<times> string) option \<Rightarrow> admin_audit_row list \<Rightarrow> admin_audit_row list" where
  "older boundary rows = filter (\<lambda>r. case boundary of None \<Rightarrow> True | Some b \<Rightarrow> audit_key r < b) rows"

lemma older_drop:
  assumes "sorted_wrt (\<lambda>a b. audit_key b < audit_key a) rows" and "n < length rows"
  shows "older (Some (audit_key (rows ! n))) rows = drop (Suc n) rows"
  using assms
proof (induction rows arbitrary: n)
  case (Cons r rows)
  show ?case
  proof (cases n)
    case 0
    then show ?thesis using Cons.prems by (auto simp: older_def filter_id_conv)
  next
    case (Suc m)
    with Cons.prems have "audit_key (rows ! m) < audit_key r" by (auto simp: less_Suc_eq_le)
    then have "\<not> audit_key r < audit_key (rows ! m)" by (simp add: not_less less_imp_le)
    then show ?thesis using Suc Cons by (auto simp: older_def)
  qed
qed simp

lemma log_sorted: "t_keyed aa_id (ad_audit db) \<Longrightarrow> sorted_wrt (\<lambda>a b. audit_key b < audit_key a) (log_of user db)"
proof -
  assume k: "t_keyed aa_id (ad_audit db)"
  let ?rows = "filter (\<lambda>r. user = None \<or> aa_target_username r = user) (ad_audit db)"
  have "distinct (map audit_key ?rows)"
    using k by (auto simp: t_keyed_def distinct_map audit_key_def inj_on_def)
  then have "sorted_wrt (<) (map audit_key (sort_key audit_key ?rows))"
    by (simp add: strict_sorted_iff distinct_map)
  then have "sorted_wrt (\<lambda>a b. audit_key a < audit_key b) (sort_key audit_key ?rows)"
    by (simp add: sorted_wrt_map)
  then show ?thesis by (simp add: log_of_def sorted_wrt_rev)
qed

text \<open>Entries as the code writes them, and a log that has grown since: its new entries are newer.\<close>

definition audit_ok :: "admin_audit_row \<Rightarrow> bool" where
  "audit_ok r \<longleftrightarrow> aa_id r \<noteq> [] \<and> (aa_result r = ''succeeded'' \<or> aa_result r = ''failed'')"

definition event_of :: "admin_audit_row \<Rightarrow> admin_audit" where
  "event_of r = \<lparr>ae_id = aa_id r, ae_requestId = aa_request_id r, ae_actor = aa_actor r, ae_action = aa_action r,
     ae_targetUsername = aa_target_username r, ae_result = (if aa_result r = ''succeeded'' then Audit_succeeded else Audit_failed),
     ae_createdAt = aa_created_at r\<rparr>"

definition log_grown :: "admin_db \<Rightarrow> admin_db \<Rightarrow> bool" where
  "log_grown db db' \<longleftrightarrow> (\<exists>new. ad_audit db' = ad_audit db @ new \<and>
     (\<forall>r \<in> set new. audit_ok r \<and> (\<forall>r0 \<in> set (ad_audit db). audit_key r0 < audit_key r)))"

lemma parse_event: "audit_ok r \<Longrightarrow> parseAudit r = Inr (event_of r)"
  by (auto simp: audit_ok_def parseAudit_def event_of_def)

lemma set_log: "set (log_of user db) \<subseteq> set (ad_audit db)"
  by (auto simp: log_of_def)

lemma page_limit_pos: "0 < page_limit limit"
  by (auto simp: page_limit_def)

lemma listAudit_page:
  assumes "(case cursor of None \<Rightarrow> Inr None | Some s \<Rightarrow> map_sum id Some (decodeAuditCursor c s)) = Inr boundary"
    and "older boundary (log_of user db) = rows" and "\<forall>r \<in> set rows. audit_ok r"
  shows "listAudit c user cursor limit db = Inr \<lparr>ap_events = map event_of (take (page_limit limit) rows),
     ap_nextCursor = (if page_limit limit < length rows
       then Some (encodeAuditCursor c (event_of (rows ! (page_limit limit - 1)))) else None),
     ap_hasMore = page_limit limit < length rows\<rparr>"
proof -
  let ?n = "page_limit limit"
  have parse: "map_result parseAudit (take (?n + 1) rows) = Inr (map event_of (take (?n + 1) rows))"
    by (rule map_result_total) (use assms(3) in \<open>auto intro: parse_event dest: in_set_takeD\<close>)
  have "last (take ?n rows) = rows ! (?n - 1)" if "?n < length rows"
    using that page_limit_pos [of limit] by (subst last_conv_nth) (auto simp: min_def)
  then show ?thesis
    using assms(1,2) parse page_limit_pos [of limit]
    by (auto simp: listAudit_def selected_log older_def [symmetric] Let_def take_map last_map min_def)
qed

lemma cursor_round_trip:
  assumes "codec_laws c" and "cc_parse c (cc_json c (cursor_value c a)) = Some (cursor_value c a)" and "ae_id a \<noteq> []"
  shows "decodeAuditCursor c (encodeAuditCursor c a) = Inr (ae_createdAt a, ae_id a)"
  using assms by (simp add: decodeAuditCursor_def encodeAuditCursor_def codec_laws_def cursor_value_def validDate_def date_of_def)

lemma older_grown:
  assumes "log_grown db db'" and "r \<in> set (ad_audit db)"
  shows "older (Some (audit_key r)) (log_of user db') = older (Some (audit_key r)) (log_of user db)"
proof -
  obtain new where new: "ad_audit db' = ad_audit db @ new" "\<forall>x \<in> set new. \<not> audit_key x < audit_key r"
    using assms by (auto simp: log_grown_def dest: less_asym')
  then have "filter (audit_selected user (Some (audit_key r))) (ad_audit db') = filter (audit_selected user (Some (audit_key r))) (ad_audit db)"
    by (auto simp: audit_selected_key filter_empty_conv)
  then show ?thesis
    using selected_log [of user "Some (audit_key r)" db] selected_log [of user "Some (audit_key r)" db']
    by (simp add: older_def)
qed

lemma pages_rest:
  assumes laws: "codec_laws c" "\<forall>a. cc_parse c (cc_json c (cursor_value c a)) = Some (cursor_value c a)"
    and log: "t_keyed aa_id (ad_audit db)" "\<forall>r \<in> set (ad_audit db). audit_ok r"
  shows "\<forall>db' \<in> set dbs. log_grown db db' \<Longrightarrow> k < length (log_of user db) \<Longrightarrow>
    length (drop (Suc k) (log_of user db)) \<le> page_limit limit * length dbs \<Longrightarrow>
    audit_pages c user limit (Some (encodeAuditCursor c (event_of (log_of user db ! k)))) dbs =
      Inr (map event_of (drop (Suc k) (log_of user db)))"
proof (induction dbs arbitrary: k)
  case (Cons db' dbs)
  let ?n = "page_limit limit" and ?log = "log_of user db"
  define rest where "rest = drop (Suc k) ?log"
  have mem: "?log ! k \<in> set (ad_audit db)" using Cons.prems(2) set_log [of user db] by (auto dest: nth_mem)
  have key: "decodeAuditCursor c (encodeAuditCursor c (event_of (?log ! k))) = Inr (audit_key (?log ! k))"
    using cursor_round_trip [OF laws(1), of "event_of (?log ! k)"] laws(2) log(2) mem
    by (auto simp: event_of_def audit_key_def audit_ok_def)
  have "older (Some (audit_key (?log ! k))) (log_of user db') = rest"
    using older_grown [OF _ mem, of db'] older_drop [OF log_sorted [OF log(1)] Cons.prems(2)] Cons.prems(1) by (simp add: rest_def)
  then have page: "listAudit c user (Some (encodeAuditCursor c (event_of (?log ! k)))) limit db' =
      Inr \<lparr>ap_events = map event_of (take ?n rest),
        ap_nextCursor = (if ?n < length rest then Some (encodeAuditCursor c (event_of (rest ! (?n - 1)))) else None),
        ap_hasMore = ?n < length rest\<rparr>"
    by (intro listAudit_page [of _ _ "Some (audit_key (?log ! k))"])
      (use key log(2) set_log [of user db] in \<open>auto simp: rest_def dest!: in_set_dropD\<close>)
  show ?case
  proof (cases "?n < length rest")
    case True
    have at: "rest ! (?n - 1) = ?log ! (k + ?n)"
      using True page_limit_pos [of limit] by (simp add: rest_def)
    have "audit_pages c user limit (Some (encodeAuditCursor c (event_of (?log ! (k + ?n))))) dbs =
        Inr (map event_of (drop (Suc (k + ?n)) ?log))"
      using Cons.prems True by (intro Cons.IH) (auto simp: rest_def)
    moreover have "drop (Suc (k + ?n)) ?log = drop ?n rest" by (simp add: rest_def add.commute)
    ultimately show ?thesis using page True at by (simp add: rest_def [symmetric] flip: map_append)
  next
    case False
    then show ?thesis using page by (simp add: rest_def [symmetric])
  qed
qed simp


text \<open>A text form of cursors, to run the pages: the length of the date in unary, the date, the id.\<close>

definition cursor_text :: "js \<Rightarrow> string" where
  "cursor_text v = (case (js_prop v ''createdAt'', js_prop v ''id'') of
     (JStr t, JStr i) \<Rightarrow> replicate (length t) (CHR ''a'') @ CHR ''b'' # t @ i | _ \<Rightarrow> [])"

definition parse_cursor_text :: "string \<Rightarrow> js option" where
  "parse_cursor_text s =
     (let n = length (takeWhile (\<lambda>ch. ch = CHR ''a'') s); rest = drop (Suc n) s
      in Some (JObj [(''version'', JNum 1), (''createdAt'', JStr (take n rest)), (''id'', JStr (drop n rest))]))"

definition cursor_codec :: codec where
  "cursor_codec = \<lparr>cc_hmac = (\<lambda>k t. replicate 32 (CHR ''h'')), cc_b64 = escape_dots, cc_unb64 = unescape_dots,
     cc_json = cursor_text, cc_parse = parse_cursor_text, cc_date = read_unary_date, cc_iso = unary_date\<rparr>"

lemma cursor_codec_laws:
  "codec_laws cursor_codec" "cc_parse cursor_codec (cc_json cursor_codec (cursor_value cursor_codec a)) = Some (cursor_value cursor_codec a)"
proof -
  show "codec_laws cursor_codec"
    by (auto simp: codec_laws_def cursor_codec_def unescape_escape escape_no_dot unary_date_def read_unary_date_def dest: escape_Nil)
  show "cc_parse cursor_codec (cc_json cursor_codec (cursor_value cursor_codec a)) = Some (cursor_value cursor_codec a)"
  proof -
    have "takeWhile (\<lambda>ch. ch = CHR ''a'') (replicate n (CHR ''a'') @ CHR ''b'' # xs) = replicate n (CHR ''a'')" for n xs
      by (induction n) simp_all
    then show ?thesis by (simp add: cursor_codec_def cursor_value_def cursor_text_def parse_cursor_text_def Let_def)
  qed
qed

definition example_audit :: "string \<Rightarrow> timestamp \<Rightarrow> admin_audit_row" where
  "example_audit i t = \<lparr>aa_id = i, aa_request_id = ''r'', aa_actor = ''admin'', aa_action = ''admin/user/disable'',
     aa_target_username = Some ''alice'', aa_result = ''succeeded'', aa_created_at = t\<rparr>"


end
