(* ===== verification/Admin_Service.thy ===== *)
theory Admin_Service
  imports Admin_Repository
begin

text \<open>
  The administrator's service (\<open>admin-service.ts\<close>): calls that change a managed user and the maintenance
  that removes users. A call is a sequence of awaited operations on the repository and on the system; calls
  and maintenance runs interleave between the operations.
\<close>

section \<open>Errors\<close>

definition invalidUserState :: "string \<Rightarrow> ce_error" where
  "invalidUserState message = GatewayV2Error (gateway_v2_error ''INVALID_USER_STATE'' message)"

definition revisionConflict :: "string \<Rightarrow> ce_error" where
  "revisionConflict name = GatewayV2Error (gateway_v2_error ''USER_STATE_CHANGED''
     (''Managed user state changed for '' @ name @ ''; refresh before retrying''))"

definition user_not_found :: ce_error where
  "user_not_found = GatewayV2Error (gateway_v2_error ''USER_NOT_FOUND'' ''User is not registered for CodexEverywhere'')"

section \<open>Operations\<close>

text \<open>
  The awaited operations. \<open>Guard\<close> is the test of the status between them. \<open>assertCurrentAccount\<close>,
  \<open>stopAgent\<close>, \<open>issueRecoveryHandoff\<close> and \<open>agentOnline\<close> do not change what is modelled, but can fail.
\<close>

datatype admin_action =
    Read_user string int
  | Account
  | Guard "managed_status list" string
  | Access bool
  | Stop_agent
  | Set_status managed_status "timestamp option"
  | Remove_state
  | Handoff
  | Agent_online
  | Register int string string

text \<open>The access markers of the host by uid, and the users whose state was removed.\<close>

record admin_world =
  aw_db :: admin_db
  aw_disabled :: "int \<Rightarrow> bool"
  aw_removed :: "managed_user list"

text \<open>An operation succeeds, or fails with an error, before or after its effect.\<close>

datatype op_outcome = Fine | Fails ce_error bool

definition setStatus_error :: "string \<Rightarrow> ce_error \<Rightarrow> ce_error" where
  "setStatus_error name e = (if e = ManagedUserRevisionConflictError name then revisionConflict name else e)"

definition register_error :: "ce_error \<Rightarrow> ce_error" where
  "register_error e = (case e of
     ManagedUserConflictError m \<Rightarrow> GatewayV2Error (gateway_v2_error ''USER_IDENTITY_CONFLICT'' m) | _ \<Rightarrow> e)"

fun action_effect :: "timestamp \<Rightarrow> admin_action \<Rightarrow> managed_user option \<Rightarrow> admin_world \<Rightarrow>
    (ce_error + managed_user option) \<times> admin_world" where
  "action_effect now (Read_user name expected) u w =
     (case admin_get name (aw_db w) of
        Inl e \<Rightarrow> (Inl e, w)
      | Inr None \<Rightarrow> (Inl user_not_found, w)
      | Inr (Some x) \<Rightarrow> if mu_revision x \<noteq> expected then (Inl (revisionConflict (mu_username x)), w) else (Inr (Some x), w))"
| "action_effect now (Register uid name home) u w =
     (case run_tx (admin_register uid name home now) (aw_db w) of
        (Inl e, db) \<Rightarrow> (Inl (register_error e), w\<lparr>aw_db := db\<rparr>)
      | (Inr x, db) \<Rightarrow> (Inr (Some x), w\<lparr>aw_db := db\<rparr>))"
| "action_effect now (Guard allowed message) (Some x) w =
     (if mu_status x \<in> set allowed then (Inr (Some x), w) else (Inl (invalidUserState message), w))"
| "action_effect now (Access disabled) (Some x) w = (Inr (Some x), w\<lparr>aw_disabled := (aw_disabled w)(mu_uid x := disabled)\<rparr>)"
| "action_effect now (Set_status s removeAfter) (Some x) w =
     (case run_tx (admin_setStatus (mu_username x) (mu_revision x) s removeAfter now) (aw_db w) of
        (Inl e, db) \<Rightarrow> (Inl (setStatus_error (mu_username x) e), w\<lparr>aw_db := db\<rparr>)
      | (Inr y, db) \<Rightarrow> (Inr (Some y), w\<lparr>aw_db := db\<rparr>))"
| "action_effect now Remove_state (Some x) w = (Inr (Some x), w\<lparr>aw_removed := aw_removed w @ [x]\<rparr>)"
| "action_effect now _ u w = (Inr u, w)"

definition run_action :: "timestamp \<Rightarrow> op_outcome \<Rightarrow> admin_action \<Rightarrow> managed_user option \<Rightarrow> admin_world \<Rightarrow>
    (ce_error + managed_user option) \<times> admin_world" where
  "run_action now out a u w =
     (case out of
        Fine \<Rightarrow> action_effect now a u w
      | Fails e took \<Rightarrow> (Inl e, if took then snd (action_effect now a u w) else w))"

text \<open>What the platform gives one \<open>appendAudit\<close>: the id, the time, and whether the transaction is kept.\<close>

record audit_try =
  at_id :: string
  at_now :: timestamp
  at_outcome :: op_outcome

definition try_append :: "admin_audit \<Rightarrow> audit_try \<Rightarrow> admin_world \<Rightarrow> (ce_error + admin_audit) \<times> admin_world" where
  "try_append a t w =
     (case run_tx (admin_appendAudit a) (aw_db w) of
        (res, db) \<Rightarrow>
          (case at_outcome t of
             Fine \<Rightarrow> (res, w\<lparr>aw_db := db\<rparr>)
           | Fails e took \<Rightarrow> (Inl e, if took then w\<lparr>aw_db := db\<rparr> else w)))"

section \<open>Calls\<close>

record admin_task =
  tk_user :: "managed_user option"
  tk_todo :: "admin_action list"
  tk_error :: "ce_error option"

definition task_of :: "admin_action list \<Rightarrow> admin_task" where
  "task_of todo = \<lparr>tk_user = None, tk_todo = todo, tk_error = None\<rparr>"

definition requiredCurrent :: "string \<Rightarrow> int \<Rightarrow> admin_action list" where
  "requiredCurrent name expected = [Read_user name expected, Account]"

definition admin_disable :: "string \<Rightarrow> int \<Rightarrow> admin_action list" where
  "admin_disable name expected = requiredCurrent name expected @
     [Guard [MU_enabled] ''Only an enabled user can be disabled'', Access True, Stop_agent, Set_status MU_disabled None, Agent_online]"

definition admin_enable :: "string \<Rightarrow> int \<Rightarrow> admin_action list" where
  "admin_enable name expected = requiredCurrent name expected @
     [Guard [MU_disabled, MU_removed] ''Only a disabled or removed user can be enabled'', Set_status MU_enabled None, Access False,
      Agent_online]"

definition scheduleRemoval :: "string \<Rightarrow> int \<Rightarrow> timestamp \<Rightarrow> admin_action list" where
  "scheduleRemoval name expected removeAfter = requiredCurrent name expected @
     [Guard [MU_enabled] ''Only an enabled user can be scheduled for removal'', Access True, Stop_agent,
      Set_status MU_removal_pending (Some removeAfter), Agent_online]"

definition cancelRemoval :: "string \<Rightarrow> int \<Rightarrow> admin_action list" where
  "cancelRemoval name expected = requiredCurrent name expected @
     [Guard [MU_removal_pending] ''The user is not pending removal'', Set_status MU_enabled None, Access False, Agent_online]"

definition startRecovery :: "string \<Rightarrow> int \<Rightarrow> admin_action list" where
  "startRecovery name expected = requiredCurrent name expected @
     [Guard [MU_enabled] ''Enable the user before starting Web credential recovery'', Stop_agent, Handoff]"

text \<open>\<open>#register\<close>, for the answer of \<open>inspectAccount\<close>.\<close>

datatype eligibility = Eligible int string string | Ineligible string

definition register_user :: "eligibility \<Rightarrow> ce_error + admin_action list" where
  "register_user e = (case e of
     Ineligible reason \<Rightarrow> Inl (GatewayV2Error (gateway_v2_error ''USER_INELIGIBLE'' (''Unix account is not eligible: '' @ reason)))
   | Eligible uid name home \<Rightarrow> Inr [Register uid name home, Agent_online])"

datatype admin_request =
    Disable string int
  | Enable string int
  | Schedule_removal string int timestamp
  | Cancel_removal string int
  | Start_recovery string int
  | Register_user eligibility

fun request_actions :: "admin_request \<Rightarrow> ce_error + admin_action list" where
  "request_actions (Disable name expected) = Inr (admin_disable name expected)"
| "request_actions (Enable name expected) = Inr (admin_enable name expected)"
| "request_actions (Schedule_removal name expected removeAfter) = Inr (scheduleRemoval name expected removeAfter)"
| "request_actions (Cancel_removal name expected) = Inr (cancelRemoval name expected)"
| "request_actions (Start_recovery name expected) = Inr (startRecovery name expected)"
| "request_actions (Register_user e) = register_user e"

definition admin_task_step :: "timestamp \<Rightarrow> op_outcome \<Rightarrow> admin_task \<Rightarrow> admin_world \<Rightarrow> admin_task \<times> admin_world" where
  "admin_task_step now out t w =
     (case tk_todo t of
        [] \<Rightarrow> (t, w)
      | a # todo \<Rightarrow>
          (case run_action now out a (tk_user t) w of
             (Inl e, w') \<Rightarrow> (t\<lparr>tk_todo := [], tk_error := Some e\<rparr>, w')
           | (Inr u, w') \<Rightarrow> (t\<lparr>tk_user := u, tk_todo := todo\<rparr>, w')))"

text \<open>The view of a user, with the shell of its account and whether its agent is online.\<close>

definition admin_view :: "managed_user \<Rightarrow> string \<Rightarrow> bool \<Rightarrow> managed_user \<times> string \<times> bool" where
  "admin_view u shell online = (u, shell, online)"

text \<open>\<open>#inspect\<close>: a failing \<open>agentOnline\<close> is its error.\<close>

datatype inspection = Not_eligible string | Not_registered | Registered "managed_user \<times> string \<times> bool"

definition admin_inspect :: "string \<Rightarrow> eligibility \<Rightarrow> string \<Rightarrow> ce_error + bool \<Rightarrow> admin_db \<Rightarrow> ce_error + inspection" where
  "admin_inspect name e shell online db =
     (case e of
        Ineligible reason \<Rightarrow> Inr (Not_eligible reason)
      | Eligible uid _ home \<Rightarrow>
          bind_result (admin_get name db) (\<lambda>stored.
            case stored of
              None \<Rightarrow> Inr Not_registered
            | Some u \<Rightarrow>
                if mu_uid u \<noteq> uid \<or> mu_home u \<noteq> home
                then Inr (Not_eligible ''The registered Unix identity no longer matches NSS'')
                else map_sum id (\<lambda>on. Registered (admin_view u shell on)) online))"

definition admin_auditList :: "codec \<Rightarrow> string option \<Rightarrow> string option \<Rightarrow> int \<Rightarrow> admin_db \<Rightarrow> ce_error + audit_page" where
  "admin_auditList c user cursor limit db =
     (case listAudit c user cursor limit db of
        Inl e \<Rightarrow> Inl (if e = AdminAuditCursorError
          then GatewayV2Error (gateway_v2_error ''INVALID_CURSOR'' ''Administrator audit cursor is invalid'') else e)
      | Inr page \<Rightarrow> Inr page)"

section \<open>Maintenance\<close>

definition applyRemoval :: "managed_user \<Rightarrow> admin_action list" where
  "applyRemoval c = [Account] @ (if mu_status c = MU_removing then [] else [Set_status MU_removing (mu_removeAfter c)]) @
     [Access True, Stop_agent, Remove_state, Set_status MU_removed None]"

definition removal_task :: "managed_user \<Rightarrow> admin_task" where
  "removal_task c = \<lparr>tk_user = Some c, tk_todo = applyRemoval c, tk_error = None\<rparr>"

text \<open>A run of \<open>maintenance\<close>: the candidates left, the one in progress with its task, and the failures.\<close>

record removal_run =
  rn_due :: "managed_user list"
  rn_candidate :: "managed_user option"
  rn_task :: admin_task
  rn_failures :: "ce_error list"
  rn_ended :: bool

definition maintenance_start :: "timestamp \<Rightarrow> admin_world \<Rightarrow> ce_error + removal_run" where
  "maintenance_start now w =
     map_sum id (\<lambda>due. \<lparr>rn_due = due, rn_candidate = None, rn_task = task_of [], rn_failures = [], rn_ended = False\<rparr>)
       (admin_dueRemovals now (aw_db w))"

definition maintenance_next :: "removal_run \<Rightarrow> removal_run" where
  "maintenance_next r =
     (if rn_ended r \<or> rn_candidate r \<noteq> None then r
      else case rn_due r of
             [] \<Rightarrow> r\<lparr>rn_ended := True\<rparr>
           | c # due \<Rightarrow> r\<lparr>rn_due := due, rn_candidate := Some c, rn_task := removal_task c\<rparr>)"

text \<open>The entry of a removal: when that of a success cannot be written, one of a failure is tried, and its error ends the run.\<close>

definition removal_entry :: "string \<Rightarrow> managed_user \<Rightarrow> audit_result \<Rightarrow> audit_try \<Rightarrow> admin_audit" where
  "removal_entry requestId c res t =
     \<lparr>ae_id = at_id t, ae_requestId = requestId, ae_actor = ''system:maintenance'', ae_action = ''admin/user/removal/apply'',
      ae_targetUsername = Some (mu_username c), ae_result = res, ae_createdAt = at_now t\<rparr>"

definition removal_failed ::
  "string \<Rightarrow> audit_try \<Rightarrow> managed_user \<Rightarrow> ce_error \<Rightarrow> removal_run \<Rightarrow> admin_world \<Rightarrow> removal_run \<times> admin_world" where
  "removal_failed requestId t c e r w =
     (case try_append (removal_entry requestId c Audit_failed t) t w of
        (Inl _, w1) \<Rightarrow> (r\<lparr>rn_ended := True\<rparr>, w1)
      | (Inr _, w1) \<Rightarrow> (r\<lparr>rn_candidate := None, rn_failures := rn_failures r @ [e]\<rparr>, w1))"

definition maintenance_audit ::
  "string \<Rightarrow> audit_try \<Rightarrow> audit_try \<Rightarrow> removal_run \<Rightarrow> admin_world \<Rightarrow> removal_run \<times> admin_world" where
  "maintenance_audit requestId t1 t2 r w =
     (case rn_candidate r of
        None \<Rightarrow> (r, w)
      | Some c \<Rightarrow>
          if tk_todo (rn_task r) \<noteq> [] then (r, w)
          else
            (case tk_error (rn_task r) of
               Some e \<Rightarrow> removal_failed requestId t2 c e r w
             | None \<Rightarrow>
                 (case try_append (removal_entry requestId c Audit_succeeded t1) t1 w of
                    (Inl e, w1) \<Rightarrow> removal_failed requestId t2 c e r w1
                  | (Inr _, w1) \<Rightarrow> (r\<lparr>rn_candidate := None\<rparr>, w1))))"

section \<open>Interleaving\<close>

record admin_system =
  as_world :: admin_world
  as_calls :: "admin_task list"
  as_runs :: "removal_run list"

text \<open>
  The events of the service. Calls start at any time and advance by one operation. A maintenance run starts
  when no other runs, as the flag \<open>maintenanceRunning\<close> of the composition root ensures within one process, or,
  with \<open>overlap\<close>, at any time, as the maintenance command of another process does. An ended run does
  nothing more.
\<close>

datatype admin_service_event =
    Call admin_request
  | Call_step nat timestamp op_outcome
  | Run_start timestamp
  | Run_next nat
  | Run_step nat timestamp op_outcome
  | Run_audit nat string audit_try audit_try

fun admin_do :: "bool \<Rightarrow> admin_service_event \<Rightarrow> admin_system \<Rightarrow> admin_system" where
  "admin_do overlap (Call q) s =
     (case request_actions q of Inl e \<Rightarrow> s | Inr todo \<Rightarrow> s\<lparr>as_calls := as_calls s @ [task_of todo]\<rparr>)"
| "admin_do overlap (Call_step i now out) s =
     (if length (as_calls s) \<le> i then s
      else case admin_task_step now out (as_calls s ! i) (as_world s) of
             (t, w) \<Rightarrow> s\<lparr>as_calls := (as_calls s)[i := t], as_world := w\<rparr>)"
| "admin_do overlap (Run_start now) s =
     (if \<not> overlap \<and> \<not> list_all rn_ended (as_runs s) then s
      else case maintenance_start now (as_world s) of Inl e \<Rightarrow> s | Inr r \<Rightarrow> s\<lparr>as_runs := as_runs s @ [r]\<rparr>)"
| "admin_do overlap (Run_next i) s =
     (if length (as_runs s) \<le> i then s else s\<lparr>as_runs := (as_runs s)[i := maintenance_next (as_runs s ! i)]\<rparr>)"
| "admin_do overlap (Run_step i now out) s =
     (if length (as_runs s) \<le> i \<or> rn_ended (as_runs s ! i) \<or> rn_candidate (as_runs s ! i) = None then s
      else case admin_task_step now out (rn_task (as_runs s ! i)) (as_world s) of
             (t, w) \<Rightarrow> s\<lparr>as_runs := (as_runs s)[i := (as_runs s ! i)\<lparr>rn_task := t\<rparr>], as_world := w\<rparr>)"
| "admin_do overlap (Run_audit i requestId t1 t2) s =
     (if length (as_runs s) \<le> i \<or> rn_ended (as_runs s ! i) then s
      else case maintenance_audit requestId t1 t2 (as_runs s ! i) (as_world s) of
             (r, w) \<Rightarrow> s\<lparr>as_runs := (as_runs s)[i := r], as_world := w\<rparr>)"

definition admin_run :: "bool \<Rightarrow> admin_service_event list \<Rightarrow> admin_world \<Rightarrow> admin_system" where
  "admin_run overlap evs w = fold (admin_do overlap) evs \<lparr>as_world = w, as_calls = [], as_runs = []\<rparr>"

section \<open>Changes of the table of users\<close>

text \<open>The life cycle of a managed user, and the part of it that calls take.\<close>

fun life_cycle :: "managed_status \<Rightarrow> managed_status \<Rightarrow> bool" where
  "life_cycle MU_enabled b \<longleftrightarrow> b = MU_disabled \<or> b = MU_removal_pending"
| "life_cycle MU_disabled b \<longleftrightarrow> b = MU_enabled"
| "life_cycle MU_removal_pending b \<longleftrightarrow> b = MU_enabled \<or> b = MU_removing"
| "life_cycle MU_removing b \<longleftrightarrow> b = MU_removed"
| "life_cycle MU_removed b \<longleftrightarrow> b = MU_enabled"

definition call_edge :: "managed_status \<Rightarrow> managed_status \<Rightarrow> bool" where
  "call_edge a b \<longleftrightarrow> life_cycle a b \<and> a \<noteq> MU_removing \<and> b \<noteq> MU_removing"

abbreviation find_user :: "string \<Rightarrow> admin_db \<Rightarrow> managed_row option" where
  "find_user name db \<equiv> t_find mr_username name (ad_users db)"

definition users_ok :: "admin_db \<Rightarrow> bool" where
  "users_ok db \<longleftrightarrow> t_keyed mr_username (ad_users db) \<and> t_keyed mr_uid (ad_users db)"

text \<open>
  The ways the table can change: not at all, by a new user, or by a step of the user of the given name
  along an edge, with the next revision.
\<close>

inductive users_move :: "(managed_status \<Rightarrow> managed_status \<Rightarrow> bool) \<Rightarrow> string \<Rightarrow> admin_db \<Rightarrow> admin_db \<Rightarrow> bool" for edge name where
  um_same: "ad_users db' = ad_users db \<Longrightarrow> users_move edge name db db'"
| um_new: "ad_users db' = ad_users db @ [r] \<Longrightarrow> find_user (mr_username r) db = None \<Longrightarrow>
    t_find mr_uid (mr_uid r) (ad_users db) = None \<Longrightarrow> users_move edge name db db'"
| um_step: "find_user name db = Some r \<Longrightarrow> mr_status r = status_text a \<Longrightarrow> edge a b \<Longrightarrow>
    r' = r\<lparr>mr_status := status_text b, mr_remove_after := ra, mr_updated_at := now, mr_revision := mr_revision r + 1\<rparr> \<Longrightarrow>
    ad_users db' = t_update (\<lambda>x. mr_username x = name) (\<lambda>_. r') (ad_users db) \<Longrightarrow> users_move edge name db db'"

lemma parse_facts:
  assumes "parseUser r = Inr u"
  shows "mu_username u = mr_username r" "mu_uid u = mr_uid r" "mu_revision u = mr_revision r" "mr_status r = status_text (mu_status u)"
    "mu_home u = mr_home r"
  using assms
  by (auto simp: parseUser_def bind_result_Inr sql_integer_def managedUserStatus_def split: if_splits)

lemma status_text_inject [simp]: "status_text a = status_text b \<longleftrightarrow> a = b"
  by (cases a; cases b) simp_all

lemma requiredUser_Inr: "requiredUser db name = Inr u \<longleftrightarrow> (\<exists>r. find_user name db = Some r \<and> parseUser r = Inr u)"
proof (cases "find_user name db")
  case (Some r)
  then show ?thesis by (cases "parseUser r") (simp_all add: requiredUser_def readUserByUsername_def)
qed (simp add: requiredUser_def readUserByUsername_def)

lemma find_update_user:
  assumes "find_user name db = Some r" and "mr_username r' = name"
  shows "t_find mr_username k (t_update (\<lambda>x. mr_username x = name) (\<lambda>_. r') (ad_users db)) = (if k = name then Some r' else find_user k db)"
proof -
  have "t_find mr_username k (t_update (\<lambda>x. mr_username x = name) (\<lambda>_. r') rows) =
      (if k = name then (if t_find mr_username name rows = None then None else Some r') else t_find mr_username k rows)" for rows
    using assms(2) by (induction rows) auto
  then show ?thesis using assms(1) by simp
qed

lemma setStatus_effect:
  assumes "t_keyed mr_username (ad_users db)" and "admin_setStatus name expected s ra now db = Inr (y, db')"
  obtains r u r' where "find_user name db = Some r" and "parseUser r = Inr u" and "mu_revision u = expected"
    and "r' = r\<lparr>mr_status := status_text s, mr_remove_after := ra, mr_updated_at := now, mr_revision := mr_revision r + 1\<rparr>"
    and "ad_users db' = t_update (\<lambda>x. mr_username x = name) (\<lambda>_. r') (ad_users db)" and "ad_audit db' = ad_audit db"
    and "find_user name db' = Some r'" and "parseUser r' = Inr y"
proof -
  obtain r u where r: "find_user name db = Some r" "parseUser r = Inr u" "mu_revision u = expected"
    using assms(2) by (auto simp: admin_setStatus_def bind_result_Inr requiredUser_Inr Let_def split: if_splits)
  define r' where "r' = r\<lparr>mr_status := status_text s, mr_remove_after := ra, mr_updated_at := now, mr_revision := mr_revision r + 1\<rparr>"
  have name: "mr_username r = name" using r(1) by (rule t_find_SomeD)
  have rev: "mr_revision r = expected" using parse_facts [OF r(2)] r(3) by simp
  have same: "(mr_username x = name \<and> mr_revision x = expected) = (mr_username x = name)" "mr_username x = name \<Longrightarrow> x = r"
    if "x \<in> set (ad_users db)" for x
    using t_find_keyed [OF assms(1) that] r(1) rev by auto
  have "t_update (\<lambda>x. mr_username x = name \<and> mr_revision x = expected)
      (\<lambda>r. r\<lparr>mr_status := status_text s, mr_remove_after := ra, mr_updated_at := now, mr_revision := mr_revision r + 1\<rparr>) (ad_users db) =
      t_update (\<lambda>x. mr_username x = name) (\<lambda>_. r') (ad_users db)"
    unfolding t_update_def r'_def by (rule map_cong) (use same in auto)
  then have db': "db' = db\<lparr>ad_users := t_update (\<lambda>x. mr_username x = name) (\<lambda>_. r') (ad_users db)\<rparr>" and y: "requiredUser db' name = Inr y"
    using assms(2) by (auto simp: admin_setStatus_def bind_result_Inr Let_def split: if_splits)
  have "find_user name db' = Some r'" using find_update_user [OF r(1), of r' name] name by (simp add: db' r'_def)
  with y r db' r'_def that show thesis by (auto simp: requiredUser_Inr)
qed

end
