(* ===== verification/Admin_Safety.thy ===== *)
theory Admin_Safety
  imports Admin_Service
begin

text \<open>
  What the administrator's service ensures however its calls interleave: the optimistic revision makes every
  change a step of the life cycle, and the state of a user is removed only while the user is being removed.
\<close>

section \<open>Tasks and the table\<close>

text \<open>A record a task has read: the row may have moved on since, but with the same revision it is the same.\<close>

definition fits :: "managed_user \<Rightarrow> admin_db \<Rightarrow> bool" where
  "fits u db \<longleftrightarrow> (\<exists>r. find_user (mu_username u) db = Some r \<and> mr_uid r = mu_uid u \<and> mu_revision u \<le> mr_revision r \<and>
     (mu_revision u = mr_revision r \<longrightarrow> parseUser r = Inr u))"

text \<open>The row is still the one that was read.\<close>

definition current :: "managed_user \<Rightarrow> admin_db \<Rightarrow> bool" where
  "current u db \<longleftrightarrow> (\<exists>r. find_user (mu_username u) db = Some r \<and> parseUser r = Inr u)"

text \<open>Operations that move a record of the given status only along the edges, and remove only what is being removed.\<close>

fun lawful :: "(managed_status \<Rightarrow> managed_status \<Rightarrow> bool) \<Rightarrow> managed_status \<Rightarrow> admin_action list \<Rightarrow> bool" where
  "lawful edge s [] \<longleftrightarrow> True"
| "lawful edge s (Guard allowed m # todo) \<longleftrightarrow> (s \<in> set allowed \<longrightarrow> lawful edge s todo)"
| "lawful edge s (Set_status b ra # todo) \<longleftrightarrow> edge s b \<and> lawful edge b todo"
| "lawful edge s (Read_user n e # todo) \<longleftrightarrow> (\<forall>s'. lawful edge s' todo)"
| "lawful edge s (Register i n h # todo) \<longleftrightarrow> (\<forall>s'. lawful edge s' todo)"
| "lawful edge s (Remove_state # todo) \<longleftrightarrow> s = MU_removing \<and> lawful edge s todo"
| "lawful edge s (Account # todo) \<longleftrightarrow> lawful edge s todo"
| "lawful edge s (Access d # todo) \<longleftrightarrow> lawful edge s todo"
| "lawful edge s (Stop_agent # todo) \<longleftrightarrow> lawful edge s todo"
| "lawful edge s (Handoff # todo) \<longleftrightarrow> lawful edge s todo"
| "lawful edge s (Agent_online # todo) \<longleftrightarrow> lawful edge s todo"

fun reads :: "admin_action \<Rightarrow> bool" where
  "reads (Read_user n e) = True"
| "reads (Register i n h) = True"
| "reads _ = False"

definition ready :: "(managed_status \<Rightarrow> managed_status \<Rightarrow> bool) \<Rightarrow> admin_db \<Rightarrow> managed_user option \<Rightarrow> admin_action list \<Rightarrow> bool" where
  "ready edge db u todo =
     (case u of
        None \<Rightarrow> (case todo of [] \<Rightarrow> True | a # todo' \<Rightarrow> reads a \<and> lawful edge MU_enabled todo)
      | Some x \<Rightarrow> fits x db \<and> lawful edge (mu_status x) todo)"

lemma reads_lawful: "reads a \<Longrightarrow> lawful edge s (a # todo) = (\<forall>s'. lawful edge s' todo)"
  by (cases a) simp_all

lemma current_fits: "current u db \<Longrightarrow> fits u db"
  unfolding current_def fits_def using parse_facts by fastforce

lemma find_snoc: "t_find key k xs = Some r \<Longrightarrow> t_find key k (xs @ ys) = Some r"
  by (induction xs) auto

lemma step_keys:
  assumes "find_user name db = Some r" and "r' = r\<lparr>mr_status := st, mr_remove_after := ra, mr_updated_at := now, mr_revision := n\<rparr>"
    and "t_keyed mr_username (ad_users db)"
  shows "map mr_username (t_update (\<lambda>x. mr_username x = name) (\<lambda>_. r') (ad_users db)) = map mr_username (ad_users db)"
    "map mr_uid (t_update (\<lambda>x. mr_username x = name) (\<lambda>_. r') (ad_users db)) = map mr_uid (ad_users db)"
proof -
  have "mr_username x = name \<Longrightarrow> x = r" if "x \<in> set (ad_users db)" for x
    using t_find_keyed [OF assms(3) that] assms(1) by auto
  then show "map mr_username (t_update (\<lambda>x. mr_username x = name) (\<lambda>_. r') (ad_users db)) = map mr_username (ad_users db)"
    "map mr_uid (t_update (\<lambda>x. mr_username x = name) (\<lambda>_. r') (ad_users db)) = map mr_uid (ad_users db)"
    unfolding t_update_def map_map o_def by (auto simp: assms(2) intro!: map_cong)
qed

lemma move_users_ok: "users_move edge name db db' \<Longrightarrow> users_ok db \<Longrightarrow> users_ok db'"
proof (induction rule: users_move.induct)
  case (um_step db r a b r' ra now db')
  then show ?case using step_keys [OF um_step.hyps(1,4)] by (simp add: users_ok_def t_keyed_def)
qed (simp_all add: users_ok_def)

lemma move_fits: "users_move edge name db db' \<Longrightarrow> fits u db \<Longrightarrow> fits u db'"
proof (induction rule: users_move.induct)
  case (um_new db' db r)
  then show ?case by (auto simp: fits_def find_snoc)
next
  case (um_step db r a b r' ra now db')
  have "mr_username r = name" using um_step.hyps(1) by (rule t_find_SomeD)
  then have "find_user k db' = (if k = name then Some r' else find_user k db)" for k
    using find_update_user [OF um_step.hyps(1), of r' k] um_step.hyps(4,5) by simp
  with um_step show ?case by (auto simp: fits_def)
qed (simp add: fits_def)

text \<open>A row whose status has no edge out of it stays as it is, and so does every other user's.\<close>

lemma move_current:
  "users_move edge name db db' \<Longrightarrow> current u db \<Longrightarrow> mu_username u \<noteq> name \<or> (\<forall>b. \<not> edge (mu_status u) b) \<Longrightarrow> current u db'"
proof (induction rule: users_move.induct)
  case (um_new db' db r)
  then show ?case by (auto simp: current_def find_snoc)
next
  case (um_step db r a b r' ra now db')
  have "mr_username r = name" using um_step.hyps(1) by (rule t_find_SomeD)
  then have find: "find_user k db' = (if k = name then Some r' else find_user k db)" for k
    using find_update_user [OF um_step.hyps(1), of r' k] um_step.hyps(4,5) by simp
  have "mu_username u \<noteq> name"
    using um_step.prems um_step.hyps(1-3) parse_facts(4) by (auto simp: current_def)
  with um_step.prems(1) find show ?case by (simp add: current_def)
qed (simp add: current_def)

lemma move_mono: "users_move edge name db db' \<Longrightarrow> (\<And>a b. edge a b \<Longrightarrow> edge' a b) \<Longrightarrow> users_move edge' name db db'"
  by (erule users_move.cases) (auto intro: users_move.intros)

section \<open>One operation\<close>

lemma read_current: "admin_get name db = Inr (Some u) \<Longrightarrow> current u db"
proof -
  assume "admin_get name db = Inr (Some u)"
  then obtain r where r: "find_user name db = Some r" "parseUser r = Inr u"
    by (auto simp: admin_get_def readUserByUsername_def split: option.splits) (metis Inl_Inr_False Inr_inject map_sum.simps option.inject sum.exhaust)
  moreover have "mu_username u = name" using parse_facts(1) [OF r(2)] t_find_SomeD [OF r(1)] by simp
  ultimately show ?thesis by (auto simp: current_def)
qed

lemma registered:
  assumes "users_ok db" and "admin_register uid name home now db = Inr (u, db')"
  shows "users_move edge nm db db'" "current u db'"
proof -
  have users: "users_move edge nm db db' \<and> current u db'"
  proof (cases "db' = db")
    case True
    have "\<exists>r \<in> set (ad_users db). parseUser r = Inr u"
    proof (cases "t_find mr_uid uid (ad_users db)")
      case (Some r)
      then show ?thesis
        using assms(2) t_find_Some [OF Some]
        by (cases "parseUser r") (auto simp: admin_register_def readUserByUid_def bind_result_Inr split: if_splits)
    next
      case None
      show ?thesis
      proof (cases "find_user name db")
        case (Some r)
        then show ?thesis
          using assms(2) None t_find_Some [OF Some]
          by (cases "parseUser r") (auto simp: admin_register_def readUserByUid_def readUserByUsername_def bind_result_Inr split: if_splits)
      next
        case no: None
        then have "requiredUser db name = Inr u"
          using assms(2) None True by (auto simp: admin_register_def readUserByUid_def readUserByUsername_def bind_result_Inr)
        then show ?thesis using no by (simp add: requiredUser_Inr)
      qed
    qed
    then obtain r where r: "r \<in> set (ad_users db)" "parseUser r = Inr u"
      by auto
    then have "find_user (mu_username u) db = Some r"
      using assms(1) parse_facts(1) [OF r(2)] by (simp add: users_ok_def t_find_keyed)
    with True r(2) show ?thesis by (auto simp: current_def intro: um_same)
  next
    case False
    then obtain r where r: "insert_user r db = Inr db'" "mr_username r = name" "requiredUser db' name = Inr u"
      using assms(2) by (auto simp: admin_register_def bind_result_Inr split: option.splits if_splits)
    then obtain r' where r': "find_user name db' = Some r'" "parseUser r' = Inr u" by (auto simp: requiredUser_Inr)
    have "mu_username u = name" using parse_facts(1) [OF r'(2)] t_find_SomeD [OF r'(1)] by simp
    moreover have "users_move edge nm db db'"
      using r(1) by (auto simp: insert_user_def intro: um_new split: if_splits)
    ultimately show ?thesis using r' by (auto simp: current_def)
  qed
  then show "users_move edge nm db db'" "current u db'" by simp_all
qed

lemma status_set:
  assumes "users_ok db" and "fits x db" and "edge (mu_status x) s"
    and "admin_setStatus (mu_username x) (mu_revision x) s ra now db = Inr (y, db')"
  shows "users_move edge (mu_username x) db db'" "current y db'" "mu_status y = s" "mu_username y = mu_username x" "current x db"
proof -
  from assms(1) have keyed: "t_keyed mr_username (ad_users db)" by (simp add: users_ok_def)
  obtain r u r' where r: "find_user (mu_username x) db = Some r" "parseUser r = Inr u" "mu_revision u = mu_revision x"
    and r': "r' = r\<lparr>mr_status := status_text s, mr_remove_after := ra, mr_updated_at := now, mr_revision := mr_revision r + 1\<rparr>"
    and db': "ad_users db' = t_update (\<lambda>z. mr_username z = mu_username x) (\<lambda>_. r') (ad_users db)"
    and y: "find_user (mu_username x) db' = Some r'" "parseUser r' = Inr y"
    by (rule setStatus_effect [OF keyed assms(4)])
  have "parseUser r = Inr x" using assms(2) r parse_facts(3) [OF r(2)] by (auto simp: fits_def)
  then have x: "u = x" "mr_status r = status_text (mu_status x)" using r(2) parse_facts(4) by auto
  show "users_move edge (mu_username x) db db'" using r(1) x(2) assms(3) r' db' by (rule um_step)
  have name: "mu_username y = mu_username x"
    using parse_facts(1) [OF y(2)] t_find_SomeD [OF y(1)] by simp
  then show "mu_username y = mu_username x" "current y db'" using y by (auto simp: current_def)
  show "mu_status y = s" using parse_facts(4) [OF y(2)] r' by simp
  show "current x db" using r(1) r(2) x(1) by (auto simp: current_def)
qed

text \<open>The name of the user an operation may change: the one of its record.\<close>

definition subject :: "managed_user option \<Rightarrow> string" where
  "subject u = (case u of None \<Rightarrow> [] | Some x \<Rightarrow> mu_username x)"

lemma effect_ready:
  assumes "users_ok (aw_db w)" and "ready edge (aw_db w) u (a # todo)" and "action_effect now a u w = (res, w')"
  shows "users_move edge (subject u) (aw_db w) (aw_db w') \<and>
    (\<forall>u'. res = Inr u' \<longrightarrow> ready edge (aw_db w') u' todo \<and> u' \<noteq> None)"
proof (cases a)
  case (Read_user name expected)
  have "\<forall>s. lawful edge s todo" using assms(2) Read_user by (auto simp: ready_def split: option.splits)
  then show ?thesis
    using assms(3) Read_user read_current [of name "aw_db w"] current_fits
    by (auto simp: ready_def intro!: um_same split: sum.splits option.splits if_splits)
next
  case (Register uid name home)
  have l: "\<forall>s. lawful edge s todo" using assms(2) Register by (auto simp: ready_def split: option.splits)
  show ?thesis
  proof (cases "admin_register uid name home now (aw_db w)")
    case (Inl e)
    then show ?thesis using assms(3) Register by (auto intro: um_same)
  next
    case (Inr p)
    obtain v db' where p: "p = (v, db')" by (cases p)
    note reg = registered(1) [OF assms(1) Inr [unfolded p], where edge = edge and nm = "subject u"]
      and cur = registered(2) [OF assms(1) Inr [unfolded p]]
    show ?thesis using assms(3) Register Inr p reg l current_fits [OF cur] by (auto simp: ready_def)
  qed
next
  case (Set_status s ra)
  then obtain x where x: "u = Some x" using assms(2) by (auto simp: ready_def split: option.splits)
  then have ok: "fits x (aw_db w)" "edge (mu_status x) s" "lawful edge s todo" using assms(2) Set_status by (auto simp: ready_def)
  show ?thesis
  proof (cases "admin_setStatus (mu_username x) (mu_revision x) s ra now (aw_db w)")
    case (Inl e)
    then show ?thesis using assms(3) Set_status x by (auto intro: um_same)
  next
    case (Inr p)
    obtain y db' where p: "p = (y, db')" by (cases p)
    note st = status_set [where edge = edge, OF assms(1) ok(1,2) Inr [unfolded p]]
    show ?thesis using assms(3) Set_status x Inr p st ok(3) current_fits [OF st(2)] by (auto simp: ready_def subject_def)
  qed
qed (use assms(2,3) in \<open>auto simp: ready_def intro!: um_same split: option.splits if_splits\<close>)

section \<open>Tasks\<close>

lemma admin_task_step_cases:
  assumes "admin_task_step now out t w = (t', w')"
  obtains (idle) "tk_todo t = []" "t' = t" "w' = w"
  | (failed) a todo where "tk_todo t = a # todo" "tk_todo t' = []" "tk_user t' = tk_user t" "w' = w \<or> w' = snd (action_effect now a (tk_user t) w)"
  | (done_one) a todo u where "tk_todo t = a # todo" "t' = t\<lparr>tk_user := u, tk_todo := todo\<rparr>" "action_effect now a (tk_user t) w = (Inr u, w')"
proof (cases "tk_todo t")
  case Nil
  with assms have "t' = t" "w' = w" by (simp_all add: admin_task_step_def)
  with Nil show thesis by (rule idle)
next
  case (Cons a todo)
  show thesis
  proof (cases out)
    case Fine
    show thesis
    proof (cases "action_effect now a (tk_user t) w")
      case (Pair res w1)
      show thesis
      proof (cases res)
        case (Inl e)
        then have "t' = t\<lparr>tk_todo := [], tk_error := Some e\<rparr>" "w' = w1"
          using Cons Fine Pair assms by (simp_all add: admin_task_step_def run_action_def)
        then show thesis using Pair by (intro failed [OF Cons]) simp_all
      next
        case (Inr u)
        then have "t' = t\<lparr>tk_user := u, tk_todo := todo\<rparr>" "w' = w1"
          using Cons Fine Pair assms by (simp_all add: admin_task_step_def run_action_def)
        then show thesis using Pair Inr by (intro done_one [OF Cons]) simp_all
      qed
    qed
  next
    case (Fails e took)
    then have "t' = t\<lparr>tk_todo := [], tk_error := Some e\<rparr>" "w' = (if took then snd (action_effect now a (tk_user t) w) else w)"
      using Cons assms by (simp_all add: admin_task_step_def run_action_def)
    then show thesis by (intro failed [OF Cons]) simp_all
  qed
qed

lemma ready_done: "ready edge db u [] \<longleftrightarrow> (case u of None \<Rightarrow> True | Some x \<Rightarrow> fits x db)"
  by (simp add: ready_def split: option.splits)

lemma move_ready: "users_move edge name db db' \<Longrightarrow> ready edge' db u todo \<Longrightarrow> ready edge' db' u todo"
  using move_fits by (auto simp: ready_def split: option.splits)

lemma task_ready:
  assumes "users_ok (aw_db w)" and "ready edge (aw_db w) (tk_user t) (tk_todo t)" and "admin_task_step now out t w = (t', w')"
  shows "users_move edge (subject (tk_user t)) (aw_db w) (aw_db w')" "ready edge (aw_db w') (tk_user t') (tk_todo t')"
proof -
  have "users_move edge (subject (tk_user t)) (aw_db w) (aw_db w') \<and> ready edge (aw_db w') (tk_user t') (tk_todo t')"
    using assms(3)
  proof (cases rule: admin_task_step_cases)
    case idle
    then show ?thesis using assms(2) by (auto intro: um_same)
  next
    case (failed a todo)
    obtain res w1 where eff: "action_effect now a (tk_user t) w = (res, w1)" by (cases "action_effect now a (tk_user t) w")
    have "users_move edge (subject (tk_user t)) (aw_db w) (aw_db w1)"
      using effect_ready [OF assms(1) _ eff, of edge todo] assms(2) failed(1) by simp
    then have move: "users_move edge (subject (tk_user t)) (aw_db w) (aw_db w')"
      using failed(4) eff by (auto intro: um_same)
    have "ready edge (aw_db w) (tk_user t) []"
      using assms(2) by (auto simp: ready_def split: option.splits)
    then show ?thesis using move failed(2,3) move_ready by simp
  next
    case (done_one a todo u)
    then show ?thesis using effect_ready [OF assms(1) _ done_one(3), of edge todo] assms(2) by simp
  qed
  then show "users_move edge (subject (tk_user t)) (aw_db w) (aw_db w')" "ready edge (aw_db w') (tk_user t') (tk_todo t')"
    by simp_all
qed

section \<open>The system\<close>

definition call_ok :: "admin_db \<Rightarrow> admin_task \<Rightarrow> bool" where
  "call_ok db t \<longleftrightarrow> ready call_edge db (tk_user t) (tk_todo t) \<and> Remove_state \<notin> set (tk_todo t)"

definition run_ok :: "admin_db \<Rightarrow> removal_run \<Rightarrow> bool" where
  "run_ok db r \<longleftrightarrow> ready life_cycle db (tk_user (rn_task r)) (tk_todo (rn_task r)) \<and>
     (\<forall>c \<in> set (rn_due r). fits c db \<and> lawful life_cycle (mu_status c) (applyRemoval c))"

definition system_ok :: "admin_system \<Rightarrow> bool" where
  "system_ok s \<longleftrightarrow> users_ok (aw_db (as_world s)) \<and> (\<forall>t \<in> set (as_calls s). call_ok (aw_db (as_world s)) t) \<and>
     (\<forall>r \<in> set (as_runs s). run_ok (aw_db (as_world s)) r)"

lemma move_call_ok: "users_move edge name db db' \<Longrightarrow> call_ok db t \<Longrightarrow> call_ok db' t"
  using move_ready by (auto simp: call_ok_def)

lemma move_run_ok: "users_move edge name db db' \<Longrightarrow> run_ok db r \<Longrightarrow> run_ok db' r"
  using move_ready move_fits by (auto simp: run_ok_def)

lemma request_ok: "request_actions q = Inr todo \<Longrightarrow> call_ok db (task_of todo)"
  by (cases q)
    (auto simp: call_ok_def task_of_def ready_def admin_disable_def admin_enable_def scheduleRemoval_def cancelRemoval_def
      startRecovery_def requiredCurrent_def register_user_def call_edge_def split: eligibility.splits)

lemma due_current:
  assumes "users_ok db" and "admin_dueRemovals now db = Inr due"
  shows "\<forall>c \<in> set due. current c db \<and> mu_status c \<in> {MU_removal_pending, MU_removing}" "distinct (map mu_username due)"
proof -
  let ?rows = "sort_key due_order (filter (is_due now) (ad_users db))"
  have eq: "map parseUser ?rows = map Inr due"
    using assms(2) unfolding admin_dueRemovals_def map_result_Inr .
  then have pw: "list_all2 (\<lambda>r c. parseUser r = Inr c) ?rows due"
    by (simp add: list_all2_conv_all_nth list_eq_iff_nth_eq)
  show "\<forall>c \<in> set due. current c db \<and> mu_status c \<in> {MU_removal_pending, MU_removing}"
  proof
    fix c assume "c \<in> set due"
    then have "Inr c \<in> parseUser ` set ?rows" using eq by (metis image_eqI list.set_map)
    then obtain r where r: "r \<in> set ?rows" "parseUser r = Inr c" by auto
    then have "find_user (mu_username c) db = Some r"
      using assms(1) parse_facts(1) [OF r(2)] by (simp add: users_ok_def t_find_keyed)
    moreover have "mu_status c \<in> {MU_removal_pending, MU_removing}"
      using r parse_facts(4) [OF r(2)] by (cases "mu_status c") (auto simp: is_due_def)
    ultimately show "current c db \<and> mu_status c \<in> {MU_removal_pending, MU_removing}" using r(2) by (auto simp: current_def)
  qed
  have "map mu_username due = map mr_username ?rows"
    using pw parse_facts(1) by (auto simp: list_all2_conv_all_nth intro: nth_equalityI)
  moreover have "distinct (map mr_username ?rows)"
    using assms(1) by (auto simp: users_ok_def t_keyed_def distinct_map intro: inj_on_subset)
  ultimately show "distinct (map mu_username due)" by simp
qed

lemma removal_lawful: "mu_status c \<in> {MU_removal_pending, MU_removing} \<Longrightarrow> lawful life_cycle (mu_status c) (applyRemoval c)"
  by (auto simp: applyRemoval_def)

lemma system_move:
  assumes "system_ok s" and "users_move edge name (aw_db (as_world s)) (aw_db w')"
  shows "system_ok (s\<lparr>as_world := w'\<rparr>)"
  using assms move_users_ok [OF assms(2)] move_call_ok [OF assms(2)] move_run_ok [OF assms(2)] by (simp add: system_ok_def)

lemma set_call: "system_ok s \<Longrightarrow> call_ok (aw_db (as_world s)) t \<Longrightarrow> system_ok (s\<lparr>as_calls := (as_calls s)[i := t]\<rparr>)"
  using set_update_subset_insert [of "as_calls s" i t] by (auto simp: system_ok_def)

lemma set_run: "system_ok s \<Longrightarrow> run_ok (aw_db (as_world s)) r \<Longrightarrow> system_ok (s\<lparr>as_runs := (as_runs s)[i := r]\<rparr>)"
  using set_update_subset_insert [of "as_runs s" i r] by (auto simp: system_ok_def)

lemma next_run_ok: "run_ok db r \<Longrightarrow> run_ok db (maintenance_next r)"
proof (cases "rn_due r")
  case Nil
  then show "run_ok db r \<Longrightarrow> run_ok db (maintenance_next r)" by (simp add: run_ok_def maintenance_next_def)
next
  case (Cons c due)
  then have "run_ok db r \<Longrightarrow> ready life_cycle db (Some c) (applyRemoval c)" by (simp add: run_ok_def ready_def)
  with Cons show "run_ok db r \<Longrightarrow> run_ok db (maintenance_next r)" by (simp add: run_ok_def maintenance_next_def removal_task_def)
qed

lemma append_effect:
  assumes "try_append a t w = (res, w')"
  shows "ad_users (aw_db w') = ad_users (aw_db w)" "aw_removed w' = aw_removed w"
proof -
  have "ad_users db' = ad_users db" if "run_tx (admin_appendAudit a) db = (res, db')" for db db' res
    using that by (auto simp: run_tx_def admin_appendAudit_def bind_result_Inr split: sum.splits prod.splits)
  then show "ad_users (aw_db w') = ad_users (aw_db w)" "aw_removed w' = aw_removed w"
    using assms by (auto simp: try_append_def split: prod.splits op_outcome.splits if_splits)
qed

lemma failed_effect:
  assumes "removal_failed requestId t c e r w = (r', w')"
  shows "ad_users (aw_db w') = ad_users (aw_db w) \<and> aw_removed w' = aw_removed w \<and> rn_due r' = rn_due r \<and> rn_task r' = rn_task r \<and>
    (rn_candidate r' = None \<or> rn_candidate r' = rn_candidate r) \<and> (rn_ended r \<longrightarrow> rn_ended r')"
  using assms append_effect by (fastforce simp: removal_failed_def split: prod.splits sum.splits)

lemma audit_effect:
  assumes "maintenance_audit requestId t1 t2 r w = (r', w')"
  shows "ad_users (aw_db w') = ad_users (aw_db w)" "aw_removed w' = aw_removed w"
    "rn_due r' = rn_due r" "rn_task r' = rn_task r" "rn_candidate r' = None \<or> rn_candidate r' = rn_candidate r" "rn_ended r \<Longrightarrow> rn_ended r'"
proof -
  have "ad_users (aw_db w') = ad_users (aw_db w) \<and> aw_removed w' = aw_removed w \<and> rn_due r' = rn_due r \<and> rn_task r' = rn_task r \<and>
    (rn_candidate r' = None \<or> rn_candidate r' = rn_candidate r) \<and> (rn_ended r \<longrightarrow> rn_ended r')"
  proof (cases "rn_candidate r")
    case (Some c)
    show ?thesis
    proof (cases "tk_todo (rn_task r) \<noteq> [] \<or> tk_error (rn_task r) \<noteq> None")
      case True
      then show ?thesis using assms Some by (auto simp: maintenance_audit_def dest!: failed_effect split: if_splits)
    next
      case False
      obtain res w1 where t: "try_append (removal_entry requestId c Audit_succeeded t1) t1 w = (res, w1)"
        by (cases "try_append (removal_entry requestId c Audit_succeeded t1) t1 w")
      show ?thesis
        using assms Some False t append_effect [OF t] failed_effect [of requestId t2 c _ r w1 r' w']
        by (cases res) (auto simp: maintenance_audit_def)
    qed
  qed (use assms in \<open>simp add: maintenance_audit_def\<close>)
  then show "ad_users (aw_db w') = ad_users (aw_db w)" "aw_removed w' = aw_removed w"
    "rn_due r' = rn_due r" "rn_task r' = rn_task r" "rn_candidate r' = None \<or> rn_candidate r' = rn_candidate r" "rn_ended r \<Longrightarrow> rn_ended r'"
    by blast+
qed

lemma task_ok_call:
  assumes "users_ok (aw_db w)" and "call_ok (aw_db w) t" and "admin_task_step now out t w = (t', w')"
  shows "call_ok (aw_db w') t'" "users_move call_edge (subject (tk_user t)) (aw_db w) (aw_db w')" "aw_removed w' = aw_removed w"
proof -
  have r: "ready call_edge (aw_db w) (tk_user t) (tk_todo t)" and no: "Remove_state \<notin> set (tk_todo t)"
    using assms(2) by (simp_all add: call_ok_def)
  show "users_move call_edge (subject (tk_user t)) (aw_db w) (aw_db w')" by (rule task_ready(1) [OF assms(1) r assms(3)])
  have kept: "aw_removed w'' = aw_removed w" if "action_effect now a u w = (res, w'')" "a \<noteq> Remove_state" for a u res w''
    using that by (cases "(now, a, u, w)" rule: action_effect.cases) (auto split: sum.splits option.splits prod.splits if_splits)
  have "Remove_state \<notin> set (tk_todo t') \<and> aw_removed w' = aw_removed w"
    using assms(3)
  proof (cases rule: admin_task_step_cases)
    case idle
    then show ?thesis using no by simp
  next
    case (failed a todo)
    then show ?thesis using no kept [of a "tk_user t"] by (cases "action_effect now a (tk_user t) w") auto
  next
    case (done_one a todo u)
    then show ?thesis using no kept [OF done_one(3)] by auto
  qed
  then show "call_ok (aw_db w') t'" "aw_removed w' = aw_removed w"
    using task_ready(2) [OF assms(1) r assms(3)] by (simp_all add: call_ok_def)
qed

lemma call_edge_life: "call_edge a b \<Longrightarrow> life_cycle a b"
  by (simp add: call_edge_def)

lemma do_ok:
  assumes "system_ok s"
  shows "system_ok (admin_do overlap ev s) \<and> (\<exists>name. users_move life_cycle name (aw_db (as_world s)) (aw_db (as_world (admin_do overlap ev s))))"
proof (cases ev)
  case (Call q)
  then show ?thesis
    using assms request_ok [of q _ "aw_db (as_world s)"] by (auto simp: system_ok_def intro: um_same split: sum.splits)
next
  case (Call_step i now out)
  show ?thesis
  proof (cases "i < length (as_calls s)")
    case True
    obtain t w where t: "admin_task_step now out (as_calls s ! i) (as_world s) = (t, w)" by (cases "admin_task_step now out (as_calls s ! i) (as_world s)")
    have "call_ok (aw_db (as_world s)) (as_calls s ! i)" "users_ok (aw_db (as_world s))" using assms True by (simp_all add: system_ok_def)
    note ok = task_ok_call [OF this(2,1) t]
    have "system_ok (s\<lparr>as_world := w, as_calls := (as_calls s)[i := t]\<rparr>)"
      using set_call [OF system_move [OF assms ok(2)], of t i] ok(1) by simp
    moreover have "s\<lparr>as_world := w, as_calls := (as_calls s)[i := t]\<rparr> = admin_do overlap ev s" using Call_step True t by simp
    moreover have "users_move life_cycle (subject (tk_user (as_calls s ! i))) (aw_db (as_world s)) (aw_db w)"
      using ok(2) call_edge_life by (rule move_mono)
    ultimately show ?thesis using Call_step True t by auto
  qed (use assms Call_step in \<open>auto intro: um_same\<close>)
next
  case (Run_start now)
  have users: "users_ok (aw_db (as_world s))" using assms by (simp add: system_ok_def)
  show ?thesis
  proof (cases "admin_dueRemovals now (aw_db (as_world s))")
    case (Inr due)
    have "fits c (aw_db (as_world s)) \<and> lawful life_cycle (mu_status c) (applyRemoval c)" if "c \<in> set due" for c
      using due_current(1) [OF users Inr] that current_fits removal_lawful by blast
    then show ?thesis using assms Run_start Inr
      by (auto simp: system_ok_def run_ok_def maintenance_start_def ready_done task_of_def intro: um_same)
  qed (use assms Run_start in \<open>auto simp: maintenance_start_def intro: um_same\<close>)
next
  case (Run_next i)
  have same: "users_move life_cycle [] (aw_db (as_world s)) (aw_db (as_world s))" by (simp add: um_same)
  show ?thesis
  proof (cases "i < length (as_runs s)")
    case True
    then have "run_ok (aw_db (as_world s)) (as_runs s ! i)" using assms by (simp add: system_ok_def)
    from set_run [OF assms next_run_ok [OF this], of i] same True Run_next show ?thesis by auto
  qed (use assms Run_next same in auto)
next
  case (Run_step i now out)
  show ?thesis
  proof (cases "i < length (as_runs s) \<and> \<not> rn_ended (as_runs s ! i) \<and> rn_candidate (as_runs s ! i) \<noteq> None")
    case True
    let ?r = "as_runs s ! i"
    obtain t w where t: "admin_task_step now out (rn_task ?r) (as_world s) = (t, w)" by (cases "admin_task_step now out (rn_task ?r) (as_world s)")
    have run: "run_ok (aw_db (as_world s)) ?r" and users: "users_ok (aw_db (as_world s))" using assms True by (simp_all add: system_ok_def)
    then have r: "ready life_cycle (aw_db (as_world s)) (tk_user (rn_task ?r)) (tk_todo (rn_task ?r))" by (simp add: run_ok_def)
    note ok = task_ready [OF users r t]
    have "run_ok (aw_db w) (?r\<lparr>rn_task := t\<rparr>)"
      using move_run_ok [OF ok(1) run] ok(2) by (simp add: run_ok_def)
    then have "system_ok (s\<lparr>as_world := w, as_runs := (as_runs s)[i := ?r\<lparr>rn_task := t\<rparr>]\<rparr>)"
      using set_run [OF system_move [OF assms ok(1)], of "?r\<lparr>rn_task := t\<rparr>" i] by simp
    moreover have "s\<lparr>as_world := w, as_runs := (as_runs s)[i := ?r\<lparr>rn_task := t\<rparr>]\<rparr> = admin_do overlap ev s" using Run_step True t by auto
    ultimately show ?thesis using Run_step True t ok(1) by auto
  qed (use assms Run_step in \<open>auto intro: um_same\<close>)
next
  case (Run_audit i requestId t1 t2)
  show ?thesis
  proof (cases "i < length (as_runs s) \<and> \<not> rn_ended (as_runs s ! i)")
    case True
    let ?r = "as_runs s ! i"
    obtain r w where r: "maintenance_audit requestId t1 t2 ?r (as_world s) = (r, w)"
      by (cases "maintenance_audit requestId t1 t2 ?r (as_world s)")
    have move: "users_move life_cycle [] (aw_db (as_world s)) (aw_db w)" using audit_effect(1) [OF r] by (rule um_same)
    have "run_ok (aw_db w) ?r" using assms True move_run_ok [OF move] by (simp add: system_ok_def)
    then have "run_ok (aw_db w) r" using audit_effect(3,4) [OF r] by (simp add: run_ok_def)
    then have "system_ok (s\<lparr>as_world := w, as_runs := (as_runs s)[i := r]\<rparr>)"
      using set_run [OF system_move [OF assms move], of r i] by simp
    moreover have "s\<lparr>as_world := w, as_runs := (as_runs s)[i := r]\<rparr> = admin_do overlap ev s" using Run_audit True r by auto
    ultimately show ?thesis using Run_audit True r move by auto
  qed (use assms Run_audit in \<open>auto intro: um_same\<close>)
qed

lemma run_system_ok: "users_ok (aw_db w) \<Longrightarrow> system_ok (admin_run overlap evs w)"
proof -
  have "system_ok s \<Longrightarrow> system_ok (fold (admin_do overlap) evs s)" for s
    using do_ok by (induction evs arbitrary: s) auto
  then show "users_ok (aw_db w) \<Longrightarrow> system_ok (admin_run overlap evs w)"
    by (simp add: admin_run_def system_ok_def)
qed

section \<open>One run at a time\<close>

text \<open>The record of a user being removed is the row, as long as its operations go on.\<close>

definition removing_current :: "managed_user \<Rightarrow> admin_db \<Rightarrow> bool" where
  "removing_current u db \<longleftrightarrow> (mu_status u = MU_removing \<longrightarrow> current u db)"

definition run_names :: "removal_run \<Rightarrow> string list" where
  "run_names r = map mu_username ((case rn_candidate r of None \<Rightarrow> [] | Some c \<Rightarrow> [c]) @ rn_due r)"

definition task_holds :: "string \<Rightarrow> admin_db \<Rightarrow> admin_task \<Rightarrow> bool" where
  "task_holds name db t \<longleftrightarrow> tk_todo t = [] \<or>
     (\<exists>x. tk_user t = Some x \<and> mu_username x = name \<and> removing_current x db \<and> (\<forall>a \<in> set (tk_todo t). \<not> reads a))"

definition run_holds :: "admin_db \<Rightarrow> removal_run \<Rightarrow> bool" where
  "run_holds db r \<longleftrightarrow> rn_ended r \<or> distinct (run_names r) \<and> (\<forall>c \<in> set (rn_due r). removing_current c db) \<and>
     (\<forall>c. rn_candidate r = Some c \<longrightarrow> task_holds (mu_username c) db (rn_task r))"

definition one_run :: "admin_system \<Rightarrow> bool" where
  "one_run s \<longleftrightarrow> (\<forall>i < length (as_runs s). \<forall>j < length (as_runs s).
     \<not> rn_ended (as_runs s ! i) \<longrightarrow> \<not> rn_ended (as_runs s ! j) \<longrightarrow> i = j)"

definition removal_ok :: "admin_system \<Rightarrow> bool" where
  "removal_ok s \<longleftrightarrow> system_ok s \<and> one_run s \<and> (\<forall>r \<in> set (as_runs s). run_holds (aw_db (as_world s)) r)"

lemma move_removing:
  "users_move edge name db db' \<Longrightarrow> removing_current u db \<Longrightarrow> mu_username u \<noteq> name \<or> (\<forall>b. \<not> edge MU_removing b) \<Longrightarrow> removing_current u db'"
  using move_current [of edge name db db' u] by (auto simp: removing_current_def)

lemma call_run_holds: "users_move call_edge name db db' \<Longrightarrow> run_holds db r \<Longrightarrow> run_holds db' r"
  using move_removing [of call_edge name db db'] by (auto simp: run_holds_def task_holds_def call_edge_def)

lemma removal_step:
  assumes "users_ok (aw_db w)" and "ready life_cycle (aw_db w) (tk_user t) (tk_todo t)" and "task_holds name (aw_db w) t"
    and "admin_task_step now out t w = (t', w')"
  shows "task_holds name (aw_db w') t'"
    "aw_removed w' = aw_removed w \<or> (\<exists>u. aw_removed w' = aw_removed w @ [u] \<and> mu_status u = MU_removing \<and> current u (aw_db w'))"
proof -
  have eff: "aw_removed w1 = aw_removed w \<or> (\<exists>u. aw_removed w1 = aw_removed w @ [u] \<and> mu_status u = MU_removing \<and> current u (aw_db w1))"
    "res = Inr v \<longrightarrow> (\<exists>y. v = Some y \<and> mu_username y = name \<and> removing_current y (aw_db w1))"
    if e: "action_effect now a (tk_user t) w = (res, w1)" and a: "tk_todo t = a # todo" for a todo res w1 v
  proof -
    obtain x where x: "tk_user t = Some x" "mu_username x = name" "removing_current x (aw_db w)" "\<not> reads a"
      using assms(3) a by (auto simp: task_holds_def)
    have l: "fits x (aw_db w)" "lawful life_cycle (mu_status x) (a # todo)" using assms(2) x(1) a by (auto simp: ready_def)
    have "(aw_removed w1 = aw_removed w \<or> (\<exists>u. aw_removed w1 = aw_removed w @ [u] \<and> mu_status u = MU_removing \<and> current u (aw_db w1))) \<and>
      (res = Inr v \<longrightarrow> (\<exists>y. v = Some y \<and> mu_username y = name \<and> removing_current y (aw_db w1)))"
    proof (cases a)
      case (Set_status s ra)
      show ?thesis
      proof (cases "admin_setStatus (mu_username x) (mu_revision x) s ra now (aw_db w)")
        case (Inl err)
        then show ?thesis using e x Set_status by auto
      next
        case (Inr p)
        obtain y db' where p: "p = (y, db')" by (cases p)
        note st = status_set [where edge = life_cycle, OF assms(1) l(1) _ Inr [unfolded p]]
        show ?thesis using e x Set_status Inr p st l(2) by (auto simp: removing_current_def)
      qed
    next
      case Remove_state
      then show ?thesis using e x l by (auto simp: removing_current_def)
    qed (use e x in \<open>auto split: if_splits\<close>)
    then show "aw_removed w1 = aw_removed w \<or> (\<exists>u. aw_removed w1 = aw_removed w @ [u] \<and> mu_status u = MU_removing \<and> current u (aw_db w1))"
      "res = Inr v \<longrightarrow> (\<exists>y. v = Some y \<and> mu_username y = name \<and> removing_current y (aw_db w1))" by blast+
  qed
  have "task_holds name (aw_db w') t' \<and>
    (aw_removed w' = aw_removed w \<or> (\<exists>u. aw_removed w' = aw_removed w @ [u] \<and> mu_status u = MU_removing \<and> current u (aw_db w')))"
    using assms(4)
  proof (cases rule: admin_task_step_cases)
    case idle
    then show ?thesis by (simp add: task_holds_def)
  next
    case (failed a todo)
    obtain res w1 where e: "action_effect now a (tk_user t) w = (res, w1)" by (cases "action_effect now a (tk_user t) w")
    show ?thesis using eff(1) [OF e failed(1)] failed(2,4) e by (auto simp: task_holds_def)
  next
    case (done_one a todo u)
    then show ?thesis using eff(1) [OF done_one(3,1)] eff(2) [OF done_one(3,1), of u] assms(3) by (auto simp: task_holds_def)
  qed
  then show "task_holds name (aw_db w') t'"
    "aw_removed w' = aw_removed w \<or> (\<exists>u. aw_removed w' = aw_removed w @ [u] \<and> mu_status u = MU_removing \<and> current u (aw_db w'))"
    by blast+
qed

lemma removal_okI:
  assumes "system_ok s'" and "one_run s'" and "\<And>r. r \<in> set (as_runs s') \<Longrightarrow> run_holds (aw_db (as_world s')) r"
  shows "removal_ok s'"
  using assms by (simp add: removal_ok_def)

lemma set_one_run:
  assumes "one_run s" and "i < length (as_runs s)" and "rn_ended (as_runs s ! i) \<Longrightarrow> rn_ended r" and "as_runs s' = (as_runs s)[i := r]"
  shows "one_run s'"
  using assms by (auto simp: one_run_def nth_list_update)

lemma start_one_run: "list_all rn_ended (as_runs s) \<Longrightarrow> as_runs s' = as_runs s @ [r] \<Longrightarrow> one_run s'"
  by (auto simp: one_run_def nth_append list_all_length less_Suc_eq)

lemma next_holds: "run_holds db r \<Longrightarrow> run_ok db r \<Longrightarrow> run_holds db (maintenance_next r)"
proof (cases "rn_due r")
  case (Cons c due)
  have "\<forall>a \<in> set (applyRemoval c). \<not> reads a" by (simp add: applyRemoval_def)
  then show "run_holds db r \<Longrightarrow> run_holds db (maintenance_next r)"
    using Cons by (auto simp: run_holds_def maintenance_next_def run_names_def task_holds_def removal_task_def)
qed (auto simp: run_holds_def maintenance_next_def)

lemma start_holds:
  assumes "users_ok (aw_db w)" and "maintenance_start now w = Inr r"
  shows "run_holds (aw_db w) r"
proof (cases "admin_dueRemovals now (aw_db w)")
  case (Inr due)
  with assms(2) show ?thesis
    using due_current [OF assms(1) Inr] by (auto simp: maintenance_start_def run_holds_def run_names_def removing_current_def)
qed (use assms(2) in \<open>simp add: maintenance_start_def\<close>)

lemma audit_holds:
  assumes "run_holds (aw_db w) r" and "maintenance_audit requestId t1 t2 r w = (r', w')"
  shows "run_holds (aw_db w') r'"
proof -
  have "removing_current u (aw_db w') = removing_current u (aw_db w)" for u
    using audit_effect(1) [OF assms(2)] by (simp add: removing_current_def current_def)
  then show ?thesis using assms(1) audit_effect(3-6) [OF assms(2)]
    by (cases "rn_candidate r") (auto simp: run_holds_def task_holds_def run_names_def)
qed

text \<open>An operation of the run under way keeps what the run relies on, and all other runs have ended.\<close>

lemma run_step_holds:
  assumes "users_ok (aw_db w)" and "run_ok (aw_db w) r" and "run_holds (aw_db w) r" and "\<not> rn_ended r"
    and "rn_candidate r = Some c" and "admin_task_step now out (rn_task r) w = (t, w')"
  shows "run_holds (aw_db w') (r\<lparr>rn_task := t\<rparr>)"
    "aw_removed w' = aw_removed w \<or> (\<exists>u. aw_removed w' = aw_removed w @ [u] \<and> mu_status u = MU_removing \<and> current u (aw_db w'))"
proof -
  have r: "ready life_cycle (aw_db w) (tk_user (rn_task r)) (tk_todo (rn_task r))" using assms(2) by (simp add: run_ok_def)
  have holds: "task_holds (mu_username c) (aw_db w) (rn_task r)" using assms(3-5) by (simp add: run_holds_def)
  note step = removal_step [OF assms(1) r holds assms(6)]
  show "aw_removed w' = aw_removed w \<or> (\<exists>u. aw_removed w' = aw_removed w @ [u] \<and> mu_status u = MU_removing \<and> current u (aw_db w'))"
    by (rule step(2))
  note move = task_ready(1) [OF assms(1) r assms(6)]
  have "removing_current d (aw_db w')" if d: "d \<in> set (rn_due r)" for d
  proof (cases "tk_todo (rn_task r) = []")
    case True
    then have "w' = w" using assms(6) by (simp add: admin_task_step_def)
    then show ?thesis using assms(3,4) d by (simp add: run_holds_def)
  next
    case False
    then have "subject (tk_user (rn_task r)) = mu_username c" using holds by (auto simp: task_holds_def subject_def)
    moreover have "mu_username d \<noteq> mu_username c" using assms(3-5) d by (auto simp: run_holds_def run_names_def image_iff)
    ultimately show ?thesis using move_removing [OF move] assms(3,4) d by (auto simp: run_holds_def)
  qed
  then show "run_holds (aw_db w') (r\<lparr>rn_task := t\<rparr>)"
    using assms(3-5) step(1) by (auto simp: run_holds_def run_names_def)
qed

definition removal_safe :: "admin_system \<Rightarrow> admin_system \<Rightarrow> bool" where
  "removal_safe s s' \<longleftrightarrow> aw_removed (as_world s') = aw_removed (as_world s) \<or>
     (\<exists>u. aw_removed (as_world s') = aw_removed (as_world s) @ [u] \<and> mu_status u = MU_removing \<and> current u (aw_db (as_world s')))"

lemma do_removal:
  assumes "removal_ok s"
  shows "removal_ok (admin_do False ev s) \<and> removal_safe s (admin_do False ev s)"
proof (cases "admin_do False ev s = s")
  case True
  then show ?thesis using assms by (simp add: removal_safe_def)
next
  case changed: False
  have ok: "system_ok s" "one_run s" "users_ok (aw_db (as_world s))"
    and holds: "\<And>r. r \<in> set (as_runs s) \<Longrightarrow> run_holds (aw_db (as_world s)) r"
    and runs: "\<And>r. r \<in> set (as_runs s) \<Longrightarrow> run_ok (aw_db (as_world s)) r"
    using assms by (simp_all add: removal_ok_def system_ok_def)
  note next_ok = do_ok [OF ok(1), of False ev, THEN conjunct1]
  have upd: "run_holds db r" if "\<And>r. r \<in> set (as_runs s) \<Longrightarrow> run_holds db r" "run_holds db r'" "r \<in> set ((as_runs s)[i := r'])" for db r r' i
    using that set_update_subset_insert [of "as_runs s" i r'] by blast
  show ?thesis
  proof (cases ev)
    case (Call q)
    then show ?thesis using holds ok(2) next_ok
      by (auto simp: removal_ok_def removal_safe_def one_run_def split: sum.splits)
  next
    case (Call_step i now out)
    then have i: "i < length (as_calls s)" using changed by (auto split: if_splits)
    obtain t w where t: "admin_task_step now out (as_calls s ! i) (as_world s) = (t, w)" by (cases "admin_task_step now out (as_calls s ! i) (as_world s)")
    have "call_ok (aw_db (as_world s)) (as_calls s ! i)" using ok(1) i by (simp add: system_ok_def)
    note step = task_ok_call [OF ok(3) this t]
    have "\<forall>r \<in> set (as_runs s). run_holds (aw_db w) r" using holds call_run_holds [OF step(2)] by blast
    then show ?thesis using next_ok ok(2) step(3) Call_step i t by (auto simp: removal_ok_def removal_safe_def one_run_def)
  next
    case (Run_start now)
    then have ended: "list_all rn_ended (as_runs s)" using changed by (auto split: if_splits)
    then obtain r where r: "maintenance_start now (as_world s) = Inr r" using changed Run_start by (auto split: sum.splits)
    have new: "admin_do False ev s = s\<lparr>as_runs := as_runs s @ [r]\<rparr>" using Run_start ended r by simp
    show ?thesis
      using next_ok start_one_run [OF ended, of "admin_do False ev s" r] start_holds [OF ok(3) r] holds
      by (auto simp: removal_ok_def removal_safe_def new)
  next
    case (Run_next i)
    then have i: "i < length (as_runs s)" using changed by (auto split: if_splits)
    let ?r = "as_runs s ! i"
    have new: "admin_do False ev s = s\<lparr>as_runs := (as_runs s)[i := maintenance_next ?r]\<rparr>" using Run_next i by simp
    have "rn_ended ?r \<Longrightarrow> rn_ended (maintenance_next ?r)" by (simp add: maintenance_next_def)
    then have "one_run (admin_do False ev s)" by (rule set_one_run [OF ok(2) i]) (simp_all add: new)
    moreover have "run_holds (aw_db (as_world s)) (maintenance_next ?r)" using holds runs i by (intro next_holds) simp_all
    ultimately show ?thesis using next_ok upd [OF holds] by (auto simp: removal_ok_def removal_safe_def new)
  next
    case (Run_step i now out)
    let ?r = "as_runs s ! i"
    have i: "i < length (as_runs s)" and live: "\<not> rn_ended ?r" and "rn_candidate ?r \<noteq> None"
      using changed Run_step by (auto split: if_splits)
    then obtain c where c: "rn_candidate ?r = Some c" by auto
    obtain t w where t: "admin_task_step now out (rn_task ?r) (as_world s) = (t, w)" by (cases "admin_task_step now out (rn_task ?r) (as_world s)")
    have new: "admin_do False ev s = s\<lparr>as_runs := (as_runs s)[i := ?r\<lparr>rn_task := t\<rparr>], as_world := w\<rparr>"
      using Run_step i live c t by simp
    have step: "run_holds (aw_db w) (?r\<lparr>rn_task := t\<rparr>)" "removal_safe s (s\<lparr>as_world := w\<rparr>)"
      using run_step_holds [OF ok(3) _ _ live c t] runs holds i by (simp_all add: removal_safe_def)
    have "run_holds (aw_db w) (as_runs (admin_do False ev s) ! j)" if "j < length (as_runs s)" for j
      using that step(1) ok(2) i live by (cases "j = i") (auto simp: new one_run_def run_holds_def)
    then have "\<forall>r \<in> set (as_runs (admin_do False ev s)). run_holds (aw_db w) r"
      by (auto simp: in_set_conv_nth new)
    moreover have "one_run (admin_do False ev s)" by (rule set_one_run [OF ok(2) i]) (use live in \<open>simp_all add: new\<close>)
    ultimately show ?thesis using next_ok step(2) by (simp add: removal_ok_def removal_safe_def new)
  next
    case (Run_audit i requestId t1 t2)
    let ?r = "as_runs s ! i"
    have i: "i < length (as_runs s)" and live: "\<not> rn_ended ?r" using changed Run_audit by (auto split: if_splits)
    obtain r w where r: "maintenance_audit requestId t1 t2 ?r (as_world s) = (r, w)"
      by (cases "maintenance_audit requestId t1 t2 ?r (as_world s)")
    have new: "admin_do False ev s = s\<lparr>as_runs := (as_runs s)[i := r], as_world := w\<rparr>" using Run_audit i live r by simp
    have "run_holds (aw_db w) (as_runs (admin_do False ev s) ! j)" if "j < length (as_runs s)" for j
      using that audit_holds [OF holds r] ok(2) i live by (cases "j = i") (auto simp: new one_run_def run_holds_def)
    then have "\<forall>r \<in> set (as_runs (admin_do False ev s)). run_holds (aw_db w) r"
      by (auto simp: in_set_conv_nth new)
    moreover have "one_run (admin_do False ev s)" by (rule set_one_run [OF ok(2) i]) (use live in \<open>simp_all add: new\<close>)
    ultimately show ?thesis using next_ok audit_effect(2) [OF r] by (simp add: removal_ok_def removal_safe_def new)
  qed
qed

lemma run_removal_ok: "users_ok (aw_db w) \<Longrightarrow> removal_ok (admin_run False evs w)"
proof -
  have fold_ok: "removal_ok s \<Longrightarrow> removal_ok (fold (admin_do False) evs s)" for s
    using do_removal by (induction evs arbitrary: s) auto
  assume "users_ok (aw_db w)"
  then have "removal_ok \<lparr>as_world = w, as_calls = [], as_runs = []\<rparr>" by (simp add: removal_ok_def system_ok_def one_run_def)
  then show "removal_ok (admin_run False evs w)" unfolding admin_run_def by (rule fold_ok)
qed

lemma move_row:
  assumes "users_move life_cycle name db db'" and "find_user k db = Some r"
  obtains r' where "find_user k db' = Some r'" and "r' = r \<or> (\<exists>a b ra now. mr_status r = status_text a \<and> life_cycle a b \<and>
     r' = r\<lparr>mr_status := status_text b, mr_remove_after := ra, mr_updated_at := now, mr_revision := mr_revision r + 1\<rparr>)"
  using assms(1)
proof cases
  case um_same
  with assms(2) that show thesis by simp
next
  case (um_new r1)
  with assms(2) that find_snoc show thesis by metis
next
  case (um_step r0 a b r' ra now)
  have "mr_username r0 = name" using um_step(1) by (rule t_find_SomeD)
  then have "find_user k db' = (if k = name then Some r' else find_user k db)"
    using find_update_user [OF um_step(1), of r' k] um_step(4,5) by simp
  with um_step assms(2) that show thesis by (cases "k = name") auto
qed

section \<open>Properties\<close>

definition example_user :: "string \<Rightarrow> timestamp option \<Rightarrow> managed_row" where
  "example_user status ra = \<lparr>mr_uid = 1000, mr_username = ''alice'', mr_home = ''/home/alice'', mr_status = status,
     mr_registered_at = 1, mr_updated_at = 1, mr_revision = 1, mr_remove_after = ra\<rparr>"

definition example_admin :: "managed_row list \<Rightarrow> admin_world" where
  "example_admin users = \<lparr>aw_db = \<lparr>ad_users = users, ad_audit = []\<rparr>, aw_disabled = (\<lambda>_. False), aw_removed = []\<rparr>"

lemma example_admin_ok: "users_ok (aw_db (example_admin [example_user status ra]))"
  by (simp add: example_admin_def users_ok_def t_keyed_def)

text \<open>
  Claim C36. However the administrator's calls and the maintenance runs interleave and fail, even with runs that overlap, each of
  their operations leaves every managed user's uid, name, home and registration time, and moves its
  status, if at all, by one step of the life cycle with the next revision; no user is dropped.
\<close>

theorem managed_users_follow_life_cycle:
  assumes "users_ok (aw_db w)" and "s = admin_run overlap evs w"
    and "t_find mr_username name (ad_users (aw_db (as_world s))) = Some r"
  shows "\<exists>r'. t_find mr_username name (ad_users (aw_db (as_world (admin_do overlap ev s)))) = Some r' \<and>
    mr_uid r' = mr_uid r \<and> mr_home r' = mr_home r \<and> mr_registered_at r' = mr_registered_at r \<and>
    (r' = r \<or> (\<exists>a b. mr_status r = status_text a \<and> mr_status r' = status_text b \<and> life_cycle a b \<and>
       mr_revision r' = mr_revision r + 1))"
proof -
  obtain name' where "users_move life_cycle name' (aw_db (as_world s)) (aw_db (as_world (admin_do overlap ev s)))"
    using do_ok [OF run_system_ok [OF assms(1), of overlap evs], of overlap ev] assms(2) by auto
  then show ?thesis using assms(3) by (rule move_row) auto
qed

theorem managed_users_follow_life_cycle_witness:
  "\<exists>r'. t_find mr_username ''alice'' (ad_users (aw_db (as_world (admin_do True (Run_start 10)
      (admin_run True [] (example_admin [example_user ''removing'' None])))))) = Some r' \<and> mr_uid r' = 1000"
  using managed_users_follow_life_cycle [OF example_admin_ok refl, of "''alice''" True "[]" "''removing''" None
      "example_user ''removing'' None" "Run_start 10"]
  by (auto simp: example_admin_def example_user_def admin_run_def)

text \<open>
  Claim C33. When no two maintenance runs overlap, the state of a user is removed only while the user's stored record is
  the one the run holds and its status is removing, however calls of the administrator and failures interleave.
\<close>

theorem state_removed_only_while_removing:
  assumes "users_ok (aw_db w)" and "s = admin_run False evs w"
    and "aw_removed (as_world (admin_do False ev s)) \<noteq> aw_removed (as_world s)"
  shows "\<exists>u r. aw_removed (as_world (admin_do False ev s)) = aw_removed (as_world s) @ [u] \<and> mu_status u = MU_removing \<and>
    t_find mr_username (mu_username u) (ad_users (aw_db (as_world (admin_do False ev s)))) = Some r \<and> parseUser r = Inr u"
  using do_removal [OF run_removal_ok [OF assms(1), of evs], of ev] assms(2,3) by (auto simp: removal_safe_def current_def)

definition removal_events :: "admin_service_event list" where
  "removal_events = [Run_start 10, Run_next 0, Run_step 0 10 Fine, Run_step 0 10 Fine, Run_step 0 10 Fine, Run_step 0 10 Fine]"

lemma removal_example:
  "map mu_username (aw_removed (as_world (admin_run False removal_events (example_admin [example_user ''removal_pending'' (Some 5)])))) = []"
  "map mu_username (aw_removed (as_world (admin_do False (Run_step 0 10 Fine)
     (admin_run False removal_events (example_admin [example_user ''removal_pending'' (Some 5)]))))) = [''alice'']"
  by code_simp+

theorem state_removed_only_while_removing_witness:
  "\<exists>u r. aw_removed (as_world (admin_do False (Run_step 0 10 Fine)
      (admin_run False removal_events (example_admin [example_user ''removal_pending'' (Some 5)])))) = [u] \<and> mu_status u = MU_removing"
  using state_removed_only_while_removing [OF example_admin_ok refl, of "Run_step 0 10 Fine" removal_events "''removal_pending''" "Some 5"]
    removal_example by (auto simp del: admin_do.simps)

text \<open>
  Two overlapping runs, as the daemon and the maintenance command can have: the second read the user while
  it was being removed, and removes its state after the user has been enabled again.
\<close>

definition overlap_events :: "admin_service_event list" where
  "overlap_events = [Run_start 10, Run_next 0, Run_step 0 10 Fine, Run_step 0 10 Fine, Run_start 10, Run_next 1,
     Run_step 0 10 Fine, Run_step 0 10 Fine, Run_step 0 10 Fine, Run_step 0 10 Fine,
     Call (Enable ''alice'' 3), Call_step 0 11 Fine, Call_step 0 11 Fine, Call_step 0 11 Fine, Call_step 0 11 Fine, Call_step 0 11 Fine,
     Run_step 1 12 Fine, Run_step 1 12 Fine, Run_step 1 12 Fine]"

lemma overlapping_runs_remove_enabled_state:
  "let s = admin_run True overlap_events (example_admin [example_user ''removal_pending'' (Some 5)]);
       s' = admin_do True (Run_step 1 12 Fine) s
   in map mr_status (ad_users (aw_db (as_world s'))) = [''enabled''] \<and>
      length (aw_removed (as_world s')) = Suc (length (aw_removed (as_world s)))"
  by code_simp

text \<open>\<open>#enable\<close> removes the access marker after its change of the status: it can remove the marker of a \<open>#disable\<close> in between.\<close>

definition access_events :: "admin_service_event list" where
  "access_events = [Call (Enable ''alice'' 1), Call_step 0 11 Fine, Call_step 0 11 Fine, Call_step 0 11 Fine, Call_step 0 11 Fine,
     Call (Disable ''alice'' 2), Call_step 1 12 Fine, Call_step 1 12 Fine, Call_step 1 12 Fine, Call_step 1 12 Fine,
     Call_step 1 12 Fine, Call_step 1 12 Fine, Call_step 0 13 Fine]"

lemma disabled_user_keeps_access:
  "let s = admin_run False access_events (example_admin [example_user ''disabled'' None])
   in map mr_status (ad_users (aw_db (as_world s))) = [''disabled''] \<and> \<not> aw_disabled (as_world s) 1000"
  by code_simp

end
