(* ===== verification/Admin_Middleware.thy ===== *)
theory Admin_Middleware
  imports Admin_Service Mutation_Middleware
begin

text \<open>
  The audit of the administrator's mutations (\<open>admin-mutation-middleware.ts\<close>): around each mutation that
  the inner middleware executes, one entry of the log tells who asked for what and how it ended.
\<close>

section \<open>The entry\<close>

definition name_start :: "char \<Rightarrow> bool" where
  "name_start ch \<longleftrightarrow> (CHR ''A'' \<le> ch \<and> ch \<le> CHR ''Z'') \<or> (CHR ''a'' \<le> ch \<and> ch \<le> CHR ''z'') \<or> ch = CHR ''_''"

definition name_part :: "char \<Rightarrow> bool" where
  "name_part ch \<longleftrightarrow> name_start ch \<or> (CHR ''0'' \<le> ch \<and> ch \<le> CHR ''9'') \<or> ch = CHR ''.'' \<or> ch = CHR ''-''"

text \<open>The pattern of a user name: a start, at most 63 more characters, and possibly a dollar sign at the end.\<close>

definition safe_username :: "string \<Rightarrow> bool" where
  "safe_username s =
     (case (if s \<noteq> [] \<and> last s = CHR ''$'' then butlast s else s) of
        [] \<Rightarrow> False
      | ch # rest \<Rightarrow> name_start ch \<and> length rest \<le> 63 \<and> list_all name_part rest)"

definition safeTargetUsername :: "js \<Rightarrow> string option" where
  "safeTargetUsername v =
     (case v of
        JObj xs \<Rightarrow> (case js_prop v ''username'' of JStr s \<Rightarrow> if safe_username s then Some s else None | _ \<Rightarrow> None)
      | _ \<Rightarrow> None)"

definition mutation_entry :: "string \<Rightarrow> invocation \<Rightarrow> audit_result \<Rightarrow> audit_try \<Rightarrow> admin_audit" where
  "mutation_entry requestId iv res t =
     \<lparr>ae_id = at_id t, ae_requestId = requestId, ae_actor = iv_principalId iv, ae_action = iv_method iv,
      ae_targetUsername = safeTargetUsername (iv_input iv), ae_result = res, ae_createdAt = at_now t\<rparr>"

section \<open>The middleware\<close>

text \<open>
  The function that the inner middleware runs. The \<open>try\<close> block contains the entry of the success too: when
  that cannot be written the mutation is recorded and reported as failed.
\<close>

definition audited_run ::
  "string \<Rightarrow> invocation \<Rightarrow> (admin_world \<Rightarrow> (ce_error + 'r) \<times> admin_world) \<Rightarrow> audit_try \<Rightarrow> audit_try \<Rightarrow> admin_world \<Rightarrow>
     (ce_error + 'r) \<times> admin_world" where
  "audited_run requestId iv execute t1 t2 w =
     (if take 6 (iv_method iv) \<noteq> ''admin/'' then execute w
      else
        let fail = (\<lambda>e w1. case try_append (mutation_entry requestId iv Audit_failed t2) t2 w1 of
               (Inl e2, w2) \<Rightarrow> (Inl e2, w2) | (Inr _, w2) \<Rightarrow> (Inl e, w2))
        in case execute w of
             (Inl e, w1) \<Rightarrow> fail e w1
           | (Inr x, w1) \<Rightarrow>
               (case try_append (mutation_entry requestId iv Audit_succeeded t1) t1 w1 of
                  (Inl e, w2) \<Rightarrow> fail e w2
                | (Inr _, w2) \<Rightarrow> (Inr x, w2)))"

section \<open>Outcomes\<close>

definition audit_row_of :: "admin_audit \<Rightarrow> admin_audit_row" where
  "audit_row_of a = \<lparr>aa_id = ae_id a, aa_request_id = ae_requestId a, aa_actor = ae_actor a, aa_action = ae_action a,
     aa_target_username = ae_targetUsername a, aa_result = result_text (ae_result a), aa_created_at = ae_createdAt a\<rparr>"

lemma try_append_fine:
  assumes "at_outcome t = Fine" and "ae_id a \<notin> aa_id ` set (ad_audit (aw_db w))"
  shows "try_append a t w = (Inr a, w\<lparr>aw_db := (aw_db w)\<lparr>ad_audit := ad_audit (aw_db w) @ [audit_row_of a]\<rparr>\<rparr>)"
proof -
  have "t_find aa_id (ae_id a) (ad_audit (aw_db w)) = None" using assms(2) by (auto simp: t_find_None)
  then show ?thesis
    using assms(1) by (simp add: try_append_def run_tx_def admin_appendAudit_def t_insert_def audit_row_of_def)
qed

lemma parse_audit_row: "parseAudit (audit_row_of a) = Inr a"
  by (cases "ae_result a") (simp_all add: parseAudit_def audit_row_of_def)

text \<open>
  When the log can be written, the log gets one entry for a mutation, which tells its result, and the
  caller gets what the mutation answered.
\<close>

lemma audited_outcome:
  assumes "take 6 (iv_method iv) = ''admin/''" and "execute w = (res, w1)"
    and "at_outcome t1 = Fine" and "at_outcome t2 = Fine"
    and "at_id t1 \<notin> aa_id ` set (ad_audit (aw_db w1))" and "at_id t2 \<notin> aa_id ` set (ad_audit (aw_db w1))"
  shows "\<exists>entry. audited_run requestId iv execute t1 t2 w =
      (res, w1\<lparr>aw_db := (aw_db w1)\<lparr>ad_audit := ad_audit (aw_db w1) @ [audit_row_of entry]\<rparr>\<rparr>) \<and>
    ae_actor entry = iv_principalId iv \<and> ae_action entry = iv_method iv \<and> ae_requestId entry = requestId \<and>
    ae_targetUsername entry = safeTargetUsername (iv_input iv) \<and> (ae_result entry = Audit_succeeded \<longleftrightarrow> \<not> isl res)"
proof (cases res)
  case (Inl e)
  have "try_append (mutation_entry requestId iv Audit_failed t2) t2 w1 = (Inr (mutation_entry requestId iv Audit_failed t2),
      w1\<lparr>aw_db := (aw_db w1)\<lparr>ad_audit := ad_audit (aw_db w1) @ [audit_row_of (mutation_entry requestId iv Audit_failed t2)]\<rparr>\<rparr>)"
    by (rule try_append_fine) (simp_all add: assms mutation_entry_def)
  then show ?thesis using assms(1,2) Inl
    by (intro exI [of _ "mutation_entry requestId iv Audit_failed t2"]) (simp add: audited_run_def mutation_entry_def)
next
  case (Inr x)
  have "try_append (mutation_entry requestId iv Audit_succeeded t1) t1 w1 = (Inr (mutation_entry requestId iv Audit_succeeded t1),
      w1\<lparr>aw_db := (aw_db w1)\<lparr>ad_audit := ad_audit (aw_db w1) @ [audit_row_of (mutation_entry requestId iv Audit_succeeded t1)]\<rparr>\<rparr>)"
    by (rule try_append_fine) (simp_all add: assms mutation_entry_def)
  then show ?thesis using assms(1,2) Inr
    by (intro exI [of _ "mutation_entry requestId iv Audit_succeeded t1"]) (simp add: audited_run_def mutation_entry_def)
qed

text \<open>
  A mutation that took effect is recorded as failed, and its error is that of the log, when only the entry
  of its success could not be written.
\<close>

lemma success_recorded_as_failure:
  "let iv = \<lparr>iv_principalId = ''root'', iv_operationKey = ''k'', iv_method = ''admin/user/enable'',
         iv_input = JObj [(''username'', JStr ''alice'')], iv_idempotency = Durable\<rparr>;
       w = \<lparr>aw_db = \<lparr>ad_users = [], ad_audit = []\<rparr>, aw_disabled = (\<lambda>_. True), aw_removed = []\<rparr>;
       (res, w') = audited_run ''r'' iv (\<lambda>w. (Inr (), w\<lparr>aw_disabled := (\<lambda>_. False)\<rparr>))
         \<lparr>at_id = ''a'', at_now = 1, at_outcome = Fails (Error ''disk full'') False\<rparr> \<lparr>at_id = ''b'', at_now = 2, at_outcome = Fine\<rparr> w
   in isl res \<and> \<not> aw_disabled w' 1000 \<and> map aa_result (ad_audit (aw_db w')) = [''failed''] \<and>
      map aa_target_username (ad_audit (aw_db w')) = [Some ''alice'']"
  by code_simp

end
