(* ===== verification/State_Snapshot.thy ===== *)
theory State_Snapshot
  imports Workspace_Repository Admin_Repository "HOL-Library.Multiset"
begin

text \<open>
  Export and replacement of the whole state (\<open>user-state-database.ts\<close>, \<open>admin-state-database.ts\<close>,
  \<open>snapshot-sql.ts\<close>). The records of a snapshot have the fields of the rows; the readers sort them by the
  keys of their queries and refuse integers that are not safe. \<open>hex(hash)\<close> orders as the bytes do. \<open>fk\<close>
  says whether the connection enforces foreign keys: the pragma is part of the schema script only.
\<close>

section \<open>Tables in general\<close>

fun insert_rows :: "('r \<Rightarrow> 's \<Rightarrow> ce_error + 's) \<Rightarrow> 'r list \<Rightarrow> 's \<Rightarrow> ce_error + 's" where
  "insert_rows ins [] rows = Inr rows"
| "insert_rows ins (r # rs) rows = bind_result (ins r rows) (insert_rows ins rs)"

definition checked_insert :: "('r \<Rightarrow> bool) \<Rightarrow> ('r \<Rightarrow> 'k) \<Rightarrow> string \<Rightarrow> 'r \<Rightarrow> 'r list \<Rightarrow> ce_error + 'r list" where
  "checked_insert ok key table r rows =
     (if \<not> ok r then Inl (SqlConstraint (''CHECK constraint failed: '' @ table)) else t_insert key table r rows)"

definition table_ok :: "('r \<Rightarrow> bool) \<Rightarrow> ('r \<Rightarrow> 'k) \<Rightarrow> 'r list \<Rightarrow> bool" where
  "table_ok ok key rows \<longleftrightarrow> t_keyed key rows \<and> (\<forall>r \<in> set rows. ok r)"

text \<open>A table whose constraints hold for a set of rows, in any order, and whose INSERT checks them.\<close>

locale constrained_table =
  fixes ins :: "'r \<Rightarrow> 'r list \<Rightarrow> ce_error + 'r list" and valid :: "'r list \<Rightarrow> bool"
  assumes valid_Nil: "valid []"
    and valid_prefix: "valid (rows @ [r]) \<Longrightarrow> valid rows"
    and valid_mset: "valid rows \<Longrightarrow> mset rows' = mset rows \<Longrightarrow> valid rows'"
    and ins_valid: "valid rows \<Longrightarrow> ins r rows = Inr rows' \<longleftrightarrow> valid (rows @ [r]) \<and> rows' = rows @ [r]"
begin

lemma valid_append: "valid (rows @ rs) \<Longrightarrow> valid rows"
proof (induction rs rule: rev_induct)
  case (snoc r rs)
  then show ?case using valid_prefix [of "rows @ rs" r] by simp
qed simp

lemma insert_rows_iff: "valid rows \<Longrightarrow> insert_rows ins rs rows = Inr rows' \<longleftrightarrow> valid (rows @ rs) \<and> rows' = rows @ rs"
proof (induction rs arbitrary: rows)
  case (Cons r rs)
  show ?case
  proof (cases "valid (rows @ [r])")
    case True
    then have "ins r rows = Inr (rows @ [r])" using ins_valid [OF Cons.prems] by simp
    then show ?thesis using Cons.IH [OF True] by simp
  next
    case False
    then have "\<not> valid (rows @ r # rs)" using valid_append [of "rows @ [r]" rs] by auto
    moreover have "ins r rows \<noteq> Inr x" for x using ins_valid [OF Cons.prems] False by simp
    ultimately show ?thesis by (cases "ins r rows") auto
  qed
qed auto

lemma insert_all_iff: "insert_rows ins rs [] = Inr rows' \<longleftrightarrow> valid rs \<and> rows' = rs"
  using insert_rows_iff [OF valid_Nil] by simp

lemma insert_sorted: "valid rows \<Longrightarrow> insert_rows ins (sort_key k rows) [] = Inr (sort_key k rows)"
  using insert_all_iff valid_mset [of rows "sort_key k rows"] by simp

end

lemma table_ok_mset: "table_ok ok key rows \<Longrightarrow> mset rows' = mset rows \<Longrightarrow> table_ok ok key rows'"
  unfolding table_ok_def t_keyed_def by (metis mset_eq_imp_distinct_iff mset_eq_setD mset_map)

lemma table_ok_snoc: "table_ok ok key (rows @ [r]) \<longleftrightarrow> table_ok ok key rows \<and> ok r \<and> t_find key (key r) rows = None"
  by (auto simp: table_ok_def)

lemma checked_insert_table: "constrained_table (checked_insert ok key table) (table_ok ok key)"
proof
  show "table_ok ok key []" by (simp add: table_ok_def)
  show "table_ok ok key (rows @ [r]) \<Longrightarrow> table_ok ok key rows" for rows r by (simp add: table_ok_snoc)
  show "table_ok ok key rows \<Longrightarrow> mset rows' = mset rows \<Longrightarrow> table_ok ok key rows'" for rows rows' by (rule table_ok_mset)
  show "checked_insert ok key table r rows = Inr rows' \<longleftrightarrow> table_ok ok key (rows @ [r]) \<and> rows' = rows @ [r]"
    if "table_ok ok key rows" for r rows rows'
    using that by (auto simp: checked_insert_def t_insert_def table_ok_snoc)
qed

abbreviation any_row :: "'r \<Rightarrow> bool" where
  "any_row \<equiv> (\<lambda>_. True)"

section \<open>Identity and receipts\<close>

record identity_tables =
  it_devices :: "trusted_device_row list"
  it_pairings :: "pairing_row list"
  it_passkeys :: "passkey_row list"
  it_codes :: "recovery_code_row list"
  it_password :: "password_row option"

definition int_column :: "('r \<Rightarrow> int) \<Rightarrow> string \<Rightarrow> 'r \<Rightarrow> ce_error + 'r" where
  "int_column get field r = bind_result (sql_integer (get r) field) (\<lambda>_. Inr r)"

definition readIdentity :: "identity_tables \<Rightarrow> ce_error + identity_tables" where
  "readIdentity t =
     bind_result (map_result (int_column pk_sign_count ''passkey sign count'')
       (sort_key (\<lambda>r. (pk_created_at r, pk_credential_id r)) (it_passkeys t))) (\<lambda>passkeys.
     Inr \<lparr>it_devices = sort_key dv_id (it_devices t), it_pairings = sort_key pr_id (it_pairings t), it_passkeys = passkeys,
       it_codes = sort_key (\<lambda>r. (rc_created_at r, rc_hash r)) (it_codes t), it_password = it_password t\<rparr>)"

definition insert_passkey :: "passkey_row \<Rightarrow> passkey_row list \<Rightarrow> ce_error + passkey_row list" where
  "insert_passkey = checked_insert (\<lambda>r. 0 \<le> pk_sign_count r) pk_credential_id ''passkeys''"

definition insert_password :: "password_row option \<Rightarrow> password_row option \<Rightarrow> ce_error + password_row option" where
  "insert_password p stored =
     (if p = None then Inr stored
      else if stored \<noteq> None then Inl (SqlConstraint ''UNIQUE constraint failed: web_password'') else Inr p)"

definition insertIdentity :: "identity_tables \<Rightarrow> identity_tables \<Rightarrow> ce_error + identity_tables" where
  "insertIdentity i t =
     bind_result (insert_rows (checked_insert any_row dv_id ''trusted_devices'') (it_devices i) (it_devices t)) (\<lambda>devices.
     bind_result (insert_rows (checked_insert any_row pr_id ''pairing_sessions'') (it_pairings i) (it_pairings t)) (\<lambda>pairings.
     bind_result (insert_rows insert_passkey (it_passkeys i) (it_passkeys t)) (\<lambda>passkeys.
     bind_result (insert_rows (checked_insert any_row rc_hash ''recovery_codes'') (it_codes i) (it_codes t)) (\<lambda>codes.
     bind_result (insert_password (it_password i) (it_password t)) (\<lambda>password.
     Inr \<lparr>it_devices = devices, it_pairings = pairings, it_passkeys = passkeys, it_codes = codes, it_password = password\<rparr>)))))"

definition cleared_identity :: identity_tables where
  "cleared_identity = \<lparr>it_devices = [], it_pairings = [], it_passkeys = [], it_codes = [], it_password = None\<rparr>"

definition readMutationReceipts :: "receipt_row list \<Rightarrow> receipt_row list" where
  "readMutationReceipts rows = sort_key (\<lambda>r. (rr_created_at r, rr_operation_key r)) rows"

definition insertMutationReceipts :: "receipt_row list \<Rightarrow> receipt_row list \<Rightarrow> ce_error + receipt_row list" where
  "insertMutationReceipts = insert_rows (checked_insert any_row rr_operation_key ''mutation_receipts'')"

definition identity_ok :: "identity_tables \<Rightarrow> bool" where
  "identity_ok t \<longleftrightarrow> table_ok any_row dv_id (it_devices t) \<and> table_ok any_row pr_id (it_pairings t) \<and>
     table_ok (\<lambda>r. 0 \<le> pk_sign_count r) pk_credential_id (it_passkeys t) \<and> table_ok any_row rc_hash (it_codes t)"

definition same_identity :: "identity_tables \<Rightarrow> identity_tables \<Rightarrow> bool" where
  "same_identity t t' \<longleftrightarrow> mset (it_devices t) = mset (it_devices t') \<and> mset (it_pairings t) = mset (it_pairings t') \<and>
     mset (it_passkeys t) = mset (it_passkeys t') \<and> mset (it_codes t) = mset (it_codes t') \<and> it_password t = it_password t'"

interpretation devices: constrained_table "checked_insert any_row dv_id ''trusted_devices''" "table_ok any_row dv_id"
  by (rule checked_insert_table)

interpretation pairings: constrained_table "checked_insert any_row pr_id ''pairing_sessions''" "table_ok any_row pr_id"
  by (rule checked_insert_table)

interpretation passkeys: constrained_table insert_passkey "table_ok (\<lambda>r. 0 \<le> pk_sign_count r) pk_credential_id"
  unfolding insert_passkey_def by (rule checked_insert_table)

interpretation codes: constrained_table "checked_insert any_row rc_hash ''recovery_codes''" "table_ok any_row rc_hash"
  by (rule checked_insert_table)

interpretation receipts: constrained_table "checked_insert any_row rr_operation_key ''mutation_receipts''" "table_ok any_row rr_operation_key"
  by (rule checked_insert_table)

lemma sort_twice [simp]: "sort_key k (sort_key k xs) = sort_key k xs"
  by (rule sort_key_id_if_sorted) simp

lemma map_int_column: "map_result (int_column get field) rows = Inr rows' \<longleftrightarrow> rows' = rows \<and> (\<forall>r \<in> set rows. safe_integer (get r))"
proof -
  have column: "int_column get field r = Inr x \<longleftrightarrow> x = r \<and> safe_integer (get r)" for r x
    by (auto simp: int_column_def sql_integer_def)
  show ?thesis
    unfolding map_result_Inr by (induction rows arbitrary: rows') (auto simp: column Cons_eq_map_conv)
qed

lemma identity_round_trip:
  assumes "identity_ok t" and "readIdentity t = Inr i"
  shows "insertIdentity i cleared_identity = Inr i" "readIdentity i = Inr i" "same_identity t i"
  using assms
  by (auto simp: readIdentity_def bind_result_Inr insertIdentity_def cleared_identity_def identity_ok_def same_identity_def
      devices.insert_sorted pairings.insert_sorted passkeys.insert_sorted codes.insert_sorted map_int_column insert_password_def)

lemma inserted_identity: "insertIdentity i cleared_identity = Inr t \<Longrightarrow> t = i \<and> identity_ok t"
  by (auto simp: insertIdentity_def bind_result_Inr cleared_identity_def identity_ok_def devices.insert_all_iff pairings.insert_all_iff
      passkeys.insert_all_iff codes.insert_all_iff insert_password_def split: if_splits)

section \<open>The state of a user\<close>

definition identity_of :: "user_db \<Rightarrow> identity_tables" where
  "identity_of db = \<lparr>it_devices = db_devices db, it_pairings = db_pairings db, it_passkeys = db_passkeys db,
     it_codes = db_recovery_codes db, it_password = db_password db\<rparr>"

record user_records =
  us_sideChats :: "side_chat_row list option"
  us_metadata :: metadata_row
  us_workspaces :: "workspace_row list"
  us_preferences :: "preferences_row option"
  us_threadPermissions :: "thread_permission_row list"
  us_observations :: "observation_row list"
  us_identity :: identity_tables
  us_recoveryHandoffs :: "handoff_row list"
  us_mutationReceipts :: "receipt_row list"
  us_queueItems :: "queue_row list"
  us_queueDeliveryClaims :: "claim_row list"
  us_auditEvents :: "audit_row list"

definition snapshot_workspaces :: "user_db \<Rightarrow> ce_error + workspace_row list" where
  "snapshot_workspaces db = map_result (int_column wk_revision ''workspace revision'') (sort_key wk_path (db_workspaces db))"

definition readThreadPermissions :: "user_db \<Rightarrow> ce_error + thread_permission_row list" where
  "readThreadPermissions db =
     map_result (int_column tpm_revision ''thread permission revision'') (sort_key tpm_thread_id (db_thread_permissions db))"

definition readThreadPermissionObservations :: "user_db \<Rightarrow> ce_error + observation_row list" where
  "readThreadPermissionObservations db =
     map_result (int_column ob_generation ''thread observation generation'') (sort_key ob_thread_id (db_observations db))"

definition readQueueItems :: "user_db \<Rightarrow> ce_error + queue_row list" where
  "readQueueItems db =
     map_result (int_column qi_revision ''queue revision'') (sort_key (\<lambda>r. (qi_created_at r, qi_id r)) (db_queue_items db))"

definition readQueueClaims :: "user_db \<Rightarrow> claim_row list" where
  "readQueueClaims db = sort_key (\<lambda>r. (cl_created_at r, cl_queue_item_id r)) (db_claims db)"

definition readAuditEvents :: "user_db \<Rightarrow> audit_row list" where
  "readAuditEvents db = sort_key (\<lambda>r. (au_created_at r, au_id r)) (db_audit db)"

definition read_handoffs :: "user_db \<Rightarrow> handoff_row list" where
  "read_handoffs db = sort_key (\<lambda>r. (hf_created_at r, hf_hash r)) (db_handoffs db)"

definition read_preferences :: "user_db \<Rightarrow> ce_error + preferences_row option" where
  "read_preferences db =
     (case db_preferences db of
        None \<Rightarrow> Inr None
      | Some p \<Rightarrow> map_sum id Some (int_column pf_revision ''preference revision'' p))"

definition readUserRecords :: "user_db \<Rightarrow> ce_error + user_records" where
  "readUserRecords db =
     (case db_metadata db of
        None \<Rightarrow> Inl (Error ''User state metadata is missing'')
      | Some m \<Rightarrow>
          bind_result (readIdentity (identity_of db)) (\<lambda>ident.
          let handoffs = read_handoffs db; sideChats = readSideChats db in
          bind_result (int_column md_source_schema ''user source schema'' m) (\<lambda>_.
          bind_result (int_column md_workspace_authorization_revision ''workspace authorization revision'' m) (\<lambda>_.
          bind_result (snapshot_workspaces db) (\<lambda>workspaces.
          bind_result (read_preferences db) (\<lambda>preferences.
          bind_result (int_column md_thread_permission_generation ''thread permission generation'' m) (\<lambda>_.
          bind_result (readThreadPermissions db) (\<lambda>permissions.
          bind_result (readThreadPermissionObservations db) (\<lambda>observations.
          bind_result (readQueueItems db) (\<lambda>items.
          Inr \<lparr>us_sideChats = (if sideChats = [] then None else Some sideChats), us_metadata = m, us_workspaces = workspaces,
            us_preferences = preferences, us_threadPermissions = permissions, us_observations = observations,
            us_identity = ident, us_recoveryHandoffs = handoffs, us_mutationReceipts = readMutationReceipts (db_receipts db),
            us_queueItems = items, us_queueDeliveryClaims = readQueueClaims db, us_auditEvents = readAuditEvents db\<rparr>))))))))))"

definition insert_metadata :: "metadata_row \<Rightarrow> user_db \<Rightarrow> ce_error + user_db" where
  "insert_metadata m db =
     (if db_metadata db \<noteq> None then Inl (SqlConstraint ''UNIQUE constraint failed: metadata'')
      else if md_workspace_authorization_revision m < 0 \<or> md_thread_permission_generation m < 0
      then Inl (SqlConstraint ''CHECK constraint failed: metadata'')
      else Inr (db\<lparr>db_metadata := Some m\<rparr>))"

definition insert_workspace_row :: "workspace_row \<Rightarrow> workspace_row list \<Rightarrow> ce_error + workspace_row list" where
  "insert_workspace_row r rows =
     (if t_find wk_path (wk_path r) rows \<noteq> None then Inl (SqlConstraint ''UNIQUE constraint failed: workspaces.path'')
      else checked_insert (\<lambda>r. 0 \<le> wk_revision r) wk_id ''workspaces'' r rows)"

definition insert_preferences :: "preferences_row option \<Rightarrow> user_db \<Rightarrow> ce_error + user_db" where
  "insert_preferences p db =
     (case p of
        None \<Rightarrow> Inr db
      | Some r \<Rightarrow>
          if db_preferences db \<noteq> None then Inl (SqlConstraint ''UNIQUE constraint failed: preferences'')
          else if pf_revision r < 0 then Inl (SqlConstraint ''CHECK constraint failed: preferences'')
          else Inr (db\<lparr>db_preferences := Some r\<rparr>))"

definition insert_claim :: "bool \<Rightarrow> queue_row list \<Rightarrow> claim_row \<Rightarrow> claim_row list \<Rightarrow> ce_error + claim_row list" where
  "insert_claim fk items r rows =
     (if fk \<and> t_find qi_id (cl_queue_item_id r) items = None then Inl (SqlConstraint ''FOREIGN KEY constraint failed'')
      else checked_insert any_row cl_queue_item_id ''queue_delivery_claims'' r rows)"

definition insertUserRecords :: "bool \<Rightarrow> user_records \<Rightarrow> user_db \<Rightarrow> ce_error + user_db" where
  "insertUserRecords fk s db0 =
     bind_result (insert_metadata (us_metadata s) db0) (\<lambda>db.
     bind_result (insert_rows writeSideChat (case us_sideChats s of None \<Rightarrow> [] | Some rows \<Rightarrow> rows) db) (\<lambda>db.
     bind_result (insert_rows insert_workspace_row (us_workspaces s) (db_workspaces db)) (\<lambda>workspaces.
     bind_result (insert_preferences (us_preferences s) (db\<lparr>db_workspaces := workspaces\<rparr>)) (\<lambda>db.
     bind_result (insert_rows (checked_insert (\<lambda>r. 0 \<le> tpm_revision r) tpm_thread_id ''thread_permissions'')
       (us_threadPermissions s) (db_thread_permissions db)) (\<lambda>permissions.
     bind_result (insert_rows (checked_insert (\<lambda>r. 0 \<le> ob_generation r) ob_thread_id ''thread_permission_observations'')
       (us_observations s) (db_observations db)) (\<lambda>observations.
     bind_result (insertIdentity (us_identity s) (identity_of db)) (\<lambda>ident.
     bind_result (insert_rows (checked_insert any_row hf_hash ''recovery_handoffs'')
       (us_recoveryHandoffs s) (db_handoffs db)) (\<lambda>handoffs.
     bind_result (insertMutationReceipts (us_mutationReceipts s) (db_receipts db)) (\<lambda>receipts.
     bind_result (insert_rows (checked_insert (\<lambda>r. 0 \<le> qi_revision r) qi_id ''queue_items'')
       (us_queueItems s) (db_queue_items db)) (\<lambda>items.
     bind_result (insert_rows (insert_claim fk items) (us_queueDeliveryClaims s) (db_claims db)) (\<lambda>claims.
     bind_result (insert_rows (checked_insert any_row au_id ''audit_events'') (us_auditEvents s) (db_audit db)) (\<lambda>audit.
     Inr (db\<lparr>db_thread_permissions := permissions, db_observations := observations, db_devices := it_devices ident,
       db_pairings := it_pairings ident, db_passkeys := it_passkeys ident, db_recovery_codes := it_codes ident,
       db_password := it_password ident, db_handoffs := handoffs, db_receipts := receipts, db_queue_items := items,
       db_claims := claims, db_audit := audit\<rparr>)))))))))))))"

definition clearUserState :: "user_db \<Rightarrow> user_db" where
  "clearUserState db = db\<lparr>db_side_chats := [], db_claims := [], db_queue_items := [], db_receipts := [], db_handoffs := [], db_audit := [],
     db_observations := [], db_thread_permissions := [], db_preferences := None, db_workspaces := [], db_password := None,
     db_recovery_codes := [], db_passkeys := [], db_pairings := [], db_devices := [], db_metadata := None\<rparr>"

definition validateUserInvariants :: "user_db \<Rightarrow> ce_error + unit" where
  "validateUserInvariants db =
     (case db_metadata db of
        None \<Rightarrow> Inl (Error ''User state metadata invariant failed'')
      | Some m \<Rightarrow>
          if (case md_default_workspace_id m of None \<Rightarrow> False | Some i \<Rightarrow> t_count (\<lambda>r. wk_id r = i) (db_workspaces db) \<noteq> 1)
          then Inl (Error ''Default workspace does not exist'')
          else
            bind_result (sql_integer (md_thread_permission_generation m) ''thread permission generation'') (\<lambda>generation.
            if list_ex (\<lambda>r. generation < ob_generation r) (db_observations db)
            then Inl (Error ''Thread permission observation exceeds global generation'')
            else if list_ex (\<lambda>c. list_ex (\<lambda>q. qi_id q = cl_queue_item_id c \<and> qi_thread_id q \<noteq> cl_thread_id c) (db_queue_items db)) (db_claims db)
            then Inl (Error ''Queue claim thread invariant failed'')
            else Inr ()))"

definition exportSnapshot :: "user_db \<Rightarrow> ce_error + user_records" where
  "exportSnapshot db = readUserRecords db"

definition replaceSnapshot :: "bool \<Rightarrow> user_records \<Rightarrow> (user_db, unit) tx" where
  "replaceSnapshot fk s db =
     bind_result (insertUserRecords fk s (clearUserState db)) (\<lambda>db1.
     bind_result (validateUserInvariants db1) (\<lambda>_. Inr ((), db1)))"

definition emptyUserSnapshot :: "timestamp \<Rightarrow> user_records" where
  "emptyUserSnapshot now =
     \<lparr>us_sideChats = None,
      us_metadata = \<lparr>md_created_at = now, md_source_schema = 0, md_workspace_authorization_revision = 0,
        md_thread_permission_generation = 0, md_default_workspace_id = None\<rparr>,
      us_workspaces = [],
      us_preferences = Some \<lparr>pf_theme = Theme_system, pf_locale = ''zh-CN'', pf_default_sandbox = ''workspace-write'',
        pf_default_approval_policy = ''on-request'', pf_revision = 0, pf_updated_at = now\<rparr>,
      us_threadPermissions = [], us_observations = [], us_identity = cleared_identity, us_recoveryHandoffs = [],
      us_mutationReceipts = [], us_queueItems = [], us_queueDeliveryClaims = [], us_auditEvents = []\<rparr>"

text \<open>\<open>open\<close> of a file whose schema exists, possibly with no rows yet; \<open>verify\<close> of the file itself is its own.\<close>

definition user_open :: "bool \<Rightarrow> bool \<Rightarrow> timestamp \<Rightarrow> user_db \<Rightarrow> (ce_error + unit) \<times> user_db" where
  "user_open create fk now db =
     (if db_metadata db \<noteq> None then (validateUserInvariants db, db)
      else if \<not> create then (Inl (Error ''User state metadata is missing''), db)
      else case run_tx (replaceSnapshot fk (emptyUserSnapshot now)) db of
             (Inl e, db1) \<Rightarrow> (Inl e, db1)
           | (Inr _, db1) \<Rightarrow> (validateUserInvariants db1, db1))"

section \<open>Round trip of the state of a user\<close>

definition workspaces_ok :: "workspace_row list \<Rightarrow> bool" where
  "workspaces_ok rows \<longleftrightarrow> table_ok (\<lambda>r. 0 \<le> wk_revision r) wk_id rows \<and> t_keyed wk_path rows"

definition claims_ok :: "bool \<Rightarrow> queue_row list \<Rightarrow> claim_row list \<Rightarrow> bool" where
  "claims_ok fk items rows \<longleftrightarrow> table_ok (\<lambda>r. fk \<longrightarrow> t_find qi_id (cl_queue_item_id r) items \<noteq> None) cl_queue_item_id rows"

definition side_chats_ok :: "side_chat_row list \<Rightarrow> bool" where
  "side_chats_ok rows \<longleftrightarrow> t_keyed sd_parent_thread_id rows \<and> t_keyed sd_thread_id (filter (\<lambda>r. sd_thread_id r \<noteq> None) rows)"

interpretation workspaces: constrained_table insert_workspace_row workspaces_ok
proof
  show "workspaces_ok []" by (simp add: workspaces_ok_def table_ok_def)
  show "workspaces_ok (rows @ [r]) \<Longrightarrow> workspaces_ok rows" for rows r by (simp add: workspaces_ok_def table_ok_snoc)
  show "workspaces_ok rows \<Longrightarrow> mset rows' = mset rows \<Longrightarrow> workspaces_ok rows'" for rows rows'
    unfolding workspaces_ok_def t_keyed_def by (metis mset_eq_imp_distinct_iff mset_map table_ok_mset)
  show "insert_workspace_row r rows = Inr rows' \<longleftrightarrow> workspaces_ok (rows @ [r]) \<and> rows' = rows @ [r]" if "workspaces_ok rows" for r rows rows'
    using that by (auto simp: insert_workspace_row_def checked_insert_def t_insert_def workspaces_ok_def table_ok_snoc)
qed

interpretation permissions: constrained_table "checked_insert (\<lambda>r. 0 \<le> tpm_revision r) tpm_thread_id ''thread_permissions''"
  "table_ok (\<lambda>r. 0 \<le> tpm_revision r) tpm_thread_id"
  by (rule checked_insert_table)

interpretation observations: constrained_table "checked_insert (\<lambda>r. 0 \<le> ob_generation r) ob_thread_id ''thread_permission_observations''"
  "table_ok (\<lambda>r. 0 \<le> ob_generation r) ob_thread_id"
  by (rule checked_insert_table)

interpretation handoffs: constrained_table "checked_insert any_row hf_hash ''recovery_handoffs''" "table_ok any_row hf_hash"
  by (rule checked_insert_table)

interpretation items: constrained_table "checked_insert (\<lambda>r. 0 \<le> qi_revision r) qi_id ''queue_items''"
  "table_ok (\<lambda>r. 0 \<le> qi_revision r) qi_id"
  by (rule checked_insert_table)

interpretation events: constrained_table "checked_insert any_row au_id ''audit_events''" "table_ok any_row au_id"
  by (rule checked_insert_table)

interpretation claims: constrained_table "insert_claim fk items" "claims_ok fk items" for fk items
proof
  show "claims_ok fk items []" by (simp add: claims_ok_def table_ok_def)
  show "claims_ok fk items (rows @ [r]) \<Longrightarrow> claims_ok fk items rows" for rows r by (simp add: claims_ok_def table_ok_snoc)
  show "claims_ok fk items rows \<Longrightarrow> mset rows' = mset rows \<Longrightarrow> claims_ok fk items rows'" for rows rows'
    unfolding claims_ok_def by (rule table_ok_mset)
  show "insert_claim fk items r rows = Inr rows' \<longleftrightarrow> claims_ok fk items (rows @ [r]) \<and> rows' = rows @ [r]" if "claims_ok fk items rows" for r rows rows'
    using that by (auto simp: insert_claim_def checked_insert_def t_insert_def claims_ok_def table_ok_snoc)
qed

definition schema_ok :: "bool \<Rightarrow> user_db \<Rightarrow> bool" where
  "schema_ok fk db \<longleftrightarrow>
     (case db_metadata db of None \<Rightarrow> False
        | Some m \<Rightarrow> 0 \<le> md_workspace_authorization_revision m \<and> 0 \<le> md_thread_permission_generation m) \<and>
     workspaces_ok (db_workspaces db) \<and> (case db_preferences db of None \<Rightarrow> True | Some p \<Rightarrow> 0 \<le> pf_revision p) \<and>
     table_ok (\<lambda>r. 0 \<le> tpm_revision r) tpm_thread_id (db_thread_permissions db) \<and>
     table_ok (\<lambda>r. 0 \<le> ob_generation r) ob_thread_id (db_observations db) \<and> side_chats_ok (db_side_chats db) \<and>
     identity_ok (identity_of db) \<and> table_ok any_row hf_hash (db_handoffs db) \<and> table_ok any_row rr_operation_key (db_receipts db) \<and>
     table_ok (\<lambda>r. 0 \<le> qi_revision r) qi_id (db_queue_items db) \<and> claims_ok fk (db_queue_items db) (db_claims db) \<and>
     table_ok any_row au_id (db_audit db)"

text \<open>The same rows in every table, in whatever order they are stored.\<close>

definition same_rows :: "user_db \<Rightarrow> user_db \<Rightarrow> bool" where
  "same_rows db db' \<longleftrightarrow> db_metadata db = db_metadata db' \<and> mset (db_workspaces db) = mset (db_workspaces db') \<and>
     db_preferences db = db_preferences db' \<and> mset (db_thread_permissions db) = mset (db_thread_permissions db') \<and>
     mset (db_observations db) = mset (db_observations db') \<and> mset (db_side_chats db) = mset (db_side_chats db') \<and>
     same_identity (identity_of db) (identity_of db') \<and> mset (db_handoffs db) = mset (db_handoffs db') \<and>
     mset (db_receipts db) = mset (db_receipts db') \<and> mset (db_queue_items db) = mset (db_queue_items db') \<and>
     mset (db_claims db) = mset (db_claims db') \<and> mset (db_audit db) = mset (db_audit db')"

text \<open>The database that holds exactly the rows of a snapshot.\<close>

definition db_of :: "user_records \<Rightarrow> user_db" where
  "db_of s = \<lparr>db_metadata = Some (us_metadata s), db_workspaces = us_workspaces s, db_preferences = us_preferences s,
     db_thread_permissions = us_threadPermissions s, db_observations = us_observations s,
     db_side_chats = (case us_sideChats s of None \<Rightarrow> [] | Some rows \<Rightarrow> rows), db_devices = it_devices (us_identity s),
     db_pairings = it_pairings (us_identity s), db_passkeys = it_passkeys (us_identity s), db_recovery_codes = it_codes (us_identity s),
     db_password = it_password (us_identity s), db_handoffs = us_recoveryHandoffs s, db_receipts = us_mutationReceipts s,
     db_queue_items = us_queueItems s, db_claims = us_queueDeliveryClaims s, db_audit = us_auditEvents s\<rparr>"

lemma side_chats_snoc:
  "side_chats_ok (rows @ [r]) \<longleftrightarrow> side_chats_ok rows \<and> t_find sd_parent_thread_id (sd_parent_thread_id r) rows = None \<and>
     (sd_thread_id r = None \<or> sd_thread_id r \<notin> sd_thread_id ` set rows)"
  by (auto simp: side_chats_ok_def t_find_None)

lemma side_chats_append: "side_chats_ok (xs @ ys) \<Longrightarrow> side_chats_ok xs"
  by (simp add: side_chats_ok_def t_keyed_def)

lemma side_chats_mset:
  assumes "side_chats_ok rows" and "mset rows' = mset rows"
  shows "side_chats_ok rows'"
proof -
  have "mset (filter (\<lambda>r. sd_thread_id r \<noteq> None) rows') = mset (filter (\<lambda>r. sd_thread_id r \<noteq> None) rows)"
    using assms(2) by simp
  then show ?thesis
    using assms unfolding side_chats_ok_def t_keyed_def by (metis mset_eq_imp_distinct_iff mset_map)
qed

lemma write_new_side_chat:
  assumes "side_chats_ok (db_side_chats db @ [r])"
  shows "writeSideChat r db = Inr (db\<lparr>db_side_chats := db_side_chats db @ [r]\<rparr>)"
  using assms by (auto simp: side_chats_snoc writeSideChat_def image_iff)

lemma write_side_chats: "side_chats_ok (db_side_chats db @ rs) \<Longrightarrow> insert_rows writeSideChat rs db = Inr (db\<lparr>db_side_chats := db_side_chats db @ rs\<rparr>)"
proof (induction rs arbitrary: db)
  case (Cons r rs)
  have "side_chats_ok (db_side_chats db @ [r])"
    using Cons.prems side_chats_append [of "db_side_chats db @ [r]" rs] by simp
  then show ?case using Cons write_new_side_chat by simp
qed simp

lemma upsert_side_chats:
  fixes r :: side_chat_row
  defines "upd \<equiv> (\<lambda>x. if sd_parent_thread_id x = sd_parent_thread_id r then r\<lparr>sd_workspace_id := sd_workspace_id x\<rparr> else x)"
  shows "side_chats_ok rows \<Longrightarrow> (\<And>x. x \<in> set rows \<Longrightarrow> sd_thread_id x \<noteq> None \<Longrightarrow> sd_thread_id x = sd_thread_id r \<Longrightarrow>
      sd_parent_thread_id x = sd_parent_thread_id r) \<Longrightarrow> side_chats_ok (map upd rows)"
proof (induction rows rule: rev_induct)
  case (snoc x rows)
  have ok: "side_chats_ok rows" and fresh: "sd_parent_thread_id x \<notin> sd_parent_thread_id ` set rows"
      "sd_thread_id x = None \<or> sd_thread_id x \<notin> sd_thread_id ` set rows"
    using snoc.prems(1) by (simp_all add: side_chats_snoc t_find_None)
  have parent: "sd_parent_thread_id (upd y) = sd_parent_thread_id y" for y by (simp add: upd_def)
  then have "sd_parent_thread_id ` set (map upd rows) = sd_parent_thread_id ` set rows" by (auto simp: image_iff)
  then have "t_find sd_parent_thread_id (sd_parent_thread_id (upd x)) (map upd rows) = None"
    using fresh(1) parent by (simp add: t_find_None)
  moreover have "sd_thread_id (upd x) = None \<or> sd_thread_id (upd x) \<noteq> sd_thread_id (upd y)" if y: "y \<in> set rows" for y
  proof -
    have "sd_parent_thread_id y \<noteq> sd_parent_thread_id x" using fresh(1) y by (metis imageI)
    moreover have "sd_thread_id x = None \<or> sd_thread_id x \<noteq> sd_thread_id y" using fresh(2) y by (metis imageI)
    moreover have "sd_thread_id x = None \<or> sd_thread_id x \<noteq> sd_thread_id r \<or> sd_parent_thread_id x = sd_parent_thread_id r"
      using snoc.prems(2) [of x] unfolding set_append list.set by blast
    moreover have "sd_thread_id y = None \<or> sd_thread_id y \<noteq> sd_thread_id r \<or> sd_parent_thread_id y = sd_parent_thread_id r"
      using snoc.prems(2) [of y] y unfolding set_append by blast
    moreover have "sd_thread_id (upd z) = (if sd_parent_thread_id z = sd_parent_thread_id r then sd_thread_id r else sd_thread_id z)" for z
      by (simp add: upd_def)
    ultimately show ?thesis by metis
  qed
  then have "sd_thread_id (upd x) = None \<or> sd_thread_id (upd x) \<notin> sd_thread_id ` set (map upd rows)" by (simp add: image_iff) blast
  moreover have "side_chats_ok (map upd rows)" by (rule snoc.IH [OF ok]) (use snoc.prems(2) in simp)
  ultimately show ?case unfolding map_append list.map side_chats_snoc by blast
qed (simp add: side_chats_ok_def)

lemma written_side_chat:
  assumes "side_chats_ok (db_side_chats db)" and "writeSideChat r db = Inr db'"
  shows "side_chats_ok (db_side_chats db') \<and> (\<exists>rows. db' = db\<lparr>db_side_chats := rows\<rparr>)"
proof -
  have free: "sd_parent_thread_id x = sd_parent_thread_id r"
    if "x \<in> set (db_side_chats db)" "sd_thread_id x \<noteq> None" "sd_thread_id x = sd_thread_id r" for x
    using assms(2) that by (auto simp: writeSideChat_def split: if_splits)
  show ?thesis
  proof (cases "t_find sd_parent_thread_id (sd_parent_thread_id r) (db_side_chats db) = None")
    case True
    then have db': "db' = db\<lparr>db_side_chats := db_side_chats db @ [r]\<rparr>"
      using assms(2) by (simp add: writeSideChat_def split: if_splits)
    have "sd_thread_id r = None \<or> sd_thread_id r \<notin> sd_thread_id ` set (db_side_chats db)"
      using True free by (auto simp: t_find_None image_iff)
    then have "side_chats_ok (db_side_chats db @ [r])" using assms(1) True by (simp add: side_chats_snoc)
    then show ?thesis using db' by auto
  next
    case False
    then have "db' = db\<lparr>db_side_chats := map (\<lambda>x. if sd_parent_thread_id x = sd_parent_thread_id r
        then r\<lparr>sd_workspace_id := sd_workspace_id x\<rparr> else x) (db_side_chats db)\<rparr>"
      using assms(2) by (simp add: writeSideChat_def t_update_def split: if_splits)
    then show ?thesis using upsert_side_chats [OF assms(1) free] by auto
  qed
qed

lemma written_side_chats:
  "side_chats_ok (db_side_chats db) \<Longrightarrow> insert_rows writeSideChat rs db = Inr db' \<Longrightarrow>
     side_chats_ok (db_side_chats db') \<and> (\<exists>rows. db' = db\<lparr>db_side_chats := rows\<rparr>)"
proof (induction rs arbitrary: db)
  case Nil
  then show ?case by (auto intro: exI [of _ "db_side_chats db"])
next
  case (Cons r rs)
  then obtain db1 where w: "writeSideChat r db = Inr db1" "insert_rows writeSideChat rs db1 = Inr db'" by (auto simp: bind_result_Inr)
  from written_side_chat [OF Cons.prems(1) w(1)] Cons.IH [OF _ w(2)] show ?case by auto
qed

lemmas inserted_tables =
  workspaces.insert_all_iff permissions.insert_all_iff observations.insert_all_iff handoffs.insert_all_iff receipts.insert_all_iff
  items.insert_all_iff claims.insert_all_iff events.insert_all_iff

lemma cleared_tables: "identity_of (clearUserState db) = cleared_identity" "db_side_chats (clearUserState db) = []"
    "db_metadata (clearUserState db) = None" "db_preferences (clearUserState db) = None" "db_workspaces (clearUserState db) = []"
    "db_thread_permissions (clearUserState db) = []" "db_observations (clearUserState db) = []" "db_handoffs (clearUserState db) = []"
    "db_receipts (clearUserState db) = []" "db_queue_items (clearUserState db) = []" "db_claims (clearUserState db) = []"
    "db_audit (clearUserState db) = []"
  by (simp_all add: clearUserState_def identity_of_def cleared_identity_def)

text \<open>A snapshot whose rows satisfy the schema is stored as it is.\<close>

lemma insert_schema_ok:
  assumes "schema_ok fk (db_of s)"
  shows "insertUserRecords fk s (clearUserState db) = Inr (db_of s)"
proof -
  let ?side = "case us_sideChats s of None \<Rightarrow> [] | Some rows \<Rightarrow> rows"
  let ?db1 = "(clearUserState db)\<lparr>db_metadata := Some (us_metadata s)\<rparr>"
  have meta: "insert_metadata (us_metadata s) (clearUserState db) = Inr ?db1"
    using assms by (simp add: schema_ok_def db_of_def insert_metadata_def cleared_tables)
  have side: "insert_rows writeSideChat ?side ?db1 = Inr (?db1\<lparr>db_side_chats := ?side\<rparr>)"
    using assms write_side_chats [of ?db1 ?side] by (simp add: schema_ok_def db_of_def cleared_tables)
  have ident: "insertIdentity (us_identity s) cleared_identity = Inr (us_identity s)"
    using assms by (cases "us_identity s")
      (auto simp: schema_ok_def db_of_def identity_of_def identity_ok_def insertIdentity_def cleared_identity_def insert_password_def
        bind_result_Inr devices.insert_all_iff pairings.insert_all_iff passkeys.insert_all_iff codes.insert_all_iff)
  have prefs: "insert_preferences (us_preferences s) db' = Inr (db'\<lparr>db_preferences := us_preferences s\<rparr>)" if "db_preferences db' = None" for db'
    using assms that by (cases "us_preferences s") (auto simp: schema_ok_def db_of_def insert_preferences_def)
  note ok = assms [unfolded schema_ok_def]
  have rows: "insert_rows insert_workspace_row (us_workspaces s) [] = Inr (us_workspaces s)"
    "insert_rows (checked_insert (\<lambda>r. 0 \<le> tpm_revision r) tpm_thread_id ''thread_permissions'') (us_threadPermissions s) [] = Inr (us_threadPermissions s)"
    "insert_rows (checked_insert (\<lambda>r. 0 \<le> ob_generation r) ob_thread_id ''thread_permission_observations'') (us_observations s) [] = Inr (us_observations s)"
    "insert_rows (checked_insert any_row hf_hash ''recovery_handoffs'') (us_recoveryHandoffs s) [] = Inr (us_recoveryHandoffs s)"
    "insert_rows (checked_insert any_row rr_operation_key ''mutation_receipts'') (us_mutationReceipts s) [] = Inr (us_mutationReceipts s)"
    "insert_rows (checked_insert (\<lambda>r. 0 \<le> qi_revision r) qi_id ''queue_items'') (us_queueItems s) [] = Inr (us_queueItems s)"
    "insert_rows (insert_claim fk (us_queueItems s)) (us_queueDeliveryClaims s) [] = Inr (us_queueDeliveryClaims s)"
    "insert_rows (checked_insert any_row au_id ''audit_events'') (us_auditEvents s) [] = Inr (us_auditEvents s)"
    using ok unfolding inserted_tables by (simp_all add: db_of_def)
  have prefs2: "insert_preferences (us_preferences s) (?db1\<lparr>db_side_chats := ?side, db_workspaces := us_workspaces s\<rparr>) =
      Inr (?db1\<lparr>db_side_chats := ?side, db_workspaces := us_workspaces s, db_preferences := us_preferences s\<rparr>)"
    using prefs [of "?db1\<lparr>db_side_chats := ?side, db_workspaces := us_workspaces s\<rparr>"] by (simp add: cleared_tables)
  have idc: "identity_of (?db1\<lparr>db_side_chats := ?side, db_workspaces := us_workspaces s, db_preferences := us_preferences s\<rparr>) = cleared_identity"
    by (simp add: identity_of_def clearUserState_def cleared_identity_def)
  show ?thesis
    unfolding insertUserRecords_def insertMutationReceipts_def meta bind_result_simps side
    by (simp add: cleared_tables rows prefs2 ident idc) (simp add: db_of_def clearUserState_def)
qed

text \<open>Whatever a snapshot holds, what is stored satisfies the schema.\<close>

lemma inserted_schema_ok:
  assumes "insertUserRecords fk s (clearUserState db0) = Inr db"
  shows "schema_ok fk db"
proof -
  from assms obtain db1 db2 workspaces db3 permissions observations ident handoffs receipts items claims audit where
    meta: "insert_metadata (us_metadata s) (clearUserState db0) = Inr db1"
    and side: "insert_rows writeSideChat (case us_sideChats s of None \<Rightarrow> [] | Some rows \<Rightarrow> rows) db1 = Inr db2"
    and work: "insert_rows insert_workspace_row (us_workspaces s) (db_workspaces db2) = Inr workspaces"
    and prefs: "insert_preferences (us_preferences s) (db2\<lparr>db_workspaces := workspaces\<rparr>) = Inr db3"
    and perm: "insert_rows (checked_insert (\<lambda>r. 0 \<le> tpm_revision r) tpm_thread_id ''thread_permissions'')
       (us_threadPermissions s) (db_thread_permissions db3) = Inr permissions"
    and obs: "insert_rows (checked_insert (\<lambda>r. 0 \<le> ob_generation r) ob_thread_id ''thread_permission_observations'')
       (us_observations s) (db_observations db3) = Inr observations"
    and ident: "insertIdentity (us_identity s) (identity_of db3) = Inr ident"
    and hand: "insert_rows (checked_insert any_row hf_hash ''recovery_handoffs'') (us_recoveryHandoffs s) (db_handoffs db3) = Inr handoffs"
    and rec: "insert_rows (checked_insert any_row rr_operation_key ''mutation_receipts'') (us_mutationReceipts s) (db_receipts db3) = Inr receipts"
    and items: "insert_rows (checked_insert (\<lambda>r. 0 \<le> qi_revision r) qi_id ''queue_items'') (us_queueItems s) (db_queue_items db3) = Inr items"
    and claims: "insert_rows (insert_claim fk items) (us_queueDeliveryClaims s) (db_claims db3) = Inr claims"
    and audit: "insert_rows (checked_insert any_row au_id ''audit_events'') (us_auditEvents s) (db_audit db3) = Inr audit"
    and db: "db = db3\<lparr>db_thread_permissions := permissions, db_observations := observations, db_devices := it_devices ident,
       db_pairings := it_pairings ident, db_passkeys := it_passkeys ident, db_recovery_codes := it_codes ident,
       db_password := it_password ident, db_handoffs := handoffs, db_receipts := receipts, db_queue_items := items,
       db_claims := claims, db_audit := audit\<rparr>"
    unfolding insertUserRecords_def insertMutationReceipts_def bind_result_Inr by blast
  have db1: "db1 = (clearUserState db0)\<lparr>db_metadata := Some (us_metadata s)\<rparr>"
    and m: "0 \<le> md_workspace_authorization_revision (us_metadata s)" "0 \<le> md_thread_permission_generation (us_metadata s)"
    using meta by (auto simp: insert_metadata_def split: if_splits)
  have "side_chats_ok (db_side_chats db1)" by (simp add: db1 cleared_tables side_chats_ok_def)
  from written_side_chats [OF this side] obtain chats where db2: "db2 = db1\<lparr>db_side_chats := chats\<rparr>" and chats: "side_chats_ok chats"
    by auto
  have db3: "db3 = db2\<lparr>db_workspaces := workspaces, db_preferences := us_preferences s\<rparr>"
    and p: "case us_preferences s of None \<Rightarrow> True | Some p \<Rightarrow> 0 \<le> pf_revision p"
    using prefs by (auto simp: insert_preferences_def db2 db1 cleared_tables split: option.splits if_splits)
  have clear: "db_workspaces db2 = []" "db_thread_permissions db3 = []" "db_observations db3 = []" "identity_of db3 = cleared_identity"
    "db_handoffs db3 = []" "db_receipts db3 = []" "db_queue_items db3 = []" "db_claims db3 = []" "db_audit db3 = []"
    by (simp_all add: db3 db2 db1 cleared_tables clearUserState_def identity_of_def cleared_identity_def)
  have "identity_of db = ident" by (cases ident) (simp add: db identity_of_def)
  then show ?thesis
    using work perm obs hand rec items claims audit ident m p chats
    unfolding clear inserted_tables schema_ok_def
    by (auto simp: db db3 db2 db1 dest: inserted_identity)
qed

lemma identity_ok_same: "identity_ok t \<Longrightarrow> same_identity t t' \<Longrightarrow> identity_ok t'"
  unfolding identity_ok_def same_identity_def using table_ok_mset by metis

lemma schema_ok_same: "schema_ok fk db \<Longrightarrow> same_rows db db' \<Longrightarrow> schema_ok fk db'"
proof -
  assume ok: "schema_ok fk db" and same: "same_rows db db'"
  have t: "table_ok any_row hf_hash (db_handoffs db)" "table_ok any_row rr_operation_key (db_receipts db)"
    "table_ok any_row au_id (db_audit db)" "table_ok (\<lambda>r. 0 \<le> tpm_revision r) tpm_thread_id (db_thread_permissions db)"
    "table_ok (\<lambda>r. 0 \<le> ob_generation r) ob_thread_id (db_observations db)"
    "table_ok (\<lambda>r. 0 \<le> qi_revision r) qi_id (db_queue_items db)"
    using ok by (simp_all add: schema_ok_def)
  have ms: "mset (db_handoffs db') = mset (db_handoffs db)" "mset (db_receipts db') = mset (db_receipts db)"
    "mset (db_audit db') = mset (db_audit db)" "mset (db_thread_permissions db') = mset (db_thread_permissions db)"
    "mset (db_observations db') = mset (db_observations db)" "mset (db_queue_items db') = mset (db_queue_items db)"
    using same by (simp_all add: same_rows_def)
  note keyed = table_ok_mset [OF t(1) ms(1)] table_ok_mset [OF t(2) ms(2)] table_ok_mset [OF t(3) ms(3)]
    table_ok_mset [OF t(4) ms(4)] table_ok_mset [OF t(5) ms(5)] table_ok_mset [OF t(6) ms(6)]
  have "workspaces_ok (db_workspaces db')" "side_chats_ok (db_side_chats db')" "identity_ok (identity_of db')"
    using ok same workspaces.valid_mset side_chats_mset identity_ok_same unfolding schema_ok_def same_rows_def by metis+
  moreover have "claims_ok fk (db_queue_items db') (db_claims db')"
  proof -
    have "(t_find qi_id k (db_queue_items db') = None) = (t_find qi_id k (db_queue_items db) = None)" for k
      using same unfolding same_rows_def t_find_None by (metis set_mset_mset)
    then have "claims_ok fk (db_queue_items db) = claims_ok fk (db_queue_items db')" by (simp add: claims_ok_def fun_eq_iff)
    then show ?thesis using ok same claims.valid_mset unfolding schema_ok_def same_rows_def by metis
  qed
  ultimately show ?thesis using keyed ok same by (simp add: schema_ok_def same_rows_def)
qed

lemma invariants_same:
  assumes "same_rows db db'"
  shows "validateUserInvariants db' = validateUserInvariants db"
proof -
  have sets: "set (db_observations db') = set (db_observations db)" "set (db_claims db') = set (db_claims db)"
    "set (db_queue_items db') = set (db_queue_items db)"
    using assms unfolding same_rows_def by (metis set_mset_mset)+
  have count: "t_count p (db_workspaces db') = t_count p (db_workspaces db)" for p
    using assms unfolding same_rows_def t_count_def by (metis mset_filter size_mset)
  have meta: "db_metadata db' = db_metadata db" using assms by (simp add: same_rows_def)
  show ?thesis unfolding validateUserInvariants_def meta count list_ex_iff sets by (rule refl)
qed

lemma exported:
  assumes "exportSnapshot db = Inr s"
  shows "same_rows db (db_of s)" "exportSnapshot (db_of s) = Inr s"
proof -
  obtain m where m: "db_metadata db = Some m" using assms by (auto simp: exportSnapshot_def readUserRecords_def split: option.splits)
  note parts = assms [unfolded exportSnapshot_def readUserRecords_def m option.case Let_def bind_result_Inr
      snapshot_workspaces_def readThreadPermissions_def readThreadPermissionObservations_def readQueueItems_def map_int_column]
  obtain ident prefs where i: "readIdentity (identity_of db) = Inr ident" and p: "read_preferences db = Inr prefs"
    and s: "s = \<lparr>us_sideChats = (if readSideChats db = [] then None else Some (readSideChats db)), us_metadata = m,
         us_workspaces = sort_key wk_path (db_workspaces db), us_preferences = prefs,
         us_threadPermissions = sort_key tpm_thread_id (db_thread_permissions db),
         us_observations = sort_key ob_thread_id (db_observations db), us_identity = ident,
         us_recoveryHandoffs = read_handoffs db, us_mutationReceipts = readMutationReceipts (db_receipts db),
         us_queueItems = sort_key (\<lambda>r. (qi_created_at r, qi_id r)) (db_queue_items db),
         us_queueDeliveryClaims = readQueueClaims db, us_auditEvents = readAuditEvents db\<rparr>"
    and ints: "int_column md_source_schema ''user source schema'' m = Inr m"
      "int_column md_workspace_authorization_revision ''workspace authorization revision'' m = Inr m"
      "int_column md_thread_permission_generation ''thread permission generation'' m = Inr m"
      "\<forall>r \<in> set (db_workspaces db). safe_integer (wk_revision r)" "\<forall>r \<in> set (db_thread_permissions db). safe_integer (tpm_revision r)"
      "\<forall>r \<in> set (db_observations db). safe_integer (ob_generation r)" "\<forall>r \<in> set (db_queue_items db). safe_integer (qi_revision r)"
    using parts by (auto simp: int_column_def sql_integer_def split: if_splits)
  have ident: "readIdentity ident = Inr ident" "same_identity (identity_of db) ident"
    using i by (auto simp: readIdentity_def bind_result_Inr same_identity_def map_int_column)
  have prefs: "prefs = db_preferences db"
    using p by (auto simp: read_preferences_def int_column_def sql_integer_def split: option.splits if_splits)
  have side: "(case us_sideChats s of None \<Rightarrow> [] | Some rows \<Rightarrow> rows) = readSideChats db" by (simp add: s)
  have id2: "identity_of (db_of s) = ident" by (cases ident) (simp add: identity_of_def db_of_def s)
  show "same_rows db (db_of s)"
    using ident(2) m prefs unfolding same_rows_def id2
    by (simp add: db_of_def side) (simp add: s readSideChats_def read_handoffs_def readMutationReceipts_def readQueueClaims_def readAuditEvents_def)
  have read: "readSideChats (db_of s) = readSideChats db" "read_handoffs (db_of s) = read_handoffs db"
    "readQueueClaims (db_of s) = readQueueClaims db" "readAuditEvents (db_of s) = readAuditEvents db"
    "read_preferences (db_of s) = Inr prefs" "readMutationReceipts (db_receipts (db_of s)) = readMutationReceipts (db_receipts db)"
    using p prefs by (simp_all add: readSideChats_def read_handoffs_def readQueueClaims_def readAuditEvents_def read_preferences_def
        readMutationReceipts_def db_of_def s)
  have int_rows: "snapshot_workspaces (db_of s) = Inr (us_workspaces s)" "readThreadPermissions (db_of s) = Inr (us_threadPermissions s)"
    "readThreadPermissionObservations (db_of s) = Inr (us_observations s)" "readQueueItems (db_of s) = Inr (us_queueItems s)"
    using ints by (simp_all add: snapshot_workspaces_def readThreadPermissions_def readThreadPermissionObservations_def readQueueItems_def
        map_int_column db_of_def s)
  have meta: "db_metadata (db_of s) = Some m" by (simp add: db_of_def s)
  show "exportSnapshot (db_of s) = Inr s"
    unfolding exportSnapshot_def readUserRecords_def meta option.case id2 ident(1) bind_result_simps Let_def ints read int_rows
    by (simp add: s)
qed


text \<open>
  Whatever the snapshot holds, replacing the state either fails and leaves the file as it was, or
  stores a state that satisfies the schema and the invariants of the users' state.
\<close>

theorem replaced_state_is_valid:
  assumes "run_tx (replaceSnapshot fk s) db = (res, db')"
  shows "(isl res \<longrightarrow> db' = db) \<and> (\<not> isl res \<longrightarrow> schema_ok fk db' \<and> validateUserInvariants db' = Inr ())"
proof (cases "replaceSnapshot fk s db")
  case (Inl e)
  with assms show ?thesis by (auto simp: run_tx_def)
next
  case (Inr p)
  then have "insertUserRecords fk s (clearUserState db) = Inr (snd p)" "validateUserInvariants (snd p) = Inr ()"
    by (auto simp: replaceSnapshot_def bind_result_Inr)
  with inserted_schema_ok have "schema_ok fk (snd p) \<and> validateUserInvariants (snd p) = Inr ()" by blast
  with Inr assms show ?thesis by (cases p) (auto simp: run_tx_def)
qed

lemma empty_state_opens:
  assumes "db_metadata db = None"
  shows "user_open True fk now db = (Inr (), empty_user_db now)"
proof -
  have "replaceSnapshot fk (emptyUserSnapshot now) db = Inr ((), empty_user_db now)"
    by (simp add: replaceSnapshot_def insertUserRecords_def emptyUserSnapshot_def insert_metadata_def cleared_tables
        insert_preferences_def insertIdentity_def cleared_identity_def insert_password_def insertMutationReceipts_def
        validateUserInvariants_def sql_integer_def safe_integer_def MAX_SAFE_INTEGER_def)
      (simp add: clearUserState_def empty_user_db_def identity_of_def)
  then show ?thesis
    using assms by (simp add: user_open_def run_tx_def validateUserInvariants_def empty_user_db_def sql_integer_def safe_integer_def MAX_SAFE_INTEGER_def)
qed

definition example_state :: user_db where
  "example_state = (empty_user_db 1)\<lparr>
     db_workspaces := [\<lparr>wk_id = ''w2'', wk_path = ''/srv/b'', wk_label = ''b'', wk_created_at = 2, wk_revision = 0\<rparr>,
       \<lparr>wk_id = ''w1'', wk_path = ''/srv/a'', wk_label = ''a'', wk_created_at = 3, wk_revision = 1\<rparr>],
     db_side_chats := [\<lparr>sd_workspace_id = ''w1'', sd_parent_thread_id = ''t1'', sd_thread_id = Some ''t2'', sd_boundary_turn_id = None,
       sd_status = SC_ready, sd_operation_key = ''k'', sd_created_at = 4\<rparr>]\<rparr>"

lemma example_state_ok:
  "schema_ok True example_state" "validateUserInvariants example_state = Inr ()"
  "exportSnapshot example_state = Inr (projr (exportSnapshot example_state))"
  by code_simp+


theorem replaced_state_is_valid_witness:
  "schema_ok True (snd (run_tx (replaceSnapshot True (emptyUserSnapshot 5)) example_state))"
proof -
  have "\<not> isl (fst (run_tx (replaceSnapshot True (emptyUserSnapshot 5)) example_state))" by code_simp
  then show ?thesis
    using replaced_state_is_valid [of True "emptyUserSnapshot 5" example_state
        "fst (run_tx (replaceSnapshot True (emptyUserSnapshot 5)) example_state)"
        "snd (run_tx (replaceSnapshot True (emptyUserSnapshot 5)) example_state)"]
    by simp
qed

text \<open>A connection that does not enforce foreign keys stores a claim of no item, which \<open>foreign_key_check\<close> then refuses.\<close>

lemma orphan_claim_is_stored:
  "let s = (emptyUserSnapshot 5)\<lparr>us_queueDeliveryClaims := [\<lparr>cl_queue_item_id = ''q'', cl_operation = ''start'', cl_thread_id = ''t'',
         cl_client_user_message_id = ''m'', cl_outcome = None, cl_turn_id = None, cl_created_at = 5, cl_completed_at = None\<rparr>]\<rparr>;
       (res, db) = run_tx (replaceSnapshot False s) (empty_user_db 1)
   in \<not> isl res \<and> \<not> claims_ok True (db_queue_items db) (db_claims db) \<and>
      isl (fst (run_tx (replaceSnapshot True s) (empty_user_db 1)))"
  by code_simp

section \<open>The administrator's state\<close>

record admin_file =
  af_metadata :: "(timestamp \<times> int) option"
  af_identity :: identity_tables
  af_receipts :: "receipt_row list"
  af_admin :: admin_db

record admin_records =
  ar_createdAt :: timestamp
  ar_sourceSchema :: int
  ar_identity :: identity_tables
  ar_managedUsers :: "managed_row list"
  ar_auditEvents :: "admin_audit_row list"
  ar_mutationReceipts :: "receipt_row list"

definition readManagedUsers :: "admin_db \<Rightarrow> ce_error + managed_row list" where
  "readManagedUsers db =
     map_result (\<lambda>r. bind_result (int_column mr_uid ''managed user uid'' r) (int_column mr_revision ''managed user revision''))
       (sort_key mr_username (ad_users db))"

definition readAdminAudit :: "admin_db \<Rightarrow> admin_audit_row list" where
  "readAdminAudit db = sort_key (\<lambda>r. (aa_created_at r, aa_id r)) (ad_audit db)"

definition readAdminRecords :: "admin_file \<Rightarrow> ce_error + admin_records" where
  "readAdminRecords f =
     (case af_metadata f of
        None \<Rightarrow> Inl (Error ''Admin state metadata is missing'')
      | Some (createdAt, schema) \<Rightarrow>
          bind_result (sql_integer schema ''admin source schema'') (\<lambda>schema.
          bind_result (readIdentity (af_identity f)) (\<lambda>ident.
          bind_result (readManagedUsers (af_admin f)) (\<lambda>users.
          Inr \<lparr>ar_createdAt = createdAt, ar_sourceSchema = schema, ar_identity = ident, ar_managedUsers = users,
            ar_auditEvents = readAdminAudit (af_admin f), ar_mutationReceipts = readMutationReceipts (af_receipts f)\<rparr>))))"

definition insertAdminRecords :: "admin_records \<Rightarrow> admin_file \<Rightarrow> ce_error + admin_file" where
  "insertAdminRecords s f =
     (if af_metadata f \<noteq> None then Inl (SqlConstraint ''UNIQUE constraint failed: metadata'')
      else
        bind_result (insertIdentity (ar_identity s) (af_identity f)) (\<lambda>ident.
        bind_result (insertMutationReceipts (ar_mutationReceipts s) (af_receipts f)) (\<lambda>receipts.
        bind_result (insert_rows insert_user (ar_managedUsers s) (af_admin f)) (\<lambda>db.
        bind_result (insert_rows (checked_insert any_row aa_id ''admin_audit'') (ar_auditEvents s) (ad_audit db)) (\<lambda>audit.
        Inr \<lparr>af_metadata = Some (ar_createdAt s, ar_sourceSchema s), af_identity = ident, af_receipts = receipts,
          af_admin = db\<lparr>ad_audit := audit\<rparr>\<rparr>)))))"

definition clearAdminState :: "admin_file \<Rightarrow> admin_file" where
  "clearAdminState f = f\<lparr>af_admin := \<lparr>ad_users = [], ad_audit = []\<rparr>, af_receipts := [], af_identity := cleared_identity, af_metadata := None\<rparr>"

definition validateAdminInvariants :: "admin_file \<Rightarrow> ce_error + unit" where
  "validateAdminInvariants f =
     (if af_metadata f = None then Inl (Error ''Admin state metadata invariant failed'')
      else if list_ex (\<lambda>r. 1 < t_count (\<lambda>x. mr_username x = mr_username r) (ad_users (af_admin f))) (ad_users (af_admin f))
      then Inl (Error ''Managed user uniqueness failed'')
      else Inr ())"

definition admin_exportSnapshot :: "admin_file \<Rightarrow> ce_error + admin_records" where
  "admin_exportSnapshot f = readAdminRecords f"

definition admin_replaceSnapshot :: "admin_records \<Rightarrow> (admin_file, unit) tx" where
  "admin_replaceSnapshot s f =
     bind_result (insertAdminRecords s (clearAdminState f)) (\<lambda>f1. bind_result (validateAdminInvariants f1) (\<lambda>_. Inr ((), f1)))"

definition emptyAdminSnapshot :: "timestamp \<Rightarrow> admin_records" where
  "emptyAdminSnapshot now = \<lparr>ar_createdAt = now, ar_sourceSchema = 0, ar_identity = cleared_identity, ar_managedUsers = [],
     ar_auditEvents = [], ar_mutationReceipts = []\<rparr>"

definition admin_open :: "bool \<Rightarrow> timestamp \<Rightarrow> admin_file \<Rightarrow> (ce_error + unit) \<times> admin_file" where
  "admin_open create now f =
     (if af_metadata f \<noteq> None then (validateAdminInvariants f, f)
      else if \<not> create then (Inl (Error ''Admin state metadata is missing''), f)
      else case run_tx (admin_replaceSnapshot (emptyAdminSnapshot now)) f of
             (Inl e, f1) \<Rightarrow> (Inl e, f1)
           | (Inr _, f1) \<Rightarrow> (validateAdminInvariants f1, f1))"

definition managed_ok :: "managed_row list \<Rightarrow> bool" where
  "managed_ok rows \<longleftrightarrow> table_ok (\<lambda>r. 0 \<le> mr_revision r) mr_uid rows \<and> t_keyed mr_username rows"

text \<open>The INSERT of a managed user, on the rows of its table.\<close>

definition insert_managed :: "managed_row \<Rightarrow> managed_row list \<Rightarrow> ce_error + managed_row list" where
  "insert_managed r rows = map_sum id ad_users (insert_user r \<lparr>ad_users = rows, ad_audit = []\<rparr>)"

interpretation managed: constrained_table insert_managed managed_ok
proof
  show "managed_ok []" by (simp add: managed_ok_def table_ok_def)
  show "managed_ok (rows @ [r]) \<Longrightarrow> managed_ok rows" for rows r by (simp add: managed_ok_def table_ok_snoc)
  show "managed_ok rows \<Longrightarrow> mset rows' = mset rows \<Longrightarrow> managed_ok rows'" for rows rows'
    unfolding managed_ok_def t_keyed_def by (metis mset_eq_imp_distinct_iff mset_map table_ok_mset)
  show "insert_managed r rows = Inr rows' \<longleftrightarrow> managed_ok (rows @ [r]) \<and> rows' = rows @ [r]" if "managed_ok rows" for r rows rows'
    using that by (auto simp: insert_managed_def insert_user_def managed_ok_def table_ok_snoc)
qed

interpretation admin_events: constrained_table "checked_insert any_row aa_id ''admin_audit''" "table_ok any_row aa_id"
  by (rule checked_insert_table)

lemma insert_users_rows:
  "insert_rows insert_user rs \<lparr>ad_users = rows, ad_audit = audit\<rparr> =
     map_sum id (\<lambda>rows'. \<lparr>ad_users = rows', ad_audit = audit\<rparr>) (insert_rows insert_managed rs rows)"
proof (induction rs arbitrary: rows)
  case (Cons r rs)
  show ?case
  proof (cases "insert_user r \<lparr>ad_users = rows, ad_audit = audit\<rparr>")
    case (Inl e)
    then have "insert_managed r rows = Inl e" by (auto simp: insert_managed_def insert_user_def split: if_splits)
    with Inl show ?thesis by simp
  next
    case (Inr db)
    then have "db = \<lparr>ad_users = rows @ [r], ad_audit = audit\<rparr>" "insert_managed r rows = Inr (rows @ [r])"
      by (auto simp: insert_managed_def insert_user_def split: if_splits)
    with Inr Cons.IH show ?thesis by simp
  qed
qed simp

definition admin_schema_ok :: "admin_file \<Rightarrow> bool" where
  "admin_schema_ok f \<longleftrightarrow> af_metadata f \<noteq> None \<and> identity_ok (af_identity f) \<and> table_ok any_row rr_operation_key (af_receipts f) \<and>
     managed_ok (ad_users (af_admin f)) \<and> table_ok any_row aa_id (ad_audit (af_admin f))"

definition admin_same_rows :: "admin_file \<Rightarrow> admin_file \<Rightarrow> bool" where
  "admin_same_rows f f' \<longleftrightarrow> af_metadata f = af_metadata f' \<and> same_identity (af_identity f) (af_identity f') \<and>
     mset (af_receipts f) = mset (af_receipts f') \<and> mset (ad_users (af_admin f)) = mset (ad_users (af_admin f')) \<and>
     mset (ad_audit (af_admin f)) = mset (ad_audit (af_admin f'))"

lemma managed_unique: "managed_ok rows \<Longrightarrow> \<not> list_ex (\<lambda>r. 1 < t_count (\<lambda>x. mr_username x = mr_username r) rows) rows"
  using t_count_le_1 [of mr_username rows] by (auto simp: managed_ok_def list_ex_iff not_less)

text \<open>The administrator's state survives an export and a replacement too.\<close>

lemma admin_snapshot_round_trip:
  assumes "admin_schema_ok f" and "admin_exportSnapshot f = Inr s"
  shows "\<exists>f'. run_tx (admin_replaceSnapshot s) f0 = (Inr (), f') \<and> admin_same_rows f f' \<and> admin_exportSnapshot f' = Inr s"
proof -
  obtain createdAt schema ident where m: "af_metadata f = Some (createdAt, schema)" "safe_integer schema"
    and i: "readIdentity (af_identity f) = Inr ident"
    and u: "readManagedUsers (af_admin f) = Inr (ar_managedUsers s)"
    and s: "ar_createdAt s = createdAt" "ar_sourceSchema s = schema" "ar_identity s = ident"
      "ar_auditEvents s = readAdminAudit (af_admin f)" "ar_mutationReceipts s = readMutationReceipts (af_receipts f)"
    using assms(2) by (auto simp: admin_exportSnapshot_def readAdminRecords_def bind_result_Inr sql_integer_def split: option.splits if_splits)
  have column: "bind_result (int_column mr_uid ''managed user uid'' r) (int_column mr_revision ''managed user revision'') = Inr x \<longleftrightarrow>
      x = r \<and> safe_integer (mr_uid r) \<and> safe_integer (mr_revision r)" for r x
    by (auto simp: int_column_def sql_integer_def)
  have users: "map_result (\<lambda>r. bind_result (int_column mr_uid ''managed user uid'' r) (int_column mr_revision ''managed user revision'')) rows =
      Inr rows' \<longleftrightarrow> rows' = rows \<and> (\<forall>r \<in> set rows. safe_integer (mr_uid r) \<and> safe_integer (mr_revision r))" for rows rows'
    unfolding map_result_Inr by (induction rows arbitrary: rows') (auto simp: column Cons_eq_map_conv)
  have us: "ar_managedUsers s = sort_key mr_username (ad_users (af_admin f))"
    "\<forall>r \<in> set (ad_users (af_admin f)). safe_integer (mr_uid r) \<and> safe_integer (mr_revision r)"
    using u by (simp_all add: readManagedUsers_def users)
  define f' where "f' = \<lparr>af_metadata = Some (createdAt, schema), af_identity = ident, af_receipts = ar_mutationReceipts s,
    af_admin = \<lparr>ad_users = ar_managedUsers s, ad_audit = ar_auditEvents s\<rparr>\<rparr>"
  have same: "admin_same_rows f f'"
    using identity_round_trip(3) [OF _ i] assms(1) m us s
    by (simp add: admin_same_rows_def f'_def admin_schema_ok_def readAdminAudit_def readMutationReceipts_def)
  have managed: "managed_ok (ar_managedUsers s)"
    using assms(1) us(1) managed.valid_mset [of "ad_users (af_admin f)" "ar_managedUsers s"] by (simp add: admin_schema_ok_def)
  have ins: "insertIdentity ident cleared_identity = Inr ident"
    "insertMutationReceipts (ar_mutationReceipts s) [] = Inr (ar_mutationReceipts s)"
    "insert_rows insert_managed (ar_managedUsers s) [] = Inr (ar_managedUsers s)"
    "insert_rows (checked_insert any_row aa_id ''admin_audit'') (ar_auditEvents s) [] = Inr (ar_auditEvents s)"
    using assms(1) identity_round_trip(1) [OF _ i] managed
    by (simp_all add: admin_schema_ok_def insertMutationReceipts_def s readMutationReceipts_def readAdminAudit_def
        receipts.insert_sorted admin_events.insert_sorted managed.insert_all_iff)
  have "insertAdminRecords s (clearAdminState f0) = Inr f'"
    by (simp add: insertAdminRecords_def clearAdminState_def s ins [unfolded s] insert_users_rows f'_def)
  moreover have "validateAdminInvariants f' = Inr ()"
    using managed_unique [OF managed] by (simp add: validateAdminInvariants_def f'_def)
  ultimately have "admin_replaceSnapshot s f0 = Inr ((), f')" by (simp add: admin_replaceSnapshot_def)
  moreover have "admin_exportSnapshot f' = Inr s"
  proof -
    have "readManagedUsers (af_admin f') = Inr (ar_managedUsers s)"
      using us by (simp only: readManagedUsers_def users) (simp add: f'_def)
    moreover have "readAdminAudit (af_admin f') = ar_auditEvents s" "readMutationReceipts (af_receipts f') = ar_mutationReceipts s"
      by (simp_all add: f'_def s readAdminAudit_def readMutationReceipts_def)
    moreover have "readIdentity (af_identity f') = Inr ident"
      using identity_round_trip(2) [OF _ i] assms(1) by (simp add: f'_def admin_schema_ok_def)
    moreover have "af_metadata f' = Some (createdAt, schema)" by (simp add: f'_def)
    ultimately show ?thesis
      using m(2) s(1-3) by (simp add: admin_exportSnapshot_def readAdminRecords_def sql_integer_def)
  qed
  ultimately show ?thesis using same by (auto simp: run_tx_def)
qed

end
