(* ===== verification/Identity_Service.thy ===== *)
theory Identity_Service
  imports Identity_Repository Agent_Sessions
begin

text \<open>
  The service that authenticates gateway sessions (\<open>identity-service.ts\<close>): passkeys (WebAuthn), the
  password (OPAQUE) and recovery codes, each by challenges that are issued to a session and taken once.
  A handler is a task whose phases are the awaited operations, so that calls of other sessions come in
  between; the libraries for WebAuthn and OPAQUE, scrypt and the random values are parameters.
\<close>

section \<open>Configuration and platform\<close>

definition CHALLENGE_TTL_MS :: int where
  "CHALLENGE_TTL_MS = 5 * 60000"

datatype challenge_kind = CK_passkey_registration | CK_passkey_login | CK_password_registration | CK_password_login

text \<open>\<open>ch_value\<close> is the value of a passkey challenge, or the login state that OPAQUE keeps for a password.\<close>

record challenge =
  ch_kind :: challenge_kind
  ch_value :: string
  ch_sessionId :: string
  ch_requiresAuthentication :: bool
  ch_expiresAt :: timestamp

record device_binding =
  bd_id :: string
  bd_publicKey :: bytes

text \<open>A session of the gateway, as far as the service uses it: whether it has the access of the service's domain.\<close>

record identity_session =
  se_authenticated :: bool
  se_temporary :: bool
  se_device :: "device_binding option"
  se_closed :: bool

text \<open>
  The libraries: a verification answers or throws; \<open>verified\<close> false is \<open>None\<close>. \<open>cy_finish\<close> throws when the
  password was wrong.
\<close>

record crypto =
  cy_register :: "js \<Rightarrow> string \<Rightarrow> ce_error + (string \<times> bytes \<times> int) option"
  cy_login :: "js \<Rightarrow> string \<Rightarrow> passkey_credential \<Rightarrow> ce_error + int option"
  cy_responseId :: "js \<Rightarrow> string"
  cy_registration_message :: "string \<Rightarrow> ce_error + string"
  cy_start :: "string \<Rightarrow> string \<Rightarrow> ce_error + (string \<times> string)"
  cy_finish :: "string \<Rightarrow> string \<Rightarrow> ce_error option"
  cy_scrypt :: "string \<Rightarrow> bytes \<Rightarrow> bytes"
  cy_sha256 :: "string \<Rightarrow> bytes"

record identity_config =
  ic_options :: identity_options
  ic_principalId :: string
  ic_crypto :: crypto

text \<open>What the platform gives one stretch of a task: the clock, a fresh UUID and random values, and whether its awaited call fails.\<close>

datatype repo_outcome = Repo_fine | Repo_fails ce_error bool

record platform =
  pl_now :: timestamp
  pl_uuid :: string
  pl_challenge :: string
  pl_codes :: "bytes list"
  pl_salts :: "bytes list"
  pl_token :: string
  pl_auditIds :: "string \<times> string"
  pl_outcome :: repo_outcome

section \<open>Recovery codes\<close>

definition upper_hex_digit :: "nat \<Rightarrow> char" where
  "upper_hex_digit n = (if n < 10 then char_of (48 + n) else char_of (55 + n))"

definition hex_upper :: "bytes \<Rightarrow> string" where
  "hex_upper bs = concat (map (\<lambda>b. [upper_hex_digit (b div 16), upper_hex_digit (b mod 16)]) bs)"

text \<open>\<open>createRecoveryCodes\<close> for eight times ten random bytes.\<close>

definition createRecoveryCodes :: "bytes list \<Rightarrow> string list" where
  "createRecoveryCodes raws = map (\<lambda>b. let raw = hex_upper b in
     take 5 raw @ ''-'' @ take 5 (drop 5 raw) @ ''-'' @ take 5 (drop 10 raw) @ ''-'' @ drop 15 raw) raws"

definition js_upper :: "string \<Rightarrow> string" where
  "js_upper = map (\<lambda>ch. if CHR ''a'' \<le> ch \<and> ch \<le> CHR ''z'' then char_of (of_char ch - 32 :: nat) else ch)"

definition authenticationFailed :: ce_error where
  "authenticationFailed = GatewayV2Error (gateway_v2_error ''AUTHENTICATION_FAILED'' ''Authentication could not be verified'')"

definition normalizeRecoveryCode :: "string \<Rightarrow> ce_error + string" where
  "normalizeRecoveryCode code =
     (let n = js_upper (js_trim code) in if length n < 8 \<or> 256 < length n then Inl authenticationFailed else Inr n)"

definition hashRecoveryCode :: "crypto \<Rightarrow> string \<times> bytes \<Rightarrow> ce_error + bytes" where
  "hashRecoveryCode cy p = (case p of (code, salt) \<Rightarrow>
     bind_result (normalizeRecoveryCode code) (\<lambda>n. Inr (salt @ cy_scrypt cy n salt)))"

definition verifyRecoveryCode :: "crypto \<Rightarrow> string \<Rightarrow> bytes \<Rightarrow> bool" where
  "verifyRecoveryCode cy code stored \<longleftrightarrow> length stored = 48 \<and> cy_scrypt cy code (take 16 stored) = drop 16 stored"

definition fresh_codes :: "crypto \<Rightarrow> platform \<Rightarrow> ce_error + string list \<times> bytes list" where
  "fresh_codes cy pl =
     (let codes = createRecoveryCodes (pl_codes pl) in
      bind_result (map_result (hashRecoveryCode cy) (zip codes (pl_salts pl))) (\<lambda>hashes. Inr (codes, hashes)))"

section \<open>State\<close>

text \<open>
  \<open>is_issued\<close>, \<open>is_taken\<close> and \<open>is_recovered\<close> (challenges issued and taken, recovery hashes consumed) are
  history for the statements about the service; no operation reads them.
\<close>

record identity_state =
  is_db :: user_db
  is_challenges :: "string \<rightharpoonup> challenge"
  is_timers :: "(string \<times> timestamp) list"
  is_tickets :: ticket_service
  is_limiter :: rate_limiter
  is_sessions :: "string \<Rightarrow> identity_session"
  is_issued :: "(string \<times> challenge) list"
  is_taken :: "(string \<times> challenge \<times> timestamp) list"
  is_recovered :: "bytes list"

definition rememberChallenge :: "challenge \<Rightarrow> platform \<Rightarrow> identity_state \<Rightarrow> identity_state" where
  "rememberChallenge c pl s =
     s\<lparr>is_challenges := (is_challenges s)(pl_uuid pl \<mapsto> c), is_timers := is_timers s @ [(pl_uuid pl, pl_now pl + CHALLENGE_TTL_MS)],
       is_issued := is_issued s @ [(pl_uuid pl, c)]\<rparr>"

text \<open>\<open>#takeChallenge\<close>: the challenge is deleted before it is checked.\<close>

definition takeChallenge ::
  "string \<Rightarrow> challenge_kind \<Rightarrow> string \<Rightarrow> bool \<Rightarrow> timestamp \<Rightarrow> identity_state \<Rightarrow> (ce_error + challenge) \<times> identity_state" where
  "takeChallenge i kind sid authenticated now s =
     (let s1 = s\<lparr>is_challenges := (is_challenges s)(i := None)\<rparr> in
      case is_challenges s i of
        None \<Rightarrow> (Inl authenticationFailed, s1)
      | Some c \<Rightarrow>
          if ch_kind c \<noteq> kind \<or> ch_sessionId c \<noteq> sid \<or> ch_expiresAt c \<le> now \<or> (ch_requiresAuthentication c \<and> \<not> authenticated)
          then (Inl authenticationFailed, s1)
          else (Inr c, s1\<lparr>is_taken := is_taken s1 @ [(i, c, now)]\<rparr>))"

definition requiredDevice :: "device_binding option \<Rightarrow> ce_error + device_binding" where
  "requiredDevice b = (case b of
     None \<Rightarrow> Inl (GatewayV2Error (gateway_v2_error ''DEVICE_BINDING_REQUIRED'' ''This transport has no device key that can be remembered''))
   | Some d \<Rightarrow> Inr d)"

definition identity_authenticate :: "string \<Rightarrow> bool \<Rightarrow> identity_state \<Rightarrow> ce_error + identity_state" where
  "identity_authenticate sid temporary s =
     (let x = is_sessions s sid in
      if se_closed x then Inl (ScopeClosedError ''gateway-session'')
      else Inr (s\<lparr>is_sessions := (is_sessions s)(sid := x\<lparr>se_authenticated := True, se_temporary := temporary\<rparr>)\<rparr>))"

section \<open>Handlers\<close>

datatype identity_call =
    Register_options
  | Register_verify string js string bool
  | Login_options
  | Login_verify string js string bool
  | Password_register_start string
  | Password_register_finish string string string bool
  | Password_login_start string
  | Password_login_finish string string string bool
  | Recover string string bool
  | Rotate_codes

text \<open>What a task has verified when it comes to grant access (for the statements only).\<close>

datatype evidence =
    By_new_passkey challenge "string \<times> bytes \<times> int" js
  | By_passkey challenge passkey_credential js
  | By_new_password challenge string
  | By_password challenge string
  | By_recovery string bytes

datatype identity_answer =
    Challenge_given string string
  | Access_granted string bool "string list"
  | Codes_given "string list"

text \<open>The awaited operation of a task and what it carries over.\<close>

datatype identity_phase =
    Register_status
  | Register_offer bool
  | Register_proof challenge js string bool
  | Register_initial challenge "string \<times> bytes \<times> int" js string bool
  | Register_add challenge "string \<times> bytes \<times> int" js "string list" "bytes list" string bool
  | Login_credentials
  | Login_offer
  | Login_find challenge js string bool
  | Login_proof challenge passkey_credential js string bool
  | Login_counter challenge passkey_credential js int string bool
  | Password_status string
  | Password_offer bool string
  | Password_save challenge string string bool
  | Password_unused challenge string string bool
  | Password_rotate challenge string "string list" "bytes list" string bool
  | Password_record string
  | Password_proof challenge string string bool
  | Recovery_find string string bool
  | Recovery_consume string bytes "string list" "bytes list" string bool
  | Rotate_write "string list" "bytes list"
  | Remember_device evidence "string list" string bool
  | Finished "ce_error + identity_answer"

record identity_task =
  dt_session :: string
  dt_authenticated :: bool
  dt_phase :: identity_phase

text \<open>A transaction of the repository; the call can fail before it, or after it was committed.\<close>

definition repo_tx :: "repo_outcome \<Rightarrow> (user_db, 'a) tx \<Rightarrow> identity_state \<Rightarrow> (ce_error + 'a) \<times> identity_state" where
  "repo_tx out t s =
     (case run_tx t (is_db s) of
        (res, db) \<Rightarrow>
          (case out of
             Repo_fine \<Rightarrow> (res, s\<lparr>is_db := db\<rparr>)
           | Repo_fails e took \<Rightarrow> (Inl e, if took then s\<lparr>is_db := db\<rparr> else s)))"

definition repo_read :: "repo_outcome \<Rightarrow> ce_error + 'a \<Rightarrow> ce_error + 'a" where
  "repo_read out res = (case out of Repo_fine \<Rightarrow> res | Repo_fails e _ \<Rightarrow> Inl e)"

definition then_phase :: "(ce_error + 'a) \<times> identity_state \<Rightarrow> ('a \<Rightarrow> identity_state \<Rightarrow> identity_phase \<times> identity_state) \<Rightarrow>
    identity_phase \<times> identity_state" where
  "then_phase r k = (case r of (Inl e, s) \<Rightarrow> (Finished (Inl e), s) | (Inr x, s) \<Rightarrow> k x s)"

definition needs_authentication :: "string \<Rightarrow> ce_error" where
  "needs_authentication message = GatewayV2Error (gateway_v2_error ''AUTHENTICATION_REQUIRED'' message)"

definition begin_call :: "identity_config \<Rightarrow> identity_call \<Rightarrow> string \<Rightarrow> bool \<Rightarrow> platform \<Rightarrow> identity_state \<Rightarrow> identity_phase \<times> identity_state" where
  "begin_call cfg q sid auth pl s =
     (case q of
        Register_options \<Rightarrow> (Register_status, s)
      | Register_verify i response name remember \<Rightarrow>
          then_phase (takeChallenge i CK_passkey_registration sid auth (pl_now pl) s) (\<lambda>c s1. (Register_proof c response name remember, s1))
      | Login_options \<Rightarrow> (Login_credentials, s)
      | Login_verify i response name remember \<Rightarrow>
          then_phase (takeChallenge i CK_passkey_login sid auth (pl_now pl) s) (\<lambda>c s1. (Login_find c response name remember, s1))
      | Password_register_start request \<Rightarrow> (Password_status request, s)
      | Password_register_finish i registration name remember \<Rightarrow>
          then_phase (takeChallenge i CK_password_registration sid auth (pl_now pl) s) (\<lambda>c s1. (Password_save c registration name remember, s1))
      | Password_login_start request \<Rightarrow>
          (case limiter_consume Password_attempt (pl_now pl) (is_limiter s) of
             Inl e \<Rightarrow> (Finished (Inl e), s)
           | Inr l \<Rightarrow> (Password_record request, s\<lparr>is_limiter := l\<rparr>))
      | Password_login_finish i finish name remember \<Rightarrow>
          then_phase (takeChallenge i CK_password_login sid auth (pl_now pl) s) (\<lambda>c s1. (Password_proof c finish name remember, s1))
      | Recover code name remember \<Rightarrow>
          (case limiter_consume Recovery_attempt (pl_now pl) (is_limiter s) of
             Inl e \<Rightarrow> (Finished (Inl e), s)
           | Inr l \<Rightarrow>
               (case normalizeRecoveryCode code of
                  Inl e \<Rightarrow> (Finished (Inl e), s\<lparr>is_limiter := l\<rparr>)
                | Inr n \<Rightarrow> (Recovery_find n name remember, s\<lparr>is_limiter := l\<rparr>)))
      | Rotate_codes \<Rightarrow>
          if \<not> auth then (Finished (Inl (needs_authentication ''Authenticate before rotating recovery codes'')), s)
          else (case fresh_codes (ic_crypto cfg) pl of
                  Inl e \<Rightarrow> (Finished (Inl e), s)
                | Inr (codes, hashes) \<Rightarrow> (Rotate_write codes hashes, s)))"

definition authenticatedResult ::
  "identity_config \<Rightarrow> string \<Rightarrow> bool \<Rightarrow> string list \<Rightarrow> platform \<Rightarrow> identity_state \<Rightarrow> identity_phase \<times> identity_state" where
  "authenticatedResult cfg sid remembered codes pl s =
     (case identity_authenticate sid (\<not> remembered) s of
        Inl e \<Rightarrow> (Finished (Inl e), s)
      | Inr s1 \<Rightarrow>
          (case requiredDevice (se_device (is_sessions s1 sid)) of
             Inl e \<Rightarrow> (Finished (Inl e), s1)
           | Inr d \<Rightarrow>
               (case ticket_issue (cy_sha256 (ic_crypto cfg)) \<lparr>tb_deviceId = bd_id d, tb_devicePublicKey = bd_publicKey d,
                        tb_principalId = ic_principalId cfg, tb_temporary = \<not> remembered\<rparr> (pl_token pl) (pl_now pl) (is_tickets s1) of
                  Inl e \<Rightarrow> (Finished (Inl e), s1)
                | Inr (token, tickets) \<Rightarrow> (Finished (Inr (Access_granted token remembered codes)), s1\<lparr>is_tickets := tickets\<rparr>))))"

definition rememberDeviceIfRequested ::
  "identity_config \<Rightarrow> string \<Rightarrow> string \<Rightarrow> bool \<Rightarrow> platform \<Rightarrow> identity_state \<Rightarrow> (ce_error + unit) \<times> identity_state" where
  "rememberDeviceIfRequested cfg sid name remember pl s =
     (if \<not> remember then (Inr (), s)
      else case requiredDevice (se_device (is_sessions s sid)) of
             Inl e \<Rightarrow> (Inl e, s)
           | Inr d \<Rightarrow>
               (case repo_tx (pl_outcome pl) (identity_rememberDevice (ic_options cfg) (bd_id d) name (bd_publicKey d)
                       (fst (pl_auditIds pl)) (pl_now pl)) s of
                  (Inl e, s1) \<Rightarrow> (Inl e, s1)
                | (Inr _, s1) \<Rightarrow> (Inr (), s1)))"

definition is_initialized :: "identity_status_record \<Rightarrow> bool" where
  "is_initialized st \<longleftrightarrow> 0 < is_passkeys st \<or> is_password st"

definition offer :: "challenge_kind \<Rightarrow> string \<Rightarrow> bool \<Rightarrow> string \<Rightarrow> string \<Rightarrow> platform \<Rightarrow> identity_state \<Rightarrow> identity_phase \<times> identity_state" where
  "offer kind value requires answer sid pl s =
     (Finished (Inr (Challenge_given (pl_uuid pl) answer)),
      rememberChallenge \<lparr>ch_kind = kind, ch_value = value, ch_sessionId = sid, ch_requiresAuthentication = requires,
        ch_expiresAt = pl_now pl + CHALLENGE_TTL_MS\<rparr> pl s)"

fun identity_step :: "identity_config \<Rightarrow> identity_phase \<Rightarrow> string \<Rightarrow> bool \<Rightarrow> platform \<Rightarrow> identity_state \<Rightarrow> identity_phase \<times> identity_state" where
  "identity_step cfg Register_status sid auth pl s =
     then_phase (repo_read (pl_outcome pl) (Inr (identity_status (is_db s))), s) (\<lambda>st s.
       if is_initialized st \<and> \<not> auth then (Finished (Inl (needs_authentication ''Authenticate before adding another Passkey'')), s)
       else (Register_offer (is_initialized st), s))"
| "identity_step cfg (Register_offer initialized) sid auth pl s =
     then_phase (repo_read (pl_outcome pl) (identity_passkeys (is_db s)), s) (\<lambda>_ s.
       offer CK_passkey_registration (pl_challenge pl) initialized (pl_challenge pl) sid pl s)"
| "identity_step cfg (Register_proof c response name remember) sid auth pl s =
     then_phase (cy_register (ic_crypto cfg) response (ch_value c), s) (\<lambda>verified s.
       case verified of
         None \<Rightarrow> (Finished (Inl authenticationFailed), s)
       | Some cred \<Rightarrow> (Register_initial c cred response name remember, s))"
| "identity_step cfg (Register_initial c cred response name remember) sid auth pl s =
     then_phase (repo_read (pl_outcome pl) (Inr (identity_status (is_db s))), s) (\<lambda>st s.
       then_phase (if is_initialized st then Inr ([], []) else fresh_codes (ic_crypto cfg) pl, s) (\<lambda>(codes, hashes) s.
         (Register_add c cred response codes hashes name remember, s)))"
| "identity_step cfg (Register_add c cred response codes hashes name remember) sid auth pl s =
     (case cred of (i, key, counter) \<Rightarrow>
       then_phase (repo_tx (pl_outcome pl) (identity_addPasskey (ic_options cfg) i key counter (\<not> ch_requiresAuthentication c) hashes
           (fst (pl_auditIds pl)) (pl_now pl)) s) (\<lambda>_ s.
         (Remember_device (By_new_passkey c cred response) codes name remember, s)))"
| "identity_step cfg Login_credentials sid auth pl s =
     then_phase (repo_read (pl_outcome pl) (identity_passkeys (is_db s)), s) (\<lambda>credentials s.
       if credentials = [] then (Finished (Inl (GatewayV2Error (gateway_v2_error ''PASSKEY_UNAVAILABLE'' ''No Passkey is registered''))), s)
       else (Login_offer, s))"
| "identity_step cfg Login_offer sid auth pl s = offer CK_passkey_login (pl_challenge pl) False (pl_challenge pl) sid pl s"
| "identity_step cfg (Login_find c response name remember) sid auth pl s =
     then_phase (repo_read (pl_outcome pl) (identity_passkeys (is_db s)), s) (\<lambda>credentials s.
       case find (\<lambda>x. pc_id x = cy_responseId (ic_crypto cfg) response) credentials of
         None \<Rightarrow> (Finished (Inl authenticationFailed), s)
       | Some cred \<Rightarrow> (Login_proof c cred response name remember, s))"
| "identity_step cfg (Login_proof c cred response name remember) sid auth pl s =
     then_phase (cy_login (ic_crypto cfg) response (ch_value c) cred, s) (\<lambda>verified s.
       case verified of
         None \<Rightarrow> (Finished (Inl authenticationFailed), s)
       | Some counter \<Rightarrow> (Login_counter c cred response counter name remember, s))"
| "identity_step cfg (Login_counter c cred response counter name remember) sid auth pl s =
     then_phase (repo_tx (pl_outcome pl) (identity_updatePasskeyCounter (pc_id cred) counter) s) (\<lambda>_ s.
       (Remember_device (By_passkey c cred response) [] name remember, s))"
| "identity_step cfg (Password_status request) sid auth pl s =
     then_phase (repo_read (pl_outcome pl) (Inr (identity_status (is_db s))), s) (\<lambda>st s.
       if is_initialized st \<and> \<not> auth then (Finished (Inl (needs_authentication ''Authenticate before changing the CE password'')), s)
       else (Password_offer (is_initialized st) request, s))"
| "identity_step cfg (Password_offer initialized request) sid auth pl s =
     then_phase (cy_registration_message (ic_crypto cfg) request, s) (\<lambda>message s.
       offer CK_password_registration [] initialized message sid pl s)"
| "identity_step cfg (Password_save c registration name remember) sid auth pl s =
     then_phase (repo_tx (pl_outcome pl) (identity_savePassword (ic_options cfg) registration (\<not> ch_requiresAuthentication c)
         (fst (pl_auditIds pl)) (pl_now pl)) s) (\<lambda>_ s.
       (Password_unused c registration name remember, s))"
| "identity_step cfg (Password_unused c registration name remember) sid auth pl s =
     then_phase (repo_read (pl_outcome pl) (Inr (identity_status (is_db s))), s) (\<lambda>st s.
       if is_unusedRecoveryCodes st = 0
       then then_phase (fresh_codes (ic_crypto cfg) pl, s) (\<lambda>(codes, hashes) s.
         (Password_rotate c registration codes hashes name remember, s))
       else (Remember_device (By_new_password c registration) [] name remember, s))"
| "identity_step cfg (Password_rotate c registration codes hashes name remember) sid auth pl s =
     then_phase (repo_tx (pl_outcome pl) (identity_replaceRecoveryCodes (ic_options cfg) hashes (fst (pl_auditIds pl)) (pl_now pl)) s) (\<lambda>_ s.
       (Remember_device (By_new_password c registration) codes name remember, s))"
| "identity_step cfg (Password_record request) sid auth pl s =
     then_phase (repo_read (pl_outcome pl) (Inr (identity_passwordRecord (is_db s))), s) (\<lambda>registration s.
       case registration of
         None \<Rightarrow> (Finished (Inl (GatewayV2Error (gateway_v2_error ''PASSWORD_UNAVAILABLE'' ''No CE password is registered''))), s)
       | Some r \<Rightarrow>
           then_phase (cy_start (ic_crypto cfg) r request, s) (\<lambda>(login_state, response) s.
             offer CK_password_login login_state False response sid pl s))"
| "identity_step cfg (Password_proof c finish name remember) sid auth pl s =
     (case cy_finish (ic_crypto cfg) (ch_value c) finish of
        Some e \<Rightarrow> (Finished (Inl e), s)
      | None \<Rightarrow> (Remember_device (By_password c finish) [] name remember, s))"
| "identity_step cfg (Recovery_find code name remember) sid auth pl s =
     then_phase (repo_read (pl_outcome pl) (Inr (identity_recoveryHashes (ic_options cfg) (pl_now pl) (is_db s))), s) (\<lambda>hashes s.
       case find (verifyRecoveryCode (ic_crypto cfg) code) hashes of
         None \<Rightarrow> (Finished (Inl authenticationFailed), s)
       | Some h \<Rightarrow>
           then_phase (fresh_codes (ic_crypto cfg) pl, s) (\<lambda>(codes, new) s.
             (Recovery_consume code h codes new name remember, s)))"
| "identity_step cfg (Recovery_consume code h codes hashes name remember) sid auth pl s =
     then_phase (repo_tx (pl_outcome pl) (identity_consumeRecoveryAndReplace (ic_options cfg) h hashes
         (fst (pl_auditIds pl)) (snd (pl_auditIds pl)) (pl_now pl)) s) (\<lambda>_ s.
       (Remember_device (By_recovery code h) codes name remember, s\<lparr>is_recovered := is_recovered s @ [h]\<rparr>))"
| "identity_step cfg (Rotate_write codes hashes) sid auth pl s =
     then_phase (repo_tx (pl_outcome pl) (identity_replaceRecoveryCodes (ic_options cfg) hashes (fst (pl_auditIds pl)) (pl_now pl)) s) (\<lambda>_ s.
       (Finished (Inr (Codes_given codes)), s))"
| "identity_step cfg (Remember_device ev codes name remember) sid auth pl s =
     then_phase (rememberDeviceIfRequested cfg sid name remember pl s) (\<lambda>_ s. authenticatedResult cfg sid remember codes pl s)"
| "identity_step cfg (Finished r) sid auth pl s = (Finished r, s)"

text \<open>\<open>#status\<close> of a session.\<close>

record auth_status_answer =
  sa_initialized :: bool
  sa_authenticated :: bool
  sa_passkeyAvailable :: bool
  sa_passwordAvailable :: bool
  sa_temporary :: bool

definition auth_status :: "identity_session \<Rightarrow> user_db \<Rightarrow> auth_status_answer" where
  "auth_status x db =
     (let st = identity_status db in
      \<lparr>sa_initialized = is_initialized st, sa_authenticated = se_authenticated x, sa_passkeyAvailable = 0 < is_passkeys st,
       sa_passwordAvailable = is_password st, sa_temporary = (se_authenticated x \<and> se_temporary x)\<rparr>)"

section \<open>Sessions together\<close>

record identity_system =
  iy_state :: identity_state
  iy_tasks :: "identity_task list"

text \<open>The other operations of the repository (pairing, devices, handoffs, other processes) are events too.\<close>

datatype identity_event =
    Begin string identity_call platform
  | Step nat platform
  | Challenge_timer nat timestamp
  | Other_operation identity_op
  | Session_closes string
  | Service_closes

fun identity_do :: "identity_config \<Rightarrow> identity_event \<Rightarrow> identity_system \<Rightarrow> identity_system" where
  "identity_do cfg (Begin sid q pl) y =
     (let auth = se_authenticated (is_sessions (iy_state y) sid) in
      case begin_call cfg q sid auth pl (iy_state y) of
        (ph, s) \<Rightarrow> y\<lparr>iy_state := s, iy_tasks := iy_tasks y @ [\<lparr>dt_session = sid, dt_authenticated = auth, dt_phase = ph\<rparr>]\<rparr>)"
| "identity_do cfg (Step i pl) y =
     (if length (iy_tasks y) \<le> i then y
      else let t = iy_tasks y ! i in
        case identity_step cfg (dt_phase t) (dt_session t) (dt_authenticated t) pl (iy_state y) of
          (ph, s) \<Rightarrow> y\<lparr>iy_state := s, iy_tasks := (iy_tasks y)[i := t\<lparr>dt_phase := ph\<rparr>]\<rparr>)"
| "identity_do cfg (Challenge_timer k now) y =
     (let s = iy_state y in
      if length (is_timers s) \<le> k \<or> now < snd (is_timers s ! k) then y
      else y\<lparr>iy_state := s\<lparr>is_challenges := (is_challenges s)(fst (is_timers s ! k) := None),
             is_timers := take k (is_timers s) @ drop (Suc k) (is_timers s)\<rparr>\<rparr>)"
| "identity_do cfg (Other_operation op) y =
     y\<lparr>iy_state := (iy_state y)\<lparr>is_db := snd (identity_exec (ic_options cfg) (cy_sha256 (ic_crypto cfg)) op (is_db (iy_state y)))\<rparr>\<rparr>"
| "identity_do cfg (Session_closes sid) y =
     y\<lparr>iy_state := (iy_state y)\<lparr>is_sessions := (is_sessions (iy_state y))(sid := (is_sessions (iy_state y) sid)\<lparr>se_closed := True\<rparr>)\<rparr>\<rparr>"
| "identity_do cfg Service_closes y = y\<lparr>iy_state := (iy_state y)\<lparr>is_challenges := Map.empty, is_timers := []\<rparr>\<rparr>"

text \<open>The service when it starts, and after a sequence of events.\<close>

definition identity_new :: "user_db \<Rightarrow> ticket_service \<Rightarrow> rate_limiter \<Rightarrow> (string \<Rightarrow> identity_session) \<Rightarrow> identity_system" where
  "identity_new db tickets limiter sessions =
     \<lparr>iy_state = \<lparr>is_db = db, is_challenges = Map.empty, is_timers = [], is_tickets = tickets, is_limiter = limiter,
        is_sessions = sessions, is_issued = [], is_taken = [], is_recovered = []\<rparr>, iy_tasks = []\<rparr>"

definition identity_run :: "identity_config \<Rightarrow> identity_event list \<Rightarrow> identity_system \<Rightarrow> identity_system" where
  "identity_run cfg evs y = fold (identity_do cfg) evs y"

end
