(* ===== verification/Identity_Login.thy ===== *)
theory Identity_Login
  imports Identity_Service
begin

text \<open>
  What the identity service ensures for all interleavings of its handlers: a session becomes authenticated
  only by a proof that was verified against a live challenge of that session, and a challenge is taken once.
\<close>

section \<open>What only grows\<close>

definition registered_key :: "user_db \<Rightarrow> passkey_credential \<Rightarrow> bool" where
  "registered_key db cred \<longleftrightarrow> (\<exists>r \<in> set (db_passkeys db). decodeCredentialId (pk_credential_id r) = Inr (pc_id cred) \<and>
     pk_public_key r = pc_publicKey cred)"

abbreviation authenticated :: "identity_state \<Rightarrow> string \<Rightarrow> bool" where
  "authenticated s sid \<equiv> se_authenticated (is_sessions s sid)"

definition grows :: "identity_state \<Rightarrow> identity_state \<Rightarrow> bool" where
  "grows s s' \<longleftrightarrow> set (is_taken s) \<subseteq> set (is_taken s') \<and> set (is_recovered s) \<subseteq> set (is_recovered s') \<and>
     (\<forall>cred. registered_key (is_db s) cred \<longrightarrow> registered_key (is_db s') cred) \<and>
     (\<forall>sid. authenticated s sid \<longrightarrow> authenticated s' sid)"

lemma grows_refl [simp]: "grows s s"
  by (simp add: grows_def)

lemma grows_trans: "grows s s1 \<Longrightarrow> grows s1 s2 \<Longrightarrow> grows s s2"
  by (auto simp: grows_def)

lemma identity_exec_passkeys:
  assumes "r \<in> set (db_passkeys db)"
  shows "\<exists>r' \<in> set (db_passkeys (snd (identity_exec opts sha op db))). pk_credential_id r' = pk_credential_id r \<and> pk_public_key r' = pk_public_key r"
proof (cases op)
  case (I_counter i n)
  let ?f = "\<lambda>r. if pk_credential_id r = encodeCredentialId i then r\<lparr>pk_sign_count := n\<rparr> else r"
  have "db_passkeys (snd (identity_exec opts sha op db)) = db_passkeys db \<or>
      db_passkeys (snd (identity_exec opts sha op db)) = map ?f (db_passkeys db)"
    using I_counter
    by (auto simp: returns_def run_tx_def identity_updatePasskeyCounter_def Let_def t_update_def split: prod.splits sum.splits if_splits)
  then show ?thesis
  proof
    assume "db_passkeys (snd (identity_exec opts sha op db)) = map ?f (db_passkeys db)"
    then show ?thesis using assms by (intro bexI [of _ "?f r"]) simp_all
  qed (use assms in auto)
qed (use assms in \<open>auto simp: returns_def run_tx_def identity_addPasskey_def identity_savePassword_def identity_rememberDevice_def
    identity_issuePairing_def identity_consumePairing_def identity_revokeDevice_def identity_consumeRecoveryHash_def use_recovery_def
    identity_consumeRecoveryAndReplace_def identity_replaceRecoveryCodes_def identity_issueRecoveryHandoff_def bind_result_Inr Let_def
    t_insert_def dest!: security_audit_frame split: prod.splits sum.splits if_splits option.splits\<close>)

lemma identity_exec_registered: "registered_key db cred \<Longrightarrow> registered_key (snd (identity_exec opts sha op db)) cred"
  unfolding registered_key_def using identity_exec_passkeys by metis

section \<open>What a task relies on\<close>

text \<open>The challenge was issued to the session, and taken once, in time, by a call that was entitled to it.\<close>

definition taken_for :: "identity_state \<Rightarrow> string \<Rightarrow> challenge_kind \<Rightarrow> challenge \<Rightarrow> bool" where
  "taken_for s sid kind c \<longleftrightarrow> ch_kind c = kind \<and> ch_sessionId c = sid \<and> (ch_requiresAuthentication c \<longrightarrow> authenticated s sid) \<and>
     (\<exists>i now. (i, c, now) \<in> set (is_taken s) \<and> now < ch_expiresAt c)"

definition evidence_ok :: "crypto \<Rightarrow> identity_state \<Rightarrow> string \<Rightarrow> evidence \<Rightarrow> bool" where
  "evidence_ok cy s sid ev = (case ev of
     By_new_passkey c cred response \<Rightarrow> taken_for s sid CK_passkey_registration c \<and> cy_register cy response (ch_value c) = Inr (Some cred)
   | By_passkey c cred response \<Rightarrow>
       taken_for s sid CK_passkey_login c \<and> registered_key (is_db s) cred \<and> (\<exists>n. cy_login cy response (ch_value c) cred = Inr (Some n))
   | By_new_password c registration \<Rightarrow> taken_for s sid CK_password_registration c
   | By_password c finish \<Rightarrow> taken_for s sid CK_password_login c \<and> cy_finish cy (ch_value c) finish = None
   | By_recovery code h \<Rightarrow> verifyRecoveryCode cy code h \<and> h \<in> set (is_recovered s))"

fun phase_ok :: "crypto \<Rightarrow> identity_state \<Rightarrow> string \<Rightarrow> identity_phase \<Rightarrow> bool" where
  "phase_ok cy s sid (Register_proof c response name remember) = taken_for s sid CK_passkey_registration c"
| "phase_ok cy s sid (Register_initial c cred response name remember) = evidence_ok cy s sid (By_new_passkey c cred response)"
| "phase_ok cy s sid (Register_add c cred response codes hashes name remember) = evidence_ok cy s sid (By_new_passkey c cred response)"
| "phase_ok cy s sid (Login_find c response name remember) = taken_for s sid CK_passkey_login c"
| "phase_ok cy s sid (Login_proof c cred response name remember) = (taken_for s sid CK_passkey_login c \<and> registered_key (is_db s) cred)"
| "phase_ok cy s sid (Login_counter c cred response n name remember) = evidence_ok cy s sid (By_passkey c cred response)"
| "phase_ok cy s sid (Password_save c registration name remember) = taken_for s sid CK_password_registration c"
| "phase_ok cy s sid (Password_unused c registration name remember) = taken_for s sid CK_password_registration c"
| "phase_ok cy s sid (Password_rotate c registration codes hashes name remember) = taken_for s sid CK_password_registration c"
| "phase_ok cy s sid (Password_proof c finish name remember) = taken_for s sid CK_password_login c"
| "phase_ok cy s sid (Recovery_consume code h codes hashes name remember) = verifyRecoveryCode cy code h"
| "phase_ok cy s sid (Remember_device ev codes name remember) = evidence_ok cy s sid ev"
| "phase_ok cy s sid _ = True"

lemma taken_for_grows: "grows s s' \<Longrightarrow> taken_for s sid kind c \<Longrightarrow> taken_for s' sid kind c"
  by (auto simp: grows_def taken_for_def)

lemma evidence_ok_grows: "grows s s' \<Longrightarrow> evidence_ok cy s sid ev \<Longrightarrow> evidence_ok cy s' sid ev"
  using taken_for_grows [of s s'] by (auto simp: evidence_ok_def grows_def split: evidence.splits)

lemma phase_ok_grows: "grows s s' \<Longrightarrow> phase_ok cy s sid ph \<Longrightarrow> phase_ok cy s' sid ph"
  using taken_for_grows [of s s'] evidence_ok_grows [of s s'] by (cases ph) (auto simp: grows_def)

section \<open>One stretch of a task\<close>

definition step_good :: "crypto \<Rightarrow> string \<Rightarrow> identity_state \<Rightarrow> identity_phase \<times> identity_state \<Rightarrow> bool" where
  "step_good cy sid s r \<longleftrightarrow> grows s (snd r) \<and> phase_ok cy (snd r) sid (fst r)"

lemma step_failed [simp]: "step_good cy sid s (Finished r, s)"
  by (simp add: step_good_def)

lemma step_stays: "phase_ok cy s sid ph \<Longrightarrow> step_good cy sid s (ph, s)"
  by (simp add: step_good_def)

lemma then_phase_good:
  assumes "grows s (snd r)" and "\<And>x. fst r = Inr x \<Longrightarrow> step_good cy sid (snd r) (k x (snd r))"
  shows "step_good cy sid s (then_phase r k)"
proof (cases r)
  case (Pair res s1)
  show ?thesis
  proof (cases res)
    case (Inl e)
    with Pair assms(1) show ?thesis by (simp add: then_phase_def step_good_def)
  next
    case (Inr x)
    then have "step_good cy sid s1 (k x s1)" using assms(2) Pair by simp
    then show ?thesis using Pair Inr assms(1) by (auto simp: then_phase_def step_good_def intro: grows_trans)
  qed
qed

lemma then_phase_here:
  assumes "\<And>x. r = Inr x \<Longrightarrow> step_good cy sid s (k x s)"
  shows "step_good cy sid s (then_phase (r, s) k)"
  by (rule then_phase_good) (use assms in simp_all)

text \<open>The transactions of the service are operations of the repository.\<close>

lemma repo_tx_grows:
  assumes "snd (run_tx t (is_db s)) = snd (identity_exec opts sha op (is_db s))"
  shows "grows s (snd (repo_tx out t s))"
proof -
  have "is_db (snd (repo_tx out t s)) \<in> {is_db s, snd (identity_exec opts sha op (is_db s))}"
    "snd (repo_tx out t s) = s\<lparr>is_db := is_db (snd (repo_tx out t s))\<rparr>"
    using assms by (auto simp: repo_tx_def split: prod.splits repo_outcome.splits)
  then obtain db where db: "snd (repo_tx out t s) = s\<lparr>is_db := db\<rparr>" "db \<in> {is_db s, snd (identity_exec opts sha op (is_db s))}"
    by metis
  then show ?thesis using identity_exec_registered [of "is_db s" _ opts sha op] by (auto simp: grows_def)
qed

lemma exec_tx:
  "snd (identity_exec opts sha (I_addPasskey i key n req hs a now) db) = snd (run_tx (identity_addPasskey opts i key n req hs a now) db)"
  "snd (identity_exec opts sha (I_counter i n) db) = snd (run_tx (identity_updatePasskeyCounter i n) db)"
  "snd (identity_exec opts sha (I_password rec req a now) db) = snd (run_tx (identity_savePassword opts rec req a now) db)"
  "snd (identity_exec opts sha (I_remember d name key a now) db) = snd (run_tx (identity_rememberDevice opts d name key a now) db)"
  "snd (identity_exec opts sha (I_recoverReplace h hs a b now) db) = snd (run_tx (identity_consumeRecoveryAndReplace opts h hs a b now) db)"
  "snd (identity_exec opts sha (I_replace hs a now) db) = snd (run_tx (identity_replaceRecoveryCodes opts hs a now) db)"
  by (simp_all add: returns_def split: prod.splits)

lemmas tx_grows =
  repo_tx_grows [OF exec_tx(1) [symmetric]] repo_tx_grows [OF exec_tx(2) [symmetric]] repo_tx_grows [OF exec_tx(3) [symmetric]]
  repo_tx_grows [OF exec_tx(4) [symmetric]] repo_tx_grows [OF exec_tx(5) [symmetric]] repo_tx_grows [OF exec_tx(6) [symmetric]]

lemma offer_good: "step_good cy sid s (offer kind value requires answer sid' pl s)"
  by (simp add: offer_def step_good_def grows_def rememberChallenge_def)

lemma identity_authenticate_grows: "identity_authenticate sid temporary s = Inr s' \<Longrightarrow> grows s s'"
  by (auto simp: identity_authenticate_def Let_def grows_def split: if_splits)

lemma authenticatedResult_good: "step_good cy sid s (authenticatedResult cfg sid' remembered codes pl s)"
proof (cases "identity_authenticate sid' (\<not> remembered) s")
  case (Inr s1)
  then have g: "grows s s1" by (rule identity_authenticate_grows)
  then have "grows s (s1\<lparr>is_tickets := ts\<rparr>)" for ts by (simp add: grows_def)
  with g Inr show ?thesis by (auto simp: authenticatedResult_def step_good_def split: sum.splits)
qed (simp add: authenticatedResult_def)

lemma remember_grows: "grows s (snd (rememberDeviceIfRequested cfg sid name remember pl s))"
proof (cases "requiredDevice (se_device (is_sessions s sid))")
  case (Inr d)
  let ?t = "repo_tx (pl_outcome pl) (identity_rememberDevice (ic_options cfg) (bd_id d) name (bd_publicKey d) (fst (pl_auditIds pl)) (pl_now pl)) s"
  have "grows s (snd ?t)" by (rule tx_grows(4))
  then show ?thesis using Inr by (cases ?t) (auto simp: rememberDeviceIfRequested_def split: sum.splits)
qed (simp add: rememberDeviceIfRequested_def)

lemma taken_now:
  assumes "auth \<Longrightarrow> authenticated s sid"
  shows "grows s (snd (takeChallenge i kind sid auth now s))"
    "fst (takeChallenge i kind sid auth now s) = Inr c \<Longrightarrow> taken_for (snd (takeChallenge i kind sid auth now s)) sid kind c"
  using assms
  by (auto simp: takeChallenge_def Let_def grows_def taken_for_def not_le split: option.splits if_splits)

lemma begin_good:
  assumes "auth \<Longrightarrow> authenticated s sid"
  shows "step_good cy sid s (begin_call cfg q sid auth pl s)"
proof (cases q)
  case (Register_verify i response name remember)
  then show ?thesis using taken_now [OF assms] by (auto simp: begin_call_def intro!: then_phase_good step_stays)
next
  case (Login_verify i response name remember)
  then show ?thesis using taken_now [OF assms] by (auto simp: begin_call_def intro!: then_phase_good step_stays)
next
  case (Password_register_finish i registration name remember)
  then show ?thesis using taken_now [OF assms] by (auto simp: begin_call_def intro!: then_phase_good step_stays)
next
  case (Password_login_finish i finish name remember)
  then show ?thesis using taken_now [OF assms] by (auto simp: begin_call_def intro!: then_phase_good step_stays)
qed (auto simp: begin_call_def step_good_def grows_def split: sum.splits)

lemma found_key: "identity_passkeys db = Inr credentials \<Longrightarrow> cred \<in> set credentials \<Longrightarrow> registered_key db cred"
proof -
  assume a: "identity_passkeys db = Inr credentials" "cred \<in> set credentials"
  define f where "f = (\<lambda>r :: passkey_row. bind_result (decodeCredentialId (pk_credential_id r)) (\<lambda>i.
       bind_result (sql_integer (pk_sign_count r) ''credential sign count'') (\<lambda>n.
         Inr \<lparr>pc_id = i, pc_publicKey = pk_public_key r, pc_counter = n\<rparr>)))"
  have "map f (sort_key pk_created_at (db_passkeys db)) = map Inr credentials"
    using a(1) by (simp add: identity_passkeys_def map_result_Inr f_def)
  then have "Inr cred \<in> f ` set (db_passkeys db)" using a(2) by (metis image_eqI list.set_map set_sort)
  then obtain r where "r \<in> set (db_passkeys db)" "f r = Inr cred" by auto
  then show ?thesis by (auto simp: registered_key_def f_def bind_result_Inr)
qed

lemma repo_read_Inr: "repo_read out res = Inr x \<longleftrightarrow> out = Repo_fine \<and> res = Inr x"
  by (cases out) (auto simp: repo_read_def)

lemma step_is_good:
  assumes "phase_ok (ic_crypto cfg) s sid ph"
  shows "step_good (ic_crypto cfg) sid s (identity_step cfg ph sid auth pl s)"
proof (cases ph)
  case Register_status
  then show ?thesis by (auto intro!: then_phase_here step_stays)
next
  case (Register_offer initialized)
  then show ?thesis by (auto intro!: then_phase_here offer_good)
next
  case (Register_proof c response name remember)
  then show ?thesis using assms by (auto intro!: then_phase_here step_stays simp: evidence_ok_def split: option.splits)
next
  case (Register_initial c cred response name remember)
  then show ?thesis using assms by (auto intro!: then_phase_here step_stays)
next
  case (Register_add c cred response codes hashes name remember)
  obtain i key n where cred: "cred = (i, key, n)" by (cases cred)
  let ?t = "repo_tx (pl_outcome pl) (identity_addPasskey (ic_options cfg) i key n (\<not> ch_requiresAuthentication c) hashes
    (fst (pl_auditIds pl)) (pl_now pl)) s"
  have g: "grows s (snd ?t)" by (rule tx_grows(1))
  then have "phase_ok (ic_crypto cfg) (snd ?t) sid (Remember_device (By_new_passkey c cred response) codes name remember)"
    using assms Register_add evidence_ok_grows [OF g] by simp
  with g show ?thesis using Register_add cred by (auto intro!: then_phase_good step_stays)
next
  case Login_credentials
  then show ?thesis by (auto intro!: then_phase_here step_stays)
next
  case Login_offer
  then show ?thesis by (simp add: offer_good)
next
  case (Login_find c response name remember)
  then show ?thesis using assms found_key [of "is_db s"]
    by (auto intro!: then_phase_here step_stays simp: repo_read_Inr find_Some_iff split: option.splits)
next
  case (Login_proof c cred response name remember)
  then show ?thesis using assms by (auto intro!: then_phase_here step_stays simp: evidence_ok_def split: option.splits)
next
  case (Login_counter c cred response n name remember)
  let ?t = "repo_tx (pl_outcome pl) (identity_updatePasskeyCounter (pc_id cred) n) s"
  have g: "grows s (snd ?t)" by (rule tx_grows(2))
  show ?thesis using assms Login_counter evidence_ok_grows [OF g] g by (auto intro!: then_phase_good step_stays)
next
  case (Password_status request)
  then show ?thesis by (auto intro!: then_phase_here step_stays)
next
  case (Password_offer initialized request)
  then show ?thesis by (auto intro!: then_phase_here offer_good)
next
  case (Password_save c registration name remember)
  let ?t = "repo_tx (pl_outcome pl) (identity_savePassword (ic_options cfg) registration (\<not> ch_requiresAuthentication c)
    (fst (pl_auditIds pl)) (pl_now pl)) s"
  have g: "grows s (snd ?t)" by (rule tx_grows(3))
  show ?thesis using assms Password_save taken_for_grows [OF g] g by (auto intro!: then_phase_good step_stays)
next
  case (Password_unused c registration name remember)
  then show ?thesis using assms by (auto intro!: then_phase_here step_stays simp: evidence_ok_def)
next
  case (Password_rotate c registration codes hashes name remember)
  let ?t = "repo_tx (pl_outcome pl) (identity_replaceRecoveryCodes (ic_options cfg) hashes (fst (pl_auditIds pl)) (pl_now pl)) s"
  have g: "grows s (snd ?t)" by (rule tx_grows(6))
  show ?thesis using assms Password_rotate taken_for_grows [OF g] g by (auto intro!: then_phase_good step_stays simp: evidence_ok_def)
next
  case (Password_record request)
  then show ?thesis by (auto intro!: then_phase_here offer_good split: option.splits)
next
  case (Password_proof c finish name remember)
  then show ?thesis using assms by (auto intro!: step_stays simp: evidence_ok_def split: option.splits)
next
  case (Recovery_find code name remember)
  then show ?thesis
    by (auto intro!: then_phase_here step_stays simp: find_Some_iff split: option.splits)
next
  case (Recovery_consume code h codes hashes name remember)
  let ?t = "repo_tx (pl_outcome pl) (identity_consumeRecoveryAndReplace (ic_options cfg) h hashes (fst (pl_auditIds pl)) (snd (pl_auditIds pl))
    (pl_now pl)) s"
  have g: "grows s (snd ?t)" by (rule tx_grows(5))
  have "step_good (ic_crypto cfg) sid s1 (Remember_device (By_recovery code h) codes name remember, s1\<lparr>is_recovered := is_recovered s1 @ [h]\<rparr>)" for s1
    using assms Recovery_consume by (auto simp: step_good_def grows_def evidence_ok_def)
  with g show ?thesis using Recovery_consume by (auto intro!: then_phase_good)
next
  case (Rotate_write codes hashes)
  let ?t = "repo_tx (pl_outcome pl) (identity_replaceRecoveryCodes (ic_options cfg) hashes (fst (pl_auditIds pl)) (pl_now pl)) s"
  have g: "grows s (snd ?t)" by (rule tx_grows(6))
  then show ?thesis using Rotate_write by (auto intro!: then_phase_good)
next
  case (Remember_device ev codes name remember)
  then show ?thesis by (auto intro!: then_phase_good authenticatedResult_good remember_grows)
next
  case (Finished r)
  then show ?thesis by simp
qed

section \<open>Sessions are changed by the last stretch only\<close>

definition keeps_sessions :: "identity_state \<Rightarrow> identity_phase \<times> identity_state \<Rightarrow> bool" where
  "keeps_sessions s r \<longleftrightarrow> is_sessions (snd r) = is_sessions s"

lemma keeps_simps [simp]: "keeps_sessions s (ph, s)" "keeps_sessions s (offer kind value requires answer sid pl s)"
  by (simp_all add: keeps_sessions_def offer_def rememberChallenge_def)

lemma then_phase_keeps:
  assumes "is_sessions (snd r) = is_sessions s" and "\<And>x. keeps_sessions (snd r) (k x (snd r))"
  shows "keeps_sessions s (then_phase r k)"
  using assms by (auto simp: keeps_sessions_def then_phase_def split: prod.splits sum.splits)

lemma then_phase_keeps_here: "(\<And>x. r = Inr x \<Longrightarrow> keeps_sessions s (k x s)) \<Longrightarrow> keeps_sessions s (then_phase (r, s) k)"
  by (auto simp: keeps_sessions_def then_phase_def split: sum.splits)

lemma repo_tx_sessions: "is_sessions (snd (repo_tx out t s)) = is_sessions s"
  by (auto simp: repo_tx_def split: prod.splits repo_outcome.splits)

lemma begin_keeps_sessions: "keeps_sessions s (begin_call cfg q sid auth pl s)"
  by (cases q) (auto simp: begin_call_def keeps_sessions_def then_phase_def takeChallenge_def Let_def split: sum.splits option.splits if_splits prod.splits)

fun grants :: "identity_phase \<Rightarrow> bool" where
  "grants (Remember_device ev codes name remember) = True"
| "grants _ = False"

lemma step_keeps_sessions:
  assumes "\<not> grants ph"
  shows "keeps_sessions s (identity_step cfg ph sid auth pl s)"
proof (cases ph)
  case (Register_add c cred response codes hashes name remember)
  then show ?thesis by (cases cred) (auto intro!: then_phase_keeps simp: repo_tx_sessions)
next
  case (Recovery_consume code h codes hashes name remember)
  then show ?thesis by (auto intro!: then_phase_keeps simp: repo_tx_sessions) (simp add: keeps_sessions_def)
next
  case (Remember_device ev codes name remember)
  with assms show ?thesis by simp
qed (auto intro!: then_phase_keeps_here then_phase_keeps simp: repo_tx_sessions split: option.splits)

lemma remember_sessions: "is_sessions (snd (rememberDeviceIfRequested cfg sid name remember pl s)) = is_sessions s"
proof (cases "requiredDevice (se_device (is_sessions s sid))")
  case (Inr d)
  let ?t = "repo_tx (pl_outcome pl) (identity_rememberDevice (ic_options cfg) (bd_id d) name (bd_publicKey d) (fst (pl_auditIds pl)) (pl_now pl)) s"
  have "is_sessions (snd ?t) = is_sessions s" by (rule repo_tx_sessions)
  then show ?thesis using Inr by (cases ?t) (auto simp: rememberDeviceIfRequested_def split: sum.splits)
qed (simp add: rememberDeviceIfRequested_def)

lemma result_sessions:
  "sid \<noteq> sid' \<Longrightarrow> is_sessions (snd (authenticatedResult cfg sid remembered codes pl s)) sid' = is_sessions s sid'"
  by (auto simp: authenticatedResult_def identity_authenticate_def Let_def split: sum.splits prod.splits)

lemma grant_sessions:
  assumes "sid \<noteq> sid'"
  shows "is_sessions (snd (identity_step cfg (Remember_device ev codes name remember) sid auth pl s)) sid' = is_sessions s sid'"
  using result_sessions [OF assms] remember_sessions [of cfg sid name remember pl s]
  by (auto simp: then_phase_def split: prod.splits sum.splits)

section \<open>The system\<close>

definition identity_system_ok :: "identity_config \<Rightarrow> identity_system \<Rightarrow> bool" where
  "identity_system_ok cfg y \<longleftrightarrow> (\<forall>t \<in> set (iy_tasks y). (dt_authenticated t \<longrightarrow> authenticated (iy_state y) (dt_session t)) \<and>
     phase_ok (ic_crypto cfg) (iy_state y) (dt_session t) (dt_phase t))"

lemma tasks_grow:
  assumes "identity_system_ok cfg y" and "grows (iy_state y) s'" and "t \<in> set (iy_tasks y)"
  shows "(dt_authenticated t \<longrightarrow> authenticated s' (dt_session t)) \<and> phase_ok (ic_crypto cfg) s' (dt_session t) (dt_phase t)"
proof -
  have "phase_ok (ic_crypto cfg) (iy_state y) (dt_session t) (dt_phase t)" "dt_authenticated t \<longrightarrow> authenticated (iy_state y) (dt_session t)"
    using assms(1,3) by (simp_all add: identity_system_ok_def)
  then show ?thesis using phase_ok_grows [OF assms(2)] assms(2) by (simp add: grows_def)
qed

lemma identity_system_okI:
  assumes "identity_system_ok cfg y" and "grows (iy_state y) (iy_state y')"
    and "\<And>t. t \<in> set (iy_tasks y') \<Longrightarrow> t \<notin> set (iy_tasks y) \<Longrightarrow>
      (dt_authenticated t \<longrightarrow> authenticated (iy_state y') (dt_session t)) \<and> phase_ok (ic_crypto cfg) (iy_state y') (dt_session t) (dt_phase t)"
  shows "identity_system_ok cfg y'"
  unfolding identity_system_ok_def
proof
  fix t assume "t \<in> set (iy_tasks y')"
  with assms(3) tasks_grow [OF assms(1,2)]
  show "(dt_authenticated t \<longrightarrow> authenticated (iy_state y') (dt_session t)) \<and> phase_ok (ic_crypto cfg) (iy_state y') (dt_session t) (dt_phase t)"
    by (cases "t \<in> set (iy_tasks y)") blast+
qed

lemma do_system_ok:
  assumes "identity_system_ok cfg y"
  shows "identity_system_ok cfg (identity_do cfg ev y)"
proof (cases ev)
  case (Begin sid q pl)
  let ?auth = "authenticated (iy_state y) sid"
  obtain ph s where b: "begin_call cfg q sid ?auth pl (iy_state y) = (ph, s)" by (cases "begin_call cfg q sid ?auth pl (iy_state y)")
  have good: "step_good (ic_crypto cfg) sid (iy_state y) (ph, s)" using begin_good [of ?auth "iy_state y" sid "ic_crypto cfg" cfg q pl] b by simp
  show ?thesis
    by (rule identity_system_okI [OF assms]) (use good Begin b in \<open>auto simp: step_good_def Let_def grows_def\<close>)
next
  case (Step i pl)
  show ?thesis
  proof (cases "i < length (iy_tasks y)")
    case True
    let ?t = "iy_tasks y ! i"
    obtain ph s where st: "identity_step cfg (dt_phase ?t) (dt_session ?t) (dt_authenticated ?t) pl (iy_state y) = (ph, s)"
      by (cases "identity_step cfg (dt_phase ?t) (dt_session ?t) (dt_authenticated ?t) pl (iy_state y)")
    have t: "dt_authenticated ?t \<longrightarrow> authenticated (iy_state y) (dt_session ?t)"
      "phase_ok (ic_crypto cfg) (iy_state y) (dt_session ?t) (dt_phase ?t)"
      using assms True by (simp_all add: identity_system_ok_def)
    have good: "grows (iy_state y) s" "phase_ok (ic_crypto cfg) s (dt_session ?t) ph"
      using step_is_good [OF t(2), of "dt_authenticated ?t" pl] st by (simp_all add: step_good_def)
    have new: "identity_do cfg ev y = y\<lparr>iy_state := s, iy_tasks := (iy_tasks y)[i := ?t\<lparr>dt_phase := ph\<rparr>]\<rparr>"
      using Step True st by (simp add: Let_def)
    show ?thesis
      unfolding new
    proof (rule identity_system_okI [OF assms])
      show "grows (iy_state y) (iy_state (y\<lparr>iy_state := s, iy_tasks := (iy_tasks y)[i := ?t\<lparr>dt_phase := ph\<rparr>]\<rparr>))" using good(1) by simp
      fix t' assume "t' \<in> set (iy_tasks (y\<lparr>iy_state := s, iy_tasks := (iy_tasks y)[i := ?t\<lparr>dt_phase := ph\<rparr>]\<rparr>))" "t' \<notin> set (iy_tasks y)"
      then have "t' = ?t\<lparr>dt_phase := ph\<rparr>"
        using set_update_subset_insert [of "iy_tasks y" i "?t\<lparr>dt_phase := ph\<rparr>"] by auto
      then show "(dt_authenticated t' \<longrightarrow> authenticated (iy_state (y\<lparr>iy_state := s, iy_tasks := (iy_tasks y)[i := ?t\<lparr>dt_phase := ph\<rparr>]\<rparr>)) (dt_session t')) \<and>
          phase_ok (ic_crypto cfg) (iy_state (y\<lparr>iy_state := s, iy_tasks := (iy_tasks y)[i := ?t\<lparr>dt_phase := ph\<rparr>]\<rparr>)) (dt_session t') (dt_phase t')"
        using good t(1) by (simp add: grows_def)
    qed
  qed (use assms Step in simp)
next
  case (Challenge_timer k now)
  then show ?thesis by (intro identity_system_okI [OF assms]) (auto simp: Let_def grows_def split: if_splits)
next
  case (Other_operation op)
  then show ?thesis by (intro identity_system_okI [OF assms]) (auto simp: grows_def identity_exec_registered)
next
  case (Session_closes sid)
  then show ?thesis by (intro identity_system_okI [OF assms]) (auto simp: grows_def)
next
  case Service_closes
  then show ?thesis by (intro identity_system_okI [OF assms]) (auto simp: grows_def)
qed

lemma run_identity_ok: "identity_system_ok cfg (identity_run cfg evs (identity_new db tickets limiter sessions))"
proof -
  have "identity_system_ok cfg y \<Longrightarrow> identity_system_ok cfg (fold (identity_do cfg) evs y)" for y
    using do_system_ok by (induction evs arbitrary: y) auto
  then show ?thesis by (simp add: identity_run_def identity_new_def identity_system_ok_def)
qed

section \<open>Challenges are taken once\<close>

definition takes_ok :: "identity_state \<Rightarrow> bool" where
  "takes_ok s \<longleftrightarrow> (\<forall>i. count_list (map fst (is_taken s)) i \<le> count_list (map fst (is_issued s)) i) \<and>
     (\<forall>i. is_challenges s i \<noteq> None \<longrightarrow> count_list (map fst (is_taken s)) i < count_list (map fst (is_issued s)) i) \<and>
     (\<forall>i c. is_challenges s i = Some c \<longrightarrow> (i, c) \<in> set (is_issued s)) \<and>
     (\<forall>i c now. (i, c, now) \<in> set (is_taken s) \<longrightarrow> (i, c) \<in> set (is_issued s))"

lemma takes_ok_cong:
  "is_taken s' = is_taken s \<Longrightarrow> is_challenges s' = is_challenges s \<Longrightarrow> is_issued s' = is_issued s \<Longrightarrow> takes_ok s' = takes_ok s"
  by (simp add: takes_ok_def)

lemma takes_ok_drop: "takes_ok s \<Longrightarrow> takes_ok (s\<lparr>is_challenges := (is_challenges s)(i := None)\<rparr>)"
  by (auto simp: takes_ok_def)

lemma takes_ok_offer: "takes_ok s \<Longrightarrow> takes_ok (snd (offer kind value requires answer sid pl s))"
  by (auto simp: takes_ok_def offer_def rememberChallenge_def less_Suc_eq_le le_Suc_eq)

lemma takes_ok_take: "takes_ok s \<Longrightarrow> takes_ok (snd (takeChallenge i kind sid auth now s))"
proof (cases "is_challenges s i")
  case None
  then show "takes_ok s \<Longrightarrow> takes_ok (snd (takeChallenge i kind sid auth now s))"
    using takes_ok_drop [of s i] by (simp add: takeChallenge_def Let_def)
next
  case (Some c)
  assume ok: "takes_ok s"
  have "takes_ok (s\<lparr>is_challenges := (is_challenges s)(i := None), is_taken := is_taken s @ [(i, c, now)]\<rparr>)"
    using ok Some by (auto simp: takes_ok_def Suc_le_eq)
  then show ?thesis using Some takes_ok_drop [OF ok, of i] by (auto simp: takeChallenge_def Let_def)
qed

lemma then_phase_takes:
  assumes "takes_ok (snd r)" and "\<And>x s. takes_ok s \<Longrightarrow> takes_ok (snd (k x s))"
  shows "takes_ok (snd (then_phase r k))"
  using assms by (auto simp: then_phase_def split: prod.splits sum.splits)

lemma repo_tx_takes: "takes_ok (snd (repo_tx out t s)) = takes_ok s"
  by (rule takes_ok_cong) (auto simp: repo_tx_def split: prod.splits repo_outcome.splits)

lemma remember_takes: "takes_ok (snd (rememberDeviceIfRequested cfg sid name remember pl s)) = takes_ok s"
proof (cases "requiredDevice (se_device (is_sessions s sid))")
  case (Inr d)
  let ?t = "repo_tx (pl_outcome pl) (identity_rememberDevice (ic_options cfg) (bd_id d) name (bd_publicKey d) (fst (pl_auditIds pl)) (pl_now pl)) s"
  have "takes_ok (snd ?t) = takes_ok s" by (rule repo_tx_takes)
  then show ?thesis using Inr by (cases ?t) (auto simp: rememberDeviceIfRequested_def split: sum.splits)
qed (simp add: rememberDeviceIfRequested_def)

lemma result_takes: "takes_ok (snd (authenticatedResult cfg sid remembered codes pl s)) = takes_ok s"
  by (rule takes_ok_cong) (auto simp: authenticatedResult_def identity_authenticate_def Let_def split: sum.splits prod.splits)

lemma begin_takes: "takes_ok s \<Longrightarrow> takes_ok (snd (begin_call cfg q sid auth pl s))"
proof -
  have limiter: "takes_ok (s\<lparr>is_limiter := l\<rparr>) = takes_ok s" for l by (rule takes_ok_cong) simp_all
  show "takes_ok s \<Longrightarrow> takes_ok (snd (begin_call cfg q sid auth pl s))"
    by (cases q) (auto simp: begin_call_def limiter intro!: then_phase_takes takes_ok_take split: sum.splits)
qed

lemma step_takes: "takes_ok s \<Longrightarrow> takes_ok (snd (identity_step cfg ph sid auth pl s))"
proof -
  have recovered: "takes_ok (s\<lparr>is_recovered := l\<rparr>) = takes_ok s" for l s by (rule takes_ok_cong) simp_all
  show "takes_ok s \<Longrightarrow> takes_ok (snd (identity_step cfg ph sid auth pl s))"
  proof (cases ph)
    case (Register_add c cred response codes hashes name remember)
    then show "takes_ok s \<Longrightarrow> takes_ok (snd (identity_step cfg ph sid auth pl s))"
      by (cases cred) (auto simp: repo_tx_takes intro!: then_phase_takes)
  qed (auto simp: repo_tx_takes remember_takes result_takes recovered intro!: then_phase_takes takes_ok_offer split: option.splits)
qed

lemma do_takes:
  assumes "takes_ok (iy_state y)"
  shows "takes_ok (iy_state (identity_do cfg ev y))"
proof (cases ev)
  case (Begin sid q pl)
  then show ?thesis using begin_takes [OF assms, of cfg q sid "authenticated (iy_state y) sid" pl]
    by (auto simp: Let_def split: prod.splits)
next
  case (Step i pl)
  then show ?thesis
    using assms step_takes [OF assms, of cfg "dt_phase (iy_tasks y ! i)" "dt_session (iy_tasks y ! i)" "dt_authenticated (iy_tasks y ! i)" pl]
    by (auto simp: Let_def split: prod.splits)
next
  case (Challenge_timer k now)
  let ?i = "fst (is_timers (iy_state y) ! k)"
  have "takes_ok ((iy_state y)\<lparr>is_challenges := (is_challenges (iy_state y))(?i := None), is_timers := ts\<rparr>)" for ts
    using takes_ok_drop [OF assms, of ?i] by (simp add: takes_ok_def)
  then show ?thesis using Challenge_timer assms by (simp add: Let_def)
qed (use assms in \<open>simp_all add: takes_ok_def\<close>)

lemma run_takes: "takes_ok (iy_state (identity_run cfg evs (identity_new db tickets limiter sessions)))"
proof -
  have "takes_ok (iy_state y) \<Longrightarrow> takes_ok (iy_state (fold (identity_do cfg) evs y))" for y
    using do_takes by (induction evs arbitrary: y) auto
  then show ?thesis by (simp add: identity_run_def identity_new_def takes_ok_def)
qed

section \<open>Properties\<close>


text \<open>Every challenge is taken at most as often as its id was issued, that is once for fresh ids, and was issued before.\<close>

theorem challenges_are_taken_once:
  assumes "y = identity_run cfg evs (identity_new db tickets limiter sessions)"
  shows "count_list (map fst (is_taken (iy_state y))) i \<le> count_list (map fst (is_issued (iy_state y))) i \<and>
    ((i, c, now) \<in> set (is_taken (iy_state y)) \<longrightarrow> (i, c) \<in> set (is_issued (iy_state y)))"
proof -
  have "takes_ok (iy_state y)" unfolding assms by (rule run_takes)
  then show ?thesis unfolding takes_ok_def by blast
qed

section \<open>Examples\<close>

definition example_crypto :: crypto where
  "example_crypto = \<lparr>cy_register = (\<lambda>r v. Inr None), cy_login = (\<lambda>r v c. Inr None), cy_responseId = (\<lambda>r. []),
     cy_registration_message = (\<lambda>m. Inr m), cy_start = (\<lambda>r q. Inr (''state'', ''message'')),
     cy_finish = (\<lambda>st f. if f = ''right'' then None else Some (Error ''wrong'')),
     cy_scrypt = (\<lambda>c salt. replicate 32 (length c)), cy_sha256 = (\<lambda>x. [length x])\<rparr>"

definition example_config :: identity_config where
  "example_config = \<lparr>ic_options = \<lparr>io_recoveryHandoffs = False, io_securityAudit = False\<rparr>, ic_principalId = ''user:alice'',
     ic_crypto = example_crypto\<rparr>"

definition example_platform :: "timestamp \<Rightarrow> platform" where
  "example_platform now = \<lparr>pl_now = now, pl_uuid = ''c1'', pl_challenge = ''v'', pl_codes = [replicate 10 171], pl_salts = [replicate 16 9],
     pl_token = ''token'', pl_auditIds = (''a'', ''b''), pl_outcome = Repo_fine\<rparr>"

text \<open>A database with a password and one recovery code, and sessions with or without a device key.\<close>

definition example_service :: "device_binding option \<Rightarrow> identity_system" where
  "example_service device = identity_new
     ((empty_user_db 0)\<lparr>db_password := Some \<lparr>pw_registration_record = ''record'', pw_updated_at = 0\<rparr>,
        db_recovery_codes := [\<lparr>rc_hash = replicate 16 1 @ replicate 32 23, rc_created_at = 0, rc_used_at = None\<rparr>]\<rparr>)
     (projr (tickets_new None)) (projr (limiter_new (\<lambda>_. None)))
     (\<lambda>_. \<lparr>se_authenticated = False, se_temporary = True, se_device = device, se_closed = False\<rparr>)"

definition login_events :: "identity_event list" where
  "login_events = [Begin ''s'' (Password_login_start ''q'') (example_platform 1), Step 0 (example_platform 2),
     Begin ''s'' (Password_login_finish ''c1'' ''right'' ''laptop'' False) (example_platform 3), Step 1 (example_platform 4)]"

definition example_device :: device_binding where
  "example_device = \<lparr>bd_id = ''d'', bd_publicKey = replicate 32 1\<rparr>"

definition before_login :: identity_system where
  "before_login = identity_run example_config login_events (example_service (Some example_device))"

lemma example_login:
  "\<not> authenticated (iy_state before_login) ''s''"
  "authenticated (iy_state (identity_do example_config (Step 1 (example_platform 5)) before_login)) ''s''"
  by code_simp+


text \<open>
  Recovery by a session whose transport has no device key: the code is consumed and all codes are replaced, but the
  call fails and nobody gets the new ones; without a device to remember the session is even authenticated.
\<close>

definition recovery_events :: "bool \<Rightarrow> identity_event list" where
  "recovery_events remember = [Begin ''s'' (Recover ''aaaaa-aaaaa-aaaaa-aaaaa'' ''laptop'' remember) (example_platform 1),
     Step 0 (example_platform 2), Step 0 (example_platform 3), Step 0 (example_platform 4)]"

definition after_recovery :: "bool \<Rightarrow> identity_system" where
  "after_recovery remember = identity_run example_config (recovery_events remember) (example_service None)"

fun failed_phase :: "identity_phase \<Rightarrow> bool" where
  "failed_phase (Finished (Inl e)) = True"
| "failed_phase _ = False"

lemma recovery_without_device_loses_codes:
  "failed_phase (dt_phase (iy_tasks (after_recovery True) ! 0))"
  "map rc_hash (db_recovery_codes (is_db (iy_state (after_recovery True)))) = [replicate 16 9 @ replicate 32 23]"
  "failed_phase (dt_phase (iy_tasks (after_recovery False) ! 0))"
  "authenticated (iy_state (after_recovery False)) ''s''"
  by code_simp+

end
