(* ===== verification/Spec2Isabelle.thy ===== *)
theory Spec2Isabelle
  imports Kernel_Scope Kernel_Registry Queue_Repository Mutation_Middleware Workspace_Repository
    Settings_Repository State_File Identity_Repository Agent_Sessions Lease_Manager Queue_Service Web_ThreadActor Web_ComposerActor Web_QueueActor Web_ListActors Web_Gateway Relay_Safety Admin_Safety Admin_Middleware State_Snapshot Identity_Login
begin

text \<open>
  A verification library for CodexEverywhere, a gateway that lets a browser drive a Codex app server on
  a remote host. The program has four parts: a small kernel (\<open>packages/kernel\<close>) of lifetime scopes,
  actors, a service registry and an event bus; an agent on the host (\<open>apps/agent\<close>) that keeps its state
  in an SQLite file and answers the methods of the gateway; a web client (\<open>apps/web\<close>) whose screens are
  actors of the kernel; and a relay, cryptography and protocol schemas between them. The library models
  the kernel, the persistent core of the agent, the services that drive the app server, the protocol
  between client and agent, the relay and the actors of the web client.

  \<^bold>\<open>Correspondence\<close>

  \<^item> \<open>CE_Prelude\<close>: errors as the datatype \<open>ce_error\<close> (one constructor per error class), JSON values,
    transactions (\<open>run_tx\<close>: a body that throws is rolled back) and a small library of tables with a key
    column, which carries the proofs about SQL statements.
  \<^item> \<open>Kernel_Scope\<close>, \<open>Kernel_Actor\<close>, \<open>Kernel_Registry\<close>: \<open>scope.ts\<close>, \<open>actor.ts\<close>, \<open>service-registry.ts\<close>
    and \<open>typed-event-bus.ts\<close>. A scope is a record; closing it is a loop that is suspended at every \<open>await\<close>
    and other calls may come in between. An actor runs together with the effects in flight as the step
    relation \<open>sys_step\<close>; the locale \<open>effect_protocol\<close> turns one condition per transition of a reducer into
    an invariant of all reachable states, and the actors of the web client interpret it.
  \<^item> \<open>User_Db\<close>: the tables of \<open>state-schema.ts\<close> as records of rows. \<open>State_File\<close>: \<open>sqlite-state-file.ts\<close>,
    several processes that mirror one file; its contract towards the repositories is the locale
    \<open>transactional_store\<close>, interpreted on the file.
  \<^item> \<open>Queue_Repository\<close>, \<open>Receipt_Repository\<close>, \<open>Workspace_Repository\<close>, \<open>Settings_Repository\<close>,
    \<open>Identity_Repository\<close>:
    the repositories of \<open>apps/agent/src/v2/repositories\<close>, one definition
    per operation, each a transaction on \<open>user_db\<close>; \<open>now\<close>, generated ids and hashes are arguments.
  \<^item> \<open>State_Snapshot\<close>: \<open>user-state-database.ts\<close>, \<open>admin-state-database.ts\<close> and \<open>snapshot-sql.ts\<close>: export and
    replacement of a whole state; the locale \<open>constrained_table\<close> is the contract of a table and its INSERT.
  \<^item> \<open>Mutation_Middleware\<close>: \<open>services/mutation-middleware.ts\<close> over any receipt store (locale
    \<open>receipt_store\<close>, interpreted on the repository), with crashes and failing writes.
  \<^item> \<open>Agent_Sessions\<close>: \<open>authentication-rate-limiter.ts\<close> and \<open>session-ticket-service.ts\<close>; the clock, the
    random token and its hash are arguments.
  \<^item> \<open>Identity_Service\<close>: \<open>identity-service.ts\<close>, over the repository, the tickets and the limiter; a handler is a
    task whose phase is the operation it awaits, so that handlers interleave. WebAuthn, OPAQUE and scrypt are the
    argument \<open>crypto\<close>. \<open>Identity_Login\<close> proves what its interleavings ensure.
  \<^item> \<open>App_Server_Client\<close>, \<open>Interaction_Broker\<close>: the JSON-RPC client \<open>codex-app-server-client.ts\<close> (calls,
    messages, timers and closing of the transport as events on a record) and \<open>interaction-broker.ts\<close>, the
    requests of the app server that wait for the user.
  \<^item> \<open>Thread_Lease\<close>, \<open>Lease_Manager\<close>: \<open>thread-lease-manager.ts\<close>. The lease keeps the turns it has
    observed; the manager keeps leases, handles and the work in flight, and every continuation after an
    \<open>await\<close> is a step of its own.
  \<^item> \<open>Queue_Service\<close>: \<open>queue-service.ts\<close>, the delivery loop over the queue repository; a delivery is a
    task with a program counter, so that calls of the user come in between.
  \<^item> \<open>Web_Timeline\<close>, \<open>Web_ThreadActor\<close>, \<open>Web_ComposerActor\<close>, \<open>Web_QueueActor\<close>, \<open>Web_ListActors\<close>: the
    reducers and effect runners of \<open>apps/web/src/v4/actors\<close>; the answers of the gateway are arguments.
  \<^item> \<open>Gateway_Protocol\<close>: \<open>packages/protocol/src/v2\<close>: the registry of methods, the envelopes of requests and
    responses, the router, the client, and what the router consults of \<open>agent-gateway-session.ts\<close> and of
    \<open>mutation-middleware.ts\<close>. The schema validator is the argument \<open>zod\<close> with the laws \<open>zod_laws\<close>.
  \<^item> \<open>Web_Gateway\<close>: \<open>durable-mutation.ts\<close> (what a status request answers is a list of polls) and the
    reconnecting port of \<open>gateway-port.ts\<close> (a record with the events of its transports and timer).
  \<^item> \<open>Relay_Capability\<close>: \<open>relay-capability.ts\<close>; the keyed hash, base64url, JSON texts and dates are the
    argument \<open>codec\<close> with the laws \<open>codec_laws\<close>.
  \<^item> \<open>Relay_Server\<close>: \<open>apps/relay/src/relay-server.ts\<close>, a record and one definition per handler, timer and
    callback, composed to \<open>relay_step\<close>. \<open>Relay_Moves\<close> shows that every event is a sequence of moves of an
    abstract relation, and \<open>Relay_Safety\<close> proves invariants once for the moves.
  \<^item> \<open>Admin_Repository\<close>, \<open>Admin_Service\<close>, \<open>Admin_Middleware\<close>: \<open>admin-repository.ts\<close> (managed users and the
    audit log), \<open>admin-service.ts\<close> (a call is the list of its awaited operations; calls and maintenance
    runs interleave in \<open>admin_do\<close>, and every operation may fail before or after its effect) and
    \<open>admin-mutation-middleware.ts\<close>. \<open>Admin_Safety\<close> proves the invariants of the interleavings.

  \<^bold>\<open>What is shown\<close>

  \<^item> Safety of mutations: a durable mutation runs its handler at most once, also across crashes and
    failed writes; replays return the first answer.
  \<^item> The queue follows its life cycle, delivers an item at most once per decision of the user, and does so
    when several processes share the file. Recovery resends nothing.
  \<^item> The state file makes its processes behave as one store; optimistic updates are not lost; the
    authorization revision identifies the set of workspaces. A snapshot of a state loses nothing, and
    replacing a state by a snapshot either fails or stores a state that satisfies the schema.
  \<^item> A scope runs each cleanup once, in reverse order, and none is lost; superseded effects of an actor
    cannot write; the actors of the web client have, in every reachable state that shows work in progress,
    the live effect that will end it.
  \<^item> Grants, recovery codes and handoffs are consumed once, the first passkey or password is set once, and
    the key of a device is never replaced. A session becomes authenticated only by a call of its own that verified
    a proof against a live challenge, which is taken once. Tickets are equivalent to a table of live tokens, and the rate
    limiter admits at most its limit in every window.
  \<^item> A request to the app server is settled exactly once; a request of the app server is answered once.
  \<^item> A thread has at most one open lease, the number of leases stays within its limit, a lease with a live
    handle stays open, and a terminal turn is not undone by a late response. The delivery loop sends a
    queued message once per claim, however its tasks interleave.
  \<^item> The router calls a handler only for a request that is well formed, of a session that is current and has
    the access and the capability the method requires, and answers every request in the format of the method; a client and a
    router exchange results and errors without loss, and a mutation whose answer was lost is answered with
    the first result when it is sent again. The reconciliation of a durable mutation ends; the reconnecting
    port always has a transport, a timer or an attempt that will bring one, or has ended.
  \<^item> An issued capability verifies until it expires and is refused from then on. The relay keeps its limits, forwards only
    between the ends of an active tunnel while the route is authorized for the owner of the tunnel, and never
    replaces the capability of a route by an older one before it expires.
  \<^item> A managed user moves along its life cycle by single steps with increasing revisions, however the
    administrator's calls and maintenance interleave; its state is removed only while its status is
    \<open>removing\<close>, provided no two runs of maintenance overlap. The audit log is read completely page by page.
  \<^item> Where the code departs from what it means to do, a theorem states what it does instead.

  \<^bold>\<open>Bounds and choices\<close>

  Loops are recursions over data and need no fuel, except \<open>load_models\<close>, whose bound of 20 pages is the one
  of the source. Integers are HOL integers; where the source tests for safe integers the model does too.
  Timestamps are integers (the ISO strings of the source order alike). Texts of the user interface that are
  not ASCII are represented by ASCII constants.

  \<^bold>\<open>Not modelled\<close>

  The SQLite engine, file permissions and lock files (calls under a lock are atomic steps), SHA-256 and
  \<open>localeCompare\<close> (parameters), schema validation by the third-party library (a parameter), sockets,
  cryptographic primitives, process supervision, command line and rendering. Of the client of the app
  server the WebSocket handshake is left out, of the queue service the scheduling of titles, of the lease
  manager the texts of its log, of the gateway session its threads and events, of the relay the start of
  the listening server, of the administrator's service the accounts and agents of the operating system. The
  services for threads, side chats and setup, and the composition of the gateway, are not modelled.
\<close>

section \<open>Effects of the web client's actors\<close>

text \<open>
  Claim C8. An effect that was superseded can never change the state again: after a transition that
  drops the effects of the actor, the result of any effect started before it is ignored by the actor,
  now and in every later state the system of actor and effects can reach.
\<close>

theorem superseded_effects_cannot_write:
  assumes "\<not> tr_preserve (reducer (a_state a) ev)" and "\<not> a_closed a"
    and "actor_dispatch reducer ev a = (r, ns, a1)" and "sc < a_next_scope a"
    and "sys_run reducer external completes silent (a1, fs) (a2, fs2)"
  shows "context_dispatch reducer (g, sc) late a2 = (Inr [], [], a2)"
proof -
  have "sc < a_next_scope a1 \<and> \<not> is_current (g, sc) a1"
    by (rule supersede_makes_stale [OF assms(1,3,2,4)])
  then have "\<not> is_current (g, sc) a2"
    using run_keeps_stale [OF assms(5), of sc g] by simp
  then show ?thesis by (rule stale_dispatch_ignored)
qed

text \<open>The task list after its first request, and the actor after a second one for another workspace.\<close>

definition loading_tasks :: "task_list_state actor" where
  "loading_tasks = snd (snd (actor_dispatch task_list_reducer (L_load (Some ''w1'') None None)
     (projr (actor_new ''web'' False ''tasks'' task_list_initial))))"

definition reloading_tasks :: "task_list_state actor" where
  "reloading_tasks = snd (snd (actor_dispatch task_list_reducer (L_load (Some ''w2'') None None) loading_tasks))"

theorem superseded_effects_cannot_write_witness:
  "context_dispatch task_list_reducer (1, 0) (L_failed ''offline'') reloading_tasks = (Inr [], [], reloading_tasks)"
proof -
  let ?d = "actor_dispatch task_list_reducer (L_load (Some ''w2'') None None) loading_tasks"
  have a: "\<not> tr_preserve (task_list_reducer (a_state loading_tasks) (L_load (Some ''w2'') None None))"
    and b: "\<not> a_closed loading_tasks" and c: "0 < a_next_scope loading_tasks"
    by code_simp+
  have d: "?d = (fst ?d, fst (snd ?d), reloading_tasks)" by (simp add: reloading_tasks_def)
  show ?thesis
    by (rule superseded_effects_cannot_write [OF a b d c sys_run.run_refl
          [of _ "\<lambda>_. False" "\<lambda>_ _. False" "\<lambda>_. False" "(reloading_tasks, [])"]])
qed

section \<open>The queue in a shared file\<close>

text \<open>The calls of the queue repository as transactions on the state file.\<close>

definition unit_tx :: "('db, 'a) tx \<Rightarrow> ('db, unit) tx" where
  "unit_tx t db = map_sum id (map_prod (\<lambda>_. ()) id) (t db)"

fun queue_body :: "queue_op \<Rightarrow> (user_db, unit) tx" where
  "queue_body (QAdd i path thread content now) = unit_tx (queue_add i path thread content now)"
| "queue_body (QRemove i) = unit_tx (queue_remove i)"
| "queue_body (QPause i now) = unit_tx (queue_pause i now)"
| "queue_body (QResume i now) = unit_tx (queue_resume i now)"
| "queue_body (QClaim i revision operation replacement message now) =
     unit_tx (queue_claim i revision operation replacement message now)"
| "queue_body (QComplete identity turn now) = unit_tx (queue_complete identity turn now)"
| "queue_body (QMark identity now) = unit_tx (queue_markIndeterminate identity now)"
| "queue_body (QRecover now) = unit_tx (queue_recoverDelivering now)"
| "queue_body (QAcknowledge i d audit now) = unit_tx (queue_acknowledgeIndeterminate i d audit now)"

lemma run_unit_tx: "returns (run_tx (unit_tx t) db) = returns (run_tx t db)"
  by (cases "t db") (auto simp: run_tx_def returns_def unit_tx_def)

lemma queue_body_exec: "returns (run_tx (queue_body op) db) = queue_exec op db"
  by (cases op) (simp_all add: run_unit_tx)

text \<open>
  A call of the queue by one of the processes, with what the file system does to its write, and the
  number of claims of an item that were answered with success.
\<close>

type_synonym shared_call = "nat \<times> persist_outcome \<times> queue_op"

definition queue_calls :: "shared_call list \<Rightarrow> (user_db, unit) call list" where
  "queue_calls = map (\<lambda>(p, out, op). (p, out, queue_body op))"

fun granted_claims :: "string \<Rightarrow> shared_call list \<Rightarrow> (ce_error + unit) list \<Rightarrow> nat" where
  "granted_claims i ((p, out, op) # calls) (y # ys) =
     (if is_claim i op \<and> \<not> isl y then 1 else 0) + granted_claims i calls ys"
| "granted_claims i _ _ = 0"

lemma granted_le_successes:
  "granted_claims i calls (fst (reference_run (queue_calls calls) db)) \<le>
     successes (is_claim i) (map (snd \<circ> snd) calls) db"
proof (induction calls arbitrary: db)
  case (Cons call calls)
  obtain p out op where call: "call = (p, out, op)" by (cases call)
  obtain y db1 where r: "run_tx (queue_body op) db = (y, db1)" by (cases "run_tx (queue_body op) db")
  have ex: "queue_exec op db = (\<not> isl y, db1)" using queue_body_exec [of op db] r by (simp add: returns_def)
  show ?case
    using Cons.IH [of db1] call r ex
    by (cases y; cases out) (auto simp: queue_calls_def Let_def split: prod.splits)
qed (simp add: queue_calls_def)

lemma retries_bounded:
  "successes (is_retry i) ops db \<le> length (filter (is_retry i) ops)"
  by (induction ops arbitrary: db) (auto split: prod.splits intro: le_SucI)

lemma calls_within:
  assumes "\<forall>(p, out, op) \<in> set calls. p < n \<and> out \<noteq> FailedBeforeRename"
  shows "\<forall>(p, out, t) \<in> set (queue_calls calls). p < n \<and> out \<noteq> FailedBeforeRename"
  using assms by (induction calls) (auto simp: queue_calls_def)

text \<open>
  Claim C3. However many processes share the state file and however their calls interleave, an item of
  the queue that nobody had claimed is granted to at most one caller, plus one for every call with which
  the user decided to retry it: two processes never deliver the same message on their own account. The
  bound holds as long as no write fails before its rename.
\<close>

theorem shared_queue_grants_item_once:
  assumes "\<forall>sf \<in> set procs. mirrors spec d sf \<and> \<not> sf_closed sf"
    and "\<forall>(p, out, op) \<in> set calls. p < length procs \<and> out \<noteq> FailedBeforeRename"
    and "queue_inv (stored d)" and "snd (qview (stored d) i) = None"
    and "shared_run spec (queue_calls calls) procs d = (ys, d')"
  shows "granted_claims i calls ys \<le> 1 + length (filter (is_retry i) (map (snd \<circ> snd) calls))"
proof -
  let ?ops = "map (snd \<circ> snd) calls"
  have ys: "ys = fst (reference_run (queue_calls calls) (stored d))"
    using shared_run_reference [OF assms(1) calls_within [OF assms(2)] assms(5)]
    by (metis fst_conv)
  have "granted_claims i calls ys \<le> successes (is_claim i) ?ops (stored d)"
    unfolding ys by (rule granted_le_successes)
  also have "\<dots> \<le> successes (is_retry i) ?ops (stored d) + claimed_now i (queue_run ?ops (stored d))"
    using claims_balance [OF assms(3), of i ?ops] by simp
  also have "\<dots> \<le> 1 + length (filter (is_retry i) ?ops)"
    using retries_bounded [of i ?ops "stored d"] by (simp add: claimed_now_def)
  finally show ?thesis .
qed

lemma empty_qview: "qview (empty_user_db now) i = (None, None)"
  by (simp add: qview_def empty_user_db_def)

text \<open>Two agents that opened the same file race for one item.\<close>

definition queue_content :: "user_db content" where
  "queue_content = \<lparr>ct_application_id = 7, ct_user_version = 2, ct_tables = [], ct_data = empty_user_db 0\<rparr>"

definition queue_spec :: "user_db state_spec" where
  "queue_spec = \<lparr>sp_kind = ''user'', sp_application_id = 7, sp_schema_version = 2,
     sp_schema = queue_content, sp_migrations = [], sp_required_tables = []\<rparr>"

definition queue_process :: "user_db state_file" where
  "queue_process = \<lparr>sf_database = queue_content, sf_revision = Some 0, sf_closed = False\<rparr>"

definition queue_disk :: "user_db disk" where
  "queue_disk = \<lparr>dk_file = Some (queue_content, 0), dk_next_revision = 1\<rparr>"

definition queue_race :: "shared_call list" where
  "queue_race = [(0, Persisted False, QAdd ''q1'' ''/srv/app'' ''t1'' ''hello'' 10),
     (1, Persisted True, QClaim ''q1'' 0 ''turn/start'' None ''m1'' 11),
     (0, Persisted True, QClaim ''q1'' 0 ''turn/start'' None ''m2'' 12)]"

theorem shared_queue_grants_item_once_witness:
  "granted_claims ''q1'' queue_race
     (fst (shared_run queue_spec (queue_calls queue_race) [queue_process, queue_process] queue_disk)) \<le> 1"
proof -
  obtain ys d' where r: "shared_run queue_spec (queue_calls queue_race) [queue_process, queue_process] queue_disk = (ys, d')"
    by (cases "shared_run queue_spec (queue_calls queue_race) [queue_process, queue_process] queue_disk")
  have st: "stored queue_disk = empty_user_db 0" by (simp add: stored_def queue_disk_def queue_content_def)
  have m: "mirrors queue_spec queue_disk queue_process" "\<not> sf_closed queue_process"
    by (simp_all add: mirrors_def queue_disk_def queue_process_def queue_spec_def queue_content_def state_validate_def)
  have "granted_claims ''q1'' queue_race ys \<le> 1 + length (filter (is_retry ''q1'') (map (snd \<circ> snd) queue_race))"
    by (intro shared_queue_grants_item_once [OF _ _ _ _ r])
      (simp_all add: st m empty_queue_inv empty_qview queue_race_def)
  moreover have "filter (is_retry ''q1'') (map (snd \<circ> snd) queue_race) = []" by (simp add: queue_race_def)
  ultimately show ?thesis by (simp add: r)
qed

end
